(* ===== verification/Prelude.thy ===== *)
theory Prelude
  imports Main
begin

text \<open>
  Shared notions of the development: the clock, the two list shapes the stores of
  the program use (an entry list with one entry per key, and a bounded queue), the
  result type of the fallible operations, and the lemmas on them that the component
  theories rest on. The collection \<open>store_simps\<close> gathers the rewriting facts
  about stores.
\<close>

named_theorems store_simps \<open>rewriting facts about the entry lists of the stores\<close>
named_theorems gate_defs \<open>the definitions of the policy gates\<close>

section \<open>Clock\<close>

text \<open>
  A monotonic instant (\<open>std::time::Instant\<close>) is a number of nanoseconds since an
  arbitrary start; \<open>elapsed\<close> saturates at zero, which is truncating subtraction on
  natural numbers. A wall-clock time (seconds of the Unix epoch, \<open>i64\<close>) is an integer.
\<close>

type_synonym instant = nat
type_synonym unix_time = int

definition seconds :: "nat \<Rightarrow> instant" where
  "seconds n = n * 1000000000"

definition millis :: "nat \<Rightarrow> instant" where
  "millis n = n * 1000000"

definition elapsed :: "instant \<Rightarrow> instant \<Rightarrow> instant" where
  "elapsed now at = now - at"

lemma seconds_mono [simp]: "seconds m \<le> seconds n \<longleftrightarrow> m \<le> n"
  by (simp add: seconds_def)

lemma millis_less [simp]: "millis m < millis n \<longleftrightarrow> m < n"
  by (simp add: millis_def)

lemma elapsed_self [simp]: "elapsed t t = 0"
  by (simp add: elapsed_def)

lemma elapsed_less_iff: "0 < d \<Longrightarrow> elapsed now at < d \<longleftrightarrow> now < at + d"
  by (auto simp: elapsed_def)

section \<open>Unsigned 64-bit arithmetic\<close>

definition sat_add64 :: "nat \<Rightarrow> nat \<Rightarrow> nat" where
  \<comment> \<open>\<open>u64::saturating_add\<close>\<close>
  "sat_add64 a b = min (a + b) (2 ^ 64 - 1)"

lemma sat_add64_bound: "sat_add64 a b \<le> 2 ^ 64 - 1"
  by (simp add: sat_add64_def)

lemma sat_add64_ge: "a \<le> 2 ^ 64 - 1 \<Longrightarrow> a \<le> sat_add64 a b"
  by (simp add: sat_add64_def)

section \<open>Entry lists: \<open>retain\<close> the others, then \<open>push\<close>\<close>

definition put_last :: "('a \<Rightarrow> 'k) \<Rightarrow> 'a \<Rightarrow> 'a list \<Rightarrow> 'a list" where
  "put_last key x xs = filter (\<lambda>y. key y \<noteq> key x) xs @ [x]"

lemma set_put_last [store_simps]:
  "set (put_last key x xs) = insert x {y \<in> set xs. key y \<noteq> key x}"
  by (auto simp: put_last_def)

lemma distinct_put_last:
  "distinct (map key xs) \<Longrightarrow> distinct (map key (put_last key x xs))"
  by (auto simp: put_last_def distinct_map inj_on_def)

lemma distinct_keys_filter: "distinct (map key xs) \<Longrightarrow> distinct (map key (filter P xs))"
  by (auto simp: distinct_map inj_on_def)

lemma distinct_keys_eqD:
  "distinct (map key xs) \<Longrightarrow> x \<in> set xs \<Longrightarrow> y \<in> set xs \<Longrightarrow> key x = key y \<Longrightarrow> x = y"
  by (auto simp: distinct_map inj_on_def)

lemma length_put_last: "length (put_last key x xs) \<le> Suc (length xs)"
  by (simp add: put_last_def)

section \<open>Bounded queues: drop the oldest when full, then append\<close>

definition push_capped :: "nat \<Rightarrow> 'a \<Rightarrow> 'a list \<Rightarrow> 'a list" where
  "push_capped cap x xs = (if length xs = cap then tl xs else xs) @ [x]"

lemma length_push_capped:
  "length xs \<le> cap \<Longrightarrow> 0 < cap \<Longrightarrow> length (push_capped cap x xs) \<le> cap"
  by (auto simp: push_capped_def)

lemma set_push_capped: "set (push_capped cap x xs) \<subseteq> insert x (set xs)"
  by (cases xs) (auto simp: push_capped_def)

lemma last_push_capped [simp]: "last (push_capped cap x xs) = x"
  by (simp add: push_capped_def)

lemma distinct_tl_keys: "distinct (map key xs) \<Longrightarrow> distinct (map key (tl xs))"
  by (cases xs) auto

section \<open>Searching lists\<close>

lemma find_None_iff_ex: "(\<exists>x. find P xs = Some x) \<longleftrightarrow> (\<exists>x \<in> set xs. P x)"
  by (induction xs) auto

lemma find_SomeD: "find P xs = Some x \<Longrightarrow> x \<in> set xs \<and> P x"
  by (induction xs) (auto split: if_splits)

lemma find_unique:
  assumes "distinct (map key xs)" and "x \<in> set xs" and "key x = k"
  shows "find (\<lambda>y. key y = k) xs = Some x"
  using assms by (induction xs) (auto simp: image_iff)

lemma find_filter_other:
  "(\<And>y. P y \<Longrightarrow> Q y) \<Longrightarrow> find P (filter Q xs) = find P xs"
  by (induction xs) auto

lemma find_append: "find P (xs @ ys) = (case find P xs of None \<Rightarrow> find P ys | Some x \<Rightarrow> Some x)"
  by (induction xs) auto

lemma list_ex_key: "list_ex (\<lambda>x. key x = k) xs \<longleftrightarrow> k \<in> key ` set xs"
  by (auto simp: list_ex_iff)

section \<open>Results\<close>

text \<open>
  A fallible operation returns \<open>Inl\<close> of what the caller is told or \<open>Inr\<close> of the value.
\<close>

type_synonym ('e, 'a) result = "'e + 'a"

abbreviation Err :: "'e \<Rightarrow> 'e + 'a" where "Err \<equiv> Inl"
abbreviation Ok :: "'a \<Rightarrow> 'e + 'a" where "Ok \<equiv> Inr"

definition is_ok :: "'e + 'a \<Rightarrow> bool" where
  "is_ok r = (case r of Inl _ \<Rightarrow> False | Inr _ \<Rightarrow> True)"

lemma is_ok_simps [simp]: "is_ok (Inl e) = False" "is_ok (Inr x) = True"
  by (simp_all add: is_ok_def)

lemma is_ok_iff: "is_ok r \<longleftrightarrow> (\<exists>x. r = Inr x)"
  by (cases r) auto

end
