(* ===== verification/Unicode_Text.thy ===== *)
theory Unicode_Text
  imports Prelude
begin

text \<open>
  Text as the program's character-level functions see it: a Rust \<open>&str\<close> iterated by
  \<open>chars()\<close> is a list of Unicode scalar values, here numbers. \<open>len()\<close> counts UTF-8
  bytes, \<open>chars().count()\<close> counts scalar values. The ASCII literals of the source
  are written \<open>lit ''...''\<close>.
\<close>

type_synonym uchar = nat
type_synonym utext = "nat list"

definition lit :: "string \<Rightarrow> utext" where
  \<comment> \<open>an ASCII literal of the source as scalar values\<close>
  "lit s = map of_char s"

lemma lit_eq_iff [simp]: "lit a = lit b \<longleftrightarrow> a = b"
proof -
  have "inj (of_char :: char \<Rightarrow> nat)" by (rule injI) simp
  then show ?thesis by (auto simp: lit_def inj_map_eq_map)
qed

lemma lit_Nil_iff [simp]: "lit a = [] \<longleftrightarrow> a = []" "[] = lit a \<longleftrightarrow> a = []"
  by (simp_all add: lit_def)

lemma set_lit: "set (lit s) = of_char ` set s"
  by (simp add: lit_def)

lemma length_lit [simp]: "length (lit s) = length s"
  by (simp add: lit_def)

fun char_utf8_len :: "uchar \<Rightarrow> nat" where
  "char_utf8_len c = (if c < 128 then 1 else if c < 2048 then 2 else if c < 65536 then 3 else 4)"

definition utf8_len :: "utext \<Rightarrow> nat" where
  \<comment> \<open>\<open>str::len\<close>\<close>
  "utf8_len s = sum_list (map char_utf8_len s)"

definition is_control :: "uchar \<Rightarrow> bool" where
  \<comment> \<open>\<open>char::is_control\<close>: general category Cc\<close>
  "is_control c \<longleftrightarrow> c < 32 \<or> (127 \<le> c \<and> c < 160)"

definition is_whitespace :: "uchar \<Rightarrow> bool" where
  \<comment> \<open>\<open>char::is_whitespace\<close>: the property White_Space\<close>
  "is_whitespace c \<longleftrightarrow> (9 \<le> c \<and> c \<le> 13) \<or> c = 32 \<or> c = 133 \<or> c = 160 \<or> c = 5760
     \<or> (8192 \<le> c \<and> c \<le> 8202) \<or> c = 8232 \<or> c = 8233 \<or> c = 8239 \<or> c = 8287 \<or> c = 12288"

definition is_ascii_digit :: "uchar \<Rightarrow> bool" where
  "is_ascii_digit c \<longleftrightarrow> 48 \<le> c \<and> c \<le> 57"

definition ascii_lower :: "uchar \<Rightarrow> uchar" where
  "ascii_lower c = (if 65 \<le> c \<and> c \<le> 90 then c + 32 else c)"

definition eq_ignore_ascii_case :: "utext \<Rightarrow> utext \<Rightarrow> bool" where
  "eq_ignore_ascii_case a b \<longleftrightarrow> map ascii_lower a = map ascii_lower b"

definition trim_start :: "utext \<Rightarrow> utext" where
  "trim_start s = dropWhile is_whitespace s"

definition trim :: "utext \<Rightarrow> utext" where
  \<comment> \<open>\<open>str::trim\<close>\<close>
  "trim s = rev (dropWhile is_whitespace (rev (dropWhile is_whitespace s)))"

section \<open>Lemmas\<close>

lemma trim_Nil [simp]: "trim [] = []"
  by (simp add: trim_def)

lemma utf8_len_simps [simp]:
  "utf8_len [] = 0" "utf8_len (c # s) = char_utf8_len c + utf8_len s"
  "utf8_len (s @ t) = utf8_len s + utf8_len t"
  by (simp_all add: utf8_len_def)

lemma char_utf8_len_bounds: "1 \<le> char_utf8_len c" "char_utf8_len c \<le> 4"
  by auto

declare char_utf8_len.simps [simp del]

lemma length_le_utf8_len: "length s \<le> utf8_len s"
proof (induction s)
  case (Cons c s)
  then show ?case using char_utf8_len_bounds(1) [of c] by simp
qed simp

lemma utf8_len_le: "utf8_len s \<le> 4 * length s"
proof (induction s)
  case (Cons c s)
  then show ?case using char_utf8_len_bounds(2) [of c] by simp
qed simp

lemma trim_end_split:
  "s = rev (dropWhile P (rev s)) @ rev (takeWhile P (rev s))"
  using takeWhile_dropWhile_id [of P "rev s"] by (metis rev_append rev_rev_ident)

lemma trim_start_split: "dropWhile is_whitespace s = trim s @ rev (takeWhile is_whitespace (rev (dropWhile is_whitespace s)))"
  unfolding trim_def by (rule trim_end_split)

lemma trim_dropWhile_split: "\<exists>a b. s = a @ trim s @ b"
  by (metis takeWhile_dropWhile_id trim_start_split)

lemma set_trim: "set (trim s) \<subseteq> set s"
  using trim_dropWhile_split [of s] by (metis Un_iff set_append subsetI)

lemma length_trim: "length (trim s) \<le> length s"
proof -
  obtain a b where "s = a @ trim s @ b" using trim_dropWhile_split by blast
  then have "length s = length (a @ trim s @ b)" by (rule arg_cong)
  then show ?thesis by simp
qed

lemma utf8_len_trim: "utf8_len (trim s) \<le> utf8_len s"
proof -
  obtain a b where "s = a @ trim s @ b" using trim_dropWhile_split by blast
  then have "utf8_len s = utf8_len (a @ trim s @ b)" by (rule arg_cong)
  then show ?thesis by simp
qed

definition trimmed :: "utext \<Rightarrow> bool" where
  "trimmed s \<longleftrightarrow> s = [] \<or> (\<not> is_whitespace (hd s) \<and> \<not> is_whitespace (last s))"

lemma trim_trimmed: "trimmed s \<Longrightarrow> trim s = s"
proof (cases s rule: rev_cases)
  case (snoc xs x)
  assume "trimmed s"
  with snoc have *: "\<not> is_whitespace (hd (xs @ [x]))" "\<not> is_whitespace x"
    by (auto simp: trimmed_def)
  then have "dropWhile is_whitespace (xs @ [x]) = xs @ [x]"
    by (cases xs) auto
  with * snoc show ?thesis by (simp add: trim_def)
qed (simp add: trim_def)

lemma trimmed_trim: "trimmed (trim s)"
proof (cases "trim s = []")
  case False
  let ?m = "dropWhile is_whitespace s"
  have ne: "dropWhile is_whitespace (rev ?m) \<noteq> []"
    using False unfolding trim_def by (metis rev.simps(1))
  then have m: "?m \<noteq> []" by (metis dropWhile.simps(1) rev.simps(1))
  have "\<not> is_whitespace (last (trim s))"
    using hd_dropWhile [OF ne] ne by (simp add: trim_def last_rev)
  moreover have "hd (trim s) = hd ?m"
    using False by (metis hd_append2 trim_start_split)
  ultimately show ?thesis using hd_dropWhile [OF m] by (simp add: trimmed_def)
qed (simp add: trimmed_def)

lemma trim_idem [simp]: "trim (trim s) = trim s"
  by (rule trim_trimmed [OF trimmed_trim])

lemma eq_ignore_ascii_case_refl [simp]: "eq_ignore_ascii_case a a"
  by (simp add: eq_ignore_ascii_case_def)

section \<open>More of \<open>str\<close>\<close>

definition to_ascii_lowercase :: "utext \<Rightarrow> utext" where
  "to_ascii_lowercase s = map ascii_lower s"

definition is_ascii_alphanumeric :: "uchar \<Rightarrow> bool" where
  "is_ascii_alphanumeric c \<longleftrightarrow> is_ascii_digit c \<or> (65 \<le> c \<and> c \<le> 90) \<or> (97 \<le> c \<and> c \<le> 122)"

fun split_char :: "uchar \<Rightarrow> utext \<Rightarrow> utext list" where
  \<comment> \<open>\<open>str::split\<close> at a character: one piece more than separators\<close>
  "split_char d [] = [[]]"
| "split_char d (c # s) =
     (if c = d then [] # split_char d s
      else case split_char d s of [] \<Rightarrow> [[c]] | p # ps \<Rightarrow> (c # p) # ps)"

lemma length_dropWhile_less [termination_simp]: "length (dropWhile P s) < Suc (length s)"
  by (simp add: length_dropWhile_le less_Suc_eq_le)

fun split_whitespace :: "utext \<Rightarrow> utext list" where
  "split_whitespace [] = []"
| "split_whitespace (c # s) =
     (if is_whitespace c then split_whitespace s
      else (c # takeWhile (\<lambda>x. \<not> is_whitespace x) s)
             # split_whitespace (dropWhile (\<lambda>x. \<not> is_whitespace x) s))"

fun join :: "utext \<Rightarrow> utext list \<Rightarrow> utext" where
  "join d [] = []"
| "join d [x] = x"
| "join d (x # y # xs) = x @ d @ join d (y # xs)"

definition starts_with :: "utext \<Rightarrow> utext \<Rightarrow> bool" where
  "starts_with p s \<longleftrightarrow> take (length p) s = p"

definition ends_with :: "utext \<Rightarrow> utext \<Rightarrow> bool" where
  "ends_with p s \<longleftrightarrow> length p \<le> length s \<and> drop (length s - length p) s = p"

fun contains_str :: "utext \<Rightarrow> utext \<Rightarrow> bool" where
  "contains_str p [] \<longleftrightarrow> p = []"
| "contains_str p (c # s) \<longleftrightarrow> starts_with p (c # s) \<or> contains_str p s"

definition strip_prefix :: "utext \<Rightarrow> utext \<Rightarrow> utext option" where
  "strip_prefix p s = (if starts_with p s then Some (drop (length p) s) else None)"

function trim_start_matches :: "utext \<Rightarrow> utext \<Rightarrow> utext" where
  "trim_start_matches p s =
     (if p \<noteq> [] \<and> s \<noteq> [] \<and> starts_with p s then trim_start_matches p (drop (length p) s) else s)"
  by auto
termination by (relation "measure (\<lambda>(p, s). length s)") auto

declare trim_start_matches.simps [simp del]

lemma split_char_ne [simp]: "split_char d s \<noteq> []"
  by (induction s) (auto split: list.splits)

lemma split_char_pieces: "p \<in> set (split_char d s) \<Longrightarrow> d \<notin> set p"
proof (induction s arbitrary: p)
  case (Cons c s)
  then show ?case by (cases "split_char d s") (auto split: if_splits)
qed simp

lemma join_split_char: "join [d] (split_char d s) = s"
proof (induction s)
  case (Cons c s)
  have "join [d] ([] # split_char d s) = d # join [d] (split_char d s)"
    by (cases "split_char d s") simp_all
  moreover have "split_char d s = p # ps \<Longrightarrow> join [d] ((c # p) # ps) = c # join [d] (p # ps)" for p ps
    by (cases ps) simp_all
  ultimately show ?case using Cons by (cases "split_char d s") (auto)
qed simp

lemma to_ascii_lowercase_idem [simp]:
  "to_ascii_lowercase (to_ascii_lowercase s) = to_ascii_lowercase s"
  by (simp add: to_ascii_lowercase_def ascii_lower_def)

text \<open>\<open>Display\<close> of an unsigned number.\<close>

function digits :: "nat \<Rightarrow> utext" where
  "digits n = (if n < 10 then [48 + n] else digits (n div 10) @ [48 + n mod 10])"
  by auto
termination by (relation "measure id") auto

declare digits.simps [simp del]

text \<open>
  \<open>Debug\<close> of a text: in quotes, with quotes, backslashes and control characters escaped. The
  escapes of other characters that do not print are left out.
\<close>

definition hex_digit :: "nat \<Rightarrow> uchar" where
  "hex_digit n = (if n < 10 then 48 + n else 87 + n)"

definition debug_char :: "uchar \<Rightarrow> utext" where
  "debug_char c =
     (if c = 34 \<or> c = 92 then [92, c]
      else if c = 0 then [92, 48]
      else if c = 9 then [92, 116]
      else if c = 10 then [92, 110]
      else if c = 13 then [92, 114]
      else if is_control c then [92, 117, 123] @ (if c < 16 then [hex_digit c] else [hex_digit (c div 16), hex_digit (c mod 16)]) @ [125]
      else [c])"

definition quoted :: "utext \<Rightarrow> utext" where
  "quoted t = 34 # concat (map debug_char t) @ [34]"

end
