(* ===== verification/Grants.thy ===== *)
theory Grants
  imports Unicode_Text
begin

text \<open>
  \<open>crates/connect-core/src/grant.rs\<close>: the owner's answers and the grant store. A grant
  is (synth, capability, scope, until); the store is the vector behind the mutex, each
  operation one function from the old vector to the new one. The store refines a map
  from (synth, capability, scope) to the expiry (\<open>grant_view\<close>), and the interface its
  callers use is the locale \<open>consent_book\<close>: an answer is for exactly one key, a
  refusal changes nothing, and unlinking a synth forgets that synth's answers only.
\<close>

section \<open>Answers\<close>

datatype duration = Once | Session | Until unix_time | Always

record approval =
  allow :: bool
  lasts :: duration

definition approval_deny :: approval where
  "approval_deny = \<lparr>allow = False, lasts = Once\<rparr>"

definition approval_once :: approval where
  "approval_once = \<lparr>allow = True, lasts = Once\<rparr>"

definition approval_always :: approval where
  "approval_always = \<lparr>allow = True, lasts = Always\<rparr>"

datatype remember = AnyDuration | AlwaysOnly | NeverRemember

fun remember_allows :: "remember \<Rightarrow> duration \<Rightarrow> bool" where
  "remember_allows _ Once = True"
| "remember_allows AnyDuration _ = True"
| "remember_allows AlwaysOnly Always = True"
| "remember_allows _ _ = False"

fun remember_label :: "remember \<Rightarrow> utext" where
  "remember_label AnyDuration = (lit ''any'')"
| "remember_label AlwaysOnly = (lit ''always'')"
| "remember_label NeverRemember = (lit ''never'')"

fun until_unix :: "duration \<Rightarrow> unix_time" where
  "until_unix Once = 0"
| "until_unix Session = 0"
| "until_unix Always = 0"
| "until_unix (Until t) = t"

section \<open>The synth's reason, sanitized\<close>

definition MAX_REASON :: nat where "MAX_REASON = 400"

fun sanitize_loop :: "utext \<Rightarrow> utext \<Rightarrow> utext" where
  "sanitize_loop out [] = out"
| "sanitize_loop out (c # cs) =
     (if MAX_REASON \<le> utf8_len out then out
      else if is_control c then
        (if c = 10 \<or> c = 9 then sanitize_loop (out @ [32]) cs else sanitize_loop out cs)
      else sanitize_loop (out @ [c]) cs)"

definition sanitize_reason :: "utext \<Rightarrow> utext" where
  "sanitize_reason s = trim (sanitize_loop [] s)"

record approval_request =
  rq_capability :: utext
  rq_scope :: utext
  rq_reason :: utext
  rq_summary :: utext
  rq_details :: "(utext \<times> utext) list"
  rq_remember :: remember
  rq_synth :: "utext option"

definition new_request :: "utext \<Rightarrow> utext \<Rightarrow> utext \<Rightarrow> utext \<Rightarrow> approval_request" where
  "new_request cap sc reason summary =
     \<lparr>rq_capability = cap, rq_scope = sc, rq_reason = sanitize_reason reason,
      rq_summary = summary, rq_details = [], rq_remember = AnyDuration, rq_synth = None\<rparr>"

section \<open>The store\<close>

record grant =
  g_synth :: utext
  g_capability :: utext
  g_scope :: utext
  g_until :: "unix_time option"  \<comment> \<open>None = session, Some 0 = forever, Some t = until t\<close>

type_synonym grant_key = "utext \<times> utext \<times> utext"
type_synonym grant_store = "grant list"

definition grant_key :: "grant \<Rightarrow> grant_key" where
  "grant_key x = (g_synth x, g_capability x, g_scope x)"

definition live :: "unix_time \<Rightarrow> unix_time option \<Rightarrow> bool" where
  "live now u = (case u of None \<Rightarrow> True | Some t \<Rightarrow> t = 0 \<or> now < t)"

fun until_of :: "duration \<Rightarrow> unix_time option option" where
  "until_of Once = None"
| "until_of Session = Some None"
| "until_of Always = Some (Some 0)"
| "until_of (Until t) = Some (Some t)"

definition record_grant ::
  "utext \<Rightarrow> utext \<Rightarrow> utext \<Rightarrow> approval \<Rightarrow> grant_store \<Rightarrow> grant_store" where
  "record_grant synth cap sc a g =
     (if \<not> allow a then g
      else case until_of (lasts a) of
          None \<Rightarrow> g
        | Some u \<Rightarrow> put_last grant_key
            \<lparr>g_synth = synth, g_capability = cap, g_scope = sc, g_until = u\<rparr> g)"

definition prune :: "unix_time \<Rightarrow> grant_store \<Rightarrow> grant_store" where
  "prune now g = filter (\<lambda>x. live now (g_until x)) g"

definition grant_allows ::
  "unix_time \<Rightarrow> utext \<Rightarrow> utext \<Rightarrow> utext \<Rightarrow> grant_store \<Rightarrow> bool \<times> grant_store" where
  \<comment> \<open>the check also drops what has expired\<close>
  "grant_allows now synth cap sc g =
     (let g' = prune now g
      in (\<exists>x \<in> set g'. g_synth x = synth \<and> g_capability x = cap \<and> g_scope x = sc
                      \<and> live now (g_until x), g'))"

definition revoke :: "utext \<Rightarrow> utext \<Rightarrow> utext \<Rightarrow> grant_store \<Rightarrow> grant_store" where
  "revoke synth cap sc g =
     filter (\<lambda>x. \<not> (g_synth x = synth \<and> g_capability x = cap \<and> g_scope x = sc)) g"

definition revoke_everywhere :: "utext \<Rightarrow> utext \<Rightarrow> grant_store \<Rightarrow> grant_store" where
  "revoke_everywhere cap sc g = filter (\<lambda>x. \<not> (g_capability x = cap \<and> g_scope x = sc)) g"

definition restore ::
  "unix_time \<Rightarrow> utext \<Rightarrow> utext \<Rightarrow> utext \<Rightarrow> unix_time \<Rightarrow> grant_store \<Rightarrow> grant_store" where
  "restore now synth cap sc until g =
     (if until \<noteq> 0 \<and> until \<le> now then g
      else put_last grant_key
             \<lparr>g_synth = synth, g_capability = cap, g_scope = sc, g_until = Some until\<rparr> g)"

definition clear_grants :: "grant_store \<Rightarrow> grant_store" where
  "clear_grants g = []"

definition clear_synth :: "utext \<Rightarrow> grant_store \<Rightarrow> grant_store" where
  "clear_synth synth g = filter (\<lambda>x. g_synth x \<noteq> synth) g"

record grant_row =
  row_synth :: utext
  row_capability :: utext
  row_scope :: utext
  row_until :: unix_time  \<comment> \<open>0 = forever, -1 = session, else the second it ends\<close>

definition grant_list :: "unix_time \<Rightarrow> grant_store \<Rightarrow> grant_row list" where
  "grant_list now g =
     map (\<lambda>x. \<lparr>row_synth = g_synth x, row_capability = g_capability x, row_scope = g_scope x,
               row_until = (case g_until x of None \<Rightarrow> - 1 | Some t \<Rightarrow> t)\<rparr>)
       (filter (\<lambda>x. live now (g_until x)) g)"

section \<open>Lemmas on the sanitized reason\<close>

lemma sanitize_loop_no_control:
  "(\<forall>c \<in> set out. \<not> is_control c) \<Longrightarrow> c \<in> set (sanitize_loop out s) \<Longrightarrow> \<not> is_control c"
  by (induction out s rule: sanitize_loop.induct) (auto split: if_splits simp: is_control_def)

lemma sanitize_loop_len:
  "utf8_len out \<le> MAX_REASON + 3 \<Longrightarrow> utf8_len (sanitize_loop out s) \<le> MAX_REASON + 3"
proof (induction out s rule: sanitize_loop.induct)
  case (2 out c cs)
  then show ?case
    using char_utf8_len_bounds(2) [of c] char_utf8_len_bounds(2) [of 32] by auto
qed simp

text \<open>Text without control characters and short of the cap is copied.\<close>

lemma sanitize_loop_copies:
  "\<forall>c \<in> set s. \<not> is_control c \<Longrightarrow> s \<noteq> [] \<Longrightarrow> utf8_len (out @ butlast s) < MAX_REASON
     \<Longrightarrow> sanitize_loop out s = out @ s"
proof (induction s arbitrary: out)
  case (Cons c s)
  show ?case
  proof (cases "s = []")
    case False
    with Cons.prems have "utf8_len ((out @ [c]) @ butlast s) < MAX_REASON" by simp
    with Cons False have "sanitize_loop (out @ [c]) s = (out @ [c]) @ s" by simp
    with Cons.prems show ?thesis by auto
  qed (use Cons.prems in auto)
qed simp

lemma sanitize_loop_butlast:
  "out = [] \<or> utf8_len (butlast out) < MAX_REASON \<Longrightarrow>
   sanitize_loop out s = [] \<or> utf8_len (butlast (sanitize_loop out s)) < MAX_REASON"
  by (induction out s rule: sanitize_loop.induct) (auto simp: butlast_append)

lemma utf8_len_butlast_mono: "utf8_len (butlast (trim s)) \<le> utf8_len (butlast s)"
proof (cases "trim s = []")
  case False
  obtain a b where s: "s = a @ trim s @ b" using trim_dropWhile_split by blast
  let ?t = "trim s"
  have "butlast s = a @ (if b = [] then butlast ?t else ?t @ butlast b)"
    using False by (subst s) (simp add: butlast_append)
  moreover have "utf8_len (butlast ?t) \<le> utf8_len ?t"
    using False by (cases ?t rule: rev_cases) auto
  ultimately show ?thesis by auto
qed simp

text \<open>
  the text of the synth that reaches the approval window has no control character,
  is at most 403 bytes long (the cap of 400 is checked before a character is added, and
  a character is at most four bytes), and sanitizing it again changes nothing.
\<close>

theorem sanitize_reason_safe:
  "\<not> (\<exists>c \<in> set (sanitize_reason s). is_control c) \<and>
   utf8_len (sanitize_reason s) \<le> 403 \<and>
   sanitize_reason (sanitize_reason s) = sanitize_reason s"
proof (intro conjI)
  let ?r = "sanitize_loop [] s"
  have nc: "c \<in> set ?r \<Longrightarrow> \<not> is_control c" for c
    using sanitize_loop_no_control [of "[]"] by simp
  then have nct: "c \<in> set (sanitize_reason s) \<Longrightarrow> \<not> is_control c" for c
    using set_trim by (auto simp: sanitize_reason_def)
  then show "\<not> (\<exists>c \<in> set (sanitize_reason s). is_control c)" by blast
  have "utf8_len ?r \<le> 403"
    using sanitize_loop_len [of "[]" s] by (simp add: MAX_REASON_def)
  then show "utf8_len (sanitize_reason s) \<le> 403"
    using utf8_len_trim [of ?r] by (simp add: sanitize_reason_def)
  show "sanitize_reason (sanitize_reason s) = sanitize_reason s"
  proof (cases "sanitize_reason s = []")
    case False
    then have "?r \<noteq> []" by (auto simp: sanitize_reason_def trim_def)
    then have "utf8_len (butlast ?r) < MAX_REASON" using sanitize_loop_butlast [of "[]" s] by blast
    then have "utf8_len (butlast (sanitize_reason s)) < MAX_REASON"
      using utf8_len_butlast_mono [of ?r] by (simp add: sanitize_reason_def)
    with nct False have "sanitize_loop [] (sanitize_reason s) = sanitize_reason s"
      using sanitize_loop_copies [of "sanitize_reason s" "[]"] by simp
    then have "sanitize_reason (sanitize_reason s) = trim (sanitize_reason s)"
      unfolding sanitize_reason_def [of "sanitize_reason s"] by (rule arg_cong)
    then show ?thesis by (simp add: sanitize_reason_def)
  qed (simp add: sanitize_reason_def [of "[]"] trim_def)
qed

section \<open>The store as a map\<close>

definition grant_view :: "grant_store \<Rightarrow> grant_key \<Rightarrow> unix_time option option" where
  "grant_view g k = map_option g_until (find (\<lambda>x. grant_key x = k) g)"

definition wf_grants :: "grant_store \<Rightarrow> bool" where
  "wf_grants g \<longleftrightarrow> distinct (map grant_key g)"

definition holds :: "unix_time \<Rightarrow> grant_key \<Rightarrow> grant_store \<Rightarrow> bool" where
  "holds now k g = (case grant_view g k of None \<Rightarrow> False | Some u \<Rightarrow> live now u)"

lemma grant_view_member:
  "wf_grants g \<Longrightarrow> grant_view g k = Some u \<longleftrightarrow> (\<exists>x \<in> set g. grant_key x = k \<and> g_until x = u)"
  by (auto simp: grant_view_def wf_grants_def find_unique dest: find_SomeD)

lemma grant_view_filter:
  "wf_grants g \<Longrightarrow> grant_view (filter P g) k = Some u
     \<longleftrightarrow> (\<exists>x \<in> set g. P x \<and> grant_key x = k \<and> g_until x = u)"
  by (subst grant_view_member) (auto simp: wf_grants_def distinct_keys_filter)

lemma wf_filter [store_simps, intro]: "wf_grants g \<Longrightarrow> wf_grants (filter P g)"
  by (simp add: wf_grants_def distinct_keys_filter)

lemma wf_put_last [store_simps, intro]: "wf_grants g \<Longrightarrow> wf_grants (put_last grant_key x g)"
  by (simp add: wf_grants_def distinct_put_last)

lemma wf_nil [store_simps, simp]: "wf_grants []"
  by (simp add: wf_grants_def)

lemma view_nil [simp]: "grant_view [] k = None"
  by (simp add: grant_view_def)

lemma view_put_last [store_simps]:
  "grant_view (put_last grant_key x g) k =
     (if k = grant_key x then Some (g_until x) else grant_view g k)"
proof (cases "k = grant_key x")
  case True
  have "find (\<lambda>y. grant_key y = grant_key x) (filter (\<lambda>y. grant_key y \<noteq> grant_key x) g) = None"
    by (simp add: find_None_iff)
  with True show ?thesis by (simp add: grant_view_def put_last_def find_append)
next
  case False
  then have "find (\<lambda>y. grant_key y = k) (filter (\<lambda>y. grant_key y \<noteq> grant_key x) g)
      = find (\<lambda>y. grant_key y = k) g"
    by (intro find_filter_other) auto
  with False show ?thesis
    by (auto simp: grant_view_def put_last_def find_append split: option.split)
qed

lemma view_filter_key [store_simps]:
  "grant_view (filter (\<lambda>x. P (grant_key x)) g) k = (if P k then grant_view g k else None)"
proof (cases "P k")
  case True
  then have "find (\<lambda>y. grant_key y = k) (filter (\<lambda>x. P (grant_key x)) g) = find (\<lambda>y. grant_key y = k) g"
    by (intro find_filter_other) auto
  with True show ?thesis by (simp add: grant_view_def)
qed (auto simp: grant_view_def find_None_iff)

lemma view_prune:
  "wf_grants g \<Longrightarrow> grant_view (prune now g) k =
     (case grant_view g k of None \<Rightarrow> None | Some u \<Rightarrow> if live now u then Some u else None)"
proof -
  assume wf: "wf_grants g"
  show ?thesis
  proof (cases "grant_view g k")
    case None
    then have "\<forall>x \<in> set g. grant_key x \<noteq> k" by (auto simp: grant_view_def find_None_iff)
    then have "grant_view (prune now g) k = None"
      by (auto simp: prune_def grant_view_def find_None_iff)
    with None show ?thesis by simp
  next
    case (Some u)
    then obtain x where x: "x \<in> set g" "grant_key x = k" "g_until x = u"
      using grant_view_member [OF wf] by blast
    have uniq: "y = x" if "y \<in> set g" "grant_key y = k" for y
      using that x wf distinct_keys_eqD [of grant_key g y x] by (simp add: wf_grants_def)
    show ?thesis
    proof (cases "live now u")
      case True
      have "grant_view (prune now g) k = Some u"
        unfolding prune_def using x True by (auto simp: grant_view_filter [OF wf])
      with Some True show ?thesis by simp
    next
      case False
      have "grant_view (prune now g) k \<noteq> Some v" for v
      proof
        assume "grant_view (prune now g) k = Some v"
        then obtain y where "y \<in> set g" "live now (g_until y)" "grant_key y = k"
          unfolding prune_def grant_view_filter [OF wf] by blast
        with uniq x(3) False show False by blast
      qed
      with Some False show ?thesis by (cases "grant_view (prune now g) k") auto
    qed
  qed
qed

lemma grant_allows_holds:
  "wf_grants g \<Longrightarrow> fst (grant_allows now s c sc g) = holds now (s, c, sc) g"
proof -
  assume wf: "wf_grants g"
  have "fst (grant_allows now s c sc g)
      \<longleftrightarrow> (\<exists>x \<in> set g. grant_key x = (s, c, sc) \<and> live now (g_until x))"
    by (auto simp: grant_allows_def Let_def prune_def grant_key_def)
  also have "\<dots> \<longleftrightarrow> (\<exists>u. grant_view g (s, c, sc) = Some u \<and> live now u)"
    by (auto simp: grant_view_member [OF wf])
  also have "\<dots> \<longleftrightarrow> holds now (s, c, sc) g"
    by (auto simp: holds_def split: option.splits)
  finally show ?thesis .
qed

subsection \<open>Each operation on the map\<close>

lemma view_record [store_simps]:
  "grant_view (record_grant s c sc a g) =
     (if allow a \<and> lasts a \<noteq> Once then (grant_view g)((s, c, sc) := until_of (lasts a))
      else grant_view g)"
  by (cases "lasts a") (auto simp: record_grant_def view_put_last grant_key_def fun_eq_iff)

lemma view_revoke [store_simps]: "grant_view (revoke s c sc g) = (grant_view g)((s, c, sc) := None)"
proof -
  have "revoke s c sc g = filter (\<lambda>x. grant_key x \<noteq> (s, c, sc)) g"
    by (auto simp: revoke_def grant_key_def intro!: filter_cong)
  then show ?thesis
    using view_filter_key [of "\<lambda>k. k \<noteq> (s, c, sc)"] by (auto simp: fun_eq_iff)
qed

lemma view_revoke_everywhere [store_simps]:
  "grant_view (revoke_everywhere c sc g) k = (if snd k = (c, sc) then None else grant_view g k)"
proof -
  have "revoke_everywhere c sc g = filter (\<lambda>x. snd (grant_key x) \<noteq> (c, sc)) g"
    by (auto simp: revoke_everywhere_def grant_key_def intro!: filter_cong)
  then show ?thesis using view_filter_key [of "\<lambda>k. snd k \<noteq> (c, sc)"] by simp
qed

lemma view_restore [store_simps]:
  "grant_view (restore now s c sc u g) =
     (if live now (Some u) then (grant_view g)((s, c, sc) \<mapsto> Some u) else grant_view g)"
  by (auto simp: restore_def view_put_last grant_key_def fun_eq_iff live_def)

lemma view_clear_synth [store_simps]:
  "grant_view (clear_synth s g) k = (if fst k = s then None else grant_view g k)"
proof -
  have "clear_synth s g = filter (\<lambda>x. fst (grant_key x) \<noteq> s) g"
    by (simp add: clear_synth_def grant_key_def)
  then show ?thesis using view_filter_key [of "\<lambda>k. fst k \<noteq> s"] by simp
qed

section \<open>Histories of a store\<close>

datatype grant_op =
    OpRecord grant_key approval
  | OpCheck unix_time grant_key
  | OpRevoke grant_key
  | OpRevokeEverywhere utext utext
  | OpRestore unix_time grant_key unix_time
  | OpClearSynth utext
  | OpClear

fun grant_step :: "grant_op \<Rightarrow> grant_store \<Rightarrow> grant_store" where
  "grant_step (OpRecord (s, c, sc) a) g = record_grant s c sc a g"
| "grant_step (OpCheck now (s, c, sc)) g = snd (grant_allows now s c sc g)"
| "grant_step (OpRevoke (s, c, sc)) g = revoke s c sc g"
| "grant_step (OpRevokeEverywhere c sc) g = revoke_everywhere c sc g"
| "grant_step (OpRestore now (s, c, sc) u) g = restore now s c sc u g"
| "grant_step (OpClearSynth s) g = clear_synth s g"
| "grant_step OpClear g = clear_grants g"

text \<open>What an operation says about one key: it settles it (for or against), or not.\<close>

fun op_settles :: "grant_op \<Rightarrow> grant_key \<Rightarrow> bool" where
  "op_settles (OpRecord k' a) k = (k' = k \<and> allow a \<and> lasts a \<noteq> Once)"
| "op_settles (OpCheck _ _) k = False"
| "op_settles (OpRevoke k') k = (k' = k)"
| "op_settles (OpRevokeEverywhere c sc) k = (snd k = (c, sc))"
| "op_settles (OpRestore now k' u) k = (k' = k \<and> live now (Some u))"
| "op_settles (OpClearSynth s) k = (fst k = s)"
| "op_settles OpClear k = True"

fun op_gives :: "unix_time \<Rightarrow> grant_op \<Rightarrow> grant_key \<Rightarrow> bool" where
  "op_gives now (OpRecord k' a) k =
     (k' = k \<and> allow a \<and> (case until_of (lasts a) of None \<Rightarrow> False | Some u \<Rightarrow> live now u))"
| "op_gives now (OpRestore t k' u) k = (k' = k \<and> live t (Some u) \<and> live now (Some u))"
| "op_gives _ _ _ = False"

fun op_clock :: "grant_op \<Rightarrow> unix_time option" where
  "op_clock (OpCheck t _) = Some t"
| "op_clock _ = None"

definition run_grants :: "grant_op list \<Rightarrow> grant_store \<Rightarrow> grant_store" where
  "run_grants ops g = fold grant_step ops g"

lemma wf_grant_step [store_simps]: "wf_grants g \<Longrightarrow> wf_grants (grant_step x g)"
  by (induction x g rule: grant_step.induct)
    (auto simp: record_grant_def grant_allows_def Let_def prune_def revoke_def clear_synth_def
       revoke_everywhere_def restore_def clear_grants_def split: option.split)

lemma grant_step_view:
  assumes wf: "wf_grants g"
  shows "op_settles x k \<Longrightarrow> holds now k (grant_step x g) = op_gives now x k"
    and "\<not> op_settles x k \<Longrightarrow> (\<forall>t. op_clock x = Some t \<longrightarrow> t \<le> now)
           \<Longrightarrow> holds now k (grant_step x g) = holds now k g"
proof -
  have live_later: "live now u \<Longrightarrow> t \<le> now \<Longrightarrow> live t u" for t u
    by (auto simp: live_def split: option.splits)
  have until: "lasts a \<noteq> Once \<Longrightarrow> \<exists>u. until_of (lasts a) = Some u" for a :: approval
    by (cases "lasts a") auto
  have holds_eq: "grant_view g' k = grant_view g k \<Longrightarrow> holds now k g' = holds now k g" for g'
    by (simp add: holds_def)
  show "op_settles x k \<Longrightarrow> holds now k (grant_step x g) = op_gives now x k"
    by (cases x; cases k)
      (use until in \<open>auto simp: holds_def store_simps clear_grants_def split: option.splits\<close>)
  show "\<not> op_settles x k \<Longrightarrow> (\<forall>t. op_clock x = Some t \<longrightarrow> t \<le> now)
      \<Longrightarrow> holds now k (grant_step x g) = holds now k g"
  proof (cases "\<exists>t k'. x = OpCheck t k'")
    case True
    then obtain t s c sc where "x = OpCheck t (s, c, sc)" by (metis prod_cases3)
    moreover assume "\<forall>t. op_clock x = Some t \<longrightarrow> t \<le> now"
    ultimately show ?thesis using live_later
      by (auto simp: holds_def grant_allows_def Let_def view_prune [OF wf] split: option.splits)
  next
    case False
    assume "\<not> op_settles x k"
    with False have "grant_view (grant_step x g) k = grant_view g k"
      by (cases x; cases k) (auto simp: store_simps split: if_splits)
    then show ?thesis by (rule holds_eq)
  qed
qed

section \<open>The interface of a consent store\<close>

text \<open>
  What the gates rely on: an operation that settles a key decides it alone, every other
  operation leaves it as it was, and a store that has just been made allows nothing.
\<close>

locale consent_book =
  fixes step :: "'o \<Rightarrow> 's \<Rightarrow> 's"
    and start :: 's
    and good :: "'s \<Rightarrow> bool"
    and allowed :: "unix_time \<Rightarrow> 'k \<Rightarrow> 's \<Rightarrow> bool"
    and settles :: "'o \<Rightarrow> 'k \<Rightarrow> bool"
    and gives :: "unix_time \<Rightarrow> 'o \<Rightarrow> 'k \<Rightarrow> bool"
    and clock :: "'o \<Rightarrow> unix_time option"
  assumes start_good: "good start"
    and step_good: "good s \<Longrightarrow> good (step x s)"
    and start_allows_nothing: "\<not> allowed now k start"
    and settled: "good s \<Longrightarrow> settles x k \<Longrightarrow> allowed now k (step x s) = gives now x k"
    and unsettled: "good s \<Longrightarrow> \<not> settles x k \<Longrightarrow> (\<forall>t. clock x = Some t \<longrightarrow> t \<le> now)
      \<Longrightarrow> allowed now k (step x s) = allowed now k s"
begin

lemma run_good: "good s \<Longrightarrow> good (fold step xs s)"
  by (induction xs arbitrary: s) (auto intro: step_good)

lemma allowed_iff_last_settled:
  assumes "\<forall>x \<in> set xs. \<forall>t. clock x = Some t \<longrightarrow> t \<le> now"
  shows "allowed now k (fold step xs start) \<longleftrightarrow>
    (\<exists>before x after. xs = before @ x # after \<and> settles x k \<and> gives now x k
       \<and> (\<forall>y \<in> set after. \<not> settles y k))"
  using assms
proof (induction xs rule: rev_induct)
  case Nil
  then show ?case by (simp add: start_allows_nothing)
next
  case (snoc x xs)
  have good: "good (fold step xs start)" by (rule run_good [OF start_good])
  show ?case
  proof (cases "settles x k")
    case True
    have "(\<exists>before y after. xs @ [x] = before @ y # after \<and> settles y k \<and> gives now y k
        \<and> (\<forall>z \<in> set after. \<not> settles z k)) \<longleftrightarrow> gives now x k" (is "?L \<longleftrightarrow> ?R")
    proof
      assume ?L
      then obtain b y a where *: "xs @ [x] = b @ y # a" "gives now y k" "\<forall>z \<in> set a. \<not> settles z k"
        by blast
      with True have "a = []" by (cases a rule: rev_cases) auto
      with * show ?R by simp
    next
      assume ?R
      with True show ?L by (intro exI [of _ xs] exI [of _ x] exI [of _ "[]"]) simp
    qed
    with settled [OF good True] show ?thesis by simp
  next
    case False
    have "(\<exists>before y after. xs @ [x] = before @ y # after \<and> settles y k \<and> gives now y k
        \<and> (\<forall>z \<in> set after. \<not> settles z k)) \<longleftrightarrow>
       (\<exists>before y after. xs = before @ y # after \<and> settles y k \<and> gives now y k
        \<and> (\<forall>z \<in> set after. \<not> settles z k))" (is "?L \<longleftrightarrow> ?R")
    proof
      assume ?L
      then obtain b y a where *: "xs @ [x] = b @ y # a" "settles y k" "gives now y k"
        "\<forall>z \<in> set a. \<not> settles z k" by blast
      with False obtain a' where "a = a' @ [x]" by (cases a rule: rev_cases) auto
      with * show ?R by auto
    next
      assume ?R
      then obtain b y a where "xs = b @ y # a" "settles y k" "gives now y k"
        "\<forall>z \<in> set a. \<not> settles z k" by blast
      with False show ?L by (intro exI [of _ b] exI [of _ y] exI [of _ "a @ [x]"]) auto
    qed
    moreover have "allowed now k (fold step (xs @ [x]) start) = allowed now k (fold step xs start)"
      using unsettled [OF good False] snoc.prems by simp
    ultimately show ?thesis using snoc by simp
  qed
qed

end

interpretation grant_book: consent_book grant_step "[]" wf_grants holds op_settles op_gives op_clock
proof unfold_locales
  show "\<not> holds now k []" for now k by (simp add: holds_def)
qed (auto simp: wf_grant_step grant_step_view)

lemma wf_run_grants: "wf_grants g \<Longrightarrow> wf_grants (run_grants ops g)"
  unfolding run_grants_def by (rule grant_book.run_good)

section \<open>Properties\<close>

text \<open>
  C1: over any history of the store from empty, a check allows (synth, capability, scope)
  exactly when the last operation that concerned this key was an answer (or a restored
  answer) of the owner for exactly this synth, capability and scope which has not ended.
  Checks for other keys, and the pruning they do, change nothing; the clock of the checks
  made so far is not ahead of now.
\<close>

theorem grant_allows_iff_last_answer:
  assumes "\<forall>x \<in> set ops. \<forall>t. op_clock x = Some t \<longrightarrow> t \<le> now"
  shows "fst (grant_allows now s c sc (run_grants ops [])) \<longleftrightarrow>
    (\<exists>before x after. ops = before @ x # after \<and> op_settles x (s, c, sc) \<and>
       op_gives now x (s, c, sc) \<and> (\<forall>y \<in> set after. \<not> op_settles y (s, c, sc)))"
  using grant_book.allowed_iff_last_settled [OF assms, of "(s, c, sc)"] wf_run_grants [OF wf_nil]
  by (simp add: grant_allows_holds run_grants_def)

theorem grant_allows_iff_last_answer_witness:
  "fst (grant_allows 50 (lit ''mia'') (lit ''net'') (lit ''x'') (run_grants
     [OpRecord ((lit ''mia''), (lit ''net''), (lit ''x'')) approval_always, OpCheck 40 ((lit ''bob''), (lit ''net''), (lit ''x''))] []))"
proof -
  let ?ops = "[OpRecord ((lit ''mia''), (lit ''net''), (lit ''x'')) approval_always, OpCheck 40 ((lit ''bob''), (lit ''net''), (lit ''x''))]"
  have "\<forall>x \<in> set ?ops. \<forall>t. op_clock x = Some t \<longrightarrow> t \<le> 50" by simp
  from grant_allows_iff_last_answer [OF this, of "(lit ''mia'')" "(lit ''net'')" "(lit ''x'')"] show ?thesis
    by (simp, intro exI [of _ "[]"] exI [of _ "hd ?ops"] exI [of _ "tl ?ops"])
      (simp add: approval_always_def live_def)
qed

text \<open>
  forgetting one synth takes away all of that synth's answers and none of another's,
  whatever the store held.
\<close>

theorem clear_synth_isolates:
  assumes "wf_grants g"
  shows "fst (grant_allows now s' c sc (clear_synth s g)) \<longleftrightarrow>
    s' \<noteq> s \<and> fst (grant_allows now s' c sc g)"
proof -
  have "wf_grants (clear_synth s g)" using assms by (auto simp: clear_synth_def)
  with assms show ?thesis by (auto simp: grant_allows_holds holds_def view_clear_synth)
qed

theorem clear_synth_isolates_witness:
  "fst (grant_allows 5 (lit ''maya'') (lit ''net'') (lit ''x'') (clear_synth (lit ''mia'')
      (record_grant (lit ''maya'') (lit ''net'') (lit ''x'') approval_always [])))"
proof -
  have "wf_grants (record_grant (lit ''maya'') (lit ''net'') (lit ''x'') approval_always [])"
    by (simp add: wf_grants_def record_grant_def approval_always_def put_last_def)
  from clear_synth_isolates [OF this, of 5 "(lit ''maya'')" "(lit ''net'')" "(lit ''x'')" "(lit ''mia'')"]
  show ?thesis by (simp add: grant_allows_def record_grant_def approval_always_def put_last_def
      prune_def live_def)
qed

end
