(* ===== verification/Json_Value.thy ===== *)
theory Json_Value
  imports Complex_Main Unicode_Text
begin

text \<open>
  \<open>serde_json::Value\<close> as the program uses it: parameters of a request, arguments of a
  tool call. An object is an association list (the program's maps are sorted and have one
  entry per key; lookups take the first). An integer is exact; a finite \<open>f64\<close> is the
  rational it denotes (JSON has no other).
\<close>

datatype json =
    JNull
  | JBool bool
  | JInt int
  | JFloat rat
  | JStr utext
  | JArr "json list"
  | JObj "(utext \<times> json) list"

definition is_JObj :: "json \<Rightarrow> bool" where
  "is_JObj v = (case v of JObj _ \<Rightarrow> True | _ \<Rightarrow> False)"

definition jget :: "utext \<Rightarrow> json \<Rightarrow> json option" where
  \<comment> \<open>\<open>Value::get\<close> of a key: None on anything but an object\<close>
  "jget k v = (case v of JObj kvs \<Rightarrow> map_of kvs k | _ \<Rightarrow> None)"

definition as_str :: "json \<Rightarrow> utext option" where
  "as_str v = (case v of JStr s \<Rightarrow> Some s | _ \<Rightarrow> None)"

definition as_bool :: "json \<Rightarrow> bool option" where
  "as_bool v = (case v of JBool b \<Rightarrow> Some b | _ \<Rightarrow> None)"

definition as_arr :: "json \<Rightarrow> json list option" where
  "as_arr v = (case v of JArr xs \<Rightarrow> Some xs | _ \<Rightarrow> None)"

definition as_i64 :: "json \<Rightarrow> int option" where
  "as_i64 v = (case v of JInt n \<Rightarrow> if - (2 ^ 63) \<le> n \<and> n < 2 ^ 63 then Some n else None | _ \<Rightarrow> None)"

definition as_u64 :: "json \<Rightarrow> nat option" where
  "as_u64 v = (case v of JInt n \<Rightarrow> if 0 \<le> n \<and> n < 2 ^ 64 then Some (nat n) else None | _ \<Rightarrow> None)"

definition as_f64 :: "json \<Rightarrow> rat option" where
  "as_f64 v = (case v of JInt n \<Rightarrow> Some (of_int n) | JFloat x \<Rightarrow> Some x | _ \<Rightarrow> None)"

definition get_str :: "utext \<Rightarrow> json \<Rightarrow> utext option" where
  "get_str k v = Option.bind (jget k v) as_str"

definition get_bool :: "utext \<Rightarrow> json \<Rightarrow> bool option" where
  "get_bool k v = Option.bind (jget k v) as_bool"

lemmas json_defs = jget_def as_str_def as_bool_def as_arr_def as_i64_def as_u64_def as_f64_def
  get_str_def get_bool_def is_JObj_def

text \<open>Objects as maps: \<open>insert\<close> and \<open>remove\<close>.\<close>

definition obj_put :: "utext \<Rightarrow> json \<Rightarrow> (utext \<times> json) list \<Rightarrow> (utext \<times> json) list" where
  "obj_put k v kvs = put_last fst (k, v) kvs"

definition obj_remove :: "utext \<Rightarrow> (utext \<times> json) list \<Rightarrow> (utext \<times> json) list" where
  "obj_remove k kvs = filter (\<lambda>(k', _). k' \<noteq> k) kvs"

lemma map_of_filter_keys:
  "map_of (filter (\<lambda>x. P (fst x)) kvs) k = (if P k then map_of kvs k else None)"
  by (induction kvs) auto

lemma map_of_obj_put [store_simps]: "map_of (obj_put k v kvs) = (map_of kvs)(k \<mapsto> v)"
  using map_of_filter_keys [of "\<lambda>k'. k' \<noteq> k" kvs]
  by (auto simp: obj_put_def put_last_def map_add_def fun_eq_iff split: option.split)

lemma map_of_obj_remove [store_simps]: "map_of (obj_remove k kvs) = (map_of kvs)(k := None)"
  using map_of_filter_keys [of "\<lambda>k'. k' \<noteq> k" kvs]
  by (auto simp: obj_remove_def case_prod_unfold fun_eq_iff)

end
