(* ===== verification/Island_Settings.thy ===== *)
theory Island_Settings
  imports Json_Value "HOL-Library.List_Lexorder" "HOL-Library.Multiset"
begin

text \<open>
  \<open>crates/connect-core/src/island.rs\<close> (the owner's settings of the island) and
  \<open>island/limits.rs\<close> (the subscription limits a synth pushes and how they are shown).
  The operating system is the parameter \<open>macos\<close>. Shown: after a settings file is
  normalized no two hold keys are the same combination, the first of two equal ones keeps
  it and normalizing again changes nothing; a combination is compared without regard to
  letter case and to the order of its modifiers; the stored limits are within their
  bounds whatever the synth sends.
\<close>

section \<open>Hold keys\<close>

record hotkeys =
  hk_voice :: utext
  hk_screen_voice :: utext
  hk_text :: utext

datatype hotkey_kind = KVoice | KScreenVoice | KText

definition ALL_KINDS :: "hotkey_kind list" where
  "ALL_KINDS = [KVoice, KScreenVoice, KText]"

definition parse_kind :: "utext \<Rightarrow> hotkey_kind option" where
  "parse_kind s = (if s = lit ''voice'' then Some KVoice
     else if s = lit ''screen_voice'' then Some KScreenVoice
     else if s = lit ''text'' then Some KText else None)"

definition default_hotkeys :: "bool \<Rightarrow> hotkeys" where
  "default_hotkeys macos =
     (if macos then \<lparr>hk_voice = lit ''Alt+Space'', hk_screen_voice = lit ''Alt+Shift+Space'',
                     hk_text = lit ''Control+Alt+Space''\<rparr>
      else \<lparr>hk_voice = lit ''Control+Alt+Space'', hk_screen_voice = lit ''Control+Alt+Shift+Space'',
            hk_text = lit ''Control+Alt+Enter''\<rparr>)"

fun hk_get :: "hotkey_kind \<Rightarrow> hotkeys \<Rightarrow> utext" where
  "hk_get KVoice h = hk_voice h"
| "hk_get KScreenVoice h = hk_screen_voice h"
| "hk_get KText h = hk_text h"

fun hk_set :: "hotkey_kind \<Rightarrow> utext \<Rightarrow> hotkeys \<Rightarrow> hotkeys" where
  "hk_set KVoice a h = h\<lparr>hk_voice := a\<rparr>"
| "hk_set KScreenVoice a h = h\<lparr>hk_screen_voice := a\<rparr>"
| "hk_set KText a h = h\<lparr>hk_text := a\<rparr>"

text \<open>The modifier a token (in lower case) names, if it names one.\<close>

definition modifier_of :: "bool \<Rightarrow> utext \<Rightarrow> utext option" where
  "modifier_of macos t =
     (if t \<in> {lit ''alt'', lit ''option''} then Some (lit ''alt'')
      else if t = lit ''shift'' then Some (lit ''shift'')
      else if t \<in> {lit ''control'', lit ''ctrl''} then Some (lit ''control'')
      else if t \<in> {lit ''command'', lit ''cmd'', lit ''super'', lit ''meta''} then Some (lit ''super'')
      else if t \<in> {lit ''commandorcontrol'', lit ''cmdorctrl'', lit ''cmdorcontrol'', lit ''commandorctrl''}
        then Some (if macos then lit ''super'' else lit ''control'')
      else None)"

definition hk_tokens :: "utext \<Rightarrow> utext list" where
  "hk_tokens a = filter (\<lambda>t. t \<noteq> []) (map trim (split_char 43 a))"

fun canonical_loop :: "bool \<Rightarrow> utext list \<Rightarrow> utext \<Rightarrow> utext list \<Rightarrow> utext list \<times> utext" where
  "canonical_loop macos mods key [] = (mods, key)"
| "canonical_loop macos mods key (t # ts) =
     (case modifier_of macos (to_ascii_lowercase t) of
        Some m \<Rightarrow> canonical_loop macos (if m \<in> set mods then mods else mods @ [m]) key ts
      | None \<Rightarrow> canonical_loop macos mods (trim_start_matches (lit ''key'') (to_ascii_lowercase t)) ts)"

definition canonical :: "bool \<Rightarrow> utext \<Rightarrow> utext" where
  "canonical macos a =
     (let (mods, key) = canonical_loop macos [] [] (hk_tokens a)
      in if key = [] \<and> mods = [] then []
         else let out = join [43] (sort mods)
              in (if out \<noteq> [] then out @ [43] else out) @ key)"

definition taken_by :: "bool \<Rightarrow> hotkeys \<Rightarrow> hotkey_kind \<Rightarrow> utext \<Rightarrow> hotkey_kind option" where
  "taken_by macos h kind a =
     (let want = canonical macos a
      in if want = [] then None
         else find (\<lambda>k. canonical macos (hk_get k h) = want) (filter (\<lambda>k. k \<noteq> kind) ALL_KINDS))"

fun normalize_keys :: "bool \<Rightarrow> utext list \<Rightarrow> hotkey_kind list \<Rightarrow> hotkeys \<Rightarrow> hotkeys" where
  "normalize_keys macos seen [] h = h"
| "normalize_keys macos seen (k # ks) h =
     (let value = trim (hk_get k h); key = canonical macos value
      in if key \<noteq> [] \<and> key \<in> set seen then normalize_keys macos seen ks (hk_set k [] h)
         else normalize_keys macos (if key \<noteq> [] then seen @ [key] else seen) ks (hk_set k value h))"

definition normalize_hotkeys :: "bool \<Rightarrow> hotkeys \<Rightarrow> hotkeys" where
  "normalize_hotkeys macos h = normalize_keys macos [] ALL_KINDS h"

section \<open>Choices\<close>

datatype stt_mode = SttSynth | SttDevice
datatype stt_engine = Whisper | Parakeet
datatype stt_offer = OfferPending | OfferShown | OfferAccepted | OfferDeclined

fun offer_open :: "stt_offer \<Rightarrow> bool" where
  "offer_open x \<longleftrightarrow> x = OfferPending \<or> x = OfferShown"

fun offer_shown :: "stt_offer \<Rightarrow> stt_offer" where
  "offer_shown OfferPending = OfferShown"
| "offer_shown x = x"

definition offer_answered :: "stt_offer \<Rightarrow> bool \<Rightarrow> stt_offer" where
  "offer_answered x accept =
     (if offer_open x then (if accept then OfferAccepted else OfferDeclined) else x)"

definition chosen_in_settings :: "stt_offer \<Rightarrow> stt_mode \<Rightarrow> stt_offer" where
  "chosen_in_settings x m = offer_answered x (m = SttDevice)"

datatype voice_reply = ReplyAlways | ReplyAuto | ReplyOff

fun voice_reply_str :: "voice_reply \<Rightarrow> utext" where
  "voice_reply_str ReplyAlways = lit ''always''"
| "voice_reply_str ReplyAuto = lit ''auto''"
| "voice_reply_str ReplyOff = lit ''off''"

definition parse_voice_reply :: "utext \<Rightarrow> voice_reply option" where
  "parse_voice_reply s = (if s = lit ''always'' then Some ReplyAlways
     else if s = lit ''auto'' then Some ReplyAuto
     else if s = lit ''off'' then Some ReplyOff else None)"

datatype island_vertical = VTop | VMiddle | VBottom
datatype island_horizontal = HLeft | HCenter | HRight

record island_position =
  pos_vertical :: "island_vertical option"
  pos_horizontal :: "island_horizontal option"

definition parse_vertical :: "utext \<Rightarrow> (utext, island_vertical option) result" where
  "parse_vertical s =
     (if s = [] \<or> s = lit ''default'' then Ok None
      else if s = lit ''top'' then Ok (Some VTop)
      else if s = lit ''middle'' then Ok (Some VMiddle)
      else if s = lit ''bottom'' then Ok (Some VBottom)
      else Err (lit ''bad_position''))"

definition parse_horizontal :: "utext \<Rightarrow> (utext, island_horizontal option) result" where
  "parse_horizontal s =
     (if s = [] \<or> s = lit ''default'' then Ok None
      else if s = lit ''left'' then Ok (Some HLeft)
      else if s = lit ''center'' \<or> s = lit ''centre'' then Ok (Some HCenter)
      else if s = lit ''right'' then Ok (Some HRight)
      else Err (lit ''bad_position''))"

definition is_screen_middle :: "island_position \<Rightarrow> bool" where
  "is_screen_middle p \<longleftrightarrow>
     pos_vertical p = Some VMiddle \<and> pos_horizontal p \<in> {None, Some HCenter}"

section \<open>Subscription limits\<close>

record limit_window =
  lw_id :: utext
  lw_label_ru :: utext
  lw_label_en :: utext
  lw_used_pct :: rat
  lw_resets_at :: utext

record limits =
  lm_provider :: utext
  lm_plan :: utext
  lm_windows :: "limit_window list"
  lm_blocked :: bool
  lm_fetched_at :: utext
  lm_received_ms :: nat

definition limits_same_as :: "limits \<Rightarrow> limits \<Rightarrow> bool" where
  "limits_same_as a b \<longleftrightarrow> a\<lparr>lm_received_ms := 0\<rparr> = b\<lparr>lm_received_ms := 0\<rparr>"

definition clip :: "utext \<Rightarrow> nat \<Rightarrow> utext" where
  \<comment> \<open>at most so many characters, control characters as spaces, trimmed, then an ellipsis\<close>
  "clip s mx =
     (let out = trim (map (\<lambda>c. if is_control c then 32 else c) (take mx s))
      in if mx < length s then out @ [8230] else out)"

definition limits_text :: "json \<Rightarrow> utext \<Rightarrow> nat \<Rightarrow> utext" where
  "limits_text v key mx = (case get_str key v of Some s \<Rightarrow> clip s mx | None \<Rightarrow> [])"

definition MAX_WINDOWS :: nat where "MAX_WINDOWS = 6"

definition parse_window :: "json \<Rightarrow> limit_window option" where
  "parse_window w =
     (case Option.bind (jget (lit ''used_pct'') w) as_f64 of
        None \<Rightarrow> None
      | Some pct \<Rightarrow> Some
          \<lparr>lw_id = limits_text w (lit ''id'') 40,
           lw_label_ru = limits_text w (lit ''label_ru'') 24,
           lw_label_en = limits_text w (lit ''label_en'') 24,
           lw_used_pct = max 0 (min 100 pct),
           lw_resets_at = limits_text w (lit ''resets_at'') 40\<rparr>)"

definition parse_limits :: "nat \<Rightarrow> json \<Rightarrow> (utext, limits option) result" where
  "parse_limits now_ms params =
     (case jget (lit ''limits'') params of
        None \<Rightarrow> Ok None
      | Some JNull \<Rightarrow> Ok None
      | Some l \<Rightarrow>
          (if is_JObj l then
             Ok (Some
               \<lparr>lm_provider = limits_text l (lit ''provider'') 24,
                lm_plan = limits_text l (lit ''plan'') 40,
                lm_windows =
                  (case Option.bind (jget (lit ''windows'') l) as_arr of
                     None \<Rightarrow> []
                   | Some ws \<Rightarrow> take MAX_WINDOWS (List.map_filter parse_window ws)),
                lm_blocked = (case get_bool (lit ''blocked'') l of Some b \<Rightarrow> b | None \<Rightarrow> False),
                lm_fetched_at = limits_text l (lit ''fetched_at'') 40,
                lm_received_ms = now_ms\<rparr>)
           else Err (lit ''bad request: params.limits must be an object or null'')))"

definition limits_changed :: "limits option \<Rightarrow> limits option \<Rightarrow> bool" where
  "limits_changed before after =
     (case (before, after) of
        (None, None) \<Rightarrow> False
      | (Some a, Some b) \<Rightarrow> \<not> limits_same_as a b
      | _ \<Rightarrow> True)"

text \<open>The new map of snapshots and whether the change is announced.\<close>

definition store_limits ::
  "utext \<Rightarrow> limits option \<Rightarrow> (utext \<rightharpoonup> limits) \<Rightarrow> (utext \<rightharpoonup> limits) \<times> bool" where
  "store_limits synth l m =
     (if synth = [] then (m, False)
      else (m(synth := l), limits_changed (m synth) l))"

datatype limits_closed = LCText | LCDot | LCOff
datatype limits_window_choice = LWAuto | LWFiveHour | LWWeek | LWBoth
datatype limits_percent = LPUsed | LPLeft
datatype limits_closed_reset = LRIn | LROff
datatype limits_open = LOCompact | LOFull | LOOff
datatype limits_open_reset = LORIn | LORClock

record limits_display =
  ld_closed :: limits_closed
  ld_window :: limits_window_choice
  ld_percent :: limits_percent
  ld_closed_reset :: limits_closed_reset
  ld_open :: limits_open
  ld_open_reset :: limits_open_reset

definition default_limits_display :: limits_display where
  "default_limits_display =
     \<lparr>ld_closed = LCText, ld_window = LWAuto, ld_percent = LPUsed, ld_closed_reset = LRIn,
      ld_open = LOCompact, ld_open_reset = LORIn\<rparr>"

text \<open>The values of each field as the settings file and the patch spell them.\<close>

definition choice :: "(string \<times> 'a) list \<Rightarrow> json \<Rightarrow> 'a option" where
  "choice cs v = (case v of JStr s \<Rightarrow> map_of (map (\<lambda>(n, x). (lit n, x)) cs) s | _ \<Rightarrow> None)"

definition parse_closed :: "json \<Rightarrow> limits_closed option" where
  "parse_closed = choice [(''text'', LCText), (''dot'', LCDot), (''off'', LCOff)]"

definition parse_window_choice :: "json \<Rightarrow> limits_window_choice option" where
  "parse_window_choice = choice [(''auto'', LWAuto), (''five_hour'', LWFiveHour), (''week'', LWWeek),
     (''both'', LWBoth)]"

definition parse_percent :: "json \<Rightarrow> limits_percent option" where
  "parse_percent = choice [(''used'', LPUsed), (''left'', LPLeft)]"

definition parse_closed_reset :: "json \<Rightarrow> limits_closed_reset option" where
  "parse_closed_reset = choice [(''in'', LRIn), (''off'', LROff)]"

definition parse_open :: "json \<Rightarrow> limits_open option" where
  "parse_open = choice [(''compact'', LOCompact), (''full'', LOFull), (''off'', LOOff)]"

definition parse_open_reset :: "json \<Rightarrow> limits_open_reset option" where
  "parse_open_reset = choice [(''in'', LORIn), (''clock'', LORClock)]"

fun patch_fields :: "(utext \<times> json) list \<Rightarrow> limits_display \<Rightarrow> limits_display option" where
  "patch_fields [] d = Some d"
| "patch_fields ((k, v) # kvs) d =
     (let d' =
        (if k = lit ''closed'' then map_option (\<lambda>x. d\<lparr>ld_closed := x\<rparr>) (parse_closed v)
         else if k = lit ''window'' then map_option (\<lambda>x. d\<lparr>ld_window := x\<rparr>) (parse_window_choice v)
         else if k = lit ''percent'' then map_option (\<lambda>x. d\<lparr>ld_percent := x\<rparr>) (parse_percent v)
         else if k = lit ''closed_reset''
           then map_option (\<lambda>x. d\<lparr>ld_closed_reset := x\<rparr>) (parse_closed_reset v)
         else if k = lit ''open'' then map_option (\<lambda>x. d\<lparr>ld_open := x\<rparr>) (parse_open v)
         else if k = lit ''open_reset''
           then map_option (\<lambda>x. d\<lparr>ld_open_reset := x\<rparr>) (parse_open_reset v)
         else None)
      in case d' of None \<Rightarrow> None | Some d'' \<Rightarrow> patch_fields kvs d'')"

definition patch_display :: "json \<Rightarrow> limits_display \<Rightarrow> (utext, unit) result \<times> limits_display" where
  "patch_display p d =
     (case p of
        JObj kvs \<Rightarrow> (case patch_fields kvs d of
            None \<Rightarrow> (Err (lit ''bad_limits''), d)
          | Some d' \<Rightarrow> (Ok (), d'))
      | _ \<Rightarrow> (Err (lit ''bad_limits''), d))"

section \<open>The island's settings\<close>

record island_settings =
  is_enabled :: bool
  is_main_synth :: utext
  is_hotkeys :: hotkeys
  is_stt :: stt_mode
  is_stt_offer :: stt_offer
  is_stt_engine :: stt_engine
  is_wake :: bool
  is_wake_phrase :: utext
  is_stt_tone :: bool
  is_position :: island_position
  is_voice_reply :: "voice_reply option"
  is_limits :: limits_display

definition default_island :: "bool \<Rightarrow> island_settings" where
  "default_island macos =
     \<lparr>is_enabled = False, is_main_synth = [], is_hotkeys = default_hotkeys macos, is_stt = SttSynth,
      is_stt_offer = OfferPending, is_stt_engine = Whisper, is_wake = False, is_wake_phrase = [],
      is_stt_tone = True, is_position = \<lparr>pos_vertical = None, pos_horizontal = None\<rparr>,
      is_voice_reply = None, is_limits = default_limits_display\<rparr>"

definition WAKE_PHRASE_MAX :: nat where "WAKE_PHRASE_MAX = 40"

definition normalize_island :: "bool \<Rightarrow> island_settings \<Rightarrow> island_settings" where
  "normalize_island macos i =
     i\<lparr>is_main_synth := trim (is_main_synth i),
       is_hotkeys := normalize_hotkeys macos (is_hotkeys i),
       is_wake_phrase := take WAKE_PHRASE_MAX (join [32] (split_whitespace (is_wake_phrase i)))\<rparr>"

definition the_voice_reply :: "island_settings \<Rightarrow> voice_reply" where
  "the_voice_reply i = (case is_voice_reply i of None \<Rightarrow> ReplyAlways | Some r \<Rightarrow> r)"

definition main_synth_of :: "island_settings \<Rightarrow> utext list \<Rightarrow> utext option" where
  \<comment> \<open>over the synth ids of the links, in their order\<close>
  "main_synth_of i ls =
     (case find (\<lambda>l. is_main_synth i \<noteq> [] \<and> l = is_main_synth i) ls of
        Some l \<Rightarrow> Some l
      | None \<Rightarrow> (case ls of [] \<Rightarrow> None | l # _ \<Rightarrow> Some l))"

section \<open>Lemmas on the hold keys\<close>

lemma canonical_Nil [simp]: "canonical macos [] = []"
  by (simp add: canonical_def hk_tokens_def)

definition keys_ok :: "bool \<Rightarrow> hotkeys \<Rightarrow> bool" where
  \<comment> \<open>every key is trimmed and no combination is used twice\<close>
  "keys_ok macos h \<longleftrightarrow>
     (\<forall>k \<in> set ALL_KINDS. trim (hk_get k h) = hk_get k h) \<and>
     distinct (filter (\<lambda>c. c \<noteq> []) (map (\<lambda>k. canonical macos (hk_get k h)) ALL_KINDS))"

lemma keys_ok_normalize: "keys_ok macos (normalize_hotkeys macos h)"
  by (auto simp: keys_ok_def normalize_hotkeys_def ALL_KINDS_def Let_def)

lemma normalize_keys_ok: "keys_ok macos h \<Longrightarrow> normalize_hotkeys macos h = h"
  by (auto simp: keys_ok_def normalize_hotkeys_def ALL_KINDS_def Let_def split: if_splits)

lemma distinct_canonical:
  assumes "keys_ok macos h" "k \<noteq> k'" "canonical macos (hk_get k h) = canonical macos (hk_get k' h)"
  shows "canonical macos (hk_get k h) = []"
  using assms by (cases k; cases k') (auto simp: keys_ok_def ALL_KINDS_def split: if_splits)

subsection \<open>The comparable form\<close>

lemma canonical_loop_modifiers:
  assumes "\<forall>t \<in> set ts. modifier_of macos (to_ascii_lowercase t) \<noteq> None"
    and "distinct mods"
  shows "\<exists>ms. canonical_loop macos mods key (ts @ us) = canonical_loop macos ms key us
    \<and> distinct ms
    \<and> set ms = set mods \<union> (\<lambda>t. the (modifier_of macos (to_ascii_lowercase t))) ` set ts"
  using assms
proof (induction ts arbitrary: mods)
  case (Cons t ts)
  then obtain m where m: "modifier_of macos (to_ascii_lowercase t) = Some m" by auto
  let ?mods = "if m \<in> set mods then mods else mods @ [m]"
  have "distinct ?mods" using Cons.prems by auto
  with Cons obtain ms where
    "canonical_loop macos ?mods key (ts @ us) = canonical_loop macos ms key us" "distinct ms"
    "set ms = set ?mods \<union> (\<lambda>t. the (modifier_of macos (to_ascii_lowercase t))) ` set ts"
    by (metis (no_types, lifting) list.set_intros(2))
  with m show ?case by (intro exI [of _ ms]) auto
qed auto

lemma sort_same_set:
  fixes xs ys :: "utext list"
  assumes "distinct xs" "distinct ys" "set xs = set ys"
  shows "sort xs = sort ys"
proof -
  have "mset xs = mset ys" using assms set_eq_iff_mset_eq_distinct by blast
  then show ?thesis by (metis properties_for_sort mset_sort sorted_sort)
qed

section \<open>Properties\<close>

text \<open>
  after the settings file is normalized, two different hold keys are never the same
  combination (in whatever order and case their modifiers are written), the voice key
  keeps its combination, and normalizing again changes nothing.
\<close>

theorem normalize_hotkeys_distinct:
  "distinct (filter (\<lambda>c. c \<noteq> [])
     (map (\<lambda>k. canonical macos (hk_get k (normalize_hotkeys macos h))) ALL_KINDS)) \<and>
   hk_voice (normalize_hotkeys macos h) = trim (hk_voice h) \<and>
   normalize_hotkeys macos (normalize_hotkeys macos h) = normalize_hotkeys macos h"
proof (intro conjI)
  have differ: "canonical macos (hk_get k (normalize_hotkeys macos h)) = []
      \<or> canonical macos (hk_get k (normalize_hotkeys macos h))
          \<noteq> canonical macos (hk_get k' (normalize_hotkeys macos h))" if "k \<noteq> k'" for k k'
    using distinct_canonical [OF keys_ok_normalize] that by blast
  show "distinct (filter (\<lambda>c. c \<noteq> [])
     (map (\<lambda>k. canonical macos (hk_get k (normalize_hotkeys macos h))) ALL_KINDS))"
    using differ [of KVoice KScreenVoice] differ [of KVoice KText] differ [of KScreenVoice KText]
    unfolding ALL_KINDS_def by (auto simp del: hk_get.simps)
  show "hk_voice (normalize_hotkeys macos h) = trim (hk_voice h)"
    by (simp add: normalize_hotkeys_def ALL_KINDS_def Let_def)
  show "normalize_hotkeys macos (normalize_hotkeys macos h) = normalize_hotkeys macos h"
    by (rule normalize_keys_ok [OF keys_ok_normalize])
qed

text \<open>
  a combination is compared without regard to the order, the repetition and the
  spelling of its modifiers and to letter case: two accelerators whose last token is the
  same key and whose other tokens name the same modifiers have the same comparable form.
\<close>

theorem canonical_modifier_order:
  assumes a: "hk_tokens a = ms @ [k]" and b: "hk_tokens b = ms' @ [k']"
    and mods: "\<forall>t \<in> set ms \<union> set ms'. modifier_of macos (to_ascii_lowercase t) \<noteq> None"
    and same: "(\<lambda>t. modifier_of macos (to_ascii_lowercase t)) ` set ms
             = (\<lambda>t. modifier_of macos (to_ascii_lowercase t)) ` set ms'"
    and key: "to_ascii_lowercase k = to_ascii_lowercase k'"
      "modifier_of macos (to_ascii_lowercase k) = None"
  shows "canonical macos a = canonical macos b"
proof -
  let ?f = "\<lambda>t. modifier_of macos (to_ascii_lowercase t)"
  obtain xs where xs: "canonical_loop macos [] [] (ms @ [k]) = canonical_loop macos xs [] [k]"
    "distinct xs" "set xs = (\<lambda>t. the (?f t)) ` set ms"
    using canonical_loop_modifiers [of ms macos "[]" "[]" "[k]"] mods by auto
  obtain ys where ys: "canonical_loop macos [] [] (ms' @ [k']) = canonical_loop macos ys [] [k']"
    "distinct ys" "set ys = (\<lambda>t. the (?f t)) ` set ms'"
    using canonical_loop_modifiers [of ms' macos "[]" "[]" "[k']"] mods by auto
  have "the ` ?f ` set ms = the ` ?f ` set ms'" using same by simp
  then have "set xs = set ys" using xs(3) ys(3) by (simp add: image_image)
  then have "sort xs = sort ys" using sort_same_set xs(2) ys(2) by blast
  moreover from \<open>set xs = set ys\<close> have "xs = [] \<longleftrightarrow> ys = []" by (metis set_empty)
  ultimately show ?thesis using a b xs(1) ys(1) key by (simp add: canonical_def)
qed

theorem canonical_modifier_order_witness:
  "canonical True (lit ''Option+Shift+Space'') = canonical True (lit ''shift+alt+SPACE'')"
proof (rule canonical_modifier_order
    [of _ "[lit ''Option'', lit ''Shift'']" "lit ''Space''" _ "[lit ''shift'', lit ''alt'']" "lit ''SPACE''"])
  show "hk_tokens (lit ''Option+Shift+Space'') = [lit ''Option'', lit ''Shift''] @ [lit ''Space'']"
    by (simp add: hk_tokens_def lit_def trim_def is_whitespace_def)
  show "hk_tokens (lit ''shift+alt+SPACE'') = [lit ''shift'', lit ''alt''] @ [lit ''SPACE'']"
    by (simp add: hk_tokens_def lit_def trim_def is_whitespace_def)
qed (simp_all add: modifier_of_def lit_def to_ascii_lowercase_def ascii_lower_def)

text \<open>
  whatever JSON a synth pushes as its limits, what is kept holds at most six windows
  and every percentage is between 0 and 100; something that is neither an object nor null
  is refused.
\<close>

theorem parse_limits_bounded:
  "(case parse_limits now params of
      Ok (Some l) \<Rightarrow> length (lm_windows l) \<le> 6 \<and>
        list_all (\<lambda>w. 0 \<le> lw_used_pct w \<and> lw_used_pct w \<le> 100) (lm_windows l)
    | Ok None \<Rightarrow> jget (lit ''limits'') params \<in> {None, Some JNull}
    | Err e \<Rightarrow> (\<exists>v. jget (lit ''limits'') params = Some v \<and> v \<noteq> JNull \<and> \<not> is_JObj v))"
proof -
  have window: "parse_window w = Some x \<Longrightarrow> 0 \<le> lw_used_pct x \<and> lw_used_pct x \<le> 100" for w x
    by (auto simp: parse_window_def split: option.splits)
  have "x \<in> set (take MAX_WINDOWS (List.map_filter parse_window ws)) \<Longrightarrow>
      0 \<le> lw_used_pct x \<and> lw_used_pct x \<le> 100" for x ws
    using window by (auto simp: map_filter_def dest!: in_set_takeD)
  then show ?thesis
    by (auto simp: parse_limits_def MAX_WINDOWS_def list_all_iff is_JObj_def
        split: option.splits json.splits)
qed

end
