(* ===== verification/Observe_Settings.thy ===== *)
theory Observe_Settings
  imports Unicode_Text
begin

text \<open>
  \<open>crates/connect-core/src/observe.rs\<close>: the strings that may leave the computer
  (\<open>clean\<close>) and the owner's choices of what is observed (\<open>ObserveSettings\<close>). The
  switches are a map from a synth to its set of sources. \<open>str::to_lowercase\<close> (full
  Unicode case folding) is the parameter \<open>lower\<close>. Shown: a cleaned string is short
  and free of markup, control and format characters, cleaning it again changes nothing;
  a switch changes one source of one synth; a normalized settings file holds only known
  sources and nothing twice, and normalizing again changes nothing.
\<close>

section \<open>Clean strings\<close>

definition format_ranges :: "(nat \<times> nat) list" where
  "format_ranges =
     [(0x00AD, 0x00AD), (0x0600, 0x0605), (0x061C, 0x061C), (0x06DD, 0x06DD), (0x070F, 0x070F),
      (0x0890, 0x0891), (0x08E2, 0x08E2), (0x180E, 0x180E), (0x200B, 0x200F), (0x202A, 0x202E),
      (0x2060, 0x2064), (0x2066, 0x206F), (0xFEFF, 0xFEFF), (0xFFF9, 0xFFFB), (0x110BD, 0x110BD),
      (0x110CD, 0x110CD), (0x13430, 0x1343F), (0x1BCA0, 0x1BCA3), (0x1D173, 0x1D17A),
      (0xE0001, 0xE0001), (0xE0020, 0xE007F)]"

definition format_char :: "uchar \<Rightarrow> bool" where
  "format_char c = list_ex (\<lambda>(a, b). a \<le> c \<and> c \<le> b) format_ranges"

fun clean_loop :: "nat \<Rightarrow> utext \<Rightarrow> bool \<Rightarrow> utext \<Rightarrow> utext" where
  "clean_loop mx out space [] = out"
| "clean_loop mx out space (c # cs) =
     (if is_whitespace c then clean_loop mx out (out \<noteq> []) cs
      else if c = 60 \<or> c = 62 \<or> is_control c \<or> format_char c then clean_loop mx out space cs
      else if mx < utf8_len out + (char_utf8_len c + (if space then 1 else 0)) then out
      else clean_loop mx ((if space then out @ [32] else out) @ [c]) False cs)"

definition clean :: "utext \<Rightarrow> nat \<Rightarrow> utext" where
  "clean s mx = clean_loop mx [] False s"

section \<open>The owner's choices\<close>

definition OBS_CALL :: utext where "OBS_CALL = lit ''device.call''"
definition OBS_ACTIVITY :: utext where "OBS_ACTIVITY = lit ''device.activity''"
definition OBS_PLACE :: utext where "OBS_PLACE = lit ''place.current''"

definition SOURCES :: "utext list" where
  "SOURCES = [OBS_CALL, OBS_ACTIVITY, OBS_PLACE]"

definition MAX_APP_BYTES :: nat where "MAX_APP_BYTES = 64"
definition MAX_PLACE_BYTES :: nat where "MAX_PLACE_BYTES = 128"

record app_mark =
  am_id :: utext
  am_name :: utext

record named_network =
  nn_ssid :: utext
  nn_name :: utext

record observe_settings =
  os_on :: "utext \<rightharpoonup> utext set"
  os_excluded :: "app_mark list"
  os_places :: "named_network list"

definition default_observe :: observe_settings where
  "default_observe = \<lparr>os_on = Map.empty, os_excluded = [], os_places = []\<rparr>"

definition obs_is_on :: "observe_settings \<Rightarrow> utext \<Rightarrow> utext \<Rightarrow> bool" where
  "obs_is_on o' synth res = (case os_on o' synth of None \<Rightarrow> False | Some s \<Rightarrow> res \<in> s)"

definition obs_set_on ::
  "utext \<Rightarrow> utext \<Rightarrow> bool \<Rightarrow> observe_settings \<Rightarrow> (utext, unit) result \<times> observe_settings" where
  "obs_set_on synth res on o' =
     (if res \<notin> set SOURCES then (Err (lit ''unknown_resource''), o')
      else if on then
        (Ok (), o'\<lparr>os_on := (os_on o')(synth \<mapsto>
            insert res (case os_on o' synth of None \<Rightarrow> {} | Some s \<Rightarrow> s))\<rparr>)
      else case os_on o' synth of
          None \<Rightarrow> (Ok (), o')
        | Some s \<Rightarrow> (Ok (), o'\<lparr>os_on := (os_on o')(synth :=
            (if s - {res} = {} then None else Some (s - {res})))\<rparr>))"

definition obs_wanted :: "utext list \<Rightarrow> observe_settings \<Rightarrow> utext set" where
  "obs_wanted ids o' = \<Union> (set (List.map_filter (os_on o') ids))"

definition same_app :: "(utext \<Rightarrow> utext) \<Rightarrow> app_mark \<Rightarrow> app_mark \<Rightarrow> bool" where
  "same_app lower a b =
     (if am_id a \<noteq> [] \<or> am_id b \<noteq> [] then eq_ignore_ascii_case (am_id a) (am_id b)
      else lower (am_name a) = lower (am_name b))"

definition obs_exclude ::
  "(utext \<Rightarrow> utext) \<Rightarrow> utext \<Rightarrow> utext \<Rightarrow> observe_settings \<Rightarrow> bool \<times> observe_settings" where
  "obs_exclude lower i name o' =
     (let mark = \<lparr>am_id = trim i, am_name = clean name MAX_APP_BYTES\<rparr>
      in if am_id mark = [] \<and> am_name mark = [] then (False, o')
         else if list_ex (\<lambda>m. same_app lower m mark) (os_excluded o') then (False, o')
         else (True, o'\<lparr>os_excluded := os_excluded o' @ [mark]\<rparr>))"

definition obs_unexclude ::
  "(utext \<Rightarrow> utext) \<Rightarrow> utext \<Rightarrow> utext \<Rightarrow> observe_settings \<Rightarrow> bool \<times> observe_settings" where
  "obs_unexclude lower i name o' =
     (let mark = \<lparr>am_id = trim i, am_name = trim name\<rparr>;
          rest = filter (\<lambda>m. \<not> same_app lower m mark) (os_excluded o')
      in (length (os_excluded o') \<noteq> length rest, o'\<lparr>os_excluded := rest\<rparr>))"

definition obs_forget_network :: "utext \<Rightarrow> observe_settings \<Rightarrow> bool \<times> observe_settings" where
  "obs_forget_network ssid o' =
     (let rest = filter (\<lambda>p. nn_ssid p \<noteq> ssid) (os_places o')
      in (length (os_places o') \<noteq> length rest, o'\<lparr>os_places := rest\<rparr>))"

fun rename_first :: "utext \<Rightarrow> utext \<Rightarrow> named_network list \<Rightarrow> named_network list" where
  "rename_first ssid name [] = [\<lparr>nn_ssid = ssid, nn_name = name\<rparr>]"
| "rename_first ssid name (p # ps) =
     (if nn_ssid p = ssid then p\<lparr>nn_name := name\<rparr> # ps else p # rename_first ssid name ps)"

definition obs_name_network ::
  "utext \<Rightarrow> utext \<Rightarrow> observe_settings \<Rightarrow> (utext, unit) result \<times> observe_settings" where
  "obs_name_network ssid name o' =
     (if ssid = [] \<or> 32 * 4 < utf8_len ssid then (Err (lit ''bad_network''), o')
      else let name' = clean name MAX_PLACE_BYTES
           in if name' = [] then (Ok (), snd (obs_forget_network ssid o'))
              else (Ok (), o'\<lparr>os_places := rename_first ssid name' (os_places o')\<rparr>))"

fun normalize_marks :: "(utext \<Rightarrow> utext) \<Rightarrow> app_mark list \<Rightarrow> app_mark list \<Rightarrow> app_mark list" where
  "normalize_marks lower marks [] = marks"
| "normalize_marks lower marks (m # ms) =
     (let m' = \<lparr>am_id = trim (am_id m), am_name = clean (am_name m) MAX_APP_BYTES\<rparr>
      in if (am_id m' = [] \<and> am_name m' = []) \<or> list_ex (\<lambda>x. same_app lower x m') marks
         then normalize_marks lower marks ms
         else normalize_marks lower (marks @ [m']) ms)"

fun normalize_places :: "named_network list \<Rightarrow> named_network list \<Rightarrow> named_network list" where
  "normalize_places places [] = places"
| "normalize_places places (p # ps) =
     (let name = clean (nn_name p) MAX_PLACE_BYTES
      in if nn_ssid p = [] \<or> name = [] \<or> list_ex (\<lambda>x. nn_ssid x = nn_ssid p) places
         then normalize_places places ps
         else normalize_places (places @ [\<lparr>nn_ssid = nn_ssid p, nn_name = name\<rparr>]) ps)"

definition normalize_on :: "(utext \<rightharpoonup> utext set) \<Rightarrow> (utext \<rightharpoonup> utext set)" where
  "normalize_on m =
     (\<lambda>i. case m i of None \<Rightarrow> None
        | Some s \<Rightarrow> (let s' = s \<inter> set SOURCES in if i = [] \<or> s' = {} then None else Some s'))"

definition normalize_observe :: "(utext \<Rightarrow> utext) \<Rightarrow> observe_settings \<Rightarrow> observe_settings" where
  "normalize_observe lower o' =
     \<lparr>os_on = normalize_on (os_on o'),
      os_excluded = normalize_marks lower [] (os_excluded o'),
      os_places = normalize_places [] (os_places o')\<rparr>"

section \<open>Lemmas on cleaned strings\<close>

definition plain_char :: "uchar \<Rightarrow> bool" where
  "plain_char c \<longleftrightarrow> \<not> is_whitespace c \<and> c \<noteq> 60 \<and> c \<noteq> 62 \<and> \<not> is_control c \<and> \<not> format_char c"

fun single_spaced :: "utext \<Rightarrow> bool" where
  \<comment> \<open>single spaces between plain characters, none at the end\<close>
  "single_spaced [] = True"
| "single_spaced [c] = plain_char c"
| "single_spaced (c # d # s) = ((plain_char c \<or> (c = 32 \<and> plain_char d)) \<and> single_spaced (d # s))"

definition tidy :: "utext \<Rightarrow> bool" where
  "tidy s \<longleftrightarrow> single_spaced s \<and> (s = [] \<or> plain_char (hd s))"

lemma space_whitespace [simp]: "is_whitespace 32" "\<not> plain_char 32"
  by (simp_all add: is_whitespace_def plain_char_def)

lemma char_utf8_len_space [simp]: "char_utf8_len 32 = 1"
  by (simp add: char_utf8_len.simps)

lemma single_spaced_snoc:
  "single_spaced s \<Longrightarrow> plain_char c \<Longrightarrow> single_spaced (s @ [c])"
  "single_spaced s \<Longrightarrow> s \<noteq> [] \<Longrightarrow> plain_char c \<Longrightarrow> single_spaced (s @ [32, c])"
  by (induction s rule: single_spaced.induct) auto

lemma tidy_snoc: "tidy s \<Longrightarrow> plain_char c \<Longrightarrow> tidy (s @ [c])"
  "tidy s \<Longrightarrow> s \<noteq> [] \<Longrightarrow> plain_char c \<Longrightarrow> tidy (s @ [32, c])"
  by (cases s; auto simp: tidy_def dest: single_spaced_snoc)+

lemma clean_loop_tidy:
  "tidy out \<Longrightarrow> (space \<Longrightarrow> out \<noteq> []) \<Longrightarrow> utf8_len out \<le> mx \<Longrightarrow>
   tidy (clean_loop mx out space s) \<and> utf8_len (clean_loop mx out space s) \<le> mx"
proof (induction mx out space s rule: clean_loop.induct)
  case (2 mx out space c cs)
  then show ?case using tidy_snoc [of out c] by (auto simp: plain_char_def)
qed simp

lemma clean_tidy: "tidy (clean s mx)" and clean_len: "utf8_len (clean s mx) \<le> mx"
  using clean_loop_tidy [of "[]" False mx s] by (simp_all add: clean_def tidy_def)

lemma clean_loop_copies:
  "single_spaced ((if space then [32] else []) @ t) \<Longrightarrow> (t = [] \<Longrightarrow> \<not> space) \<Longrightarrow>
   (out = [] \<Longrightarrow> \<not> space \<and> (t = [] \<or> plain_char (hd t))) \<Longrightarrow>
   utf8_len out + (if space then 1 else 0) + utf8_len t \<le> mx \<Longrightarrow>
   clean_loop mx out space t = out @ (if space then [32] else []) @ t"
proof (induction mx out space t rule: clean_loop.induct)
  case (2 mx out space c cs)
  show ?case
  proof (cases "c = 32")
    case True
    with 2 show ?thesis by (cases cs) (auto split: if_splits)
  next
    case False
    then have c: "plain_char c" and cs: "single_spaced cs"
      using "2.prems"(1) by (cases cs; auto split: if_splits)+
    with 2 show ?thesis by (auto simp: plain_char_def)
  qed
qed auto

lemma clean_of_tidy: "tidy s \<Longrightarrow> utf8_len s \<le> mx \<Longrightarrow> clean s mx = s"
  using clean_loop_copies [of False s "[]" mx] by (simp add: clean_def tidy_def)

lemma clean_idem [simp]: "clean (clean s mx) mx = clean s mx"
  by (rule clean_of_tidy [OF clean_tidy clean_len])

lemma single_spaced_chars: "single_spaced s \<Longrightarrow> c \<in> set s \<Longrightarrow> plain_char c \<or> c = 32"
  by (induction s rule: single_spaced.induct) auto

section \<open>Lemmas on the normalized settings\<close>

definition mark_ok :: "app_mark \<Rightarrow> bool" where
  "mark_ok m \<longleftrightarrow> trim (am_id m) = am_id m \<and> clean (am_name m) MAX_APP_BYTES = am_name m
     \<and> (am_id m \<noteq> [] \<or> am_name m \<noteq> [])"

definition marks_ok :: "(utext \<Rightarrow> utext) \<Rightarrow> app_mark list \<Rightarrow> bool" where
  "marks_ok lower ms \<longleftrightarrow> list_all mark_ok ms \<and> sorted_wrt (\<lambda>a b. \<not> same_app lower a b) ms"

definition places_ok :: "named_network list \<Rightarrow> bool" where
  "places_ok ps \<longleftrightarrow> list_all (\<lambda>p. nn_ssid p \<noteq> [] \<and> nn_name p \<noteq> []
     \<and> clean (nn_name p) MAX_PLACE_BYTES = nn_name p) ps \<and> distinct (map nn_ssid ps)"

lemma marks_ok_snoc:
  "marks_ok lower ms \<Longrightarrow> mark_ok m \<Longrightarrow> \<not> list_ex (\<lambda>x. same_app lower x m) ms
     \<Longrightarrow> marks_ok lower (ms @ [m])"
  by (auto simp: marks_ok_def sorted_wrt_append list_ex_iff list_all_iff)

lemma normalize_marks_ok: "marks_ok lower ms \<Longrightarrow> marks_ok lower (normalize_marks lower ms xs)"
proof (induction lower ms xs rule: normalize_marks.induct)
  case (2 lower marks m ms)
  then show ?case
    using marks_ok_snoc [of lower marks "\<lparr>am_id = trim (am_id m), am_name = clean (am_name m) MAX_APP_BYTES\<rparr>"]
    by (auto simp: Let_def mark_ok_def)
qed simp

lemma normalize_marks_id: "marks_ok lower (ms @ xs) \<Longrightarrow> normalize_marks lower ms xs = ms @ xs"
proof (induction lower ms xs rule: normalize_marks.induct)
  case (2 lower marks m ms)
  then have "\<not> list_ex (\<lambda>x. same_app lower x m) marks" "mark_ok m"
    by (auto simp: marks_ok_def sorted_wrt_append list_ex_iff)
  with 2 show ?case by (cases m) (auto simp: Let_def mark_ok_def)
qed simp

lemma normalize_places_ok: "places_ok ps \<Longrightarrow> places_ok (normalize_places ps xs)"
proof (induction ps xs rule: normalize_places.induct)
  case (2 places p ps)
  let ?p = "\<lparr>nn_ssid = nn_ssid p, nn_name = clean (nn_name p) MAX_PLACE_BYTES\<rparr>"
  let ?skip = "nn_ssid p = [] \<or> nn_name ?p = [] \<or> list_ex (\<lambda>x. nn_ssid x = nn_ssid p) places"
  have "places_ok (places @ [?p])" if "\<not> ?skip"
    using that "2.prems" by (auto simp: places_ok_def list_ex_key)
  with 2 show ?case by (cases ?skip) (simp_all add: Let_def)
qed simp

lemma normalize_places_id: "places_ok (ps @ xs) \<Longrightarrow> normalize_places ps xs = ps @ xs"
proof (induction ps xs rule: normalize_places.induct)
  case (2 places p ps)
  then have "\<not> list_ex (\<lambda>x. nn_ssid x = nn_ssid p) places" "nn_ssid p \<noteq> []" "nn_name p \<noteq> []"
    "clean (nn_name p) MAX_PLACE_BYTES = nn_name p"
    by (auto simp: places_ok_def list_ex_key)
  with 2 show ?case by (cases p) (simp add: Let_def)
qed simp

lemma normalize_on_idem: "normalize_on (normalize_on m) = normalize_on m"
  by (auto simp: normalize_on_def fun_eq_iff Let_def split: option.split)

section \<open>Properties\<close>

text \<open>
  a string that leaves the computer through \<open>clean\<close> fits its limit in bytes, has no
  angle bracket, no control and no format character, no whitespace but single spaces
  between other characters, and cleaning it again changes nothing.
\<close>

theorem clean_safe:
  "utf8_len (clean s mx) \<le> mx \<and>
   \<not> (\<exists>c \<in> set (clean s mx). c = 60 \<or> c = 62 \<or> is_control c \<or> format_char c \<or>
        is_whitespace c \<and> c \<noteq> 32) \<and>
   trim (clean s mx) = clean s mx \<and> clean (clean s mx) mx = clean s mx"
proof (intro conjI)
  have tidy: "tidy (clean s mx)" by (rule clean_tidy)
  have "c \<in> set (clean s mx) \<Longrightarrow> plain_char c \<or> c = 32" for c
    using single_spaced_chars tidy by (auto simp: tidy_def)
  moreover have "\<not> is_control 32" "\<not> format_char 32"
    by (simp_all add: is_control_def format_char_def format_ranges_def)
  ultimately show "\<not> (\<exists>c \<in> set (clean s mx). c = 60 \<or> c = 62 \<or> is_control c \<or> format_char c \<or>
      is_whitespace c \<and> c \<noteq> 32)"
    by (fastforce simp: plain_char_def)
  have "single_spaced t \<Longrightarrow> t \<noteq> [] \<Longrightarrow> plain_char (last t)" for t
    by (induction t rule: single_spaced.induct) auto
  with tidy have "trimmed (clean s mx)"
    by (auto simp: tidy_def trimmed_def plain_char_def)
  then show "trim (clean s mx) = clean s mx" by (rule trim_trimmed)
qed (simp_all add: clean_len)

text \<open>
  after a settings file is normalized, only known sources are on and only for a named
  synth, no excluded app and no network is listed twice, every name is clean, and
  normalizing again changes nothing.
\<close>

theorem normalize_observe_ok:
  "\<not> (\<exists>i r. obs_is_on (normalize_observe lower o') i r \<and> (i = [] \<or> r \<notin> set SOURCES)) \<and>
   sorted_wrt (\<lambda>a b. \<not> same_app lower a b) (os_excluded (normalize_observe lower o')) \<and>
   distinct (map nn_ssid (os_places (normalize_observe lower o'))) \<and>
   normalize_observe lower (normalize_observe lower o') = normalize_observe lower o'"
proof (intro conjI)
  show "\<not> (\<exists>i r. obs_is_on (normalize_observe lower o') i r \<and> (i = [] \<or> r \<notin> set SOURCES))"
    by (auto simp: obs_is_on_def normalize_observe_def normalize_on_def Let_def
        split: option.splits if_splits)
  have marks: "marks_ok lower (normalize_marks lower [] xs)" for xs
    by (rule normalize_marks_ok) (simp add: marks_ok_def)
  have places: "places_ok (normalize_places [] xs)" for xs
    by (rule normalize_places_ok) (simp add: places_ok_def)
  show "sorted_wrt (\<lambda>a b. \<not> same_app lower a b) (os_excluded (normalize_observe lower o'))"
    using marks by (simp add: normalize_observe_def marks_ok_def)
  show "distinct (map nn_ssid (os_places (normalize_observe lower o')))"
    using places by (simp add: normalize_observe_def places_ok_def)
  show "normalize_observe lower (normalize_observe lower o') = normalize_observe lower o'"
    using marks places normalize_marks_id [of lower "[]"] normalize_places_id [of "[]"]
    by (simp add: normalize_observe_def normalize_on_idem)
qed

end
