(* ===== verification/Settings_Model.thy ===== *)
theory Settings_Model
  imports Grants Json_Value Island_Settings Observe_Settings
begin

text \<open>
  \<open>crates/connect-core/src/settings.rs\<close>: the owner's policy, the presets, the migrations
  of older files and the record that is persisted. \<open>str::to_lowercase\<close> is the parameter
  \<open>lower\<close>. Shown: a fresh install and every preset leave the command line off; no preset
  touches the shared folders or turns Messages on; the migration of the blocked apps is
  idempotent and keeps the policy at least as strict; the migration of the one pairing of
  an older version loses no pairing and leaves no grant without a synth; a normalized app
  list is bounded and free of duplicates.
\<close>

section \<open>The policy\<close>

datatype net_mode = NetAll | NetAsk | NetList
datatype cookies_mode = CookiesAsk | CookiesAskNew | CookiesAuto
datatype computer_mode = ComputerAsk | ComputerAuto | ComputerAway
datatype cua_experiment = ExpDefault | ExpOn | ExpOff
datatype foreground = FgNever | FgIdle | FgAsk | FgAlways

record net_settings =
  n_enabled :: bool
  n_mode :: net_mode
  n_domains :: "utext list"
  n_allow_local_network :: bool
  n_monthly_cap_bytes :: nat
  n_skip_on_metered :: bool

record cookies_settings =
  k_enabled :: bool
  k_mode :: cookies_mode

datatype cursor_color = CAuto | CSky | CViolet | CRose | CGreen | CAmber | CRed | CGraphite
datatype cursor_speed = SpFast | SpNormal | SpRelaxed
datatype reduced_motion = RmSystem | RmAlways | RmNever

definition IDLE_HIDE_CHOICES :: "nat list" where "IDLE_HIDE_CHOICES = [5, 15, 60, 0]"
definition SCREENSHOT_CHOICES :: "nat list" where "SCREENSHOT_CHOICES = [0, 1024, 1568, 2048]"

record look_settings =
  l_cursor :: bool
  l_color :: cursor_color
  l_speed :: cursor_speed
  l_idle_hide_seconds :: nat
  l_reduced_motion :: reduced_motion
  l_screenshot_max :: nat
  l_preview_window :: bool

definition default_idle_hide :: nat where "default_idle_hide = 15"

definition default_look :: look_settings where
  "default_look = \<lparr>l_cursor = True, l_color = CAuto, l_speed = SpNormal,
     l_idle_hide_seconds = default_idle_hide, l_reduced_motion = RmSystem, l_screenshot_max = 0,
     l_preview_window = False\<rparr>"

definition normalize_look :: "look_settings \<Rightarrow> look_settings" where
  "normalize_look k =
     (let k1 = (if l_idle_hide_seconds k \<in> set IDLE_HIDE_CHOICES then k
                else k\<lparr>l_idle_hide_seconds := default_idle_hide\<rparr>)
      in if l_screenshot_max k1 \<in> set SCREENSHOT_CHOICES then k1 else k1\<lparr>l_screenshot_max := 0\<rparr>)"

subsection \<open>Which apps the computer driver may use\<close>

datatype apps_policy = PolAll | PolExcept | PolOnly

record app_ref =
  ar_id :: utext
  ar_name :: utext
  ar_loose :: bool

definition MAX_APPS :: nat where "MAX_APPS = 200"

record app_scope =
  sc_policy :: apps_policy
  sc_except :: "app_ref list"
  sc_only :: "app_ref list"

definition default_scope :: app_scope where
  "default_scope = \<lparr>sc_policy = PolAll, sc_except = [], sc_only = []\<rparr>"

definition active_apps :: "app_scope \<Rightarrow> app_ref list" where
  "active_apps s = (case sc_policy s of PolAll \<Rightarrow> [] | PolExcept \<Rightarrow> sc_except s | PolOnly \<Rightarrow> sc_only s)"

definition plain_line :: "utext \<Rightarrow> nat \<Rightarrow> utext" where
  "plain_line text mx = take mx (trim (filter (\<lambda>c. \<not> is_control c) text))"

definition cleaned_app :: "app_ref \<Rightarrow> app_ref" where
  \<comment> \<open>the head of the loop body: the id and the name as one plain line each, the id as the
     name of an app without one\<close>
  "cleaned_app a =
     (let a' = a\<lparr>ar_id := plain_line (ar_id a) 1024, ar_name := plain_line (ar_name a) 120\<rparr>
      in if ar_name a' = [] then a'\<lparr>ar_name := ar_id a'\<rparr> else a')"

fun clean_apps ::
  "(utext \<Rightarrow> utext) \<Rightarrow> bool \<Rightarrow> (utext \<times> bool) set \<Rightarrow> app_ref list \<Rightarrow> app_ref list \<Rightarrow> app_ref list" where
  "clean_apps lower loose_allowed seen out [] = out"
| "clean_apps lower loose_allowed seen out (a # as) =
     (let a' = cleaned_app a; k = (lower (ar_id a'), ar_loose a')
      in if ar_id a' = [] \<or> (ar_loose a' \<and> \<not> loose_allowed)
         then clean_apps lower loose_allowed seen out as
         else clean_apps lower loose_allowed (insert k seen)
                (if k \<notin> seen \<and> length out < MAX_APPS then out @ [a'] else out) as)"

definition normalize_scope :: "(utext \<Rightarrow> utext) \<Rightarrow> app_scope \<Rightarrow> app_scope" where
  "normalize_scope lower s =
     s\<lparr>sc_except := clean_apps lower True {} [] (sc_except s),
       sc_only := clean_apps lower False {} [] (sc_only s)\<rparr>"

record computer_settings =
  c_enabled :: bool
  c_locked_use :: bool
  c_keep_awake :: bool
  c_mode :: computer_mode
  c_foreground :: foreground
  c_away_idle_minutes :: nat
  c_app_blocklist :: "utext list"
  c_apps :: app_scope
  c_tool_denylist :: "utext list"
  c_look :: look_settings
  c_experiment :: cua_experiment

record root =
  r_path :: utext
  r_write :: bool

record files_settings =
  f_enabled :: bool
  f_roots :: "root list"
  f_ask_on_write :: bool

datatype apps_mode = AppsAsk | AppsAskNew | AppsAuto

record apps_settings =
  a_enabled :: bool
  a_mode :: apps_mode
  a_apps :: "utext \<rightharpoonup> bool"

definition default_apps :: apps_settings where
  "default_apps = \<lparr>a_enabled = False, a_mode = AppsAsk, a_apps = Map.empty\<rparr>"

definition default_on :: "utext \<Rightarrow> bool" where
  "default_on app \<longleftrightarrow> app \<noteq> lit ''messages''"

definition app_on :: "apps_settings \<Rightarrow> utext \<Rightarrow> bool" where
  "app_on s app = (case a_apps s app of None \<Rightarrow> default_on app | Some b \<Rightarrow> b)"

definition normalize_apps :: "utext list \<Rightarrow> apps_settings \<Rightarrow> apps_settings" where
  "normalize_apps known s =
     s\<lparr>a_apps := (\<lambda>app. case a_apps s app of None \<Rightarrow> None
         | Some on \<Rightarrow> if app \<in> set known \<and> on \<noteq> default_on app then Some on else None)\<rparr>"

datatype shell_mode = ShellAsk | ShellAuto

record shell_settings =
  s_enabled :: bool
  s_mode :: shell_mode

definition default_shell :: shell_settings where
  "default_shell = \<lparr>s_enabled = False, s_mode = ShellAsk\<rparr>"

datatype preset = Careful | Balanced | Full | Custom

record settings =
  st_net :: net_settings
  st_cookies :: cookies_settings
  st_computer :: computer_settings
  st_files :: files_settings
  st_apps :: apps_settings
  st_shell :: shell_settings
  st_preset :: preset

definition default_settings :: settings where
  "default_settings =
     \<lparr>st_net = \<lparr>n_enabled = False, n_mode = NetAsk, n_domains = [], n_allow_local_network = False,
        n_monthly_cap_bytes = 0, n_skip_on_metered = False\<rparr>,
      st_cookies = \<lparr>k_enabled = False, k_mode = CookiesAsk\<rparr>,
      st_computer = \<lparr>c_enabled = False, c_locked_use = False, c_keep_awake = False,
        c_mode = ComputerAsk, c_foreground = FgNever, c_away_idle_minutes = 5,
        c_app_blocklist = [], c_apps = default_scope, c_tool_denylist = [],
        c_look = default_look, c_experiment = ExpDefault\<rparr>,
      st_files = \<lparr>f_enabled = False, f_roots = [], f_ask_on_write = False\<rparr>,
      st_apps = default_apps, st_shell = default_shell, st_preset = Custom\<rparr>"

fun from_preset :: "preset \<Rightarrow> root list \<Rightarrow> settings" where
  "from_preset Careful roots =
     default_settings\<lparr>st_preset := Careful,
       st_net := \<lparr>n_enabled = True, n_mode = NetAsk, n_domains = [], n_allow_local_network = False,
         n_monthly_cap_bytes = 0, n_skip_on_metered = True\<rparr>,
       st_cookies := \<lparr>k_enabled = True, k_mode = CookiesAsk\<rparr>,
       st_computer := \<lparr>c_enabled = True, c_locked_use = False, c_keep_awake = False,
         c_mode = ComputerAsk, c_foreground = FgNever, c_away_idle_minutes = 5,
         c_app_blocklist = [], c_apps = default_scope, c_tool_denylist = [],
         c_look = default_look, c_experiment = ExpDefault\<rparr>,
       st_files := \<lparr>f_enabled = True, f_roots = roots, f_ask_on_write = True\<rparr>,
       st_apps := default_apps\<lparr>a_enabled := True, a_mode := AppsAsk\<rparr>\<rparr>"
| "from_preset Balanced roots =
     default_settings\<lparr>st_preset := Balanced,
       st_net := \<lparr>n_enabled = True, n_mode = NetAll, n_domains = [], n_allow_local_network = False,
         n_monthly_cap_bytes = 0, n_skip_on_metered = False\<rparr>,
       st_cookies := \<lparr>k_enabled = True, k_mode = CookiesAskNew\<rparr>,
       st_computer := \<lparr>c_enabled = True, c_locked_use = False, c_keep_awake = False,
         c_mode = ComputerAuto, c_foreground = FgIdle, c_away_idle_minutes = 5,
         c_app_blocklist = [], c_apps = default_scope, c_tool_denylist = [],
         c_look = default_look, c_experiment = ExpDefault\<rparr>,
       st_files := \<lparr>f_enabled = True, f_roots = roots, f_ask_on_write = False\<rparr>,
       st_apps := default_apps\<lparr>a_enabled := True, a_mode := AppsAskNew\<rparr>\<rparr>"
| "from_preset Full roots =
     default_settings\<lparr>st_preset := Full,
       st_net := \<lparr>n_enabled = True, n_mode = NetAll, n_domains = [], n_allow_local_network = False,
         n_monthly_cap_bytes = 0, n_skip_on_metered = False\<rparr>,
       st_cookies := \<lparr>k_enabled = True, k_mode = CookiesAuto\<rparr>,
       st_computer := \<lparr>c_enabled = True, c_locked_use = False, c_keep_awake = False,
         c_mode = ComputerAuto, c_foreground = FgAlways, c_away_idle_minutes = 5,
         c_app_blocklist = [], c_apps = default_scope, c_tool_denylist = [],
         c_look = default_look, c_experiment = ExpDefault\<rparr>,
       st_files := \<lparr>f_enabled = True, f_roots = roots, f_ask_on_write = False\<rparr>,
       st_apps := default_apps\<lparr>a_enabled := True, a_mode := AppsAuto\<rparr>\<rparr>"
| "from_preset Custom roots =
     default_settings\<lparr>st_preset := Custom,
       st_files := \<lparr>f_enabled = False, f_roots = roots, f_ask_on_write = False\<rparr>\<rparr>"

section \<open>Migration of the blocked apps\<close>

fun migrate_words :: "utext list \<Rightarrow> app_ref list \<Rightarrow> app_ref list" where
  "migrate_words [] ex = ex"
| "migrate_words (w # ws) ex =
     (let word = plain_line w 120
      in if word = [] then migrate_words ws ex
         else if list_ex (\<lambda>a. eq_ignore_ascii_case (ar_id a) word
                             \<or> eq_ignore_ascii_case (ar_name a) word) ex
         then migrate_words ws ex
         else migrate_words ws (ex @ [\<lparr>ar_id = word, ar_name = word, ar_loose = True\<rparr>]))"

definition migrate :: "(utext \<Rightarrow> utext) \<Rightarrow> settings \<Rightarrow> bool \<times> settings" where
  "migrate lower s =
     (let c = st_computer s; old = c_app_blocklist c
      in if old = [] then (False, s)
         else let sc = c_apps c;
                  sc1 = sc\<lparr>sc_except := migrate_words old (sc_except sc)\<rparr>;
                  sc2 = (if sc_policy sc1 = PolAll \<and> sc_except sc1 \<noteq> []
                         then sc1\<lparr>sc_policy := PolExcept\<rparr> else sc1)
              in (True, s\<lparr>st_computer := c\<lparr>c_app_blocklist := [],
                                          c_apps := normalize_scope lower sc2\<rparr>\<rparr>))"

section \<open>What is persisted\<close>

datatype link_source = SrcCode | SrcAccount

record identity =
  id_synth_id :: utext
  id_synth_url :: utext
  id_synth_name :: utext
  id_source :: link_source
  id_hub_id :: utext

record stored_grant =
  sg_synth_id :: utext
  sg_capability :: utext
  sg_scope :: utext
  sg_until :: unix_time

record stored_account =
  ac_id :: utext
  ac_email :: utext
  ac_name :: utext
  ac_consented :: bool
  ac_skipped :: "utext list"

record stored_browser =
  b_install :: utext
  b_browser :: utext
  b_linked :: bool
  b_device_id :: utext
  b_synth_id :: utext
  b_ext_version :: utext
  b_last_seen :: unix_time

record persisted =
  p_rev :: nat
  p_settings :: settings
  p_device_id :: utext
  p_identities :: "identity list"
  p_identity :: "identity option"
  p_account :: "stored_account option"
  p_grants :: "stored_grant list"
  p_egress_month :: utext
  p_egress_bytes :: nat
  p_browsers :: "stored_browser list"
  p_island :: island_settings
  p_faces :: "utext \<rightharpoonup> json"
  p_observe :: observe_settings

definition migrate_links :: "persisted \<Rightarrow> bool \<times> persisted" where
  "migrate_links p =
     (case p_identity p of
        None \<Rightarrow> (False, p)
      | Some old \<Rightarrow>
          (True, p\<lparr>p_identities :=
             (if list_ex (\<lambda>i. id_synth_id i = id_synth_id old) (p_identities p)
              then p_identities p else old # p_identities p),
            p_grants := map (\<lambda>g. if sg_synth_id g = [] then g\<lparr>sg_synth_id := id_synth_id old\<rparr> else g)
              (p_grants p),
            p_browsers := map (\<lambda>b. if b_linked b \<and> b_synth_id b = []
              then b\<lparr>b_synth_id := id_synth_id old\<rparr> else b) (p_browsers p)\<rparr>))"

definition identity_of :: "persisted \<Rightarrow> utext \<Rightarrow> identity option" where
  "identity_of p synth = find (\<lambda>i. id_synth_id i = synth) (p_identities p)"

definition fresh :: "bool \<Rightarrow> utext \<Rightarrow> persisted" where
  "fresh macos device =
     \<lparr>p_rev = 0, p_settings = default_settings, p_device_id = device, p_identities = [],
      p_identity = None, p_account = None, p_grants = [], p_egress_month = [], p_egress_bytes = 0,
      p_browsers = [], p_island = default_island macos, p_faces = Map.empty,
      p_observe = default_observe\<rparr>"

text \<open>What reading the file gave: its contents, no such file, or another error.\<close>

datatype file_read = FileBytes persisted | FileMalformed | FileNotFound | FileError

definition load_file ::
  "(utext \<Rightarrow> utext) \<Rightarrow> bool \<Rightarrow> utext \<Rightarrow> file_read \<Rightarrow> persisted option" where
  "load_file lower macos new_device r =
     (case r of
        FileBytes p \<Rightarrow>
          (let p1 = p\<lparr>p_settings := snd (migrate lower (p_settings p))\<rparr>;
               p2 = snd (migrate_links p1);
               p3 = p2\<lparr>p_island := normalize_island macos (p_island p2)\<rparr>
           in Some (p3\<lparr>p_observe := normalize_observe lower (p_observe p3)\<rparr>))
      | FileMalformed \<Rightarrow> None
      | FileNotFound \<Rightarrow> Some (fresh macos new_device)
      | FileError \<Rightarrow> None)"

section \<open>Lemmas on one plain line\<close>

lemma trim_hd: "trim s \<noteq> [] \<Longrightarrow> \<not> is_whitespace (hd (trim s))"
  using trimmed_trim [of s] by (simp add: trimmed_def)

lemma plain_line_hd: "plain_line s n \<noteq> [] \<Longrightarrow> \<not> is_whitespace (hd (plain_line s n))"
  unfolding plain_line_def by (subst hd_take) (auto dest: trim_hd)

lemma plain_line_no_control: "c \<in> set (plain_line s n) \<Longrightarrow> \<not> is_control c"
  using set_trim by (fastforce simp: plain_line_def dest: in_set_takeD)

lemma length_plain_line: "length (plain_line s n) \<le> n"
  by (simp add: plain_line_def)

lemma plain_line_again: "m \<ge> n \<Longrightarrow> plain_line (plain_line s n) m = trim (plain_line s n)"
proof -
  assume "n \<le> m"
  moreover have "filter (\<lambda>c. \<not> is_control c) (plain_line s n) = plain_line s n"
    using plain_line_no_control by (simp add: filter_id_conv)
  moreover have "length (trim (plain_line s n)) \<le> n"
    using length_trim length_plain_line le_trans by blast
  ultimately show ?thesis by (simp add: plain_line_def [of "plain_line s n"])
qed

lemma trim_nonempty: "s \<noteq> [] \<Longrightarrow> \<not> is_whitespace (hd s) \<Longrightarrow> trim s \<noteq> []"
proof -
  assume s: "s \<noteq> []" "\<not> is_whitespace (hd s)"
  then have "dropWhile is_whitespace s = s" by (cases s) auto
  moreover have "hd s \<in> set (rev s)" using s by simp
  then have "dropWhile is_whitespace (rev s) \<noteq> []"
    using s(2) by (metis dropWhile_eq_Nil_conv)
  ultimately show ?thesis by (simp add: trim_def)
qed

lemma is_whitespace_ascii_lower [simp]: "is_whitespace (ascii_lower c) = is_whitespace c"
  by (auto simp: is_whitespace_def ascii_lower_def)

lemma trim_map_lower: "trim (map ascii_lower s) = map ascii_lower (trim s)"
proof -
  have drop: "dropWhile is_whitespace (map ascii_lower t) = map ascii_lower (dropWhile is_whitespace t)" for t
    by (simp add: dropWhile_map o_def)
  show ?thesis by (simp add: trim_def drop rev_map)
qed

lemma eq_ignore_ascii_case_trim:
  "eq_ignore_ascii_case a b \<Longrightarrow> eq_ignore_ascii_case (trim a) (trim b)"
  by (metis eq_ignore_ascii_case_def trim_map_lower)

section \<open>Lemmas on the app lists\<close>

lemma cleaned_app_loose [simp]: "ar_loose (cleaned_app a) = ar_loose a"
  by (simp add: cleaned_app_def Let_def)

lemma cleaned_app_id [simp]: "ar_id (cleaned_app a) = plain_line (ar_id a) 1024"
  by (simp add: cleaned_app_def Let_def)

definition app_key :: "(utext \<Rightarrow> utext) \<Rightarrow> app_ref \<Rightarrow> utext \<times> bool" where
  "app_key lower a = (lower (ar_id a), ar_loose a)"

definition app_ok :: "bool \<Rightarrow> app_ref \<Rightarrow> bool" where
  "app_ok loose_allowed a \<longleftrightarrow> ar_id a \<noteq> [] \<and> length (ar_id a) \<le> 1024 \<and> ar_name a \<noteq> []
     \<and> (loose_allowed \<or> \<not> ar_loose a)"

definition apps_ok :: "(utext \<Rightarrow> utext) \<Rightarrow> bool \<Rightarrow> app_ref list \<Rightarrow> bool" where
  "apps_ok lower loose_allowed as \<longleftrightarrow> length as \<le> MAX_APPS \<and> list_all (app_ok loose_allowed) as
     \<and> distinct (map (app_key lower) as)"

lemma clean_apps_ok:
  "apps_ok lower l out \<Longrightarrow> app_key lower ` set out \<subseteq> seen \<Longrightarrow> apps_ok lower l (clean_apps lower l seen out as)"
proof (induction lower l seen out as rule: clean_apps.induct)
  case (2 lower l seen out a as)
  let ?a = "cleaned_app a" and ?k = "app_key lower (cleaned_app a)"
  let ?skip = "ar_id ?a = [] \<or> (ar_loose ?a \<and> \<not> l)"
  show ?case
  proof (cases ?skip)
    case True
    with 2 show ?thesis by (simp add: Let_def)
  next
    case False
    let ?out = "if ?k \<notin> seen \<and> length out < MAX_APPS then out @ [?a] else out"
    have "app_ok l ?a" using False length_plain_line [of _ 1024]
      by (auto simp: app_ok_def cleaned_app_def Let_def)
    with "2.prems" have "apps_ok lower l ?out" "app_key lower ` set ?out \<subseteq> insert ?k seen"
      by (auto simp: apps_ok_def)
    with 2(2) [OF refl refl False] False show ?thesis by (auto simp: Let_def app_key_def)
  qed
qed simp

lemma normalize_scope_ok:
  "apps_ok lower True (sc_except (normalize_scope lower s))"
  "apps_ok lower False (sc_only (normalize_scope lower s))"
  by (auto simp: normalize_scope_def intro!: clean_apps_ok) (simp_all add: apps_ok_def)

text \<open>Below the cap every app with an id is represented by one with the same key.\<close>

lemma clean_apps_keeps: "c \<in> set out \<Longrightarrow> c \<in> set (clean_apps lower l seen out as)"
  by (induction lower l seen out as rule: clean_apps.induct) (auto simp: Let_def)

lemma clean_apps_covers:
  "length out + length as \<le> MAX_APPS \<Longrightarrow> seen \<subseteq> app_key lower ` set out \<Longrightarrow> a \<in> set as \<Longrightarrow>
   plain_line (ar_id a) 1024 \<noteq> [] \<Longrightarrow>
   \<exists>c \<in> set (clean_apps lower True seen out as). app_key lower c = app_key lower (cleaned_app a)"
proof (induction as arbitrary: seen out)
  case (Cons x xs)
  let ?x = "cleaned_app x"
  show ?case
  proof (cases "ar_id ?x = []")
    case True
    with Cons show ?thesis by (auto simp: Let_def)
  next
    case False
    let ?k = "app_key lower ?x"
    let ?out = "if ?k \<notin> seen \<and> length out < MAX_APPS then out @ [?x] else out"
    have room: "length out < MAX_APPS" "length ?out + length xs \<le> MAX_APPS" using Cons.prems(1) by auto
    have seen: "insert ?k seen \<subseteq> app_key lower ` set ?out" using Cons.prems(2) room(1) by auto
    have step: "clean_apps lower True seen out (x # xs) = clean_apps lower True (insert ?k seen) ?out xs"
      using False by (simp add: Let_def app_key_def)
    show ?thesis
    proof (cases "a \<in> set xs")
      case True
      with Cons.IH [OF room(2) seen] Cons.prems(4) show ?thesis unfolding step by blast
    next
      case other: False
      with Cons.prems(3) have "a = x" by simp
      with seen obtain c where "c \<in> set ?out" "app_key lower c = app_key lower (cleaned_app a)" by auto
      then show ?thesis unfolding step using clean_apps_keeps by blast
    qed
  qed
qed simp

section \<open>Lemmas on the migration of the blocked apps\<close>

lemma migrate_words_keeps: "c \<in> set ex \<Longrightarrow> c \<in> set (migrate_words ws ex)"
  by (induction ws ex rule: migrate_words.induct) (auto simp: Let_def)

lemma length_migrate_words: "length (migrate_words ws ex) \<le> length ex + length ws"
proof (induction ws arbitrary: ex)
  case (Cons w ws)
  let ?a = "\<lparr>ar_id = plain_line w 120, ar_name = plain_line w 120, ar_loose = True\<rparr>"
  show ?case using Cons [of ex] Cons [of "ex @ [?a]"] by (simp add: Let_def)
qed simp

definition word_ref :: "app_ref \<Rightarrow> bool" where
  \<comment> \<open>an entry the migration made: a word as both id and name\<close>
  "word_ref a \<longleftrightarrow> ar_loose a \<and> ar_name a = ar_id a \<and> ar_id a \<noteq> [] \<and> \<not> is_whitespace (hd (ar_id a))
     \<and> (\<exists>t. ar_id a = plain_line t 120)"

lemma word_ref_new:
  "plain_line w 120 \<noteq> [] \<Longrightarrow>
   word_ref \<lparr>ar_id = plain_line w 120, ar_name = plain_line w 120, ar_loose = True\<rparr>"
  by (auto simp: word_ref_def dest: plain_line_hd)

lemma migrate_words_refs: "list_all word_ref ex \<Longrightarrow> list_all word_ref (migrate_words ws ex)"
proof (induction ws ex rule: migrate_words.induct)
  case (2 w ws ex)
  then show ?case by (auto simp: Let_def word_ref_new)
qed simp

lemma migrate_words_covers:
  "list_all word_ref ex \<Longrightarrow> w \<in> set ws \<Longrightarrow> plain_line w 120 \<noteq> [] \<Longrightarrow>
   \<exists>a \<in> set (migrate_words ws ex). eq_ignore_ascii_case (ar_id a) (plain_line w 120)"
proof (induction ws arbitrary: ex)
  case (Cons v ws)
  show ?case
  proof (cases "w = v")
    case False
    with Cons have w: "w \<in> set ws" by simp
    have "list_all word_ref (ex @ [\<lparr>ar_id = plain_line v 120, ar_name = plain_line v 120, ar_loose = True\<rparr>])"
      if "plain_line v 120 \<noteq> []"
      using that Cons.prems(1) word_ref_new by simp
    with Cons.IH [OF _ w Cons.prems(3)] Cons.prems(1) show ?thesis by (simp add: Let_def)
  next
    case True
    let ?word = "plain_line w 120"
    let ?known = "list_ex (\<lambda>a. eq_ignore_ascii_case (ar_id a) ?word \<or> eq_ignore_ascii_case (ar_name a) ?word) ex"
    show ?thesis
    proof (cases ?known)
      case known: True
      then obtain a where "a \<in> set ex" "eq_ignore_ascii_case (ar_id a) ?word"
        using Cons.prems(1) by (auto simp: list_ex_iff list_all_iff word_ref_def)
      with known True Cons.prems(3) show ?thesis using migrate_words_keeps by (auto simp: Let_def)
    next
      case unknown: False
      with True Cons.prems(3) show ?thesis
        using migrate_words_keeps [of "\<lparr>ar_id = ?word, ar_name = ?word, ar_loose = True\<rparr>"
            "ex @ [\<lparr>ar_id = ?word, ar_name = ?word, ar_loose = True\<rparr>]" ws]
        by (intro bexI [of _ "\<lparr>ar_id = ?word, ar_name = ?word, ar_loose = True\<rparr>"]) (simp_all add: Let_def)
    qed
  qed
qed simp

lemma covered_after_migration:
  assumes lower: "\<And>a b. eq_ignore_ascii_case a b \<Longrightarrow> lower a = lower b"
    and ex: "sc_except (c_apps (st_computer s)) = []"
    and room: "length (c_app_blocklist (st_computer s)) \<le> MAX_APPS"
    and w: "w \<in> set (c_app_blocklist (st_computer s))" "plain_line w 120 \<noteq> []"
  shows "\<exists>a \<in> set (sc_except (c_apps (st_computer (snd (migrate lower s))))).
    ar_loose a \<and> lower (ar_id a) = lower (trim (plain_line w 120))"
proof -
  let ?ws = "c_app_blocklist (st_computer s)"
  let ?ex = "migrate_words ?ws []"
  have refs: "list_all word_ref ?ex" by (rule migrate_words_refs) simp
  obtain a where a: "a \<in> set ?ex" "eq_ignore_ascii_case (ar_id a) (plain_line w 120)"
    using migrate_words_covers [of "[]", OF _ w] by auto
  then have ref: "word_ref a" using refs by (auto simp: list_all_iff)
  then obtain t where t: "ar_id a = plain_line t 120" by (auto simp: word_ref_def)
  have id: "plain_line (ar_id a) 1024 = trim (ar_id a)" using t plain_line_again [of 120 1024 t] by simp
  then have ne: "plain_line (ar_id a) 1024 \<noteq> []" using ref trim_nonempty by (simp add: word_ref_def)
  have "length [] + length ?ex \<le> MAX_APPS" using length_migrate_words [of ?ws "[]"] room by simp
  then obtain c where c: "c \<in> set (clean_apps lower True {} [] ?ex)"
    "app_key lower c = app_key lower (cleaned_app a)"
    using clean_apps_covers [of "[]" ?ex "{}" lower a] a(1) ne by auto
  have "?ws \<noteq> []" using w by auto
  then have "sc_except (c_apps (st_computer (snd (migrate lower s)))) = clean_apps lower True {} [] ?ex"
    using ex by (simp add: migrate_def Let_def normalize_scope_def)
  moreover have "lower (ar_id c) = lower (trim (plain_line w 120))"
    using c(2) id lower [OF eq_ignore_ascii_case_trim [OF a(2)]] by (simp add: app_key_def)
  moreover have "ar_loose c" using c(2) ref by (simp add: app_key_def word_ref_def)
  ultimately show ?thesis using c(1) by auto
qed

section \<open>Properties\<close>

text \<open>
  no preset turns on the command line, Messages, the local network or the use of the
  locked computer, none blocks nothing it was told to (no app scope is preset), every
  preset keeps exactly the folders the owner chose, and the careful one asks before each
  kind of action. On a fresh install every capability is off.
\<close>

theorem presets_safe:
  "\<not> s_enabled (st_shell (from_preset p roots)) \<and>
   \<not> app_on (st_apps (from_preset p roots)) (lit ''messages'') \<and>
   \<not> n_allow_local_network (st_net (from_preset p roots)) \<and>
   \<not> c_locked_use (st_computer (from_preset p roots)) \<and>
   f_roots (st_files (from_preset p roots)) = roots \<and>
   st_preset (from_preset p roots) = p \<and>
   n_mode (st_net (from_preset Careful roots)) = NetAsk \<and>
   k_mode (st_cookies (from_preset Careful roots)) = CookiesAsk \<and>
   c_mode (st_computer (from_preset Careful roots)) = ComputerAsk \<and>
   c_foreground (st_computer (from_preset Careful roots)) = FgNever \<and>
   f_ask_on_write (st_files (from_preset Careful roots)) \<and>
   a_mode (st_apps (from_preset Careful roots)) = AppsAsk \<and>
   (let f = p_settings (fresh macos d) in
     \<not> n_enabled (st_net f) \<and> \<not> k_enabled (st_cookies f) \<and> \<not> c_enabled (st_computer f) \<and>
     \<not> f_enabled (st_files f) \<and> \<not> a_enabled (st_apps f) \<and> \<not> s_enabled (st_shell f))"
  by (cases p) (simp_all add: default_settings_def default_shell_def default_apps_def app_on_def
      default_on_def fresh_def Let_def)

text \<open>
  the migration of a file with typed-in blocked apps: nothing is left of the old
  list; when there was no app list yet and at most 200 words, every word that is not blank
  is an entry (compared by lower case) of the list that is now in force; a stricter choice
  ("only these") stays; a second migration does nothing.
\<close>

theorem migrate_keeps_blocked:
  assumes lower: "\<And>a b. eq_ignore_ascii_case a b \<Longrightarrow> lower a = lower b"
    and ex: "sc_except (c_apps (st_computer s)) = []"
    and room: "length (c_app_blocklist (st_computer s)) \<le> 200"
    and w: "w \<in> set (c_app_blocklist (st_computer s))" "plain_line w 120 \<noteq> []"
    and pol: "sc_policy (c_apps (st_computer s)) \<noteq> PolOnly"
  shows "list_ex (\<lambda>a. ar_loose a \<and> lower (ar_id a) = lower (trim (plain_line w 120)))
      (active_apps (c_apps (st_computer (snd (migrate lower s))))) \<and>
    c_app_blocklist (st_computer (snd (migrate lower s))) = [] \<and>
    migrate lower (snd (migrate lower s)) = (False, snd (migrate lower s))"
proof (intro conjI)
  let ?s' = "snd (migrate lower s)"
  obtain a where a: "a \<in> set (sc_except (c_apps (st_computer ?s')))" "ar_loose a"
    "lower (ar_id a) = lower (trim (plain_line w 120))"
    using covered_after_migration [of lower s, OF lower ex _ w] room by (auto simp: MAX_APPS_def)
  have ne: "c_app_blocklist (st_computer s) \<noteq> []" using w by auto
  have "migrate_words (c_app_blocklist (st_computer s)) [] \<noteq> []"
    using migrate_words_covers [of "[]", OF _ w] by force
  then have "sc_policy (c_apps (st_computer ?s')) = PolExcept"
    using ne ex pol by (cases "sc_policy (c_apps (st_computer s))")
      (simp_all add: migrate_def Let_def normalize_scope_def)
  with a show "list_ex (\<lambda>a. ar_loose a \<and> lower (ar_id a) = lower (trim (plain_line w 120)))
      (active_apps (c_apps (st_computer ?s')))"
    by (auto simp: active_apps_def list_ex_iff)
  show bl: "c_app_blocklist (st_computer ?s') = []"
    using ne by (simp add: migrate_def Let_def)
  show "migrate lower ?s' = (False, ?s')"
    using bl by (simp add: migrate_def [of lower "snd (migrate lower s)"] Let_def)
qed

definition sample_blocked :: settings where
  "sample_blocked = default_settings\<lparr>st_computer :=
     (st_computer default_settings)\<lparr>c_app_blocklist := [lit ''Chess'']\<rparr>\<rparr>"

theorem migrate_keeps_blocked_witness:
  "list_ex (\<lambda>a. ar_loose a \<and> to_ascii_lowercase (ar_id a) = to_ascii_lowercase (trim (plain_line (lit ''Chess'') 120)))
     (active_apps (c_apps (st_computer (snd (migrate to_ascii_lowercase sample_blocked)))))"
  by (rule conjunct1 [OF migrate_keeps_blocked])
    (simp_all add: eq_ignore_ascii_case_def to_ascii_lowercase_def sample_blocked_def
      default_settings_def default_scope_def plain_line_def lit_def is_control_def trim_def
      is_whitespace_def)

text \<open>
  after the list of apps is normalized it has at most 200 entries, no two with the
  same id (compared by the given case folding) and kind, each with an id of at most 1024
  characters and a name; the list of "only these" has no loose entry.
\<close>

theorem normalize_scope_bounded:
  "apps_ok lower True (sc_except (normalize_scope lower s)) \<and>
   apps_ok lower False (sc_only (normalize_scope lower s)) \<and>
   sc_policy (normalize_scope lower s) = sc_policy s \<and>
   length (active_apps (normalize_scope lower s)) \<le> 200"
  using normalize_scope_ok [of lower s]
  by (cases "sc_policy s")
    (simp_all add: apps_ok_def MAX_APPS_def active_apps_def normalize_scope_def)

text \<open>
  the migration to a list of pairings loses no pairing: the synth of the old single
  pairing is paired afterwards, every other stored pairing is found as before, there is no
  grant left without a synth, no grant changes what it allows, and a second migration
  changes nothing more.
\<close>

theorem migrate_links_keeps:
  assumes "p_identity p = Some old" and "id_synth_id old \<noteq> []"
  shows "identity_of (snd (migrate_links p)) s =
      (case identity_of p s of Some i \<Rightarrow> Some i
       | None \<Rightarrow> if s = id_synth_id old then Some old else None) \<and>
    \<not> list_ex (\<lambda>g. sg_synth_id g = []) (p_grants (snd (migrate_links p))) \<and>
    map (\<lambda>g. (sg_capability g, sg_scope g, sg_until g)) (p_grants (snd (migrate_links p)))
       = map (\<lambda>g. (sg_capability g, sg_scope g, sg_until g)) (p_grants p) \<and>
    snd (migrate_links (snd (migrate_links p))) = snd (migrate_links p)"
proof (intro conjI)
  show "identity_of (snd (migrate_links p)) s =
      (case identity_of p s of Some i \<Rightarrow> Some i
       | None \<Rightarrow> if s = id_synth_id old then Some old else None)"
  proof (cases "list_ex (\<lambda>i. id_synth_id i = id_synth_id old) (p_identities p)")
    case True
    then have "find (\<lambda>i. id_synth_id i = id_synth_id old) (p_identities p) \<noteq> None"
      by (auto simp: find_None_iff list_ex_iff)
    with assms(1) True show ?thesis
      by (auto simp: migrate_links_def identity_of_def split: option.split)
  next
    case False
    then have "find (\<lambda>i. id_synth_id i = id_synth_id old) (p_identities p) = None"
      by (auto simp: find_None_iff list_ex_iff)
    with assms(1) False show ?thesis
      by (auto simp: migrate_links_def identity_of_def split: option.split)
  qed
  show "\<not> list_ex (\<lambda>g. sg_synth_id g = []) (p_grants (snd (migrate_links p)))"
    using assms by (auto simp: migrate_links_def list_ex_iff)
  show "map (\<lambda>g. (sg_capability g, sg_scope g, sg_until g)) (p_grants (snd (migrate_links p)))
      = map (\<lambda>g. (sg_capability g, sg_scope g, sg_until g)) (p_grants p)"
    using assms by (auto simp: migrate_links_def)
  show "snd (migrate_links (snd (migrate_links p))) = snd (migrate_links p)"
    using assms by (auto simp: migrate_links_def list_ex_iff o_def)
qed

definition sample_old_file :: persisted where
  "sample_old_file = (fresh True (lit ''d''))\<lparr>
     p_identity := Some \<lparr>id_synth_id = lit ''mia'', id_synth_url = lit ''u'', id_synth_name = [],
       id_source = SrcCode, id_hub_id = []\<rparr>,
     p_grants := [\<lparr>sg_synth_id = [], sg_capability = lit ''net'', sg_scope = lit ''x'', sg_until = 0\<rparr>]\<rparr>"

theorem migrate_links_keeps_witness:
  "\<not> list_ex (\<lambda>g. sg_synth_id g = []) (p_grants (snd (migrate_links sample_old_file)))"
  using migrate_links_keeps [of sample_old_file "\<lparr>id_synth_id = lit ''mia'', id_synth_url = lit ''u'',
      id_synth_name = [], id_source = SrcCode, id_hub_id = []\<rparr>"]
  by (simp add: sample_old_file_def)

text \<open>
  The per-app switches of the apps capability: normalizing keeps what every known app is.
\<close>

lemma normalize_apps_app_on:
  "app \<in> set known \<Longrightarrow> app_on (normalize_apps known s) app = app_on s app"
  by (auto simp: app_on_def normalize_apps_def split: option.split)

lemma normalize_look_choices:
  "l_idle_hide_seconds (normalize_look k) \<in> set IDLE_HIDE_CHOICES \<and>
   l_screenshot_max (normalize_look k) \<in> set SCREENSHOT_CHOICES \<and>
   normalize_look (normalize_look k) = normalize_look k"
  by (simp add: normalize_look_def Let_def IDLE_HIDE_CHOICES_def SCREENSHOT_CHOICES_def
      default_idle_hide_def)

end
