(* ===== verification/Secrets.thy ===== *)
theory Secrets
  imports Unicode_Text
begin

text \<open>
  Token custody: \<open>crates/connect-core/src/secret.rs\<close> (the interface \<open>SecretStore\<close>, the
  memory and the file store) and the functions of \<open>core.rs\<close> that move the token of an
  older version to the key of its synth. The interface is the locale \<open>secret_store\<close>; the
  moves are functions of its three operations, as the source takes a trait object. The
  file store reads its file on every call; whether the next writes reach the disk is part
  of its state. The keychain store only calls the system: it is any other provider of the
  interface. Shown: whatever fails on the way, a token is never lost by a move.
\<close>

type_synonym sec_key = utext
datatype io_error = IoError

type_synonym 's get_op = "'s \<Rightarrow> sec_key \<Rightarrow> (io_error, utext option) result"
type_synonym 's set_op = "'s \<Rightarrow> sec_key \<Rightarrow> utext \<Rightarrow> (io_error, unit) result \<times> 's"
type_synonym 's del_op = "'s \<Rightarrow> sec_key \<Rightarrow> (io_error, unit) result \<times> 's"

section \<open>The memory store\<close>

type_synonym mem_store = "sec_key \<rightharpoonup> utext"

definition mem_set :: "mem_store set_op" where
  "mem_set m k v = (Ok (), m(k \<mapsto> v))"

definition mem_get :: "mem_store get_op" where
  "mem_get m k = Ok (m k)"

definition mem_delete :: "mem_store del_op" where
  "mem_delete m k = (Ok (), m(k := None))"

section \<open>The file store\<close>

datatype secret_file =
    SecMissing
  | SecMap "sec_key \<rightharpoonup> utext"
  | SecCorrupt     \<comment> \<open>not the JSON map it should be\<close>
  | SecUnreadable  \<comment> \<open>any other error of reading it\<close>

record file_store =
  fs_file :: secret_file
  fs_writes :: "bool list"  \<comment> \<open>whether each coming write reaches the disk (then: yes)\<close>

definition read_map :: "file_store \<Rightarrow> (io_error, sec_key \<rightharpoonup> utext) result" where
  "read_map s = (case fs_file s of
      SecMap m \<Rightarrow> Ok m
    | SecMissing \<Rightarrow> Ok Map.empty
    | SecCorrupt \<Rightarrow> Err IoError
    | SecUnreadable \<Rightarrow> Err IoError)"

definition write_map ::
  "(sec_key \<rightharpoonup> utext) \<Rightarrow> file_store \<Rightarrow> (io_error, unit) result \<times> file_store" where
  \<comment> \<open>a sibling file is written and renamed over the old one: all or nothing\<close>
  "write_map m s = (case fs_writes s of
      [] \<Rightarrow> (Ok (), s\<lparr>fs_file := SecMap m\<rparr>)
    | True # ws \<Rightarrow> (Ok (), s\<lparr>fs_file := SecMap m, fs_writes := ws\<rparr>)
    | False # ws \<Rightarrow> (Err IoError, s\<lparr>fs_writes := ws\<rparr>))"

definition fs_set :: "file_store set_op" where
  "fs_set s k v = (case read_map s of
      Err e \<Rightarrow> (Err e, s)
    | Ok m \<Rightarrow> write_map (m(k \<mapsto> v)) s)"

definition fs_get :: "file_store get_op" where
  "fs_get s k = (case read_map s of Err e \<Rightarrow> Err e | Ok m \<Rightarrow> Ok (m k))"

definition fs_delete :: "file_store del_op" where
  "fs_delete s k = (case read_map s of
      Err e \<Rightarrow> (Err e, s)
    | Ok m \<Rightarrow> write_map (m(k := None)) s)"

section \<open>Moving a token\<close>

definition TOKEN_KEY :: sec_key where
  "TOKEN_KEY = lit ''pairing_token''"

definition token_key :: "utext \<Rightarrow> sec_key" where
  "token_key synth = TOKEN_KEY @ 58 # synth"

definition some_token :: "(io_error, utext option) result \<Rightarrow> utext option" where
  \<comment> \<open>\<open>.ok().flatten().filter(|t| !t.is_empty())\<close>\<close>
  "some_token r = (case r of Ok (Some t) \<Rightarrow> if t = [] then None else Some t | _ \<Rightarrow> None)"

definition move_bare_token ::
  "'s get_op \<Rightarrow> 's set_op \<Rightarrow> 's del_op \<Rightarrow> utext \<Rightarrow> 's \<Rightarrow> (unit, bool) result \<times> 's" where
  "move_bare_token getk setk delk synth s =
     (let key = token_key synth
      in if some_token (getk s key) \<noteq> None then (Ok True, snd (delk s TOKEN_KEY))
         else case some_token (getk s TOKEN_KEY) of
             None \<Rightarrow> (Ok False, s)
           | Some token \<Rightarrow>
               (case setk s key token of
                  (Err _, s1) \<Rightarrow> (Err (), s1)
                | (Ok _, s1) \<Rightarrow>
                    if getk s1 key \<noteq> Ok (Some token) then (Err (), s1)
                    else (Ok True, snd (delk s1 TOKEN_KEY))))"

definition migrate_legacy_token ::
  "'s get_op \<Rightarrow> 's set_op \<Rightarrow> 's del_op \<Rightarrow> utext option \<Rightarrow> 's \<Rightarrow> bool \<times> 's" where
  \<comment> \<open>the synth of the one pairing of an older version, if the file had one\<close>
  "migrate_legacy_token getk setk delk old s =
     (case old of
        None \<Rightarrow> (False, s)
      | Some synth \<Rightarrow>
          (case move_bare_token getk setk delk synth s of
             (Ok _, s1) \<Rightarrow> (True, s1)
           | (Err _, s1) \<Rightarrow> (False, s1)))"

definition token_of :: "'s get_op \<Rightarrow> sec_key \<Rightarrow> bool \<Rightarrow> 's \<Rightarrow> utext option" where
  "token_of getk key legacy s =
     (case some_token (getk s key) of
        None \<Rightarrow> if legacy then some_token (getk s TOKEN_KEY) else None
      | Some t \<Rightarrow> Some t)"

text \<open>
  One stored pairing when the core starts (\<open>Core::new\<close>): None drops it, Some is its
  \<open>legacy_token\<close> flag.
\<close>

definition open_stored_link ::
  "'s get_op \<Rightarrow> 's set_op \<Rightarrow> 's del_op \<Rightarrow> bool \<Rightarrow> utext \<Rightarrow> 's \<Rightarrow> bool option \<times> 's" where
  "open_stored_link getk setk delk only_one synth s =
     (if some_token (getk s (token_key synth)) \<noteq> None then (Some False, s)
      else if \<not> only_one then (None, s)
      else case move_bare_token getk setk delk synth s of
          (Ok True, s1) \<Rightarrow> (Some False, s1)
        | (Ok False, s1) \<Rightarrow> (None, s1)
        | (Err _, s1) \<Rightarrow> (Some True, s1))"

section \<open>The interface\<close>

lemma token_key_inj [simp]: "token_key a = token_key b \<longleftrightarrow> a = b"
  by (simp add: token_key_def)

lemma token_key_not_bare [simp]: "token_key a \<noteq> TOKEN_KEY" "TOKEN_KEY \<noteq> token_key a"
  by (simp_all add: token_key_def)

locale secret_store =
  fixes getk :: "'s get_op" and setk :: "'s set_op" and delk :: "'s del_op"
  assumes set_get: "setk s k v = (Ok u, s') \<Longrightarrow> getk s' k = Ok (Some v)"
    and set_other: "setk s k v = (r, s') \<Longrightarrow> k' \<noteq> k \<Longrightarrow> getk s' k' = getk s k'"
    and set_fails: "setk s k v = (Err e, s') \<Longrightarrow> getk s' k' = getk s k'"
    and del_gone: "delk s k = (Ok u, s') \<Longrightarrow> getk s' k = Ok None"
    and del_other: "delk s k = (r, s') \<Longrightarrow> k' \<noteq> k \<Longrightarrow> getk s' k' = getk s k'"
    and del_fails: "delk s k = (Err e, s') \<Longrightarrow> getk s' k' = getk s k'"
begin

lemma del_other_eq: "k' \<noteq> k \<Longrightarrow> getk (snd (delk s k)) k' = getk s k'"
  by (cases "delk s k") (auto intro: del_other)

lemma move_others:
  "k \<noteq> token_key synth \<Longrightarrow> k \<noteq> TOKEN_KEY \<Longrightarrow>
   getk (snd (move_bare_token getk setk delk synth s)) k = getk s k"
  by (auto simp: move_bare_token_def Let_def del_other_eq
      split: option.split sum.split prod.split dest: set_other)

lemma move_keeps_token:
  "case move_bare_token getk setk delk synth s of
     (Ok True, s') \<Rightarrow> some_token (getk s' (token_key synth)) = token_of getk (token_key synth) True s
        \<and> token_of getk (token_key synth) True s \<noteq> None
   | (Ok False, s') \<Rightarrow> s' = s \<and> token_of getk (token_key synth) True s = None
   | (Err _, s') \<Rightarrow> token_of getk (token_key synth) True s' = token_of getk (token_key synth) True s"
proof (cases "some_token (getk s (token_key synth))")
  case (Some t)
  then show ?thesis by (simp add: move_bare_token_def Let_def token_of_def del_other_eq)
next
  case none: None
  show ?thesis
  proof (cases "some_token (getk s TOKEN_KEY)")
    case None
    with none show ?thesis by (simp add: move_bare_token_def Let_def token_of_def)
  next
    case (Some t)
    then have t: "t \<noteq> []" by (auto simp: some_token_def split: sum.splits option.splits if_splits)
    obtain r s1 where st: "setk s (token_key synth) t = (r, s1)" by fastforce
    have bare: "getk s1 TOKEN_KEY = getk s TOKEN_KEY" using set_other [OF st] by simp
    show ?thesis
    proof (cases r)
      case (Inl e)
      with st none Some have "move_bare_token getk setk delk synth s = (Err (), s1)"
        by (simp add: move_bare_token_def Let_def)
      with st Inl none Some bare set_fails [of s "token_key synth" t e s1 "token_key synth"]
      show ?thesis by (simp add: token_of_def)
    next
      case (Inr u)
      have own: "getk s1 (token_key synth) = Ok (Some t)" using set_get st Inr by blast
      with st none Some Inr t show ?thesis
        by (simp add: move_bare_token_def Let_def token_of_def del_other_eq some_token_def)
    qed
  qed
qed

lemma open_keeps_token:
  assumes "token_of getk (token_key synth) only_one s = Some t"
  shows "\<exists>legacy s'. open_stored_link getk setk delk only_one synth s = (Some legacy, s')
    \<and> token_of getk (token_key synth) legacy s' = Some t"
proof (cases "some_token (getk s (token_key synth))")
  case (Some own)
  with assms show ?thesis
    by (intro exI [of _ False] exI [of _ s]) (simp add: open_stored_link_def token_of_def)
next
  case None
  with assms have one: "only_one" by (auto simp: token_of_def split: if_splits)
  obtain r s' where m: "move_bare_token getk setk delk synth s = (r, s')" by fastforce
  with move_keeps_token [of synth s] one assms None show ?thesis
    by (cases r; cases "\<exists>b. r = Ok b \<and> b")
      (auto simp: open_stored_link_def token_of_def split: bool.splits option.splits)
qed

end

interpretation mem_secrets: secret_store mem_get mem_set mem_delete
  by unfold_locales (auto simp: mem_get_def mem_set_def mem_delete_def)

interpretation file_secrets: secret_store fs_get fs_set fs_delete
proof unfold_locales
  show "fs_set s k v = (Ok u, s') \<Longrightarrow> fs_get s' k = Ok (Some v)" for s s' :: file_store and k v u
    by (auto simp: fs_set_def fs_get_def read_map_def write_map_def
        split: sum.splits secret_file.splits list.splits bool.splits)
  show "fs_set s k v = (r, s') \<Longrightarrow> k' \<noteq> k \<Longrightarrow> fs_get s' k' = fs_get s k'" for s s' :: file_store and k v r k'
    by (auto simp: fs_set_def fs_get_def read_map_def write_map_def
        split: sum.splits secret_file.splits list.splits bool.splits)
  show "fs_set s k v = (Err e, s') \<Longrightarrow> fs_get s' k' = fs_get s k'" for s s' :: file_store and k v e k'
    by (auto simp: fs_set_def fs_get_def read_map_def write_map_def
        split: sum.splits secret_file.splits list.splits bool.splits)
  show "fs_delete s k = (Ok u, s') \<Longrightarrow> fs_get s' k = Ok None" for s s' :: file_store and k u
    by (auto simp: fs_delete_def fs_get_def read_map_def write_map_def
        split: sum.splits secret_file.splits list.splits bool.splits)
  show "fs_delete s k = (r, s') \<Longrightarrow> k' \<noteq> k \<Longrightarrow> fs_get s' k' = fs_get s k'"
    for s s' :: file_store and k r k'
    by (auto simp: fs_delete_def fs_get_def read_map_def write_map_def
        split: sum.splits secret_file.splits list.splits bool.splits)
  show "fs_delete s k = (Err e, s') \<Longrightarrow> fs_get s' k' = fs_get s k'"
    for s s' :: file_store and k e k'
    by (auto simp: fs_delete_def fs_get_def read_map_def write_map_def
        split: sum.splits secret_file.splits list.splits bool.splits)
qed

section \<open>Properties\<close>

text \<open>
  when the core starts on the file store, a stored pairing whose token can be read
  (under its own key, or, when it is the only pairing, under the bare key of an older
  version) keeps its link and its token, whichever of the writes of the move fail; the
  tokens of the other synths are what they were.
\<close>

theorem start_keeps_token:
  assumes "token_of fs_get (token_key synth) only_one s = Some t"
  shows "(\<exists>legacy s'. open_stored_link fs_get fs_set fs_delete only_one synth s = (Some legacy, s')
      \<and> token_of fs_get (token_key synth) legacy s' = Some t) \<and>
    (other = synth \<or>
       fs_get (snd (open_stored_link fs_get fs_set fs_delete only_one synth s)) (token_key other)
         = fs_get s (token_key other))"
proof
  show "\<exists>legacy s'. open_stored_link fs_get fs_set fs_delete only_one synth s = (Some legacy, s')
      \<and> token_of fs_get (token_key synth) legacy s' = Some t"
    by (rule file_secrets.open_keeps_token [OF assms])
  show "other = synth \<or>
      fs_get (snd (open_stored_link fs_get fs_set fs_delete only_one synth s)) (token_key other)
        = fs_get s (token_key other)"
  proof (cases "other = synth")
    case False
    then have "fs_get (snd (move_bare_token fs_get fs_set fs_delete synth s)) (token_key other)
        = fs_get s (token_key other)"
      by (intro file_secrets.move_others) simp_all
    then show ?thesis
      by (auto simp: open_stored_link_def split: prod.splits sum.splits bool.splits)
  qed simp
qed

theorem start_keeps_token_witness:
  "\<exists>legacy s'. open_stored_link fs_get fs_set fs_delete True (lit ''mia'')
       \<lparr>fs_file = SecMap [TOKEN_KEY \<mapsto> lit ''t''], fs_writes = [False]\<rparr> = (Some legacy, s')
     \<and> token_of fs_get (token_key (lit ''mia'')) legacy s' = Some (lit ''t'')"
proof -
  have "token_of fs_get (token_key (lit ''mia'')) True
      \<lparr>fs_file = SecMap [TOKEN_KEY \<mapsto> lit ''t''], fs_writes = [False]\<rparr> = Some (lit ''t'')"
    by (simp add: token_of_def some_token_def fs_get_def read_map_def)
  from start_keeps_token [OF this] show ?thesis by blast
qed

end
