(* ===== verification/Calendar_Time.thy ===== *)
theory Calendar_Time
  imports Unicode_Text "HOL-Library.Signed_Division"
begin

text \<open>
  Dates: \<open>crates/connect-core/src/apps/time.rs\<close> (the times a synth writes) and the
  month key of the traffic counter in \<open>core.rs\<close>. Rust's \<open>/\<close> truncates, which is
  \<open>sdiv\<close> here, \<open>%\<close> on the values it is used on is \<open>mod\<close>; \<open>div_euclid\<close> and
  \<open>rem_euclid\<close> by a positive number are \<open>div\<close> and \<open>mod\<close>. Days and years are integers;
  the bounds shown make the narrowing casts exact. Shown: days and civil dates are inverse
  to each other, and a moment printed as RFC 3339 is read back as that moment.
\<close>

record local =
  year :: int
  month :: int
  day :: int
  hour :: int
  minute :: int
  second :: int

section \<open>Civil dates\<close>

definition is_leap :: "int \<Rightarrow> bool" where
  "is_leap y \<longleftrightarrow> (y mod 4 = 0 \<and> y mod 100 \<noteq> 0) \<or> y mod 400 = 0"

definition days_in_month :: "int \<Rightarrow> int \<Rightarrow> int" where
  "days_in_month y m =
     (if m \<in> {1, 3, 5, 7, 8, 10, 12} then 31
      else if m \<in> {4, 6, 9, 11} then 30
      else if is_leap y then 29 else 28)"

definition days_from_civil :: "int \<Rightarrow> int \<Rightarrow> int \<Rightarrow> int" where
  "days_from_civil y0 m d =
     (let y = (if m \<le> 2 then y0 - 1 else y0);
          era = (if y \<ge> 0 then y else y - 399) sdiv 400;
          yoe = y - era * 400;
          mp = (m + 9) mod 12;
          doy = (153 * mp + 2) sdiv 5 + d - 1;
          doe = yoe * 365 + yoe sdiv 4 - yoe sdiv 100 + doy
      in era * 146097 + doe - 719468)"

definition civil_from_days :: "int \<Rightarrow> int \<times> int \<times> int" where
  "civil_from_days z0 =
     (let z = z0 + 719468;
          era = (if z \<ge> 0 then z else z - 146096) sdiv 146097;
          doe = z - era * 146097;
          yoe = (doe - doe sdiv 1460 + doe sdiv 36524 - doe sdiv 146096) sdiv 365;
          y = yoe + era * 400;
          doy = doe - (365 * yoe + yoe sdiv 4 - yoe sdiv 100);
          mp = (5 * doy + 2) sdiv 153;
          d = doy - (153 * mp + 2) sdiv 5 + 1;
          m = (if mp < 10 then mp + 3 else mp - 9)
      in (if m \<le> 2 then y + 1 else y, m, d))"

definition ordinal :: "local \<Rightarrow> int" where
  "ordinal l = days_from_civil (year l) (month l) (day l) * 86400 + hour l * 3600 + minute l * 60
     + second l"

definition utc_parts :: "int \<Rightarrow> local" where
  "utc_parts unix =
     (let days = unix div 86400; secs = unix mod 86400; (y, m, d) = civil_from_days days
      in \<lparr>year = y, month = m, day = d, hour = secs div 3600, minute = secs mod 3600 div 60,
          second = secs mod 60\<rparr>)"

section \<open>Printing\<close>

definition pad_int :: "nat \<Rightarrow> int \<Rightarrow> utext" where
  \<comment> \<open>\<open>format!("{:0w}")\<close>: the sign counts for the width\<close>
  "pad_int w n =
     (let ds = digits (nat \<bar>n\<bar>)
      in if n < 0 then 45 # replicate (w - 1 - length ds) 48 @ ds
         else replicate (w - length ds) 48 @ ds)"

definition rfc3339_utc :: "int \<Rightarrow> utext" where
  "rfc3339_utc unix =
     (let p = utc_parts unix
      in pad_int 4 (year p) @ [45] @ pad_int 2 (month p) @ [45] @ pad_int 2 (day p) @ [84]
         @ pad_int 2 (hour p) @ [58] @ pad_int 2 (minute p) @ [58] @ pad_int 2 (second p) @ [90])"

definition display_local :: "local \<Rightarrow> utext" where
  "display_local l =
     pad_int 4 (year l) @ [45] @ pad_int 2 (month l) @ [45] @ pad_int 2 (day l) @ [32]
     @ pad_int 2 (hour l) @ [58] @ pad_int 2 (minute l)"

definition month_key :: "int \<Rightarrow> utext" where
  \<comment> \<open>of the seconds since 1970 (\<open>core.rs\<close>; a clock before that counts as 0)\<close>
  "month_key secs =
     (let (y, m, _) = civil_from_days (secs sdiv 86400)
      in pad_int 4 y @ [45] @ pad_int 2 m)"

section \<open>Reading\<close>

datatype when_time = At int | LocalTime local

definition num :: "utext \<Rightarrow> nat \<Rightarrow> nat \<Rightarrow> int option" where
  \<comment> \<open>the number of \<open>n\<close> ASCII digits at this place\<close>
  "num t i n =
     (if i + n \<le> length t \<and> list_all is_ascii_digit (take n (drop i t))
      then Some (foldl (\<lambda>a c. 10 * a + (int c - 48)) 0 (take n (drop i t)))
      else None)"

definition parse_i64 :: "utext \<Rightarrow> int option" where
  \<comment> \<open>\<open>str::parse::<i64>\<close> of a text far too short to overflow: one sign is accepted\<close>
  "parse_i64 t =
     (let (neg, ds) = (case t of c # cs \<Rightarrow> if c = 45 then (True, cs) else if c = 43 then (False, cs)
                                           else (False, t) | [] \<Rightarrow> (False, t))
      in if ds \<noteq> [] \<and> list_all is_ascii_digit ds
         then let v = foldl (\<lambda>a c. 10 * a + (int c - 48)) 0 ds in Some (if neg then - v else v)
         else None)"

definition parse_date :: "utext \<Rightarrow> local option" where
  "parse_date t =
     (if length t < 10 \<or> \<not> list_all (\<lambda>c. c < 128) t then None
      else if t ! 4 \<noteq> 45 \<or> t ! 7 \<noteq> 45 then None
      else case (num t 0 4, num t 5 2, num t 8 2) of
          (Some y, Some m, Some d) \<Rightarrow>
            (if \<not> (1 \<le> m \<and> m \<le> 12) \<or> d < 1 \<or> days_in_month y m < d \<or> y < 1971 then None
             else Some \<lparr>year = y, month = m, day = d, hour = 0, minute = 0, second = 0\<rparr>)
        | _ \<Rightarrow> None)"

definition parse_zone :: "utext \<Rightarrow> int option" where
  "parse_zone z =
     (if z = [90] \<or> z = [122] then Some 0
      else if length z \<noteq> 6 \<or> (z ! 0 \<noteq> 43 \<and> z ! 0 \<noteq> 45) \<or> z ! 3 \<noteq> 58 then None
      else case (parse_i64 (take 2 (drop 1 z)), parse_i64 (take 2 (drop 4 z))) of
          (Some hh, Some mm) \<Rightarrow>
            (if 14 < hh \<or> 59 < mm then None
             else let secs = hh * 3600 + mm * 60 in Some (if z ! 0 = 45 then - secs else secs))
        | _ \<Rightarrow> None)"

text \<open>The seconds, if there are any, and where the zone begins.\<close>

definition parse_seconds :: "utext \<Rightarrow> (int \<times> utext) option" where
  "parse_seconds t =
     (if 16 < length t \<and> t ! 16 = 58 then
        (case num t 17 2 of
           Some s \<Rightarrow> if s < 60 then
               (let rest = drop 19 t
                in Some (s, case rest of
                      c # cs \<Rightarrow> if c = 46 then dropWhile is_ascii_digit cs else rest
                    | [] \<Rightarrow> []))
             else None
         | None \<Rightarrow> None)
      else Some (0, drop 16 t))"

definition parse_when :: "utext \<Rightarrow> when_time option" where
  \<comment> \<open>None is the one refusal "must look like 2026-10-13T15:00"\<close>
  "parse_when text =
     (let t = trim text
      in case parse_date t of
           None \<Rightarrow> None
         | Some l0 \<Rightarrow>
             if length t = 10 then Some (LocalTime l0)
             else if (t ! 10 \<noteq> 84 \<and> t ! 10 \<noteq> 32 \<and> t ! 10 \<noteq> 116) \<or> length t < 16 \<or> t ! 13 \<noteq> 58 then None
             else (case (num t 11 2, num t 14 2) of
                 (Some h, Some m) \<Rightarrow>
                   if h < 24 \<and> m < 60 then
                     (case parse_seconds t of
                        None \<Rightarrow> None
                      | Some (s, zone) \<Rightarrow>
                          (let l = l0\<lparr>hour := h, minute := m, second := s\<rparr>
                           in if zone = [] then Some (LocalTime l)
                              else map_option (\<lambda>off. At (ordinal l - off)) (parse_zone zone)))
                   else None
               | _ \<Rightarrow> None))"

section \<open>Lemmas on civil dates\<close>

lemma sdiv_nonneg: "0 \<le> (a::int) \<Longrightarrow> 0 < b \<Longrightarrow> a sdiv b = a div b"
  by (cases "a = 0") (simp_all add: signed_divide_int_def)

lemma sdiv_floor:
  fixes a b :: int
  assumes "0 < b"
  shows "(if a \<ge> 0 then a else a - (b - 1)) sdiv b = a div b"
proof (cases "a \<ge> 0")
  case True
  with assms show ?thesis by (simp add: sdiv_nonneg)
next
  case False
  let ?n = "- a"
  have "(a - (b - 1)) sdiv b = - ((?n + (b - 1)) div b)"
    using assms False by (simp add: signed_divide_int_def)
  also have "(?n + (b - 1)) div b = - (a div b)"
  proof -
    define q r where "q = a div b" and "r = a mod b"
    have a: "a = q * b + r" "0 \<le> r" "r < b" using assms by (simp_all add: q_def r_def)
    have "?n + (b - 1) = b * (- q) + (b - 1 - r)" using a(1) by (simp add: algebra_simps)
    moreover have "0 \<le> b - 1 - r" "b - 1 - r < b" using a by simp_all
    ultimately have "(?n + (b - 1)) div b = - q" by (rule int_div_pos_eq)
    then show ?thesis by (simp add: q_def)
  qed
  finally show ?thesis using False by simp
qed

lemma sdiv_400: "(if (a::int) \<ge> 0 then a else a - 399) sdiv 400 = a div 400"
  using sdiv_floor [of 400 a] by (simp split: if_splits)

lemma sdiv_146097: "(if (a::int) \<ge> 0 then a else a - 146096) sdiv 146097 = a div 146097"
  using sdiv_floor [of 146097 a] by (simp split: if_splits)

text \<open>The year of the era, taken apart into centuries, fours and years.\<close>

lemma year_of_era:
  fixes k p t r :: int
  assumes "0 \<le> k" "k \<le> 3" "0 \<le> p" "p \<le> 24" "0 \<le> t" "t \<le> 3" "0 \<le> r" "r \<le> 365"
    and leap: "r = 365 \<Longrightarrow> t = 3"
    and doe: "doe = 36524 * k + 1461 * p + 365 * t + r"
    and small: "1461 * p + 365 * t + r < 36524"
  shows "(doe - doe div 1460 + doe div 36524 - doe div 146096) div 365 = 100 * k + 4 * p + t"
proof -
  have k: "doe div 36524 = k" using assms by simp
  have "doe < 146096" using assms by simp
  then have big: "doe div 146096 = 0" using assms by simp
  define s where "s = 365 * t + r"
  have s: "0 \<le> s" "s \<le> 1460"
    using assms by (simp_all add: s_def)
  define e where "e = (p + s + 24 * k) div 1460"
  have e: "0 \<le> e" "e \<le> 1" "e = 1 \<longleftrightarrow> 1460 \<le> p + s + 24 * k"
  proof -
    define n where "n = p + s + 24 * k"
    have "0 \<le> n" "n \<le> 1556" using assms s by (simp_all add: n_def)
    then have "n div 1460 = (if 1460 \<le> n then 1 else 0)"
      using int_div_pos_eq [of n 1460 1 "n - 1460"] by simp
    then show "0 \<le> e" "e \<le> 1" "e = 1 \<longleftrightarrow> 1460 \<le> p + s + 24 * k"
      by (simp_all add: e_def n_def)
  qed
  have "doe = 1460 * (25 * k + p) + (p + s + 24 * k)" using doe by (simp add: s_def)
  then have q: "doe div 1460 = 25 * k + p + e" by (simp add: e_def)
  have num: "doe - doe div 1460 + doe div 36524 - doe div 146096 = 365 * (100 * k + 4 * p) + (s - e)"
    using doe q k big by (simp add: s_def)
  have "(s - e) div 365 = t"
  proof (cases "t = 3")
    case True
    then have "1095 \<le> s" using assms by (simp add: s_def)
    moreover have "s = 1095 \<Longrightarrow> e = 0" using e assms by auto
    moreover have "s = 1460 \<Longrightarrow> e = 1" using e assms by auto
    ultimately have "1095 \<le> s - e" "s - e < 1460" using e s by linarith+
    then show ?thesis using True int_div_pos_eq [of "s - e" 365 3 "s - e - 1095"] by simp
  next
    case False
    then have "r \<noteq> 365" using leap by blast
    then have "r \<le> 364" "t \<le> 2" using assms False by simp_all
    then have "s \<le> 1094" by (simp add: s_def)
    then have "e = 0" using e assms by auto
    then show ?thesis using \<open>r \<le> 364\<close> assms int_div_pos_eq [of s 365 t r] by (simp add: s_def)
  qed
  then show ?thesis using num by simp
qed

definition year_of_doe :: "int \<Rightarrow> int" where
  "year_of_doe doe = (doe - doe div 1460 + doe div 36524 - doe div 146096) div 365"

definition year_start :: "int \<Rightarrow> int" where
  "year_start yoe = 365 * yoe + yoe div 4 - yoe div 100"

definition long_year :: "int \<Rightarrow> bool" where
  \<comment> \<open>the year of the era (from March) ends with a 29 February\<close>
  "long_year yoe \<longleftrightarrow> yoe mod 4 = 3 \<and> (yoe mod 100 \<noteq> 99 \<or> yoe = 399)"

lemma year_parts:
  fixes k p t :: int
  assumes "0 \<le> k" "k \<le> 3" "0 \<le> p" "p \<le> 24" "0 \<le> t" "t \<le> 3"
  shows "year_start (100 * k + 4 * p + t) = 36524 * k + 1461 * p + 365 * t"
    "long_year (100 * k + 4 * p + t) \<longleftrightarrow> t = 3 \<and> (p \<noteq> 24 \<or> k = 3)"
proof -
  have four: "(100 * k + 4 * p + t) div 4 = 25 * k + p" "(100 * k + 4 * p + t) mod 4 = t"
    using assms by presburger+
  have hundred: "(100 * k + 4 * p + t) div 100 = k" "(100 * k + 4 * p + t) mod 100 = 4 * p + t"
    using assms by (auto intro: int_div_pos_eq int_mod_pos_eq)
  show "year_start (100 * k + 4 * p + t) = 36524 * k + 1461 * p + 365 * t"
    by (simp add: year_start_def four hundred)
  have "4 * p + t = 99 \<longleftrightarrow> p = 24 \<and> t = 3" using assms by (safe; linarith)
  moreover have "100 * k + 4 * p + t = 399 \<longleftrightarrow> k = 3 \<and> p = 24 \<and> t = 3"
    using assms by (safe; linarith)
  ultimately show "long_year (100 * k + 4 * p + t) \<longleftrightarrow> t = 3 \<and> (p \<noteq> 24 \<or> k = 3)"
    by (auto simp: long_year_def four hundred)
qed

lemma year_split: "0 \<le> (yoe::int) \<Longrightarrow> yoe \<le> 399 \<Longrightarrow>
  \<exists>k p t. 0 \<le> k \<and> k \<le> 3 \<and> 0 \<le> p \<and> p \<le> 24 \<and> 0 \<le> t \<and> t \<le> 3 \<and> yoe = 100 * k + 4 * p + t"
proof (intro exI conjI)
  assume *: "0 \<le> yoe" "yoe \<le> 399"
  let ?x = "yoe mod 100"
  show "yoe = 100 * (yoe div 100) + 4 * (?x div 4) + ?x mod 4" by simp
qed auto

lemma doe_of_year:
  assumes yoe: "0 \<le> yoe" "yoe \<le> 399" and doy: "0 \<le> doy" "doy \<le> 365" "doy = 365 \<longrightarrow> long_year yoe"
  shows "year_of_doe (year_start yoe + doy) = yoe"
    and "0 \<le> year_start yoe + doy" "year_start yoe + doy < 146097"
proof -
  obtain k p t where *: "0 \<le> k" "k \<le> 3" "0 \<le> p" "p \<le> 24" "0 \<le> t" "t \<le> 3"
    and y: "yoe = 100 * k + 4 * p + t"
    using year_split [OF yoe] by blast
  note parts = year_parts [OF *, folded y]
  have long: "doy = 365 \<Longrightarrow> t = 3 \<and> (p \<noteq> 24 \<or> k = 3)" using doy(3) parts(2) by simp
  show "0 \<le> year_start yoe + doy" using * doy parts(1) by simp
  show "year_start yoe + doy < 146097" using * doy parts(1) long by simp
  show "year_of_doe (year_start yoe + doy) = yoe"
  proof (cases "1461 * p + 365 * t + doy < 36524")
    case True
    then show ?thesis
      using year_of_era [OF * doy(1,2) _ _ True, of "year_start yoe + doy"] long y parts(1)
      by (auto simp: year_of_doe_def)
  next
    case False
    then have "p = 24" "t = 3" "doy = 365" using * doy by simp_all
    moreover from this long have "k = 3" by simp
    ultimately show ?thesis using y parts(1) by (simp add: year_of_doe_def)
  qed
qed

lemma year_of_doe_range:
  assumes "0 \<le> doe" "doe < 146097"
  shows "0 \<le> year_of_doe doe" "year_of_doe doe \<le> 399"
    "0 \<le> doe - year_start (year_of_doe doe)" "doe - year_start (year_of_doe doe) \<le> 365"
    "doe - year_start (year_of_doe doe) = 365 \<Longrightarrow> long_year (year_of_doe doe)"
proof -
  let ?goal = "\<lambda>yoe. year_of_doe doe = yoe \<and> 0 \<le> yoe \<and> yoe \<le> 399 \<and> 0 \<le> doe - year_start yoe \<and>
    doe - year_start yoe \<le> 365 \<and> (doe - year_start yoe = 365 \<longrightarrow> long_year yoe)"
  have "\<exists>yoe. ?goal yoe"
  proof (cases "doe = 146096")
    case True
    then have "?goal 399" by (simp add: year_of_doe_def year_start_def long_year_def)
    then show ?thesis by blast
  next
    case False
    define k x where "k = doe div 36524" and "x = doe mod 36524"
    define p s where "p = x div 1461" and "s = x mod 1461"
    define t where "t = (if s = 1460 then 3 else s div 365)"
    define r where "r = s - 365 * t"
    have k: "0 \<le> k" "k \<le> 3" "0 \<le> x" "x < 36524" "doe = 36524 * k + x"
      using assms False by (simp_all add: k_def x_def)
    have p: "0 \<le> p" "p \<le> 24" "0 \<le> s" "s \<le> 1460" "x = 1461 * p + s"
      using k by (simp_all add: p_def s_def)
    have t: "0 \<le> t" "t \<le> 3" "0 \<le> r" "r \<le> 365" "s = 365 * t + r" "r = 365 \<Longrightarrow> t = 3 \<and> s = 1460"
    proof -
      show "0 \<le> t" "t \<le> 3" using p by (auto simp: t_def)
      define q w where "q = s div 365" and "w = s mod 365"
      have s: "s = 365 * q + w" "0 \<le> w" "w < 365" by (simp_all add: q_def w_def)
      have "t = (if s = 1460 then 3 else q)" by (simp add: t_def q_def)
      with s show "0 \<le> r" "r \<le> 365" "r = 365 \<Longrightarrow> t = 3 \<and> s = 1460"
        by (auto simp: r_def split: if_splits)
      show "s = 365 * t + r" by (simp add: r_def)
    qed
    let ?y = "100 * k + 4 * p + t"
    have "year_of_doe doe = ?y"
      unfolding year_of_doe_def
      by (rule year_of_era [of k p t r]) (use k p t in auto)
    moreover have "year_start ?y = doe - r"
      using year_parts(1) [of k p t] k p t by simp
    moreover have "r = 365 \<Longrightarrow> long_year ?y"
      using year_parts(2) [of k p t] k p t by auto
    moreover have "0 \<le> ?y" "?y \<le> 399" using k p t by simp_all
    ultimately have "?goal ?y" using t by simp
    then show ?thesis by blast
  qed
  then show "0 \<le> year_of_doe doe" "year_of_doe doe \<le> 399"
    "0 \<le> doe - year_start (year_of_doe doe)" "doe - year_start (year_of_doe doe) \<le> 365"
    "doe - year_start (year_of_doe doe) = 365 \<Longrightarrow> long_year (year_of_doe doe)"
    by auto
qed

text \<open>The months of the year from March, as a table.\<close>

definition month_ok :: "int \<Rightarrow> bool" where
  "month_ok doy =
     (let mp = (5 * doy + 2) div 153; d = doy - (153 * mp + 2) div 5 + 1
      in 0 \<le> mp \<and> mp \<le> 11 \<and> 1 \<le> d \<and>
         d \<le> (if mp = 11 then (if doy = 365 then 29 else 28)
               else if mp \<in> {1, 3, 6, 8} then 30 else 31))"

lemma month_table: "list_all month_ok [0..365]"
  by code_simp

lemma month_ok: "0 \<le> doy \<Longrightarrow> doy \<le> 365 \<Longrightarrow> month_ok doy"
  using month_table by (simp add: list_all_iff)

lemma day_table:
  "list_all (\<lambda>mp. list_all (\<lambda>d. (5 * ((153 * mp + 2) div 5 + d - 1) + 2) div 153 = mp)
     [1..(if mp = 11 then 29 else if mp \<in> {1, 3, 6, 8} then 30 else 31)]) [0..(11::int)]"
  by code_simp

lemma days_from_civil_eq:
  assumes "0 \<le> yoe" "yoe \<le> 399" "0 \<le> mp" "mp \<le> 11"
    and m: "m = (if mp < 10 then mp + 3 else mp - 9)"
    and y: "y = yoe + era * 400 + (if m \<le> 2 then 1 else 0)"
  shows "days_from_civil y m d =
    era * 146097 + (year_start yoe + ((153 * mp + 2) div 5 + d - 1)) - 719468"
proof -
  have y': "(if m \<le> 2 then y - 1 else y) = yoe + era * 400" using y by simp
  have "(yoe + era * 400) div 400 = era" using assms by (simp add: int_div_pos_eq)
  then have era: "(if yoe + era * 400 \<ge> 0 then yoe + era * 400 else yoe + era * 400 - 399) sdiv 400 = era"
    by (simp only: sdiv_400)
  have mp: "(m + 9) mod 12 = mp" using m assms by (cases "mp < 10") simp_all
  have yoe: "yoe + era * 400 - era * 400 = yoe" by simp
  show ?thesis
    unfolding days_from_civil_def Let_def y' era mp yoe
    using assms by (simp add: sdiv_nonneg year_start_def)
qed

lemma civil_from_days_eq:
  assumes z: "z = era * 146097 + doe - 719468" "0 \<le> doe" "doe < 146097"
  shows "civil_from_days z =
    (let yoe = year_of_doe doe; doy = doe - year_start yoe; mp = (5 * doy + 2) div 153;
         m = (if mp < 10 then mp + 3 else mp - 9)
     in (yoe + era * 400 + (if m \<le> 2 then 1 else 0), m, doy - (153 * mp + 2) div 5 + 1))"
proof -
  have "(z + 719468) div 146097 = era" using z by (simp add: int_div_pos_eq)
  then have era: "(if z + 719468 \<ge> 0 then z + 719468 else z + 719468 - 146096) sdiv 146097 = era"
    by (simp only: sdiv_146097)
  note r = year_of_doe_range [OF z(2,3)]
  have "0 \<le> doe - doe div 1460" using z by simp
  then have "0 \<le> doe - doe div 1460 + doe div 36524 - doe div 146096"
    using z r(1) zdiv_mono2 [of doe 36524 146096] by simp
  then have yoe: "(doe - doe sdiv 1460 + doe sdiv 36524 - doe sdiv 146096) sdiv 365 = year_of_doe doe"
    using z by (simp add: sdiv_nonneg year_of_doe_def)
  define doy where "doy = doe - year_start (year_of_doe doe)"
  have doy: "0 \<le> doy" "doy \<le> 365" using r by (simp_all add: doy_def)
  then have mp: "0 \<le> (5 * doy + 2) div 153" by simp
  have ys: "365 * year_of_doe doe + year_of_doe doe sdiv 4 - year_of_doe doe sdiv 100
      = year_start (year_of_doe doe)"
    using r(1) by (simp add: sdiv_nonneg year_start_def)
  have zdoe: "z + 719468 - era * 146097 = doe" using z(1) by simp
  show ?thesis
    unfolding civil_from_days_def Let_def era zdoe yoe ys doy_def [symmetric]
    using doy mp by (simp add: sdiv_nonneg)
qed

definition valid_date :: "int \<Rightarrow> int \<Rightarrow> int \<Rightarrow> bool" where
  "valid_date y m d \<longleftrightarrow> 1 \<le> m \<and> m \<le> 12 \<and> 1 \<le> d \<and> d \<le> days_in_month y m"

lemma long_year_leap: "0 \<le> yoe \<Longrightarrow> yoe \<le> 399 \<Longrightarrow> is_leap (yoe + era * 400 + 1) \<longleftrightarrow> long_year yoe"
proof -
  assume "0 \<le> yoe" "yoe \<le> 399"
  then obtain k p t where *: "0 \<le> k" "k \<le> 3" "0 \<le> p" "p \<le> 24" "0 \<le> t" "t \<le> 3"
    and y: "yoe = 100 * k + 4 * p + t"
    using year_split by blast
  have m4: "(yoe + era * 400 + 1) mod 4 = (t + 1) mod 4"
    unfolding y using mod_mult_self1 [of "t + 1" "25 * k + p + era * 100" 4] by (simp add: algebra_simps)
  have m100: "(yoe + era * 400 + 1) mod 100 = (4 * p + t + 1) mod 100"
    unfolding y using mod_mult_self1 [of "4 * p + t + 1" "k + era * 4" 100] by (simp add: algebra_simps)
  have m400: "(yoe + era * 400 + 1) mod 400 = (yoe + 1) mod 400"
    using mod_mult_self1 [of "yoe + 1" era 400] by (simp add: algebra_simps)
  have a: "(t + 1) mod 4 = 0 \<longleftrightarrow> t = 3" using * by presburger
  have b: "(4 * p + t + 1) mod 100 = 0 \<longleftrightarrow> p = 24 \<and> t = 3"
  proof (cases "4 * p + t = 99")
    case True
    then have "p = 24" "t = 3" using * by linarith+
    then show ?thesis by simp
  next
    case False
    then have "(4 * p + t + 1) mod 100 = 4 * p + t + 1" using * by simp
    with False * show ?thesis by auto
  qed
  have c: "(yoe + 1) mod 400 = 0 \<longleftrightarrow> yoe = 399"
    using \<open>0 \<le> yoe\<close> \<open>yoe \<le> 399\<close> by (cases "yoe = 399") simp_all
  have d: "yoe = 399 \<longleftrightarrow> k = 3 \<and> p = 24 \<and> t = 3" unfolding y using * by (safe; linarith)
  have "is_leap (yoe + era * 400 + 1) \<longleftrightarrow> t = 3 \<and> \<not> (p = 24 \<and> t = 3) \<or> k = 3 \<and> p = 24 \<and> t = 3"
    unfolding is_leap_def m4 m100 m400 a b c d by (rule refl)
  then show ?thesis using year_parts(2) [OF *] y by auto
qed

theorem civil_from_days_valid:
  "case civil_from_days z of (y, m, d) \<Rightarrow> valid_date y m d \<and> days_from_civil y m d = z"
proof -
  define era doe where "era = (z + 719468) div 146097" and "doe = (z + 719468) mod 146097"
  have doe: "z = era * 146097 + doe - 719468" "0 \<le> doe" "doe < 146097"
    by (simp_all add: era_def doe_def)
  define yoe where "yoe = year_of_doe doe"
  define doy where "doy = doe - year_start yoe"
  define mp where "mp = (5 * doy + 2) div 153"
  define m where "m = (if mp < 10 then mp + 3 else mp - 9)"
  define y where "y = yoe + era * 400 + (if m \<le> 2 then 1 else 0)"
  define d where "d = doy - (153 * mp + 2) div 5 + 1"
  have civil: "civil_from_days z = (y, m, d)"
    by (simp add: civil_from_days_eq [OF doe] Let_def yoe_def doy_def mp_def m_def y_def d_def)
  have range: "0 \<le> yoe" "yoe \<le> 399" "0 \<le> doy" "doy \<le> 365" "doy = 365 \<Longrightarrow> long_year yoe"
    using year_of_doe_range [OF doe(2,3)] by (simp_all add: yoe_def doy_def)
  have ok: "0 \<le> mp" "mp \<le> 11" "1 \<le> d"
    "d \<le> (if mp = 11 then (if doy = 365 then 29 else 28) else if mp \<in> {1, 3, 6, 8} then 30 else 31)"
    using month_ok [OF range(3,4)] unfolding month_ok_def Let_def mp_def d_def by blast+
  have "days_from_civil y m d = era * 146097 + (year_start yoe + doy) - 719468"
    using days_from_civil_eq [OF range(1,2) ok(1,2) m_def y_def] by (simp add: d_def)
  then have inv: "days_from_civil y m d = z" using doe(1) by (simp add: doy_def)
  have feb: "mp = 11 \<Longrightarrow> y = yoe + era * 400 + 1" by (simp add: y_def m_def)
  have "mp \<in> {0, 1, 2, 3, 4, 5, 6, 7, 8, 9, 10, 11}" using ok(1,2) by simp presburger
  then have "d \<le> days_in_month y m"
    using ok(4) feb range(5) long_year_leap [OF range(1,2)]
    by (auto simp: days_in_month_def m_def split: if_splits)
  then show ?thesis using civil inv ok by (auto simp: valid_date_def m_def)
qed

theorem days_from_civil_inverse:
  assumes "valid_date y m d"
  shows "civil_from_days (days_from_civil y m d) = (y, m, d)"
proof -
  define mp where "mp = (if m \<le> 2 then m + 9 else m - 3)"
  define y' where "y' = (if m \<le> 2 then y - 1 else y)"
  define era yoe where "era = y' div 400" and "yoe = y' mod 400"
  define doy where "doy = (153 * mp + 2) div 5 + d - 1"
  have m: "1 \<le> m" "m \<le> 12" "1 \<le> d" "d \<le> days_in_month y m" using assms by (simp_all add: valid_date_def)
  have mp: "0 \<le> mp" "mp \<le> 11" "m = (if mp < 10 then mp + 3 else mp - 9)" using m by (auto simp: mp_def)
  have yoe: "0 \<le> yoe" "yoe \<le> 399" "y' = yoe + era * 400" by (simp_all add: era_def yoe_def)
  have y: "y = yoe + era * 400 + (if m \<le> 2 then 1 else 0)" using yoe(3) by (simp add: y'_def split: if_splits)
  have len: "d \<le> (if mp = 11 then 29 else if mp \<in> {1, 3, 6, 8} then 30 else 31)"
    using m by (auto simp: days_in_month_def mp_def split: if_splits)
  have feb: "mp = 11 \<Longrightarrow> d = 29 \<Longrightarrow> long_year yoe"
    using m yoe y long_year_leap [OF yoe(1,2), of era]
    by (auto simp: days_in_month_def mp_def split: if_splits)
  have mps: "mp \<in> {0, 1, 2, 3, 4, 5, 6, 7, 8, 9, 10, 11}" using mp(1,2) by simp presburger
  have doy: "0 \<le> doy" "doy \<le> 365" "doy = 365 \<longrightarrow> long_year yoe"
    using mps len m(3) feb by (auto simp: doy_def split: if_splits)
  have inv: "(5 * doy + 2) div 153 = mp"
    using day_table mp(1,2) m(3) len by (simp add: list_all_iff doy_def)
  let ?doe = "year_start yoe + doy"
  note doe = doe_of_year [OF yoe(1,2) doy]
  have days: "days_from_civil y m d = era * 146097 + ?doe - 719468"
    using days_from_civil_eq [OF yoe(1,2) mp y] by (simp add: doy_def)
  have rest: "year_start yoe + doy - year_start yoe = doy" "doy - (153 * mp + 2) div 5 + 1 = d"
    by (simp_all add: doy_def)
  show ?thesis
    unfolding civil_from_days_eq [OF days doe(2,3)] Let_def doe(1) rest(1) inv
      mp(3) [symmetric] y [symmetric] rest(2) by (rule refl)
qed

section \<open>Lemmas on the printed form\<close>

lemma digits_small:
  "n < 10 \<Longrightarrow> digits n = [48 + n]"
  "10 \<le> n \<Longrightarrow> n < 100 \<Longrightarrow> digits n = [48 + n div 10, 48 + n mod 10]"
  "100 \<le> n \<Longrightarrow> n < 1000 \<Longrightarrow> digits n = [48 + n div 100, 48 + n div 10 mod 10, 48 + n mod 10]"
  "1000 \<le> n \<Longrightarrow> n < 10000 \<Longrightarrow>
   digits n = [48 + n div 1000, 48 + n div 100 mod 10, 48 + n div 10 mod 10, 48 + n mod 10]"
  by (simp_all add: digits.simps div_mult2_eq [symmetric] div_less_iff_less_mult not_less
      less_eq_div_iff_mult_less_eq)

lemma pad2: "0 \<le> n \<Longrightarrow> n < 100 \<Longrightarrow> pad_int 2 n = [48 + nat n div 10, 48 + nat n mod 10]"
  by (cases "nat n < 10") (auto simp: pad_int_def digits_small)

lemma pad4: "0 \<le> n \<Longrightarrow> n < 10000 \<Longrightarrow>
  pad_int 4 n = [48 + nat n div 1000, 48 + nat n div 100 mod 10, 48 + nat n div 10 mod 10, 48 + nat n mod 10]"
proof -
  assume "0 \<le> n" "n < 10000"
  then consider "nat n < 10" | "10 \<le> nat n" "nat n < 100" | "100 \<le> nat n" "nat n < 1000"
    | "1000 \<le> nat n" "nat n < 10000" by linarith
  then show ?thesis
    using \<open>0 \<le> n\<close> by cases (simp_all add: pad_int_def digits_small numeral_2_eq_2 numeral_3_eq_3)
qed

lemma digit_48 [simp]: "is_ascii_digit (48 + k) \<longleftrightarrow> k \<le> 9"
  by (auto simp: is_ascii_digit_def)

lemma utc_parts_valid:
  "valid_date (year (utc_parts u)) (month (utc_parts u)) (day (utc_parts u))"
  "0 \<le> hour (utc_parts u)" "hour (utc_parts u) < 24"
  "0 \<le> minute (utc_parts u)" "minute (utc_parts u) < 60"
  "0 \<le> second (utc_parts u)" "second (utc_parts u) < 60"
  "ordinal (utc_parts u) = u"
proof -
  obtain y m d where c: "civil_from_days (u div 86400) = (y, m, d)" by (metis prod_cases3)
  with civil_from_days_valid [of "u div 86400"]
  have v: "valid_date y m d" "days_from_civil y m d = u div 86400" by simp_all
  show "valid_date (year (utc_parts u)) (month (utc_parts u)) (day (utc_parts u))"
    using c v(1) by (simp add: utc_parts_def Let_def)
  define x where "x = u mod 86400"
  have x: "0 \<le> x" "x < 86400" by (simp_all add: x_def)
  then have h: "x div 3600 < 24" using div_mult_mod_eq [of x 3600] pos_mod_sign [of 3600 x] by linarith
  have "x mod 3600 < 3600" by simp
  then have "x mod 3600 div 60 < 60"
    using div_mult_mod_eq [of "x mod 3600" 60] pos_mod_sign [of 60 "x mod 3600"] by linarith
  note m = this
  have parts: "hour (utc_parts u) = x div 3600" "minute (utc_parts u) = x mod 3600 div 60"
    "second (utc_parts u) = x mod 60"
    using c by (simp_all add: utc_parts_def Let_def x_def)
  show "0 \<le> hour (utc_parts u)" "0 \<le> minute (utc_parts u)"
    unfolding parts using x(1) by (simp_all add: pos_imp_zdiv_nonneg_iff)
  show "hour (utc_parts u) < 24" "minute (utc_parts u) < 60"
    unfolding parts by (rule h, rule m)
  show "0 \<le> second (utc_parts u)" "second (utc_parts u) < 60"
    unfolding parts by simp_all
  have dt: "days_from_civil (year (utc_parts u)) (month (utc_parts u)) (day (utc_parts u)) = u div 86400"
    using c v(2) by (simp add: utc_parts_def Let_def)
  have "x mod 3600 mod 60 = x mod 60" by (simp add: mod_mod_cancel)
  then show "ordinal (utc_parts u) = u"
    unfolding ordinal_def dt parts x_def
    using div_mult_mod_eq [of u 86400] div_mult_mod_eq [of "u mod 86400" 3600]
      div_mult_mod_eq [of "u mod 86400 mod 3600" 60] by (simp only: x_def)
qed

lemma drop_length: "drop i t = xs @ rest \<Longrightarrow> xs \<noteq> [] \<Longrightarrow> i + length xs \<le> length t"
proof -
  assume *: "drop i t = xs @ rest" "xs \<noteq> []"
  then have "length t - i = length xs + length rest" by (metis length_append length_drop)
  moreover have "0 < length xs" using * by simp
  ultimately show ?thesis by linarith
qed

lemma num_digits2:
  "drop i t = [48 + a, 48 + b] @ rest \<Longrightarrow> a \<le> 9 \<Longrightarrow> b \<le> 9 \<Longrightarrow> num t i 2 = Some (int (10 * a + b))"
  by (frule drop_length) (simp_all add: num_def)

lemma num_digits4:
  "drop i t = [48 + a, 48 + b, 48 + c, 48 + d] @ rest \<Longrightarrow> a \<le> 9 \<Longrightarrow> b \<le> 9 \<Longrightarrow> c \<le> 9 \<Longrightarrow> d \<le> 9 \<Longrightarrow>
   num t i 4 = Some (int (1000 * a + 100 * b + 10 * c + d))"
  by (frule drop_length) (simp_all add: num_def)

lemma four_digits:
  fixes n :: nat
  shows "1000 * (n div 1000) + 100 * (n div 100 mod 10) + 10 * (n div 10 mod 10) + n mod 10 = n"
proof -
  define q1 q2 q3 where "q1 = n div 10" and "q2 = q1 div 10" and "q3 = q2 div 10"
  define r0 r1 r2 where "r0 = n mod 10" and "r1 = q1 mod 10" and "r2 = q2 mod 10"
  have "n = 10 * q1 + r0" "q1 = 10 * q2 + r1" "q2 = 10 * q3 + r2"
    by (simp_all add: q1_def q2_def q3_def r0_def r1_def r2_def)
  then have *: "1000 * q3 + 100 * r2 + 10 * r1 + r0 = n" by linarith
  have "n div 1000 = q3" "n div 100 mod 10 = r2" "n div 10 mod 10 = r1" "n mod 10 = r0"
    by (simp_all add: q1_def q2_def q3_def r0_def r1_def r2_def div_mult2_eq [symmetric])
  then show ?thesis using * by (simp only:)
qed

lemma mod10_le9: "(n::nat) mod 10 \<le> 9"
  by (rule less_Suc_eq_le [THEN iffD1]) simp

lemma num_pad2:
  assumes n: "0 \<le> n" "n < 100" and d: "drop i t = pad_int 2 n @ rest"
  shows "num t i 2 = Some n"
proof -
  have "nat n div 10 \<le> 9" using n by (simp add: div_le_mono less_eq_div_iff_mult_less_eq
        less_Suc_eq_le [symmetric] div_less_iff_less_mult)
  then have "num t i 2 = Some (int (10 * (nat n div 10) + nat n mod 10))"
    using d by (intro num_digits2 [of _ _ _ _ rest]) (simp_all add: pad2 n mod10_le9)
  then show ?thesis using n by (simp only: mult_div_mod_eq nat_0_le)
qed

lemma num_pad4:
  assumes n: "0 \<le> n" "n < 10000" and d: "drop i t = pad_int 4 n @ rest"
  shows "num t i 4 = Some n"
proof -
  have "nat n div 1000 \<le> 9" using n by (simp add: less_Suc_eq_le [symmetric] div_less_iff_less_mult)
  then have "num t i 4 = Some (int (1000 * (nat n div 1000) + 100 * (nat n div 100 mod 10)
      + 10 * (nat n div 10 mod 10) + nat n mod 10))"
    using d by (intro num_digits4 [of _ _ _ _ _ _ rest]) (simp_all add: pad4 n mod10_le9)
  then show ?thesis using n by (simp only: four_digits nat_0_le)
qed

lemma length_pad2: "0 \<le> n \<Longrightarrow> n < 100 \<Longrightarrow> length (pad_int 2 n) = 2"
  by (simp add: pad2)

lemma length_pad4: "0 \<le> n \<Longrightarrow> n < 10000 \<Longrightarrow> length (pad_int 4 n) = 4"
  by (simp add: pad4)

lemma pad_ascii:
  "0 \<le> n \<Longrightarrow> n < 100 \<Longrightarrow> list_all (\<lambda>c. c < 128 \<and> \<not> is_whitespace c) (pad_int 2 n)"
  "0 \<le> m \<Longrightarrow> m < 10000 \<Longrightarrow> list_all (\<lambda>c. c < 128 \<and> \<not> is_whitespace c) (pad_int 4 m)"
proof -
  have ok: "k \<le> 9 \<Longrightarrow> 48 + k < 128 \<and> \<not> is_whitespace (48 + k)" for k :: nat
    by (simp add: is_whitespace_def)
  have le: "k < 100 \<Longrightarrow> k div 10 \<le> 9" "k < 10000 \<Longrightarrow> k div 1000 \<le> 9" for k :: nat
    by (simp_all add: less_Suc_eq_le [symmetric] div_less_iff_less_mult)
  show "0 \<le> n \<Longrightarrow> n < 100 \<Longrightarrow> list_all (\<lambda>c. c < 128 \<and> \<not> is_whitespace c) (pad_int 2 n)"
    by (simp only: pad2 list.pred_inject) (intro conjI ok [THEN conjunct1] ok [THEN conjunct2] le(1) mod10_le9 TrueI; simp)
  show "0 \<le> m \<Longrightarrow> m < 10000 \<Longrightarrow> list_all (\<lambda>c. c < 128 \<and> \<not> is_whitespace c) (pad_int 4 m)"
    by (simp only: pad4 list.pred_inject simp_thms) (intro conjI ok [THEN conjunct1] ok [THEN conjunct2] le(2) mod10_le9 TrueI; simp)
qed

lemma trim_no_whitespace: "list_all (\<lambda>c. c < 128 \<and> \<not> is_whitespace c) s \<Longrightarrow> trim s = s"
  by (rule trim_trimmed) (auto simp: trimmed_def list_all_iff)

section \<open>Properties\<close>

text \<open>
  every day number is the number of the civil date it is shown as, and that date
  exists (month 1 to 12, day 1 to the length of the month, leap years included).
\<close>

theorem civil_date_exists:
  "case civil_from_days z of (y, m, d) \<Rightarrow>
     1 \<le> m \<and> m \<le> 12 \<and> 1 \<le> d \<and> d \<le> days_in_month y m \<and> days_from_civil y m d = z"
  using civil_from_days_valid [of z] by (auto simp: valid_date_def split: prod.splits)

text \<open>
  a moment between the years 1971 and 9999, printed in UTC as RFC 3339 and read back
  as the time of a synth's request, is the same moment.
\<close>

theorem rfc3339_round_trip:
  assumes "1971 \<le> year (utc_parts u)" "year (utc_parts u) \<le> 9999"
  shows "parse_when (rfc3339_utc u) = Some (At u)"
proof -
  define P where "P = utc_parts u"
  note v = utc_parts_valid [of u, folded P_def]
  have r: "0 \<le> year P" "year P < 10000" "0 \<le> month P" "month P < 100" "0 \<le> day P" "day P < 100"
    "0 \<le> hour P" "hour P < 100" "0 \<le> minute P" "minute P < 100" "0 \<le> second P" "second P < 100"
    using assms v by (auto simp: P_def [symmetric] valid_date_def days_in_month_def split: if_splits)
  define t where "t = pad_int 4 (year P) @ [45] @ pad_int 2 (month P) @ [45] @ pad_int 2 (day P) @ [84]
    @ pad_int 2 (hour P) @ [58] @ pad_int 2 (minute P) @ [58] @ pad_int 2 (second P) @ [90]"
  have printed: "rfc3339_utc u = t" by (simp add: rfc3339_utc_def t_def P_def Let_def)
  note len = length_pad4 [OF r(1,2)] length_pad2 [OF r(3,4)] length_pad2 [OF r(5,6)]
    length_pad2 [OF r(7,8)] length_pad2 [OF r(9,10)] length_pad2 [OF r(11,12)]
  have "list_all (\<lambda>c. c < 128 \<and> \<not> is_whitespace c) t"
    using pad_ascii(2) [OF r(1,2)] pad_ascii(1) [OF r(3,4)] pad_ascii(1) [OF r(5,6)]
      pad_ascii(1) [OF r(7,8)] pad_ascii(1) [OF r(9,10)] pad_ascii(1) [OF r(11,12)]
    by (simp add: t_def is_whitespace_def)
  then have trim: "trim t = t" and ascii: "list_all (\<lambda>c. c < 128) t"
    by (auto intro: trim_no_whitespace simp: list_all_iff)
  have length: "length t = 20" by (simp add: t_def len)
  have nth: "t ! 4 = 45" "t ! 7 = 45" "t ! 10 = 84" "t ! 13 = 58" "t ! 16 = 58"
    by (simp_all add: t_def nth_append len)
  have nums: "num t 0 4 = Some (year P)" "num t 5 2 = Some (month P)" "num t 8 2 = Some (day P)"
    "num t 11 2 = Some (hour P)" "num t 14 2 = Some (minute P)" "num t 17 2 = Some (second P)"
    by (rule num_pad4 [OF r(1,2)]; simp add: t_def; fail | rule num_pad2 [OF r(3,4)]; simp add: t_def len; fail
      | rule num_pad2 [OF r(5,6)]; simp add: t_def len; fail | rule num_pad2 [OF r(7,8)]; simp add: t_def len; fail
      | rule num_pad2 [OF r(9,10)]; simp add: t_def len; fail | rule num_pad2 [OF r(11,12)]; simp add: t_def len)+
  have rest: "drop 19 t = [90]" by (simp add: t_def len)
  have date: "parse_date t = Some \<lparr>year = year P, month = month P, day = day P, hour = 0, minute = 0, second = 0\<rparr>"
    using v(1) assms(1) by (simp add: parse_date_def length ascii nth nums valid_date_def P_def [symmetric])
  have secs: "parse_seconds t = Some (second P, [90])"
    using v(7) by (simp add: parse_seconds_def length nth nums rest)
  show ?thesis
    using v(3,5,8) unfolding printed parse_when_def
    by (simp add: trim date length nth nums secs parse_zone_def ordinal_def)
qed

theorem rfc3339_round_trip_witness: "parse_when (rfc3339_utc 86400000) = Some (At 86400000)"
  by (rule rfc3339_round_trip) code_simp+

text \<open>
  the offset of a time is read more loosely than documented: a second sign is
  accepted in front of a digit, and it reverses the meaning of the first.
\<close>

theorem zone_accepts_two_signs:
  "parse_zone (lit ''+-5:30'') = Some (- 16200) \<and> parse_zone (lit ''--5:30'') = Some 16200"
  by (simp add: parse_zone_def lit_def parse_i64_def is_ascii_digit_def)

end
