(* ===== verification/Address_Policy.thy ===== *)
theory Address_Policy
  imports Unicode_Text "HOL-Library.Word"
begin

text \<open>
  \<open>crates/connect-core/src/tcp.rs\<close>: which addresses a synth may reach through this
  computer (\<open>non_public\<close>) and the resolve, check, dial sequence (\<open>connect\<close>). Octets are
  8-bit and segments 16-bit words with the masks of the source. Resolving a name, reading
  an address literal, printing one and dialling are the fields of a record of functions.
  Shown: the IPv4 classes are exactly a table of networks, an IPv6 address that carries an
  IPv4 address is judged by it, and a dial goes only to an address that was checked.
\<close>

unbundle bit_operations_syntax

section \<open>Addresses\<close>

datatype ipv4 = V4 (oct1: "8 word") (oct2: "8 word") (oct3: "8 word") (oct4: "8 word")

datatype ipv6 = V6 (segments: "16 word list")  \<comment> \<open>eight segments\<close>

datatype ipaddr = IpV4 ipv4 | IpV6 ipv6

datatype addr_class = Loopback | Private | LinkLocal | Unspecified | CarrierGradeNat
  | MulticastOrBroadcast | Reserved | SiteLocal | Multicast

definition v4_is_loopback :: "ipv4 \<Rightarrow> bool" where
  "v4_is_loopback a \<longleftrightarrow> oct1 a = 127"

definition v4_is_private :: "ipv4 \<Rightarrow> bool" where
  "v4_is_private a \<longleftrightarrow> oct1 a = 10 \<or> (oct1 a = 172 \<and> 16 \<le> oct2 a \<and> oct2 a \<le> 31)
     \<or> (oct1 a = 192 \<and> oct2 a = 168)"

definition v4_is_multicast :: "ipv4 \<Rightarrow> bool" where
  "v4_is_multicast a \<longleftrightarrow> 224 \<le> oct1 a \<and> oct1 a \<le> 239"

definition v4_is_broadcast :: "ipv4 \<Rightarrow> bool" where
  "v4_is_broadcast a \<longleftrightarrow> a = V4 255 255 255 255"

definition non_public_v4 :: "ipv4 \<Rightarrow> addr_class option" where
  "non_public_v4 a =
     (if v4_is_loopback a then Some Loopback
      else if v4_is_private a then Some Private
      else if oct1 a = 169 \<and> oct2 a = 254 then Some LinkLocal
      else if oct1 a = 0 then Some Unspecified
      else if oct1 a = 100 \<and> (oct2 a AND 0xc0) = 64 then Some CarrierGradeNat
      else if v4_is_multicast a \<or> v4_is_broadcast a then Some MulticastOrBroadcast
      else if 240 \<le> oct1 a then Some Reserved
      else if (oct1 a = 192 \<and> oct2 a = 0 \<and> (oct3 a = 0 \<or> oct3 a = 2))
           \<or> (oct1 a = 198 \<and> oct2 a = 51 \<and> oct3 a = 100)
           \<or> (oct1 a = 203 \<and> oct2 a = 0 \<and> oct3 a = 113)
           \<or> (oct1 a = 198 \<and> (oct2 a AND 0xfe) = 18) then Some Reserved
      else None)"

definition v4_of_segments :: "16 word \<Rightarrow> 16 word \<Rightarrow> ipv4" where
  "v4_of_segments x y = V4 (ucast (drop_bit 8 x)) (ucast x) (ucast (drop_bit 8 y)) (ucast y)"

definition to_ipv4_mapped :: "ipv6 \<Rightarrow> ipv4 option" where
  "to_ipv4_mapped a =
     (let s = segments a
      in if take 6 s = [0, 0, 0, 0, 0, 0xffff] then Some (v4_of_segments (s ! 6) (s ! 7)) else None)"

definition non_public_v6 :: "ipv6 \<Rightarrow> addr_class option" where
  "non_public_v6 a =
     (let s = segments a
      in if s = [0, 0, 0, 0, 0, 0, 0, 1] then Some Loopback
         else if s = [0, 0, 0, 0, 0, 0, 0, 0] then Some Unspecified
         else case to_ipv4_mapped a of
             Some v4 \<Rightarrow> non_public_v4 v4
           | None \<Rightarrow>
               if take 6 s = [0, 0, 0, 0, 0, 0] then
                 (case non_public_v4 (v4_of_segments (s ! 6) (s ! 7)) of
                    Some c \<Rightarrow> Some c
                  | None \<Rightarrow> Some Reserved)
               else if s ! 0 = 0x64 \<and> s ! 1 = 0xff9b \<and> take 4 (drop 2 s) = [0, 0, 0, 0] then
                 non_public_v4 (v4_of_segments (s ! 6) (s ! 7))
               else if s ! 0 = 0x2002 then non_public_v4 (v4_of_segments (s ! 1) (s ! 2))
               else if (s ! 0 AND 0xfe00) = 0xfc00 then Some Private
               else if (s ! 0 AND 0xffc0) = 0xfe80 then Some LinkLocal
               else if (s ! 0 AND 0xffc0) = 0xfec0 then Some SiteLocal
               else if (s ! 0 AND 0xff00) = 0xff00 then Some Multicast
               else if s ! 0 = 0x2001 \<and> s ! 1 = 0x0db8 then Some Reserved
               else None)"

definition non_public :: "ipaddr \<Rightarrow> addr_class option" where
  "non_public a = (case a of IpV4 x \<Rightarrow> non_public_v4 x | IpV6 x \<Rightarrow> non_public_v6 x)"

section \<open>Resolve, check, dial\<close>

datatype refusal = Denied utext | Failed utext

definition refusal_text :: "refusal \<Rightarrow> utext" where
  \<comment> \<open>\<open>Display\<close>: what the synth sees (\<open>proto.rs\<close>)\<close>
  "refusal_text r = (case r of Denied why \<Rightarrow> lit ''denied: '' @ why | Failed why \<Rightarrow> why)"

datatype lookup_result = Found "ipaddr list" | LookupError utext | LookupTimeout
datatype dial_result = Connected | DialError utext | DialTimeout

record net_env =
  ne_parse_ip :: "utext \<Rightarrow> ipaddr option"
  ne_lookup :: "utext \<Rightarrow> lookup_result"
  ne_dial :: "ipaddr \<Rightarrow> dial_result"
  ne_show_ip :: "ipaddr \<Rightarrow> utext"
  ne_show_sock :: "ipaddr \<Rightarrow> nat \<Rightarrow> utext"

fun class_text :: "addr_class \<Rightarrow> utext" where
  "class_text Loopback = lit ''loopback''"
| "class_text Private = lit ''private''"
| "class_text LinkLocal = lit ''link-local''"
| "class_text Unspecified = lit ''unspecified''"
| "class_text CarrierGradeNat = lit ''carrier-grade NAT''"
| "class_text MulticastOrBroadcast = lit ''multicast or broadcast''"
| "class_text Reserved = lit ''reserved''"
| "class_text SiteLocal = lit ''site-local''"
| "class_text Multicast = lit ''multicast''"

definition unbracket :: "utext \<Rightarrow> utext" where
  \<comment> \<open>\<open>trim_start_matches('[').trim_end_matches(']')\<close>\<close>
  "unbracket h = rev (dropWhile (\<lambda>c. c = 93) (rev (dropWhile (\<lambda>c. c = 91) h)))"

text \<open>The first address that is not public, in the order of the answer.\<close>

fun first_non_public :: "ipaddr list \<Rightarrow> (ipaddr \<times> addr_class) option" where
  "first_non_public [] = None"
| "first_non_public (a # as) =
     (case non_public a of Some c \<Rightarrow> Some (a, c) | None \<Rightarrow> first_non_public as)"

text \<open>The addresses are tried in order; the attempts made are the second part.\<close>

fun dial_loop ::
  "net_env \<Rightarrow> nat \<Rightarrow> utext \<Rightarrow> ipaddr list \<Rightarrow> (refusal, ipaddr) result \<times> ipaddr list" where
  "dial_loop env port last_why [] = (Err (Failed (lit ''dial failed: '' @ last_why)), [])"
| "dial_loop env port last_why (a # as) =
     (case ne_dial env a of
        Connected \<Rightarrow> (Ok a, [a])
      | DialError e \<Rightarrow>
          (let (r, tried) = dial_loop env port (ne_show_sock env a port @ lit '': '' @ e) as
           in (r, a # tried))
      | DialTimeout \<Rightarrow>
          (let (r, tried) = dial_loop env port (ne_show_sock env a port @ lit '': no answer in 10 s'') as
           in (r, a # tried)))"

definition resolve :: "net_env \<Rightarrow> utext \<Rightarrow> (refusal, ipaddr list) result" where
  "resolve env host =
     (case ne_parse_ip env host of
        Some ip \<Rightarrow> Ok [ip]
      | None \<Rightarrow>
          (case ne_lookup env host of
             Found as \<Rightarrow> Ok as
           | LookupError e \<Rightarrow> Err (Failed (lit ''dns failed for '' @ host @ lit '': '' @ e))
           | LookupTimeout \<Rightarrow> Err (Failed (lit ''dns failed for '' @ host @ lit '': no answer in 10 s''))))"

definition connect ::
  "net_env \<Rightarrow> utext \<Rightarrow> nat \<Rightarrow> bool \<Rightarrow> (refusal, ipaddr) result \<times> ipaddr list" where
  "connect env hdr_host hdr_port allow_private =
     (if hdr_host = [] \<or> 253 < utf8_len hdr_host then
        (Err (Denied (lit ''tcp header has no valid host'')), [])
      else if hdr_port = 0 \<or> 65535 < hdr_port then
        (Err (Denied (lit ''port '' @ digits hdr_port @ lit '' is not valid'')), [])
      else let host = unbracket hdr_host
           in case resolve env host of
                Err e \<Rightarrow> (Err e, [])
              | Ok as \<Rightarrow>
                  if as = [] then (Err (Failed (lit ''dns failed for '' @ host @ lit '': no addresses'')), [])
                  else case (if allow_private then None else first_non_public as) of
                      Some (a, c) \<Rightarrow>
                        (Err (Denied (host @ lit '' is a '' @ class_text c @ lit '' address (''
                          @ ne_show_ip env a @ lit ''); local network access is off'')), [])
                    | None \<Rightarrow> dial_loop env hdr_port (lit ''no address tried'') as)"

section \<open>The table of networks\<close>

definition v4_num :: "ipv4 \<Rightarrow> nat" where
  "v4_num a = ((unat (oct1 a) * 256 + unat (oct2 a)) * 256 + unat (oct3 a)) * 256 + unat (oct4 a)"

definition dotted :: "nat \<Rightarrow> nat \<Rightarrow> nat \<Rightarrow> nat \<Rightarrow> nat" where
  "dotted a b c d = ((a * 256 + b) * 256 + c) * 256 + d"

definition networks :: "(nat \<times> nat \<times> addr_class) list" where
  \<comment> \<open>base address, prefix length, class\<close>
  "networks =
     [(dotted 127 0 0 0, 8, Loopback),
      (dotted 10 0 0 0, 8, Private), (dotted 172 16 0 0, 12, Private), (dotted 192 168 0 0, 16, Private),
      (dotted 169 254 0 0, 16, LinkLocal),
      (dotted 0 0 0 0, 8, Unspecified),
      (dotted 100 64 0 0, 10, CarrierGradeNat),
      (dotted 224 0 0 0, 4, MulticastOrBroadcast), (dotted 255 255 255 255, 32, MulticastOrBroadcast),
      (dotted 240 0 0 0, 4, Reserved), (dotted 192 0 0 0, 24, Reserved), (dotted 192 0 2 0, 24, Reserved),
      (dotted 198 51 100 0, 24, Reserved), (dotted 203 0 113 0, 24, Reserved),
      (dotted 198 18 0 0, 15, Reserved)]"

definition in_network :: "nat \<Rightarrow> nat \<Rightarrow> nat \<Rightarrow> bool" where
  "in_network n base len \<longleftrightarrow> n div 2 ^ (32 - len) = base div 2 ^ (32 - len)"

definition table_class :: "ipv4 \<Rightarrow> addr_class option" where
  "table_class a =
     map_option (\<lambda>(_, _, c). c) (find (\<lambda>(base, len, _). in_network (v4_num a) base len) networks)"

section \<open>Lemmas\<close>

lemma octet_masks:
  "list_all (\<lambda>n. ((word_of_int n :: 8 word) AND 0xc0 = 64) = (n div 64 = 1)
               \<and> ((word_of_int n :: 8 word) AND 0xfe = 18) = (n div 2 = 9)) [0..255]"
  by code_simp

lemma octet_mask:
  fixes w :: "8 word"
  shows "w AND 0xc0 = 64 \<longleftrightarrow> unat w div 64 = 1" "w AND 0xfe = 18 \<longleftrightarrow> unat w div 2 = 9"
proof -
  have "0 \<le> uint w" "uint w < 256" using uint_lt2p [of w] by simp_all
  then obtain k where k: "k \<in> set [0..255]" "uint w = k" "w = word_of_int k"
    using that [of "uint w"] by simp
  have "\<forall>n \<in> set [0..255]. ((word_of_int n :: 8 word) AND 0xc0 = 64) = (n div 64 = 1)
      \<and> ((word_of_int n :: 8 word) AND 0xfe = 18) = (n div 2 = 9)"
    using octet_masks unfolding list_all_iff .
  from bspec [OF this k(1), folded k(3)]
  have *: "(w AND 0xc0 = 64) = (uint w div 64 = 1) \<and> (w AND 0xfe = 18) = (uint w div 2 = 9)"
    unfolding k(2) .
  have "uint w div 64 = int (unat w div 64)" "uint w div 2 = int (unat w div 2)"
    by (simp_all add: of_nat_div)
  with * show "w AND 0xc0 = 64 \<longleftrightarrow> unat w div 64 = 1" "w AND 0xfe = 18 \<longleftrightarrow> unat w div 2 = 9"
    by simp_all
qed

lemma num_div:
  fixes a b c d :: nat
  assumes "a < 256" "b < 256" "c < 256" "d < 256"
  defines "n \<equiv> ((a * 256 + b) * 256 + c) * 256 + d"
  shows "n div 2 ^ 8 = (a * 256 + b) * 256 + c" "n div 2 ^ 16 = a * 256 + b" "n div 2 ^ 24 = a"
    "n div 2 ^ 17 = a * 128 + b div 2" "n div 2 ^ 20 = a * 16 + b div 16"
    "n div 2 ^ 22 = a * 4 + b div 64" "n div 2 ^ 28 = a div 16"
proof -
  have d8: "n div 256 = (a * 256 + b) * 256 + c" using assms by simp
  have d16: "n div 65536 = a * 256 + b"
    using assms div_mult2_eq [of n 256 256] d8 by simp
  have d24: "n div 16777216 = a"
    using assms div_mult2_eq [of n 65536 256] d16 by simp
  show "n div 2 ^ 8 = (a * 256 + b) * 256 + c" "n div 2 ^ 16 = a * 256 + b" "n div 2 ^ 24 = a"
    using d8 d16 d24 by simp_all
  have "(a * 256 + b) div 2 = a * 128 + b div 2" "(a * 256 + b) div 16 = a * 16 + b div 16"
    "(a * 256 + b) div 64 = a * 4 + b div 64"
    using div_mult_self1 [of 2 b "a * 128"] div_mult_self1 [of 16 b "a * 16"]
      div_mult_self1 [of 64 b "a * 4"] by (simp_all add: algebra_simps)
  then show "n div 2 ^ 17 = a * 128 + b div 2" "n div 2 ^ 20 = a * 16 + b div 16"
    "n div 2 ^ 22 = a * 4 + b div 64" "n div 2 ^ 28 = a div 16"
    using div_mult2_eq [of n 65536 2] div_mult2_eq [of n 65536 16] div_mult2_eq [of n 65536 64]
      div_mult2_eq [of n 16777216 16] d16 d24 by simp_all
qed

lemma octet_less: "unat (w :: 8 word) < 256"
proof -
  have "unat w < 2 ^ LENGTH(8)" by (rule unsigned_less)
  then show ?thesis by simp
qed

lemmas v4_div = num_div [OF octet_less octet_less octet_less octet_less]

lemma digit_eq:
  assumes "(x::nat) < k" "y < k"
  shows "a * k + x = b * k + y \<longleftrightarrow> a = b \<and> x = y"
proof
  assume e: "a * k + x = b * k + y"
  have "x = (a * k + x) mod k" using assms by simp
  also have "\<dots> = y" unfolding e using assms by simp
  finally show "a = b \<and> x = y" using e assms by auto
qed simp

text \<open>Each network of the table as a test on the octets.\<close>

lemma in_networks:
  fixes o1 o2 o3 o4 :: "8 word"
  defines "n \<equiv> v4_num (V4 o1 o2 o3 o4)"
  shows "in_network n (dotted a 0 0 0) 8 \<longleftrightarrow> unat o1 = a"
    and "b < 256 \<Longrightarrow> in_network n (dotted a b 0 0) 16 \<longleftrightarrow> unat o1 = a \<and> unat o2 = b"
    and "b < 256 \<Longrightarrow> c < 256 \<Longrightarrow> in_network n (dotted a b c 0) 24 \<longleftrightarrow>
       unat o1 = a \<and> unat o2 = b \<and> unat o3 = c"
proof -
  note d = v4_div [of o1 o2 o3 o4]
  have n: "n = ((unat o1 * 256 + unat o2) * 256 + unat o3) * 256 + unat o4"
    by (simp add: n_def v4_num_def)
  have base: "dotted a 0 0 0 div 2 ^ 24 = a" "dotted a b 0 0 div 2 ^ 16 = a * 256 + b"
    "dotted a b c 0 div 2 ^ 8 = (a * 256 + b) * 256 + c" for a b c
    by (simp_all add: dotted_def)
  show "in_network n (dotted a 0 0 0) 8 \<longleftrightarrow> unat o1 = a"
    unfolding in_network_def n using d(3) base(1) by simp
  show "b < 256 \<Longrightarrow> in_network n (dotted a b 0 0) 16 \<longleftrightarrow> unat o1 = a \<and> unat o2 = b"
    unfolding in_network_def n using d(2) base(2) digit_eq [OF octet_less] by simp
  have e: "2 ^ (32 - 24) = (2::nat) ^ 8" by simp
  show "in_network n (dotted a b c 0) 24 \<longleftrightarrow> unat o1 = a \<and> unat o2 = b \<and> unat o3 = c"
    if bc: "b < 256" "c < 256"
    unfolding in_network_def n e d(1) base(3)
    by (simp only: digit_eq [OF octet_less bc(2)] digit_eq [OF octet_less bc(1)] conj_assoc)
qed

lemma in_odd_networks:
  fixes o1 o2 o3 o4 :: "8 word"
  defines "n \<equiv> v4_num (V4 o1 o2 o3 o4)"
  shows "in_network n (dotted 172 16 0 0) 12 \<longleftrightarrow> unat o1 = 172 \<and> unat o2 div 16 = 1"
    and "in_network n (dotted 100 64 0 0) 10 \<longleftrightarrow> unat o1 = 100 \<and> unat o2 div 64 = 1"
    and "in_network n (dotted 198 18 0 0) 15 \<longleftrightarrow> unat o1 = 198 \<and> unat o2 div 2 = 9"
    and "in_network n (dotted 224 0 0 0) 4 \<longleftrightarrow> unat o1 div 16 = 14"
    and "in_network n (dotted 240 0 0 0) 4 \<longleftrightarrow> unat o1 div 16 = 15"
    and "in_network n (dotted 255 255 255 255) 32 \<longleftrightarrow>
      unat o1 = 255 \<and> unat o2 = 255 \<and> unat o3 = 255 \<and> unat o4 = 255"
proof -
  note d = v4_div [of o1 o2 o3 o4]
  have n: "n = ((unat o1 * 256 + unat o2) * 256 + unat o3) * 256 + unat o4"
    by (simp add: n_def v4_num_def)
  have small: "unat o2 div 16 < 16" "unat o2 div 64 < 4" "unat o2 div 2 < 128"
    using octet_less [of o2] by (simp_all add: div_less_iff_less_mult)
  show "in_network n (dotted 172 16 0 0) 12 \<longleftrightarrow> unat o1 = 172 \<and> unat o2 div 16 = 1"
    unfolding in_network_def n using d(5) digit_eq [OF small(1), of 1 _ 172] by (simp add: dotted_def)
  show "in_network n (dotted 100 64 0 0) 10 \<longleftrightarrow> unat o1 = 100 \<and> unat o2 div 64 = 1"
    unfolding in_network_def n using d(6) digit_eq [OF small(2), of 1 _ 100] by (simp add: dotted_def)
  show "in_network n (dotted 198 18 0 0) 15 \<longleftrightarrow> unat o1 = 198 \<and> unat o2 div 2 = 9"
    unfolding in_network_def n using d(4) digit_eq [OF small(3), of 9 _ 198] by (simp add: dotted_def)
  show "in_network n (dotted 224 0 0 0) 4 \<longleftrightarrow> unat o1 div 16 = 14"
    "in_network n (dotted 240 0 0 0) 4 \<longleftrightarrow> unat o1 div 16 = 15"
    unfolding in_network_def n using d(7) by (simp_all add: dotted_def)
  show "in_network n (dotted 255 255 255 255) 32 \<longleftrightarrow>
      unat o1 = 255 \<and> unat o2 = 255 \<and> unat o3 = 255 \<and> unat o4 = 255"
    unfolding in_network_def n
    using octet_less [of o1] octet_less [of o2] octet_less [of o3] octet_less [of o4]
    by (simp add: dotted_def) linarith
qed

lemma octet_num:
  fixes w :: "8 word"
  shows "w = 0 \<longleftrightarrow> unat w = 0" "w = 2 \<longleftrightarrow> unat w = 2" "w = 10 \<longleftrightarrow> unat w = 10"
    "w = 51 \<longleftrightarrow> unat w = 51" "w = 100 \<longleftrightarrow> unat w = 100" "w = 113 \<longleftrightarrow> unat w = 113"
    "w = 127 \<longleftrightarrow> unat w = 127" "w = 168 \<longleftrightarrow> unat w = 168" "w = 169 \<longleftrightarrow> unat w = 169"
    "w = 172 \<longleftrightarrow> unat w = 172" "w = 192 \<longleftrightarrow> unat w = 192" "w = 198 \<longleftrightarrow> unat w = 198"
    "w = 203 \<longleftrightarrow> unat w = 203" "w = 254 \<longleftrightarrow> unat w = 254" "w = 255 \<longleftrightarrow> unat w = 255"
    "16 \<le> w \<longleftrightarrow> 16 \<le> unat w" "w \<le> 31 \<longleftrightarrow> unat w \<le> 31" "224 \<le> w \<longleftrightarrow> 224 \<le> unat w"
    "w \<le> 239 \<longleftrightarrow> unat w \<le> 239" "240 \<le> w \<longleftrightarrow> 240 \<le> unat w"
  by (simp_all add: word_unat_eq_iff word_le_nat_alt)

lemma div_16_eq: "x div 16 = k \<longleftrightarrow> k * 16 \<le> x \<and> x < Suc k * 16" for x :: nat
proof -
  have "x div 16 = k \<longleftrightarrow> k \<le> x div 16 \<and> x div 16 < Suc k" by linarith
  then show ?thesis by (simp only: less_eq_div_iff_mult_less_eq div_less_iff_less_mult zero_less_numeral)
qed

lemma div_16:
  "x div 16 = Suc 0 \<longleftrightarrow> 16 \<le> x \<and> x \<le> 31" "x div 16 = 14 \<longleftrightarrow> 224 \<le> x \<and> x \<le> 239"
  "x < 256 \<Longrightarrow> x div 16 = 15 \<longleftrightarrow> 240 \<le> x" for x :: nat
  by (auto simp: div_16_eq)

lemma non_public_v4_table: "non_public_v4 (V4 o1 o2 o3 o4) = table_class (V4 o1 o2 o3 o4)"
  unfolding table_class_def networks_def non_public_v4_def v4_is_loopback_def v4_is_private_def
    v4_is_multicast_def v4_is_broadcast_def
  by (simp add: in_networks in_odd_networks octet_num octet_mask div_16 octet_less)

text \<open>An IPv4 address written into two segments is read back from them.\<close>

definition seg :: "8 word \<Rightarrow> 8 word \<Rightarrow> 16 word" where
  "seg a b = push_bit 8 (ucast a) OR ucast b"

lemma seg_bytes: "ucast (drop_bit 8 (seg a b)) = a" "(ucast (seg a b) :: 8 word) = b"
  by (rule bit_word_eqI; auto simp: seg_def bit_simps dest: bit_imp_le_length)+

lemma v4_of_seg: "v4_of_segments (seg a b) (seg c d) = V4 a b c d"
  by (simp add: v4_of_segments_def seg_bytes)

lemma dial_loop_tried:
  "a \<in> set (snd (dial_loop env port why as)) \<Longrightarrow> a \<in> set as"
proof (induction as arbitrary: why)
  case (Cons b as)
  then show ?case by (auto split: dial_result.splits prod.splits simp: Let_def) (metis snd_conv)+
qed simp

lemma dial_loop_ok:
  "fst (dial_loop env port why as) = Ok a \<Longrightarrow> ne_dial env a = Connected \<and> a \<in> set (snd (dial_loop env port why as))"
proof (induction as arbitrary: why)
  case (Cons b as)
  show ?case
  proof (cases "ne_dial env b")
    case Connected
    with Cons.prems show ?thesis by simp
  next
    case (DialError e)
    with Cons show ?thesis by (auto simp: Let_def split: prod.splits) (metis fst_conv snd_conv)+
  next
    case DialTimeout
    with Cons show ?thesis by (auto simp: Let_def split: prod.splits) (metis fst_conv snd_conv)+
  qed
qed simp

lemma first_non_public_None: "first_non_public as = None \<longleftrightarrow> (\<forall>a \<in> set as. non_public a = None)"
  by (induction as) (auto split: option.splits)

lemma connect_dial:
  "snd (connect env h p allow) \<noteq> [] \<Longrightarrow>
   \<exists>as. resolve env (unbracket h) = Ok as \<and> (allow \<or> first_non_public as = None)
     \<and> connect env h p allow = dial_loop env p (lit ''no address tried'') as"
  by (auto simp: connect_def Let_def split: if_splits sum.splits option.splits prod.splits)

lemma connect_checked:
  assumes "a \<in> set (snd (connect env h p allow)) \<or> fst (connect env h p allow) = Ok a"
  shows "\<exists>as. resolve env (unbracket h) = Ok as \<and> a \<in> set as \<and>
    (allow \<or> list_all (\<lambda>b. non_public b = None) as) \<and>
    a \<in> set (snd (connect env h p allow)) \<and>
    (fst (connect env h p allow) \<noteq> Ok a \<or> ne_dial env a = Connected)"
proof -
  have "snd (connect env h p allow) \<noteq> []"
  proof
    assume "snd (connect env h p allow) = []"
    with assms have "fst (connect env h p allow) = Ok a" "snd (connect env h p allow) = []" by auto
    then show False
      by (auto simp: connect_def Let_def split: if_splits sum.splits option.splits prod.splits
          dest!: dial_loop_ok)
  qed
  then obtain as where as: "resolve env (unbracket h) = Ok as" "allow \<or> first_non_public as = None"
    "connect env h p allow = dial_loop env p (lit ''no address tried'') as"
    using connect_dial by blast
  have tried: "a \<in> set (snd (connect env h p allow))" using assms dial_loop_ok as(3) by metis
  moreover have "a \<in> set as" using tried dial_loop_tried as(3) by metis
  moreover have "fst (connect env h p allow) \<noteq> Ok a \<or> ne_dial env a = Connected"
    using dial_loop_ok as(3) by metis
  ultimately show ?thesis using as by (auto simp: first_non_public_None list_all_iff)
qed

section \<open>Properties\<close>

text \<open>
  the IPv4 addresses that are refused are exactly the fifteen networks of the table
  (private, loopback, link-local with the cloud metadata address, carrier NAT, multicast,
  reserved and documentation), with the class of the first network an address is in.
\<close>

theorem non_public_v4_is_table: "non_public_v4 a = table_class a"
  by (cases a) (simp add: non_public_v4_table)

text \<open>
  C10: every address this computer dials for a synth is one of the addresses its name
  resolved to, and, unless the owner allowed the local network, every one of those
  addresses (not only the one dialled) is public; the connection that is handed on is one
  of the dialled addresses and it answered.
\<close>

theorem connect_dials_only_checked:
  assumes "a \<in> set (snd (connect env h p allow)) \<or> fst (connect env h p allow) = Ok a"
  shows "\<exists>as. resolve env (unbracket h) = Ok as \<and> a \<in> set as \<and>
    (allow \<or> list_all (\<lambda>b. non_public b = None) as) \<and>
    a \<in> set (snd (connect env h p allow)) \<and>
    (fst (connect env h p allow) \<noteq> Ok a \<or> ne_dial env a = Connected)"
  by (rule connect_checked [OF assms])

definition sample_env :: net_env where
  "sample_env = \<lparr>ne_parse_ip = (\<lambda>_. None), ne_lookup = (\<lambda>_. Found [IpV4 (V4 93 184 215 14)]),
     ne_dial = (\<lambda>_. Connected), ne_show_ip = (\<lambda>_. []), ne_show_sock = (\<lambda>_ _. [])\<rparr>"

theorem connect_dials_only_checked_witness:
  "\<exists>as. resolve sample_env (unbracket (lit ''a'')) = Ok as \<and> IpV4 (V4 93 184 215 14) \<in> set as \<and>
     (False \<or> list_all (\<lambda>b. non_public b = None) as) \<and>
     IpV4 (V4 93 184 215 14) \<in> set (snd (connect sample_env (lit ''a'') 443 False)) \<and>
     (fst (connect sample_env (lit ''a'') 443 False) \<noteq> Ok (IpV4 (V4 93 184 215 14))
        \<or> ne_dial sample_env (IpV4 (V4 93 184 215 14)) = Connected)"
  by (rule connect_dials_only_checked)
    (simp add: connect_def sample_env_def resolve_def lit_def char_utf8_len.simps non_public_def
      non_public_v4_def v4_is_loopback_def v4_is_private_def v4_is_multicast_def v4_is_broadcast_def
      unbracket_def)

text \<open>
  an IPv6 address that carries an IPv4 address (mapped, NAT64, 6to4) is judged by it;
  a compatible one is never public.
\<close>

theorem embedded_v4_judged:
  "non_public (IpV6 (V6 [0, 0, 0, 0, 0, 0xffff, seg a b, seg c d])) = non_public_v4 (V4 a b c d) \<and>
   non_public (IpV6 (V6 [0x64, 0xff9b, 0, 0, 0, 0, seg a b, seg c d])) = non_public_v4 (V4 a b c d) \<and>
   non_public (IpV6 (V6 [0x2002, seg a b, seg c d, x, y, z, u, w])) = non_public_v4 (V4 a b c d) \<and>
   non_public (IpV6 (V6 [0, 0, 0, 0, 0, 0, seg a b, seg c d])) \<noteq> None"
  by (simp add: non_public_def non_public_v6_def to_ipv4_mapped_def v4_of_seg Let_def split: option.split)

end
