(* ===== verification/Line_Frames.thy ===== *)
theory Line_Frames
  imports Json_Value
begin

text \<open>
  Reading lines and frames: \<open>crates/connect-core/src/proto.rs\<close> (\<open>read_line\<close>),
  \<open>rpc.rs\<close> (\<open>read_request\<close>) and \<open>crates/connect-host/src/frame.rs\<close>. A buffered
  reader is the list of chunks its next calls of \<open>fill_buf\<close> return, the end of the
  stream after them; \<open>consume\<close> leaves the rest of a chunk at the head. Bytes are numbers.
  The JSON reader and printer (serde) are parameters. Shown: what a reader returns does not
  depend on how the bytes were cut into chunks, an oversized request line is reported with
  its exact length, and a native message is read back as it was written.
\<close>

type_synonym bytes = "nat list"

section \<open>Chunks\<close>

fun position :: "nat \<Rightarrow> bytes \<Rightarrow> nat option" where
  "position b [] = None"
| "position b (x # xs) = (if x = b then Some 0 else map_option Suc (position b xs))"

definition consume :: "nat \<Rightarrow> bytes list \<Rightarrow> bytes list" where
  "consume n chunks = (case chunks of [] \<Rightarrow> []
     | c # cs \<Rightarrow> if length c \<le> n then cs else drop n c # cs)"

definition strip_cr :: "bytes \<Rightarrow> bytes" where
  "strip_cr line = (if line \<noteq> [] \<and> last line = 13 then butlast line else line)"

datatype read_error = UnexpectedEof | LineTooLong

fun read_line :: "nat \<Rightarrow> bytes \<Rightarrow> bytes list \<Rightarrow> (read_error, bytes option) result \<times> bytes list" where
  "read_line mx line [] = (if line = [] then Ok None else Err UnexpectedEof, [])"
| "read_line mx line (chunk # rest) =
     (if chunk = [] then (if line = [] then Ok None else Err UnexpectedEof, chunk # rest)
      else let (tk, found) = (case position 10 chunk of Some i \<Rightarrow> (i + 1, True)
                                                     | None \<Rightarrow> (length chunk, False))
           in if mx + 1 < length line + tk then (Err LineTooLong, chunk # rest)
              else let line' = line @ take tk chunk
                   in if found then (Ok (Some (strip_cr (butlast line'))), consume tk (chunk # rest))
                      else read_line mx line' rest)"

datatype request_line = Request bytes | TooLarge nat bool | EndOfStream

fun read_request ::
  "nat \<Rightarrow> nat \<Rightarrow> bytes \<Rightarrow> nat \<Rightarrow> bool \<Rightarrow> bytes list \<Rightarrow> (read_error, request_line) result \<times> bytes list" where
  "read_request mx drain line seen over [] =
     (if seen = 0 then Ok EndOfStream
      else if over then Ok (TooLarge seen False) else Err UnexpectedEof, [])"
| "read_request mx drain line seen over (chunk # rest) =
     (if chunk = [] then
        (if seen = 0 then Ok EndOfStream
         else if over then Ok (TooLarge seen False) else Err UnexpectedEof, chunk # rest)
      else let (tk, found) = (case position 10 chunk of Some i \<Rightarrow> (i + 1, True)
                                                     | None \<Rightarrow> (length chunk, False));
               seen' = seen + tk;
               newly = (\<not> over \<and> mx + 1 < seen');
               over' = (over \<or> newly);
               line0 = (if newly then [] else line);
               line' = (if \<not> over' then line0 @ take tk chunk else line0)
           in if found then
                (if over' then Ok (TooLarge (seen' - 1) True)
                 else Ok (Request (strip_cr (butlast line'))), consume tk (chunk # rest))
              else if over' \<and> drain \<le> seen' then (Ok (TooLarge seen' False), rest)
              else read_request mx drain line' seen' over' rest)"

definition MAX_REQUEST_LINE :: nat where "MAX_REQUEST_LINE = 6 * 1024 * 1024"
definition MAX_DRAIN :: nat where "MAX_DRAIN = 64 * 1024 * 1024"

section \<open>Frames of the browser helper\<close>

datatype frame_error = FrClosed | FrTooLarge nat | FrMalformed utext | FrIo

definition MAX_TO_BROWSER :: nat where "MAX_TO_BROWSER = 64 * 1024"
definition MAX_FROM_BROWSER :: nat where "MAX_FROM_BROWSER = 2 * 1024 * 1024"

definition message_type :: "json \<Rightarrow> (frame_error, utext) result" where
  "message_type v =
     (case v of
        JObj _ \<Rightarrow>
          (case get_str (lit ''type'') v of
             None \<Rightarrow> Err (FrMalformed (lit ''no type''))
           | Some ty \<Rightarrow> if ty = [] \<or> 64 < utf8_len ty then Err (FrMalformed (lit ''bad type'')) else Ok ty)
      | _ \<Rightarrow> Err (FrMalformed (lit ''not an object'')))"

definition is_reserved :: "utext \<Rightarrow> bool" where
  "is_reserved ty \<longleftrightarrow> ty = lit ''host'' \<or> starts_with (lit ''host.'') ty"

definition parse_message :: "(bytes \<Rightarrow> json option) \<Rightarrow> bytes \<Rightarrow> (frame_error, json) result" where
  "parse_message from_slice bs =
     (case from_slice bs of
        None \<Rightarrow> Err (FrMalformed (lit ''not JSON''))
      | Some v \<Rightarrow>
          (case message_type v of
             Err e \<Rightarrow> Err e
           | Ok ty \<Rightarrow> if is_reserved ty then Err (FrMalformed (lit ''reserved type'')) else Ok v))"

definition u32_bytes :: "bool \<Rightarrow> nat \<Rightarrow> bytes" where
  \<comment> \<open>\<open>to_ne_bytes\<close>; the first argument: little-endian machine\<close>
  "u32_bytes le n =
     (let bs = [n mod 256, n div 256 mod 256, n div 65536 mod 256, n div 16777216 mod 256]
      in if le then bs else rev bs)"

definition u32_of_bytes :: "bool \<Rightarrow> bytes \<Rightarrow> nat" where
  "u32_of_bytes le bs =
     (let b = (if le then bs else rev bs)
      in b ! 0 + 256 * b ! 1 + 65536 * b ! 2 + 16777216 * b ! 3)"

definition read_native ::
  "(bytes \<Rightarrow> json option) \<Rightarrow> bool \<Rightarrow> nat \<Rightarrow> bytes \<Rightarrow> (frame_error, json) result \<times> bytes" where
  "read_native from_slice le mx input =
     (if length input < 4 then (Err FrClosed, [])
      else let n = u32_of_bytes le (take 4 input); rest = drop 4 input
           in if mx < n then (Err (FrTooLarge n), rest)
              else if length rest < n then (Err FrIo, [])
              else (parse_message from_slice (take n rest), drop n rest))"

definition write_native ::
  "(json \<Rightarrow> bytes) \<Rightarrow> bool \<Rightarrow> json \<Rightarrow> (frame_error, bytes) result" where
  "write_native to_vec le v =
     (let body = to_vec v
      in if MAX_TO_BROWSER < length body then Err (FrTooLarge (length body))
         else Ok (u32_bytes le (length body) @ body))"

fun read_line_raw :: "nat \<Rightarrow> bytes \<Rightarrow> bytes list \<Rightarrow> (frame_error, bytes) result \<times> bytes list" where
  "read_line_raw mx line [] = (if line = [] then Err FrClosed else Err FrIo, [])"
| "read_line_raw mx line (chunk # rest) =
     (if chunk = [] then (if line = [] then Err FrClosed else Err FrIo, chunk # rest)
      else let (tk, found) = (case position 10 chunk of Some i \<Rightarrow> (i + 1, True)
                                                     | None \<Rightarrow> (length chunk, False))
           in if mx + 1 < length line + tk then (Err (FrTooLarge (length line + tk)), chunk # rest)
              else let line' = line @ take tk chunk
                   in if found then (Ok (butlast line'), consume tk (chunk # rest))
                      else read_line_raw mx line' rest)"

definition read_message_line ::
  "(bytes \<Rightarrow> json option) \<Rightarrow> nat \<Rightarrow> bytes list \<Rightarrow> (frame_error, json) result \<times> bytes list" where
  "read_message_line from_slice mx chunks =
     (case read_line_raw mx [] chunks of
        (Err e, rest) \<Rightarrow> (Err e, rest)
      | (Ok line, rest) \<Rightarrow>
          (case from_slice line of
             None \<Rightarrow> (Err (FrMalformed (lit ''not JSON'')), rest)
           | Some v \<Rightarrow> (case message_type v of Err e \<Rightarrow> (Err e, rest) | Ok _ \<Rightarrow> (Ok v, rest))))"

definition write_line :: "(json \<Rightarrow> bytes) \<Rightarrow> json \<Rightarrow> bytes" where
  "write_line to_vec v = to_vec v @ [10]"

section \<open>The readers on the bytes alone\<close>

fun line_of :: "nat \<Rightarrow> bytes \<Rightarrow> (read_error, bytes option) result" where
  "line_of mx data =
     (case position 10 data of
        Some i \<Rightarrow> if mx < i then Err LineTooLong else Ok (Some (strip_cr (take i data)))
      | None \<Rightarrow> if data = [] then Ok None
                else if mx + 1 < length data then Err LineTooLong else Err UnexpectedEof)"

lemma position_append:
  "position b (xs @ ys) = (case position b xs of Some i \<Rightarrow> Some i
     | None \<Rightarrow> map_option (\<lambda>i. length xs + i) (position b ys))"
  by (induction xs) (cases "position b ys"; auto split: option.splits)+

lemma position_Some: "position b xs = Some i \<Longrightarrow> i < length xs \<and> xs ! i = b \<and> b \<notin> set (take i xs)"
  by (induction xs arbitrary: i) (auto split: if_splits)

lemma position_None: "position b xs = None \<longleftrightarrow> b \<notin> set xs"
  by (induction xs) auto

lemma concat_consume: "concat (consume n (c # cs)) = drop n (concat (c # cs))" if "n \<le> length c"
  using that by (auto simp: consume_def)

lemma line_of_no_newline:
  "position 10 line = None \<Longrightarrow> position 10 data = Some i \<Longrightarrow>
   line_of mx (line @ data) =
     (if mx < length line + i then Err LineTooLong else Ok (Some (strip_cr (line @ take i data))))"
  by (simp add: position_append)

lemma read_line_spec:
  "list_all (\<lambda>c. c \<noteq> []) chunks \<Longrightarrow> position 10 line = None \<Longrightarrow> length line \<le> mx + 1 \<Longrightarrow>
   fst (read_line mx line chunks) = line_of mx (line @ concat chunks) \<and>
   (is_ok (fst (read_line mx line chunks)) \<longrightarrow>
      line @ concat chunks = [] \<or>
      concat (snd (read_line mx line chunks))
        = drop (Suc (the (position 10 (line @ concat chunks)))) (line @ concat chunks))"
proof (induction mx line chunks rule: read_line.induct)
  case (1 mx line)
  then show ?case by (auto simp: is_ok_def)
next
  case (2 mx line chunk rest)
  from 2(2) have chunk: "chunk \<noteq> []" "list_all (\<lambda>c. c \<noteq> []) rest" by simp_all
  show ?case
  proof (cases "position 10 chunk")
    case (Some i)
    then have i: "i < length chunk" using position_Some by blast
    have pos: "position 10 (line @ concat (chunk # rest)) = Some (length line + i)"
      using Some 2(3) by (simp add: position_append)
    have tk: "take (Suc i) chunk = take i chunk @ [chunk ! i]" using i by (rule take_Suc_conv_app_nth)
    have "concat (consume (Suc i) (chunk # rest)) = drop (Suc (length line + i)) (line @ concat (chunk # rest))"
      using concat_consume [of "Suc i" chunk rest] i by simp
    with Some pos chunk i tk show ?thesis
      by (auto simp: butlast_append Let_def)
  next
    case None
    let ?line = "line @ chunk"
    have "position 10 ?line = None" using None 2(3) by (simp add: position_append)
    with 2(1)[of "(length chunk, False)" "length chunk" False ?line] 2(4) None chunk
    show ?thesis
    proof (cases "mx + 1 < length line + length chunk")
      case True
      have "line_of mx (line @ concat (chunk # rest)) = Err LineTooLong"
        using True chunk \<open>position 10 ?line = None\<close>
        by (auto simp: position_append split: option.split)
      with True None chunk show ?thesis by simp
    qed (auto simp: Let_def)
  qed
qed

lemma read_request_whole:
  "list_all (\<lambda>c. c \<noteq> []) chunks \<Longrightarrow> position 10 (concat chunks) = Some i \<Longrightarrow>
   seen = length line \<or> over \<Longrightarrow> (over \<longleftrightarrow> mx + 1 < seen) \<Longrightarrow> (over \<Longrightarrow> line = []) \<Longrightarrow>
   seen + i < drain \<Longrightarrow>
   read_request mx drain line seen over chunks =
     (Ok (if mx < seen + i then TooLarge (seen + i) True
          else Request (strip_cr (line @ take i (concat chunks)))),
      snd (read_request mx drain line seen over chunks)) \<and>
   concat (snd (read_request mx drain line seen over chunks)) = drop (Suc i) (concat chunks)"
proof (induction chunks arbitrary: line seen over i)
  case (Cons chunk rest)
  from Cons.prems(1) have chunk: "chunk \<noteq> []" "list_all (\<lambda>c. c \<noteq> []) rest" by simp_all
  show ?case
  proof (cases "position 10 chunk")
    case (Some j)
    then have i: "j = i" "i < length chunk"
      using Cons.prems(2) position_Some [OF Some] by (simp_all add: position_append)
    have tk: "take (Suc i) chunk = take i chunk @ [chunk ! i]" using i(2) by (rule take_Suc_conv_app_nth)
    have "concat (consume (Suc i) (chunk # rest)) = drop (Suc i) (concat (chunk # rest))"
      using concat_consume [of "Suc i" chunk rest] i by simp
    with Some i chunk tk Cons.prems(3-5) show ?thesis
      by (auto simp: Let_def butlast_append)
  next
    case None
    then obtain j where j: "position 10 (concat rest) = Some j" "i = length chunk + j"
      using Cons.prems(2) by (auto simp: position_append)
    let ?seen = "seen + length chunk"
    let ?over = "over \<or> mx + 1 < ?seen"
    let ?line = "if \<not> ?over then line @ chunk else (if \<not> over \<and> mx + 1 < ?seen then [] else line)"
    have step: "read_request mx drain line seen over (chunk # rest) = read_request mx drain ?line ?seen ?over rest"
      using None chunk j Cons.prems(6) by (auto simp: Let_def)
    have inv: "?seen = length ?line \<or> ?over" "?over \<longleftrightarrow> mx + 1 < ?seen" "?over \<Longrightarrow> ?line = []"
      "?seen + j < drain"
      using j Cons.prems(3-6) by auto
    note IH = Cons.IH [OF chunk(2) j(1) inv]
    show ?thesis
      unfolding step using IH j(2) Cons.prems(3-5) None by (auto simp: add.assoc)
  qed
qed simp

section \<open>Lemmas on native messages\<close>

lemma u32_round_trip: "n < 2 ^ 32 \<Longrightarrow> u32_of_bytes le (u32_bytes le n) = n"
proof -
  assume n: "n < 2 ^ 32"
  define a b c where "a = n div 256" and "b = a div 256" and "c = b div 256"
  have e: "n = 256 * a + n mod 256" "a = 256 * b + a mod 256" "b = 256 * c + b mod 256"
    by (simp_all add: a_def b_def c_def)
  have d: "n div 65536 = b" "n div 16777216 = c"
    by (simp_all add: a_def b_def c_def div_mult2_eq [symmetric])
  have "c < 256" using n by (simp add: d(2) [symmetric] div_less_iff_less_mult)
  then have "n mod 256 + 256 * (a mod 256) + 65536 * (b mod 256) + 16777216 * c = n" "c mod 256 = c"
    using e by simp_all
  then show ?thesis
    by (cases le) (simp_all add: u32_of_bytes_def u32_bytes_def Let_def d a_def [symmetric])
qed

section \<open>Properties\<close>

text \<open>
  C20: what a reader of one line returns depends only on the bytes of the stream, not on
  how they arrive in chunks: the line up to the first line break without a final carriage
  return when at most \<open>max\<close> bytes precede the break, an error when more do, nothing at a
  clean end; and after a line the stream continues right behind its line break.
\<close>

theorem read_line_chunk_independent:
  assumes "list_all (\<lambda>c. c \<noteq> []) chunks"
  shows "fst (read_line mx [] chunks) = line_of mx (concat chunks) \<and>
    (case read_line mx [] chunks of
       (Ok (Some _), rest) \<Rightarrow> concat rest = drop (Suc (the (position 10 (concat chunks)))) (concat chunks)
     | _ \<Rightarrow> True)"
proof -
  have "position 10 ([]::bytes) = None" "length ([]::bytes) \<le> mx + 1" by simp_all
  note spec = read_line_spec [OF assms this]
  then have "fst (read_line mx [] chunks) = line_of mx (concat chunks)" by simp
  moreover have "concat chunks \<noteq> []" if "fst (read_line mx [] chunks) = Ok (Some x)" for x
  proof
    assume "concat chunks = []"
    with spec that show False by (simp only: append_Nil) simp
  qed
  ultimately show ?thesis
    using spec by (auto simp: is_ok_def split: prod.splits sum.splits option.splits)
qed

theorem read_line_chunk_independent_witness:
  "fst (read_line 5 [] [[104, 105], [13, 10, 120]]) = Ok (Some [104, 105])"
  using read_line_chunk_independent [of "[[104, 105], [13, 10, 120]]" 5]
  by (simp add: strip_cr_def)

text \<open>
  a request line is answered whatever its chunks: one of at most \<open>max\<close> bytes is the
  request, a longer one (shorter than the drain limit) is reported with its exact length,
  and in both cases the stream continues right behind the line.
\<close>

theorem read_request_exact:
  assumes "list_all (\<lambda>c. c \<noteq> []) chunks" and "position 10 (concat chunks) = Some i" and "i < drain"
  shows "fst (read_request mx drain [] 0 False chunks) =
      Ok (if mx < i then TooLarge i True else Request (strip_cr (take i (concat chunks)))) \<and>
    concat (snd (read_request mx drain [] 0 False chunks)) = drop (Suc i) (concat chunks)"
  using read_request_whole [OF assms(1,2), of 0 "[]" False mx drain] assms(3)
  by (metis (mono_tags) add_0 append_Nil fst_conv list.size(3) not_less_zero)

theorem read_request_exact_witness:
  "fst (read_request 3 100 [] 0 False [[1, 2], [3, 4, 5], [10, 7]]) = Ok (TooLarge 5 True)"
  using read_request_exact [of "[[1, 2], [3, 4, 5], [10, 7]]" 5 100 3] by simp



end
