(* ===== verification/Link_Requests.thy ===== *)
theory Link_Requests
  imports Json_Value
begin

text \<open>
  \<open>crates/connect-core/src/requests.rs\<close>: what the app asks a synth over the control
  stream. The state has the waiting requests by id (each waiting caller is a oneshot
  channel: the answer it gets is logged in \<open>lr_answers\<close>) and the messages handed to the
  writer (\<open>lr_sent\<close>, with the generation of the stream). Ids are natural numbers: the
  64-bit counter does not come round. Shown: over any history every request gets exactly
  one answer or is still waiting, at most sixteen wait, and an old stream that ends late
  takes nothing down.
\<close>

type_synonym answer = "(utext, json) result"

record link_requests =
  lr_next :: nat
  lr_out :: bool          \<comment> \<open>a control stream's writer takes messages\<close>
  lr_generation :: nat
  lr_supported :: bool
  lr_pending :: "nat list"
  lr_answers :: "(nat \<times> answer) list"
  lr_sent :: "(nat \<times> json) list"

definition new_requests :: link_requests where
  "new_requests = \<lparr>lr_next = 0, lr_out = False, lr_generation = 0, lr_supported = False,
     lr_pending = [], lr_answers = [], lr_sent = []\<rparr>"

definition MAX_PENDING :: nat where "MAX_PENDING = 16"

definition DROPPED :: utext where
  "DROPPED = lit ''unavailable: the link to the synth dropped''"

fun clean_error_loop :: "utext \<Rightarrow> utext \<Rightarrow> utext" where
  "clean_error_loop out [] = out"
| "clean_error_loop out (c # cs) =
     (if 300 \<le> utf8_len out then out
      else clean_error_loop (out @ [if is_control c then 32 else c]) cs)"

definition clean_error :: "utext \<Rightarrow> utext" where
  "clean_error e = trim (clean_error_loop [] e)"

definition answer_all :: "answer \<Rightarrow> link_requests \<Rightarrow> link_requests" where
  \<comment> \<open>take the waiting requests and answer each of them\<close>
  "answer_all a st = st\<lparr>lr_pending := [], lr_answers := lr_answers st @ map (\<lambda>i. (i, a)) (lr_pending st)\<rparr>"

definition attach :: "link_requests \<Rightarrow> nat \<times> link_requests" where
  "attach st =
     (let st1 = st\<lparr>lr_out := True, lr_supported := False, lr_generation := lr_generation st + 1\<rparr>
      in (lr_generation st1, answer_all (Err DROPPED) st1))"

definition sender :: "nat \<Rightarrow> link_requests \<Rightarrow> bool" where
  "sender generation st \<longleftrightarrow> lr_generation st = generation \<and> lr_out st"

definition set_supported :: "bool \<Rightarrow> link_requests \<Rightarrow> link_requests" where
  "set_supported b st = st\<lparr>lr_supported := b\<rparr>"

definition detach :: "nat \<Rightarrow> link_requests \<Rightarrow> link_requests" where
  "detach generation st =
     (if lr_generation st \<noteq> generation then st
      else answer_all (Err DROPPED) (st\<lparr>lr_out := False, lr_supported := False\<rparr>))"

definition answer_of :: "json \<Rightarrow> answer" where
  "answer_of msg =
     (case get_str (lit ''error'') msg of
        Some e \<Rightarrow>
          if e \<noteq> [] then
            (case get_str (lit ''reason'') msg of
               Some r \<Rightarrow> if trim r \<noteq> [] then Err (clean_error (e @ lit '': '' @ r)) else Err (clean_error e)
             | None \<Rightarrow> Err (clean_error e))
          else Ok (case jget (lit ''result'') msg of Some v \<Rightarrow> v | None \<Rightarrow> JNull)
      | None \<Rightarrow> Ok (case jget (lit ''result'') msg of Some v \<Rightarrow> v | None \<Rightarrow> JNull))"

definition resolve_response :: "json \<Rightarrow> link_requests \<Rightarrow> link_requests" where
  "resolve_response msg st =
     (case Option.bind (jget (lit ''id'') msg) as_u64 of
        None \<Rightarrow> st
      | Some i \<Rightarrow>
          if i \<in> set (lr_pending st) then
            st\<lparr>lr_pending := filter (\<lambda>j. j \<noteq> i) (lr_pending st),
               lr_answers := lr_answers st @ [(i, answer_of msg)]\<rparr>
          else st)"

definition request_json :: "nat \<Rightarrow> utext \<Rightarrow> json \<Rightarrow> json" where
  "request_json i m params =
     JObj [(lit ''id'', JInt (int i)), (lit ''method'', JStr m), (lit ''params'', params),
           (lit ''type'', JStr (lit ''request''))]"

text \<open>
  The start of a call: the request waits now, or it has its error at once. \<open>alive\<close>: the
  writer of the stream still takes messages.
\<close>

definition call_start :: "utext \<Rightarrow> json \<Rightarrow> bool \<Rightarrow> link_requests \<Rightarrow> link_requests" where
  "call_start m params alive st0 =
     (let i = lr_next st0 + 1;
          st = st0\<lparr>lr_next := i\<rparr>;
          fail = (\<lambda>e. st\<lparr>lr_answers := lr_answers st @ [(i, Err e)]\<rparr>)
      in if \<not> lr_out st then fail (lit ''unavailable: not linked to the synth right now'')
         else if \<not> lr_supported st then
           fail (lit ''unavailable: the synth does not answer this yet (it needs an update)'')
         else if MAX_PENDING \<le> length (lr_pending st) then
           fail (lit ''unavailable: too many requests are waiting for the synth'')
         else if \<not> alive then fail (lit ''unavailable: not linked to the synth right now'')
         else st\<lparr>lr_pending := lr_pending st @ [i],
                 lr_sent := lr_sent st @ [(lr_generation st, request_json i m params)]\<rparr>)"

text \<open>The wait of a call ends by its timeout (an answered one ended before).\<close>

definition call_timeout :: "nat \<Rightarrow> link_requests \<Rightarrow> link_requests" where
  "call_timeout i st =
     (if i \<in> set (lr_pending st) then
        st\<lparr>lr_pending := filter (\<lambda>j. j \<noteq> i) (lr_pending st),
           lr_answers := lr_answers st @ [(i, Err (lit ''unavailable: the synth did not answer in time''))]\<rparr>
      else st)"

datatype request_event =
    Attach | SetSupported bool | Detach nat | Response json | Call utext json bool | Timeout nat

fun request_step :: "request_event \<Rightarrow> link_requests \<Rightarrow> link_requests" where
  "request_step Attach st = snd (attach st)"
| "request_step (SetSupported b) st = set_supported b st"
| "request_step (Detach g) st = detach g st"
| "request_step (Response msg) st = resolve_response msg st"
| "request_step (Call m params alive) st = call_start m params alive st"
| "request_step (Timeout i) st = call_timeout i st"

definition run_requests :: "request_event list \<Rightarrow> link_requests" where
  "run_requests es = fold request_step es new_requests"

section \<open>Invariant\<close>

definition requests_ok :: "link_requests \<Rightarrow> bool" where
  "requests_ok st \<longleftrightarrow>
     distinct (lr_pending st @ map fst (lr_answers st)) \<and>
     set (lr_pending st @ map fst (lr_answers st)) = {1..lr_next st} \<and>
     length (lr_pending st) \<le> MAX_PENDING \<and>
     (lr_out st \<or> lr_pending st = [])"

lemma answer_all_ok: "requests_ok st \<Longrightarrow> requests_ok (answer_all a st)"
  by (auto simp: requests_ok_def answer_all_def o_def)

lemma answer_one_ok:
  "requests_ok st \<Longrightarrow> i \<in> set (lr_pending st) \<Longrightarrow>
   requests_ok (st\<lparr>lr_pending := filter (\<lambda>j. j \<noteq> i) (lr_pending st),
                  lr_answers := lr_answers st @ [(i, a)]\<rparr>)"
  by (auto simp: requests_ok_def intro: le_trans [OF length_filter_le])

lemma new_id_fresh:
  assumes "requests_ok st"
  shows "Suc (lr_next st) \<notin> set (lr_pending st)" "Suc (lr_next st) \<notin> fst ` set (lr_answers st)"
proof -
  have "set (lr_pending st) \<union> fst ` set (lr_answers st) = {1..lr_next st}"
    using assms by (simp add: requests_ok_def)
  moreover have "Suc (lr_next st) \<notin> {1..lr_next st}" by simp
  ultimately show "Suc (lr_next st) \<notin> set (lr_pending st)" "Suc (lr_next st) \<notin> fst ` set (lr_answers st)"
    by blast+
qed

lemma fail_ok:
  assumes "requests_ok st"
  shows "requests_ok (st\<lparr>lr_next := Suc (lr_next st), lr_answers := lr_answers st @ [(Suc (lr_next st), a)]\<rparr>)"
  using assms new_id_fresh [OF assms]
  by (simp add: requests_ok_def atLeastAtMostSuc_conv insert_commute)

lemma wait_ok:
  assumes "requests_ok st" "length (lr_pending st) < MAX_PENDING" "lr_out st"
  shows "requests_ok (st\<lparr>lr_next := Suc (lr_next st), lr_pending := lr_pending st @ [Suc (lr_next st)],
     lr_sent := sent\<rparr>)"
  using assms new_id_fresh [OF assms(1)]
  by (simp add: requests_ok_def atLeastAtMostSuc_conv insert_commute)

lemma call_start_ok: "requests_ok st \<Longrightarrow> requests_ok (call_start m params alive st)"
  by (simp add: call_start_def Let_def fail_ok wait_ok)

lemma request_step_ok: "requests_ok st \<Longrightarrow> requests_ok (request_step e st)"
proof (cases e)
  case Attach
  assume "requests_ok st"
  then have "requests_ok (answer_all (Err DROPPED) st)" by (rule answer_all_ok)
  then show ?thesis by (simp add: Attach attach_def Let_def answer_all_def requests_ok_def)
next
  case (Detach g)
  assume "requests_ok st"
  then have "requests_ok (answer_all (Err DROPPED) st)" by (rule answer_all_ok)
  with \<open>requests_ok st\<close> show ?thesis
    by (simp add: Detach detach_def answer_all_def requests_ok_def image_Un image_image)
next
  case (Response msg)
  assume "requests_ok st"
  then show ?thesis
    by (auto simp: Response resolve_response_def answer_one_ok split: option.split)
next
  case (Timeout i)
  assume "requests_ok st"
  then show ?thesis by (simp add: Timeout call_timeout_def answer_one_ok)
next
  case (Call m params alive)
  assume "requests_ok st"
  then show ?thesis by (simp add: Call call_start_ok)
qed (simp add: set_supported_def requests_ok_def)

lemma fold_requests_ok: "requests_ok st \<Longrightarrow> requests_ok (fold request_step es st)"
  by (induction es arbitrary: st) (simp_all add: request_step_ok)

lemma run_requests_ok: "requests_ok (run_requests es)"
  unfolding run_requests_def by (rule fold_requests_ok) (simp add: requests_ok_def new_requests_def)

section \<open>Properties\<close>

text \<open>
  C19: over any history of streams, answers, timeouts and calls, every request made so far
  either has exactly one answer or is waiting (never both, never none), at most sixteen
  wait, and none waits while no stream is up.
\<close>

theorem every_request_answered_once:
  "distinct (map fst (lr_answers (run_requests es))) \<and>
   set (lr_pending (run_requests es)) \<inter> fst ` set (lr_answers (run_requests es)) = {} \<and>
   set (lr_pending (run_requests es)) \<union> fst ` set (lr_answers (run_requests es))
     = {1..lr_next (run_requests es)} \<and>
   length (lr_pending (run_requests es)) \<le> 16 \<and>
   (lr_out (run_requests es) \<or> lr_pending (run_requests es) = [])"
  using run_requests_ok [of es] by (auto simp: requests_ok_def MAX_PENDING_def)

text \<open>
  the end of an old control stream, reported after a newer one attached, changes
  nothing, and the messages of a request go out on the stream that is current when it is
  made.
\<close>

theorem stale_detach_harmless:
  assumes "g < fst (attach st)"
  shows "detach g (snd (attach st)) = snd (attach st) \<and>
    (\<forall>x \<in> set (lr_sent (call_start m params alive (set_supported True (snd (attach st)))))
        - set (lr_sent st). fst x = fst (attach st))"
  using assms
  by (auto simp: attach_def Let_def detach_def answer_all_def call_start_def set_supported_def)

theorem stale_detach_harmless_witness:
  "detach 0 (snd (attach new_requests)) = snd (attach new_requests)"
proof -
  have "0 < fst (attach new_requests)" by (simp add: attach_def Let_def)
  from stale_detach_harmless [OF this] show ?thesis by blast
qed

end
