(* ===== verification/Journal.thy ===== *)
theory Journal
  imports Unicode_Text
begin

text \<open>
  \<open>crates/connect-core/src/journal.rs\<close>: the ring of the last entries and the file they
  are appended to, which is renamed when it has grown. The length of an entry as a line of
  JSON is the function \<open>j_len\<close>; \<open>j_disk\<close> says of each coming line whether the rename and
  the write it may need succeed (then: yes), and a failure is swallowed. Shown: the ring is always the last entries
  recorded, at most 500, and the file stays bounded.
\<close>

record entry =
  e_time :: int
  e_capability :: utext
  e_action :: utext
  e_target :: utext
  e_outcome :: utext
  e_bytes :: "nat option"
  e_count :: "nat option"
  e_cwd :: "utext option"
  e_exit_code :: "int option"
  e_duration_ms :: "nat option"
  e_synth :: "utext option"

definition new_entry :: "int \<Rightarrow> utext \<Rightarrow> utext \<Rightarrow> utext \<Rightarrow> utext \<Rightarrow> entry" where
  "new_entry now cap action target outcome =
     \<lparr>e_time = now, e_capability = cap, e_action = action, e_target = target, e_outcome = outcome,
      e_bytes = None, e_count = None, e_cwd = None, e_exit_code = None, e_duration_ms = None,
      e_synth = None\<rparr>"

definition with_count :: "nat \<Rightarrow> entry \<Rightarrow> entry" where
  "with_count n e = e\<lparr>e_count := Some n\<rparr>"

definition with_bytes :: "nat \<Rightarrow> entry \<Rightarrow> entry" where
  "with_bytes n e = e\<lparr>e_bytes := Some n\<rparr>"

definition ROTATE_BYTES :: nat where "ROTATE_BYTES = 2 * 1024 * 1024"
definition RING_CAP :: nat where "RING_CAP = 500"

record journal =
  j_ring :: "entry list"
  j_path :: bool             \<comment> \<open>there is a file\<close>
  j_file :: "entry list"
  j_file_bytes :: nat
  j_old :: "entry list"      \<comment> \<open>the file it was renamed to\<close>
  j_len :: "entry \<Rightarrow> nat"
  j_disk :: "(bool \<times> bool) list"

text \<open>The lines of the file as read at the start: None is one that does not parse.\<close>

definition new_journal :: "(entry \<Rightarrow> nat) \<Rightarrow> (bool \<times> bool) list \<Rightarrow> bool \<Rightarrow> entry option list option \<Rightarrow> nat \<Rightarrow> journal" where
  "new_journal len disk path found sz =
     \<lparr>j_ring = (case (path, found) of
         (True, Some ls) \<Rightarrow> List.map_filter id (drop (length ls - RING_CAP) ls)
       | _ \<Rightarrow> []),
      j_path = path,
      j_file = (case found of Some ls \<Rightarrow> List.map_filter id ls | None \<Rightarrow> []),
      j_file_bytes = sz, j_old = [], j_len = len, j_disk = disk\<rparr>"

definition append_line :: "entry \<Rightarrow> journal \<Rightarrow> journal" where
  "append_line e j0 =
     (let (rename_ok, write_ok) = (case j_disk j0 of [] \<Rightarrow> (True, True) | x # _ \<Rightarrow> x);
          j = j0\<lparr>j_disk := tl (j_disk j0)\<rparr>;
          j1 = (if ROTATE_BYTES \<le> j_file_bytes j \<and> rename_ok
                then j\<lparr>j_old := j_file j, j_file := [], j_file_bytes := 0\<rparr> else j)
      in if write_ok
         then j1\<lparr>j_file := j_file j1 @ [e], j_file_bytes := j_file_bytes j1 + j_len j1 e + 1\<rparr>
         else j1)"

definition record_entry :: "utext option \<Rightarrow> entry \<Rightarrow> journal \<Rightarrow> journal" where
  \<comment> \<open>\<open>synth\<close>: the display name of the link the work came in on\<close>
  "record_entry synth e j =
     (let e' = (if e_synth e = None then e\<lparr>e_synth := synth\<rparr> else e);
          j1 = j\<lparr>j_ring := push_capped RING_CAP e' (j_ring j)\<rparr>
      in if j_path j1 then append_line e' j1 else j1)"

text \<open>A history: each line with its link.\<close>

type_synonym journal_step = "utext option \<times> entry"

definition named :: "utext option \<Rightarrow> entry \<Rightarrow> entry" where
  "named synth e = (if e_synth e = None then e\<lparr>e_synth := synth\<rparr> else e)"

fun run_journal :: "journal_step list \<Rightarrow> journal \<Rightarrow> journal" where
  "run_journal [] j = j"
| "run_journal ((synth, e) # steps) j = run_journal steps (record_entry synth e j)"

lemma append_line_ring [simp]: "j_ring (append_line e j) = j_ring j"
  by (simp add: append_line_def Let_def split: prod.split)

lemma record_ring: "j_ring (record_entry synth e j) = push_capped RING_CAP (named synth e) (j_ring j)"
  by (simp add: record_entry_def named_def Let_def)

definition last_n :: "nat \<Rightarrow> 'a list \<Rightarrow> 'a list" where
  "last_n n xs = drop (length xs - n) xs"

lemma push_capped_last_n:
  "0 < n \<Longrightarrow> push_capped n x (last_n n xs) = last_n n (xs @ [x])"
proof (cases "length xs < n")
  case False
  assume "0 < n"
  then have "length (last_n n xs) = n" using False by (simp add: last_n_def)
  moreover have "tl (last_n n xs) = drop (Suc (length xs) - n) xs"
    using False \<open>0 < n\<close> by (simp add: last_n_def tl_drop [symmetric] drop_Suc [symmetric] Suc_diff_le)
      (simp add: drop_Suc tl_drop)
  moreover have "Suc (length xs) - n \<le> length xs" using \<open>0 < n\<close> by simp
  ultimately show ?thesis using \<open>0 < n\<close> by (simp add: push_capped_def last_n_def)
qed (simp add: push_capped_def last_n_def)

lemma run_ring:
  "j_ring j = last_n RING_CAP before \<Longrightarrow>
   j_ring (run_journal steps j) = last_n RING_CAP (before @ map (\<lambda>(synth, e). named synth e) steps)"
proof (induction steps j arbitrary: before rule: run_journal.induct)
  case (2 synth e steps j)
  have "j_ring (record_entry synth e j) = last_n RING_CAP (before @ [named synth e])"
    using 2(2) push_capped_last_n [of RING_CAP "named synth e" before] by (simp add: record_ring RING_CAP_def)
  from 2(1) [OF this] show ?case by simp
qed simp

section \<open>Properties\<close>

text \<open>
  the activity list is exactly the last entries recorded, oldest first and at most
  500 of them, each with the synth it was done for when its line did not name one, whether
  or not the file could be written.
\<close>

theorem ring_is_last_entries:
  assumes "j_ring j = []"
  shows "j_ring (run_journal steps j)
      = last_n 500 (map (\<lambda>(synth, e). if e_synth e = None then e\<lparr>e_synth := synth\<rparr> else e) steps) \<and>
    length (j_ring (run_journal steps j)) \<le> 500"
proof -
  have "j_ring j = last_n RING_CAP []" using assms by (simp add: last_n_def)
  from run_ring [OF this, of steps] show ?thesis
    by (simp add: RING_CAP_def last_n_def named_def)
qed

theorem ring_is_last_entries_witness:
  "length (j_ring (run_journal
     [(Some (lit ''mia''), new_entry 1 (lit ''net'') (lit ''dial'') (lit ''x'') (lit ''ok''))]
     (new_journal (\<lambda>_. 10) [] False None 0))) = 1"
proof -
  have "j_ring (new_journal (\<lambda>_. 10) [] False None 0) = []" by (simp add: new_journal_def)
  from ring_is_last_entries [OF this, of
      "[(Some (lit ''mia''), new_entry 1 (lit ''net'') (lit ''dial'') (lit ''x'') (lit ''ok''))]"]
  show ?thesis by (simp add: last_n_def)
qed

text \<open>While renames succeed, the file is never longer than the limit and one line.\<close>

lemma journal_file_bounded:
  "j_len j e < m \<Longrightarrow> j_file_bytes j \<le> ROTATE_BYTES + m \<Longrightarrow> list_all fst (j_disk j) \<Longrightarrow>
   j_file_bytes (append_line e j) \<le> ROTATE_BYTES + m"
  by (cases "j_disk j") (auto simp: append_line_def Let_def)

end
