(* ===== verification/Pairing.thy ===== *)
theory Pairing
  imports Settings_Model
begin

text \<open>
  \<open>crates/connect-core/src/pairing.rs\<close>: codes, \<open>snth://\<close> links and the pairing that is
  claimed but not confirmed. The hub is the parameter \<open>claim\<close>. Shown: whatever a web page
  puts into a link, the app takes six digits or url-safe login fields from it and nothing
  else, and the link of a code gives that code.
\<close>

record pending =
  pn_synth_id :: utext
  pn_synth_url :: utext
  pn_token :: utext
  pn_synth_name :: utext
  pn_source :: link_source
  pn_hub_id :: utext
  pn_linked_to_account :: "bool option"
  pn_reason :: "utext option"

record claim_result =
  cl_synth_url :: utext
  cl_synth_id :: utext
  cl_companion_token :: utext

datatype claim_error = BadCode | NotFound | Expired | OtherError utext

definition normalize_code :: "utext \<Rightarrow> utext option" where
  "normalize_code raw =
     (let ds = filter is_ascii_digit raw in if length ds = 6 then Some ds else None)"

datatype deep_link = Pair utext | Login "(utext, utext) result" utext

definition MAX_LOGIN_FIELD :: nat where "MAX_LOGIN_FIELD = 256"

definition split_once :: "nat \<Rightarrow> utext \<Rightarrow> (utext \<times> utext) option" where
  "split_once d s =
     (if d \<in> set s then Some (takeWhile (\<lambda>c. c \<noteq> d) s, tl (dropWhile (\<lambda>c. c \<noteq> d) s)) else None)"

fun find_value :: "utext \<Rightarrow> utext list \<Rightarrow> utext option" where
  "find_value key [] = None"
| "find_value key (p # ps) =
     (case split_once 61 p of
        Some (k, v) \<Rightarrow> if k = key then Some v else find_value key ps
      | None \<Rightarrow> find_value key ps)"

definition query_value :: "utext \<Rightarrow> utext \<Rightarrow> utext option" where
  "query_value query key = find_value key (split_char 38 query)"

definition login_char :: "uchar \<Rightarrow> bool" where
  "login_char c \<longleftrightarrow> is_ascii_alphanumeric c \<or> c = 45 \<or> c = 95 \<or> c = 46"

definition login_field :: "utext \<Rightarrow> utext option" where
  "login_field v =
     (if v \<noteq> [] \<and> utf8_len v \<le> MAX_LOGIN_FIELD \<and> list_all login_char v then Some v else None)"

definition parse_deep_link :: "utext \<Rightarrow> deep_link option" where
  "parse_deep_link url =
     (case strip_prefix (lit ''snth://'') url of
        None \<Rightarrow> None
      | Some rest \<Rightarrow>
          (case split_once 63 rest of
             None \<Rightarrow> None
           | Some (head, query) \<Rightarrow>
               (let action = hd (split_char 47 head)
                in if action = lit ''pair'' then
                     map_option Pair (Option.bind (query_value query (lit ''code'')) normalize_code)
                   else if action = lit ''login'' then
                     (case Option.bind (query_value query (lit ''state'')) login_field of
                        None \<Rightarrow> None
                      | Some st \<Rightarrow>
                          (case (query_value query (lit ''code''), query_value query (lit ''error'')) of
                             (Some c, _) \<Rightarrow> map_option (\<lambda>c'. Login (Ok c') st) (login_field c)
                           | (None, Some e) \<Rightarrow>
                               Some (Login (Err (case login_field e of Some e' \<Rightarrow> e' | None \<Rightarrow> lit ''error'')) st)
                           | (None, None) \<Rightarrow> None))
                   else None)))"

definition parse_pair_link :: "utext \<Rightarrow> utext option" where
  "parse_pair_link url = (case parse_deep_link url of Some (Pair c) \<Rightarrow> Some c | _ \<Rightarrow> None)"

definition trim_end_slash :: "utext \<Rightarrow> utext" where
  "trim_end_slash s = rev (dropWhile (\<lambda>c. c = 47) (rev s))"

definition ws_url_of :: "utext \<Rightarrow> utext" where
  "ws_url_of url =
     (let base = trim_end_slash url;
          ws = (case strip_prefix (lit ''https://'') base of
                  Some rest \<Rightarrow> lit ''wss://'' @ rest
                | None \<Rightarrow> (case strip_prefix (lit ''http://'') base of
                    Some rest \<Rightarrow> lit ''ws://'' @ rest
                  | None \<Rightarrow> base))
      in ws @ lit ''/api/connect/ws'')"

definition from_claim :: "claim_result \<Rightarrow> pending" where
  "from_claim c =
     \<lparr>pn_synth_id = cl_synth_id c, pn_synth_url = cl_synth_url c, pn_token = cl_companion_token c,
      pn_synth_name = [], pn_source = SrcCode, pn_hub_id = [], pn_linked_to_account = None,
      pn_reason = None\<rparr>"

section \<open>Lemmas\<close>

lemma normalize_code_digits:
  "normalize_code s = Some c \<Longrightarrow> length c = 6 \<and> list_all is_ascii_digit c"
  by (auto simp: normalize_code_def Let_def list_all_iff split: if_splits)

lemma login_field_ok:
  "login_field s = Some v \<Longrightarrow> v \<noteq> [] \<and> length v \<le> 256 \<and> list_all login_char v"
  using length_le_utf8_len [of v] by (auto simp: login_field_def MAX_LOGIN_FIELD_def split: if_splits)

section \<open>Properties\<close>

text \<open>
  a link any web page can open gives the app nothing but a code of exactly six
  digits, or a login state and code (or error) of 1 to 256 url-safe characters; and the
  link made of a six-digit code is read as that code.
\<close>

theorem deep_link_fields_safe:
  "(case parse_deep_link url of
      Some (Pair c) \<Rightarrow> length c = 6 \<and> list_all is_ascii_digit c
    | Some (Login r st) \<Rightarrow> st \<noteq> [] \<and> length st \<le> 256 \<and> list_all login_char st \<and>
        (case r of Ok c \<Rightarrow> c \<noteq> [] \<and> length c \<le> 256 \<and> list_all login_char c
         | Err e \<Rightarrow> e \<noteq> [] \<and> length e \<le> 256 \<and> list_all login_char e)
    | None \<Rightarrow> True)"
proof -
  have "list_all login_char (lit ''error'')" by (simp add: login_char_def is_ascii_alphanumeric_def lit_def)
  then show ?thesis
    by (auto simp: parse_deep_link_def Let_def bind_eq_Some_conv
        split: option.splits if_splits prod.splits dest!: normalize_code_digits login_field_ok)
qed

lemma pair_link_read:
  assumes "length c = 6" "list_all is_ascii_digit c"
  shows "parse_pair_link (lit ''snth://pair?code='' @ c) = Some c"
proof -
  have "filter is_ascii_digit c = c" using assms by (simp add: filter_id_conv list_all_iff)
  moreover have "38 \<notin> set c" using assms(2) by (auto simp: list_all_iff is_ascii_digit_def)
  then have "split_char 38 c = [c]" by (induction c) auto
  ultimately show ?thesis
    using assms by (simp add: parse_pair_link_def parse_deep_link_def lit_def strip_prefix_def
        starts_with_def split_once_def query_value_def normalize_code_def Let_def)
qed

end
