(* ===== verification/Computer_Apps.thy ===== *)
theory Computer_Apps
  imports Settings_Model "HOL-Library.List_Lexorder"
begin

text \<open>
  \<open>crates/connect-core/src/cua_apps.rs\<close>: which apps a synth may use through computer
  control. The owner's choice is a \<open>scope\<close>; every tool call is placed (\<open>TOOLS\<close>), its
  targets are read (\<open>target_of\<close>) and resolved to apps through the \<open>directory\<close>, the app's
  own short-lived reading of the driver's two lists, and \<open>decide\<close> passes, answers or
  refuses it. The driver is a parameter: \<open>dv_apps n\<close> and \<open>dv_windows n\<close> are its answers
  to the n-th reading. \<open>lower\<close> is the Unicode \<open>to_lowercase\<close>, \<open>dbg\<close> the \<open>Debug\<close> form of a
  string, \<open>foldp\<close> whether paths of this system ignore case. The clock is read once per
  decision. Shown: while the owner limits the apps, no call passes that names a process
  or a window of an app outside the choice.
\<close>

section \<open>Apps and the owner's choice\<close>

record app_row =
  row_pid :: int
  row_name :: utext
  row_bundle :: "utext option"
  row_path :: "utext option"
  row_running :: bool

definition row_key :: "app_row \<Rightarrow> utext option" where
  "row_key r = (case row_bundle r of
      Some b \<Rightarrow> if b \<noteq> [] then Some b
                else (case row_path r of Some p \<Rightarrow> if p \<noteq> [] then Some p else None | None \<Rightarrow> None)
    | None \<Rightarrow> (case row_path r of Some p \<Rightarrow> if p \<noteq> [] then Some p else None | None \<Rightarrow> None))"

definition same_path :: "bool \<Rightarrow> utext \<Rightarrow> utext \<Rightarrow> bool" where
  "same_path foldp a b \<longleftrightarrow> (if foldp then eq_ignore_ascii_case a b else a = b)"

definition app_fields :: "app_row \<Rightarrow> utext list" where
  "app_fields r = row_name r #
     (case row_bundle r of Some b \<Rightarrow> [b] | None \<Rightarrow> []) @
     (case row_path r of Some p \<Rightarrow> [p] | None \<Rightarrow> [])"

definition app_matches :: "(utext \<Rightarrow> utext) \<Rightarrow> bool \<Rightarrow> app_ref \<Rightarrow> app_row \<Rightarrow> bool" where
  "app_matches lower foldp pick r \<longleftrightarrow>
     (if ar_loose pick then
        (let word = lower (ar_id pick)
         in word \<noteq> [] \<and> list_ex (\<lambda>f. contains_str word (lower f)) (app_fields r))
      else
        (case row_bundle r of Some b \<Rightarrow> eq_ignore_ascii_case b (ar_id pick) | None \<Rightarrow> False) \<or>
        (case row_path r of Some p \<Rightarrow> same_path foldp p (ar_id pick) | None \<Rightarrow> False))"

record scope =
  sp_policy :: apps_policy
  sp_apps :: "app_ref list"
  sp_write_roots :: "utext list"

definition open_scope :: scope where
  "open_scope = \<lparr>sp_policy = PolAll, sp_apps = [], sp_write_roots = []\<rparr>"

definition scope_of_settings :: "settings \<Rightarrow> scope" where
  "scope_of_settings s =
     (let sc = c_apps (st_computer s); f = st_files s
      in \<lparr>sp_policy = sc_policy sc, sp_apps = active_apps sc,
          sp_write_roots =
            (if sc_policy sc = PolOnly \<and> f_enabled f \<and> \<not> f_ask_on_write f
             then map r_path (filter r_write (f_roots f)) else [])\<rparr>)"

definition restricted :: "scope \<Rightarrow> bool" where
  "restricted s \<longleftrightarrow> sp_policy s \<noteq> PolAll"

definition scope_allows :: "(utext \<Rightarrow> utext) \<Rightarrow> bool \<Rightarrow> scope \<Rightarrow> app_row \<Rightarrow> bool" where
  "scope_allows lower foldp s r =
     (let listed = list_ex (\<lambda>p. app_matches lower foldp p r) (sp_apps s)
      in case sp_policy s of PolAll \<Rightarrow> True | PolExcept \<Rightarrow> \<not> listed | PolOnly \<Rightarrow> listed)"

section \<open>The tools\<close>

datatype tool_kind = TFree | TListApps | TListWindows | TScreen | TLaunch | TWindow | TPointer
  | TBrowser | TClipboard

definition MANIFEST_TOOLS :: "utext list" where
  "MANIFEST_TOOLS = [lit ''start_session'',
    lit ''end_session'',
    lit ''get_session'',
    lit ''list_sessions'',
    lit ''get_session_state'',
    lit ''list_windows'',
    lit ''get_window_state'',
    lit ''verify_state'',
    lit ''zoom'',
    lit ''parse_visual_regions'',
    lit ''get_screen_size'',
    lit ''get_cursor_position'',
    lit ''get_agent_cursor_state'',
    lit ''move_cursor'',
    lit ''click'',
    lit ''double_click'',
    lit ''right_click'',
    lit ''drag'',
    lit ''scroll'',
    lit ''type_text'',
    lit ''press_key'',
    lit ''hotkey'',
    lit ''set_value'',
    lit ''invoke_menu'',
    lit ''launch_app'',
    lit ''kill_app'',
    lit ''bring_to_front'',
    lit ''set_window_frame'',
    lit ''page'',
    lit ''check_permissions'',
    lit ''health_report'',
    lit ''get_config'',
    lit ''get_recording_state'',
    lit ''stop_recording'']"

definition TOOLS :: "(utext \<times> tool_kind) list" where
  "TOOLS = [(lit ''list_apps'', TListApps),
    (lit ''list_windows'', TListWindows),
    (lit ''get_desktop_state'', TScreen),
    (lit ''get_accessibility_tree'', TScreen),
    (lit ''escalate_session'', TScreen),
    (lit ''launch_app'', TLaunch),
    (lit ''get_window_state'', TWindow),
    (lit ''verify_state'', TWindow),
    (lit ''zoom'', TWindow),
    (lit ''debug_window_info'', TWindow),
    (lit ''click'', TWindow),
    (lit ''double_click'', TWindow),
    (lit ''right_click'', TWindow),
    (lit ''drag'', TWindow),
    (lit ''scroll'', TWindow),
    (lit ''type_text'', TWindow),
    (lit ''type_text_chars'', TWindow),
    (lit ''press_key'', TWindow),
    (lit ''hotkey'', TWindow),
    (lit ''set_value'', TWindow),
    (lit ''mouse_button_down'', TWindow),
    (lit ''mouse_button_up'', TWindow),
    (lit ''mouse_drag'', TWindow),
    (lit ''parallel_mouse_drag'', TWindow),
    (lit ''invoke_menu'', TWindow),
    (lit ''bring_to_front'', TWindow),
    (lit ''set_window_frame'', TWindow),
    (lit ''kill_app'', TWindow),
    (lit ''page'', TWindow),
    (lit ''move_cursor'', TPointer),
    (lit ''get_browser_state'', TBrowser),
    (lit ''browser_prepare'', TBrowser),
    (lit ''browser_navigate'', TBrowser),
    (lit ''browser_click'', TBrowser),
    (lit ''browser_type'', TBrowser),
    (lit ''browser_dialog'', TBrowser),
    (lit ''browser_set_input_files'', TBrowser),
    (lit ''browser_download'', TBrowser),
    (lit ''browser_pointer'', TBrowser),
    (lit ''clipboard_read'', TClipboard),
    (lit ''clipboard_write'', TClipboard),
    (lit ''get_screen_size'', TFree),
    (lit ''get_cursor_position'', TFree),
    (lit ''get_agent_cursor_state'', TFree),
    (lit ''set_agent_cursor_enabled'', TFree),
    (lit ''set_agent_cursor_motion'', TFree),
    (lit ''set_agent_cursor_theme'', TFree),
    (lit ''check_permissions'', TFree),
    (lit ''health_report'', TFree),
    (lit ''get_config'', TFree),
    (lit ''set_config'', TFree),
    (lit ''start_session'', TFree),
    (lit ''end_session'', TFree),
    (lit ''get_session'', TFree),
    (lit ''list_sessions'', TFree),
    (lit ''get_session_state'', TFree),
    (lit ''start_recording'', TFree),
    (lit ''stop_recording'', TFree),
    (lit ''get_recording_state'', TFree),
    (lit ''replay_trajectory'', TFree),
    (lit ''install_ffmpeg'', TFree),
    (lit ''install_extension'', TFree),
    (lit ''check_for_update'', TFree),
    (lit ''parse_visual_regions'', TFree),
    (lit ''history_status'', TFree),
    (lit ''history_query'', TFree),
    (lit ''probe'', TFree)]"

definition LOOK_ONLY_TOOLS :: "utext list" where
  "LOOK_ONLY_TOOLS = [lit ''list_apps'',
    lit ''list_windows'',
    lit ''get_desktop_state'',
    lit ''get_accessibility_tree'',
    lit ''get_window_state'',
    lit ''verify_state'',
    lit ''zoom'',
    lit ''debug_window_info'',
    lit ''get_browser_state'',
    lit ''get_screen_size'',
    lit ''get_cursor_position'',
    lit ''get_agent_cursor_state'',
    lit ''clipboard_read'',
    lit ''check_permissions'',
    lit ''health_report'',
    lit ''get_config'',
    lit ''start_session'',
    lit ''end_session'',
    lit ''get_session'',
    lit ''list_sessions'',
    lit ''get_session_state'',
    lit ''escalate_session'',
    lit ''get_recording_state'',
    lit ''parse_visual_regions'',
    lit ''history_status'',
    lit ''history_query'',
    lit ''probe'']"

definition is_action :: "utext \<Rightarrow> bool" where
  "is_action tool \<longleftrightarrow> tool \<notin> set LOOK_ONLY_TOOLS"

definition kind_of :: "utext \<Rightarrow> tool_kind option" where
  "kind_of tool = map_of TOOLS tool"

definition unplaced :: "json list \<Rightarrow> utext list" where
  "unplaced tools = filter (\<lambda>n. kind_of n = None) (List.map_filter (get_str (lit ''name'')) tools)"

section \<open>Verdicts\<close>

datatype refusal_class = OwnerPolicy | BadArgument

record refusal_kind =
  rk_class :: refusal_class
  rk_code :: utext

definition owner_policy :: "utext \<Rightarrow> refusal_kind" where
  "owner_policy code = \<lparr>rk_class = OwnerPolicy, rk_code = code\<rparr>"

definition bad_argument :: "utext \<Rightarrow> refusal_kind" where
  "bad_argument code = \<lparr>rk_class = BadArgument, rk_code = code\<rparr>"

fun class_str :: "refusal_class \<Rightarrow> utext" where
  "class_str OwnerPolicy = lit ''owner_policy''"
| "class_str BadArgument = lit ''bad_argument''"

definition kind_data :: "refusal_kind \<Rightarrow> json" where
  "kind_data k = JObj [(lit ''class'', JStr (class_str (rk_class k))), (lit ''code'', JStr (rk_code k))]"

datatype verdict = Pass | Answer json | Refuse (tell: utext) (jot: utext) (why_kind: refusal_kind)

definition apps_where :: utext where
  "apps_where = lit ''in SNTH Connect under Computer control''"

definition not_allowed :: "scope \<Rightarrow> verdict" where
  "not_allowed s = (case sp_policy s of
      PolOnly \<Rightarrow> Refuse
        (lit ''denied: the owner of this computer lets you use only the apps they chose '' @ apps_where @ lit '', and this one is not among them; list_apps shows the ones you may use; if the task needs another app, tell the owner they can add it there'')
        (lit ''denied: not one of the apps the owner chose'') (owner_policy (lit ''app_not_chosen''))
    | _ \<Rightarrow> Refuse
        (lit ''denied: the owner of this computer does not let you use this app through SNTH Connect; leave it alone, and if the task needs it tell the owner they can change that '' @ apps_where)
        (lit ''denied: an app the owner excluded'') (owner_policy (lit ''app_excluded'')))"

definition whole_screen :: verdict where
  "whole_screen = Refuse
     (lit ''denied: while the owner limits which apps you may use, you work window by window: there is no picture of the whole screen and no action by screen position, because they would reach every app; use list_windows, then get_window_state and the window actions with pid and window_id; if the task cannot be done that way, tell the owner they can change the app setting '' @ apps_where)
     (lit ''denied: the whole screen, while apps are limited'')
     (bad_argument (lit ''whole_screen_while_limited''))"

definition no_window :: verdict where
  "no_window = Refuse
     (lit ''denied: this call does not say which window it is for; while the owner limits which apps you may use, pass pid and window_id (from list_windows) on every call, also next to an element_token; the owner's setting is '' @ apps_where)
     (lit ''denied: no window named, while apps are limited'') (bad_argument (lit ''window_not_named''))"

definition unknown_owner :: verdict where
  "unknown_owner = Refuse
     (lit ''denied: SNTH Connect could not tell which app this window or process belongs to, so it is not allowed while the owner limits which apps you may use; take pid and window_id from a fresh list_windows, and tell the owner if the window you need is not there (the setting is '' @ apps_where @ lit '')'')
     (lit ''denied: a window of no known app, while apps are limited'') (bad_argument (lit ''window_app_unknown''))"

definition unavailable :: "utext \<Rightarrow> verdict" where
  "unavailable why = Refuse
     (lit ''unavailable: SNTH Connect could not read the list of apps on this computer ('' @ why @ lit ''), and without it no app may be used while the owner limits them; try again in a moment, and tell the owner if it keeps failing'')
     (lit ''failed: the list of apps could not be read'') (owner_policy (lit ''apps_list_unreadable''))"

definition tool_unplaced :: "(utext \<Rightarrow> utext) \<Rightarrow> utext \<Rightarrow> verdict" where
  "tool_unplaced dbg tool = Refuse
     (lit ''denied: SNTH Connect does not know the tool '' @ dbg tool @ lit '' well enough to tell which app it touches, so it is not available while the owner limits which apps you may use; tell the owner, the setting is '' @ apps_where)
     (lit ''denied: a tool the app cannot place, while apps are limited'') (owner_policy (lit ''tool_unplaced''))"

definition clipboard_not_chosen :: verdict where
  "clipboard_not_chosen = Refuse
     (lit ''denied: the clipboard is not one of the apps the owner chose for computer control; if the owner switched the clipboard on for you, device_apps has it; otherwise tell the owner (the app setting is '' @ apps_where @ lit '')'')
     (lit ''denied: the clipboard, while only chosen apps are allowed'') (owner_policy (lit ''clipboard_not_chosen''))"

definition page_tools_limited :: verdict where
  "page_tools_limited = Refuse
     (lit ''denied: the helper's page tools (get_browser_state, browser_*) do not work while the owner limits you to chosen apps; if the browser is one of them, work in its window with get_window_state and the window actions; otherwise tell the owner they can change the app setting '' @ apps_where)
     (lit ''denied: the page tools, while only chosen apps are allowed'') (owner_policy (lit ''page_tools_while_limited''))"

definition browser_unnamed :: verdict where
  "browser_unnamed = Refuse
     (lit ''denied: the helper would start Chrome or Edge for this, and SNTH Connect cannot tell which, while the owner excludes one of them; name the browser window you mean with pid and window_id, or tell the owner (the setting is '' @ apps_where @ lit '')'')
     (lit ''denied: starting a browser, while one is excluded'') (bad_argument (lit ''browser_unnamed''))"

definition app_unplaced :: verdict where
  "app_unplaced = Refuse
     (lit ''denied: SNTH Connect does not find this app in the helper's list of apps, so it cannot tell whether you may start it while the owner limits which apps you may use; take bundle_id or the path from list_apps, and tell the owner if the app you need is not there (the setting is '' @ apps_where @ lit '')'')
     (lit ''denied: starting an app the app cannot place'') (bad_argument (lit ''app_unplaced''))"

section \<open>What a call names\<close>

record target =
  tg_pids :: "int list"
  tg_windows :: "nat list"
  tg_desktop :: bool

definition no_target :: target where
  "no_target = \<lparr>tg_pids = [], tg_windows = [], tg_desktop = False\<rparr>"

definition arguments :: "json \<Rightarrow> json option" where
  "arguments msg = Option.bind (jget (lit ''params'') msg) (\<lambda>p.
     Option.bind (jget (lit ''arguments'') p) (\<lambda>a. if is_JObj a then Some a else None))"

definition push_new :: "'a \<Rightarrow> 'a list \<Rightarrow> 'a list" where
  "push_new x xs = (if x \<in> set xs then xs else xs @ [x])"

definition take_target :: "json \<Rightarrow> target \<Rightarrow> target" where
  "take_target holder t =
     (let t1 = (case Option.bind (jget (lit ''pid'') holder) as_i64 of
                  Some p \<Rightarrow> t\<lparr>tg_pids := push_new p (tg_pids t)\<rparr> | None \<Rightarrow> t)
      in case Option.bind (jget (lit ''window_id'') holder) as_u64 of
           Some w \<Rightarrow> t1\<lparr>tg_windows := push_new w (tg_windows t1)\<rparr> | None \<Rightarrow> t1)"

definition target_of :: "json option \<Rightarrow> target" where
  "target_of args = (case args of None \<Rightarrow> no_target
    | Some a \<Rightarrow>
        (let t1 = take_target a no_target;
             t2 = (case jget (lit ''target'') a of
                     Some tg \<Rightarrow>
                       if is_JObj tg then
                         (let t' = take_target tg t1
                          in if get_str (lit ''kind'') tg = Some (lit ''desktop'')
                             then t'\<lparr>tg_desktop := True\<rparr> else t')
                       else t1
                   | None \<Rightarrow> t1)
         in if get_str (lit ''scope'') a = Some (lit ''desktop'') then t2\<lparr>tg_desktop := True\<rparr> else t2))"

section \<open>The directory\<close>

record driver =
  dv_apps :: "nat \<Rightarrow> (utext, json) result"
  dv_windows :: "nat \<Rightarrow> (utext, json) result"

record directory =
  d_apps :: "app_row list"
  d_apps_at :: "instant option"
  d_windows :: json
  d_owners :: "nat \<rightharpoonup> int"
  d_windows_at :: "instant option"
  d_apps_reads :: nat
  d_windows_reads :: nat

definition new_directory :: directory where
  "new_directory = \<lparr>d_apps = [], d_apps_at = None, d_windows = JNull, d_owners = Map.empty,
     d_windows_at = None, d_apps_reads = 0, d_windows_reads = 0\<rparr>"

definition APPS_TTL :: instant where "APPS_TTL = seconds 60"
definition WINDOWS_TTL :: instant where "WINDOWS_TTL = seconds 5"
definition REFRESH_GAP :: instant where "REFRESH_GAP = seconds 2"

definition row_text :: "json \<Rightarrow> utext \<Rightarrow> utext option" where
  "row_text app key = (case get_str key app of
      Some s \<Rightarrow> if trim s \<noteq> [] then Some (trim s) else None | None \<Rightarrow> None)"

definition parse_app :: "json \<Rightarrow> app_row" where
  "parse_app app =
     (let pid = (case Option.bind (jget (lit ''pid'') app) as_i64 of Some p \<Rightarrow> p | None \<Rightarrow> 0)
      in \<lparr>row_pid = pid,
          row_name = (case row_text app (lit ''name'') of Some n \<Rightarrow> n | None \<Rightarrow> []),
          row_bundle = row_text app (lit ''bundle_id''),
          row_path = row_text app (lit ''launch_path''),
          row_running = (case get_bool (lit ''running'') app of Some b \<Rightarrow> b | None \<Rightarrow> 0 < pid) \<and> 0 < pid\<rparr>)"

definition parse_apps :: "json \<Rightarrow> app_row list" where
  "parse_apps listed = (case Option.bind (jget (lit ''apps'') listed) as_arr of
      Some rows \<Rightarrow> map parse_app rows | None \<Rightarrow> [])"

definition window_pair :: "json \<Rightarrow> (nat \<times> int) option" where
  "window_pair w = (case Option.bind (jget (lit ''window_id'') w) as_u64 of None \<Rightarrow> None
    | Some i \<Rightarrow> map_option (\<lambda>p. (i, p)) (Option.bind (jget (lit ''pid'') w) as_i64))"

definition owners_of :: "json \<Rightarrow> (nat \<rightharpoonup> int)" where
  \<comment> \<open>a later row of the same window wins\<close>
  "owners_of listed = (case Option.bind (jget (lit ''windows'') listed) as_arr of
      Some ws \<Rightarrow> map_of (rev (List.map_filter window_pair ws)) | None \<Rightarrow> Map.empty)"

definition set_windows :: "json \<Rightarrow> directory \<Rightarrow> directory" where
  "set_windows listed d = d\<lparr>d_owners := owners_of listed, d_windows := listed\<rparr>"

definition read_apps :: "driver \<Rightarrow> instant \<Rightarrow> directory \<Rightarrow> (utext, unit) result \<times> directory" where
  "read_apps dv now d =
     (let d1 = d\<lparr>d_apps_reads := d_apps_reads d + 1\<rparr>
      in case dv_apps dv (d_apps_reads d) of
           Err e \<Rightarrow> (Err e, d1)
         | Ok listed \<Rightarrow> (Ok (), d1\<lparr>d_apps := parse_apps listed, d_apps_at := Some now\<rparr>))"

definition read_windows :: "driver \<Rightarrow> instant \<Rightarrow> directory \<Rightarrow> (utext, unit) result \<times> directory" where
  "read_windows dv now d =
     (let d1 = d\<lparr>d_windows_reads := d_windows_reads d + 1\<rparr>
      in case dv_windows dv (d_windows_reads d) of
           Err e \<Rightarrow> (Err e, d1)
         | Ok listed \<Rightarrow> (Ok (), (set_windows listed d1)\<lparr>d_windows_at := Some now\<rparr>))"

definition recent :: "instant \<Rightarrow> instant \<Rightarrow> instant option \<Rightarrow> bool" where
  "recent now ttl since = (case since of None \<Rightarrow> False | Some t \<Rightarrow> elapsed now t < ttl)"

definition dir_apps :: "driver \<Rightarrow> instant \<Rightarrow> directory \<Rightarrow> (utext, app_row list) result \<times> directory" where
  "dir_apps dv now d =
     (if recent now APPS_TTL (d_apps_at d) then (Ok (d_apps d), d)
      else case read_apps dv now d of
          (Err e, d1) \<Rightarrow> (Err e, d1)
        | (Ok _, d1) \<Rightarrow> (Ok (d_apps d1), d1))"

definition dir_apps_fresh :: "driver \<Rightarrow> instant \<Rightarrow> directory \<Rightarrow> (utext, app_row list) result \<times> directory" where
  "dir_apps_fresh dv now d =
     (case read_apps dv now d of
        (Err e, d1) \<Rightarrow> (Err e, d1)
      | (Ok _, d1) \<Rightarrow> (Ok (d_apps d1), d1))"

definition find_pid :: "int \<Rightarrow> directory \<Rightarrow> app_row option" where
  "find_pid pid d = find (\<lambda>r. row_running r \<and> row_pid r = pid) (d_apps d)"

definition app_of_pid :: "driver \<Rightarrow> instant \<Rightarrow> int \<Rightarrow> directory \<Rightarrow> (utext, app_row option) result \<times> directory" where
  "app_of_pid dv now pid d =
     (let reread = (case read_apps dv now d of
                      (Err e, d1) \<Rightarrow> (Err e, d1)
                    | (Ok _, d1) \<Rightarrow> (Ok (find_pid pid d1), d1))
      in if recent now APPS_TTL (d_apps_at d) then
           (case find_pid pid d of
              Some r \<Rightarrow> (Ok (Some r), d)
            | None \<Rightarrow> if recent now REFRESH_GAP (d_apps_at d) then (Ok None, d) else reread)
         else reread)"

definition window_owner :: "driver \<Rightarrow> instant \<Rightarrow> nat \<Rightarrow> directory \<Rightarrow> (utext, int option) result \<times> directory" where
  "window_owner dv now w d =
     (let reread = (case read_windows dv now d of
                      (Err e, d1) \<Rightarrow> (Err e, d1)
                    | (Ok _, d1) \<Rightarrow> (Ok (d_owners d1 w), d1))
      in if recent now WINDOWS_TTL (d_windows_at d) then
           (case d_owners d w of
              Some p \<Rightarrow> (Ok (Some p), d)
            | None \<Rightarrow> if recent now REFRESH_GAP (d_windows_at d) then (Ok None, d) else reread)
         else reread)"

definition windows_listing :: "driver \<Rightarrow> instant \<Rightarrow> directory \<Rightarrow> (utext, json) result \<times> directory" where
  "windows_listing dv now d =
     (case read_windows dv now d of
        (Err e, d1) \<Rightarrow> (Err e, d1)
      | (Ok _, d1) \<Rightarrow> (Ok (d_windows d1), d1))"

definition dir_stop :: "directory \<Rightarrow> directory" where
  "dir_stop d = d\<lparr>d_apps_at := None, d_windows_at := None\<rparr>"

section \<open>The decision\<close>

fun window_pids :: "driver \<Rightarrow> instant \<Rightarrow> nat list \<Rightarrow> int list \<Rightarrow> directory \<Rightarrow> (verdict, int list) result \<times> directory" where
  "window_pids dv now [] pids d = (Ok pids, d)"
| "window_pids dv now (w # ws) pids d =
     (case window_owner dv now w d of
        (Ok (Some p), d1) \<Rightarrow> window_pids dv now ws (push_new p pids) d1
      | (Ok None, d1) \<Rightarrow> (Err unknown_owner, d1)
      | (Err why, d1) \<Rightarrow> (Err (unavailable why), d1))"

fun pids_allowed :: "(utext \<Rightarrow> utext) \<Rightarrow> bool \<Rightarrow> driver \<Rightarrow> instant \<Rightarrow> scope \<Rightarrow> int list \<Rightarrow> directory
    \<Rightarrow> (verdict, unit) result \<times> directory" where
  "pids_allowed lower foldp dv now s [] d = (Ok (), d)"
| "pids_allowed lower foldp dv now s (p # ps) d =
     (case app_of_pid dv now p d of
        (Ok (Some r), d1) \<Rightarrow> if scope_allows lower foldp s r then pids_allowed lower foldp dv now s ps d1
                             else (Err (not_allowed s), d1)
      | (Ok None, d1) \<Rightarrow> (Err unknown_owner, d1)
      | (Err why, d1) \<Rightarrow> (Err (unavailable why), d1))"

definition check_targets :: "(utext \<Rightarrow> utext) \<Rightarrow> bool \<Rightarrow> driver \<Rightarrow> instant \<Rightarrow> scope \<Rightarrow> target \<Rightarrow> directory
    \<Rightarrow> (verdict, unit) result \<times> directory" where
  "check_targets lower foldp dv now s t d =
     (case window_pids dv now (tg_windows t) (tg_pids t) d of
        (Err v, d1) \<Rightarrow> (Err v, d1)
      | (Ok pids, d1) \<Rightarrow> pids_allowed lower foldp dv now s pids d1)"

definition launch_arg :: "json option \<Rightarrow> utext \<Rightarrow> utext option" where
  "launch_arg args key = (case Option.bind args (get_str key) of
      Some v \<Rightarrow> if trim v \<noteq> [] then Some (trim v) else None | None \<Rightarrow> None)"

definition launch_found :: "bool \<Rightarrow> json option \<Rightarrow> app_row list \<Rightarrow> app_row list" where
  "launch_found foldp args rows =
     (case launch_arg args (lit ''bundle_id'') of
        Some b \<Rightarrow> filter (\<lambda>r. case row_bundle r of Some b' \<Rightarrow> eq_ignore_ascii_case b' b | None \<Rightarrow> False) rows
      | None \<Rightarrow>
          (case (case launch_arg args (lit ''launch_path'') of Some p \<Rightarrow> Some p
                 | None \<Rightarrow> launch_arg args (lit ''path'')) of
             Some p \<Rightarrow> filter (\<lambda>r. case row_path r of Some p' \<Rightarrow> same_path foldp p' p | None \<Rightarrow> False) rows
           | None \<Rightarrow>
               (let n = (case launch_arg args (lit ''name'') of Some n \<Rightarrow> n | None \<Rightarrow> [])
                in filter (\<lambda>r. eq_ignore_ascii_case (row_name r) n) rows)))"

definition launch :: "(utext \<Rightarrow> utext) \<Rightarrow> bool \<Rightarrow> driver \<Rightarrow> instant \<Rightarrow> scope \<Rightarrow> json option \<Rightarrow> directory
    \<Rightarrow> verdict \<times> directory" where
  "launch lower foldp dv now s args d =
     (if launch_arg args (lit ''bundle_id'') = None \<and> launch_arg args (lit ''name'') = None \<and>
         launch_arg args (lit ''launch_path'') = None \<and> launch_arg args (lit ''path'') = None
      then (no_window, d)
      else case dir_apps dv now d of
          (Err why, d1) \<Rightarrow> (unavailable why, d1)
        | (Ok rows, d1) \<Rightarrow>
            (let found = launch_found foldp args rows
             in if found = [] then (app_unplaced, d1)
                else if list_all (scope_allows lower foldp s) found then (Pass, d1)
                else (not_allowed s, d1)))"

definition opt_json :: "utext option \<Rightarrow> json" where
  "opt_json x = (case x of None \<Rightarrow> JNull | Some s \<Rightarrow> JStr s)"

definition int_digits :: "int \<Rightarrow> utext" where
  "int_digits n = (if n < 0 then 45 # digits (nat (- n)) else digits (nat n))"

definition text_content :: "utext \<Rightarrow> json" where
  "text_content s = JArr [JObj [(lit ''text'', JStr s), (lit ''type'', JStr (lit ''text''))]]"

definition app_line :: "app_row \<Rightarrow> utext" where
  "app_line r = 10 # lit ''- '' @ row_name r @ lit '' (pid '' @ int_digits (row_pid r) @ lit '')'' @
     (case row_key r of Some k \<Rightarrow> lit '' ['' @ k @ lit '']'' | None \<Rightarrow> [])"

definition app_json :: "app_row \<Rightarrow> json" where
  "app_json r = JObj [(lit ''bundle_id'', opt_json (row_bundle r)), (lit ''launch_path'', opt_json (row_path r)),
     (lit ''name'', JStr (row_name r)), (lit ''pid'', JInt (row_pid r)), (lit ''running'', JBool (row_running r))]"

definition apps_answer :: "(utext \<Rightarrow> utext) \<Rightarrow> bool \<Rightarrow> scope \<Rightarrow> app_row list \<Rightarrow> json" where
  "apps_answer lower foldp s rows =
     (let allowed = filter (scope_allows lower foldp s) rows;
          running = length (filter row_running allowed);
          body = lit ''Found '' @ digits (length allowed) @ lit '' app(s) you may use here: '' @
            digits running @ lit '' running, '' @ digits (length allowed - running) @
            lit '' installed and not running.'' @ concat (map app_line (filter row_running allowed))
      in JObj [(lit ''content'', text_content body),
               (lit ''structuredContent'', JObj [(lit ''apps'', JArr (map app_json allowed))])])"

definition window_shown :: "(utext \<Rightarrow> utext) \<Rightarrow> bool \<Rightarrow> scope \<Rightarrow> app_row list \<Rightarrow> int option \<Rightarrow> bool \<Rightarrow> json \<Rightarrow> bool" where
  "window_shown lower foldp s rows pid on_screen_only w =
     (case Option.bind (jget (lit ''pid'') w) as_i64 of
        None \<Rightarrow> False
      | Some own \<Rightarrow>
          (case pid of None \<Rightarrow> True | Some p \<Rightarrow> p = own) \<and>
          (case find (\<lambda>r. row_running r \<and> row_pid r = own) rows of
             Some r \<Rightarrow> scope_allows lower foldp s r | None \<Rightarrow> False) \<and>
          (\<not> on_screen_only \<or> get_bool (lit ''on_current_space'') w \<noteq> Some False))"

definition windows_answer :: "(utext \<Rightarrow> utext) \<Rightarrow> bool \<Rightarrow> scope \<Rightarrow> json \<Rightarrow> app_row list \<Rightarrow> int option \<Rightarrow> bool \<Rightarrow> json" where
  "windows_answer lower foldp s listed rows pid on_screen_only =
     (let ws = (case Option.bind (jget (lit ''windows'') listed) as_arr of
                  Some l \<Rightarrow> filter (window_shown lower foldp s rows pid on_screen_only) l | None \<Rightarrow> []);
          base = (case listed of JObj kvs \<Rightarrow> kvs | _ \<Rightarrow> [])
      in JObj [(lit ''content'', text_content (lit ''Found '' @ digits (length ws) @
                  lit '' window(s) of the apps you may use here.'')),
               (lit ''structuredContent'', JObj (obj_put (lit ''windows'') (JArr ws) base))])"

definition names_browser :: "(utext \<Rightarrow> utext) \<Rightarrow> app_ref \<Rightarrow> bool" where
  "names_browser lower pick =
     (let words = lower (ar_id pick @ 32 # ar_name pick)
      in list_ex (\<lambda>w. contains_str w words) [lit ''chrome'', lit ''chromium'', lit ''edge''])"

definition checked :: "(utext \<Rightarrow> utext) \<Rightarrow> bool \<Rightarrow> driver \<Rightarrow> instant \<Rightarrow> scope \<Rightarrow> target \<Rightarrow> directory
    \<Rightarrow> verdict \<times> directory" where
  "checked lower foldp dv now s t d =
     (case check_targets lower foldp dv now s t d of
        (Ok _, d1) \<Rightarrow> (Pass, d1) | (Err v, d1) \<Rightarrow> (v, d1))"

definition decide ::
  "(utext \<Rightarrow> utext) \<Rightarrow> (utext \<Rightarrow> utext) \<Rightarrow> bool \<Rightarrow> driver \<Rightarrow> instant \<Rightarrow> scope \<Rightarrow> utext \<Rightarrow> json \<Rightarrow> directory
     \<Rightarrow> verdict \<times> directory" where
  "decide lower dbg foldp dv now s tool msg d =
     (if \<not> restricted s then (Pass, d)
      else case kind_of tool of
        None \<Rightarrow> (tool_unplaced dbg tool, d)
      | Some kind \<Rightarrow>
          (let args = arguments msg; t = target_of args; unnamed = (tg_pids t = [] \<and> tg_windows t = [])
           in case kind of
                TFree \<Rightarrow> (Pass, d)
              | TScreen \<Rightarrow> (whole_screen, d)
              | TClipboard \<Rightarrow> (if sp_policy s = PolOnly then clipboard_not_chosen else Pass, d)
              | TListApps \<Rightarrow>
                  (case dir_apps dv now d of
                     (Ok rows, d1) \<Rightarrow> (Answer (apps_answer lower foldp s rows), d1)
                   | (Err why, d1) \<Rightarrow> (unavailable why, d1))
              | TListWindows \<Rightarrow>
                  (case check_targets lower foldp dv now s t d of
                     (Err v, d1) \<Rightarrow> (v, d1)
                   | (Ok _, d1) \<Rightarrow>
                       (let only = Option.bind args (get_bool (lit ''on_screen_only'')) = Some True;
                            (listing, d2) = windows_listing dv now d1;
                            (apps, d3) = dir_apps dv now d2
                        in case (listing, apps) of
                             (Ok listed, Ok rows) \<Rightarrow>
                               (Answer (windows_answer lower foldp s listed rows
                                  (case tg_pids t of [] \<Rightarrow> None | p # _ \<Rightarrow> Some p) only), d3)
                           | (Err why, _) \<Rightarrow> (unavailable why, d3)
                           | (_, Err why) \<Rightarrow> (unavailable why, d3)))
              | TLaunch \<Rightarrow> launch lower foldp dv now s args d
              | TPointer \<Rightarrow>
                  (if tg_desktop t then (whole_screen, d)
                   else if unnamed then (if sp_policy s = PolOnly then no_window else Pass, d)
                   else checked lower foldp dv now s t d)
              | TWindow \<Rightarrow>
                  (if tg_desktop t then (whole_screen, d)
                   else if unnamed then (no_window, d)
                   else checked lower foldp dv now s t d)
              | TBrowser \<Rightarrow>
                  (if sp_policy s = PolOnly then (page_tools_limited, d)
                   else if \<not> unnamed then checked lower foldp dv now s t d
                   else if (case Option.bind args (get_str (lit ''target_id'')) of
                              Some x \<Rightarrow> x \<noteq> [] | None \<Rightarrow> False) then (Pass, d)
                   else if tool = lit ''browser_prepare'' then
                     (if list_ex (names_browser lower) (sp_apps s) then (browser_unnamed, d) else (Pass, d))
                   else (no_window, d))))"

section \<open>The owner's picker\<close>

record app_choice =
  ch_id :: utext
  ch_name :: utext
  ch_running :: bool
  ch_path :: "utext option"
  ch_sensitive :: bool

definition SENSITIVE_APPS :: "utext list" where
  "SENSITIVE_APPS = [lit ''1Password'',
    lit ''1Password 7'',
    lit ''Bitwarden'',
    lit ''KeePassXC'',
    lit ''KeePass'',
    lit ''KeePass 2'',
    lit ''Dashlane'',
    lit ''LastPass'',
    lit ''Proton Pass'',
    lit ''NordPass'',
    lit ''Enpass'',
    lit ''Keeper Password Manager'',
    lit ''Keychain Access'',
    lit ''Passwords'',
    lit ''System Settings'',
    lit ''System Preferences'',
    lit ''Windows Security'',
    lit ''Credential Manager'',
    lit ''Settings'',
    lit ''Passwords and Keys'',
    lit ''Seahorse'',
    lit ''KWalletManager'']"

definition sensitive :: "app_row \<Rightarrow> bool" where
  "sensitive r = list_ex (eq_ignore_ascii_case (row_name r)) SENSITIVE_APPS"

fun mark_running :: "utext \<Rightarrow> bool \<Rightarrow> app_choice list \<Rightarrow> app_choice list" where
  \<comment> \<open>the first choice with this id\<close>
  "mark_running key running [] = []"
| "mark_running key running (c # cs) =
     (if eq_ignore_ascii_case (ch_id c) key then c\<lparr>ch_running := ch_running c \<or> running\<rparr> # cs
      else c # mark_running key running cs)"

fun collect_choices :: "app_row list \<Rightarrow> app_choice list \<Rightarrow> app_choice list" where
  "collect_choices [] out = out"
| "collect_choices (r # rs) out =
     (case row_key r of
        None \<Rightarrow> collect_choices rs out
      | Some key \<Rightarrow>
          if row_name r = [] then collect_choices rs out
          else if list_ex (\<lambda>c. eq_ignore_ascii_case (ch_id c) key) out
          then collect_choices rs (mark_running key (row_running r) out)
          else collect_choices rs (out @ [\<lparr>ch_id = key, ch_name = row_name r, ch_running = row_running r,
                 ch_path = (case row_path r of Some p \<Rightarrow> if p \<noteq> key then Some p else None | None \<Rightarrow> None),
                 ch_sensitive = sensitive r\<rparr>]))"

definition choices :: "(utext \<Rightarrow> utext) \<Rightarrow> app_row list \<Rightarrow> app_choice list" where
  \<comment> \<open>a stable sort: running ones first, then by the name\<close>
  "choices lower rows =
     (let cs = collect_choices rows []
      in sort_key (\<lambda>c. lower (ch_name c)) (filter ch_running cs) @
         sort_key (\<lambda>c. lower (ch_name c)) (filter (\<lambda>c. \<not> ch_running c) cs))"

definition default_exclusions :: "app_choice list \<Rightarrow> app_ref list" where
  "default_exclusions cs =
     map (\<lambda>c. \<lparr>ar_id = ch_id c, ar_name = ch_name c, ar_loose = False\<rparr>) (filter ch_sensitive cs)"

section \<open>Lemmas\<close>

text \<open>
  What the directory may go by at a moment: a reading it holds that is young enough, or
  one it makes from now on.
\<close>

definition running_app :: "int \<Rightarrow> app_row list \<Rightarrow> app_row option" where
  "running_app pid rows = find (\<lambda>r. row_running r \<and> row_pid r = pid) rows"

definition read_app :: "driver \<Rightarrow> instant \<Rightarrow> directory \<Rightarrow> int \<Rightarrow> app_row \<Rightarrow> bool" where
  "read_app dv now d pid r \<longleftrightarrow>
     recent now APPS_TTL (d_apps_at d) \<and> running_app pid (d_apps d) = Some r \<or>
     (\<exists>n \<ge> d_apps_reads d. \<exists>j. dv_apps dv n = Ok j \<and> running_app pid (parse_apps j) = Some r)"

definition read_owner :: "driver \<Rightarrow> instant \<Rightarrow> directory \<Rightarrow> nat \<Rightarrow> int \<Rightarrow> bool" where
  "read_owner dv now d w p \<longleftrightarrow>
     recent now WINDOWS_TTL (d_windows_at d) \<and> d_owners d w = Some p \<or>
     (\<exists>n \<ge> d_windows_reads d. \<exists>j. dv_windows dv n = Ok j \<and> owners_of j w = Some p)"

text \<open>The directory only moves on: it keeps a reading or holds a later one.\<close>

definition later :: "driver \<Rightarrow> instant \<Rightarrow> directory \<Rightarrow> directory \<Rightarrow> bool" where
  "later dv now d d' \<longleftrightarrow>
     d_apps_reads d \<le> d_apps_reads d' \<and> d_windows_reads d \<le> d_windows_reads d' \<and>
     (d_apps_at d' = d_apps_at d \<and> d_apps d' = d_apps d \<or>
      (\<exists>n \<ge> d_apps_reads d. \<exists>j. dv_apps dv n = Ok j \<and> d_apps d' = parse_apps j)) \<and>
     (d_windows_at d' = d_windows_at d \<and> d_owners d' = d_owners d \<or>
      (\<exists>n \<ge> d_windows_reads d. \<exists>j. dv_windows dv n = Ok j \<and> d_owners d' = owners_of j))"

lemma later_refl [simp]: "later dv now d d"
  by (simp add: later_def)

lemma later_trans: "later dv now a b \<Longrightarrow> later dv now b c \<Longrightarrow> later dv now a c"
  unfolding later_def by (smt (verit) le_trans)

lemma later_read_app: "later dv now d d' \<Longrightarrow> read_app dv now d' pid r \<Longrightarrow> read_app dv now d pid r"
  unfolding later_def read_app_def by (smt (verit) le_trans)

lemma later_read_owner: "later dv now d d' \<Longrightarrow> read_owner dv now d' w p \<Longrightarrow> read_owner dv now d w p"
  unfolding later_def read_owner_def by (smt (verit) le_trans)

lemma read_apps_later: "later dv now d (snd (read_apps dv now d))"
  by (auto simp: read_apps_def later_def Let_def split: sum.split)

lemma read_windows_later: "later dv now d (snd (read_windows dv now d))"
  by (auto simp: read_windows_def later_def Let_def set_windows_def split: sum.split)

lemma window_owner_later: "window_owner dv now w d = (r, d') \<Longrightarrow> later dv now d d'"
  using read_windows_later [of dv now d]
  by (auto simp: window_owner_def Let_def split: if_splits option.splits sum.splits prod.splits)

lemma app_of_pid_later: "app_of_pid dv now p d = (r, d') \<Longrightarrow> later dv now d d'"
  using read_apps_later [of dv now d]
  by (auto simp: app_of_pid_def Let_def split: if_splits option.splits sum.splits prod.splits)

lemma app_of_pid_read: "app_of_pid dv now p d = (Ok (Some r), d') \<Longrightarrow> read_app dv now d p r"
  by (auto simp: app_of_pid_def Let_def read_app_def running_app_def find_pid_def read_apps_def
      split: if_splits option.splits sum.splits prod.splits)

lemma window_owner_read: "window_owner dv now w d = (Ok (Some p), d') \<Longrightarrow> read_owner dv now d w p"
  by (auto simp: window_owner_def Let_def read_owner_def read_windows_def set_windows_def
      split: if_splits option.splits sum.splits prod.splits)

lemma window_pids_ok:
  "window_pids dv now ws pids d = (Ok out, d') \<Longrightarrow>
   later dv now d d' \<and> set pids \<subseteq> set out \<and> (\<forall>w \<in> set ws. \<exists>p \<in> set out. read_owner dv now d w p)"
proof (induction ws arbitrary: pids d)
  case (Cons w ws)
  then obtain p d1 where o: "window_owner dv now w d = (Ok (Some p), d1)"
      and rest: "window_pids dv now ws (push_new p pids) d1 = (Ok out, d')"
    by (auto split: prod.splits sum.splits option.splits)
  from Cons.IH [OF rest] window_owner_later [OF o] window_owner_read [OF o] 
  have "later dv now d d'" "set pids \<subseteq> set out" "p \<in> set out"
    by (auto simp: push_new_def split: if_splits intro: later_trans)
  moreover have "\<exists>p \<in> set out. read_owner dv now d w' p" if "w' \<in> set ws" for w'
    using that Cons.IH [OF rest] later_read_owner [OF window_owner_later [OF o]] by blast
  ultimately show ?case using window_owner_read [OF o] by auto
qed simp

lemma pids_allowed_ok:
  "pids_allowed lower foldp dv now s ps d = (Ok u, d') \<Longrightarrow>
   later dv now d d' \<and> (\<forall>p \<in> set ps. \<exists>r. read_app dv now d p r \<and> scope_allows lower foldp s r)"
proof (induction ps arbitrary: d)
  case (Cons p ps)
  then obtain r d1 where o: "app_of_pid dv now p d = (Ok (Some r), d1)" "scope_allows lower foldp s r"
      and rest: "pids_allowed lower foldp dv now s ps d1 = (Ok u, d')"
    by (auto split: prod.splits sum.splits option.splits if_splits)
  have "\<exists>r. read_app dv now d q r \<and> scope_allows lower foldp s r" if "q \<in> set ps" for q
    using that Cons.IH [OF rest] later_read_app [OF app_of_pid_later [OF o(1)]] by blast
  with Cons.IH [OF rest] app_of_pid_later [OF o(1)] app_of_pid_read [OF o(1)] o(2) show ?case
    by (auto intro: later_trans)
qed simp

definition target_ok :: "(utext \<Rightarrow> utext) \<Rightarrow> bool \<Rightarrow> driver \<Rightarrow> instant \<Rightarrow> scope \<Rightarrow> target \<Rightarrow> directory \<Rightarrow> bool" where
  "target_ok lower foldp dv now s t d \<longleftrightarrow>
     (\<forall>p \<in> set (tg_pids t). \<exists>r. read_app dv now d p r \<and> scope_allows lower foldp s r) \<and>
     (\<forall>w \<in> set (tg_windows t). \<exists>p r. read_owner dv now d w p \<and> read_app dv now d p r \<and>
        scope_allows lower foldp s r)"

lemma check_targets_ok:
  assumes "check_targets lower foldp dv now s t d = (Ok u, d')"
  shows "target_ok lower foldp dv now s t d"
proof -
  obtain pids d1 where w: "window_pids dv now (tg_windows t) (tg_pids t) d = (Ok pids, d1)"
      and p: "pids_allowed lower foldp dv now s pids d1 = (Ok u, d')"
    using assms by (auto simp: check_targets_def split: prod.splits sum.splits)
  from window_pids_ok [OF w] pids_allowed_ok [OF p] show ?thesis
    unfolding target_ok_def by (meson later_read_app subsetD)
qed

text \<open>The refusals are refusals.\<close>

lemma refusals_not_pass [simp]:
  "not_allowed s \<noteq> Pass" "whole_screen \<noteq> Pass" "no_window \<noteq> Pass" "unknown_owner \<noteq> Pass"
  "unavailable w \<noteq> Pass" "tool_unplaced dbg tool \<noteq> Pass" "clipboard_not_chosen \<noteq> Pass"
  "page_tools_limited \<noteq> Pass" "browser_unnamed \<noteq> Pass" "app_unplaced \<noteq> Pass"
  by (auto simp: not_allowed_def whole_screen_def no_window_def unknown_owner_def unavailable_def
      tool_unplaced_def clipboard_not_chosen_def page_tools_limited_def browser_unnamed_def
      app_unplaced_def split: apps_policy.split)

lemma window_pids_err: "window_pids dv now ws pids d = (Err v, d') \<Longrightarrow> v \<noteq> Pass"
  by (induction dv now ws pids d rule: window_pids.induct) (auto split: prod.splits sum.splits option.splits)

lemma pids_allowed_err: "pids_allowed lower foldp dv now s ps d = (Err v, d') \<Longrightarrow> v \<noteq> Pass"
  by (induction lower foldp dv now s ps d rule: pids_allowed.induct)
    (auto split: prod.splits sum.splits option.splits if_splits)

lemma check_targets_err: "check_targets lower foldp dv now s t d = (Err v, d') \<Longrightarrow> v \<noteq> Pass"
  by (auto simp: check_targets_def split: prod.splits sum.splits dest: window_pids_err pids_allowed_err)

lemma checked_pass: "checked lower foldp dv now s t d = (Pass, d') \<Longrightarrow> target_ok lower foldp dv now s t d"
  by (auto simp: checked_def split: prod.splits sum.splits dest: check_targets_ok check_targets_err)

lemma launch_pass:
  "launch lower foldp dv now s args d = (Pass, d') \<Longrightarrow>
   \<exists>rows. fst (dir_apps dv now d) = Ok rows \<and> launch_found foldp args rows \<noteq> [] \<and>
     list_all (scope_allows lower foldp s) (launch_found foldp args rows)"
  by (auto simp: launch_def Let_def split: if_splits prod.splits sum.splits)

section \<open>Properties\<close>

definition pass_ok :: "(utext \<Rightarrow> utext) \<Rightarrow> bool \<Rightarrow> driver \<Rightarrow> instant \<Rightarrow> scope \<Rightarrow> utext \<Rightarrow> json \<Rightarrow> directory \<Rightarrow> bool" where
  "pass_ok lower foldp dv now s tool msg d \<longleftrightarrow>
     (let args = arguments msg; t = target_of args;
          unnamed = (tg_pids t = [] \<and> tg_windows t = [])
      in case kind_of tool of
           Some TFree \<Rightarrow> True
         | Some TClipboard \<Rightarrow> sp_policy s = PolExcept
         | Some TPointer \<Rightarrow> \<not> tg_desktop t \<and> target_ok lower foldp dv now s t d \<and>
             (sp_policy s = PolExcept \<or> \<not> unnamed)
         | Some TWindow \<Rightarrow> \<not> tg_desktop t \<and> target_ok lower foldp dv now s t d \<and> \<not> unnamed
         | Some TBrowser \<Rightarrow> sp_policy s = PolExcept \<and> target_ok lower foldp dv now s t d
         | Some TLaunch \<Rightarrow>
             (case fst (dir_apps dv now d) of
                Err _ \<Rightarrow> False
              | Ok rows \<Rightarrow> launch_found foldp args rows \<noteq> [] \<and>
                  list_all (scope_allows lower foldp s) (launch_found foldp args rows))
         | _ \<Rightarrow> False)"

lemma target_ok_unnamed:
  "tg_pids t = [] \<Longrightarrow> tg_windows t = [] \<Longrightarrow> target_ok lower foldp dv now s t d"
  by (simp add: target_ok_def)

lemma policy_cases: "restricted s \<Longrightarrow> sp_policy s = PolOnly \<or> sp_policy s = PolExcept"
  by (cases "sp_policy s") (simp_all add: restricted_def)

lemma decide_pass_ok:
  assumes "restricted s"
    and "decide lower dbg foldp dv now s tool msg d = (Pass, d')"
  shows "pass_ok lower foldp dv now s tool msg d"
proof -
  obtain kind where k: "kind_of tool = Some kind"
    using assms by (auto simp: decide_def split: option.splits)
  note dec = assms(2) [unfolded decide_def k, simplified assms(1) Let_def]
  show ?thesis
  proof (cases kind)
    case TListWindows
    with dec show ?thesis
      by (auto simp: assms(1) split: prod.splits sum.splits dest: check_targets_err)
  next
    case TLaunch
    with dec have "launch lower foldp dv now s (arguments msg) d = (Pass, d')" by (simp add: assms(1))
    from launch_pass [OF this] show ?thesis using k TLaunch by (auto simp: pass_ok_def Let_def)
  qed (use dec k policy_cases [OF assms(1)] in \<open>auto simp: assms(1) pass_ok_def Let_def target_ok_unnamed
      split: if_splits prod.splits sum.splits dest!: checked_pass\<close>)
qed

text \<open>
  C6: while the owner limits the apps, a tool call that is handed to the driver is about
  no app outside the choice: every process it names and the owner of every window it
  names is, in a reading of the driver's lists that is young enough, a running app the
  choice allows; nothing about the whole screen passes; a window tool that names no
  window does not; an app is started only when every app the call can mean is allowed;
  and with "only these" neither the clipboard nor the page tools pass.
\<close>

theorem limited_call_stays_in_choice:
  assumes "restricted s"
    and "decide lower dbg foldp dv now s tool msg d = (Pass, d')"
  shows "pass_ok lower foldp dv now s tool msg d"
  using assms by (rule decide_pass_ok)

definition sample_row :: app_row where
  "sample_row = \<lparr>row_pid = 7, row_name = lit ''Notes'', row_bundle = Some (lit ''com.apple.Notes''),
     row_path = None, row_running = True\<rparr>"

definition sample_directory :: directory where
  "sample_directory = new_directory\<lparr>d_apps := [sample_row], d_apps_at := Some 0\<rparr>"

definition sample_scope :: scope where
  "sample_scope = \<lparr>sp_policy = PolOnly,
     sp_apps = [\<lparr>ar_id = lit ''com.apple.Notes'', ar_name = lit ''Notes'', ar_loose = False\<rparr>], sp_write_roots = []\<rparr>"

definition sample_click :: json where
  "sample_click = JObj [(lit ''params'', JObj [(lit ''arguments'', JObj [(lit ''pid'', JInt 7)])])]"

theorem limited_call_stays_in_choice_witness:
  "pass_ok id True \<lparr>dv_apps = \<lambda>_. Err [], dv_windows = \<lambda>_. Err []\<rparr> 0 sample_scope (lit ''click'')
     sample_click sample_directory"
proof -
  let ?dv = "\<lparr>dv_apps = \<lambda>_. Err [], dv_windows = \<lambda>_. Err []\<rparr>"
  have r: "restricted sample_scope" by (simp add: restricted_def sample_scope_def)
  have k: "kind_of (lit ''click'') = Some TWindow" by (simp add: kind_of_def TOOLS_def lit_eq_iff)
  have t: "target_of (arguments sample_click) = \<lparr>tg_pids = [7], tg_windows = [], tg_desktop = False\<rparr>"
    by (simp add: target_of_def arguments_def sample_click_def json_defs take_target_def no_target_def
        push_new_def lit_eq_iff)
  have "decide id id True ?dv 0 sample_scope (lit ''click'') sample_click sample_directory
      = (Pass, sample_directory)"
    using r k t
    by (simp add: decide_def checked_def check_targets_def app_of_pid_def find_pid_def recent_def
        sample_directory_def sample_row_def sample_scope_def new_directory_def scope_allows_def
        app_matches_def eq_ignore_ascii_case_def APPS_TTL_def elapsed_def seconds_def)
  from limited_call_stays_in_choice [OF r this] show ?thesis .
qed

definition listed_in :: "utext \<Rightarrow> json \<Rightarrow> json list" where
  "listed_in key answer = (case Option.bind (jget (lit ''structuredContent'') answer)
       (\<lambda>c. Option.bind (jget key c) as_arr) of Some l \<Rightarrow> l | None \<Rightarrow> [])"

lemma dir_apps_rows: "dir_apps dv now d = (Ok rows, d') \<Longrightarrow> rows = d_apps d'"
  by (auto simp: dir_apps_def split: if_splits prod.splits sum.splits)

lemma listed_windows [simp]:
  "listed_in (lit ''windows'') (windows_answer lower foldp s listed rows pid only)
     = (case Option.bind (jget (lit ''windows'') listed) as_arr of
          Some l \<Rightarrow> filter (window_shown lower foldp s rows pid only) l | None \<Rightarrow> [])"
  by (simp add: listed_in_def windows_answer_def Let_def jget_def as_arr_def map_of_obj_put lit_eq_iff)

lemma listed_apps [simp]:
  "listed_in (lit ''apps'') (apps_answer lower foldp s rows)
     = map app_json (filter (scope_allows lower foldp s) rows)"
  by (simp add: listed_in_def apps_answer_def Let_def jget_def as_arr_def lit_eq_iff)

lemma refusals_not_answer [simp]:
  "not_allowed s \<noteq> Answer j" "whole_screen \<noteq> Answer j" "no_window \<noteq> Answer j" "unknown_owner \<noteq> Answer j"
  "unavailable w \<noteq> Answer j" "tool_unplaced dbg tool \<noteq> Answer j" "clipboard_not_chosen \<noteq> Answer j"
  "page_tools_limited \<noteq> Answer j" "browser_unnamed \<noteq> Answer j" "app_unplaced \<noteq> Answer j"
  by (auto simp: not_allowed_def whole_screen_def no_window_def unknown_owner_def unavailable_def
      tool_unplaced_def clipboard_not_chosen_def page_tools_limited_def browser_unnamed_def
      app_unplaced_def split: apps_policy.split)

lemma window_pids_no_answer: "window_pids dv now ws pids d = (Err v, d') \<Longrightarrow> v \<noteq> Answer j"
  by (induction dv now ws pids d rule: window_pids.induct) (auto split: prod.splits sum.splits option.splits)

lemma pids_allowed_no_answer: "pids_allowed lower foldp dv now s ps d = (Err v, d') \<Longrightarrow> v \<noteq> Answer j"
  by (induction lower foldp dv now s ps d rule: pids_allowed.induct)
    (auto split: prod.splits sum.splits option.splits if_splits)

lemma check_targets_no_answer: "check_targets lower foldp dv now s t d = (Err v, d') \<Longrightarrow> v \<noteq> Answer j"
  by (auto simp: check_targets_def split: prod.splits sum.splits dest: window_pids_no_answer pids_allowed_no_answer)

lemma checked_no_answer: "checked lower foldp dv now s t d \<noteq> (Answer j, d')"
  by (auto simp: checked_def split: prod.splits sum.splits dest: check_targets_no_answer)

lemma launch_no_answer: "launch lower foldp dv now s args d \<noteq> (Answer j, d')"
  by (auto simp: launch_def Let_def split: prod.splits sum.splits if_splits)

lemma list_tools:
  "filter (\<lambda>x. snd x = TListApps) TOOLS = [(lit ''list_apps'', TListApps)]"
  "filter (\<lambda>x. snd x = TListWindows) TOOLS = [(lit ''list_windows'', TListWindows)]"
  by (simp_all add: TOOLS_def)

lemma kind_of_list_tools:
  "kind_of (lit ''list_apps'') = Some TListApps" "kind_of (lit ''list_windows'') = Some TListWindows"
  by (simp_all add: kind_of_def TOOLS_def lit_eq_iff)

lemma kind_of_filter: "kind_of tool = Some k \<Longrightarrow> (tool, k) \<in> set (filter (\<lambda>x. snd x = k) TOOLS)"
  by (auto simp: kind_of_def dest: map_of_SomeD)

lemma kind_of_ListApps: "kind_of tool = Some TListApps \<longleftrightarrow> tool = lit ''list_apps''"
  using kind_of_filter [of tool TListApps] kind_of_list_tools(1) unfolding list_tools by auto

lemma kind_of_ListWindows: "kind_of tool = Some TListWindows \<longleftrightarrow> tool = lit ''list_windows''"
  using kind_of_filter [of tool TListWindows] kind_of_list_tools(2) unfolding list_tools by auto

text \<open>
  the two lists a synth gets while the owner limits the apps are the app's own, cut
  down: every app in an answer of \<open>list_apps\<close> is allowed, and every window in an answer
  of \<open>list_windows\<close> belongs to a running app that is allowed.
\<close>

theorem limited_lists_show_choice:
  assumes "decide lower dbg foldp dv now s tool msg d = (Answer j, d')"
  shows "if tool = lit ''list_apps''
     then listed_in (lit ''apps'') j = map app_json (filter (scope_allows lower foldp s) (d_apps d'))
     else tool = lit ''list_windows'' \<and>
       (\<forall>w \<in> set (listed_in (lit ''windows'') j). \<exists>own r.
          Option.bind (jget (lit ''pid'') w) as_i64 = Some own \<and>
          running_app own (d_apps d') = Some r \<and> scope_allows lower foldp s r)"
proof -
  obtain kind where k: "kind_of tool = Some kind" and r: "restricted s"
    using assms by (auto simp: decide_def split: option.splits if_splits)
  note dec = assms [unfolded decide_def k, simplified r Let_def]
  have apps: "kind = TListApps \<longleftrightarrow> tool = lit ''list_apps''"
    and wins: "kind = TListWindows \<longleftrightarrow> tool = lit ''list_windows''"
    using k kind_of_ListApps [of tool] kind_of_ListWindows [of tool] by auto
  show ?thesis
  proof (cases kind)
    case TListApps
    with dec apps show ?thesis
      by (auto simp: r split: prod.splits sum.splits dest: dir_apps_rows)
  next
    case TListWindows
    then have "tool \<noteq> lit ''list_apps''" using wins by (simp add: lit_eq_iff)
    with TListWindows dec wins show ?thesis
      by (auto simp: r window_shown_def running_app_def split: prod.splits sum.splits option.splits
          dest: dir_apps_rows check_targets_no_answer)
  qed (use dec in \<open>auto simp: r checked_no_answer launch_no_answer split: if_splits prod.splits\<close>)
qed

theorem limited_lists_show_choice_witness:
  "listed_in (lit ''apps'') (apps_answer id True sample_scope [sample_row]) = [app_json sample_row]"
proof -
  let ?dv = "\<lparr>dv_apps = \<lambda>_. Err [], dv_windows = \<lambda>_. Err []\<rparr>"
  have k: "kind_of (lit ''list_apps'') = Some TListApps" by (simp add: kind_of_def TOOLS_def lit_eq_iff)
  have a: "scope_allows id True sample_scope sample_row"
    by (simp add: scope_allows_def sample_scope_def sample_row_def app_matches_def eq_ignore_ascii_case_def)
  have "decide id id True ?dv 0 sample_scope (lit ''list_apps'') (JObj []) sample_directory
      = (Answer (apps_answer id True sample_scope [sample_row]), sample_directory)"
    using k by (simp add: decide_def dir_apps_def recent_def sample_directory_def new_directory_def
        restricted_def sample_scope_def APPS_TTL_def elapsed_def seconds_def)
  from limited_lists_show_choice [OF this] a show ?thesis
    by (simp add: sample_directory_def)
qed

end
