(* ===== verification/Core_State.thy ===== *)
theory Core_State
  imports Computer_Apps Pairing Secrets Grants Journal Link_Requests Observe_Settings Address_Policy
begin

text \<open>
  The state of \<open>core.rs\<close> (\<open>Shared\<close>), of a link (\<open>slot.rs\<close>, \<open>LinkSlot\<close>) and of a connected
  browser (\<open>browser.rs\<close>), with the accessors and the small state changes every component
  uses. A link is an object that several tasks hold (\<open>Arc<LinkSlot>\<close>): it is a cell of the
  heap \<open>sh_slots\<close>, a holder has its index, and \<open>Arc::ptr_eq\<close> is equality of indices.
  \<open>sh_links\<close> are the links in the order they were made. What is written to disk
  (\<open>settings::save\<close>) is the log \<open>sh_saves\<close>, what the UI is told the log \<open>sh_events\<close>. The
  secret store is the file store. Every function that holds a lock for its whole body is
  one step; those that let go of it between two steps are given as two.
\<close>

section \<open>Records\<close>

datatype link_state = Unpaired | Connecting | Linked | Reconnecting | Paused | NeedsRepair

record hello_ack =
  ha_synth_id :: utext
  ha_synth_name :: utext
  ha_synth_version :: utext
  ha_features :: "utext list"
  ha_observe_resources :: "utext list"

definition ack_has :: "utext \<Rightarrow> hello_ack \<Rightarrow> bool" where
  "ack_has feature a \<longleftrightarrow> feature \<in> set (ha_features a)"

record island_event =
  ie_synth :: utext
  ie_kind :: utext
  ie_message :: utext
  ie_summary :: utext
  ie_channel :: utext

record island_speech =
  sp_synth :: utext
  sp_message :: utext
  sp_mime :: utext
  sp_audio :: "nat list"
  sp_text :: utext
  sp_duration_ms :: "nat option"

datatype core_event =
    EvLink utext link_state utext
  | EvSettings nat
  | EvPaired utext
  | EvUnpaired utext nat
  | EvAccount
  | EvPaused bool
  | EvBrowsers
  | EvComputerTask
  | EvFace utext
  | EvLimits utext
  | EvObserve utext
  | EvIsland island_event
  | EvSpeech island_speech

record link_slot =
  sl_synth_id :: utext
  sl_url :: utext
  sl_source :: link_source
  sl_hub_id :: utext
  sl_stored_name :: utext
  sl_token_key :: sec_key
  sl_adhoc :: bool
  sl_legacy_token :: bool
  sl_synth :: "hello_ack option"
  sl_state :: link_state
  sl_detail :: utext
  sl_stopping :: bool
  sl_running :: bool
  sl_wake :: bool        \<comment> \<open>a permit of \<open>Notify\<close> waits\<close>
  sl_unpair_req :: bool
  sl_unpair_ack :: bool
  sl_requests :: link_requests

type_synonym slot_ref = nat

record lease =
  le_synth_id :: utext
  le_name :: utext
  le_last :: instant

record start_backoff =
  sb_failures :: nat
  sb_not_before :: "instant option"
  sb_last_error :: utext

definition no_backoff :: start_backoff where
  "no_backoff = \<lparr>sb_failures = 0, sb_not_before = None, sb_last_error = []\<rparr>"

record counters =
  ct_month :: utext
  ct_bytes :: nat
  ct_unsaved :: nat
  ct_last_flush :: instant

record browser_session =
  bs_id :: nat
  bs_safari :: bool         \<comment> \<open>the door it came in on\<close>
  bs_greeted :: bool
  bs_browser :: utext
  bs_install :: utext
  bs_ext_version :: utext
  bs_paired :: bool
  bs_device_id :: utext
  bs_sites :: "utext list"
  bs_all_sites :: bool
  bs_pairing :: bool
  bs_code_sent :: "instant option"
  bs_code_synth :: utext
  bs_last_pair :: "instant option"
  bs_queue :: "json list"   \<comment> \<open>messages not yet written\<close>

text \<open>
  The questions that wait for a browser's answer. \<open>bh_answers\<close> is the log of what was handed
  to a waiting caller.
\<close>

record browser_hub =
  bh_next_session :: nat
  bh_next_request :: nat
  bh_waiting :: "nat \<rightharpoonup> nat"            \<comment> \<open>request to session\<close>
  bh_answers :: "(nat \<times> nat \<times> json) list"  \<comment> \<open>request, session, message\<close>

definition new_hub :: browser_hub where
  "new_hub = \<lparr>bh_next_session = 0, bh_next_request = 0, bh_waiting = Map.empty, bh_answers = []\<rparr>"

record daemon =
  dm_bin :: utext
  dm_socket :: utext
  dm_scope :: scope
  dm_look :: "utext list"   \<comment> \<open>its look flags\<close>
  dm_started :: instant

record shared =
  sh_persisted :: persisted
  sh_path :: bool           \<comment> \<open>there is a settings file\<close>
  sh_saves :: "persisted list"
  sh_grants :: grant_store
  sh_journal :: journal
  sh_secret :: file_store
  sh_paused :: bool
  sh_metered :: bool
  sh_streams_open :: nat
  sh_backoff :: start_backoff
  sh_daemon :: "daemon option"
  sh_daemon_bin :: "utext option"
  sh_cua_sessions :: nat
  sh_directory :: directory
  sh_task :: "(utext \<times> instant) option"
  sh_counters :: counters
  sh_slots :: "link_slot list"
  sh_links :: "slot_ref list"
  sh_pending :: "pending option"
  sh_lease :: "lease option"
  sh_events :: "core_event list"
  sh_settings_tx :: nat
  sh_control_tx :: nat
  sh_limits :: "utext \<rightharpoonup> limits"
  sh_agent_cursor :: "(rat \<times> rat \<times> instant) option"
  sh_shell_stops :: nat     \<comment> \<open>how often the running commands were stopped\<close>
  sh_hub :: browser_hub
  sh_sessions :: "browser_session list"
  sh_extension_first :: bool
  sh_transfers :: "(utext \<times> nat \<times> instant) list"
  sh_notified :: "instant list"
  sh_faces_read :: "utext list"        \<comment> \<open>the synths whose face was read or set in this run\<close>
  sh_asked :: "approval_request list"  \<comment> \<open>the questions put to the owner, a log\<close>

text \<open>The state a core starts with (the end of \<open>Core::new\<close>).\<close>

definition make_shared ::
  "persisted \<Rightarrow> bool \<Rightarrow> grant_store \<Rightarrow> journal \<Rightarrow> file_store \<Rightarrow> link_slot list \<Rightarrow> utext \<Rightarrow> nat \<Rightarrow> instant \<Rightarrow> shared" where
  "make_shared p path grants journal secret slots month bytes now =
     \<lparr>sh_persisted = p, sh_path = path, sh_saves = [], sh_grants = grants, sh_journal = journal,
      sh_secret = secret, sh_paused = False, sh_metered = False, sh_streams_open = 0,
      sh_backoff = no_backoff, sh_daemon = None, sh_daemon_bin = None, sh_cua_sessions = 0,
      sh_directory = new_directory, sh_task = None,
      sh_counters = \<lparr>ct_month = month, ct_bytes = bytes, ct_unsaved = 0, ct_last_flush = now\<rparr>,
      sh_slots = slots, sh_links = [0..<length slots], sh_pending = None, sh_lease = None,
      sh_events = [], sh_settings_tx = p_rev p, sh_control_tx = 0, sh_limits = Map.empty,
      sh_agent_cursor = None, sh_shell_stops = 0, sh_hub = new_hub,
      sh_sessions = [], sh_extension_first = False, sh_transfers = [], sh_notified = [], sh_faces_read = [], sh_asked = []\<rparr>"

text \<open>A core with no link and nothing on disk, for the examples.\<close>

definition blank_shared :: "settings \<Rightarrow> shared" where
  "blank_shared s = make_shared ((fresh True [])\<lparr>p_settings := s\<rparr>) False []
     (new_journal (\<lambda>_. 0) [] False None 0) \<lparr>fs_file = SecMissing, fs_writes = []\<rparr> [] [] 0 0"

section \<open>A link\<close>

definition new_slot :: "utext \<Rightarrow> utext \<Rightarrow> link_source \<Rightarrow> utext \<Rightarrow> utext \<Rightarrow> sec_key \<Rightarrow> bool \<Rightarrow> link_slot" where
  "new_slot synth_id url src hub_id name key adhoc =
     \<lparr>sl_synth_id = synth_id, sl_url = url, sl_source = src, sl_hub_id = hub_id,
      sl_stored_name = name, sl_token_key = key, sl_adhoc = adhoc, sl_legacy_token = False,
      sl_synth = None, sl_state = Connecting, sl_detail = [], sl_stopping = False,
      sl_running = False, sl_wake = False, sl_unpair_req = False, sl_unpair_ack = False,
      sl_requests = new_requests\<rparr>"

definition from_identity :: "identity \<Rightarrow> link_slot" where
  "from_identity i = new_slot (id_synth_id i) (id_synth_url i) (id_source i) (id_hub_id i)
     (id_synth_name i) (token_key (id_synth_id i)) False"

definition ack_name :: "link_slot \<Rightarrow> utext option" where
  "ack_name s = (case sl_synth s of
      Some a \<Rightarrow> if ha_synth_name a \<noteq> [] then Some (ha_synth_name a) else None
    | None \<Rightarrow> None)"

definition display_name :: "link_slot \<Rightarrow> utext" where
  "display_name s = (case ack_name s of
      Some n \<Rightarrow> n
    | None \<Rightarrow>
        if sl_stored_name s \<noteq> [] then sl_stored_name s
        else if sl_synth_id s = [] then
          (case sl_synth s of Some a \<Rightarrow> ha_synth_id a | None \<Rightarrow> sl_synth_id s)
        else sl_synth_id s)"

definition known_name :: "link_slot \<Rightarrow> utext option" where
  "known_name s = (case ack_name s of
      Some n \<Rightarrow> Some n
    | None \<Rightarrow> if sl_stored_name s \<noteq> [] then Some (sl_stored_name s) else None)"

definition slot_ws_url :: "link_slot \<Rightarrow> utext" where
  "slot_ws_url s = ws_url_of (sl_url s)"

record link_brief =
  lb_synth_id :: utext
  lb_synth_name :: "utext option"
  lb_synth_url :: utext
  lb_synth_version :: "utext option"
  lb_state :: link_state
  lb_source :: link_source
  lb_detail :: utext
  lb_hub_id :: "utext option"

definition slot_brief :: "bool \<Rightarrow> link_slot \<Rightarrow> link_brief" where
  "slot_brief paused s =
     \<lparr>lb_synth_id =
        (if sl_synth_id s = [] then (case sl_synth s of Some a \<Rightarrow> ha_synth_id a | None \<Rightarrow> [])
         else sl_synth_id s),
      lb_synth_name = known_name s,
      lb_synth_url = sl_url s,
      lb_synth_version =
        (case sl_synth s of
           Some a \<Rightarrow> if ha_synth_version a \<noteq> [] then Some (ha_synth_version a) else None
         | None \<Rightarrow> None),
      lb_state = (if paused \<and> sl_state s \<noteq> NeedsRepair then Paused else sl_state s),
      lb_source = sl_source s,
      lb_detail = sl_detail s,
      lb_hub_id = (if sl_hub_id s \<noteq> [] then Some (sl_hub_id s) else None)\<rparr>"

section \<open>Reading the state\<close>

definition slot_at :: "shared \<Rightarrow> slot_ref \<Rightarrow> link_slot" where
  "slot_at sh r = sh_slots sh ! r"

definition link_slots :: "shared \<Rightarrow> link_slot list" where
  "link_slots sh = map (slot_at sh) (sh_links sh)"

definition is_paired :: "shared \<Rightarrow> bool" where
  "is_paired sh \<longleftrightarrow> list_ex (\<lambda>s. \<not> sl_adhoc s) (link_slots sh)"

definition has_synth :: "shared \<Rightarrow> bool" where
  "has_synth sh \<longleftrightarrow> list_ex (\<lambda>s. \<not> sl_adhoc s \<or> sl_synth s \<noteq> None) (link_slots sh)"

definition find_link :: "utext \<Rightarrow> shared \<Rightarrow> slot_ref option" where
  "find_link synth sh = find (\<lambda>r. sl_synth_id (slot_at sh r) = synth) (sh_links sh)"

text \<open>\<open>peer\<close> is the link a piece of work came in on (the task-local \<open>PEER\<close>).\<close>

definition current_slot :: "slot_ref option \<Rightarrow> shared \<Rightarrow> slot_ref option" where
  "current_slot peer sh = (case peer of
      Some r \<Rightarrow> Some r
    | None \<Rightarrow> (case sh_links sh of [r] \<Rightarrow> Some r | _ \<Rightarrow> None))"

definition current_synth_id :: "slot_ref option \<Rightarrow> shared \<Rightarrow> utext" where
  "current_synth_id peer sh = (case current_slot peer sh of
      Some r \<Rightarrow> sl_synth_id (slot_at sh r) | None \<Rightarrow> [])"

definition sh_settings :: "shared \<Rightarrow> settings" where
  "sh_settings sh = p_settings (sh_persisted sh)"

definition slot_token :: "slot_ref \<Rightarrow> shared \<Rightarrow> utext option" where
  "slot_token r sh = token_of fs_get (sl_token_key (slot_at sh r)) (sl_legacy_token (slot_at sh r)) (sh_secret sh)"

text \<open>A check of a grant also drops what has expired.\<close>

definition sh_grant_allows :: "unix_time \<Rightarrow> slot_ref option \<Rightarrow> utext \<Rightarrow> utext \<Rightarrow> shared \<Rightarrow> bool \<times> shared" where
  "sh_grant_allows now peer cap sc sh =
     (let (ok, g) = grant_allows now (current_synth_id peer sh) cap sc (sh_grants sh)
      in (ok, sh\<lparr>sh_grants := g\<rparr>))"

section \<open>Small state changes\<close>

definition emit :: "core_event \<Rightarrow> shared \<Rightarrow> shared" where
  "emit e sh = sh\<lparr>sh_events := sh_events sh @ [e]\<rparr>"

definition upd_slot :: "slot_ref \<Rightarrow> (link_slot \<Rightarrow> link_slot) \<Rightarrow> shared \<Rightarrow> shared" where
  "upd_slot r f sh = sh\<lparr>sh_slots := (sh_slots sh)[r := f (sh_slots sh ! r)]\<rparr>"

definition set_persisted :: "persisted \<Rightarrow> shared \<Rightarrow> shared" where
  "set_persisted p sh = sh\<lparr>sh_persisted := p\<rparr>"

definition save_locked :: "shared \<Rightarrow> shared" where
  "save_locked sh = (if sh_path sh then sh\<lparr>sh_saves := sh_saves sh @ [sh_persisted sh]\<rparr> else sh)"

definition sh_store_limits :: "utext \<Rightarrow> limits option \<Rightarrow> shared \<Rightarrow> shared" where
  "sh_store_limits synth l sh =
     (let (m, changed) = store_limits synth l (sh_limits sh);
          sh1 = sh\<lparr>sh_limits := m\<rparr>
      in if changed then emit (EvLimits synth) sh1 else sh1)"

definition set_slot_state :: "slot_ref \<Rightarrow> link_state \<Rightarrow> utext \<Rightarrow> shared \<Rightarrow> shared" where
  "set_slot_state r st detail sh =
     (let sh1 = upd_slot r (\<lambda>s. s\<lparr>sl_state := st, sl_detail := detail\<rparr>) sh;
          synth = sl_synth_id (slot_at sh r);
          sh2 = (if st \<noteq> Linked then sh_store_limits synth None sh1 else sh1)
      in emit (EvLink synth st detail) sh2)"

fun rename_identity :: "utext \<Rightarrow> utext \<Rightarrow> identity list \<Rightarrow> identity list \<times> bool" where
  \<comment> \<open>the first identity of the synth, and whether its name changed\<close>
  "rename_identity synth name [] = ([], False)"
| "rename_identity synth name (i # is) =
     (if id_synth_id i = synth then
        (if id_synth_name i \<noteq> name then (i\<lparr>id_synth_name := name\<rparr> # is, True) else (i # is, False))
      else (let (js, ch) = rename_identity synth name is in (i # js, ch)))"

definition set_synth :: "slot_ref \<Rightarrow> hello_ack \<Rightarrow> shared \<Rightarrow> shared" where
  "set_synth r ack sh =
     (let name = ha_synth_name ack;
          sh1 = upd_slot r (\<lambda>s. s\<lparr>sl_synth := Some ack\<rparr>) sh
      in if name = [] \<or> sl_adhoc (slot_at sh r) then sh1
         else
           (let sh2 = upd_slot r (\<lambda>s. s\<lparr>sl_stored_name := name\<rparr>) sh1;
                (ids, ch) = rename_identity (sl_synth_id (slot_at sh r)) name (p_identities (sh_persisted sh2))
            in if ch then save_locked (set_persisted ((sh_persisted sh2)\<lparr>p_identities := ids\<rparr>) sh2)
               else sh2))"

definition sh_record :: "slot_ref option \<Rightarrow> entry \<Rightarrow> shared \<Rightarrow> shared" where
  \<comment> \<open>a line of the journal, for the link the work came in on\<close>
  "sh_record peer e sh =
     sh\<lparr>sh_journal := record_entry
          (map_option (\<lambda>r. display_name (slot_at sh r)) peer) e (sh_journal sh)\<rparr>"

section \<open>Lemmas\<close>

named_theorems core_simps \<open>what each state change leaves alone\<close>

lemma length_upd_slot [core_simps, simp]: "length (sh_slots (upd_slot r f sh)) = length (sh_slots sh)"
  by (simp add: upd_slot_def)

lemma slot_at_upd:
  "slot_at (upd_slot r f sh) r' = (if r' = r \<and> r < length (sh_slots sh) then f (slot_at sh r) else slot_at sh r')"
  by (cases "r < length (sh_slots sh)") (simp_all add: slot_at_def upd_slot_def nth_list_update list_update_beyond)

lemma upd_slot_keeps [core_simps, simp]:
  "sh_persisted (upd_slot r f sh) = sh_persisted sh" "sh_path (upd_slot r f sh) = sh_path sh"
  "sh_saves (upd_slot r f sh) = sh_saves sh" "sh_grants (upd_slot r f sh) = sh_grants sh"
  "sh_journal (upd_slot r f sh) = sh_journal sh" "sh_secret (upd_slot r f sh) = sh_secret sh"
  "sh_paused (upd_slot r f sh) = sh_paused sh" "sh_metered (upd_slot r f sh) = sh_metered sh"
  "sh_streams_open (upd_slot r f sh) = sh_streams_open sh" "sh_backoff (upd_slot r f sh) = sh_backoff sh"
  "sh_daemon (upd_slot r f sh) = sh_daemon sh" "sh_daemon_bin (upd_slot r f sh) = sh_daemon_bin sh"
  "sh_cua_sessions (upd_slot r f sh) = sh_cua_sessions sh" "sh_directory (upd_slot r f sh) = sh_directory sh"
  "sh_task (upd_slot r f sh) = sh_task sh" "sh_counters (upd_slot r f sh) = sh_counters sh"
  "sh_links (upd_slot r f sh) = sh_links sh" "sh_pending (upd_slot r f sh) = sh_pending sh"
  "sh_lease (upd_slot r f sh) = sh_lease sh" "sh_events (upd_slot r f sh) = sh_events sh"
  "sh_settings_tx (upd_slot r f sh) = sh_settings_tx sh" "sh_control_tx (upd_slot r f sh) = sh_control_tx sh"
  "sh_limits (upd_slot r f sh) = sh_limits sh" "sh_agent_cursor (upd_slot r f sh) = sh_agent_cursor sh"
  "sh_shell_stops (upd_slot r f sh) = sh_shell_stops sh"
  "sh_hub (upd_slot r f sh) = sh_hub sh"
  "sh_transfers (upd_slot r f sh) = sh_transfers sh"
  "sh_extension_first (upd_slot r f sh) = sh_extension_first sh"
  "sh_notified (upd_slot r f sh) = sh_notified sh" "sh_sessions (upd_slot r f sh) = sh_sessions sh"
  "sh_asked (upd_slot r f sh) = sh_asked sh"
  by (simp_all add: upd_slot_def)

lemma emit_keeps [core_simps, simp]:
  "sh_persisted (emit e sh) = sh_persisted sh" "sh_path (emit e sh) = sh_path sh"
  "sh_saves (emit e sh) = sh_saves sh" "sh_grants (emit e sh) = sh_grants sh"
  "sh_journal (emit e sh) = sh_journal sh" "sh_secret (emit e sh) = sh_secret sh"
  "sh_paused (emit e sh) = sh_paused sh" "sh_metered (emit e sh) = sh_metered sh"
  "sh_streams_open (emit e sh) = sh_streams_open sh" "sh_backoff (emit e sh) = sh_backoff sh"
  "sh_daemon (emit e sh) = sh_daemon sh" "sh_daemon_bin (emit e sh) = sh_daemon_bin sh"
  "sh_cua_sessions (emit e sh) = sh_cua_sessions sh" "sh_directory (emit e sh) = sh_directory sh"
  "sh_task (emit e sh) = sh_task sh" "sh_counters (emit e sh) = sh_counters sh"
  "sh_slots (emit e sh) = sh_slots sh" "sh_links (emit e sh) = sh_links sh"
  "sh_pending (emit e sh) = sh_pending sh" "sh_lease (emit e sh) = sh_lease sh"
  "sh_settings_tx (emit e sh) = sh_settings_tx sh" "sh_control_tx (emit e sh) = sh_control_tx sh"
  "sh_limits (emit e sh) = sh_limits sh" "sh_agent_cursor (emit e sh) = sh_agent_cursor sh"
  "sh_shell_stops (emit e sh) = sh_shell_stops sh"
  "sh_hub (emit e sh) = sh_hub sh"
  "sh_transfers (emit e sh) = sh_transfers sh"
  "sh_extension_first (emit e sh) = sh_extension_first sh"
  "sh_notified (emit e sh) = sh_notified sh" "sh_sessions (emit e sh) = sh_sessions sh"
  "sh_asked (emit e sh) = sh_asked sh" "slot_at (emit e sh) = slot_at sh"
  by (simp_all add: emit_def slot_at_def fun_eq_iff)

lemma save_locked_keeps [core_simps, simp]:
  "sh_persisted (save_locked sh) = sh_persisted sh" "sh_path (save_locked sh) = sh_path sh"
  "sh_grants (save_locked sh) = sh_grants sh" "sh_journal (save_locked sh) = sh_journal sh"
  "sh_secret (save_locked sh) = sh_secret sh" "sh_paused (save_locked sh) = sh_paused sh"
  "sh_metered (save_locked sh) = sh_metered sh" "sh_streams_open (save_locked sh) = sh_streams_open sh"
  "sh_backoff (save_locked sh) = sh_backoff sh" "sh_daemon (save_locked sh) = sh_daemon sh"
  "sh_daemon_bin (save_locked sh) = sh_daemon_bin sh" "sh_cua_sessions (save_locked sh) = sh_cua_sessions sh"
  "sh_directory (save_locked sh) = sh_directory sh" "sh_task (save_locked sh) = sh_task sh"
  "sh_counters (save_locked sh) = sh_counters sh" "sh_slots (save_locked sh) = sh_slots sh"
  "sh_links (save_locked sh) = sh_links sh" "sh_pending (save_locked sh) = sh_pending sh"
  "sh_lease (save_locked sh) = sh_lease sh" "sh_events (save_locked sh) = sh_events sh"
  "sh_settings_tx (save_locked sh) = sh_settings_tx sh" "sh_control_tx (save_locked sh) = sh_control_tx sh"
  "sh_limits (save_locked sh) = sh_limits sh" "sh_agent_cursor (save_locked sh) = sh_agent_cursor sh"
  "sh_shell_stops (save_locked sh) = sh_shell_stops sh"
  "sh_hub (save_locked sh) = sh_hub sh"
  "sh_transfers (save_locked sh) = sh_transfers sh"
  "sh_extension_first (save_locked sh) = sh_extension_first sh"
  "sh_notified (save_locked sh) = sh_notified sh" "sh_sessions (save_locked sh) = sh_sessions sh"
  "sh_asked (save_locked sh) = sh_asked sh" "slot_at (save_locked sh) = slot_at sh"
  by (simp_all add: save_locked_def slot_at_def fun_eq_iff)

lemma set_persisted_keeps [core_simps, simp]:
  "sh_path (set_persisted p sh) = sh_path sh" "sh_saves (set_persisted p sh) = sh_saves sh"
  "sh_grants (set_persisted p sh) = sh_grants sh" "sh_journal (set_persisted p sh) = sh_journal sh"
  "sh_secret (set_persisted p sh) = sh_secret sh" "sh_paused (set_persisted p sh) = sh_paused sh"
  "sh_metered (set_persisted p sh) = sh_metered sh"
  "sh_streams_open (set_persisted p sh) = sh_streams_open sh"
  "sh_backoff (set_persisted p sh) = sh_backoff sh" "sh_daemon (set_persisted p sh) = sh_daemon sh"
  "sh_daemon_bin (set_persisted p sh) = sh_daemon_bin sh"
  "sh_cua_sessions (set_persisted p sh) = sh_cua_sessions sh"
  "sh_directory (set_persisted p sh) = sh_directory sh" "sh_task (set_persisted p sh) = sh_task sh"
  "sh_counters (set_persisted p sh) = sh_counters sh" "sh_slots (set_persisted p sh) = sh_slots sh"
  "sh_links (set_persisted p sh) = sh_links sh" "sh_pending (set_persisted p sh) = sh_pending sh"
  "sh_lease (set_persisted p sh) = sh_lease sh" "sh_events (set_persisted p sh) = sh_events sh"
  "sh_settings_tx (set_persisted p sh) = sh_settings_tx sh"
  "sh_control_tx (set_persisted p sh) = sh_control_tx sh" "sh_limits (set_persisted p sh) = sh_limits sh"
  "sh_agent_cursor (set_persisted p sh) = sh_agent_cursor sh"
  "sh_shell_stops (set_persisted p sh) = sh_shell_stops sh"
  "sh_hub (set_persisted p sh) = sh_hub sh"
  "sh_transfers (set_persisted p sh) = sh_transfers sh"
  "sh_extension_first (set_persisted p sh) = sh_extension_first sh"
  "sh_notified (set_persisted p sh) = sh_notified sh"
  "sh_sessions (set_persisted p sh) = sh_sessions sh" "sh_asked (set_persisted p sh) = sh_asked sh"
  "sh_persisted (set_persisted p sh) = p" "slot_at (set_persisted p sh) = slot_at sh"
  by (simp_all add: set_persisted_def slot_at_def fun_eq_iff)

lemma store_limits_keeps [core_simps, simp]:
  "sh_persisted (sh_store_limits synth l sh) = sh_persisted sh"
  "sh_path (sh_store_limits synth l sh) = sh_path sh" "sh_saves (sh_store_limits synth l sh) = sh_saves sh"
  "sh_grants (sh_store_limits synth l sh) = sh_grants sh"
  "sh_journal (sh_store_limits synth l sh) = sh_journal sh"
  "sh_secret (sh_store_limits synth l sh) = sh_secret sh"
  "sh_paused (sh_store_limits synth l sh) = sh_paused sh"
  "sh_metered (sh_store_limits synth l sh) = sh_metered sh"
  "sh_streams_open (sh_store_limits synth l sh) = sh_streams_open sh"
  "sh_backoff (sh_store_limits synth l sh) = sh_backoff sh"
  "sh_daemon (sh_store_limits synth l sh) = sh_daemon sh"
  "sh_daemon_bin (sh_store_limits synth l sh) = sh_daemon_bin sh"
  "sh_cua_sessions (sh_store_limits synth l sh) = sh_cua_sessions sh"
  "sh_directory (sh_store_limits synth l sh) = sh_directory sh"
  "sh_task (sh_store_limits synth l sh) = sh_task sh"
  "sh_counters (sh_store_limits synth l sh) = sh_counters sh"
  "sh_slots (sh_store_limits synth l sh) = sh_slots sh" "sh_links (sh_store_limits synth l sh) = sh_links sh"
  "sh_pending (sh_store_limits synth l sh) = sh_pending sh"
  "sh_lease (sh_store_limits synth l sh) = sh_lease sh"
  "sh_settings_tx (sh_store_limits synth l sh) = sh_settings_tx sh"
  "sh_control_tx (sh_store_limits synth l sh) = sh_control_tx sh"
  "sh_agent_cursor (sh_store_limits synth l sh) = sh_agent_cursor sh"
  "sh_shell_stops (sh_store_limits synth l sh) = sh_shell_stops sh"
  "sh_hub (sh_store_limits synth l sh) = sh_hub sh"
  "sh_transfers (sh_store_limits synth l sh) = sh_transfers sh"
  "sh_extension_first (sh_store_limits synth l sh) = sh_extension_first sh"
  "sh_notified (sh_store_limits synth l sh) = sh_notified sh"
  "sh_sessions (sh_store_limits synth l sh) = sh_sessions sh"
  "sh_asked (sh_store_limits synth l sh) = sh_asked sh" "slot_at (sh_store_limits synth l sh) = slot_at sh"
  by (simp_all add: sh_store_limits_def slot_at_def fun_eq_iff Let_def split: prod.split)

lemma set_slot_state_keeps [core_simps, simp]:
  "sh_persisted (set_slot_state r st d sh) = sh_persisted sh"
  "sh_path (set_slot_state r st d sh) = sh_path sh" "sh_saves (set_slot_state r st d sh) = sh_saves sh"
  "sh_grants (set_slot_state r st d sh) = sh_grants sh"
  "sh_journal (set_slot_state r st d sh) = sh_journal sh"
  "sh_secret (set_slot_state r st d sh) = sh_secret sh" "sh_paused (set_slot_state r st d sh) = sh_paused sh"
  "sh_metered (set_slot_state r st d sh) = sh_metered sh"
  "sh_streams_open (set_slot_state r st d sh) = sh_streams_open sh"
  "sh_backoff (set_slot_state r st d sh) = sh_backoff sh"
  "sh_daemon (set_slot_state r st d sh) = sh_daemon sh"
  "sh_daemon_bin (set_slot_state r st d sh) = sh_daemon_bin sh"
  "sh_cua_sessions (set_slot_state r st d sh) = sh_cua_sessions sh"
  "sh_directory (set_slot_state r st d sh) = sh_directory sh"
  "sh_task (set_slot_state r st d sh) = sh_task sh" "sh_counters (set_slot_state r st d sh) = sh_counters sh"
  "sh_links (set_slot_state r st d sh) = sh_links sh" "sh_pending (set_slot_state r st d sh) = sh_pending sh"
  "sh_lease (set_slot_state r st d sh) = sh_lease sh"
  "sh_settings_tx (set_slot_state r st d sh) = sh_settings_tx sh"
  "sh_control_tx (set_slot_state r st d sh) = sh_control_tx sh"
  "sh_agent_cursor (set_slot_state r st d sh) = sh_agent_cursor sh"
  "sh_shell_stops (set_slot_state r st d sh) = sh_shell_stops sh"
  "sh_hub (set_slot_state r st d sh) = sh_hub sh"
  "sh_transfers (set_slot_state r st d sh) = sh_transfers sh"
  "sh_extension_first (set_slot_state r st d sh) = sh_extension_first sh"
  "sh_notified (set_slot_state r st d sh) = sh_notified sh"
  "sh_sessions (set_slot_state r st d sh) = sh_sessions sh"
  "sh_asked (set_slot_state r st d sh) = sh_asked sh"
  "length (sh_slots (set_slot_state r st d sh)) = length (sh_slots sh)"
  by (simp_all add: set_slot_state_def Let_def)

lemma slot_at_set_state:
  "slot_at (set_slot_state r st d sh) r' =
     (if r' = r \<and> r < length (sh_slots sh) then (slot_at sh r)\<lparr>sl_state := st, sl_detail := d\<rparr> else slot_at sh r')"
  by (simp add: set_slot_state_def Let_def slot_at_upd)

lemma record_keeps [core_simps, simp]:
  "sh_persisted (sh_record p e sh) = sh_persisted sh" "sh_path (sh_record p e sh) = sh_path sh"
  "sh_saves (sh_record p e sh) = sh_saves sh" "sh_grants (sh_record p e sh) = sh_grants sh"
  "sh_secret (sh_record p e sh) = sh_secret sh" "sh_paused (sh_record p e sh) = sh_paused sh"
  "sh_metered (sh_record p e sh) = sh_metered sh" "sh_streams_open (sh_record p e sh) = sh_streams_open sh"
  "sh_backoff (sh_record p e sh) = sh_backoff sh" "sh_daemon (sh_record p e sh) = sh_daemon sh"
  "sh_daemon_bin (sh_record p e sh) = sh_daemon_bin sh"
  "sh_cua_sessions (sh_record p e sh) = sh_cua_sessions sh"
  "sh_directory (sh_record p e sh) = sh_directory sh" "sh_task (sh_record p e sh) = sh_task sh"
  "sh_counters (sh_record p e sh) = sh_counters sh" "sh_slots (sh_record p e sh) = sh_slots sh"
  "sh_links (sh_record p e sh) = sh_links sh" "sh_pending (sh_record p e sh) = sh_pending sh"
  "sh_lease (sh_record p e sh) = sh_lease sh" "sh_events (sh_record p e sh) = sh_events sh"
  "sh_settings_tx (sh_record p e sh) = sh_settings_tx sh"
  "sh_control_tx (sh_record p e sh) = sh_control_tx sh" "sh_limits (sh_record p e sh) = sh_limits sh"
  "sh_agent_cursor (sh_record p e sh) = sh_agent_cursor sh"
  "sh_shell_stops (sh_record p e sh) = sh_shell_stops sh"
  "sh_hub (sh_record p e sh) = sh_hub sh"
  "sh_transfers (sh_record p e sh) = sh_transfers sh"
  "sh_extension_first (sh_record p e sh) = sh_extension_first sh"
  "sh_notified (sh_record p e sh) = sh_notified sh" "sh_sessions (sh_record p e sh) = sh_sessions sh"
  "sh_asked (sh_record p e sh) = sh_asked sh" "slot_at (sh_record p e sh) = slot_at sh"
  by (simp_all add: sh_record_def slot_at_def fun_eq_iff)

text \<open>Once a link is not up, the limits of its synth are not shown.\<close>

lemma down_drops_limits:
  "st \<noteq> Linked \<Longrightarrow> sl_synth_id (slot_at sh r) \<noteq> [] \<Longrightarrow>
   sh_limits (set_slot_state r st d sh) (sl_synth_id (slot_at sh r)) = None"
  by (simp add: set_slot_state_def sh_store_limits_def store_limits_def emit_def Let_def upd_slot_def)

end
