(* ===== verification/Computer_Lease.thy ===== *)
theory Computer_Lease
  imports Core_State
begin

text \<open>
  Computer control is held by one synth at a time (\<open>core.rs\<close>, \<open>LEASE_QUIET\<close>): the lease, its
  four operations, and the interface its client (the \<open>mcp\<close> pipe) relies on, the locale
  \<open>exclusive_control\<close>. Shown for any provider of the interface, and used for the model's
  own: in any run of actions and unlinkings, two actions in a row of different synths are
  a quiet minute apart.
\<close>

definition LEASE_QUIET :: instant where "LEASE_QUIET = seconds 60"

definition computer_driver :: "instant \<Rightarrow> shared \<Rightarrow> (utext \<times> utext) option" where
  "computer_driver now sh =
     (case sh_lease sh of
        None \<Rightarrow> None
      | Some l \<Rightarrow> if elapsed now (le_last l) < LEASE_QUIET then Some (le_synth_id l, le_name l) else None)"

definition lease_check :: "instant \<Rightarrow> utext \<Rightarrow> shared \<Rightarrow> (utext, unit) result" where
  "lease_check now synth sh =
     (case computer_driver now sh of
        Some (holder, name) \<Rightarrow> if holder \<noteq> synth then Err name else Ok ()
      | None \<Rightarrow> Ok ())"

definition lease_take :: "instant \<Rightarrow> utext \<Rightarrow> utext \<Rightarrow> shared \<Rightarrow> (utext, unit) result \<times> shared" where
  "lease_take now synth name sh =
     (let mine = sh\<lparr>sh_lease := Some \<lparr>le_synth_id = synth, le_name = name, le_last = now\<rparr>\<rparr>
      in case sh_lease sh of
           Some l \<Rightarrow>
             if le_synth_id l \<noteq> synth \<and> elapsed now (le_last l) < LEASE_QUIET
             then (Err (le_name l), sh) else (Ok (), mine)
         | None \<Rightarrow> (Ok (), mine))"

definition lease_release :: "utext \<Rightarrow> shared \<Rightarrow> shared" where
  "lease_release synth sh =
     (case sh_lease sh of
        Some l \<Rightarrow> if le_synth_id l = synth then sh\<lparr>sh_lease := None\<rparr> else sh
      | None \<Rightarrow> sh)"

section \<open>The interface\<close>

datatype control_step =
    Act instant utext utext   \<comment> \<open>an action of a synth (id, name) goes to the driver\<close>
  | Leave utext               \<comment> \<open>a synth is unlinked\<close>

datatype control_event = Did instant utext | Left utext

fun step_time :: "control_step \<Rightarrow> instant option" where
  "step_time (Act now _ _) = Some now"
| "step_time (Leave _) = None"

fun apart :: "instant \<Rightarrow> control_event \<Rightarrow> control_event \<Rightarrow> bool" where
  "apart quiet (Did t a) (Did u b) \<longleftrightarrow> a = b \<or> t + quiet \<le> u"
| "apart quiet _ _ \<longleftrightarrow> True"

text \<open>What happened: refused actions and unlinkings of a synth that did not drive leave no trace.\<close>

fun control_trace ::
  "(instant \<Rightarrow> utext \<Rightarrow> utext \<Rightarrow> 's \<Rightarrow> (utext, unit) result \<times> 's) \<Rightarrow> (utext \<Rightarrow> 's \<Rightarrow> 's) \<Rightarrow> ('s \<Rightarrow> utext option)
     \<Rightarrow> control_step list \<Rightarrow> 's \<Rightarrow> control_event list" where
  "control_trace takec leave holder [] st = []"
| "control_trace takec leave holder (Act now s n # steps) st =
     (case takec now s n st of
        (Ok _, st1) \<Rightarrow> Did now s # control_trace takec leave holder steps st1
      | (Err _, st1) \<Rightarrow> control_trace takec leave holder steps st1)"
| "control_trace takec leave holder (Leave s # steps) st =
     (if holder st = Some s then [Left s] else []) @ control_trace takec leave holder steps (leave s st)"

locale exclusive_control =
  fixes takec :: "instant \<Rightarrow> utext \<Rightarrow> utext \<Rightarrow> 's \<Rightarrow> (utext, unit) result \<times> 's"
    and leave :: "utext \<Rightarrow> 's \<Rightarrow> 's"
    and holder :: "'s \<Rightarrow> utext option"
    and last_act :: "'s \<Rightarrow> instant"
    and quiet :: instant
  assumes take_ok: "takec now s n st = (Ok u, st') \<Longrightarrow> holder st' = Some s \<and> last_act st' = now"
    and take_apart: "takec now s n st = (Ok u, st') \<Longrightarrow> holder st = Some h \<Longrightarrow> h \<noteq> s \<Longrightarrow> 0 < quiet \<Longrightarrow>
      last_act st + quiet \<le> now"
    and take_refused: "takec now s n st = (Err m, st') \<Longrightarrow> st' = st"
    and leave_holder: "holder st = Some s \<Longrightarrow> holder (leave s st) = None"
    and leave_other: "holder st \<noteq> Some s \<Longrightarrow> leave s st = st"
begin

lemma trace_after_holder:
  "0 < quiet \<Longrightarrow> holder st = Some h \<Longrightarrow>
   successively (apart quiet) (Did (last_act st) h # control_trace takec leave holder steps st)"
  and trace_free:
  "0 < quiet \<Longrightarrow> holder st = None \<Longrightarrow> successively (apart quiet) (control_trace takec leave holder steps st)"
proof (induction steps arbitrary: st h)
  case (Cons x steps)
  { case 1
    show ?case
    proof (cases x)
      case (Act now s n)
      obtain r st1 where t: "takec now s n st = (r, st1)" by fastforce
      show ?thesis
      proof (cases r)
        case (Inl e)
        then have "st1 = st" using take_refused [of now s n st e] t by simp
        then show ?thesis using Cons.IH(1) [of st h] 1 Act t Inl by simp
      next
        case (Inr u)
        with t have "apart quiet (Did (last_act st) h) (Did now s)"
          using take_apart [of now s n st u st1 h] 1 by auto
        moreover have "holder st1 = Some s" "last_act st1 = now" using take_ok t Inr by blast+
        ultimately show ?thesis using Cons.IH(1) [of st1 s] 1 Act t Inr by simp
      qed
    next
      case (Leave s)
      show ?thesis
      proof (cases "s = h")
        case True
        then have "holder (leave s st) = None" using leave_holder [of st s] 1 by simp
        moreover have "successively (apart quiet) (Left s # control_trace takec leave holder steps (leave s st))"
          using Cons.IH(2) [OF 1(1) \<open>holder (leave s st) = None\<close>]
          by (cases "control_trace takec leave holder steps (leave s st)") auto
        ultimately show ?thesis using 1 Leave True by simp
      next
        case False
        then show ?thesis using leave_other [of st s] Cons.IH(1) [of st h] 1 Leave by simp
      qed
    qed
  next
    case 2
    show ?case
    proof (cases x)
      case (Act now s n)
      obtain r st1 where t: "takec now s n st = (r, st1)" by fastforce
      show ?thesis
      proof (cases r)
        case (Inl e)
        then have "st1 = st" using take_refused [of now s n st e] t by simp
        then show ?thesis using Cons.IH(2) [of st] 2 Act t Inl by simp
      next
        case (Inr u)
        have "holder st1 = Some s" "last_act st1 = now" using take_ok t Inr by blast+
        then show ?thesis using Cons.IH(1) [of st1 s] 2 Act t Inr by simp
      qed
    next
      case (Leave s)
      then show ?thesis using leave_other [of st s] Cons.IH(2) [of st] 2 by simp
    qed
  }
qed simp_all

end

definition lease_holder :: "shared \<Rightarrow> utext option" where
  "lease_holder sh = map_option le_synth_id (sh_lease sh)"

definition lease_last :: "shared \<Rightarrow> instant" where
  "lease_last sh = (case sh_lease sh of None \<Rightarrow> 0 | Some l \<Rightarrow> le_last l)"

interpretation control: exclusive_control lease_take lease_release lease_holder lease_last LEASE_QUIET
  by unfold_locales
    (auto simp: lease_take_def lease_release_def lease_holder_def lease_last_def Let_def
      elapsed_def not_less split: option.splits if_splits)

lemma quiet_pos: "0 < LEASE_QUIET"
  by (simp add: LEASE_QUIET_def seconds_def)

section \<open>Properties\<close>

text \<open>
  C11: one synth drives the computer at a time. Whatever the order of the synths' actions
  and of unlinkings, two actions in a row of different synths are at least a minute apart,
  unless the one that drove was unlinked in between; a refused action changes nothing and
  names the synth that drives.
\<close>

theorem one_driver_at_a_time:
  "successively (apart (seconds 60)) (control_trace lease_take lease_release lease_holder steps sh) \<and>
   (case lease_take now synth name sh of
      (Err n, sh') \<Rightarrow> sh' = sh \<and> (\<exists>h. computer_driver now sh = Some (h, n) \<and> h \<noteq> synth)
    | (Ok _, sh') \<Rightarrow> computer_driver now sh' = Some (synth, name) \<and> lease_check now synth sh = Ok ())"
proof (intro conjI)
  show "successively (apart (seconds 60)) (control_trace lease_take lease_release lease_holder steps sh)"
  proof (cases "lease_holder sh")
    case None
    then show ?thesis using control.trace_free [OF quiet_pos] by (simp add: LEASE_QUIET_def)
  next
    case (Some h)
    have "successively (apart LEASE_QUIET)
        (Did (lease_last sh) h # control_trace lease_take lease_release lease_holder steps sh)"
      by (rule control.trace_after_holder [OF quiet_pos Some])
    then show ?thesis
      by (cases "control_trace lease_take lease_release lease_holder steps sh") (auto simp: LEASE_QUIET_def)
  qed
  show "case lease_take now synth name sh of
      (Err n, sh') \<Rightarrow> sh' = sh \<and> (\<exists>h. computer_driver now sh = Some (h, n) \<and> h \<noteq> synth)
    | (Ok _, sh') \<Rightarrow> computer_driver now sh' = Some (synth, name) \<and> lease_check now synth sh = Ok ()"
    using quiet_pos
    by (auto simp: lease_take_def lease_check_def computer_driver_def Let_def split: option.splits if_splits)
qed

end
