(* ===== verification/Core_Policy.thy ===== *)
theory Core_Policy
  imports Core_State Calendar_Time
begin

text \<open>
  The policy of \<open>core.rs\<close>: asking the owner (\<open>ask_scoped\<close>), the durable grants on disk, the
  traffic policy (\<open>net_allows\<close>) and its monthly count, the changes of the settings, pause
  and resume, the name of the running task, and \<open>tcp.rs\<close> \<open>handle\<close>, which composes the
  policy with the address policy. While the owner is asked, anything may happen to the
  state: a reply carries that change (\<open>meanwhile\<close>).
\<close>

section \<open>Names\<close>

record names =
  nm_is_ip :: "utext \<Rightarrow> bool"
  nm_domain :: "utext \<Rightarrow> utext option"  \<comment> \<open>\<open>psl::domain_str\<close>\<close>

definition registrable_domain :: "names \<Rightarrow> utext \<Rightarrow> utext" where
  "registrable_domain nm host =
     (let h = to_ascii_lowercase (unbracket host)
      in if nm_is_ip nm h then h
         else case nm_domain nm h of Some d \<Rightarrow> d | None \<Rightarrow> h)"

definition is_one_site :: "names \<Rightarrow> utext \<Rightarrow> bool" where
  "is_one_site nm d \<longleftrightarrow> nm_is_ip nm d \<or> nm_domain nm d = Some d"

definition clean_site :: "names \<Rightarrow> utext \<Rightarrow> utext option" where
  "clean_site nm raw =
     (let s = to_ascii_lowercase (trim raw)
      in if s \<noteq> [] \<and> utf8_len s \<le> 253 \<and> 46 \<in> set s \<and> \<not> starts_with [46] s \<and> \<not> ends_with [46] s \<and>
            list_all (\<lambda>c. 97 \<le> c \<and> c \<le> 122 \<or> is_ascii_digit c \<or> c = 45 \<or> c = 46) s \<and>
            \<not> nm_is_ip nm s \<and> nm_domain nm s = Some s
         then Some s else None)"

section \<open>Asking the owner\<close>

datatype reply =
    InTime "shared \<Rightarrow> shared" approval   \<comment> \<open>what happened meanwhile, and the answer\<close>
  | TooLate "shared \<Rightarrow> shared"            \<comment> \<open>no answer within \<open>APPROVAL_TIMEOUT\<close>\<close>

type_synonym owner = "approval_request \<Rightarrow> reply"

definition APPROVAL_TIMEOUT :: instant where "APPROVAL_TIMEOUT = seconds 55"

definition durable_grants :: "unix_time \<Rightarrow> shared \<Rightarrow> stored_grant list" where
  "durable_grants now sh =
     map (\<lambda>r. \<lparr>sg_synth_id = row_synth r, sg_capability = row_capability r,
               sg_scope = row_scope r, sg_until = row_until r\<rparr>)
       (filter (\<lambda>r. 0 \<le> row_until r) (grant_list now (sh_grants sh)))"

definition persist_grants :: "unix_time \<Rightarrow> shared \<Rightarrow> shared" where
  "persist_grants now sh =
     (let d = durable_grants now sh; p = sh_persisted sh
      in if p_grants p \<noteq> d then save_locked (set_persisted (p\<lparr>p_grants := d\<rparr>) sh) else sh)"

text \<open>The question of one ask, and what its answer does, whenever it comes.\<close>

record open_ask =
  oa_synth :: utext
  oa_capability :: utext
  oa_scope :: utext
  oa_remember :: remember

definition ask_question :: "slot_ref option \<Rightarrow> approval_request \<Rightarrow> shared \<Rightarrow> approval_request" where
  "ask_question peer req sh =
     (if rq_synth req = None
      then req\<lparr>rq_synth := map_option (\<lambda>r. display_name (slot_at sh r)) (current_slot peer sh)\<rparr>
      else req)"

definition open_the_ask :: "slot_ref option \<Rightarrow> utext \<Rightarrow> utext \<Rightarrow> approval_request \<Rightarrow> shared \<Rightarrow> open_ask" where
  "open_the_ask peer cap sc req sh =
     \<lparr>oa_synth = current_synth_id peer sh, oa_capability = cap, oa_scope = sc,
      oa_remember = rq_remember req\<rparr>"

definition answer_ask :: "unix_time \<Rightarrow> open_ask \<Rightarrow> approval \<Rightarrow> shared \<Rightarrow> approval \<times> shared" where
  "answer_ask now ak answer sh =
     (let a = (if allow answer \<and> \<not> remember_allows (oa_remember ak) (lasts answer)
               then answer\<lparr>lasts := Once\<rparr> else answer);
          sh1 = sh\<lparr>sh_grants := record_grant (oa_synth ak) (oa_capability ak) (oa_scope ak) a (sh_grants sh)\<rparr>
      in (a, persist_grants now sh1))"

definition ask_scoped ::
  "owner \<Rightarrow> unix_time \<Rightarrow> slot_ref option \<Rightarrow> utext \<Rightarrow> utext \<Rightarrow> approval_request \<Rightarrow> shared \<Rightarrow> approval \<times> shared" where
  \<comment> \<open>an answer that comes too late is an \<open>answer_ask\<close> of its own, later\<close>
  "ask_scoped owner now peer cap sc req sh =
     (let q = ask_question peer req sh;
          ak = open_the_ask peer cap sc req sh;
          sh1 = sh\<lparr>sh_asked := sh_asked sh @ [q]\<rparr>
      in case owner q of
           InTime meanwhile answer \<Rightarrow> answer_ask now ak answer (meanwhile sh1)
         | TooLate meanwhile \<Rightarrow> (approval_deny, meanwhile sh1))"

section \<open>Traffic\<close>

definition EGRESS_FLUSH_EVERY :: instant where "EGRESS_FLUSH_EVERY = seconds 30"
definition EGRESS_FLUSH_BYTES :: nat where "EGRESS_FLUSH_BYTES = 4 * 1024 * 1024"

definition flush_egress :: "instant \<Rightarrow> shared \<Rightarrow> shared" where
  "flush_egress now sh =
     (let c = (sh_counters sh)\<lparr>ct_unsaved := 0, ct_last_flush := now\<rparr>;
          sh1 = sh\<lparr>sh_counters := c\<rparr>; p = sh_persisted sh1
      in if p_egress_month p \<noteq> ct_month c \<or> p_egress_bytes p \<noteq> ct_bytes c
         then save_locked (set_persisted (p\<lparr>p_egress_month := ct_month c, p_egress_bytes := ct_bytes c\<rparr>) sh1)
         else sh1)"

definition add_egress :: "instant \<Rightarrow> unix_time \<Rightarrow> nat \<Rightarrow> shared \<Rightarrow> shared" where
  "add_egress now wall n sh =
     (let c0 = sh_counters sh; m = month_key wall;
          c1 = (if ct_month c0 \<noteq> m then c0\<lparr>ct_month := m, ct_bytes := 0\<rparr> else c0);
          c2 = c1\<lparr>ct_bytes := sat_add64 (ct_bytes c1) n, ct_unsaved := sat_add64 (ct_unsaved c1) n\<rparr>;
          sh1 = sh\<lparr>sh_counters := c2\<rparr>
      in if EGRESS_FLUSH_BYTES \<le> ct_unsaved c2 \<or> EGRESS_FLUSH_EVERY \<le> elapsed now (ct_last_flush c2)
         then flush_egress now sh1 else sh1)"

definition net_request :: "utext \<Rightarrow> utext \<Rightarrow> approval_request" where
  "net_request domain reason = new_request (lit ''net'') domain reason
     (lit ''let the synth reach '' @ domain @ lit '' through this computer'')"

definition net_ask ::
  "owner \<Rightarrow> unix_time \<Rightarrow> slot_ref option \<Rightarrow> utext \<Rightarrow> utext \<Rightarrow> shared \<Rightarrow> (refusal, unit) result \<times> shared" where
  "net_ask owner now peer domain reason sh =
     (let (known, sh1) = sh_grant_allows now peer (lit ''net'') domain sh
      in if known then (Ok (), sh1)
         else
           (let (a, sh2) = ask_scoped owner now peer (lit ''net'') domain (net_request domain reason) sh1
            in if allow a then (Ok (), sh2)
               else (Err (Denied (lit ''the owner did not allow traffic to '' @ domain)), sh2)))"

definition net_allows ::
  "names \<Rightarrow> owner \<Rightarrow> unix_time \<Rightarrow> slot_ref option \<Rightarrow> utext \<Rightarrow> utext \<Rightarrow> shared \<Rightarrow> (refusal, unit) result \<times> shared" where
  "net_allows nm owner now peer host reason sh =
     (let s = st_net (sh_settings sh)
      in if sh_paused sh then (Err (Denied (lit ''net is paused by the owner'')), sh)
         else if \<not> n_enabled s then (Err (Denied (lit ''net is turned off on this computer'')), sh)
         else if n_skip_on_metered s \<and> sh_metered sh then (Err (Denied (lit ''the connection is metered'')), sh)
         else if 0 < n_monthly_cap_bytes s \<and> n_monthly_cap_bytes s \<le> ct_bytes (sh_counters sh)
         then (Err (Denied (lit ''the monthly traffic cap is reached'')), sh)
         else
           (let domain = registrable_domain nm host
            in case n_mode s of
                 NetAll \<Rightarrow> (Ok (), sh)
               | NetList \<Rightarrow>
                   (if domain \<in> set (n_domains s) then (Ok (), sh)
                    else (Err (Denied (domain @ lit '' is not on the allowed list'')), sh))
               | NetAsk \<Rightarrow>
                   (if domain \<in> set (n_domains s) then (Ok (), sh)
                    else net_ask owner now peer domain reason sh)))"

section \<open>A \<open>tcp\<close> stream\<close>

datatype pumped =
    PumpEnded nat nat          \<comment> \<open>bytes up and down\<close>
  | PumpFailed utext nat nat
  | PumpCut nat nat            \<comment> \<open>the task was aborted: a pause, or the link dropped\<close>

record dial_world =
  dw_net :: net_env
  dw_in_budget :: bool         \<comment> \<open>resolve and dial took less than \<open>CONNECT_BUDGET\<close>\<close>
  dw_reply_sent :: bool
  dw_pump :: pumped

definition net_entry :: "unix_time \<Rightarrow> utext \<Rightarrow> utext \<Rightarrow> entry" where
  "net_entry now tgt outcome = new_entry now (lit ''net'') (lit ''dial'') tgt outcome"

definition tcp_handle ::
  "names \<Rightarrow> owner \<Rightarrow> dial_world \<Rightarrow> instant \<Rightarrow> unix_time \<Rightarrow> slot_ref option \<Rightarrow> utext \<Rightarrow> nat \<Rightarrow> utext \<Rightarrow> shared
     \<Rightarrow> (refusal, ipaddr) result \<times> ipaddr list \<times> shared" where
  \<comment> \<open>the reply to the synth, the addresses dialed, the state\<close>
  "tcp_handle nm owner w now wall peer host port reason sh =
     (let tgt = host @ 58 # digits port
      in case net_allows nm owner wall peer host reason sh of
           (Err why, sh1) \<Rightarrow> (Err why, [], sh_record peer (net_entry wall tgt (refusal_text why)) sh1)
         | (Ok _, sh1) \<Rightarrow>
             (let (r, dialed) = connect (dw_net w) host port (n_allow_local_network (st_net (sh_settings sh1)));
                  late = Failed (lit ''dial failed: '' @ tgt @ lit '' did not connect within 20 s'');
                  r' = (if dw_in_budget w then r else Err late)
              in case r' of
                   Err why \<Rightarrow> (Err why, dialed, sh_record peer (net_entry wall tgt (refusal_text why)) sh1)
                 | Ok ip \<Rightarrow>
                     if \<not> dw_reply_sent w then (Ok ip, dialed, sh1)
                     else (Ok ip, dialed, (case dw_pump w of
                         PumpEnded up down \<Rightarrow>
                           sh_record peer (with_bytes (up + down) (net_entry wall tgt (lit ''ok'')))
                             (add_egress now wall (up + down) sh1)
                       | PumpFailed e up down \<Rightarrow>
                           sh_record peer (with_bytes (up + down) (net_entry wall tgt (lit ''aborted: '' @ e)))
                             (add_egress now wall (up + down) sh1)
                       | PumpCut up down \<Rightarrow> sh1))))"

section \<open>Changing the settings\<close>

definition same_but_look :: "settings \<Rightarrow> settings \<Rightarrow> bool" where
  "same_but_look before after \<longleftrightarrow>
     after\<lparr>st_computer := (st_computer after)\<lparr>c_look := c_look (st_computer before)\<rparr>\<rparr> = before"

definition shell_stop_all :: "shared \<Rightarrow> shared" where
  "shell_stop_all sh = sh\<lparr>sh_shell_stops := sh_shell_stops sh + 1\<rparr>"

definition mutate_settings :: "(settings \<Rightarrow> settings) \<Rightarrow> shared \<Rightarrow> nat \<times> shared" where
  "mutate_settings f sh =
     (let p = sh_persisted sh;
          before = p_settings p;
          after = f before;
          look_only = (after \<noteq> before \<and> same_but_look before after);
          rev = (if look_only then p_rev p else p_rev p + 1);
          sh1 = save_locked (set_persisted (p\<lparr>p_settings := after, p_rev := rev\<rparr>) sh);
          sh2 = (if look_only then sh1 else sh1\<lparr>sh_settings_tx := rev\<rparr>);
          sh3 = (if s_enabled (st_shell (sh_settings sh2)) then sh2 else shell_stop_all sh2)
      in (rev, emit (EvSettings rev) sh3))"

definition preset_kept :: "preset \<Rightarrow> settings \<Rightarrow> settings" where
  "preset_kept pr s =
     (let n = from_preset pr (f_roots (st_files s)); c = st_computer s
      in n\<lparr>st_computer := (st_computer n)\<lparr>c_look := c_look c, c_apps := c_apps c,
             c_experiment := c_experiment c, c_locked_use := c_locked_use c,
             c_keep_awake := c_keep_awake c\<rparr>,
           st_shell := (st_shell n)\<lparr>s_mode := s_mode (st_shell s)\<rparr>\<rparr>)"

definition apply_preset :: "preset \<Rightarrow> shared \<Rightarrow> nat \<times> shared" where
  "apply_preset pr sh = mutate_settings (preset_kept pr) sh"

definition add_root :: "utext \<Rightarrow> bool \<Rightarrow> shared \<Rightarrow> nat \<times> shared" where
  "add_root path write sh = mutate_settings (\<lambda>s.
     s\<lparr>st_files := (st_files s)\<lparr>f_roots :=
          filter (\<lambda>r. r_path r \<noteq> path) (f_roots (st_files s)) @ [\<lparr>r_path = path, r_write = write\<rparr>],
         f_enabled := True\<rparr>, st_preset := Custom\<rparr>) sh"

definition remove_root :: "utext \<Rightarrow> shared \<Rightarrow> nat \<times> shared" where
  "remove_root path sh = mutate_settings (\<lambda>s.
     s\<lparr>st_files := (st_files s)\<lparr>f_roots := filter (\<lambda>r. r_path r \<noteq> path) (f_roots (st_files s))\<rparr>,
       st_preset := Custom\<rparr>) sh"

definition set_island :: "bool \<Rightarrow> (island_settings \<Rightarrow> island_settings) \<Rightarrow> shared \<Rightarrow> island_settings \<times> shared" where
  "set_island macos f sh =
     (let p = sh_persisted sh;
          now = normalize_island macos (f (p_island p));
          told = (is_enabled now \<noteq> is_enabled (p_island p));
          rev = (if told then p_rev p + 1 else p_rev p);
          sh1 = save_locked (set_persisted (p\<lparr>p_island := now, p_rev := rev\<rparr>) sh);
          sh2 = (if told then sh1\<lparr>sh_settings_tx := rev\<rparr> else sh1)
      in (now, emit (EvSettings rev) sh2))"

section \<open>Pause\<close>

definition bump_control :: "shared \<Rightarrow> shared" where
  "bump_control sh = sh\<lparr>sh_control_tx := (sh_control_tx sh + 1) mod 2 ^ 64\<rparr>"

definition clear_task :: "shared \<Rightarrow> shared" where
  "clear_task sh = (if sh_task sh = None then sh else emit EvComputerTask (sh\<lparr>sh_task := None\<rparr>))"

definition daemon_gone :: "shared \<Rightarrow> shared" where
  "daemon_gone sh = sh\<lparr>sh_daemon_bin := None\<rparr>"

definition stop_cua :: "shared \<Rightarrow> shared" where
  "stop_cua sh =
     (let sh1 = daemon_gone (sh\<lparr>sh_daemon := None\<rparr>)
      in clear_task (sh1\<lparr>sh_directory := dir_stop (sh_directory sh1)\<rparr>))"

definition pause :: "shared \<Rightarrow> shared" where
  "pause sh = bump_control (emit (EvPaused True) (stop_cua (shell_stop_all (sh\<lparr>sh_paused := True\<rparr>))))"

definition resume :: "shared \<Rightarrow> shared" where
  "resume sh = bump_control (emit (EvPaused False) (sh\<lparr>sh_paused := False\<rparr>))"

definition set_metered :: "bool \<Rightarrow> shared \<Rightarrow> shared" where
  "set_metered m sh =
     (let sh1 = sh\<lparr>sh_metered := m\<rparr> in if sh_metered sh \<noteq> m then bump_control sh1 else sh1)"

section \<open>The name of the running task\<close>

definition TASK_LABEL_TTL :: instant where "TASK_LABEL_TTL = seconds (5 * 60)"
definition TASK_LABEL_CHARS :: nat where "TASK_LABEL_CHARS = 28"

fun task_label_loop :: "utext \<Rightarrow> bool \<Rightarrow> utext \<Rightarrow> utext" where
  "task_label_loop out gap [] = out"
| "task_label_loop out gap (c # cs) =
     (if is_control c then task_label_loop out gap cs
      else if is_whitespace c then task_label_loop out (out \<noteq> []) cs
      else task_label_loop ((if gap then out @ [32] else out) @ [c]) False cs)"

definition task_label :: "utext \<Rightarrow> utext option" where
  "task_label raw =
     (let out = task_label_loop [] False (take 4096 raw)
      in if out = [] then None
         else if TASK_LABEL_CHARS < length out then Some (take (TASK_LABEL_CHARS - 1) out @ [8230])
         else Some out)"

definition note_task :: "instant \<Rightarrow> utext option \<Rightarrow> shared \<Rightarrow> shared" where
  "note_task now raw sh =
     (case Option.bind raw task_label of
        None \<Rightarrow> sh
      | Some label \<Rightarrow>
          (let changed = (case sh_task sh of None \<Rightarrow> True
                 | Some (have, since) \<Rightarrow> have \<noteq> label \<or> TASK_LABEL_TTL \<le> elapsed now since);
               sh1 = sh\<lparr>sh_task := Some (label, now)\<rparr>
           in if changed then emit EvComputerTask sh1 else sh1))"

definition computer_task :: "instant \<Rightarrow> shared \<Rightarrow> utext option" where
  "computer_task now sh =
     (case sh_task sh of
        None \<Rightarrow> None
      | Some (label, since) \<Rightarrow> if elapsed now since < TASK_LABEL_TTL then Some label else None)"

definition note_agent_cursor :: "instant \<Rightarrow> rat \<Rightarrow> rat \<Rightarrow> shared \<Rightarrow> shared" where
  \<comment> \<open>a rational is finite\<close>
  "note_agent_cursor now x y sh = sh\<lparr>sh_agent_cursor := Some (x, y, now)\<rparr>"

definition agent_cursor :: "instant \<Rightarrow> shared \<Rightarrow> (rat \<times> rat) option" where
  "agent_cursor now sh =
     (case sh_agent_cursor sh of
        None \<Rightarrow> None
      | Some (x, y, t) \<Rightarrow> if elapsed now t < seconds 10 then Some (x, y) else None)"

section \<open>Taking an answer back\<close>

definition OUT_QUEUE :: nat where "OUT_QUEUE = 32"

definition session_send :: "json \<Rightarrow> browser_session \<Rightarrow> browser_session" where
  \<comment> \<open>\<open>try_send\<close>: a full queue takes nothing\<close>
  "session_send m s = (if length (bs_queue s) < OUT_QUEUE then s\<lparr>bs_queue := bs_queue s @ [m]\<rparr> else s)"

definition to_greeted :: "(browser_session \<Rightarrow> browser_session) \<Rightarrow> shared \<Rightarrow> shared" where
  "to_greeted f sh = sh\<lparr>sh_sessions := map (\<lambda>s. if bs_greeted s then f s else s) (sh_sessions sh)\<rparr>"

definition linked_to :: "shared \<Rightarrow> utext \<Rightarrow> utext option" where
  \<comment> \<open>the synth the browser of this profile is linked to\<close>
  "linked_to sh install =
     (case find (\<lambda>b. b_install b = install) (p_browsers (sh_persisted sh)) of
        Some b \<Rightarrow> if b_linked b then Some (b_synth_id b) else None
      | None \<Rightarrow> None)"

fun allows_any :: "unix_time \<Rightarrow> utext list \<Rightarrow> utext \<Rightarrow> utext \<Rightarrow> grant_store \<Rightarrow> bool \<times> grant_store" where
  "allows_any now [] cap sc g = (False, g)"
| "allows_any now (s # ss) cap sc g =
     (case grant_allows now s cap sc g of
        (True, g1) \<Rightarrow> (True, g1)
      | (False, g1) \<Rightarrow> allows_any now ss cap sc g1)"

definition grant_allows_any :: "unix_time \<Rightarrow> utext \<Rightarrow> utext \<Rightarrow> shared \<Rightarrow> bool \<times> shared" where
  "grant_allows_any now cap sc sh =
     (let (b, g) = allows_any now (map sl_synth_id (link_slots sh)) cap sc (sh_grants sh)
      in (b, sh\<lparr>sh_grants := g\<rparr>))"

definition site_message :: "utext \<Rightarrow> json" where
  "site_message site = JObj [(lit ''site'', JStr site), (lit ''type'', JStr (lit ''site.revoke''))]"

definition browsers_revoke_site :: "names \<Rightarrow> unix_time \<Rightarrow> utext \<Rightarrow> utext \<Rightarrow> shared \<Rightarrow> shared" where
  "browsers_revoke_site nm now synth site sh =
     (if clean_site nm site = None then sh
      else
        (let (still_any, sh1) = grant_allows_any now (lit ''cookies'') site sh
         in to_greeted (\<lambda>s.
              if (case linked_to sh1 (bs_install s) of Some own \<Rightarrow> own = synth | None \<Rightarrow> \<not> still_any)
              then session_send (site_message site) s else s) sh1))"

definition core_revoke :: "names \<Rightarrow> unix_time \<Rightarrow> utext option \<Rightarrow> utext \<Rightarrow> utext \<Rightarrow> shared \<Rightarrow> shared" where
  "core_revoke nm now synth_id cap sc sh =
     (let synth = (case synth_id of Some s \<Rightarrow> s | None \<Rightarrow> current_synth_id None sh);
          sh1 = persist_grants now (sh\<lparr>sh_grants := revoke synth cap sc (sh_grants sh)\<rparr>)
      in if cap = lit ''cookies'' then browsers_revoke_site nm now synth sc sh1 else sh1)"

section \<open>Lemmas\<close>

lemma persist_grants_keeps [core_simps, simp]:
  "sh_path (persist_grants now sh) = sh_path sh" "sh_grants (persist_grants now sh) = sh_grants sh"
  "sh_journal (persist_grants now sh) = sh_journal sh" "sh_secret (persist_grants now sh) = sh_secret sh"
  "sh_paused (persist_grants now sh) = sh_paused sh" "sh_metered (persist_grants now sh) = sh_metered sh"
  "sh_streams_open (persist_grants now sh) = sh_streams_open sh"
  "sh_backoff (persist_grants now sh) = sh_backoff sh" "sh_daemon (persist_grants now sh) = sh_daemon sh"
  "sh_daemon_bin (persist_grants now sh) = sh_daemon_bin sh"
  "sh_cua_sessions (persist_grants now sh) = sh_cua_sessions sh"
  "sh_directory (persist_grants now sh) = sh_directory sh" "sh_task (persist_grants now sh) = sh_task sh"
  "sh_counters (persist_grants now sh) = sh_counters sh" "sh_slots (persist_grants now sh) = sh_slots sh"
  "sh_links (persist_grants now sh) = sh_links sh" "sh_pending (persist_grants now sh) = sh_pending sh"
  "sh_lease (persist_grants now sh) = sh_lease sh" "sh_events (persist_grants now sh) = sh_events sh"
  "sh_settings_tx (persist_grants now sh) = sh_settings_tx sh"
  "sh_control_tx (persist_grants now sh) = sh_control_tx sh"
  "sh_limits (persist_grants now sh) = sh_limits sh"
  "sh_agent_cursor (persist_grants now sh) = sh_agent_cursor sh"
  "sh_shell_stops (persist_grants now sh) = sh_shell_stops sh"
  "sh_hub (persist_grants now sh) = sh_hub sh"
  "sh_transfers (persist_grants now sh) = sh_transfers sh"
  "sh_extension_first (persist_grants now sh) = sh_extension_first sh"
  "sh_notified (persist_grants now sh) = sh_notified sh"
  "sh_sessions (persist_grants now sh) = sh_sessions sh" "sh_asked (persist_grants now sh) = sh_asked sh"
  "p_grants (sh_persisted (persist_grants now sh)) = durable_grants now sh"
  "p_settings (sh_persisted (persist_grants now sh)) = p_settings (sh_persisted sh)"
  "p_identities (sh_persisted (persist_grants now sh)) = p_identities (sh_persisted sh)"
  "slot_at (persist_grants now sh) = slot_at sh"
  by (simp_all add: persist_grants_def Let_def)

lemma flush_egress_keeps [core_simps, simp]:
  "sh_path (flush_egress now sh) = sh_path sh" "sh_grants (flush_egress now sh) = sh_grants sh"
  "sh_journal (flush_egress now sh) = sh_journal sh" "sh_secret (flush_egress now sh) = sh_secret sh"
  "sh_paused (flush_egress now sh) = sh_paused sh" "sh_metered (flush_egress now sh) = sh_metered sh"
  "sh_streams_open (flush_egress now sh) = sh_streams_open sh"
  "sh_backoff (flush_egress now sh) = sh_backoff sh" "sh_daemon (flush_egress now sh) = sh_daemon sh"
  "sh_daemon_bin (flush_egress now sh) = sh_daemon_bin sh"
  "sh_cua_sessions (flush_egress now sh) = sh_cua_sessions sh"
  "sh_directory (flush_egress now sh) = sh_directory sh" "sh_task (flush_egress now sh) = sh_task sh"
  "sh_slots (flush_egress now sh) = sh_slots sh" "sh_links (flush_egress now sh) = sh_links sh"
  "sh_pending (flush_egress now sh) = sh_pending sh" "sh_lease (flush_egress now sh) = sh_lease sh"
  "sh_events (flush_egress now sh) = sh_events sh" "sh_settings_tx (flush_egress now sh) = sh_settings_tx sh"
  "sh_control_tx (flush_egress now sh) = sh_control_tx sh" "sh_limits (flush_egress now sh) = sh_limits sh"
  "sh_agent_cursor (flush_egress now sh) = sh_agent_cursor sh"
  "sh_shell_stops (flush_egress now sh) = sh_shell_stops sh"
  "sh_hub (flush_egress now sh) = sh_hub sh"
  "sh_transfers (flush_egress now sh) = sh_transfers sh"
  "sh_extension_first (flush_egress now sh) = sh_extension_first sh"
  "sh_notified (flush_egress now sh) = sh_notified sh"
  "sh_sessions (flush_egress now sh) = sh_sessions sh" "sh_asked (flush_egress now sh) = sh_asked sh"
  "sh_counters (flush_egress now sh) = (sh_counters sh)\<lparr>ct_unsaved := 0, ct_last_flush := now\<rparr>"
  "p_egress_bytes (sh_persisted (flush_egress now sh)) = ct_bytes (sh_counters sh)"
  "p_egress_month (sh_persisted (flush_egress now sh)) = ct_month (sh_counters sh)"
  "p_settings (sh_persisted (flush_egress now sh)) = p_settings (sh_persisted sh)"
  by (simp_all add: flush_egress_def Let_def)

lemma durable_grants_cong: "sh_grants a = sh_grants b \<Longrightarrow> durable_grants now a = durable_grants now b"
  by (simp add: durable_grants_def)

lemma ask_question_grants [simp]:
  "ask_question peer req (sh\<lparr>sh_grants := g\<rparr>) = ask_question peer req sh"
  by (cases peer) (simp_all add: ask_question_def current_slot_def slot_at_def [abs_def])

lemma answer_ask_allow [simp]: "allow (fst (answer_ask now ak a sh)) = allow a"
  by (simp add: answer_ask_def Let_def)

lemma ask_scoped_allow:
  "allow (fst (ask_scoped owner now peer cap sc req sh)) \<longleftrightarrow>
     (\<exists>m a. owner (ask_question peer req sh) = InTime m a \<and> allow a)"
  by (auto simp: ask_scoped_def Let_def approval_deny_def split: reply.split)

lemma ask_question_keeps [simp]:
  "rq_details (ask_question peer req sh) = rq_details req" "rq_scope (ask_question peer req sh) = rq_scope req"
  "rq_remember (ask_question peer req sh) = rq_remember req" "rq_capability (ask_question peer req sh) = rq_capability req"
  by (simp_all add: ask_question_def)

lemma ask_yes:
  assumes "allow (fst (ask_scoped owner now peer cap sc req sh))"
  shows "\<exists>q meanwhile a. owner q = InTime meanwhile a \<and> allow a \<and> rq_capability q = rq_capability req \<and>
    rq_scope q = rq_scope req"
  using assms ask_question_keeps(2,4) unfolding ask_scoped_allow by metis

section \<open>Properties of the consent\<close>


section \<open>Properties of the traffic policy\<close>

lemma net_ask_ok:
  "fst (net_ask owner now peer d reason sh) = Ok () \<longleftrightarrow>
     fst (grant_allows now (current_synth_id peer sh) (lit ''net'') d (sh_grants sh)) \<or>
     (\<exists>m a. owner (ask_question peer (net_request d reason) sh) = InTime m a \<and> allow a)"
proof -
  let ?g = "grant_allows now (current_synth_id peer sh) (lit ''net'') d (sh_grants sh)"
  have "allow (fst (ask_scoped owner now peer (lit ''net'') d (net_request d reason) (sh\<lparr>sh_grants := snd ?g\<rparr>)))
      \<longleftrightarrow> (\<exists>m a. owner (ask_question peer (net_request d reason) sh) = InTime m a \<and> allow a)"
    by (simp add: ask_scoped_allow)
  then show ?thesis
    by (simp add: net_ask_def sh_grant_allows_def Let_def case_prod_unfold)
qed

text \<open>
  a synth's traffic is let through exactly when the owner did not pause, switched it
  on, the connection is not a metered one they keep out of it, the month's cap is not
  reached, and the site is free for it: every site is, or the site is on the owner's list,
  or, when the app asks, this synth holds a live answer for the site or the owner gives
  one in time.
\<close>

theorem net_allows_iff:
  "fst (net_allows nm owner now peer host reason sh) = Ok () \<longleftrightarrow>
   (let s = st_net (sh_settings sh); d = registrable_domain nm host
    in \<not> sh_paused sh \<and> n_enabled s \<and> \<not> (n_skip_on_metered s \<and> sh_metered sh) \<and>
       (n_monthly_cap_bytes s = 0 \<or> ct_bytes (sh_counters sh) < n_monthly_cap_bytes s) \<and>
       (n_mode s = NetAll \<or> d \<in> set (n_domains s) \<or>
        n_mode s = NetAsk \<and>
          (fst (grant_allows now (current_synth_id peer sh) (lit ''net'') d (sh_grants sh)) \<or>
           (\<exists>m a. owner (ask_question peer (net_request d reason) sh) = InTime m a \<and> allow a))))"
  using net_ask_ok [of owner now peer "registrable_domain nm host" reason sh]
  by (cases "n_mode (st_net (sh_settings sh))") (auto simp: net_allows_def Let_def)

lemma net_allows_on:
  "fst (net_allows nm owner now peer host reason sh) = Ok () \<Longrightarrow> \<not> sh_paused sh \<and> n_enabled (st_net (sh_settings sh))"
  by (auto simp: net_allows_def Let_def split: if_splits)

text \<open>
  a dialed stream connects to no address of the local network unless the owner allows
  it: every address that was dialed is one its name resolved to, and, with the switch off
  when the policy had let the dial through, every one of those is public; a refusal of the
  policy dials nothing; and a dial that is refused is written to the journal with the text
  the synth was told.
\<close>

theorem tcp_handle_checked:
  "case tcp_handle nm owner w now wall peer host port reason sh of (r, dialed, after) \<Rightarrow>
     (let (policy, sh1) = net_allows nm owner wall peer host reason sh
      in (is_ok policy \<or> dialed = [] \<and> (\<exists>why. r = Err why)) \<and>
         (\<forall>a \<in> set dialed. \<exists>as. resolve (dw_net w) (unbracket host) = Ok as \<and> a \<in> set as \<and>
            (n_allow_local_network (st_net (sh_settings sh1)) \<or> list_all (\<lambda>b. non_public b = None) as)) \<and>
         (\<forall>why. r = Err why \<longrightarrow> (\<exists>e. j_ring (sh_journal after) =
            push_capped RING_CAP e (j_ring (sh_journal sh1)) \<and> e_outcome e = refusal_text why \<and>
            e_target e = host @ 58 # digits port)))"
proof -
  obtain p sh1 where p: "net_allows nm owner wall peer host reason sh = (p, sh1)" by fastforce
  obtain c dialed where c: "connect (dw_net w) host port (n_allow_local_network (st_net (sh_settings sh1))) = (c, dialed)"
    by fastforce
  have checked: "\<exists>as. resolve (dw_net w) (unbracket host) = Ok as \<and> a \<in> set as \<and>
      (n_allow_local_network (st_net (sh_settings sh1)) \<or> list_all (\<lambda>b. non_public b = None) as)"
    if "a \<in> set dialed" for a
    using connect_checked [of a "dw_net w" host port "n_allow_local_network (st_net (sh_settings sh1))"] that c
    by auto
  have jot: "\<exists>e. j_ring (sh_journal (sh_record peer (net_entry wall tg (refusal_text why)) sh1)) =
      push_capped RING_CAP e (j_ring (sh_journal sh1)) \<and> e_outcome e = refusal_text why \<and> e_target e = tg" for tg why
    by (auto simp: sh_record_def record_ring named_def net_entry_def new_entry_def)
  show ?thesis
  proof (cases p)
    case (Inl why)
    with p jot show ?thesis by (simp add: tcp_handle_def)
  next
    case (Inr u)
    with p c jot checked show ?thesis
      by (cases c; cases "dw_pump w") (auto simp: tcp_handle_def Let_def)
  qed
qed

definition example_names :: names where
  "example_names = \<lparr>nm_is_ip = (\<lambda>_. False), nm_domain = (\<lambda>h. Some h)\<rparr>"

definition quiet_owner :: owner where
  "quiet_owner q = TooLate (\<lambda>sh. sh)"

theorem tcp_handle_checked_witness:
  "\<exists>e. j_ring (sh_journal (snd (snd (tcp_handle example_names quiet_owner
        \<lparr>dw_net = sample_env, dw_in_budget = True, dw_reply_sent = True, dw_pump = PumpCut 0 0\<rparr>
        0 0 None (lit ''a'') 443 [] (blank_shared default_settings))))) = [e] \<and>
     e_outcome e = lit ''denied: '' @ lit ''net is turned off on this computer''"
proof -
  let ?w = "\<lparr>dw_net = sample_env, dw_in_budget = True, dw_reply_sent = True, dw_pump = PumpCut 0 0\<rparr>"
  let ?sh = "blank_shared default_settings"
  have off: "net_allows example_names quiet_owner 0 None (lit ''a'') [] ?sh =
      (Err (Denied (lit ''net is turned off on this computer'')), ?sh)"
    by (simp add: net_allows_def Let_def blank_shared_def make_shared_def sh_settings_def default_settings_def)
  have told: "fst (tcp_handle example_names quiet_owner ?w 0 0 None (lit ''a'') 443 [] ?sh) =
      Err (Denied (lit ''net is turned off on this computer''))"
    by (simp add: tcp_handle_def off)
  have blank: "j_ring (sh_journal ?sh) = []" by (simp add: blank_shared_def make_shared_def new_journal_def)
  show ?thesis
    using tcp_handle_checked [where nm = example_names and owner = quiet_owner and w = ?w and now = 0
        and wall = 0 and peer = None and host = "lit ''a''" and port = 443 and reason = "[]" and sh = ?sh] off told blank
    by (auto simp: push_capped_def RING_CAP_def refusal_text_def split: prod.splits)
qed

text \<open>
  what the owner's monthly cap is held against does not follow the month by itself.
  Once the count has reached the cap, every later call is refused whatever the time is,
  although the count of a new month would start from zero if a byte were added in it.
\<close>

theorem cap_stays_reached:
  assumes "0 < n_monthly_cap_bytes (st_net (sh_settings sh))"
    and "n_monthly_cap_bytes (st_net (sh_settings sh)) \<le> ct_bytes (sh_counters sh)"
    and "ct_month (sh_counters sh) \<noteq> month_key wall"
  shows "\<not> is_ok (fst (net_allows nm owner wall peer host reason sh)) \<and>
    snd (net_allows nm owner wall peer host reason sh) = sh \<and>
    ct_bytes (sh_counters (add_egress now wall 0 sh)) = 0"
  using assms by (auto simp: net_allows_def Let_def add_egress_def sat_add64_def)

definition capped_shared :: shared where
  "capped_shared =
     (let s = from_preset Full []
      in (blank_shared (s\<lparr>st_net := (st_net s)\<lparr>n_monthly_cap_bytes := 5\<rparr>\<rparr>))
           \<lparr>sh_counters := \<lparr>ct_month = lit ''2026-01'', ct_bytes = 5, ct_unsaved = 0, ct_last_flush = 0\<rparr>\<rparr>)"

theorem cap_stays_reached_witness:
  "\<forall>nm owner peer host reason. \<not> is_ok (fst (net_allows nm owner 0 peer host reason capped_shared))"
proof -
  have m: "month_key 0 = lit ''1970-01''" by code_simp
  have "0 < n_monthly_cap_bytes (st_net (sh_settings capped_shared))"
    "n_monthly_cap_bytes (st_net (sh_settings capped_shared)) \<le> ct_bytes (sh_counters capped_shared)"
    "ct_month (sh_counters capped_shared) \<noteq> month_key 0"
    by (simp_all add: capped_shared_def blank_shared_def make_shared_def sh_settings_def Let_def m)
  from cap_stays_reached [OF this] show ?thesis by blast
qed

text \<open>
  the bytes of a stream that was cut (a pause, or the link dropped) are not counted:
  the count of the month is what it was when the dial was let through.
\<close>

theorem cut_stream_not_counted:
  assumes "dw_pump w = PumpCut up down"
  shows "sh_counters (snd (snd (tcp_handle nm owner w now wall peer host port reason sh)))
    = sh_counters (snd (net_allows nm owner wall peer host reason sh))"
  using assms
  by (auto simp: tcp_handle_def sh_record_def Let_def split: prod.split sum.split)

definition cut_world :: dial_world where
  "cut_world = \<lparr>dw_net = sample_env, dw_in_budget = True, dw_reply_sent = True, dw_pump = PumpCut 7 9\<rparr>"

theorem cut_stream_not_counted_witness:
  "\<forall>nm owner. sh_counters (snd (snd (tcp_handle nm owner cut_world 0 0 None (lit ''a'') 443 [] (blank_shared (from_preset Full [])))))
    = sh_counters (snd (net_allows nm owner 0 None (lit ''a'') [] (blank_shared (from_preset Full []))))"
proof (intro allI)
  fix nm owner
  show "sh_counters (snd (snd (tcp_handle nm owner cut_world 0 0 None (lit ''a'') 443 [] (blank_shared (from_preset Full [])))))
    = sh_counters (snd (net_allows nm owner 0 None (lit ''a'') [] (blank_shared (from_preset Full []))))"
    by (rule cut_stream_not_counted) (simp add: cut_world_def)
qed

definition egress_ok :: "shared \<Rightarrow> bool" where
  "egress_ok sh \<longleftrightarrow>
     (let c = sh_counters sh; p = sh_persisted sh
      in ct_unsaved c < EGRESS_FLUSH_BYTES \<and> ct_bytes c \<le> 2 ^ 64 - 1 \<and>
         ct_bytes c \<le> (if p_egress_month p = ct_month c then p_egress_bytes p else 0) + ct_unsaved c)"

lemma add_egress_ok: "egress_ok sh \<Longrightarrow> egress_ok (add_egress now wall n sh)"
  by (auto simp: egress_ok_def add_egress_def Let_def EGRESS_FLUSH_BYTES_def sat_add64_def min_def
      split: if_splits)

definition run_egress :: "(instant \<times> unix_time \<times> nat) list \<Rightarrow> shared \<Rightarrow> shared" where
  "run_egress = fold (\<lambda>(now, wall, n). add_egress now wall n)"

lemma run_egress_ok: "egress_ok sh \<Longrightarrow> egress_ok (run_egress steps sh)"
  by (induction steps arbitrary: sh) (auto simp: run_egress_def intro: add_egress_ok)

text \<open>
  however the traffic comes in, what is on disk is less than 4 MiB behind the count:
  after any history of counted streams the count of the month is at most what the disk has
  for that month plus what is unsaved, and the unsaved part is below the limit.
\<close>

theorem egress_nearly_saved:
  assumes "ct_unsaved (sh_counters sh) = 0"
    and "ct_bytes (sh_counters sh) = (if p_egress_month (sh_persisted sh) = ct_month (sh_counters sh)
           then p_egress_bytes (sh_persisted sh) else 0)"
    and "ct_bytes (sh_counters sh) \<le> 2 ^ 64 - 1"
  shows "let after = run_egress steps sh; c = sh_counters after; p = sh_persisted after
     in ct_bytes c < (if p_egress_month p = ct_month c then p_egress_bytes p else 0) + 4 * 1024 * 1024"
proof -
  have "egress_ok sh" using assms by (simp add: egress_ok_def EGRESS_FLUSH_BYTES_def Let_def)
  from run_egress_ok [OF this, of steps] show ?thesis
    by (auto simp: egress_ok_def EGRESS_FLUSH_BYTES_def Let_def)
qed

theorem egress_nearly_saved_witness:
  "ct_bytes (sh_counters (run_egress [(0, 0, 7)] (blank_shared default_settings)))
    < (if p_egress_month (sh_persisted (run_egress [(0, 0, 7)] (blank_shared default_settings)))
          = ct_month (sh_counters (run_egress [(0, 0, 7)] (blank_shared default_settings)))
       then p_egress_bytes (sh_persisted (run_egress [(0, 0, 7)] (blank_shared default_settings))) else 0)
      + 4 * 1024 * 1024"
proof -
  have "ct_unsaved (sh_counters (blank_shared default_settings)) = 0"
    "ct_bytes (sh_counters (blank_shared default_settings)) =
       (if p_egress_month (sh_persisted (blank_shared default_settings)) = ct_month (sh_counters (blank_shared default_settings))
        then p_egress_bytes (sh_persisted (blank_shared default_settings)) else 0)"
    "ct_bytes (sh_counters (blank_shared default_settings)) \<le> 2 ^ 64 - 1"
    by (simp_all add: blank_shared_def make_shared_def fresh_def)
  from egress_nearly_saved [OF this, of "[(0, 0, 7)]"] show ?thesis by (simp add: Let_def)
qed

section \<open>Properties of the settings and the task\<close>

lemma mutate_settings_effect:
  "sh_settings (snd (mutate_settings f sh)) = f (sh_settings sh)"
  "sh_shell_stops (snd (mutate_settings f sh)) =
     sh_shell_stops sh + (if s_enabled (st_shell (f (sh_settings sh))) then 0 else 1)"
  by (simp_all add: mutate_settings_def Let_def sh_settings_def shell_stop_all_def)

lemma preset_kept_fields:
  "f_roots (st_files (preset_kept pr s)) = f_roots (st_files s)"
  "\<not> s_enabled (st_shell (preset_kept pr s))"
  "s_mode (st_shell (preset_kept pr s)) = s_mode (st_shell s)"
  "c_apps (st_computer (preset_kept pr s)) = c_apps (st_computer s)"
  "c_look (st_computer (preset_kept pr s)) = c_look (st_computer s)"
  "c_experiment (st_computer (preset_kept pr s)) = c_experiment (st_computer s)"
  "c_locked_use (st_computer (preset_kept pr s)) = c_locked_use (st_computer s)"
  "c_keep_awake (st_computer (preset_kept pr s)) = c_keep_awake (st_computer s)"
  by (cases pr; simp add: preset_kept_def Let_def default_settings_def default_shell_def)+

text \<open>
  every change of the settings reaches the disk and the UI, and the synths hear of it
  with a higher revision, unless it changed nothing but the look, which they are not told;
  with the command line off afterwards, what runs is stopped.
\<close>

theorem settings_change_told:
  "case mutate_settings f sh of (rv, after) \<Rightarrow>
     (let old = sh_settings sh; new = f old; look_only = (new \<noteq> old \<and> same_but_look old new)
      in sh_settings after = new \<and> rv = p_rev (sh_persisted after) \<and>
         (rv = p_rev (sh_persisted sh) \<longleftrightarrow> look_only) \<and>
         sh_settings_tx after = (if look_only then sh_settings_tx sh else p_rev (sh_persisted sh) + 1) \<and>
         sh_saves after = sh_saves sh @ (if sh_path sh then [sh_persisted after] else []) \<and>
         sh_events after = sh_events sh @ [EvSettings rv] \<and>
         (sh_shell_stops after = sh_shell_stops sh \<longleftrightarrow> s_enabled (st_shell new)))"
  by (auto simp: mutate_settings_def Let_def sh_settings_def shell_stop_all_def emit_def
      save_locked_def set_persisted_def)

text \<open>
  a click on a preset takes no choice of the owner with it: the shared folders, the
  list of apps, the look, the experiment, locked use, keeping awake and the mode of the
  command line stay; the command line itself is off after it, and what it ran is stopped.
\<close>

theorem preset_keeps_choices:
  "case apply_preset pr sh of (rv, after) \<Rightarrow>
     (let old = sh_settings sh; new = sh_settings after
      in f_roots (st_files new) = f_roots (st_files old) \<and>
         c_apps (st_computer new) = c_apps (st_computer old) \<and>
         c_look (st_computer new) = c_look (st_computer old) \<and>
         c_experiment (st_computer new) = c_experiment (st_computer old) \<and>
         c_locked_use (st_computer new) = c_locked_use (st_computer old) \<and>
         c_keep_awake (st_computer new) = c_keep_awake (st_computer old) \<and>
         s_mode (st_shell new) = s_mode (st_shell old) \<and>
         \<not> s_enabled (st_shell new) \<and> sh_shell_stops after = sh_shell_stops sh + 1)"
  using mutate_settings_effect [of "preset_kept pr" sh]
  by (simp add: apply_preset_def preset_kept_fields Let_def case_prod_unfold)

text \<open>A task label as the driver shows it.\<close>

definition label_char :: "uchar \<Rightarrow> bool" where
  "label_char c \<longleftrightarrow> \<not> is_control c \<and> (is_whitespace c \<longrightarrow> c = 32)"

definition single_spaces :: "utext \<Rightarrow> bool" where
  "single_spaces s \<longleftrightarrow> successively (\<lambda>a b. a \<noteq> 32 \<or> b \<noteq> 32) s"

definition label_ok :: "utext \<Rightarrow> bool" where
  "label_ok s \<longleftrightarrow> list_all label_char s \<and> s \<noteq> [] \<and> \<not> is_whitespace (hd s) \<and> single_spaces s"

lemma single_spaces_snoc: "single_spaces (s @ [c]) \<longleftrightarrow> single_spaces s \<and> (s = [] \<or> last s \<noteq> 32 \<or> c \<noteq> 32)"
  by (auto simp: single_spaces_def successively_append_iff)

lemma label_ok_snoc1:
  "label_ok out \<Longrightarrow> label_char c \<Longrightarrow> last out \<noteq> 32 \<or> c \<noteq> 32 \<Longrightarrow> label_ok (out @ [c])"
  by (simp add: label_ok_def single_spaces_snoc)

lemma label_ok_snoc:
  assumes "label_ok out" "\<not> is_whitespace (last out)" "\<not> is_control c" "\<not> is_whitespace c"
  shows "label_ok ((if gap then out @ [32] else out) @ [c])"
proof -
  have sp: "is_whitespace 32" "label_char 32" by (simp_all add: is_whitespace_def is_control_def label_char_def)
  then have "last out \<noteq> 32" "c \<noteq> 32" using assms(2,4) by metis+
  moreover have "label_char c" using assms(3,4) by (simp add: label_char_def)
  ultimately show ?thesis
    using label_ok_snoc1 [OF label_ok_snoc1 [OF assms(1) sp(2)], of c] label_ok_snoc1 [OF assms(1), of c] by simp
qed

lemma label_ok_start: "\<not> is_control c \<Longrightarrow> \<not> is_whitespace c \<Longrightarrow> label_ok [c]"
  by (simp add: label_ok_def label_char_def single_spaces_def)

definition label_state :: "utext \<Rightarrow> bool \<Rightarrow> bool" where
  "label_state out gap \<longleftrightarrow> (if out = [] then \<not> gap else label_ok out \<and> \<not> is_whitespace (last out))"

lemma task_label_loop_ok: "label_state out gap \<Longrightarrow> task_label_loop out gap s = [] \<or> label_ok (task_label_loop out gap s)"
proof (induction out gap s rule: task_label_loop.induct)
  case (1 out gap)
  then show ?case by (simp add: label_state_def split: if_splits)
next
  case (2 out gap c cs)
  consider "is_control c" | "\<not> is_control c" "is_whitespace c" | "\<not> is_control c" "\<not> is_whitespace c" by blast
  then show ?case
  proof cases
    case 1
    with 2 show ?thesis by simp
  next
    case 2
    then have "label_state out (out \<noteq> [])" using \<open>label_state out gap\<close> by (simp add: label_state_def)
    with 2 "2.IH"(2) show ?thesis by simp
  next
    case 3
    then have "label_state ((if gap then out @ [32] else out) @ [c]) False"
      using \<open>label_state out gap\<close> label_ok_snoc [of out c gap] label_ok_start [of c]
      by (cases "out = []") (simp_all add: label_state_def)
    with 3 "2.IH"(3) show ?thesis by simp
  qed
qed

lemma label_ok_cut:
  assumes "label_ok s" "0 < n"
  shows "label_ok (take n s @ [8230])"
proof (rule label_ok_snoc1)
  have "single_spaces (take n s @ drop n s)" using assms by (simp add: label_ok_def)
  then have "single_spaces (take n s)" unfolding single_spaces_def successively_append_iff by blast
  moreover have "list_all label_char (take n s)"
    using assms in_set_takeD [of _ n s] by (auto simp: label_ok_def list_all_iff)
  ultimately show "label_ok (take n s)" using assms by (simp add: label_ok_def)
  show "label_char 8230" by (simp add: label_char_def is_whitespace_def is_control_def)
qed simp

text \<open>
  whatever a synth names its task, the owner sees at most 28 characters on one line:
  no control character, no white space but single spaces between words, none in front; and
  the name is gone five minutes after it was last used.
\<close>

theorem task_label_shown:
  "(case task_label raw of None \<Rightarrow> True | Some l \<Rightarrow> length l \<le> 28 \<and> label_ok l) \<and>
   computer_task t2 (note_task now (Some raw) sh) =
     (case task_label raw of
        None \<Rightarrow> computer_task t2 sh
      | Some l \<Rightarrow> if t2 < now + seconds 300 then Some l else None)"
proof (intro conjI)
  let ?out = "task_label_loop [] False (take 4096 raw)"
  have "?out = [] \<or> label_ok ?out" using task_label_loop_ok [of "[]" False "take 4096 raw"] by (simp add: label_state_def)
  then show "case task_label raw of None \<Rightarrow> True | Some l \<Rightarrow> length l \<le> 28 \<and> label_ok l"
    using label_ok_cut [of ?out 27] by (auto simp: task_label_def Let_def TASK_LABEL_CHARS_def)
  show "computer_task t2 (note_task now (Some raw) sh) =
     (case task_label raw of
        None \<Rightarrow> computer_task t2 sh
      | Some l \<Rightarrow> if t2 < now + seconds 300 then Some l else None)"
    by (auto simp: note_task_def computer_task_def Let_def emit_def TASK_LABEL_TTL_def elapsed_less_iff
        seconds_def split: option.split)
qed

end
