(* ===== verification/Core_Links.thy ===== *)
theory Core_Links
  imports Core_Policy Computer_Lease
begin

text \<open>
  The links of a computer (\<open>core.rs\<close>): what the core starts with (\<open>Core::new\<close>), a pairing
  that is claimed, confirmed or dropped, a link that is added or wiped, unpairing, and how
  the links stand together. An unpairing waits for the synth's answer between its two
  halves (\<open>unpair_start\<close>, \<open>unpair_finish\<close>): anything can happen there.
\<close>

section \<open>What the browsers are told\<close>

definition synth_label_for :: "utext option \<Rightarrow> shared \<Rightarrow> utext" where
  "synth_label_for synth_id sh =
     (let r = (case synth_id of
                 Some i \<Rightarrow> if i \<noteq> [] then find_link i sh else current_slot None sh
               | None \<Rightarrow> current_slot None sh)
      in case r of Some s \<Rightarrow> display_name (slot_at sh s) | None \<Rightarrow> [])"

definition status_message :: "shared \<Rightarrow> utext \<Rightarrow> json" where
  \<comment> \<open>\<open>status_for\<close> with its type\<close>
  "status_message sh install =
     JObj [(lit ''known'', JBool (linked_to sh install \<noteq> None)),
           (lit ''linked'', JBool (has_synth sh)),
           (lit ''synth'', JStr (synth_label_for (linked_to sh install) sh)),
           (lit ''type'', JStr (lit ''status''))]"

definition sites_clear :: json where
  "sites_clear = JObj [(lit ''type'', JStr (lit ''sites.clear''))]"

definition browsers_synth_added :: "shared \<Rightarrow> shared" where
  "browsers_synth_added sh =
     emit EvBrowsers (to_greeted (\<lambda>s. session_send (status_message sh (bs_install s)) s) sh)"

definition browser_gone :: "utext \<Rightarrow> nat \<Rightarrow> stored_browser \<Rightarrow> bool" where
  "browser_gone synth remaining b \<longleftrightarrow> b_linked b \<and> (b_synth_id b = synth \<or> remaining = 0)"

definition browsers_synth_removed :: "utext \<Rightarrow> nat \<Rightarrow> shared \<Rightarrow> shared" where
  "browsers_synth_removed synth remaining sh =
     (let p = sh_persisted sh;
          gone = map b_install (filter (browser_gone synth remaining) (p_browsers p));
          bs = map (\<lambda>b. if browser_gone synth remaining b
                        then b\<lparr>b_linked := False, b_synth_id := []\<rparr> else b) (p_browsers p);
          sh1 = (if gone \<noteq> [] then save_locked (set_persisted (p\<lparr>p_browsers := bs\<rparr>) sh) else sh);
          sh2 = to_greeted (\<lambda>s.
            (let s1 = session_send (status_message sh1 (bs_install s)) s
             in if remaining = 0 \<or> bs_install s \<in> set gone then session_send sites_clear s1 else s1)) sh1
      in emit EvBrowsers sh2)"

section \<open>Adding a link\<close>

datatype add_error = NoSynthId | StoreFailed io_error

fun update_identity :: "pending \<Rightarrow> identity list \<Rightarrow> identity list" where
  \<comment> \<open>the first of the synth is changed, else a new one is appended\<close>
  "update_identity p [] =
     [\<lparr>id_synth_id = pn_synth_id p, id_synth_url = pn_synth_url p, id_synth_name = pn_synth_name p,
       id_source = pn_source p, id_hub_id = pn_hub_id p\<rparr>]"
| "update_identity p (i # is) =
     (if id_synth_id i = pn_synth_id p then
        i\<lparr>id_synth_url := pn_synth_url p, id_source := pn_source p,
          id_hub_id := (if pn_hub_id p \<noteq> [] then pn_hub_id p else id_hub_id i),
          id_synth_name := (if pn_synth_name p \<noteq> [] then pn_synth_name p else id_synth_name i)\<rparr> # is
      else i # update_identity p is)"

definition pending_identity :: "pending \<Rightarrow> identity" where
  "pending_identity p = \<lparr>id_synth_id = pn_synth_id p, id_synth_url = pn_synth_url p,
     id_synth_name = pn_synth_name p, id_source = pn_source p, id_hub_id = pn_hub_id p\<rparr>"

definition push_slot :: "link_slot \<Rightarrow> shared \<Rightarrow> slot_ref \<times> shared" where
  "push_slot s sh =
     (let r = length (sh_slots sh)
      in (r, sh\<lparr>sh_slots := sh_slots sh @ [s], sh_links := sh_links sh @ [r]\<rparr>))"

definition repair_slot :: "pending \<Rightarrow> link_slot \<Rightarrow> link_slot" where
  "repair_slot p s =
     s\<lparr>sl_legacy_token := False, sl_url := pn_synth_url p, sl_source := pn_source p,
       sl_hub_id := (if pn_hub_id p \<noteq> [] then pn_hub_id p else sl_hub_id s),
       sl_stored_name := (if pn_synth_name p \<noteq> [] then pn_synth_name p else sl_stored_name s),
       sl_stopping := False\<rparr>"

definition drop_bare_token :: "bool \<Rightarrow> shared \<Rightarrow> shared" where
  "drop_bare_token legacy sh =
     (if legacy then sh\<lparr>sh_secret := snd (fs_delete (sh_secret sh) TOKEN_KEY)\<rparr> else sh)"

text \<open>The synth has a link already: its token is replaced and its loop wakes.\<close>

definition add_existing :: "pending \<Rightarrow> slot_ref \<Rightarrow> shared \<Rightarrow> shared" where
  "add_existing p r sh =
     upd_slot r (\<lambda>s. s\<lparr>sl_wake := True\<rparr>) (set_slot_state r Connecting (lit ''paired again'')
       (drop_bare_token (sl_legacy_token (slot_at sh r)) (upd_slot r (repair_slot p) sh)))"

definition add_new :: "pending \<Rightarrow> shared \<Rightarrow> shared" where
  "add_new p sh =
     (let (r, sh1) = push_slot (from_identity (pending_identity p)) sh
      in set_slot_state r Connecting (lit ''paired'') sh1)"

definition with_identity :: "pending \<Rightarrow> shared \<Rightarrow> shared" where
  "with_identity p sh = save_locked (set_persisted
     ((sh_persisted sh)\<lparr>p_identities := update_identity p (p_identities (sh_persisted sh))\<rparr>) sh)"

definition add_link :: "pending \<Rightarrow> shared \<Rightarrow> (add_error, bool) result \<times> shared" where
  \<comment> \<open>whether this is the computer's first link\<close>
  "add_link p sh =
     (if pn_synth_id p = [] then (Err NoSynthId, sh)
      else case fs_set (sh_secret sh) (token_key (pn_synth_id p)) (pn_token p) of
        (Err e, sec) \<Rightarrow> (Err (StoreFailed e), sh\<lparr>sh_secret := sec\<rparr>)
      | (Ok _, sec) \<Rightarrow>
          (let sh1 = with_identity p (sh\<lparr>sh_secret := sec\<rparr>);
               sh2 = (case find_link (pn_synth_id p) sh1 of
                   Some r \<Rightarrow> add_existing p r sh1
                 | None \<Rightarrow> add_new p sh1)
           in (Ok (\<not> is_paired sh), browsers_synth_added (emit (EvPaired (pn_synth_id p)) sh2))))"

section \<open>Wiping a link\<close>

definition wipe_persisted :: "utext \<Rightarrow> persisted \<Rightarrow> persisted" where
  "wipe_persisted synth p =
     p\<lparr>p_identities := filter (\<lambda>i. id_synth_id i \<noteq> synth) (p_identities p),
       p_grants := filter (\<lambda>g. sg_synth_id g \<noteq> synth) (p_grants p),
       p_faces := (p_faces p)(synth := None),
       p_observe := (p_observe p)\<lparr>os_on := (os_on (p_observe p))(synth := None)\<rparr>\<rparr>"

definition wipe_changes :: "utext \<Rightarrow> persisted \<Rightarrow> bool" where
  "wipe_changes synth p \<longleftrightarrow>
     length (p_identities (wipe_persisted synth p)) \<noteq> length (p_identities p) \<or>
     length (p_grants (wipe_persisted synth p)) \<noteq> length (p_grants p) \<or>
     p_faces p synth \<noteq> None \<or> os_on (p_observe p) synth \<noteq> None"

definition wipe_token :: "slot_ref \<Rightarrow> shared \<Rightarrow> shared" where
  \<comment> \<open>the loop is stopped, the token removed (its failure is swallowed)\<close>
  "wipe_token r sh =
     (let s = slot_at sh r;
          sh1 = upd_slot r (\<lambda>s. s\<lparr>sl_stopping := True, sl_wake := True, sl_legacy_token := False\<rparr>) sh
      in drop_bare_token (sl_legacy_token s)
           (sh1\<lparr>sh_secret := snd (fs_delete (sh_secret sh1) (sl_token_key s))\<rparr>))"

definition wipe_stored :: "utext \<Rightarrow> shared \<Rightarrow> shared" where
  "wipe_stored synth sh =
     (let p = sh_persisted sh; sh1 = set_persisted (wipe_persisted synth p) sh
      in if wipe_changes synth p then save_locked sh1 else sh1)"

definition wipe_slot :: "slot_ref \<Rightarrow> shared \<Rightarrow> shared" where
  "wipe_slot r sh =
     (let synth = sl_synth_id (slot_at sh r);
          sh1 = wipe_token r sh;
          sh2 = sh1\<lparr>sh_grants := clear_synth synth (sh_grants sh1)\<rparr>;
          removed = (r \<in> set (sh_links sh2));
          sh3 = sh2\<lparr>sh_links := filter (\<lambda>l. l \<noteq> r) (sh_links sh2)\<rparr>;
          sh4 = lease_release synth (wipe_stored synth sh3);
          sh5 = set_slot_state r Unpaired (lit ''unpaired'') (upd_slot r (\<lambda>s. s\<lparr>sl_synth := None\<rparr>) sh4)
      in if removed then
           (let remaining = length (sh_links sh5)
            in browsers_synth_removed synth remaining (emit (EvUnpaired synth remaining) sh5))
         else sh5)"

definition unpair_start :: "utext \<Rightarrow> shared \<Rightarrow> slot_ref option \<times> shared" where
  "unpair_start synth sh =
     (case find_link synth sh of
        None \<Rightarrow> (None, sh)
      | Some r \<Rightarrow>
          (let sh1 = upd_slot r (\<lambda>s. s\<lparr>sl_stopping := True, sl_wake := True\<rparr>) sh
           in (Some r, if sl_state (slot_at sh1 r) = Linked
                       then upd_slot r (\<lambda>s. s\<lparr>sl_unpair_req := True\<rparr>) sh1 else sh1)))"

definition unpair_finish :: "slot_ref \<Rightarrow> shared \<Rightarrow> shared" where
  \<comment> \<open>after the synth's answer or three seconds\<close>
  "unpair_finish r sh = wipe_slot r (upd_slot r (\<lambda>s. s\<lparr>sl_unpair_ack := False\<rparr>) sh)"

definition wipe_local :: "shared \<Rightarrow> shared" where
  "wipe_local sh =
     (let sh1 = fold (\<lambda>r s. wipe_slot r (upd_slot r (\<lambda>l. l\<lparr>sl_stopping := True, sl_wake := True\<rparr>) s))
                  (sh_links sh) sh;
          sh2 = sh1\<lparr>sh_secret := snd (fs_delete (sh_secret sh1) TOKEN_KEY),
                    sh_grants := clear_grants (sh_grants sh1), sh_pending := None\<rparr>;
          p = sh_persisted sh2
      in if p_identities p \<noteq> [] \<or> p_grants p \<noteq> []
         then save_locked (set_persisted (p\<lparr>p_identities := [], p_grants := []\<rparr>) sh2) else sh2)"

definition adhoc_slot :: "utext \<Rightarrow> shared \<Rightarrow> slot_ref \<times> shared" where
  "adhoc_slot url sh = push_slot (new_slot [] url SrcCode [] [] TOKEN_KEY True) sh"

section \<open>A pairing that is not confirmed\<close>

definition pair_claimed :: "(utext, pending) result \<Rightarrow> shared \<Rightarrow> (utext, pending) result \<times> shared" where
  \<comment> \<open>\<open>pair_begin\<close>, with the answer of the platform or the hub\<close>
  "pair_claimed answer sh = (case answer of
      Err e \<Rightarrow> (Err e, sh)
    | Ok p \<Rightarrow> (Ok p, sh\<lparr>sh_pending := Some p\<rparr>))"

definition pair_confirm :: "shared \<Rightarrow> (add_error option, pending) result \<times> shared" where
  \<comment> \<open>\<open>Err None\<close>: there is no pending pairing\<close>
  "pair_confirm sh = (case sh_pending sh of
      None \<Rightarrow> (Err None, sh)
    | Some p \<Rightarrow>
        (case add_link p (sh\<lparr>sh_pending := None\<rparr>) of
           (Err e, sh1) \<Rightarrow> (Err (Some e), sh1)
         | (Ok _, sh1) \<Rightarrow> (Ok p, sh1)))"

definition pair_cancel :: "shared \<Rightarrow> shared" where
  "pair_cancel sh = sh\<lparr>sh_pending := None\<rparr>"

section \<open>The start of a core\<close>

fun open_links :: "bool \<Rightarrow> identity list \<Rightarrow> file_store \<Rightarrow> link_slot list \<times> file_store" where
  "open_links only_one [] sec = ([], sec)"
| "open_links only_one (i # is) sec =
     (case open_stored_link fs_get fs_set fs_delete only_one (id_synth_id i) sec of
        (None, sec1) \<Rightarrow> open_links only_one is sec1
      | (Some legacy, sec1) \<Rightarrow>
          (let (ls, sec2) = open_links only_one is sec1
           in ((from_identity i)\<lparr>sl_legacy_token := legacy\<rparr> # ls, sec2)))"

definition restore_grants :: "unix_time \<Rightarrow> utext list \<Rightarrow> stored_grant list \<Rightarrow> grant_store" where
  "restore_grants wall synths gs =
     fold (\<lambda>g st. if sg_synth_id g \<in> set synths
                  then restore wall (sg_synth_id g) (sg_capability g) (sg_scope g) (sg_until g) st
                  else st) gs []"

definition core_new ::
  "(utext \<Rightarrow> utext) \<Rightarrow> bool \<Rightarrow> utext \<Rightarrow> file_read option \<Rightarrow> journal \<Rightarrow> file_store \<Rightarrow> instant \<Rightarrow> unix_time \<Rightarrow> shared" where
  \<comment> \<open>\<open>file\<close>: what reading the settings file gave; None is a core without one\<close>
  "core_new lower macos device file journal secret now wall =
     (let p0 = (case file of
                  Some f \<Rightarrow> (case load_file lower macos device f of
                      Some p \<Rightarrow> p | None \<Rightarrow> fresh macos device)
                | None \<Rightarrow> fresh macos device);
          (migrated, sec1) = migrate_legacy_token fs_get fs_set fs_delete
                               (map_option id_synth_id (p_identity p0)) secret;
          p = p0\<lparr>p_identity := None\<rparr>;
          (slots, sec2) = open_links (length (p_identities p) = 1) (p_identities p) sec1;
          grants = restore_grants wall (map sl_synth_id slots) (p_grants p);
          month = month_key wall;
          bytes = (if p_egress_month p = month then p_egress_bytes p else 0);
          sh = make_shared p (file \<noteq> None) grants journal sec2 slots month bytes now
      in if migrated \<and> file \<noteq> None then sh\<lparr>sh_saves := [p0]\<rparr> else sh)"

section \<open>The links together\<close>

definition aggregate_state :: "link_brief list \<Rightarrow> bool \<Rightarrow> link_state" where
  "aggregate_state ls paused =
     (if ls = [] then Unpaired
      else if paused then Paused
      else case find (\<lambda>want. list_ex (\<lambda>l. lb_state l = want) ls) [Linked, Connecting, Reconnecting] of
        Some want \<Rightarrow> want
      | None \<Rightarrow> if list_all (\<lambda>l. lb_state l = NeedsRepair) ls then NeedsRepair else Unpaired)"

definition link_briefs :: "shared \<Rightarrow> link_brief list" where
  "link_briefs sh = map (slot_brief (sh_paused sh)) (link_slots sh)"

definition link_ids :: "shared \<Rightarrow> utext list" where
  "link_ids sh = map sl_synth_id (filter (\<lambda>s. \<not> sl_adhoc s) (link_slots sh))"

text \<open>How well a link does, as an order: the state of all links is the best of them.\<close>

fun state_rank :: "link_state \<Rightarrow> nat" where
  "state_rank NeedsRepair = 0"
| "state_rank Unpaired = 1"
| "state_rank Paused = 2"
| "state_rank Reconnecting = 3"
| "state_rank Connecting = 4"
| "state_rank Linked = 5"

lemma state_rank_inj [simp]: "state_rank a = state_rank b \<longleftrightarrow> a = b"
  by (cases a; cases b) auto

instantiation link_state :: linorder
begin

definition less_eq_link_state :: "link_state \<Rightarrow> link_state \<Rightarrow> bool" where
  "less_eq_link_state a b \<longleftrightarrow> state_rank a \<le> state_rank b"

definition less_link_state :: "link_state \<Rightarrow> link_state \<Rightarrow> bool" where
  "less_link_state a b \<longleftrightarrow> state_rank a < state_rank b"

instance
  by standard (auto simp: less_eq_link_state_def less_link_state_def)

end

section \<open>Lemmas\<close>

lemma to_greeted_keeps [core_simps, simp]:
  "sh_persisted (to_greeted f sh) = sh_persisted sh" "sh_path (to_greeted f sh) = sh_path sh"
  "sh_saves (to_greeted f sh) = sh_saves sh" "sh_grants (to_greeted f sh) = sh_grants sh"
  "sh_journal (to_greeted f sh) = sh_journal sh" "sh_secret (to_greeted f sh) = sh_secret sh"
  "sh_paused (to_greeted f sh) = sh_paused sh" "sh_metered (to_greeted f sh) = sh_metered sh"
  "sh_streams_open (to_greeted f sh) = sh_streams_open sh" "sh_backoff (to_greeted f sh) = sh_backoff sh"
  "sh_daemon (to_greeted f sh) = sh_daemon sh" "sh_daemon_bin (to_greeted f sh) = sh_daemon_bin sh"
  "sh_cua_sessions (to_greeted f sh) = sh_cua_sessions sh" "sh_directory (to_greeted f sh) = sh_directory sh"
  "sh_task (to_greeted f sh) = sh_task sh" "sh_counters (to_greeted f sh) = sh_counters sh"
  "sh_slots (to_greeted f sh) = sh_slots sh" "sh_links (to_greeted f sh) = sh_links sh"
  "sh_pending (to_greeted f sh) = sh_pending sh" "sh_lease (to_greeted f sh) = sh_lease sh"
  "sh_events (to_greeted f sh) = sh_events sh" "sh_settings_tx (to_greeted f sh) = sh_settings_tx sh"
  "sh_control_tx (to_greeted f sh) = sh_control_tx sh" "sh_limits (to_greeted f sh) = sh_limits sh"
  "sh_agent_cursor (to_greeted f sh) = sh_agent_cursor sh"
  "sh_shell_stops (to_greeted f sh) = sh_shell_stops sh"
  "sh_hub (to_greeted f sh) = sh_hub sh"
  "sh_transfers (to_greeted f sh) = sh_transfers sh"
  "sh_extension_first (to_greeted f sh) = sh_extension_first sh"
  "sh_notified (to_greeted f sh) = sh_notified sh" "sh_asked (to_greeted f sh) = sh_asked sh"
  "slot_at (to_greeted f sh) = slot_at sh"
  by (simp_all add: to_greeted_def slot_at_def fun_eq_iff)

lemma synth_added_keeps [core_simps, simp]:
  "sh_persisted (browsers_synth_added sh) = sh_persisted sh" "sh_path (browsers_synth_added sh) = sh_path sh"
  "sh_saves (browsers_synth_added sh) = sh_saves sh" "sh_grants (browsers_synth_added sh) = sh_grants sh"
  "sh_journal (browsers_synth_added sh) = sh_journal sh" "sh_secret (browsers_synth_added sh) = sh_secret sh"
  "sh_paused (browsers_synth_added sh) = sh_paused sh" "sh_metered (browsers_synth_added sh) = sh_metered sh"
  "sh_streams_open (browsers_synth_added sh) = sh_streams_open sh"
  "sh_backoff (browsers_synth_added sh) = sh_backoff sh" "sh_daemon (browsers_synth_added sh) = sh_daemon sh"
  "sh_daemon_bin (browsers_synth_added sh) = sh_daemon_bin sh"
  "sh_cua_sessions (browsers_synth_added sh) = sh_cua_sessions sh"
  "sh_directory (browsers_synth_added sh) = sh_directory sh" "sh_task (browsers_synth_added sh) = sh_task sh"
  "sh_counters (browsers_synth_added sh) = sh_counters sh" "sh_slots (browsers_synth_added sh) = sh_slots sh"
  "sh_links (browsers_synth_added sh) = sh_links sh" "sh_pending (browsers_synth_added sh) = sh_pending sh"
  "sh_lease (browsers_synth_added sh) = sh_lease sh"
  "sh_settings_tx (browsers_synth_added sh) = sh_settings_tx sh"
  "sh_control_tx (browsers_synth_added sh) = sh_control_tx sh"
  "sh_limits (browsers_synth_added sh) = sh_limits sh"
  "sh_agent_cursor (browsers_synth_added sh) = sh_agent_cursor sh"
  "sh_shell_stops (browsers_synth_added sh) = sh_shell_stops sh"
  "sh_hub (browsers_synth_added sh) = sh_hub sh"
  "sh_transfers (browsers_synth_added sh) = sh_transfers sh"
  "sh_extension_first (browsers_synth_added sh) = sh_extension_first sh"
  "sh_notified (browsers_synth_added sh) = sh_notified sh"
  "sh_asked (browsers_synth_added sh) = sh_asked sh" "slot_at (browsers_synth_added sh) = slot_at sh"
  by (simp_all add: browsers_synth_added_def)

lemma synth_removed_keeps [core_simps, simp]:
  "sh_path (browsers_synth_removed synth n sh) = sh_path sh"
  "sh_grants (browsers_synth_removed synth n sh) = sh_grants sh"
  "sh_journal (browsers_synth_removed synth n sh) = sh_journal sh"
  "sh_secret (browsers_synth_removed synth n sh) = sh_secret sh"
  "sh_paused (browsers_synth_removed synth n sh) = sh_paused sh"
  "sh_metered (browsers_synth_removed synth n sh) = sh_metered sh"
  "sh_streams_open (browsers_synth_removed synth n sh) = sh_streams_open sh"
  "sh_backoff (browsers_synth_removed synth n sh) = sh_backoff sh"
  "sh_daemon (browsers_synth_removed synth n sh) = sh_daemon sh"
  "sh_daemon_bin (browsers_synth_removed synth n sh) = sh_daemon_bin sh"
  "sh_cua_sessions (browsers_synth_removed synth n sh) = sh_cua_sessions sh"
  "sh_directory (browsers_synth_removed synth n sh) = sh_directory sh"
  "sh_task (browsers_synth_removed synth n sh) = sh_task sh"
  "sh_counters (browsers_synth_removed synth n sh) = sh_counters sh"
  "sh_slots (browsers_synth_removed synth n sh) = sh_slots sh"
  "sh_links (browsers_synth_removed synth n sh) = sh_links sh"
  "sh_pending (browsers_synth_removed synth n sh) = sh_pending sh"
  "sh_lease (browsers_synth_removed synth n sh) = sh_lease sh"
  "sh_settings_tx (browsers_synth_removed synth n sh) = sh_settings_tx sh"
  "sh_control_tx (browsers_synth_removed synth n sh) = sh_control_tx sh"
  "sh_limits (browsers_synth_removed synth n sh) = sh_limits sh"
  "sh_agent_cursor (browsers_synth_removed synth n sh) = sh_agent_cursor sh"
  "sh_shell_stops (browsers_synth_removed synth n sh) = sh_shell_stops sh"
  "sh_hub (browsers_synth_removed synth n sh) = sh_hub sh"
  "sh_transfers (browsers_synth_removed synth n sh) = sh_transfers sh"
  "sh_extension_first (browsers_synth_removed synth n sh) = sh_extension_first sh"
  "sh_notified (browsers_synth_removed synth n sh) = sh_notified sh"
  "sh_asked (browsers_synth_removed synth n sh) = sh_asked sh"
  "p_identities (sh_persisted (browsers_synth_removed synth n sh)) = p_identities (sh_persisted sh)"
  "p_grants (sh_persisted (browsers_synth_removed synth n sh)) = p_grants (sh_persisted sh)"
  "p_settings (sh_persisted (browsers_synth_removed synth n sh)) = p_settings (sh_persisted sh)"
  "p_faces (sh_persisted (browsers_synth_removed synth n sh)) = p_faces (sh_persisted sh)"
  "p_observe (sh_persisted (browsers_synth_removed synth n sh)) = p_observe (sh_persisted sh)"
  "p_egress_month (sh_persisted (browsers_synth_removed synth n sh)) = p_egress_month (sh_persisted sh)"
  "p_egress_bytes (sh_persisted (browsers_synth_removed synth n sh)) = p_egress_bytes (sh_persisted sh)"
  "slot_at (browsers_synth_removed synth n sh) = slot_at sh"
  by (simp_all add: browsers_synth_removed_def Let_def)

lemma drop_bare_token_keeps [core_simps, simp]:
  "sh_persisted (drop_bare_token b sh) = sh_persisted sh" "sh_path (drop_bare_token b sh) = sh_path sh"
  "sh_saves (drop_bare_token b sh) = sh_saves sh" "sh_grants (drop_bare_token b sh) = sh_grants sh"
  "sh_journal (drop_bare_token b sh) = sh_journal sh" "sh_paused (drop_bare_token b sh) = sh_paused sh"
  "sh_metered (drop_bare_token b sh) = sh_metered sh"
  "sh_streams_open (drop_bare_token b sh) = sh_streams_open sh"
  "sh_backoff (drop_bare_token b sh) = sh_backoff sh" "sh_daemon (drop_bare_token b sh) = sh_daemon sh"
  "sh_daemon_bin (drop_bare_token b sh) = sh_daemon_bin sh"
  "sh_cua_sessions (drop_bare_token b sh) = sh_cua_sessions sh"
  "sh_directory (drop_bare_token b sh) = sh_directory sh" "sh_task (drop_bare_token b sh) = sh_task sh"
  "sh_counters (drop_bare_token b sh) = sh_counters sh" "sh_slots (drop_bare_token b sh) = sh_slots sh"
  "sh_links (drop_bare_token b sh) = sh_links sh" "sh_pending (drop_bare_token b sh) = sh_pending sh"
  "sh_lease (drop_bare_token b sh) = sh_lease sh" "sh_events (drop_bare_token b sh) = sh_events sh"
  "sh_settings_tx (drop_bare_token b sh) = sh_settings_tx sh"
  "sh_control_tx (drop_bare_token b sh) = sh_control_tx sh" "sh_limits (drop_bare_token b sh) = sh_limits sh"
  "sh_agent_cursor (drop_bare_token b sh) = sh_agent_cursor sh"
  "sh_shell_stops (drop_bare_token b sh) = sh_shell_stops sh"
  "sh_hub (drop_bare_token b sh) = sh_hub sh"
  "sh_transfers (drop_bare_token b sh) = sh_transfers sh"
  "sh_extension_first (drop_bare_token b sh) = sh_extension_first sh"
  "sh_notified (drop_bare_token b sh) = sh_notified sh"
  "sh_sessions (drop_bare_token b sh) = sh_sessions sh" "sh_asked (drop_bare_token b sh) = sh_asked sh"
  "slot_at (drop_bare_token b sh) = slot_at sh"
  by (simp_all add: drop_bare_token_def slot_at_def fun_eq_iff)

lemma lease_release_keeps [core_simps, simp]:
  "sh_persisted (lease_release synth sh) = sh_persisted sh" "sh_path (lease_release synth sh) = sh_path sh"
  "sh_saves (lease_release synth sh) = sh_saves sh" "sh_grants (lease_release synth sh) = sh_grants sh"
  "sh_journal (lease_release synth sh) = sh_journal sh" "sh_secret (lease_release synth sh) = sh_secret sh"
  "sh_paused (lease_release synth sh) = sh_paused sh" "sh_metered (lease_release synth sh) = sh_metered sh"
  "sh_streams_open (lease_release synth sh) = sh_streams_open sh"
  "sh_backoff (lease_release synth sh) = sh_backoff sh" "sh_daemon (lease_release synth sh) = sh_daemon sh"
  "sh_daemon_bin (lease_release synth sh) = sh_daemon_bin sh"
  "sh_cua_sessions (lease_release synth sh) = sh_cua_sessions sh"
  "sh_directory (lease_release synth sh) = sh_directory sh" "sh_task (lease_release synth sh) = sh_task sh"
  "sh_counters (lease_release synth sh) = sh_counters sh" "sh_slots (lease_release synth sh) = sh_slots sh"
  "sh_links (lease_release synth sh) = sh_links sh" "sh_pending (lease_release synth sh) = sh_pending sh"
  "sh_events (lease_release synth sh) = sh_events sh"
  "sh_settings_tx (lease_release synth sh) = sh_settings_tx sh"
  "sh_control_tx (lease_release synth sh) = sh_control_tx sh"
  "sh_limits (lease_release synth sh) = sh_limits sh"
  "sh_agent_cursor (lease_release synth sh) = sh_agent_cursor sh"
  "sh_shell_stops (lease_release synth sh) = sh_shell_stops sh"
  "sh_hub (lease_release synth sh) = sh_hub sh"
  "sh_transfers (lease_release synth sh) = sh_transfers sh"
  "sh_extension_first (lease_release synth sh) = sh_extension_first sh"
  "sh_notified (lease_release synth sh) = sh_notified sh"
  "sh_sessions (lease_release synth sh) = sh_sessions sh" "sh_asked (lease_release synth sh) = sh_asked sh"
  "slot_at (lease_release synth sh) = slot_at sh"
  by (simp_all add: lease_release_def slot_at_def fun_eq_iff split: option.split)

lemma push_slot_keeps [core_simps, simp]:
  "sh_persisted (snd (push_slot s sh)) = sh_persisted sh" "sh_path (snd (push_slot s sh)) = sh_path sh"
  "sh_saves (snd (push_slot s sh)) = sh_saves sh" "sh_grants (snd (push_slot s sh)) = sh_grants sh"
  "sh_journal (snd (push_slot s sh)) = sh_journal sh" "sh_secret (snd (push_slot s sh)) = sh_secret sh"
  "sh_paused (snd (push_slot s sh)) = sh_paused sh" "sh_metered (snd (push_slot s sh)) = sh_metered sh"
  "sh_streams_open (snd (push_slot s sh)) = sh_streams_open sh"
  "sh_backoff (snd (push_slot s sh)) = sh_backoff sh" "sh_daemon (snd (push_slot s sh)) = sh_daemon sh"
  "sh_daemon_bin (snd (push_slot s sh)) = sh_daemon_bin sh"
  "sh_cua_sessions (snd (push_slot s sh)) = sh_cua_sessions sh"
  "sh_directory (snd (push_slot s sh)) = sh_directory sh" "sh_task (snd (push_slot s sh)) = sh_task sh"
  "sh_counters (snd (push_slot s sh)) = sh_counters sh" "sh_pending (snd (push_slot s sh)) = sh_pending sh"
  "sh_lease (snd (push_slot s sh)) = sh_lease sh" "sh_events (snd (push_slot s sh)) = sh_events sh"
  "sh_settings_tx (snd (push_slot s sh)) = sh_settings_tx sh"
  "sh_control_tx (snd (push_slot s sh)) = sh_control_tx sh" "sh_limits (snd (push_slot s sh)) = sh_limits sh"
  "sh_agent_cursor (snd (push_slot s sh)) = sh_agent_cursor sh"
  "sh_shell_stops (snd (push_slot s sh)) = sh_shell_stops sh"
  "sh_hub (snd (push_slot s sh)) = sh_hub sh"
  "sh_transfers (snd (push_slot s sh)) = sh_transfers sh"
  "sh_extension_first (snd (push_slot s sh)) = sh_extension_first sh"
  "sh_notified (snd (push_slot s sh)) = sh_notified sh"
  "sh_sessions (snd (push_slot s sh)) = sh_sessions sh" "sh_asked (snd (push_slot s sh)) = sh_asked sh"
  "sh_slots (snd (push_slot s sh)) = sh_slots sh @ [s]"
  "sh_links (snd (push_slot s sh)) = sh_links sh @ [length (sh_slots sh)]"
  "fst (push_slot s sh) = length (sh_slots sh)"
  by (simp_all add: push_slot_def Let_def)

text \<open>What wiping a link does, part by part.\<close>

lemma slot_at_secret [simp]: "slot_at (sh\<lparr>sh_secret := x\<rparr>) = slot_at sh"
  and slot_at_grants [simp]: "slot_at (sh\<lparr>sh_grants := g\<rparr>) = slot_at sh"
  and slot_at_links [simp]: "slot_at (sh\<lparr>sh_links := l\<rparr>) = slot_at sh"
  and slot_at_pending [simp]: "slot_at (sh\<lparr>sh_pending := q\<rparr>) = slot_at sh"
  by (simp_all add: slot_at_def fun_eq_iff)

definition wiped_secret :: "link_slot \<Rightarrow> file_store \<Rightarrow> file_store" where
  "wiped_secret s sec =
     (let sec1 = snd (fs_delete sec (sl_token_key s))
      in if sl_legacy_token s then snd (fs_delete sec1 TOKEN_KEY) else sec1)"

definition wiped_slot :: "link_slot \<Rightarrow> link_slot" where
  "wiped_slot s = s\<lparr>sl_stopping := True, sl_wake := True, sl_legacy_token := False, sl_synth := None,
     sl_state := Unpaired, sl_detail := lit ''unpaired''\<rparr>"

lemma wipe_token_keeps [core_simps, simp]:
  "sh_persisted (wipe_token r sh) = sh_persisted sh" "sh_path (wipe_token r sh) = sh_path sh"
  "sh_saves (wipe_token r sh) = sh_saves sh" "sh_grants (wipe_token r sh) = sh_grants sh"
  "sh_journal (wipe_token r sh) = sh_journal sh" "sh_paused (wipe_token r sh) = sh_paused sh"
  "sh_metered (wipe_token r sh) = sh_metered sh" "sh_streams_open (wipe_token r sh) = sh_streams_open sh"
  "sh_backoff (wipe_token r sh) = sh_backoff sh" "sh_daemon (wipe_token r sh) = sh_daemon sh"
  "sh_daemon_bin (wipe_token r sh) = sh_daemon_bin sh"
  "sh_cua_sessions (wipe_token r sh) = sh_cua_sessions sh" "sh_directory (wipe_token r sh) = sh_directory sh"
  "sh_task (wipe_token r sh) = sh_task sh" "sh_counters (wipe_token r sh) = sh_counters sh"
  "sh_links (wipe_token r sh) = sh_links sh" "sh_pending (wipe_token r sh) = sh_pending sh"
  "sh_lease (wipe_token r sh) = sh_lease sh" "sh_events (wipe_token r sh) = sh_events sh"
  "sh_settings_tx (wipe_token r sh) = sh_settings_tx sh" "sh_control_tx (wipe_token r sh) = sh_control_tx sh"
  "sh_limits (wipe_token r sh) = sh_limits sh" "sh_agent_cursor (wipe_token r sh) = sh_agent_cursor sh"
  "sh_shell_stops (wipe_token r sh) = sh_shell_stops sh"
  "sh_hub (wipe_token r sh) = sh_hub sh"
  "sh_transfers (wipe_token r sh) = sh_transfers sh"
  "sh_extension_first (wipe_token r sh) = sh_extension_first sh"
  "sh_notified (wipe_token r sh) = sh_notified sh" "sh_sessions (wipe_token r sh) = sh_sessions sh"
  "sh_asked (wipe_token r sh) = sh_asked sh" "length (sh_slots (wipe_token r sh)) = length (sh_slots sh)"
  by (simp_all add: wipe_token_def Let_def)

lemma wipe_stored_keeps [core_simps, simp]:
  "sh_path (wipe_stored synth sh) = sh_path sh" "sh_grants (wipe_stored synth sh) = sh_grants sh"
  "sh_journal (wipe_stored synth sh) = sh_journal sh" "sh_secret (wipe_stored synth sh) = sh_secret sh"
  "sh_paused (wipe_stored synth sh) = sh_paused sh" "sh_metered (wipe_stored synth sh) = sh_metered sh"
  "sh_streams_open (wipe_stored synth sh) = sh_streams_open sh"
  "sh_backoff (wipe_stored synth sh) = sh_backoff sh" "sh_daemon (wipe_stored synth sh) = sh_daemon sh"
  "sh_daemon_bin (wipe_stored synth sh) = sh_daemon_bin sh"
  "sh_cua_sessions (wipe_stored synth sh) = sh_cua_sessions sh"
  "sh_directory (wipe_stored synth sh) = sh_directory sh" "sh_task (wipe_stored synth sh) = sh_task sh"
  "sh_counters (wipe_stored synth sh) = sh_counters sh" "sh_slots (wipe_stored synth sh) = sh_slots sh"
  "sh_links (wipe_stored synth sh) = sh_links sh" "sh_pending (wipe_stored synth sh) = sh_pending sh"
  "sh_lease (wipe_stored synth sh) = sh_lease sh" "sh_events (wipe_stored synth sh) = sh_events sh"
  "sh_settings_tx (wipe_stored synth sh) = sh_settings_tx sh"
  "sh_control_tx (wipe_stored synth sh) = sh_control_tx sh" "sh_limits (wipe_stored synth sh) = sh_limits sh"
  "sh_agent_cursor (wipe_stored synth sh) = sh_agent_cursor sh"
  "sh_shell_stops (wipe_stored synth sh) = sh_shell_stops sh"
  "sh_hub (wipe_stored synth sh) = sh_hub sh"
  "sh_transfers (wipe_stored synth sh) = sh_transfers sh"
  "sh_extension_first (wipe_stored synth sh) = sh_extension_first sh"
  "sh_notified (wipe_stored synth sh) = sh_notified sh"
  "sh_sessions (wipe_stored synth sh) = sh_sessions sh" "sh_asked (wipe_stored synth sh) = sh_asked sh"
  "p_settings (sh_persisted (wipe_stored synth sh)) = p_settings (sh_persisted sh)"
  "p_egress_month (sh_persisted (wipe_stored synth sh)) = p_egress_month (sh_persisted sh)"
  "p_egress_bytes (sh_persisted (wipe_stored synth sh)) = p_egress_bytes (sh_persisted sh)"
  "p_browsers (sh_persisted (wipe_stored synth sh)) = p_browsers (sh_persisted sh)"
  "slot_at (wipe_stored synth sh) = slot_at sh"
  "sh_persisted (wipe_stored synth sh) = wipe_persisted synth (sh_persisted sh)"
  by (simp_all add: wipe_stored_def Let_def wipe_persisted_def)

lemma slot_at_wipe_token:
  "slot_at (wipe_token r sh) r' =
     (if r' = r \<and> r < length (sh_slots sh)
      then (slot_at sh r)\<lparr>sl_stopping := True, sl_wake := True, sl_legacy_token := False\<rparr> else slot_at sh r')"
  by (simp add: wipe_token_def Let_def slot_at_upd)

lemma wipe_token_secret: "sh_secret (wipe_token r sh) = wiped_secret (slot_at sh r) (sh_secret sh)"
  by (simp add: wipe_token_def Let_def drop_bare_token_def wiped_secret_def)

lemma wipe_token_id: "sl_synth_id (slot_at (wipe_token r sh) r') = sl_synth_id (slot_at sh r')"
  by (simp add: slot_at_wipe_token)

lemma wipe_slot_grants: "sh_grants (wipe_slot r sh) = clear_synth (sl_synth_id (slot_at sh r)) (sh_grants sh)"
  by (simp add: wipe_slot_def Let_def)

lemma wipe_slot_links: "sh_links (wipe_slot r sh) = filter (\<lambda>l. l \<noteq> r) (sh_links sh)"
  by (simp add: wipe_slot_def Let_def)

lemma wipe_slot_persisted:
  "p_identities (sh_persisted (wipe_slot r sh)) =
     filter (\<lambda>i. id_synth_id i \<noteq> sl_synth_id (slot_at sh r)) (p_identities (sh_persisted sh))"
  "p_grants (sh_persisted (wipe_slot r sh)) =
     filter (\<lambda>g. sg_synth_id g \<noteq> sl_synth_id (slot_at sh r)) (p_grants (sh_persisted sh))"
  "p_faces (sh_persisted (wipe_slot r sh)) = (p_faces (sh_persisted sh))(sl_synth_id (slot_at sh r) := None)"
  "os_on (p_observe (sh_persisted (wipe_slot r sh))) =
     (os_on (p_observe (sh_persisted sh)))(sl_synth_id (slot_at sh r) := None)"
  by (simp_all add: wipe_slot_def Let_def wipe_persisted_def)

lemma wipe_slot_lease: "sh_lease (wipe_slot r sh) = sh_lease (lease_release (sl_synth_id (slot_at sh r)) sh)"
  by (simp add: wipe_slot_def Let_def lease_release_def split: option.split)

lemma wipe_slot_others:
  "length (sh_slots (wipe_slot r sh)) = length (sh_slots sh)"
  "sh_path (wipe_slot r sh) = sh_path sh" "sh_pending (wipe_slot r sh) = sh_pending sh"
  by (simp_all add: wipe_slot_def Let_def)

lemma wipe_slot_secret: "sh_secret (wipe_slot r sh) = wiped_secret (slot_at sh r) (sh_secret sh)"
  by (simp add: wipe_slot_def Let_def wipe_token_secret)

lemmas wipe_slot_parts = wipe_slot_grants wipe_slot_links wipe_slot_persisted wipe_slot_lease
  wipe_slot_others wipe_slot_secret

lemma slot_at_wiped:
  "slot_at (wipe_slot r sh) r' =
     (if r' = r \<and> r < length (sh_slots sh) then wiped_slot (slot_at sh r) else slot_at sh r')"
  by (simp add: wipe_slot_def Let_def slot_at_set_state slot_at_upd wiped_slot_def slot_at_wipe_token)

text \<open>What adding one does when the token could be stored.\<close>

lemma with_identity_keeps [simp]:
  "slot_at (with_identity p sh) = slot_at sh" "sh_links (with_identity p sh) = sh_links sh"
  "sh_slots (with_identity p sh) = sh_slots sh" "sh_grants (with_identity p sh) = sh_grants sh"
  "sh_secret (with_identity p sh) = sh_secret sh" "sh_lease (with_identity p sh) = sh_lease sh"
  "p_identities (sh_persisted (with_identity p sh)) = update_identity p (p_identities (sh_persisted sh))"
  "p_grants (sh_persisted (with_identity p sh)) = p_grants (sh_persisted sh)"
  by (simp_all add: with_identity_def)

lemma find_link_with_identity [simp]: "find_link i (with_identity p sh) = find_link i sh"
  by (simp add: find_link_def)

lemma find_link_secret [simp]: "find_link i (sh\<lparr>sh_secret := x\<rparr>) = find_link i sh"
  by (simp add: find_link_def)

lemma add_link_ok:
  assumes "add_link p sh = (Ok b, sh')"
  shows "\<exists>sec. fs_set (sh_secret sh) (token_key (pn_synth_id p)) (pn_token p) = (Ok (), sec) \<and>
    pn_synth_id p \<noteq> [] \<and> b = (\<not> is_paired sh) \<and>
    sh' = browsers_synth_added (emit (EvPaired (pn_synth_id p))
      (case find_link (pn_synth_id p) sh of
         Some r \<Rightarrow> add_existing p r (with_identity p (sh\<lparr>sh_secret := sec\<rparr>))
       | None \<Rightarrow> add_new p (with_identity p (sh\<lparr>sh_secret := sec\<rparr>))))"
  using assms
  by (auto simp: add_link_def Let_def split: if_splits prod.splits sum.splits option.splits)

section \<open>The links stay consistent\<close>

text \<open>
  Each link is a cell of its own; each stored pairing is of another synth; a link of a
  pairing has an id, its own token key and its pairing on disk, and no two links are of one
  synth.
\<close>

definition slot_ok :: "persisted \<Rightarrow> link_slot \<Rightarrow> bool" where
  "slot_ok p s \<longleftrightarrow>
     (if sl_adhoc s then sl_synth_id s = [] \<and> sl_token_key s = TOKEN_KEY
      else sl_synth_id s \<noteq> [] \<and> sl_token_key s = token_key (sl_synth_id s) \<and>
           sl_synth_id s \<in> id_synth_id ` set (p_identities p))"

definition core_ok :: "shared \<Rightarrow> bool" where
  "core_ok sh \<longleftrightarrow>
     distinct (sh_links sh) \<and> (\<forall>r \<in> set (sh_links sh). r < length (sh_slots sh)) \<and>
     (\<forall>r \<in> set (sh_links sh). slot_ok (sh_persisted sh) (slot_at sh r)) \<and>
     (\<forall>r \<in> set (sh_links sh). \<forall>l \<in> set (sh_links sh).
        sl_synth_id (slot_at sh r) = sl_synth_id (slot_at sh l) \<and> sl_synth_id (slot_at sh r) \<noteq> [] \<longrightarrow> r = l) \<and>
     distinct (map id_synth_id (p_identities (sh_persisted sh)))"

inductive link_step :: "shared \<Rightarrow> shared \<Rightarrow> bool" where
  step_add: "link_step sh (snd (add_link p sh))"
| step_wipe: "r \<in> set (sh_links sh) \<Longrightarrow> link_step sh (wipe_slot r sh)"
| step_adhoc: "link_step sh (snd (adhoc_slot url sh))"
| step_ack: "r < length (sh_slots sh) \<Longrightarrow> link_step sh (set_synth r ack sh)"
| step_state: "r < length (sh_slots sh) \<Longrightarrow> link_step sh (set_slot_state r st d sh)"
| step_unpair: "link_step sh (snd (unpair_start i sh))"
| step_claim: "link_step sh (snd (pair_claimed answer sh))"
| step_cancel: "link_step sh (pair_cancel sh)"

inductive link_run :: "shared \<Rightarrow> shared \<Rightarrow> bool" where
  run_refl [simp, intro]: "link_run sh sh"
| run_step: "link_run sh sh1 \<Longrightarrow> link_step sh1 sh2 \<Longrightarrow> link_run sh sh2"

lemma update_identity_ids:
  "map id_synth_id (update_identity p is) =
     (if pn_synth_id p \<in> id_synth_id ` set is then map id_synth_id is else map id_synth_id is @ [pn_synth_id p])"
  by (induction "is") auto

lemma update_identity_set:
  "id_synth_id ` set (update_identity p is) = insert (pn_synth_id p) (id_synth_id ` set is)"
  by (induction "is") auto

lemma rename_identity_ids: "map id_synth_id (fst (rename_identity i n is)) = map id_synth_id is"
  by (induction "is") (auto simp: Let_def split: prod.split)

lemma slot_ok_mono:
  "slot_ok p s \<Longrightarrow> id_synth_id ` set (p_identities p) \<subseteq> id_synth_id ` set (p_identities q) \<Longrightarrow> slot_ok q s"
  by (auto simp: slot_ok_def split: if_splits)

lemma slot_ok_ids:
  "map id_synth_id (p_identities p) = map id_synth_id (p_identities q) \<Longrightarrow> slot_ok p s = slot_ok q s"
  by (metis list.set_map slot_ok_def)

text \<open>Changes that leave the ids, the keys, the links and the stored pairings as they are.\<close>

definition same_links :: "shared \<Rightarrow> shared \<Rightarrow> bool" where
  "same_links sh sh' \<longleftrightarrow>
     sh_links sh' = sh_links sh \<and> length (sh_slots sh') = length (sh_slots sh) \<and>
     map id_synth_id (p_identities (sh_persisted sh')) = map id_synth_id (p_identities (sh_persisted sh)) \<and>
     (\<forall>r. sl_synth_id (slot_at sh' r) = sl_synth_id (slot_at sh r) \<and>
          sl_adhoc (slot_at sh' r) = sl_adhoc (slot_at sh r) \<and>
          sl_token_key (slot_at sh' r) = sl_token_key (slot_at sh r))"

lemma slot_ok_same:
  assumes "same_links sh sh'"
  shows "slot_ok (sh_persisted sh') (slot_at sh' r) = slot_ok (sh_persisted sh) (slot_at sh r)"
proof -
  have "id_synth_id ` set (p_identities (sh_persisted sh')) = id_synth_id ` set (p_identities (sh_persisted sh))"
    using assms unfolding same_links_def by (metis list.set_map)
  then show ?thesis using assms by (simp add: slot_ok_def same_links_def)
qed

lemma core_ok_same: "same_links sh sh' \<Longrightarrow> core_ok sh' = core_ok sh"
  using slot_ok_same [of sh sh'] by (simp add: core_ok_def same_links_def)

lemma same_links_set_synth: "same_links sh (set_synth r ack sh)"
proof -
  have "map id_synth_id (fst (rename_identity i n l)) = map id_synth_id l" for i n l
    by (rule rename_identity_ids)
  then show ?thesis
    by (auto simp: same_links_def set_synth_def Let_def slot_at_upd split: prod.split)
      (metis fst_conv)+
qed

lemma same_links_small:
  "same_links sh (set_slot_state r st d sh)"
  "same_links sh (snd (unpair_start i sh))"
  "same_links sh (snd (pair_claimed answer sh))"
  "same_links sh (pair_cancel sh)"
  by (auto simp: same_links_def slot_at_set_state unpair_start_def Let_def slot_at_upd pair_claimed_def
      pair_cancel_def split: option.split sum.split)

lemma core_ok_wipe:
  assumes ok: "core_ok sh" and r: "r \<in> set (sh_links sh)"
  shows "core_ok (wipe_slot r sh)"
proof -
  have ids: "sl_synth_id (slot_at (wipe_slot r sh) l) = sl_synth_id (slot_at sh l)" for l
    by (simp add: slot_at_wiped wiped_slot_def)
  have "slot_ok (sh_persisted (wipe_slot r sh)) (slot_at (wipe_slot r sh) l)"
    if "l \<in> set (sh_links sh)" "l \<noteq> r" for l
  proof -
    have l: "slot_ok (sh_persisted sh) (slot_at sh l)" using ok that by (simp add: core_ok_def)
    have "sl_synth_id (slot_at sh l) \<noteq> sl_synth_id (slot_at sh r) \<or> sl_synth_id (slot_at sh l) = []"
      using ok that r unfolding core_ok_def by metis
    with l that show ?thesis
      by (auto simp: slot_ok_def slot_at_wiped wipe_slot_persisted split: if_splits)
  qed
  then show ?thesis
    using ok by (auto simp: core_ok_def wipe_slot_links wipe_slot_persisted wipe_slot_others ids
        distinct_keys_filter)
qed

lemma find_link_Some:
  "find_link i sh = Some r \<Longrightarrow> r \<in> set (sh_links sh) \<and> sl_synth_id (slot_at sh r) = i"
  unfolding find_link_def by (rule find_SomeD)

lemma find_link_None: "find_link i sh = None \<Longrightarrow> r \<in> set (sh_links sh) \<Longrightarrow> sl_synth_id (slot_at sh r) \<noteq> i"
  using find_None_iff_ex [of "\<lambda>r. sl_synth_id (slot_at sh r) = i" "sh_links sh"]
  by (auto simp: find_link_def)

lemma slot_at_push:
  "slot_at (snd (push_slot s sh)) r =
     (if r < length (sh_slots sh) then slot_at sh r else ([s] @ []) ! (r - length (sh_slots sh)))"
  by (simp add: slot_at_def nth_append)

lemma core_ok_push:
  assumes ok: "core_ok sh" and s: "slot_ok (sh_persisted sh) s"
    and fresh: "sl_synth_id s = [] \<or> find_link (sl_synth_id s) sh = None"
  shows "core_ok (snd (push_slot s sh))"
proof -
  let ?n = "length (sh_slots sh)"
  have old: "slot_at (snd (push_slot s sh)) r = slot_at sh r" if "r \<in> set (sh_links sh)" for r
    using ok that by (simp add: slot_at_push core_ok_def)
  have new: "slot_at (snd (push_slot s sh)) ?n = s" by (simp add: slot_at_push)
  have other: "sl_synth_id (slot_at sh r) \<noteq> sl_synth_id s \<or> sl_synth_id s = []" if "r \<in> set (sh_links sh)" for r
    using fresh find_link_None that by blast
  have lt: "r < ?n" if "r \<in> set (sh_links sh)" for r using ok that by (simp add: core_ok_def)
  show ?thesis
    using ok s other lt unfolding core_ok_def
    by (auto simp: old new less_Suc_eq dest: other)
qed

lemma core_ok_with_identity: "core_ok sh \<Longrightarrow> core_ok (with_identity p sh)"
proof -
  assume ok: "core_ok sh"
  let ?q = "sh_persisted (with_identity p sh)"
  have "distinct (map id_synth_id (p_identities ?q))"
    using ok update_identity_ids [of p "p_identities (sh_persisted sh)"] by (auto simp: core_ok_def)
  moreover have "slot_ok (sh_persisted sh) s \<Longrightarrow> slot_ok ?q s" for s
    by (rule slot_ok_mono) (auto simp: update_identity_set)
  ultimately show ?thesis using ok by (auto simp: core_ok_def)
qed

lemma same_links_keeps: "same_links sh (browsers_synth_added (emit e sh))" "same_links sh (sh\<lparr>sh_secret := x\<rparr>)"
  by (simp_all add: same_links_def)

lemma same_links_add_existing: "same_links sh (add_existing p r sh)"
  by (simp add: same_links_def add_existing_def slot_at_upd slot_at_set_state repair_slot_def)

lemma same_links_trans: "same_links a b \<Longrightarrow> same_links b c \<Longrightarrow> same_links a c"
  by (simp add: same_links_def)

lemma core_ok_add: "core_ok sh \<Longrightarrow> core_ok (snd (add_link p sh))"
proof (cases "add_link p sh")
  case (Pair res sh')
  assume ok: "core_ok sh"
  show ?thesis
  proof (cases res)
    case (Inl e)
    with Pair have "same_links sh sh'"
      by (auto simp: add_link_def Let_def same_links_def split: if_splits prod.splits sum.splits option.splits)
    with ok Pair show ?thesis by (simp add: core_ok_same)
  next
    case (Inr b)
    from add_link_ok [OF Pair [unfolded Inr]] obtain sec where
      id: "pn_synth_id p \<noteq> []" and sh': "sh' = browsers_synth_added (emit (EvPaired (pn_synth_id p))
        (case find_link (pn_synth_id p) sh of
           Some r \<Rightarrow> add_existing p r (with_identity p (sh\<lparr>sh_secret := sec\<rparr>))
         | None \<Rightarrow> add_new p (with_identity p (sh\<lparr>sh_secret := sec\<rparr>))))" by blast
    let ?sh1 = "with_identity p (sh\<lparr>sh_secret := sec\<rparr>)"
    have ok1: "core_ok ?sh1"
      using ok core_ok_same [OF same_links_keeps(2)] by (intro core_ok_with_identity) simp
    have "core_ok (case find_link (pn_synth_id p) sh of Some r \<Rightarrow> add_existing p r ?sh1 | None \<Rightarrow> add_new p ?sh1)"
    proof (cases "find_link (pn_synth_id p) sh")
      case None
      have "core_ok (snd (push_slot (from_identity (pending_identity p)) ?sh1))"
      proof (rule core_ok_push [OF ok1])
        have "pn_synth_id p \<in> set (map id_synth_id (update_identity p (p_identities (sh_persisted sh))))"
          unfolding update_identity_ids by (auto split: if_splits)
        then show "slot_ok (sh_persisted ?sh1) (from_identity (pending_identity p))"
          using id by (simp add: slot_ok_def from_identity_def new_slot_def pending_identity_def)
        show "sl_synth_id (from_identity (pending_identity p)) = [] \<or>
            find_link (sl_synth_id (from_identity (pending_identity p))) ?sh1 = None"
          using None by (simp add: from_identity_def new_slot_def pending_identity_def)
      qed
      then show ?thesis
        using None core_ok_same [OF same_links_small(1)]
        by (simp add: add_new_def Let_def case_prod_unfold)
    next
      case (Some r)
      with ok1 show ?thesis using core_ok_same [OF same_links_add_existing] by simp
    qed
    then show ?thesis using Pair sh' core_ok_same [OF same_links_keeps(1)] by simp
  qed
qed

lemma core_ok_adhoc: "core_ok sh \<Longrightarrow> core_ok (snd (adhoc_slot url sh))"
  unfolding adhoc_slot_def
  by (rule core_ok_push) (simp_all add: slot_ok_def new_slot_def)

lemma core_ok_step: "link_step sh sh' \<Longrightarrow> core_ok sh \<Longrightarrow> core_ok sh'"
  by (induction rule: link_step.induct)
    (auto intro: core_ok_add core_ok_wipe core_ok_adhoc
      simp: core_ok_same [OF same_links_set_synth] core_ok_same [OF same_links_small(1)]
        core_ok_same [OF same_links_small(2)] core_ok_same [OF same_links_small(3)]
        core_ok_same [OF same_links_small(4)])

lemma core_ok_run: "link_run sh sh' \<Longrightarrow> core_ok sh \<Longrightarrow> core_ok sh'"
  by (induction rule: link_run.induct) (auto intro: core_ok_step)

section \<open>Properties\<close>


definition example_pending :: pending where
  "example_pending = \<lparr>pn_synth_id = lit ''mia'', pn_synth_url = lit ''https://mia'', pn_token = lit ''t'',
     pn_synth_name = lit ''Mia'', pn_source = SrcCode, pn_hub_id = [], pn_linked_to_account = None,
     pn_reason = None\<rparr>"

lemma blank_core_ok: "core_ok (blank_shared s)"
  by (simp add: core_ok_def blank_shared_def make_shared_def fresh_def)


lemma clear_synth_allows:
  "\<not> fst (grant_allows now s c sc (clear_synth s g))"
  by (auto simp: grant_allows_def clear_synth_def Let_def prune_def)

lemma clear_synth_other_allows:
  "o' \<noteq> s \<Longrightarrow> fst (grant_allows now o' c sc (clear_synth s g)) = fst (grant_allows now o' c sc g)"
  by (auto simp: grant_allows_def clear_synth_def Let_def prune_def)

lemma fs_delete_other: "k' \<noteq> k \<Longrightarrow> fs_get (snd (fs_delete sec k)) k' = fs_get sec k'"
  by (rule file_secrets.del_other_eq)

lemma wiped_secret_other:
  "o' \<noteq> sl_token_key s \<Longrightarrow> o' \<noteq> TOKEN_KEY \<Longrightarrow> fs_get (wiped_secret s sec) o' = fs_get sec o'"
  by (simp add: wiped_secret_def Let_def fs_delete_other)

lemma wiped_secret_gone:
  "sec = \<lparr>fs_file = SecMap m, fs_writes = []\<rparr> \<Longrightarrow> fs_get (wiped_secret s sec) (sl_token_key s) = Ok None"
  by (simp add: wiped_secret_def Let_def fs_delete_def fs_get_def read_map_def write_map_def)


definition linked_shared :: shared where
  "linked_shared = snd (add_link example_pending (blank_shared default_settings))"

lemma linked_shared_facts:
  "core_ok linked_shared" "sh_links linked_shared = [0]" "\<not> sl_adhoc (slot_at linked_shared 0)"
  "sl_synth_id (slot_at linked_shared 0) = lit ''mia''"
proof -
  show "core_ok linked_shared" unfolding linked_shared_def by (rule core_ok_add [OF blank_core_ok])
  have none: "find_link (lit ''mia'') (blank_shared default_settings) = None"
    by (simp add: find_link_def blank_shared_def make_shared_def)
  obtain sec where "fs_set (sh_secret (blank_shared default_settings)) (token_key (lit ''mia'')) (lit ''t'') = (Ok (), sec)"
    by (simp add: fs_set_def read_map_def write_map_def blank_shared_def make_shared_def)
  with none have st: "linked_shared = browsers_synth_added (emit (EvPaired (lit ''mia''))
      (add_new example_pending (with_identity example_pending ((blank_shared default_settings)\<lparr>sh_secret := sec\<rparr>))))"
    by (simp add: linked_shared_def add_link_def example_pending_def Let_def lit_def)
  show "sh_links linked_shared = [0]" "\<not> sl_adhoc (slot_at linked_shared 0)"
    "sl_synth_id (slot_at linked_shared 0) = lit ''mia''"
    unfolding st
    by (simp_all add: add_new_def Let_def case_prod_unfold slot_at_set_state slot_at_push
        from_identity_def new_slot_def pending_identity_def example_pending_def blank_shared_def make_shared_def)
qed


text \<open>
  a pairing that is confirmed again while an unpairing of the same synth waits for its
  answer does not survive it: the confirmation succeeds, and then the end of the unpairing
  removes the link and the pairing it stored.
\<close>

theorem unpair_undoes_new_pairing:
  assumes ok: "core_ok sh" and start: "unpair_start s sh = (Some r, sh1)" and s: "s \<noteq> []"
    and add: "add_link p sh1 = (Ok b, sh2)" and p: "pn_synth_id p = s"
  shows "find_link s sh2 = Some r \<and> find_link s (unpair_finish r sh2) = None \<and>
    identity_of (sh_persisted sh2) s \<noteq> None \<and> identity_of (sh_persisted (unpair_finish r sh2)) s = None"
proof -
  have sh1: "same_links sh sh1" using same_links_small(2) [of sh s] start by simp
  have r: "find_link s sh = Some r" using start by (auto simp: unpair_start_def Let_def split: option.splits)
  have find_same: "find_link s a = find_link s c" if "same_links c a" for a c
    using that by (simp add: find_link_def same_links_def)
  have r1: "find_link s sh1 = Some r" using r find_same [OF sh1] by simp
  from add_link_ok [OF add] obtain sec where sh2: "sh2 = browsers_synth_added (emit (EvPaired s)
      (add_existing p r (with_identity p (sh1\<lparr>sh_secret := sec\<rparr>))))"
    using r1 p by auto
  have "same_links (with_identity p (sh1\<lparr>sh_secret := sec\<rparr>)) sh2"
    unfolding sh2 by (rule same_links_trans [OF same_links_add_existing same_links_keeps(1)])
  from find_same [OF this] r1 have r2: "find_link s sh2 = Some r" by simp
  have "core_ok sh2" using core_ok_add [of sh1 p] ok core_ok_same [OF sh1] add by simp
  moreover have same: "same_links sh2 (upd_slot r (\<lambda>s. s\<lparr>sl_unpair_ack := False\<rparr>) sh2)"
    by (simp add: same_links_def slot_at_upd)
  ultimately have ok3: "core_ok (upd_slot r (\<lambda>s. s\<lparr>sl_unpair_ack := False\<rparr>) sh2)" by (simp add: core_ok_same)
  let ?sh3 = "upd_slot r (\<lambda>s. s\<lparr>sl_unpair_ack := False\<rparr>) sh2"
  have f3: "find_link s ?sh3 = Some r" using r2 find_same [OF same] by simp
  note l3 = find_link_Some [OF f3]
  have alone: "l = r" if "l \<in> set (sh_links ?sh3)" "sl_synth_id (slot_at ?sh3 l) = s" for l
    using ok3 that l3 s unfolding core_ok_def by metis
  have "find_link s (unpair_finish r sh2) = None"
    using alone by (auto simp: unpair_finish_def find_link_def find_None_iff wipe_slot_links slot_at_wiped wiped_slot_def)
  moreover have "identity_of (sh_persisted (unpair_finish r sh2)) s = None"
    using l3 by (auto simp: unpair_finish_def identity_of_def wipe_slot_persisted find_None_iff)
  moreover have "s \<in> id_synth_id ` set (p_identities (sh_persisted sh2))"
    unfolding sh2 using p update_identity_set [of p] by (simp add: add_existing_def)
  then have "identity_of (sh_persisted sh2) s \<noteq> None"
    by (auto simp: identity_of_def find_None_iff)
  ultimately show ?thesis using r2 by simp
qed

theorem unpair_undoes_new_pairing_witness:
  "\<exists>r sh1 sh2. unpair_start (lit ''mia'') linked_shared = (Some r, sh1) \<and>
     snd (add_link example_pending sh1) = sh2 \<and> find_link (lit ''mia'') sh2 = Some r \<and>
     find_link (lit ''mia'') (unpair_finish r sh2) = None"
proof -
  have "find_link (lit ''mia'') linked_shared = Some 0"
    by (simp add: find_link_def linked_shared_facts)
  then obtain sh1 where st: "unpair_start (lit ''mia'') linked_shared = (Some 0, sh1)"
    by (simp add: unpair_start_def Let_def)
  have sec: "sh_secret sh1 = sh_secret linked_shared"
    using st by (auto simp: unpair_start_def Let_def split: option.splits)
  have "fs_writes (sh_secret linked_shared) = [] \<and> (\<exists>m. fs_file (sh_secret linked_shared) = SecMap m)"
    by (simp add: linked_shared_def add_link_def example_pending_def Let_def lit_def fs_set_def read_map_def
        write_map_def blank_shared_def make_shared_def add_new_def case_prod_unfold add_existing_def
        drop_bare_token_def fs_delete_def split: option.split)
  then obtain b sh2 where add: "add_link example_pending sh1 = (Ok b, sh2)"
    by (auto simp: add_link_def example_pending_def Let_def sec fs_set_def read_map_def write_map_def lit_def)
  have "lit ''mia'' \<noteq> []" "pn_synth_id example_pending = lit ''mia''"
    by (simp_all add: lit_def example_pending_def)
  from unpair_undoes_new_pairing [OF linked_shared_facts(1) st this(1) add this(2)] st add
  show ?thesis by auto
qed

lemma aggregate_find:
  "aggregate_state ls False = (if ls = [] then Unpaired
     else if Linked \<in> lb_state ` set ls then Linked
     else if Connecting \<in> lb_state ` set ls then Connecting
     else if Reconnecting \<in> lb_state ` set ls then Reconnecting
     else if lb_state ` set ls \<subseteq> {NeedsRepair} then NeedsRepair else Unpaired)"
  by (auto simp: aggregate_state_def list_ex_iff list_all_iff image_iff)

lemma Max_state:
  "finite A \<Longrightarrow> x \<in> A \<Longrightarrow> (\<And>y :: link_state. y \<in> A \<Longrightarrow> state_rank y \<le> state_rank x) \<Longrightarrow> Max A = x"
  by (rule Max_eqI) (simp_all add: less_eq_link_state_def)

lemma Max_best:
  assumes "finite A" "A \<noteq> {}" "Paused \<notin> A"
  shows "Max A = (if Linked \<in> A then Linked else if Connecting \<in> A then Connecting
     else if Reconnecting \<in> A then Reconnecting
     else if A \<subseteq> {NeedsRepair} then NeedsRepair else Unpaired)" (is "_ = ?best")
proof (rule Max_state [OF assms(1)])
  have other: "\<exists>y \<in> A. y \<noteq> NeedsRepair" if "\<not> A \<subseteq> {NeedsRepair}" using that by blast
  have states: "y = Unpaired" if "y \<in> A" "y \<noteq> NeedsRepair" "Linked \<notin> A" "Connecting \<notin> A" "Reconnecting \<notin> A" for y
    using that assms(3) by (cases y) simp_all
  have alone: "NeedsRepair \<in> A" if "A \<subseteq> {NeedsRepair}" using that assms(2) by blast
  show "?best \<in> A"
    using other states alone by (simp split: if_split) metis
  show "state_rank y \<le> state_rank ?best" if "y \<in> A" for y
    using that assms(3) states [OF that] by (cases y) auto
qed

text \<open>
  the one status line of all links is the best of their states (linked, connecting,
  reconnecting, unpaired, and a new token needed only when every link needs one); a pause
  goes before all of them, and a computer without links reads unpaired.
\<close>

theorem aggregate_is_best:
  "Paused \<in> lb_state ` set ls \<or>
   aggregate_state ls paused =
     (if ls = [] then Unpaired else if paused then Paused else Max (lb_state ` set ls))"
proof (cases "ls = [] \<or> paused \<or> Paused \<in> lb_state ` set ls")
  case False
  then have "Max (lb_state ` set ls) = aggregate_state ls False"
    unfolding aggregate_find by (subst Max_best) simp_all
  with False show ?thesis by simp
qed (auto simp: aggregate_state_def)

text \<open>A restart with the token at hand.\<close>

lemma update_identity_url:
  "distinct (map id_synth_id is) \<Longrightarrow> i \<in> set (update_identity p is) \<Longrightarrow> id_synth_id i = pn_synth_id p \<Longrightarrow>
   id_synth_url i = pn_synth_url p"
proof (induction "is")
  case (Cons j js)
  then show ?case
    by (cases "id_synth_id j = pn_synth_id p") (auto simp: image_iff)
qed simp

lemma open_own_token:
  "some_token (fs_get sec (token_key s)) \<noteq> None \<Longrightarrow>
   open_stored_link fs_get fs_set fs_delete one s sec = (Some False, sec)"
  by (simp add: open_stored_link_def)

lemma open_links_keeps:
  assumes "\<not> one \<or> length is = 1" "i \<in> set is" "some_token (fs_get sec (token_key (id_synth_id i))) \<noteq> None"
  shows "snd (open_links one is sec) = sec \<and>
    (from_identity i)\<lparr>sl_legacy_token := False\<rparr> \<in> set (fst (open_links one is sec)) \<and>
    (\<forall>l \<in> set (fst (open_links one is sec)). sl_synth_id l \<in> id_synth_id ` set is) \<and>
    (distinct (map id_synth_id is) \<longrightarrow> (\<forall>l \<in> set (fst (open_links one is sec)).
       sl_synth_id l = id_synth_id i \<longrightarrow> l = (from_identity i)\<lparr>sl_legacy_token := False\<rparr>))"
proof (cases one)
  case True
  with assms(1,2) have "is = [i]" by (cases "is") auto
  with assms(3) show ?thesis by (simp add: open_own_token from_identity_def new_slot_def)
next
  case False
  have open_no: "open_stored_link fs_get fs_set fs_delete False (id_synth_id j) sec = (Some False, sec) \<or>
      open_stored_link fs_get fs_set fs_delete False (id_synth_id j) sec = (None, sec)" for j
    by (simp add: open_stored_link_def)
  have sec: "snd (open_links False js sec) = sec \<and>
      (\<forall>l \<in> set (fst (open_links False js sec)). sl_synth_id l \<in> id_synth_id ` set js)" for js
  proof (induction js)
    case (Cons j js)
    then show ?case using open_no [of j]
      by (cases "open_links False js sec") (auto simp: from_identity_def new_slot_def)
  qed simp
  have "(from_identity i)\<lparr>sl_legacy_token := False\<rparr> \<in> set (fst (open_links False js sec)) \<and>
      (distinct (map id_synth_id js) \<longrightarrow> (\<forall>l \<in> set (fst (open_links False js sec)).
         sl_synth_id l = id_synth_id i \<longrightarrow> l = (from_identity i)\<lparr>sl_legacy_token := False\<rparr>))"
    if "i \<in> set js" for js
    using that
  proof (induction js)
    case (Cons j js)
    obtain ls sec' where ls: "open_links False js sec = (ls, sec')" by fastforce
    with sec [of js] have [simp]: "sec' = sec" by simp
    show ?case
    proof (cases "j = i")
      case True
      have "l = (from_identity i)\<lparr>sl_legacy_token := False\<rparr>"
        if "distinct (map id_synth_id (j # js))" "l \<in> set ls" "sl_synth_id l = id_synth_id i" for l
      proof -
        from sec [of js] ls have "\<forall>l \<in> set ls. sl_synth_id l \<in> id_synth_id ` set js" by simp
        with that(2,3) have "id_synth_id i \<in> id_synth_id ` set js" by metis
        with that(1) True show ?thesis by simp
      qed
      with True show ?thesis using ls by (simp add: open_own_token assms(3))
    next
      case False
      with Cons.prems have i: "i \<in> set js" by simp
      have "id_synth_id j \<noteq> id_synth_id i" if "distinct (map id_synth_id (j # js))"
        using that i by (auto simp: image_iff)
      moreover have "sl_synth_id ((from_identity j)\<lparr>sl_legacy_token := b\<rparr>) = id_synth_id j" for b
        by (simp add: from_identity_def new_slot_def)
      moreover have "fst (open_links False (j # js) sec) = (from_identity j)\<lparr>sl_legacy_token := False\<rparr> # ls \<or>
          fst (open_links False (j # js) sec) = ls"
        using open_no [of j] ls by auto
      ultimately show ?thesis using Cons.IH [OF i] ls
        by (elim disjE) (simp_all del: open_links.simps)
    qed
  qed simp
  with False assms(2) sec [of "is"] show ?thesis by simp
qed

lemma find_index:
  "find (\<lambda>r. P (xs ! r)) [0..<length xs] \<noteq> None \<longleftrightarrow> (\<exists>x \<in> set xs. P x)"
  by (auto simp: find_None_iff) (metis in_set_conv_nth)+

lemma core_new_clean:
  assumes "p_identity p = None"
  shows "core_new lower macos device (Some (FileBytes p)) j sec now wall =
    (let q = the (load_file lower macos device (FileBytes p));
         (slots, sec2) = open_links (length (p_identities p) = 1) (p_identities p) sec
     in make_shared (q\<lparr>p_identity := None\<rparr>) True
          (restore_grants wall (map sl_synth_id slots) (p_grants q)) j sec2 slots (month_key wall)
          (if p_egress_month q = month_key wall then p_egress_bytes q else 0) now)"
  using assms
  by (simp add: core_new_def load_file_def migrate_links_def migrate_legacy_token_def Let_def
      split: prod.split)

text \<open>
  C5: a confirmed pairing survives a restart. It is the last thing written to disk, and a
  core that starts from that file and the same secret store has a link with this synth, at
  the address that was paired, with the token that was stored.
\<close>

theorem pairing_survives_restart:
  assumes ok: "core_ok sh" and path: "sh_path sh" and new: "p_identity (sh_persisted sh) = None"
    and add: "add_link p sh = (Ok b, sh')" and tok: "pn_token p \<noteq> []"
  shows "last (sh_saves sh') = sh_persisted sh' \<and>
    (\<exists>r after. after = core_new lower macos device (Some (FileBytes (last (sh_saves sh')))) j (sh_secret sh') now wall \<and>
       find_link (pn_synth_id p) after = Some r \<and> slot_token r after = Some (pn_token p) \<and>
       sl_url (slot_at after r) = pn_synth_url p)"
proof -
  let ?s = "pn_synth_id p"
  from add_link_ok [OF add] obtain sec where
    set: "fs_set (sh_secret sh) (token_key ?s) (pn_token p) = (Ok (), sec)" and
    sh': "sh' = browsers_synth_added (emit (EvPaired ?s)
      (case find_link ?s sh of
         Some r \<Rightarrow> add_existing p r (with_identity p (sh\<lparr>sh_secret := sec\<rparr>))
       | None \<Rightarrow> add_new p (with_identity p (sh\<lparr>sh_secret := sec\<rparr>))))" by blast
  let ?sh1 = "with_identity p (sh\<lparr>sh_secret := sec\<rparr>)"
  have own: "fs_get sec (token_key ?s) = Ok (Some (pn_token p))" by (rule file_secrets.set_get [OF set])
  have last: "last (sh_saves sh') = sh_persisted sh'" and pers: "sh_persisted sh' = sh_persisted ?sh1"
    using path by (auto simp: sh' add_existing_def add_new_def Let_def with_identity_def save_locked_def
        case_prod_unfold split: option.split)
  have got: "fs_get (sh_secret sh') (token_key ?s) = Ok (Some (pn_token p))"
    using own by (auto simp: sh' add_existing_def add_new_def Let_def case_prod_unfold drop_bare_token_def
        fs_delete_other split: option.split)
  then have some: "some_token (fs_get (sh_secret sh') (token_key ?s)) = Some (pn_token p)"
    using tok by (simp add: some_token_def)
  let ?q = "sh_persisted sh'"
  have ids: "p_identities ?q = update_identity p (p_identities (sh_persisted sh))" by (simp add: pers)
  have none: "p_identity ?q = None" using new by (simp add: pers with_identity_def)
  have dist: "distinct (map id_synth_id (p_identities ?q))"
    using core_ok_add [OF ok, of p] add by (simp add: core_ok_def)
  have "?s \<in> id_synth_id ` set (p_identities ?q)" unfolding ids update_identity_set by simp
  then obtain i where i: "i \<in> set (p_identities ?q)" "id_synth_id i = ?s" by auto
  have url: "id_synth_url i = pn_synth_url p"
    using update_identity_url [of "p_identities (sh_persisted sh)" i p] i ok by (simp add: ids core_ok_def)
  let ?one = "length (p_identities ?q) = 1"
  obtain slots sec2 where op: "open_links ?one (p_identities ?q) (sh_secret sh') = (slots, sec2)" by fastforce
  have opened: "sec2 = sh_secret sh'" "(from_identity i)\<lparr>sl_legacy_token := False\<rparr> \<in> set slots"
    "\<And>l. l \<in> set slots \<Longrightarrow> sl_synth_id l = ?s \<Longrightarrow> l = (from_identity i)\<lparr>sl_legacy_token := False\<rparr>"
    using open_links_keeps [of ?one "p_identities ?q" i "sh_secret sh'"] i dist some op by auto
  define after where "after = core_new lower macos device (Some (FileBytes ?q)) j (sh_secret sh') now wall"
  have a: "sh_slots after = slots" "sh_links after = [0..<length slots]" "sh_secret after = sec2"
    by (simp_all add: after_def core_new_clean [OF none] op make_shared_def Let_def del: One_nat_def)
  have sid: "sl_synth_id ((from_identity i)\<lparr>sl_legacy_token := False\<rparr>) = ?s"
    by (simp add: from_identity_def new_slot_def i)
  have "find_link ?s after \<noteq> None"
  proof -
    have "\<exists>l \<in> set slots. sl_synth_id l = ?s" using sid opened(2) by blast
    then show ?thesis
      using find_index [of "\<lambda>l. sl_synth_id l = ?s" slots] by (simp add: find_link_def slot_at_def a)
  qed
  then obtain r where r: "find_link ?s after = Some r" by blast
  from find_link_Some [OF r] have "slot_at after r = (from_identity i)\<lparr>sl_legacy_token := False\<rparr>"
    using opened(3) by (simp add: slot_at_def a)
  then have "slot_token r after = Some (pn_token p)" "sl_url (slot_at after r) = pn_synth_url p"
    using some url i by (simp_all add: slot_token_def token_of_def a opened(1) from_identity_def new_slot_def)
  with r last show ?thesis unfolding after_def by metis
qed

theorem pairing_survives_restart_witness:
  "\<exists>b sh' r after. add_link example_pending ((blank_shared default_settings)\<lparr>sh_path := True\<rparr>) = (Ok b, sh') \<and>
     after = core_new id True [] (Some (FileBytes (last (sh_saves sh')))) (sh_journal sh') (sh_secret sh') 0 0 \<and>
     find_link (lit ''mia'') after = Some r \<and> slot_token r after = Some (lit ''t'')"
proof -
  let ?sh = "(blank_shared default_settings)\<lparr>sh_path := True\<rparr>"
  have "same_links (blank_shared default_settings) ?sh" by (simp add: same_links_def slot_at_def)
  then have ok: "core_ok ?sh" using blank_core_ok core_ok_same by blast
  have st: "sh_path ?sh" "p_identity (sh_persisted ?sh) = None"
    by (simp_all add: blank_shared_def make_shared_def fresh_def)
  obtain b sh' where add: "add_link example_pending ?sh = (Ok b, sh')"
    by (auto simp: add_link_def example_pending_def Let_def fs_set_def read_map_def write_map_def lit_def
        blank_shared_def make_shared_def)
  have "pn_token example_pending \<noteq> []" by (simp add: example_pending_def lit_def)
  from pairing_survives_restart [OF ok st add this, of id True "[]" "sh_journal sh'" 0 0]
  obtain r where "find_link (lit ''mia'') (core_new id True [] (Some (FileBytes (last (sh_saves sh')))) (sh_journal sh') (sh_secret sh') 0 0) = Some r"
    "slot_token r (core_new id True [] (Some (FileBytes (last (sh_saves sh')))) (sh_journal sh') (sh_secret sh') 0 0) = Some (lit ''t'')"
    by (auto simp: example_pending_def)
  with add show ?thesis by blast
qed

end
