(* ===== verification/Link_Loop.thy ===== *)
theory Link_Loop
  imports Core_Links
begin

text \<open>
  The reconnect loop of one link (\<open>link.rs\<close>, \<open>run_forever\<close>) as a step relation over the
  places where it waits. The code between two waits is one step; while the loop waits,
  the other tasks may change the state in any way (\<open>step_outside\<close>). One dial with
  everything that happens on the connection (\<open>run_one\<close>) is a step that ends in a
  \<open>run_end\<close>. The hosts set the shutdown flag and never clear it. Shown: the pauses stay
  between one and thirty seconds, a refused token is not dialed again by itself, the
  platform is asked for a renewed token at most once until the link was up again, and the
  loop ends exactly when the link is being removed or the program stops.
\<close>

section \<open>The loop\<close>

definition BACKOFF_MIN :: instant where "BACKOFF_MIN = seconds 1"
definition BACKOFF_MAX :: instant where "BACKOFF_MAX = seconds 30"

datatype run_end = RunShutdown | RunDropped utext | RunFailed utext | RunRefused utext

datatype loop_place =
    AtStart
  | AtNoToken
  | AtDial utext utext       \<comment> \<open>the address and the token\<close>
  | AtRemint utext utext     \<comment> \<open>the platform is asked; the refused token and the reason\<close>
  | AtRepair utext           \<comment> \<open>the refused token\<close>
  | AtWait
  | AtEnd

record loop_state =
  lp_at :: loop_place
  lp_backoff :: instant
  lp_reminted :: bool
  lp_shutdown :: bool
  lp_shared :: shared

definition loop_start :: "shared \<Rightarrow> loop_state" where
  "loop_start sh = \<lparr>lp_at = AtStart, lp_backoff = BACKOFF_MIN, lp_reminted = False,
     lp_shutdown = False, lp_shared = sh\<rparr>"

definition stopping :: "slot_ref \<Rightarrow> loop_state \<Rightarrow> bool" where
  "stopping r s \<longleftrightarrow> sl_stopping (slot_at (lp_shared s) r)"

definition goes_to :: "slot_ref \<Rightarrow> link_state \<Rightarrow> utext \<Rightarrow> loop_place \<Rightarrow> loop_state \<Rightarrow> loop_state" where
  "goes_to r st why place s =
     s\<lparr>lp_at := place, lp_shared := set_slot_state r st why (lp_shared s)\<rparr>"

definition loop_finish :: "slot_ref \<Rightarrow> loop_state \<Rightarrow> loop_state" where
  "loop_finish r s =
     (if stopping r s \<or> lp_shutdown s then goes_to r Unpaired (lit ''stopped'') AtEnd s
      else s\<lparr>lp_at := AtEnd\<rparr>)"

definition loop_top :: "slot_ref \<Rightarrow> utext option \<Rightarrow> loop_state \<Rightarrow> loop_state" where
  "loop_top r url s =
     (if lp_shutdown s \<or> stopping r s then loop_finish r s
      else case slot_token r (lp_shared s) of
          None \<Rightarrow> goes_to r Unpaired (lit ''no pairing'') AtNoToken s
        | Some token \<Rightarrow> goes_to r Connecting (lit ''dialing'')
            (AtDial (case url of Some u \<Rightarrow> u | None \<Rightarrow> slot_ws_url (slot_at (lp_shared s) r)) token) s)"

definition loop_pause :: "slot_ref \<Rightarrow> loop_state \<Rightarrow> loop_state" where
  "loop_pause r s = (if stopping r s then loop_finish r s else s\<lparr>lp_at := AtWait\<rparr>)"

definition loop_refused :: "slot_ref \<Rightarrow> utext \<Rightarrow> utext \<Rightarrow> loop_state \<Rightarrow> loop_state" where
  "loop_refused r token why s =
     (if stopping r s then loop_finish r s
      else if sl_source (slot_at (lp_shared s) r) = SrcAccount \<and> \<not> lp_reminted s
      then s\<lparr>lp_at := AtRemint token why, lp_reminted := True\<rparr>
      else goes_to r NeedsRepair why (AtRepair token) s)"

definition loop_dialed :: "slot_ref \<Rightarrow> utext \<Rightarrow> run_end \<Rightarrow> loop_state \<Rightarrow> loop_state" where
  "loop_dialed r token e s =
     (case e of
        RunShutdown \<Rightarrow> loop_finish r s
      | RunDropped why \<Rightarrow> loop_pause r
          ((goes_to r Reconnecting why AtWait s)\<lparr>lp_backoff := BACKOFF_MIN, lp_reminted := False\<rparr>)
      | RunFailed why \<Rightarrow> loop_pause r (goes_to r Reconnecting why AtWait s)
      | RunRefused why \<Rightarrow> loop_refused r token why s)"

definition loop_reminted :: "slot_ref \<Rightarrow> utext option \<Rightarrow> utext \<Rightarrow> utext \<Rightarrow> bool \<Rightarrow> loop_state \<Rightarrow> loop_state" where
  "loop_reminted r url token why renewed s =
     (if renewed then loop_top r url (s\<lparr>lp_backoff := BACKOFF_MIN\<rparr>)
      else goes_to r NeedsRepair why (AtRepair token) s)"

definition loop_repaired :: "slot_ref \<Rightarrow> utext option \<Rightarrow> utext \<Rightarrow> loop_state \<Rightarrow> loop_state" where
  "loop_repaired r url token s =
     (if stopping r s \<or> lp_shutdown s \<or> slot_token r (lp_shared s) \<noteq> Some token
      then loop_top r url (s\<lparr>lp_reminted := True, lp_backoff := BACKOFF_MIN\<rparr>)
      else s)"

definition loop_waited :: "slot_ref \<Rightarrow> utext option \<Rightarrow> loop_state \<Rightarrow> loop_state" where
  "loop_waited r url s = loop_top r url (s\<lparr>lp_backoff := min (lp_backoff s * 2) BACKOFF_MAX\<rparr>)"

definition take_wake :: "slot_ref \<Rightarrow> loop_state \<Rightarrow> loop_state" where
  "take_wake r s = s\<lparr>lp_shared := upd_slot r (\<lambda>l. l\<lparr>sl_wake := False\<rparr>) (lp_shared s)\<rparr>"

text \<open>The random part of a pause, from the nanoseconds of the clock.\<close>

definition jitter :: "nat \<Rightarrow> rat \<Rightarrow> rat" where
  "jitter nanos d = d * (3 / 4 + of_nat (nanos mod 1000) / 2000)"

section \<open>Steps\<close>

datatype loop_label =
    LBegin
  | LDialed utext run_end    \<comment> \<open>the token that was dialed and how it ended\<close>
  | LReminted bool
  | LRetry                   \<comment> \<open>after a wait without a token\<close>
  | LTimer
  | LWoken
  | LNoticed                 \<comment> \<open>the shutdown flag, while waiting\<close>
  | LShutdown
  | LOutside

inductive loop_step :: "slot_ref \<Rightarrow> utext option \<Rightarrow> loop_state \<Rightarrow> loop_label \<Rightarrow> loop_state \<Rightarrow> bool"
  for r :: slot_ref and url :: "utext option" where
  step_begin: "lp_at s = AtStart \<Longrightarrow> loop_step r url s LBegin (loop_top r url s)"
| step_dialed: "lp_at s = AtDial u token \<Longrightarrow> e = RunShutdown \<longrightarrow> lp_shutdown s \<Longrightarrow>
    loop_step r url s (LDialed token e) (loop_dialed r token e s)"
| step_reminted: "lp_at s = AtRemint token why \<Longrightarrow>
    loop_step r url s (LReminted renewed) (loop_reminted r url token why renewed s)"
| step_timer_no_token: "lp_at s = AtNoToken \<Longrightarrow> loop_step r url s LRetry (loop_top r url s)"
| step_timer: "lp_at s = AtWait \<Longrightarrow> loop_step r url s LTimer (loop_waited r url s)"
| step_woken_no_token: "lp_at s = AtNoToken \<Longrightarrow> sl_wake (slot_at (lp_shared s) r) \<Longrightarrow>
    loop_step r url s LRetry (loop_top r url (take_wake r s))"
| step_woken_repair: "lp_at s = AtRepair token \<Longrightarrow> sl_wake (slot_at (lp_shared s) r) \<Longrightarrow>
    loop_step r url s LWoken (loop_repaired r url token (take_wake r s))"
| step_woken: "lp_at s = AtWait \<Longrightarrow> sl_wake (slot_at (lp_shared s) r) \<Longrightarrow>
    loop_step r url s LWoken (loop_waited r url (take_wake r s))"
| step_noticed_no_token: "lp_at s = AtNoToken \<Longrightarrow> lp_shutdown s \<Longrightarrow>
    loop_step r url s LNoticed (loop_top r url s)"
| step_noticed_repair: "lp_at s = AtRepair token \<Longrightarrow> lp_shutdown s \<Longrightarrow>
    loop_step r url s LNoticed (loop_repaired r url token s)"
| step_noticed: "lp_at s = AtWait \<Longrightarrow> lp_shutdown s \<Longrightarrow>
    loop_step r url s LNoticed (loop_finish r s)"
| step_shutdown: "lp_at s \<noteq> AtEnd \<Longrightarrow> loop_step r url s LShutdown (s\<lparr>lp_shutdown := True\<rparr>)"
| step_outside: "length (sh_slots sh) = length (sh_slots (lp_shared s)) \<Longrightarrow>
    loop_step r url s LOutside (s\<lparr>lp_shared := sh\<rparr>)"

inductive loop_run :: "slot_ref \<Rightarrow> utext option \<Rightarrow> loop_state \<Rightarrow> loop_label list \<Rightarrow> loop_state \<Rightarrow> bool"
  for r :: slot_ref and url :: "utext option" where
  run_none: "loop_run r url s [] s"
| run_one: "loop_step r url s l s1 \<Longrightarrow> loop_run r url s1 ls s2 \<Longrightarrow> loop_run r url s (l # ls) s2"

inductive_cases loop_run_NilE: "loop_run r url s [] s'"
inductive_cases loop_run_ConsE: "loop_run r url s (l # ls) s'"
inductive_cases loop_dialedE: "loop_step r url s (LDialed token e) s'"
inductive_cases loop_remintedE: "loop_step r url s (LReminted renewed) s'"


section \<open>What the steps keep\<close>

named_theorems loop_simps \<open>where the pieces of the loop go\<close>

lemma goes_to_simps [loop_simps, simp]:
  "lp_at (goes_to r st why place s) = place" "lp_backoff (goes_to r st why place s) = lp_backoff s"
  "lp_reminted (goes_to r st why place s) = lp_reminted s"
  "lp_shutdown (goes_to r st why place s) = lp_shutdown s"
  "sl_stopping (slot_at (lp_shared (goes_to r st why place s)) q) = sl_stopping (slot_at (lp_shared s) q)"
  "length (sh_slots (lp_shared (goes_to r st why place s))) = length (sh_slots (lp_shared s))"
  by (simp_all add: goes_to_def slot_at_set_state)

lemma take_wake_simps [loop_simps, simp]:
  "lp_at (take_wake r s) = lp_at s" "lp_backoff (take_wake r s) = lp_backoff s"
  "lp_reminted (take_wake r s) = lp_reminted s" "lp_shutdown (take_wake r s) = lp_shutdown s"
  "stopping r (take_wake r s) = stopping r s"
  "length (sh_slots (lp_shared (take_wake r s))) = length (sh_slots (lp_shared s))"
  by (simp_all add: take_wake_def stopping_def slot_at_upd)

lemma stopping_simps [loop_simps, simp]:
  "stopping r (goes_to r st why place s) = stopping r s"
  "stopping r (s\<lparr>lp_at := p\<rparr>) = stopping r s" "stopping r (s\<lparr>lp_backoff := b\<rparr>) = stopping r s"
  "stopping r (s\<lparr>lp_reminted := m\<rparr>) = stopping r s"
  by (simp_all add: stopping_def)

lemma loop_finish_simps [loop_simps, simp]:
  "lp_at (loop_finish r s) = AtEnd" "lp_backoff (loop_finish r s) = lp_backoff s"
  "lp_reminted (loop_finish r s) = lp_reminted s"
  by (simp_all add: loop_finish_def)

lemma loop_top_keeps [loop_simps, simp]:
  "lp_backoff (loop_top r url s) = lp_backoff s" "lp_reminted (loop_top r url s) = lp_reminted s"
  "lp_at (loop_top r url s) \<noteq> AtRemint t w" "lp_at (loop_top r url s) \<noteq> AtRepair t"
  by (simp_all add: loop_top_def split: option.split)

lemma loop_top_dials:
  "lp_at (loop_top r url s) = AtDial u t \<Longrightarrow> slot_token r (lp_shared s) = Some t"
  by (simp add: loop_top_def split: if_splits option.splits)

lemma loop_top_ends:
  "lp_shutdown s \<or> stopping r s \<Longrightarrow> loop_top r url s = loop_finish r s"
  "lp_at (loop_top r url s) = AtEnd \<Longrightarrow> lp_shutdown s \<or> stopping r s"
  by (auto simp: loop_top_def split: if_splits option.splits)

lemmas loop_defs = loop_dialed_def loop_pause_def loop_refused_def loop_reminted_def
  loop_repaired_def loop_waited_def

lemma loop_run_append:
  "loop_run r url s (ls @ ms) s2 \<longleftrightarrow> (\<exists>s1. loop_run r url s ls s1 \<and> loop_run r url s1 ms s2)"
proof (induction ls arbitrary: s)
  case Nil
  then show ?case by (auto intro: run_none elim: loop_run_NilE)
next
  case (Cons l ls)
  show ?case using Cons.IH by (auto elim!: loop_run_ConsE) (metis run_one)+
qed

lemma loop_run_trans: "loop_run r url s ls s1 \<Longrightarrow> loop_run r url s1 ms s2 \<Longrightarrow> loop_run r url s (ls @ ms) s2"
  by (auto simp: loop_run_append)

lemma loop_run_keeps:
  assumes "loop_run r url s ls s'" "P s"
    and "\<And>s l s'. l \<in> set ls \<Longrightarrow> loop_step r url s l s' \<Longrightarrow> P s \<Longrightarrow> P s'"
  shows "P s'"
  using assms by (induction rule: loop_run.induct) auto

section \<open>Pauses\<close>

definition backoff_ok :: "loop_state \<Rightarrow> bool" where
  "backoff_ok s \<longleftrightarrow> BACKOFF_MIN \<le> lp_backoff s \<and> lp_backoff s \<le> BACKOFF_MAX"

lemma backoff_ok_step: "loop_step r url s l s' \<Longrightarrow> backoff_ok s \<Longrightarrow> backoff_ok s'"
  by (cases rule: loop_step.cases)
    (auto simp: backoff_ok_def loop_defs BACKOFF_MIN_def BACKOFF_MAX_def seconds_def
      split: run_end.split)

lemma jitter_bounds:
  "0 \<le> d \<Longrightarrow> 3 / 4 * d \<le> jitter n d" "0 < d \<Longrightarrow> jitter n d < 5 / 4 * d"
proof -
  have "(of_nat (n mod 1000) :: rat) \<le> 999" using of_nat_mono [of "n mod 1000" 999] by simp
  then have q: "0 \<le> of_nat (n mod 1000) / (2000 :: rat)" "of_nat (n mod 1000) / (2000 :: rat) < 1 / 2" by simp_all
  show "0 \<le> d \<Longrightarrow> 3 / 4 * d \<le> jitter n d"
    using mult_left_mono [of "3 / 4" "3 / 4 + of_nat (n mod 1000) / 2000" d] q
    by (simp add: jitter_def mult.commute)
  show "0 < d \<Longrightarrow> jitter n d < 5 / 4 * d"
    using mult_strict_left_mono [of "3 / 4 + of_nat (n mod 1000) / 2000" "5 / 4" d] q
    by (simp add: jitter_def mult.commute)
qed

text \<open>
  the pause before a dial is between 0.75 and 37.5 seconds, whatever happened on the link
  and whatever the clock says.
\<close>

theorem pause_bounded:
  assumes "loop_run r url (loop_start sh) ls s"
  shows "of_nat (millis 750) \<le> jitter nanos (of_nat (lp_backoff s)) \<and>
    jitter nanos (of_nat (lp_backoff s)) < of_nat (millis 37500)"
proof -
  have "backoff_ok (loop_start sh)"
    by (simp add: backoff_ok_def loop_start_def BACKOFF_MIN_def BACKOFF_MAX_def seconds_def)
  then have "backoff_ok s" by (rule loop_run_keeps [OF assms]) (rule backoff_ok_step)
  then have b: "of_nat (seconds 1) \<le> (of_nat (lp_backoff s) :: rat)"
    "(of_nat (lp_backoff s) :: rat) \<le> of_nat (seconds 30)"
    unfolding of_nat_le_iff by (simp_all add: backoff_ok_def BACKOFF_MIN_def BACKOFF_MAX_def)
  with jitter_bounds [of "of_nat (lp_backoff s)" nanos] show ?thesis
    by (simp add: seconds_def millis_def)
qed

section \<open>A refused token\<close>

definition spared :: "utext \<Rightarrow> loop_state \<Rightarrow> bool" where
  \<comment> \<open>where the loop can be after a refusal of the token, before the next dial\<close>
  "spared token s \<longleftrightarrow> (case lp_at s of
      AtEnd \<Rightarrow> True | AtNoToken \<Rightarrow> True | AtRemint t why \<Rightarrow> t = token | AtRepair t \<Rightarrow> t = token
    | AtDial u t \<Rightarrow> t \<noteq> token | _ \<Rightarrow> False)"

lemma spared_top:
  "slot_token r (lp_shared s) \<noteq> Some token \<or> lp_shutdown s \<or> stopping r s \<Longrightarrow> spared token (loop_top r url s)"
  by (auto simp: spared_def loop_top_def split: option.split)

lemma token_after_wake:
  "slot_token r (lp_shared (take_wake r s)) = slot_token r (lp_shared s)"
  by (simp add: take_wake_def slot_token_def slot_at_upd)

lemma spared_repaired:
  "lp_at s = AtRepair token \<Longrightarrow> spared token (loop_repaired r url token s)"
  by (auto simp: loop_repaired_def intro!: spared_top) (simp_all add: spared_def)

lemma spared_step:
  assumes "loop_step r url s l s'" "spared token s" "l \<notin> {LReminted True, LRetry}"
    "\<forall>t e. l \<noteq> LDialed t e"
  shows "spared token s'"
  using assms
proof (cases rule: loop_step.cases)
  case (step_woken_repair t)
  with assms(2) show ?thesis by (auto simp: spared_def intro: spared_repaired [unfolded spared_def])
next
  case (step_noticed_repair t)
  with assms(2) show ?thesis by (auto simp: spared_def intro: spared_repaired [unfolded spared_def])
next
  case step_noticed_no_token
  then show ?thesis by (simp add: spared_top)
qed (auto simp: spared_def loop_reminted_def)

lemma spared_refused: "spared token (loop_dialed r token (RunRefused why) s)"
  by (simp add: loop_dialed_def loop_refused_def spared_def)

text \<open>
  C22: a token the synth refused is not dialed again by itself: the next dial after a refusal
  is with another token, unless the platform gave a fresh one for the account's link, or
  the store had no token for the link in between.
\<close>

theorem refused_token_not_redialed:
  assumes "loop_run r url s (LDialed token (RunRefused why) # ls @ [LDialed token' e]) s'"
    and "\<forall>l \<in> set ls. l \<notin> {LReminted True, LRetry} \<and> (\<forall>t e. l \<noteq> LDialed t e)"
  shows "token' \<noteq> token"
proof -
  from assms(1) obtain s1 s2 s3 where
    one: "loop_step r url s (LDialed token (RunRefused why)) s1" and run: "loop_run r url s1 ls s2"
    and two: "loop_step r url s2 (LDialed token' e) s3"
    by (auto simp: loop_run_append elim!: loop_run_ConsE)
  from one have "spared token s1" by (auto elim!: loop_dialedE intro: spared_refused)
  then have "spared token s2"
    by (rule loop_run_keeps [OF run]) (use assms(2) in \<open>blast intro: spared_step\<close>)
  with two show ?thesis by (auto elim!: loop_dialedE simp: spared_def)
qed

definition asked_once :: "loop_state \<Rightarrow> bool" where
  "asked_once s \<longleftrightarrow> lp_reminted s \<and> (\<forall>t why. lp_at s \<noteq> AtRemint t why)"

lemma asked_once_step:
  assumes "loop_step r url s l s'" "asked_once s" "\<forall>t why. l \<noteq> LDialed t (RunDropped why)"
  shows "asked_once s'"
  using assms
  by (cases rule: loop_step.cases)
    (auto simp: asked_once_def loop_defs split: run_end.splits if_splits)

definition remint_marked :: "loop_state \<Rightarrow> bool" where
  "remint_marked s \<longleftrightarrow> lp_reminted s \<or> (\<forall>t why. lp_at s \<noteq> AtRemint t why)"

lemma remint_marked_step: "loop_step r url s l s' \<Longrightarrow> remint_marked s \<Longrightarrow> remint_marked s'"
  by (cases rule: loop_step.cases)
    (auto simp: remint_marked_def loop_defs split: run_end.splits if_splits)

text \<open>
  the platform is asked for a fresh token at most once in a row: between two of its answers
  the link was up.
\<close>

theorem remint_once_per_link:
  assumes "loop_run r url (loop_start sh) (ls @ LReminted a # ms @ [LReminted b]) s"
  shows "\<exists>token why. LDialed token (RunDropped why) \<in> set ms"
proof (rule ccontr)
  assume none: "\<nexists>token why. LDialed token (RunDropped why) \<in> set ms"
  from assms obtain s0 s1 s2 s3 where
    run0: "loop_run r url (loop_start sh) ls s0" and one: "loop_step r url s0 (LReminted a) s1"
    and run: "loop_run r url s1 ms s2" and two: "loop_step r url s2 (LReminted b) s3"
    by (auto simp: loop_run_append elim!: loop_run_ConsE)
  have "remint_marked (loop_start sh)" by (simp add: remint_marked_def loop_start_def)
  then have "remint_marked s0" by (rule loop_run_keeps [OF run0]) (rule remint_marked_step)
  with one have "asked_once s1"
    by (auto elim!: loop_remintedE simp: remint_marked_def asked_once_def loop_reminted_def split: if_splits)
  then have "asked_once s2"
    by (rule loop_run_keeps [OF run]) (use none in \<open>blast intro: asked_once_step\<close>)
  with two show False by (auto elim!: loop_remintedE simp: asked_once_def)
qed

section \<open>The end of the loop\<close>

lemma finish_shows:
  "lp_shutdown s \<or> stopping r s \<Longrightarrow> r < length (sh_slots (lp_shared s)) \<Longrightarrow>
   sl_state (slot_at (lp_shared (loop_finish r s)) r) = Unpaired"
  by (simp add: loop_finish_def goes_to_def slot_at_set_state disj_commute)

text \<open>
  the loop ends only when the link is being removed or the program stops, and then the link
  reads unpaired; and wherever it waits or dials it ends at the next chance once it is told:
  a wait that is woken, a dial that ends, a pause that is over.
\<close>

theorem loop_ends_when_told:
  assumes "r < length (sh_slots (lp_shared s))" "lp_at s \<noteq> AtEnd" "loop_step r url s l s'"
    "l \<notin> {LShutdown, LOutside}"
  shows "(lp_at s' = AtEnd \<longrightarrow> (lp_shutdown s \<or> stopping r s) \<and>
            sl_state (slot_at (lp_shared s') r) = Unpaired) \<and>
    (stopping r s \<longrightarrow> l \<noteq> LReminted False \<longrightarrow> lp_at s' = AtEnd) \<and>
    (lp_shutdown s \<longrightarrow> (\<forall>t e. l \<noteq> LDialed t e \<or> e = RunShutdown) \<longrightarrow> l \<noteq> LReminted False \<longrightarrow> lp_at s' = AtEnd)"
proof -
  have top: "lp_at (loop_top r url q) = AtEnd \<Longrightarrow> r < length (sh_slots (lp_shared q)) \<Longrightarrow>
      (lp_shutdown q \<or> stopping r q) \<and> sl_state (slot_at (lp_shared (loop_top r url q)) r) = Unpaired" for q
    using loop_top_ends(2) [of r url q] loop_top_ends(1) [of q r url] finish_shows [of q r] by auto
  show ?thesis
    using assms(3)
  proof (cases rule: loop_step.cases)
    case (step_dialed u token e)
    then show ?thesis using assms(1) 
      by (auto simp: loop_defs loop_top_ends intro!: finish_shows split: run_end.splits if_splits)
  qed (use assms in \<open>auto simp: loop_defs loop_top_ends(1) dest!: top intro!: finish_shows\<close>)
qed


section \<open>Examples\<close>

definition one_link :: "link_source \<Rightarrow> utext \<Rightarrow> shared" where
  "one_link src token = (blank_shared default_settings)
     \<lparr>sh_slots := [(from_identity (pending_identity example_pending))\<lparr>sl_wake := True, sl_source := src\<rparr>],
      sh_links := [0],
      sh_secret := \<lparr>fs_file = SecMap [token_key (lit ''mia'') \<mapsto> token], fs_writes = []\<rparr>\<rparr>"

definition ready :: "link_source \<Rightarrow> utext \<Rightarrow> loop_state \<Rightarrow> bool" where
  "ready src token s \<longleftrightarrow> \<not> stopping 0 s \<and> \<not> lp_shutdown s \<and> slot_token 0 (lp_shared s) = Some token \<and>
     sl_source (slot_at (lp_shared s) 0) = src \<and> sl_wake (slot_at (lp_shared s) 0) \<and>
     length (sh_slots (lp_shared s)) = 1"

lemma ready_one_link:
  "token \<noteq> [] \<Longrightarrow> \<not> lp_shutdown s \<Longrightarrow> ready src token (s\<lparr>lp_shared := one_link src token\<rparr>)"
  by (simp add: ready_def stopping_def one_link_def slot_at_def slot_token_def token_of_def from_identity_def
      new_slot_def pending_identity_def example_pending_def fs_get_def read_map_def some_token_def)

lemma ready_goes_to: "ready src token s \<Longrightarrow> ready src token (goes_to r st why p s)"
  by (simp add: ready_def goes_to_def stopping_def slot_token_def slot_at_set_state)

lemma ready_update:
  "ready src token s \<Longrightarrow> ready src token (s\<lparr>lp_at := p\<rparr>)"
  "ready src token s \<Longrightarrow> ready src token (s\<lparr>lp_backoff := b\<rparr>)"
  "ready src token s \<Longrightarrow> ready src token (s\<lparr>lp_reminted := m\<rparr>)"
  "ready src token s \<Longrightarrow> ready src token (s\<lparr>lp_backoff := b, lp_reminted := m\<rparr>)"
  by (simp_all add: ready_def stopping_def)

lemma ready_top:
  "ready src token s \<Longrightarrow> \<exists>u. loop_top 0 url s = goes_to 0 Connecting (lit ''dialing'') (AtDial u token) s"
  by (simp add: ready_def loop_top_def) blast

lemma ready_dial:
  assumes "ready src token s"
  shows "ready src token (loop_top 0 url s) \<and> (\<exists>u. lp_at (loop_top 0 url s) = AtDial u token)"
  using ready_top [OF assms, of url] ready_goes_to [OF assms] by auto

text \<open>A refused token of a code link, a new one stored, the link woken.\<close>

lemma repair_run:
  assumes "a \<noteq> []" "b \<noteq> []" "a \<noteq> b"
  shows "\<exists>s1 s2. loop_run 0 None (loop_start (one_link SrcCode a)) [LBegin] s1 \<and>
    loop_run 0 None s1 (LDialed a (RunRefused []) # [LOutside, LWoken] @ [LDialed b (RunFailed [])]) s2"
proof -
  let ?s0 = "loop_start (one_link SrcCode a)"
  have r0: "ready SrcCode a ?s0"
    using ready_one_link [OF assms(1), of ?s0 SrcCode] by (simp add: loop_start_def)
  define s1 where "s1 = loop_top 0 None ?s0"
  have one: "loop_run 0 None ?s0 [LBegin] s1"
    unfolding s1_def by (rule run_one [OF step_begin run_none]) (simp add: loop_start_def)
  obtain u where r1: "ready SrcCode a s1" "lp_at s1 = AtDial u a" using ready_dial [OF r0] s1_def by blast
  define s2 where "s2 = loop_dialed 0 a (RunRefused []) s1"
  have two: "loop_step 0 None s1 (LDialed a (RunRefused [])) s2"
    unfolding s2_def by (rule step_dialed [where u = u]) (simp_all add: r1)
  have s2: "s2 = goes_to 0 NeedsRepair [] (AtRepair a) s1"
    using r1(1) by (simp add: s2_def loop_dialed_def loop_refused_def ready_def)
  define s3 where "s3 = s2\<lparr>lp_shared := one_link SrcCode b\<rparr>"
  have len: "length (sh_slots (one_link SrcCode b)) = length (sh_slots (lp_shared s2))"
    using r1(1) by (simp add: s2 ready_def) (simp add: one_link_def)
  have three: "loop_step 0 None s2 LOutside s3" unfolding s3_def by (rule step_outside [OF len])
  have r3: "ready SrcCode b s3" "lp_at s3 = AtRepair a"
    using r1(1) ready_one_link [OF assms(2), of s2 SrcCode] by (simp_all add: s3_def s2 ready_def)
  define s4 where "s4 = loop_repaired 0 None a (take_wake 0 s3)"
  have four: "loop_step 0 None s3 LWoken s4"
    unfolding s4_def by (rule step_woken_repair) (use r3 in \<open>simp_all add: ready_def\<close>)
  have "\<exists>u. lp_at s4 = AtDial u b"
    using r3 assms(3)
    by (simp add: s4_def loop_repaired_def token_after_wake ready_def loop_top_def stopping_def
        take_wake_def slot_at_upd slot_token_def)
  then obtain u' where "lp_at s4 = AtDial u' b" by blast
  then have five: "loop_step 0 None s4 (LDialed b (RunFailed [])) (loop_dialed 0 b (RunFailed []) s4)"
    by (rule step_dialed) simp
  have "loop_run 0 None s1 [LDialed a (RunRefused []), LOutside, LWoken, LDialed b (RunFailed [])]
      (loop_dialed 0 b (RunFailed []) s4)"
    by (rule run_one [OF two run_one [OF three run_one [OF four run_one [OF five run_none]]]])
  with one show ?thesis by auto
qed

theorem refused_token_not_redialed_witness:
  "\<exists>s s'. loop_run 0 None s (LDialed [1] (RunRefused []) # [LOutside, LWoken] @ [LDialed [2] (RunFailed [])]) s' \<and>
     [2] \<noteq> ([1] :: utext)"
proof -
  obtain s s' where
    "loop_run 0 None s (LDialed [1] (RunRefused []) # [LOutside, LWoken] @ [LDialed [2] (RunFailed [])]) s'"
    using repair_run [of "[1]" "[2]"] by auto
  with refused_token_not_redialed [OF this] show ?thesis by auto
qed

theorem pause_bounded_witness:
  "\<exists>s. loop_run 0 None (loop_start (one_link SrcCode [1])) [LBegin] s \<and>
     jitter 999 (of_nat (lp_backoff s)) < of_nat (millis 37500)"
  using repair_run [of "[1]" "[2]"] pause_bounded [of 0 None "one_link SrcCode [1]" "[LBegin]"] by fastforce


text \<open>An account link that was refused, got a token, went up, dropped and was refused again.\<close>

lemma ready_refused:
  assumes "ready SrcAccount a s" "lp_at s = AtDial u a" "\<not> lp_reminted s"
  shows "\<exists>s1 u'. loop_run 0 None s [LDialed a (RunRefused []), LReminted True] s1 \<and>
    ready SrcAccount a s1 \<and> lp_at s1 = AtDial u' a"
proof -
  define s1 where "s1 = loop_dialed 0 a (RunRefused []) s"
  have one: "loop_step 0 None s (LDialed a (RunRefused [])) s1"
    unfolding s1_def by (rule step_dialed [where u = u]) (simp_all add: assms(2))
  have s1: "s1 = s\<lparr>lp_at := AtRemint a [], lp_reminted := True\<rparr>"
    using assms(1,3) by (simp add: s1_def loop_dialed_def loop_refused_def ready_def)
  have two: "loop_step 0 None s1 (LReminted True) (loop_reminted 0 None a [] True s1)"
    by (rule step_reminted) (simp add: s1)
  have "ready SrcAccount a (s1\<lparr>lp_backoff := BACKOFF_MIN\<rparr>)"
    using assms(1) by (simp add: s1 ready_def stopping_def)
  from ready_dial [OF this, of None] one two show ?thesis
    by (auto simp: loop_reminted_def intro!: exI run_one run_none)
qed

theorem remint_once_per_link_witness:
  "\<exists>s why token. loop_run 0 None (loop_start (one_link SrcAccount [1]))
     ([LBegin, LDialed [1] (RunRefused [])] @ LReminted True #
      [LDialed [1] (RunDropped []), LTimer, LDialed [1] (RunRefused [])] @ [LReminted True]) s \<and>
     LDialed token (RunDropped why) \<in> set [LDialed [1] (RunDropped []), LTimer, LDialed [1] (RunRefused [])]"
proof -
  let ?s0 = "loop_start (one_link SrcAccount [1])"
  have r0: "ready SrcAccount [1] ?s0"
    using ready_one_link [of "[1]" ?s0 SrcAccount] by (simp add: loop_start_def)
  define s1 where "s1 = loop_top 0 None ?s0"
  have one: "loop_step 0 None ?s0 LBegin s1"
    unfolding s1_def by (rule step_begin) (simp add: loop_start_def)
  obtain u where r1: "ready SrcAccount [1] s1" "lp_at s1 = AtDial u [1]" using ready_dial [OF r0] s1_def by blast
  have "\<not> lp_reminted s1" by (simp add: s1_def loop_start_def)
  then obtain s2 u2 where two: "loop_run 0 None s1 [LDialed [1] (RunRefused []), LReminted True] s2"
    "ready SrcAccount [1] s2" "lp_at s2 = AtDial u2 [1]" using ready_refused [OF r1] by blast
  define s3 where "s3 = loop_dialed 0 [1] (RunDropped []) s2"
  have three: "loop_step 0 None s2 (LDialed [1] (RunDropped [])) s3"
    unfolding s3_def by (rule step_dialed [where u = u2]) (simp_all add: two)
  have s3: "s3 = (goes_to 0 Reconnecting [] AtWait s2)\<lparr>lp_backoff := BACKOFF_MIN, lp_reminted := False, lp_at := AtWait\<rparr>"
    using two(2) by (simp add: s3_def loop_dialed_def loop_pause_def ready_def stopping_def goes_to_def slot_at_set_state)
  have r3: "ready SrcAccount [1] (s3\<lparr>lp_backoff := min (lp_backoff s3 * 2) BACKOFF_MAX\<rparr>)"
    using ready_goes_to [OF two(2)] by (simp add: s3 ready_def stopping_def)
  define s4 where "s4 = loop_waited 0 None s3"
  have four: "loop_step 0 None s3 LTimer s4" unfolding s4_def by (rule step_timer) (simp add: s3)
  obtain u4 where r4: "ready SrcAccount [1] s4" "lp_at s4 = AtDial u4 [1]"
    using ready_dial [OF r3] by (auto simp: s4_def loop_waited_def)
  have "\<not> lp_reminted s4" by (simp add: s4_def loop_waited_def s3)
  then obtain s5 where five: "loop_run 0 None s4 [LDialed [1] (RunRefused []), LReminted True] s5"
    using ready_refused [OF r4] by blast
  have "loop_run 0 None ?s0 ([LBegin] @ [LDialed [1] (RunRefused []), LReminted True] @
      [LDialed [1] (RunDropped []), LTimer] @ [LDialed [1] (RunRefused []), LReminted True]) s5"
    by (rule loop_run_trans [OF run_one [OF one run_none] loop_run_trans [OF two(1)
        loop_run_trans [OF run_one [OF three run_one [OF four run_none]] five]]])
  then have "loop_run 0 None ?s0
     ([LBegin, LDialed [1] (RunRefused [])] @ LReminted True #
      [LDialed [1] (RunDropped []), LTimer, LDialed [1] (RunRefused [])] @ [LReminted True]) s5" by simp
  with remint_once_per_link [OF this] show ?thesis by blast
qed

theorem loop_ends_when_told_witness:
  "lp_at (loop_top 0 None ((loop_start (one_link SrcCode [1]))\<lparr>lp_shutdown := True\<rparr>)) = AtEnd"
proof -
  let ?s = "(loop_start (one_link SrcCode [1]))\<lparr>lp_shutdown := True\<rparr>"
  have step: "loop_step 0 None ?s LBegin (loop_top 0 None ?s)" by (rule step_begin) (simp add: loop_start_def)
  have len: "0 < length (sh_slots (lp_shared ?s))" and place: "lp_at ?s \<noteq> AtEnd"
    by (simp_all add: loop_start_def one_link_def)
  have told: "lp_shutdown ?s" "LBegin \<notin> {LShutdown, LOutside}" "LBegin \<noteq> LReminted False"
    "\<forall>t e. LBegin \<noteq> LDialed t e \<or> e = RunShutdown" by simp_all
  show ?thesis
    by (rule conjunct2 [OF conjunct2 [OF loop_ends_when_told [OF len place step told(2)]],
          THEN mp, THEN mp, THEN mp, OF told(1) told(4) told(3)])
qed

end
