(* ===== verification/Observe_Reports.thy ===== *)
theory Observe_Reports
  imports Observe_Settings Json_Value Calendar_Time Core_State
begin

text \<open>
  What leaves the computer as \<open>observe\<close> reports (\<open>observe.rs\<close>): the descriptors of a synth,
  the current values of the sources (\<open>Hub\<close>), the fitting of a value to a descriptor and the
  plan of one link (\<open>plan\<close>, \<open>run_link\<close>). The length of a value as JSON text is the
  parameter \<open>json_len\<close> (None: it cannot be written). What the synth holds of each source is
  the abstract view \<open>ob_view\<close>: it takes the messages as they are sent and forgets a source
  it does not offer any more. Shown: a message carries a source only while the synth offers
  it and the owner has it on, and after every flush the view is never behind the owner's
  choices, after a full one it is exactly the current picture.
\<close>

section \<open>Descriptors\<close>

definition OBSERVE_FEATURE :: utext where "OBSERVE_FEATURE = lit ''observe''"
definition MAX_WORDS_CHARS :: nat where "MAX_WORDS_CHARS = 600"
definition DEFAULT_MAX_BYTES :: nat where "DEFAULT_MAX_BYTES = 4096"

record words =
  w_en :: utext
  w_ru :: utext

definition words_of :: "json option \<Rightarrow> words" where
  "words_of v =
     (let pick = (\<lambda>k. take MAX_WORDS_CHARS
          (clean (case Option.bind v (get_str k) of Some s \<Rightarrow> s | None \<Rightarrow> []) (MAX_WORDS_CHARS * 4)))
      in \<lparr>w_en = pick (lit ''en''), w_ru = pick (lit ''ru'')\<rparr>)"

record descriptor =
  ds_resource :: utext
  ds_revision :: nat
  ds_title :: words
  ds_description :: words
  ds_consent :: words
  ds_privacy_class :: utext
  ds_max_bytes :: nat
  ds_max_len :: "utext \<rightharpoonup> nat"

definition max_lens :: "json \<Rightarrow> (utext \<rightharpoonup> nat)" where
  "max_lens v =
     (case Option.bind (jget (lit ''value'') v) (jget (lit ''properties'')) of
        Some (JObj props) \<Rightarrow>
          (\<lambda>k. Option.bind (map_of props k) (\<lambda>p. Option.bind (jget (lit ''maxLength'') p) as_u64))
      | _ \<Rightarrow> Map.empty)"

definition nat_or_0 :: "json option \<Rightarrow> nat" where
  "nat_or_0 v = (case Option.bind v as_u64 of Some n \<Rightarrow> n | None \<Rightarrow> 0)"

definition parse_descriptor :: "json \<Rightarrow> descriptor option" where
  "parse_descriptor v =
     (case get_str (lit ''resource'') v of
        None \<Rightarrow> None
      | Some raw \<Rightarrow>
          (let resource = trim raw; privacy = jget (lit ''privacy'') v
           in if resource = [] \<or> 128 < utf8_len resource then None
              else Some \<lparr>ds_resource = resource,
                ds_revision = nat_or_0 (jget (lit ''revision'') v),
                ds_title = words_of (jget (lit ''title'') v),
                ds_description = words_of (jget (lit ''description'') v),
                ds_consent = words_of (Option.bind privacy (jget (lit ''consent''))),
                ds_privacy_class =
                  (case Option.bind privacy (get_str (lit ''class'')) of Some s \<Rightarrow> clean s 64 | None \<Rightarrow> []),
                ds_max_bytes = nat_or_0 (jget (lit ''max_bytes'') v),
                ds_max_len = max_lens v\<rparr>))"

definition first_of_each :: "('a \<Rightarrow> 'k) \<Rightarrow> 'a list \<Rightarrow> 'a list" where
  "first_of_each key xs = foldl (\<lambda>out d. if list_ex (\<lambda>x. key x = key d) out then out else out @ [d]) [] xs"

definition parse_resources :: "json \<Rightarrow> descriptor list" where
  "parse_resources answer = first_of_each ds_resource (List.map_filter parse_descriptor
     (case Option.bind (jget (lit ''resources'') answer) as_arr of Some ds \<Rightarrow> ds | None \<Rightarrow> []))"

section \<open>What a synth offers\<close>

record link_observe =
  lo_feature :: bool
  lo_offered :: "utext list"
  lo_descriptors :: "descriptor list"

definition no_observe :: link_observe where
  "no_observe = \<lparr>lo_feature = False, lo_offered = [], lo_descriptors = []\<rparr>"

definition offered_names :: "utext list \<Rightarrow> utext list" where
  "offered_names rs = first_of_each id (filter (\<lambda>r. r \<noteq> [] \<and> utf8_len r \<le> 128) (map trim rs))"

definition note_ack :: "hello_ack \<Rightarrow> link_observe \<Rightarrow> link_observe" where
  "note_ack ack ob =
     (let f = ack_has OBSERVE_FEATURE ack
      in ob\<lparr>lo_feature := f, lo_offered := (if f then offered_names (ha_observe_resources ack) else [])\<rparr>)"

definition refreshed :: "json \<Rightarrow> link_observe \<Rightarrow> link_observe" where
  \<comment> \<open>the answer to \<open>observe.resources\<close>\<close>
  "refreshed answer ob =
     (let ds = parse_resources answer in ob\<lparr>lo_offered := map ds_resource ds, lo_descriptors := ds\<rparr>)"

section \<open>The current values\<close>

record report =
  rp_value :: json
  rp_observed_at :: unix_time

record observe_hub =
  oh_values :: "utext \<rightharpoonup> report"
  oh_changed :: nat

definition hub_bump :: "observe_hub \<Rightarrow> observe_hub" where
  "hub_bump h = h\<lparr>oh_changed := (oh_changed h + 1) mod 2 ^ 64\<rparr>"

definition hub_report :: "utext \<Rightarrow> json option \<Rightarrow> unix_time \<Rightarrow> observe_hub \<Rightarrow> observe_hub" where
  "hub_report r value now h =
     (case value of
        None \<Rightarrow>
          (let h1 = h\<lparr>oh_values := (oh_values h)(r := None)\<rparr>
           in if oh_values h r \<noteq> None then hub_bump h1 else h1)
      | Some v \<Rightarrow>
          (let h1 = h\<lparr>oh_values := (oh_values h)(r \<mapsto> \<lparr>rp_value = v, rp_observed_at = now\<rparr>)\<rparr>
           in if map_option rp_value (oh_values h r) = Some v then h1 else hub_bump h1))"

section \<open>What goes to one synth\<close>

definition observe_message :: "utext \<Rightarrow> json option \<Rightarrow> unix_time \<Rightarrow> json" where
  "observe_message r v observed_at =
     (case v of
        Some x \<Rightarrow> JObj [(lit ''type'', JStr (lit ''observe'')), (lit ''resource'', JStr r),
          (lit ''value'', x), (lit ''observed_at'', JStr (rfc3339_utc observed_at))]
      | None \<Rightarrow> JObj [(lit ''type'', JStr (lit ''observe'')), (lit ''resource'', JStr r),
          (lit ''value'', JNull)])"

definition fit_string :: "descriptor \<Rightarrow> utext \<times> json \<Rightarrow> utext \<times> json" where
  "fit_string d kx =
     (case (ds_max_len d (fst kx), snd kx) of
        (Some n, JStr s) \<Rightarrow> if n < utf8_len s then (fst kx, JStr (clean s n)) else kx
      | _ \<Rightarrow> kx)"

definition fit :: "(json \<Rightarrow> nat option) \<Rightarrow> json \<Rightarrow> descriptor option \<Rightarrow> json option" where
  "fit json_len value d =
     (case value of
        JObj kvs \<Rightarrow>
          (let v = JObj (case d of Some x \<Rightarrow> map (fit_string x) kvs | None \<Rightarrow> kvs);
               mx = (case d of Some x \<Rightarrow> if 0 < ds_max_bytes x then ds_max_bytes x else DEFAULT_MAX_BYTES
                     | None \<Rightarrow> DEFAULT_MAX_BYTES)
           in case json_len v of
                None \<Rightarrow> None
              | Some n \<Rightarrow> if mx < n then None else Some v)
      | _ \<Rightarrow> None)"

type_synonym sent = "utext \<rightharpoonup> json option"

definition current_value ::
  "(json \<Rightarrow> nat option) \<Rightarrow> utext set \<Rightarrow> (utext \<rightharpoonup> report) \<Rightarrow> descriptor list \<Rightarrow> utext \<Rightarrow> (json \<times> unix_time) option" where
  "current_value json_len on values ds r =
     (if r \<in> on then
        (case values r of
           None \<Rightarrow> None
         | Some rep \<Rightarrow> map_option (\<lambda>v. (v, rp_observed_at rep))
             (fit json_len (rp_value rep) (find (\<lambda>d. ds_resource d = r) ds)))
      else None)"

definition plan_one ::
  "(json \<Rightarrow> nat option) \<Rightarrow> utext list \<Rightarrow> utext set \<Rightarrow> (utext \<rightharpoonup> report) \<Rightarrow> descriptor list \<Rightarrow> bool \<Rightarrow> utext
     \<Rightarrow> sent \<Rightarrow> json list \<times> sent" where
  "plan_one json_len offered on values ds full r sn =
     (if r \<notin> set offered then ([], sn(r := None))
      else case current_value json_len on values ds r of
          Some (v, observed_at) \<Rightarrow>
            if full \<or> sn r \<noteq> Some (Some v)
            then ([observe_message r (Some v) observed_at], sn(r \<mapsto> Some v)) else ([], sn)
        | None \<Rightarrow>
            (case sn r of
               Some (Some _) \<Rightarrow> ([observe_message r None 0], sn(r \<mapsto> None))
             | _ \<Rightarrow> ([], sn)))"

definition plan ::
  "(json \<Rightarrow> nat option) \<Rightarrow> utext list \<Rightarrow> utext set \<Rightarrow> (utext \<rightharpoonup> report) \<Rightarrow> descriptor list \<Rightarrow> bool \<Rightarrow> bool
     \<Rightarrow> sent \<Rightarrow> json list \<times> sent" where
  "plan json_len offered on values ds full paused sn =
     (if paused then ([], sn)
      else foldl (\<lambda>(out, s) r. let (ms, s') = plan_one json_len offered on values ds full r s in (out @ ms, s'))
             ([], sn) SOURCES)"


section \<open>The sending of one link\<close>

text \<open>
  One link with the parts of the core its sending task reads, and the synth's side: the
  view takes each message, and a synth forgets what it does not offer.
\<close>

record observe_world =
  ob_synth :: utext
  ob_link :: link_observe
  ob_settings :: observe_settings
  ob_hub :: observe_hub
  ob_paused :: bool
  ob_sent :: sent
  ob_view :: "utext \<rightharpoonup> json"

definition view_message :: "json \<Rightarrow> (utext \<rightharpoonup> json) \<Rightarrow> (utext \<rightharpoonup> json)" where
  "view_message m view =
     (case (get_str (lit ''resource'') m, jget (lit ''value'') m) of
        (Some r, Some v) \<Rightarrow> if v = JNull then view(r := None) else view(r \<mapsto> v)
      | _ \<Rightarrow> view)"

definition switched_on :: "observe_world \<Rightarrow> utext set" where
  "switched_on w = (case os_on (ob_settings w) (ob_synth w) of Some on \<Rightarrow> on | None \<Rightarrow> {})"

definition observe_flush :: "(json \<Rightarrow> nat option) \<Rightarrow> bool \<Rightarrow> observe_world \<Rightarrow> json list \<times> observe_world" where
  "observe_flush json_len full w =
     (let (ms, sn) = plan json_len (lo_offered (ob_link w)) (switched_on w) (oh_values (ob_hub w))
            (lo_descriptors (ob_link w)) full (ob_paused w) (ob_sent w)
      in (ms, w\<lparr>ob_sent := sn, ob_view := fold view_message ms (ob_view w)\<rparr>))"

definition forget_unoffered :: "observe_world \<Rightarrow> observe_world" where
  "forget_unoffered w = w\<lparr>ob_view := (ob_view w) |` set (lo_offered (ob_link w))\<rparr>"

datatype observe_event =
    ObAck hello_ack
  | ObResources json
  | ObReport utext "json option" unix_time
  | ObSettings observe_settings
  | ObPause bool
  | ObFlush bool

fun observe_step :: "(json \<Rightarrow> nat option) \<Rightarrow> observe_event \<Rightarrow> observe_world \<Rightarrow> observe_world" where
  \<comment> \<open>with an ack the task starts anew, and so does the synth\<close>
  "observe_step json_len (ObAck ack) w =
     w\<lparr>ob_link := note_ack ack (ob_link w), ob_sent := Map.empty, ob_view := Map.empty\<rparr>"
| "observe_step json_len (ObResources answer) w =
     forget_unoffered (w\<lparr>ob_link := refreshed answer (ob_link w), ob_hub := hub_bump (ob_hub w)\<rparr>)"
| "observe_step json_len (ObReport r v now) w = w\<lparr>ob_hub := hub_report r v now (ob_hub w)\<rparr>"
| "observe_step json_len (ObSettings os) w = w\<lparr>ob_settings := os, ob_hub := hub_bump (ob_hub w)\<rparr>"
| "observe_step json_len (ObPause p) w = w\<lparr>ob_paused := p\<rparr>"
| "observe_step json_len (ObFlush full) w = snd (observe_flush json_len full w)"

definition observe_run :: "(json \<Rightarrow> nat option) \<Rightarrow> observe_event list \<Rightarrow> observe_world \<Rightarrow> observe_world" where
  "observe_run json_len es w = fold (observe_step json_len) es w"

definition observe_start :: "utext \<Rightarrow> observe_settings \<Rightarrow> observe_hub \<Rightarrow> observe_world" where
  "observe_start synth os hub = \<lparr>ob_synth = synth, ob_link = no_observe, ob_settings = os, ob_hub = hub,
     ob_paused = False, ob_sent = Map.empty, ob_view = Map.empty\<rparr>"

text \<open>What the owner lets this synth see of a source now.\<close>

definition shown :: "(json \<Rightarrow> nat option) \<Rightarrow> observe_world \<Rightarrow> utext \<Rightarrow> json option" where
  "shown json_len w r =
     (if r \<in> set SOURCES \<and> r \<in> set (lo_offered (ob_link w))
      then map_option fst (current_value json_len (switched_on w) (oh_values (ob_hub w))
             (lo_descriptors (ob_link w)) r)
      else None)"

section \<open>Lemmas\<close>

lemma SOURCES_distinct: "OBS_CALL \<noteq> OBS_ACTIVITY" "OBS_CALL \<noteq> OBS_PLACE" "OBS_ACTIVITY \<noteq> OBS_PLACE"
  by (simp_all add: OBS_CALL_def OBS_ACTIVITY_def OBS_PLACE_def)

lemma fit_object: "fit json_len x d = Some v \<Longrightarrow> v \<noteq> JNull"
  by (auto simp: fit_def Let_def split: json.splits option.splits if_splits)

lemma view_of_message [simp]:
  "view_message (observe_message r None t) view = view(r := None)"
  "v \<noteq> JNull \<Longrightarrow> view_message (observe_message r (Some v) t) view = view(r \<mapsto> v)"
  by (simp_all add: view_message_def observe_message_def get_str_def jget_def as_str_def)

lemma current_value_object:
  "current_value json_len on values ds r = Some (v, t) \<Longrightarrow> v \<noteq> JNull"
  by (auto simp: current_value_def split: if_splits option.splits dest: fit_object)

definition view_follows :: "utext list \<Rightarrow> sent \<Rightarrow> (utext \<rightharpoonup> json) \<Rightarrow> utext \<Rightarrow> bool" where
  \<comment> \<open>what the synth holds of the source is what was sent last\<close>
  "view_follows offered sn view r \<longleftrightarrow> view r = None \<or> r \<in> set offered \<and> sn r = Some (view r)"

lemma plan_one_view:
  assumes "plan_one json_len offered on values ds full r sn = (ms, sn')" "view_follows offered sn view r"
  shows "(\<forall>q. q \<noteq> r \<longrightarrow> fold view_message ms view q = view q \<and> sn' q = sn q) \<and>
    view_follows offered sn' (fold view_message ms view) r \<and>
    (full \<longrightarrow> fold view_message ms view r =
       (if r \<in> set offered then map_option fst (current_value json_len on values ds r) else None)) \<and>
    (fold view_message ms view r = None \<or> fold view_message ms view r =
       (if r \<in> set offered then map_option fst (current_value json_len on values ds r) else None))"
proof (cases "r \<in> set offered")
  case False
  with assms show ?thesis by (auto simp: plan_one_def view_follows_def)
next
  case True
  show ?thesis
  proof (cases "current_value json_len on values ds r")
    case None
    with True assms show ?thesis
      by (auto simp: plan_one_def view_follows_def split: option.splits)
  next
    case (Some vt)
    obtain v t where vt: "vt = (v, t)" by fastforce
    with Some have "v \<noteq> JNull" by (auto dest: current_value_object)
    with True Some vt assms show ?thesis
      by (auto simp: plan_one_def view_follows_def split: if_splits)
  qed
qed

lemma plan_view:
  assumes "plan json_len offered on values ds full False sn = (ms, sn')"
    and ok: "\<And>r. r \<in> set SOURCES \<Longrightarrow> view_follows offered sn view r"
    and now: "now = (\<lambda>r. if r \<in> set offered then map_option fst (current_value json_len on values ds r) else None)"
  shows "\<And>r. r \<in> set SOURCES \<Longrightarrow> view_follows offered sn' (fold view_message ms view) r"
    and "\<And>r. r \<notin> set SOURCES \<Longrightarrow> fold view_message ms view r = view r"
    and "\<And>r. r \<in> set SOURCES \<Longrightarrow>
       fold view_message ms view r \<in> {if full then now r else None, now r}"
proof -
  obtain ms1 s1 where one: "plan_one json_len offered on values ds full OBS_CALL sn = (ms1, s1)" by fastforce
  obtain ms2 s2 where two: "plan_one json_len offered on values ds full OBS_ACTIVITY s1 = (ms2, s2)" by fastforce
  obtain ms3 s3 where three: "plan_one json_len offered on values ds full OBS_PLACE s2 = (ms3, s3)" by fastforce
  have res: "ms = ms1 @ ms2 @ ms3" "sn' = s3"
    using assms(1) by (simp_all add: plan_def SOURCES_def one two three)
  let ?v1 = "fold view_message ms1 view" let ?v2 = "fold view_message ms2 ?v1" let ?v3 = "fold view_message ms3 ?v2"
  have ok': "view_follows offered sn view OBS_CALL" "view_follows offered sn view OBS_ACTIVITY"
    "view_follows offered sn view OBS_PLACE" using ok by (simp_all add: SOURCES_def)
  note p1 = plan_one_view [OF one ok'(1)]
  then have e1: "?v1 q = view q" "s1 q = sn q" if "q \<noteq> OBS_CALL" for q using that by blast+
  have "view_follows offered s1 ?v1 OBS_ACTIVITY"
    using ok'(2) e1 SOURCES_distinct(1) unfolding view_follows_def by presburger
  note p2 = plan_one_view [OF two this]
  then have e2: "?v2 q = ?v1 q" "s2 q = s1 q" if "q \<noteq> OBS_ACTIVITY" for q using that by blast+
  have "view_follows offered s2 ?v2 OBS_PLACE"
    using ok'(3) e1 e2 SOURCES_distinct(2,3) unfolding view_follows_def by presburger
  note p3 = plan_one_view [OF three this]
  then have e3: "?v3 q = ?v2 q" "s3 q = s2 q" if "q \<noteq> OBS_PLACE" for q using that by blast+
  have v: "fold view_message ms view = ?v3" by (simp add: res)
  have c: "?v3 OBS_CALL = ?v1 OBS_CALL" "s3 OBS_CALL = s1 OBS_CALL"
    using e2 e3 SOURCES_distinct by presburger+
  have a: "?v3 OBS_ACTIVITY = ?v2 OBS_ACTIVITY" "s3 OBS_ACTIVITY = s2 OBS_ACTIVITY"
    using e3 SOURCES_distinct by presburger+
  have f: "view_follows offered s3 ?v3 OBS_CALL" "view_follows offered s3 ?v3 OBS_ACTIVITY"
    "view_follows offered s3 ?v3 OBS_PLACE"
    using p1 p2 p3 unfolding view_follows_def c a by blast+
  then show "\<And>r. r \<in> set SOURCES \<Longrightarrow> view_follows offered sn' (fold view_message ms view) r"
    unfolding v res(2) SOURCES_def by auto
  show "fold view_message ms view r = view r" if "r \<notin> set SOURCES" for r
    using that e1 e2 e3 unfolding v SOURCES_def by simp
  have w: "?v3 OBS_CALL \<in> {if full then now OBS_CALL else None, now OBS_CALL}"
    "?v3 OBS_ACTIVITY \<in> {if full then now OBS_ACTIVITY else None, now OBS_ACTIVITY}"
    "?v3 OBS_PLACE \<in> {if full then now OBS_PLACE else None, now OBS_PLACE}"
    using p1 p2 p3 unfolding c a now by auto
  then show "fold view_message ms view r \<in> {if full then now r else None, now r}" if "r \<in> set SOURCES" for r
    using that unfolding v SOURCES_def by auto
qed


definition observe_ok :: "observe_world \<Rightarrow> bool" where
  "observe_ok w \<longleftrightarrow>
     (\<forall>r \<in> set SOURCES. view_follows (lo_offered (ob_link w)) (ob_sent w) (ob_view w) r) \<and>
     (\<forall>r. r \<notin> set SOURCES \<longrightarrow> ob_view w r = None)"

lemma flush_view:
  assumes ok: "observe_ok w" and up: "\<not> ob_paused w"
    and fl: "observe_flush json_len full w = (ms, w')"
  shows "observe_ok w'" and "ob_view w' r \<in> {if full then shown json_len w' r else None, shown json_len w' r}"
proof -
  let ?l = "ob_link w"
  obtain sn' where p: "plan json_len (lo_offered ?l) (switched_on w) (oh_values (ob_hub w)) (lo_descriptors ?l)
      full False (ob_sent w) = (ms, sn')"
    and w': "w' = w\<lparr>ob_sent := sn', ob_view := fold view_message ms (ob_view w)\<rparr>"
    using fl up by (auto simp: observe_flush_def split: prod.splits)
  have follows: "view_follows (lo_offered ?l) (ob_sent w) (ob_view w) q" if "q \<in> set SOURCES" for q
    using ok that by (simp add: observe_ok_def)
  note pv = plan_view [OF p follows refl]
  show "observe_ok w'"
    using ok pv(1,2) by (simp add: observe_ok_def w')
  have same: "shown json_len w' q = (if q \<in> set SOURCES then
      (if q \<in> set (lo_offered ?l) then map_option fst (current_value json_len (switched_on w)
         (oh_values (ob_hub w)) (lo_descriptors ?l) q) else None) else None)" for q
    by (simp add: shown_def w' switched_on_def)
  have none: "ob_view w q = None" if "q \<notin> set SOURCES" for q using ok that by (simp add: observe_ok_def)
  show "ob_view w' r \<in> {if full then shown json_len w' r else None, shown json_len w' r}"
  proof (cases "r \<in> set SOURCES")
    case True
    with pv(3) [OF _ True] show ?thesis unfolding same by (auto simp: w' split: if_splits)
  next
    case False
    with pv(2) [OF _ False] none [OF False] show ?thesis unfolding same by (simp add: w')
  qed
qed

lemma observe_ok_step: "observe_ok w \<Longrightarrow> observe_ok (observe_step json_len e w)"
proof (cases e)
  case (ObFlush full)
  assume ok: "observe_ok w"
  obtain ms w' where fl: "observe_flush json_len full w = (ms, w')" by fastforce
  show ?thesis
  proof (cases "ob_paused w")
    case True
    with fl ok ObFlush show ?thesis by (auto simp: observe_flush_def plan_def observe_ok_def)
  next
    case False
    from flush_view(1) [OF ok this fl] ObFlush fl show ?thesis by simp
  qed
next
  case (ObResources answer)
  assume "observe_ok w"
  with ObResources show ?thesis
    by (auto simp: observe_ok_def forget_unoffered_def view_follows_def restrict_map_def)
qed (auto simp: observe_ok_def view_follows_def)

lemma observe_ok_run: "observe_ok w \<Longrightarrow> observe_ok (observe_run json_len es w)"
  unfolding observe_run_def by (induction es arbitrary: w) (simp_all add: observe_ok_step)

lemma observe_ok_start: "observe_ok (observe_start synth os hub)"
  by (simp add: observe_ok_def observe_start_def view_follows_def)

section \<open>Properties\<close>

text \<open>
  C23: whatever acks, descriptors, readings, choices of the owner, pauses and flushes came
  before: after a flush that is not paused the synth holds of each source either nothing or
  exactly what the owner shares with it now, and after a full flush exactly that (nothing
  of a source that is off, not offered or without a value that fits).
\<close>

theorem observe_view_current:
  assumes "w = observe_run json_len es (observe_start synth os hub)" "\<not> ob_paused w"
    and "w' = snd (observe_flush json_len full w)"
  shows "(\<forall>r. ob_view w' r = None \<or> ob_view w' r = shown json_len w' r) \<and>
    (full \<longrightarrow> ob_view w' = shown json_len w')"
proof -
  have ok: "observe_ok w" unfolding assms(1) by (rule observe_ok_run [OF observe_ok_start])
  obtain ms where fl: "observe_flush json_len full w = (ms, w')" using assms(3) by (metis prod.collapse)
  note v = flush_view(2) [OF ok assms(2) fl]
  show ?thesis
    using v by (cases full) (auto simp: fun_eq_iff)
qed

definition limit_of :: "descriptor option \<Rightarrow> nat" where
  "limit_of d = (case d of Some x \<Rightarrow> if 0 < ds_max_bytes x then ds_max_bytes x else DEFAULT_MAX_BYTES
     | None \<Rightarrow> DEFAULT_MAX_BYTES)"

lemma fit_limit: "fit json_len x d = Some v \<Longrightarrow> \<exists>n. json_len v = Some n \<and> n \<le> limit_of d"
  by (auto simp: fit_def Let_def limit_of_def split: json.splits option.splits if_splits)

definition may_send :: "(json \<Rightarrow> nat option) \<Rightarrow> observe_world \<Rightarrow> json \<Rightarrow> bool" where
  "may_send json_len w m \<longleftrightarrow> (\<exists>r \<in> set SOURCES. r \<in> set (lo_offered (ob_link w)) \<and>
     ((\<exists>v t n. m = observe_message r (Some v) t \<and> r \<in> switched_on w \<and> shown json_len w r = Some v \<and>
         json_len v = Some n \<and> n \<le> limit_of (find (\<lambda>d. ds_resource d = r) (lo_descriptors (ob_link w)))) \<or>
      (m = observe_message r None 0 \<and> (\<exists>v. ob_sent w r = Some (Some v)))))"

lemma plan_one_sends:
  assumes "plan_one json_len (lo_offered (ob_link w)) (switched_on w) (oh_values (ob_hub w))
      (lo_descriptors (ob_link w)) full r sn = (ms, sn')"
    and "r \<in> set SOURCES" "sn r = ob_sent w r" "m \<in> set ms"
  shows "may_send json_len w m"
proof -
  let ?d = "find (\<lambda>d. ds_resource d = r) (lo_descriptors (ob_link w))"
  let ?cur = "current_value json_len (switched_on w) (oh_values (ob_hub w)) (lo_descriptors (ob_link w)) r"
  have offered: "r \<in> set (lo_offered (ob_link w))" using assms(1,4) by (auto simp: plan_one_def split: if_splits)
  show ?thesis
  proof (cases ?cur)
    case None
    with offered assms show ?thesis
      by (auto simp: plan_one_def may_send_def split: option.splits)
  next
    case (Some vt)
    obtain v t where vt: "vt = (v, t)" by fastforce
    from Some vt have on: "r \<in> switched_on w" and "\<exists>x. fit json_len x ?d = Some v"
      by (auto simp: current_value_def split: if_splits option.splits)
    then obtain n where n: "json_len v = Some n" "n \<le> limit_of ?d" using fit_limit by blast
    have m: "m = observe_message r (Some v) t"
      using offered Some vt assms by (auto simp: plan_one_def split: if_splits)
    have "shown json_len w r = Some v" using offered Some vt assms(2) by (simp add: shown_def)
    with offered on n m assms(2) show ?thesis unfolding may_send_def by blast
  qed
qed

lemma plan_one_other:
  "plan_one json_len offered on values ds full r sn = (ms, sn') \<Longrightarrow> q \<noteq> r \<Longrightarrow> sn' q = sn q"
  by (auto simp: plan_one_def split: if_splits option.splits)

text \<open>
  an observe message is about a source of this app that the synth offers: its value is the
  fitted current one, the owner has the source on for this synth and the value is no longer
  than the synth takes; or it clears a source the synth has a value of. Paused, nothing is
  sent.
\<close>

theorem observe_sends_only_shared:
  "(if ob_paused w then fst (observe_flush json_len full w) = []
    else list_all (may_send json_len w) (fst (observe_flush json_len full w)))"
proof (cases "ob_paused w")
  case True
  then show ?thesis by (simp add: observe_flush_def plan_def)
next
  case False
  let ?p = "plan_one json_len (lo_offered (ob_link w)) (switched_on w) (oh_values (ob_hub w))
      (lo_descriptors (ob_link w)) full"
  obtain ms1 s1 where one: "?p OBS_CALL (ob_sent w) = (ms1, s1)" by fastforce
  obtain ms2 s2 where two: "?p OBS_ACTIVITY s1 = (ms2, s2)" by fastforce
  obtain ms3 s3 where three: "?p OBS_PLACE s2 = (ms3, s3)" by fastforce
  have ms: "fst (observe_flush json_len full w) = ms1 @ ms2 @ ms3"
    using False by (simp add: observe_flush_def plan_def SOURCES_def one two three)
  have "s1 OBS_ACTIVITY = ob_sent w OBS_ACTIVITY" "s2 OBS_PLACE = ob_sent w OBS_PLACE"
    using plan_one_other [OF one] plan_one_other [OF two] SOURCES_distinct by metis+
  then have "list_all (may_send json_len w) (ms1 @ ms2 @ ms3)"
    using plan_one_sends [OF one] plan_one_sends [OF two] plan_one_sends [OF three]
    by (auto simp: list_all_iff SOURCES_def)
  with False ms show ?thesis by simp
qed

theorem observe_view_current_witness:
  "\<exists>w'. ob_view w' OBS_PLACE = Some (JObj []) \<and> ob_view w' = shown (\<lambda>_. Some 2) w'"
proof -
  let ?ack = "\<lparr>ha_synth_id = [], ha_synth_name = [], ha_synth_version = [],
     ha_features = [OBSERVE_FEATURE], ha_observe_resources = [OBS_PLACE]\<rparr>"
  let ?es = "[ObAck ?ack, ObReport OBS_PLACE (Some (JObj [])) 0]"
  let ?os = "default_observe\<lparr>os_on := [[1] \<mapsto> {OBS_PLACE}]\<rparr>"
  let ?hub = "\<lparr>oh_values = Map.empty, oh_changed = 0\<rparr>"
  define w where "w = observe_run (\<lambda>_. Some 2) ?es (observe_start [1] ?os ?hub)"
  have up: "\<not> ob_paused w" by (simp add: w_def observe_run_def observe_start_def)
  define w' where "w' = snd (observe_flush (\<lambda>_. Some 2) True w)"
  have cur: "ob_view w' = shown (\<lambda>_. Some 2) w'"
    using observe_view_current [OF w_def up w'_def] by simp
  have "offered_names [OBS_PLACE] = [OBS_PLACE]" unfolding OBS_PLACE_def by code_simp
  then have "shown (\<lambda>_. Some 2) w' OBS_PLACE = Some (JObj [])"
    by (simp add: w'_def w_def observe_flush_def case_prod_unfold shown_def observe_run_def observe_start_def
        note_ack_def ack_has_def switched_on_def current_value_def hub_report_def hub_bump_def fit_def
        no_observe_def DEFAULT_MAX_BYTES_def SOURCES_def Let_def)
  with cur show ?thesis by metis
qed

end
