(* ===== verification/Files_Confinement.thy ===== *)
theory Files_Confinement
  imports Settings_Model Json_Value "HOL-Library.Sublist" "HOL-Library.List_Lexorder"
begin

text \<open>
  File access confined to the shared folders (\<open>files.rs\<close>) on a Unix system: \<open>plain\<close> is the
  identity there. The disk is the list of its nodes by real path (the names below the root
  directory); \<open>canonicalize\<close> resolves a path as \<open>realpath\<close> does, following here most forty
  links. Files are lists of bytes; permissions and the failures of the hardware are not
  modelled, and a check and the use of its result are two functions, so that the disk may
  change in between. Shown: a resolved path is free of links and inside a shared folder, an
  error tells nothing about what exists elsewhere, a write stays inside a writable folder
  unless the path is a link that leads nowhere, and then it does not.
\<close>

section \<open>Paths\<close>

datatype comp = Cur | Up | Name utext

type_synonym real = "utext list"

definition comp_of :: "utext \<Rightarrow> comp" where
  "comp_of s = (if s = [46] then Cur else if s = [46, 46] then Up else Name s)"

definition is_absolute :: "utext \<Rightarrow> bool" where
  "is_absolute p = starts_with [47] p"

text \<open>
  The parts of a path as the system walks it: a slash here the end asks for a directory, like
  a dot.
\<close>

definition walk_of :: "utext \<Rightarrow> comp list" where
  "walk_of p = map comp_of (filter (\<lambda>s. s \<noteq> []) (split_char 47 p)) @
     (if p \<noteq> [] \<and> last p = 47 then [Cur] else [])"

text \<open>\<open>Path::components\<close>: without the dots. \<open>parent\<close> and \<open>file_name\<close> work on these.\<close>

definition components :: "comp list \<Rightarrow> comp list" where
  "components w = filter (\<lambda>c. c \<noteq> Cur) w"

definition parent :: "comp list \<Rightarrow> comp list option" where
  "parent w = (if components w = [] then None else Some (butlast (components w)))"

definition file_name :: "comp list \<Rightarrow> utext option" where
  "file_name w = (if components w = [] then None
     else case last (components w) of Name n \<Rightarrow> Some n | _ \<Rightarrow> None)"

section \<open>The disk\<close>

type_synonym content = "nat list"

datatype node = NFile content | NDir | NLink utext | NOther

type_synonym disk = "(real \<times> node) list"

definition node_at :: "disk \<Rightarrow> real \<Rightarrow> node option" where
  "node_at d p = (if p = [] then Some NDir else map_of d p)"

function walk :: "disk \<Rightarrow> nat \<Rightarrow> real \<Rightarrow> comp list \<Rightarrow> real option" where
  "walk d links here [] = Some here"
| "walk d links here (Cur # cs) = walk d links here cs"
| "walk d links here (Up # cs) = walk d links (butlast here) cs"
| "walk d links here (Name n # cs) =
     (case node_at d (here @ [n]) of
        Some NDir \<Rightarrow> walk d links (here @ [n]) cs
      | Some (NLink t) \<Rightarrow>
          if links = 0 then None
          else walk d (links - 1) (if is_absolute t then [] else here) (walk_of t @ cs)
      | Some _ \<Rightarrow> if cs = [] then Some (here @ [n]) else None
      | None \<Rightarrow> None)"
  by pat_completeness auto

termination
  by (relation "measures [\<lambda>(d, links, here, cs). links, \<lambda>(d, links, here, cs). length cs]") auto

definition MAX_LINKS :: nat where "MAX_LINKS = 40"

definition canonicalize :: "disk \<Rightarrow> comp list \<Rightarrow> real option" where
  "canonicalize d w = walk d MAX_LINKS [] w"

section \<open>The check\<close>

definition root_place :: "disk \<Rightarrow> root \<Rightarrow> comp list option" where
  \<comment> \<open>where a shared folder is, or how it was picked when it cannot be resolved\<close>
  "root_place d r =
     (if \<not> is_absolute (r_path r) then None
      else case canonicalize d (walk_of (r_path r)) of
          Some p \<Rightarrow> Some (map Name p)
        | None \<Rightarrow> Some (components (walk_of (r_path r))))"

definition inside :: "disk \<Rightarrow> real \<Rightarrow> root \<Rightarrow> bool" where
  "inside d p r = (case root_place d r of Some q \<Rightarrow> prefix q (map Name p) | None \<Rightarrow> False)"

definition which_root :: "disk \<Rightarrow> real \<Rightarrow> root list \<Rightarrow> root option" where
  "which_root d p roots = find (inside d p) roots"

definition outside_text :: "utext \<Rightarrow> utext" where
  "outside_text shown = lit ''denied: '' @ shown @
     lit '' is outside the shared folders (checked after resolving symlinks)''"

definition not_found_text :: "utext \<Rightarrow> utext" where
  "not_found_text shown = lit ''not found: '' @ shown"

fun nearest :: "disk \<Rightarrow> comp list list \<Rightarrow> real option" where
  \<comment> \<open>the first of the directories that exists\<close>
  "nearest d [] = None"
| "nearest d (w # ws) = (case canonicalize d w of Some p \<Rightarrow> Some p | None \<Rightarrow> nearest d ws)"

definition ancestors :: "comp list \<Rightarrow> comp list list" where
  "ancestors w = map (\<lambda>n. take n (components w)) (rev [0..<length (components w)])"

definition not_found_or_denied :: "disk \<Rightarrow> comp list \<Rightarrow> root list \<Rightarrow> utext \<Rightarrow> utext" where
  "not_found_or_denied d w roots shown =
     (case nearest d (ancestors w) of
        None \<Rightarrow> outside_text shown
      | Some p \<Rightarrow> if which_root d p roots \<noteq> None then not_found_text shown else outside_text shown)"

definition resolve_read :: "disk \<Rightarrow> utext \<Rightarrow> root list \<Rightarrow> (utext, real) result" where
  "resolve_read d path roots =
     (if \<not> is_absolute path then Err (lit ''denied: path must be absolute'')
      else case canonicalize d (walk_of path) of
          Some p \<Rightarrow> if which_root d p roots \<noteq> None then Ok p else Err (outside_text path)
        | None \<Rightarrow> Err (not_found_or_denied d (walk_of path) roots path))"

definition writable :: "disk \<Rightarrow> utext \<Rightarrow> root list \<Rightarrow> real \<Rightarrow> real \<Rightarrow> (utext, real) result" where
  "writable d path roots checked answer =
     (case which_root d checked roots of
        Some r \<Rightarrow> if r_write r then Ok answer
          else Err (lit ''denied: '' @ path @ lit '' is in a read-only shared folder'')
      | None \<Rightarrow> Err (outside_text path))"

definition resolve_write :: "disk \<Rightarrow> utext \<Rightarrow> root list \<Rightarrow> (utext, real) result" where
  "resolve_write d path roots =
     (if \<not> is_absolute path then Err (lit ''denied: path must be absolute'')
      else let w = walk_of path
           in case canonicalize d w of
                Some p \<Rightarrow> writable d path roots p p
              | None \<Rightarrow>
                  (case parent w of
                     None \<Rightarrow> Err (outside_text path)
                   | Some up \<Rightarrow>
                       (case file_name w of
                          None \<Rightarrow> Err (lit ''denied: path has no file name'')
                        | Some n \<Rightarrow>
                            (case canonicalize d up of
                               Some p \<Rightarrow> writable d path roots p (p @ [n])
                             | None \<Rightarrow> Err (not_found_or_denied d up roots path)))))"


definition place_text :: "real \<Rightarrow> utext" where
  "place_text p = (if p = [] then [47] else concat (map (\<lambda>n. 47 # n) p))"

section \<open>Reading\<close>

definition READ_MAX :: nat where "READ_MAX = 4 * 1024 * 1024"
definition WRITE_MAX :: nat where "WRITE_MAX = 4 * 1024 * 1024"
definition LIST_MAX :: nat where "LIST_MAX = 2000"

definition node_kind :: "node \<Rightarrow> utext" where
  "node_kind n = (case n of NLink _ \<Rightarrow> lit ''symlink'' | NDir \<Rightarrow> lit ''dir'' | NFile _ \<Rightarrow> lit ''file''
     | NOther \<Rightarrow> lit ''other'')"

definition node_size :: "node \<Rightarrow> nat" where
  "node_size n = (case n of NFile c \<Rightarrow> length c | NLink t \<Rightarrow> utf8_len t | _ \<Rightarrow> 0)"

record dir_entry =
  de_name :: utext
  de_kind :: utext
  de_size :: nat

definition children :: "disk \<Rightarrow> real \<Rightarrow> (utext \<times> node) list" where
  \<comment> \<open>in the order the system lists them\<close>
  "children d p = List.map_filter (\<lambda>(q, n). if q \<noteq> [] \<and> butlast q = p then Some (last q, n) else None) d"

definition list_dir :: "disk \<Rightarrow> real \<Rightarrow> (dir_entry list \<times> bool) option" where
  "list_dir d p =
     (if node_at d p \<noteq> Some NDir then None
      else let all = children d p
           in Some (sort_key de_name (map (\<lambda>(n, x). \<lparr>de_name = n, de_kind = node_kind x, de_size = node_size x\<rparr>)
                      (take LIST_MAX all)), LIST_MAX < length all))"

definition stat_file :: "disk \<Rightarrow> real \<Rightarrow> dir_entry option" where
  \<comment> \<open>of what is at the end of the links\<close>
  "stat_file d p =
     map_option (\<lambda>n. \<lparr>de_name = (if p = [] then [] else last p), de_kind = node_kind n, de_size = node_size n\<rparr>)
       (Option.bind (canonicalize d (map Name p)) (node_at d))"

definition read_file :: "disk \<Rightarrow> real \<Rightarrow> nat \<Rightarrow> nat \<Rightarrow> (content \<times> nat \<times> bool) option" where
  \<comment> \<open>the bytes, the size of the file, whether its end is reached\<close>
  "read_file d p offset len =
     (case Option.bind (canonicalize d (map Name p)) (node_at d) of
        Some (NFile c) \<Rightarrow>
          (let off = min offset (length c);
               want = min (if len = 0 \<or> READ_MAX < len then READ_MAX else len) (length c - off);
               got = take want (drop off c)
           in Some (got, length c, length c \<le> off + length got))
      | _ \<Rightarrow> None)"

section \<open>Writing\<close>

definition put_node :: "real \<Rightarrow> node \<Rightarrow> disk \<Rightarrow> disk" where
  "put_node p n d = (p, n) # filter (\<lambda>(q, _). q \<noteq> p) d"

text \<open>
  Where opening a path for writing ends up when a file may be made: the links at its end
  are followed, and the last of them may name a file that is not there.
\<close>

fun open_target :: "disk \<Rightarrow> nat \<Rightarrow> real \<Rightarrow> real option" where
  "open_target d links p =
     (if p = [] then None
      else case node_at d p of
          None \<Rightarrow> if node_at d (butlast p) = Some NDir then Some p else None
        | Some (NFile _) \<Rightarrow> Some p
        | Some (NLink t) \<Rightarrow>
            (case links of
               0 \<Rightarrow> None
             | Suc k \<Rightarrow>
                 (let w = (if is_absolute t then [] else map Name (butlast p)) @ walk_of t
                  in if w = [] then None
                     else case (last w, canonicalize d (butlast w)) of
                         (Name n, Some up) \<Rightarrow> open_target d k (up @ [n])
                       | _ \<Rightarrow> None))
        | Some _ \<Rightarrow> None)"

declare open_target.simps [simp del]

definition write_file :: "disk \<Rightarrow> real \<Rightarrow> utext \<Rightarrow> nat \<Rightarrow> content \<Rightarrow> (utext, nat) result \<times> disk" where
  "write_file d p mode offset data =
     (if WRITE_MAX < length data then
        (Err (lit ''chunk of '' @ digits (length data) @ lit '' bytes exceeds 4194304''), d)
      else if mode = lit ''create'' then
        (if offset \<noteq> 0 then (Err (lit ''create offset must be 0''), d)
         else if node_at d p \<noteq> None then (Err (lit ''exists: '' @ concat (map (\<lambda>n. 47 # n) p)), d)
         else if node_at d (butlast p) \<noteq> Some NDir then (Err (lit ''open: not found''), d)
         else (Ok (length data), put_node p (NFile data) d))
      else if mode = lit ''replace'' then
        (if offset \<noteq> 0 then (Err (lit ''replace offset must be 0''), d)
         else case open_target d MAX_LINKS p of
             None \<Rightarrow> (Err (lit ''open: failed''), d)
           | Some q \<Rightarrow> (Ok (length data), put_node q (NFile data) d))
      else if mode = lit ''append'' then
        (case Option.bind (canonicalize d (map Name p)) (\<lambda>q. map_option (Pair q) (node_at d q)) of
           None \<Rightarrow> (Err (lit ''not found: '' @ concat (map (\<lambda>n. 47 # n) p)), d)
         | Some (q, n) \<Rightarrow>
             if offset \<noteq> node_size n then
               (Err (lit ''append offset '' @ digits offset @ lit '' must equal the current size '' @
                  digits (node_size n)), d)
             else case n of
                 NFile c \<Rightarrow> (Ok (offset + length data), put_node q (NFile (c @ data)) d)
               | _ \<Rightarrow> (Err (lit ''open: failed''), d))
      else (Err (lit ''unknown write mode '' @ quoted mode), d))"

section \<open>Lemmas\<close>

definition real_place :: "disk \<Rightarrow> real \<Rightarrow> bool" where
  \<comment> \<open>everything above is a directory, and the place itself is there and no link\<close>
  "real_place d p \<longleftrightarrow> (\<forall>q. strict_prefix q p \<longrightarrow> node_at d q = Some NDir) \<and>
     (\<exists>n. node_at d p = Some n \<and> (\<forall>t. n \<noteq> NLink t))"

lemma real_place_dir:
  "real_place d p \<Longrightarrow> node_at d p = Some NDir \<Longrightarrow> node_at d (p @ [n]) = Some x \<Longrightarrow> (\<And>t. x \<noteq> NLink t) \<Longrightarrow>
   real_place d (p @ [n])"
  by (auto simp: real_place_def strict_prefix_def prefix_snoc)

lemma real_place_up:
  assumes "real_place d p" "node_at d p = Some NDir"
  shows "real_place d (butlast p) \<and> node_at d (butlast p) = Some NDir"
proof (cases p rule: rev_cases)
  case Nil
  then show ?thesis using assms by simp
next
  case (snoc q n)
  then have "strict_prefix q p" by (simp add: strict_prefix_def)
  with assms(1) have "node_at d q = Some NDir" by (simp add: real_place_def)
  with assms(1) snoc show ?thesis
    by (auto simp: real_place_def strict_prefix_def dest: prefix_order.trans)
qed

lemma walk_real:
  "walk d links here w = Some p \<Longrightarrow> real_place d here \<Longrightarrow> node_at d here = Some NDir \<Longrightarrow> real_place d p"
proof (induction d links here w rule: walk.induct)
  case (3 d links here cs)
  then show ?case using real_place_up by simp
next
  case (4 d links here n cs)
  have root: "real_place d [] \<and> node_at d [] = Some NDir" by (simp add: real_place_def node_at_def)
  show ?case
    using 4 root by (auto split: option.splits node.splits if_splits intro: real_place_dir)
qed auto

lemma canonicalize_real: "canonicalize d w = Some p \<Longrightarrow> real_place d p"
  unfolding canonicalize_def by (erule walk_real) (simp_all add: real_place_def node_at_def)

lemma which_root_Some:
  "which_root d p roots = Some r \<Longrightarrow> r \<in> set roots \<and> inside d p r"
  unfolding which_root_def by (metis find_Some_iff nth_mem)


lemma walk_no_links:
  assumes "\<And>q t. prefix q (here @ ns) \<Longrightarrow> node_at d q \<noteq> Some (NLink t)" "walk d links here (map Name ns) = Some q"
  shows "q = here @ ns"
  using assms
proof (induction ns arbitrary: here)
  case (Cons n ns)
  have "node_at d (here @ [n]) \<noteq> Some (NLink t)" for t
    using Cons.prems(1) [of "here @ [n]" t] by simp
  with Cons.IH [of "here @ [n]"] Cons.prems show ?case
    by (auto split: option.splits node.splits if_splits)
qed simp

definition no_links_to :: "disk \<Rightarrow> real \<Rightarrow> bool" where
  "no_links_to d p \<longleftrightarrow> (\<forall>q t. prefix q p \<longrightarrow> node_at d q \<noteq> Some (NLink t))"

lemma canonicalize_no_links: "no_links_to d p \<Longrightarrow> canonicalize d (map Name p) = Some q \<Longrightarrow> q = p"
  using walk_no_links [of "[]" p d MAX_LINKS q] by (simp add: canonicalize_def no_links_to_def)

lemma real_place_no_links: "real_place d p \<Longrightarrow> no_links_to d p"
  unfolding real_place_def no_links_to_def by (metis node.distinct(7) option.sel prefix_order.le_less)

lemma node_at_put: "q \<noteq> [] \<Longrightarrow> node_at (put_node q n d) p = (if p = q then Some n else node_at d p)"
  by (auto simp: node_at_def put_node_def map_of_filter_keys [of "\<lambda>x. x \<noteq> q" d, unfolded case_prod_unfold]
      case_prod_unfold)

lemma node_at_put_other: "p \<noteq> q \<Longrightarrow> node_at (put_node q n d) p = node_at d p"
  by (auto simp: node_at_def put_node_def map_of_filter_keys [of "\<lambda>x. x \<noteq> q" d, unfolded case_prod_unfold]
      case_prod_unfold)

section \<open>Properties\<close>

text \<open>
  a path the synth may read is exactly one that resolves to a place inside a shared folder,
  and what is handed on is that place: below the root all of it directories, no link
  anywhere. A refusal is the same text for everything outside; only next to something that
  is inside a shared folder the synth is told that a path does not exist.
\<close>

theorem resolve_read_confined:
  "(resolve_read d path roots = Ok p \<longleftrightarrow> is_absolute path \<and> canonicalize d (walk_of path) = Some p \<and>
      list_ex (inside d p) roots) \<and>
   (case resolve_read d path roots of
      Ok q \<Rightarrow> real_place d q
    | Err e \<Rightarrow> e \<in> {lit ''denied: path must be absolute'', outside_text path} \<or>
        e = not_found_text path \<and> canonicalize d (walk_of path) = None \<and>
        list_ex (\<lambda>w. case canonicalize d w of Some q \<Rightarrow> list_ex (inside d q) roots | None \<Rightarrow> False)
          (ancestors (walk_of path)))"
proof (intro conjI)
  have found: "which_root d q roots \<noteq> None \<longleftrightarrow> list_ex (inside d q) roots" for q
    by (auto simp: which_root_def find_None_iff list_ex_iff)
  then show "resolve_read d path roots = Ok p \<longleftrightarrow> is_absolute path \<and> canonicalize d (walk_of path) = Some p \<and>
      list_ex (inside d p) roots"
    by (auto simp: resolve_read_def split: option.splits)
  have near: "nearest d ws = Some q \<Longrightarrow> list_ex (\<lambda>w. canonicalize d w = Some q) ws" for ws q
    by (induction ws) (auto split: option.splits)
  show "case resolve_read d path roots of
      Ok q \<Rightarrow> real_place d q
    | Err e \<Rightarrow> e \<in> {lit ''denied: path must be absolute'', outside_text path} \<or>
        e = not_found_text path \<and> canonicalize d (walk_of path) = None \<and>
        list_ex (\<lambda>w. case canonicalize d w of Some q \<Rightarrow> list_ex (inside d q) roots | None \<Rightarrow> False)
          (ancestors (walk_of path))"
  proof (cases "canonicalize d (walk_of path)")
    case None
    show ?thesis
    proof (cases "nearest d (ancestors (walk_of path))")
      case (Some q)
      from near [OF this] found [of q] None Some show ?thesis
        by (auto simp: resolve_read_def not_found_or_denied_def list_ex_iff intro!: bexI)
    qed (simp add: resolve_read_def not_found_or_denied_def None)
  qed (auto simp: resolve_read_def dest: canonicalize_real)
qed

lemma writable_ok:
  "writable d path roots c a = Ok p \<Longrightarrow> a = p \<and> list_ex (\<lambda>r. r_write r \<and> inside d c r) roots"
  by (auto simp: writable_def list_ex_iff dest!: which_root_Some split: option.splits if_splits)

lemma inside_below: "inside d up r \<Longrightarrow> inside d (up @ [n]) r"
  by (auto simp: inside_def split: option.splits)

lemma resolve_write_ok:
  assumes "resolve_write d path roots = Ok p"
  shows "list_ex (\<lambda>r. r_write r \<and> inside d p r) roots \<and>
    (real_place d p \<or> (\<exists>up n. p = up @ [n] \<and> real_place d up))"
proof (cases "canonicalize d (walk_of path)")
  case (Some q)
  with assms show ?thesis
    by (auto simp: resolve_write_def dest!: writable_ok dest: canonicalize_real split: if_splits)
next
  case None
  with assms obtain w n up where up: "canonicalize d w = Some up" "writable d path roots up (up @ [n]) = Ok p"
    by (auto simp: resolve_write_def Let_def split: if_splits option.splits)
  with writable_ok [OF up(2)] canonicalize_real [OF up(1)] inside_below [of d up _ n]
  show ?thesis by (auto simp: list_ex_iff)
qed

lemma open_target_plain:
  "\<forall>t. node_at d p \<noteq> Some (NLink t) \<Longrightarrow> open_target d links p = Some q \<Longrightarrow> q = p"
  by (subst (asm) open_target.simps) (auto split: if_splits option.splits node.splits)

text \<open>
  C24: a write that was checked changes nothing but the checked place, and that place is inside
  a folder shared for writing, as long as the disk did not change in between and the path is
  no link to a file that does not exist.
\<close>

theorem write_stays_inside:
  assumes "resolve_write d path roots = Ok p" "\<forall>t. node_at d p \<noteq> Some (NLink t)"
    and "write_file d p mode offset data = (r, d')"
  shows "(\<forall>q. node_at d' q \<noteq> node_at d q \<longrightarrow> q = p) \<and> list_ex (\<lambda>r. r_write r \<and> inside d p r) roots"
proof
  note ok = resolve_write_ok [OF assms(1)]
  then show "list_ex (\<lambda>r. r_write r \<and> inside d p r) roots" by blast
  have "no_links_to d p"
  proof (cases "real_place d p")
    case False
    with ok obtain up n where "p = up @ [n]" "real_place d up" by blast
    with real_place_no_links [of d up] assms(2) show ?thesis
      by (auto simp: no_links_to_def prefix_snoc)
  qed (rule real_place_no_links)
  note plain = canonicalize_no_links [OF this] open_target_plain [OF assms(2)]
  note put = node_at_put_other
  have changed: "x = p" if "node_at d' x \<noteq> node_at d x" for x
  proof (rule ccontr)
    assume "x \<noteq> p"
    then have "node_at (put_node p n d) x = node_at d x" for n by (rule put)
    with that assms(3) plain show False
      by (auto simp: write_file_def bind_eq_Some_conv split: if_splits option.splits prod.splits node.splits)
  qed
  then show "\<forall>q. node_at d' q \<noteq> node_at d q \<longrightarrow> q = p" by blast
qed


definition trap_disk :: disk where
  "trap_disk = [([lit ''r''], NDir), ([lit ''o''], NDir), ([lit ''r'', lit ''x''], NLink (lit ''/o/y''))]"

definition trap_root :: root where
  "trap_root = \<lparr>r_path = lit ''/r'', r_write = True\<rparr>"

text \<open>
  a link in a writable folder that leads to a file that does not exist is not caught: the
  check takes the link's own place, and a write with mode replace makes the file it leads
  to, outside of every shared folder.
\<close>

theorem dangling_link_escapes:
  "resolve_write trap_disk (lit ''/r/x'') [trap_root] = Ok [lit ''r'', lit ''x''] \<and>
   write_file trap_disk [lit ''r'', lit ''x''] (lit ''replace'') 0 [1] =
     (Ok 1, put_node [lit ''o'', lit ''y''] (NFile [1]) trap_disk) \<and>
   \<not> inside trap_disk [lit ''o'', lit ''y''] trap_root"
proof (intro conjI)
  show "resolve_write trap_disk (lit ''/r/x'') [trap_root] = Ok [lit ''r'', lit ''x'']" by code_simp
  have "open_target trap_disk MAX_LINKS [lit ''r'', lit ''x''] = Some [lit ''o'', lit ''y'']" by code_simp
  then show "write_file trap_disk [lit ''r'', lit ''x''] (lit ''replace'') 0 [1] =
     (Ok 1, put_node [lit ''o'', lit ''y''] (NFile [1]) trap_disk)"
    by (simp add: write_file_def WRITE_MAX_def)
  show "\<not> inside trap_disk [lit ''o'', lit ''y''] trap_root" by code_simp
qed

theorem write_stays_inside_witness:
  "\<exists>r d'. write_file trap_disk [lit ''r'', lit ''n''] (lit ''create'') 0 [1] = (r, d') \<and>
     node_at d' [lit ''o''] = node_at trap_disk [lit ''o''] \<and>
     list_ex (\<lambda>r. r_write r \<and> inside trap_disk [lit ''r'', lit ''n''] r) [trap_root]"
proof -
  have check: "resolve_write trap_disk (lit ''/r/n'') [trap_root] = Ok [lit ''r'', lit ''n'']" by code_simp
  have none: "node_at trap_disk [lit ''r'', lit ''n''] = None" by code_simp
  obtain r d' where wr: "write_file trap_disk [lit ''r'', lit ''n''] (lit ''create'') 0 [1] = (r, d')" by fastforce
  have "\<forall>t. node_at trap_disk [lit ''r'', lit ''n''] \<noteq> Some (NLink t)" by (simp add: none)
  from write_stays_inside [OF check this wr] wr show ?thesis by (auto simp: lit_eq_iff)
qed

end
