(* ===== verification/Browser_Cleaning.thy ===== *)
theory Browser_Cleaning
  imports Core_Policy
begin

text \<open>
  What the app takes over from what an extension says (\<open>browser.rs\<close>, \<open>cookies.rs\<close>
  \<open>host_applies\<close>): names, ids, sites, cookies, pairing codes, the vault list of a synth. All
  of it is untrusted; each function keeps only what has the right shape.
\<close>

section \<open>Names and ids\<close>

definition BROWSERS :: "(utext \<times> utext) list" where
  "BROWSERS = [(lit ''chrome'', lit ''Chrome''), (lit ''edge'', lit ''Microsoft Edge''),
     (lit ''brave'', lit ''Brave''), (lit ''chromium'', lit ''Chromium'')]"

definition SAFARI :: utext where "SAFARI = lit ''safari''"

definition clean_browser :: "utext \<Rightarrow> bool \<Rightarrow> utext" where
  "clean_browser raw safari_door =
     (if safari_door then SAFARI
      else let i = to_ascii_lowercase (trim raw)
           in if map_of BROWSERS i \<noteq> None then i else lit ''browser'')"

definition browser_name :: "utext \<Rightarrow> utext" where
  "browser_name i = (if i = SAFARI then lit ''Safari''
     else case map_of BROWSERS i of Some n \<Rightarrow> n | None \<Rightarrow> lit ''Browser'')"

definition clean_install :: "utext \<Rightarrow> utext option" where
  "clean_install raw =
     (if 16 \<le> utf8_len raw \<and> utf8_len raw \<le> 64 \<and> list_all (\<lambda>b. is_ascii_digit b \<or> 97 \<le> b \<and> b \<le> 102) raw
      then Some raw else None)"

definition clean_version :: "utext \<Rightarrow> utext" where
  "clean_version raw = take 20 (filter (\<lambda>c. is_ascii_digit c \<or> c = 46) raw)"

definition clean_device_id :: "utext \<Rightarrow> utext" where
  "clean_device_id raw =
     (if utf8_len raw \<le> 40 \<and> starts_with (lit ''dev_'') raw \<and>
         list_all (\<lambda>b. 97 \<le> b \<and> b \<le> 122 \<or> is_ascii_digit b \<or> b = 95) raw
      then raw else [])"

definition CODE_ALPHABET :: utext where "CODE_ALPHABET = lit ''ABCDEFGHJKLMNPQRSTUVWXYZ23456789''"

definition clean_code :: "utext \<Rightarrow> utext option" where
  "clean_code raw = (if utf8_len raw = 8 \<and> list_all (\<lambda>b. b \<in> set CODE_ALPHABET) raw then Some raw else None)"

section \<open>Sites\<close>

definition MAX_SITES :: nat where "MAX_SITES = 200"

fun collect_sites :: "names \<Rightarrow> utext list \<Rightarrow> json list \<Rightarrow> utext list" where
  "collect_sites nm out [] = out"
| "collect_sites nm out (x # xs) =
     (if MAX_SITES \<le> length out then out
      else case Option.bind (as_str x) (clean_site nm) of
          Some site \<Rightarrow> collect_sites nm (if site \<in> set out then out else out @ [site]) xs
        | None \<Rightarrow> collect_sites nm out xs)"

fun text_le :: "utext \<Rightarrow> utext \<Rightarrow> bool" where
  \<comment> \<open>the order of strings; on scalar values it is the order of the UTF-8 bytes\<close>
  "text_le [] t = True"
| "text_le (a # s) [] = False"
| "text_le (a # s) (b # t) = (a < b \<or> a = b \<and> text_le s t)"

fun insert_text :: "utext \<Rightarrow> utext list \<Rightarrow> utext list" where
  "insert_text x [] = [x]"
| "insert_text x (y # ys) = (if text_le x y then x # y # ys else y # insert_text x ys)"

definition sort_texts :: "utext list \<Rightarrow> utext list" where
  "sort_texts xs = foldr insert_text xs []"

definition json_items :: "json option \<Rightarrow> json list" where
  "json_items v = (case Option.bind v as_arr of Some xs \<Rightarrow> xs | None \<Rightarrow> [])"

definition clean_sites :: "names \<Rightarrow> json option \<Rightarrow> utext list" where
  "clean_sites nm raw = sort_texts (collect_sites nm [] (json_items raw))"

section \<open>Cookies\<close>

definition MAX_COOKIES :: nat where "MAX_COOKIES = 400"
definition MAX_COOKIE_FIELD :: nat where "MAX_COOKIE_FIELD = 8 * 1024"

record wire_cookie =
  wc_name :: utext
  wc_value :: utext
  wc_domain :: utext
  wc_path :: utext
  wc_expires :: int
  wc_secure :: bool
  wc_http_only :: bool
  wc_same_site :: utext

definition text_field :: "json \<Rightarrow> utext \<Rightarrow> nat \<Rightarrow> utext option" where
  "text_field c key mx =
     (case get_str key c of
        None \<Rightarrow> None
      | Some s \<Rightarrow> if utf8_len s \<le> mx \<and> list_all (\<lambda>ch. ch \<noteq> 0 \<and> ch \<noteq> 13 \<and> ch \<noteq> 10) s then Some s else None)"

definition no_dots :: "utext \<Rightarrow> utext" where
  \<comment> \<open>\<open>trim_start_matches('.')\<close>\<close>
  "no_dots s = dropWhile (\<lambda>c. c = 46) s"

definition host_applies :: "utext \<Rightarrow> utext \<Rightarrow> bool" where
  "host_applies cookie_host want =
     (let h = to_ascii_lowercase (no_dots cookie_host); w = to_ascii_lowercase (no_dots want)
      in h = w \<or> ends_with (46 # w) h)"

definition expires_of :: "json \<Rightarrow> int" where
  \<comment> \<open>a float cast to \<open>i64\<close> is cut towards zero and stops at the ends of the type\<close>
  "expires_of c =
     (let x = (case Option.bind (jget (lit ''expires'') c) as_f64 of Some x \<Rightarrow> x | None \<Rightarrow> 0)
      in if 0 < x then min \<lfloor>x\<rfloor> (2 ^ 63 - 1) else 0)"

definition same_site_of :: "json \<Rightarrow> utext" where
  "same_site_of c =
     (case get_str (lit ''same_site'') c of
        Some s \<Rightarrow> if s \<in> {lit ''none'', lit ''lax'', lit ''strict''} then s else []
      | None \<Rightarrow> [])"

definition flag_of :: "utext \<Rightarrow> json \<Rightarrow> bool" where
  "flag_of k c = (get_bool k c = Some True)"

definition cookie_host_ok :: "utext \<Rightarrow> utext \<Rightarrow> bool" where
  "cookie_host_ok site domain =
     (let host = no_dots domain
      in host \<noteq> [] \<and> list_all (\<lambda>b. is_ascii_alphanumeric b \<or> b = 45 \<or> b = 46) host \<and> host_applies domain site)"

definition clean_cookie :: "utext \<Rightarrow> json \<Rightarrow> wire_cookie option" where
  "clean_cookie site c =
     (case (text_field c (lit ''name'') MAX_COOKIE_FIELD, text_field c (lit ''value'') MAX_COOKIE_FIELD,
            text_field c (lit ''domain'') 254) of
        (Some name, Some val, Some domain) \<Rightarrow>
          if \<not> cookie_host_ok site domain \<or> name = [] \<and> val = [] then None
          else Some \<lparr>wc_name = name, wc_value = val, wc_domain = to_ascii_lowercase domain,
            wc_path = (case text_field c (lit ''path'') 2048 of
                Some p \<Rightarrow> if starts_with [47] p then p else [47] | None \<Rightarrow> [47]),
            wc_expires = expires_of c, wc_secure = flag_of (lit ''secure'') c,
            wc_http_only = flag_of (lit ''http_only'') c, wc_same_site = same_site_of c\<rparr>
      | _ \<Rightarrow> None)"

fun collect_cookies :: "utext \<Rightarrow> wire_cookie list \<Rightarrow> json list \<Rightarrow> wire_cookie list" where
  "collect_cookies site out [] = out"
| "collect_cookies site out (c # cs) =
     (if MAX_COOKIES \<le> length out then out
      else case clean_cookie site c of
          None \<Rightarrow> collect_cookies site out cs
        | Some k \<Rightarrow> collect_cookies site (out @ [k]) cs)"

definition clean_cookies :: "utext \<Rightarrow> json option \<Rightarrow> wire_cookie list" where
  "clean_cookies site raw = collect_cookies site [] (json_items raw)"

section \<open>The vault of a synth\<close>

record vault_site =
  vs_site :: utext
  vs_has_totp :: bool
  vs_updated :: int
  vs_last_used :: int
  vs_use_count :: nat

record vault_device =
  vd_id :: utext
  vd_name :: utext
  vd_created :: int
  vd_last_seen :: int

record vault_listing =
  vl_sites :: "vault_site list"
  vl_devices :: "vault_device list"

definition timestamp :: "json option \<Rightarrow> int" where
  "timestamp v = (case Option.bind v as_i64 of
      Some t \<Rightarrow> if 0 < t \<and> t < 100000000000 then t else 0 | None \<Rightarrow> 0)"

definition short_text :: "json option \<Rightarrow> nat \<Rightarrow> utext" where
  "short_text v mx = (case Option.bind v as_str of
      Some s \<Rightarrow> take mx (filter (\<lambda>c. \<not> is_control c \<and> c \<noteq> 60 \<and> c \<noteq> 62) s) | None \<Rightarrow> [])"

definition is_host :: "utext \<Rightarrow> bool" where
  "is_host s \<longleftrightarrow> 46 \<in> set s \<and> list_all (\<lambda>b. is_ascii_alphanumeric b \<or> b = 45 \<or> b = 46) s"

definition vault_site_of :: "json \<Rightarrow> vault_site option" where
  "vault_site_of row =
     (let site = to_ascii_lowercase (short_text (jget (lit ''site'') row) 253)
      in if \<not> is_host site then None
         else Some \<lparr>vs_site = site, vs_has_totp = flag_of (lit ''has_totp'') row,
           vs_updated = timestamp (jget (lit ''updated'') row),
           vs_last_used = timestamp (jget (lit ''last_used'') row),
           vs_use_count = (case Option.bind (jget (lit ''use_count'') row) as_u64 of Some n \<Rightarrow> n | None \<Rightarrow> 0)\<rparr>)"

definition vault_device_of :: "json \<Rightarrow> vault_device option" where
  "vault_device_of row =
     (let i = clean_device_id (case get_str (lit ''id'') row of Some s \<Rightarrow> s | None \<Rightarrow> [])
      in if i = [] then None
         else Some \<lparr>vd_id = i, vd_name = short_text (jget (lit ''name'') row) 60,
           vd_created = timestamp (jget (lit ''created'') row),
           vd_last_seen = timestamp (jget (lit ''last_seen'') row)\<rparr>)"

fun insert_site :: "vault_site \<Rightarrow> vault_site list \<Rightarrow> vault_site list" where
  "insert_site x [] = [x]"
| "insert_site x (y # ys) = (if text_le (vs_site x) (vs_site y) then x # y # ys else y # insert_site x ys)"

definition parse_vault_list :: "json \<Rightarrow> vault_listing" where
  "parse_vault_list v =
     \<lparr>vl_sites = foldr insert_site
        (List.map_filter vault_site_of (take 500 (json_items (jget (lit ''sites'') v)))) [],
      vl_devices = List.map_filter vault_device_of (take 50 (json_items (jget (lit ''devices'') v)))\<rparr>"

section \<open>Lemmas\<close>

lemma set_insert_text [simp]: "set (insert_text x xs) = insert x (set xs)"
  by (induction xs) auto

lemma length_insert_text [simp]: "length (insert_text x xs) = Suc (length xs)"
  by (induction xs) auto

lemma sort_texts_simps [simp]: "set (sort_texts xs) = set xs" "length (sort_texts xs) = length xs"
  by (induction xs) (auto simp: sort_texts_def)

lemma clean_site_lower: "clean_site nm r = Some s \<Longrightarrow> s = to_ascii_lowercase (trim r)"
  by (simp add: clean_site_def Let_def split: if_splits)

lemma clean_site_again: "clean_site nm r = Some s \<Longrightarrow> clean_site nm s = Some s"
proof -
  assume a: "clean_site nm r = Some s"
  then have s: "s = to_ascii_lowercase (trim r)" by (rule clean_site_lower)
  have "to_ascii_lowercase (trim s) = s"
    using s by (simp add: to_ascii_lowercase_def trim_map_lower ascii_lower_def)
  with a show ?thesis by (simp add: clean_site_def Let_def s split: if_splits)
qed

definition site_ok :: "names \<Rightarrow> utext \<Rightarrow> bool" where
  "site_ok nm s \<longleftrightarrow> clean_site nm s = Some s"

lemma clean_item_ok: "Option.bind (as_str x) (clean_site nm) = Some s \<Longrightarrow> site_ok nm s"
  by (cases "as_str x") (auto simp: site_ok_def dest: clean_site_again)

lemma collect_sites_ok:
  "length out \<le> MAX_SITES \<Longrightarrow> list_all (site_ok nm) out \<Longrightarrow>
   length (collect_sites nm out xs) \<le> MAX_SITES \<and> list_all (site_ok nm) (collect_sites nm out xs)"
proof (induction nm out xs rule: collect_sites.induct)
  case (2 nm out x xs)
  then show ?case using clean_item_ok [of x nm] by (auto split: option.split)
qed simp

lemma clean_sites_ok:
  "length (clean_sites nm raw) \<le> MAX_SITES" "s \<in> set (clean_sites nm raw) \<Longrightarrow> clean_site nm s = Some s"
  using collect_sites_ok [of "[]" nm "json_items raw"]
  by (auto simp: clean_sites_def MAX_SITES_def list_all_iff site_ok_def)

text \<open>What a cookie that is taken over looks like.\<close>

definition cookie_ok :: "utext \<Rightarrow> wire_cookie \<Rightarrow> bool" where
  "cookie_ok site k \<longleftrightarrow> host_applies (wc_domain k) site \<and> utf8_len (wc_domain k) \<le> 254 \<and>
     utf8_len (wc_name k) \<le> MAX_COOKIE_FIELD \<and> utf8_len (wc_value k) \<le> MAX_COOKIE_FIELD \<and>
     \<not> {0, 10, 13} \<inter> (set (wc_name k) \<union> set (wc_value k) \<union> set (wc_domain k) \<union> set (wc_path k)) \<noteq> {} \<and>
     starts_with [47] (wc_path k) \<and> 0 \<le> wc_expires k \<and> wc_expires k < 2 ^ 63 \<and>
     wc_same_site k \<in> {[], lit ''none'', lit ''lax'', lit ''strict''}"

lemma text_field_ok:
  "text_field c k mx = Some s \<Longrightarrow> utf8_len s \<le> mx \<and> {0, 10, 13} \<inter> set s = {}"
  by (auto simp: text_field_def list_all_iff split: option.splits if_splits)

lemma char_len_lower: "char_utf8_len (ascii_lower c) = char_utf8_len c"
  by (simp add: ascii_lower_def char_utf8_len.simps)

lemma utf8_len_lower [simp]: "utf8_len (to_ascii_lowercase s) = utf8_len s"
  by (simp add: utf8_len_def to_ascii_lowercase_def o_def char_len_lower)

lemma no_dots_lower: "no_dots (to_ascii_lowercase s) = to_ascii_lowercase (no_dots s)"
proof -
  have "(\<lambda>c. c = 46) \<circ> ascii_lower = (\<lambda>c. c = 46)" by (auto simp: ascii_lower_def fun_eq_iff)
  then show ?thesis by (simp add: no_dots_def to_ascii_lowercase_def dropWhile_map)
qed

lemma host_applies_lower [simp]: "host_applies (to_ascii_lowercase d) site = host_applies d site"
  by (simp add: host_applies_def no_dots_lower)

lemma lower_no_breaks: "{0, 10, 13} \<inter> set s = {} \<Longrightarrow> {0, 10, 13} \<inter> set (to_ascii_lowercase s) = {}"
  by (auto simp: to_ascii_lowercase_def ascii_lower_def split: if_splits)

lemma expires_of_bounds: "0 \<le> expires_of c" "expires_of c < 2 ^ 63"
  by (simp_all add: expires_of_def Let_def min_less_iff_disj)

lemma clean_cookie_ok: "clean_cookie site c = Some k \<Longrightarrow> cookie_ok site k"
proof -
  assume "clean_cookie site c = Some k"
  then obtain name val domain where
    f: "text_field c (lit ''name'') MAX_COOKIE_FIELD = Some name"
      "text_field c (lit ''value'') MAX_COOKIE_FIELD = Some val" "text_field c (lit ''domain'') 254 = Some domain"
    and h: "cookie_host_ok site domain"
    and k: "k = \<lparr>wc_name = name, wc_value = val, wc_domain = to_ascii_lowercase domain,
            wc_path = (case text_field c (lit ''path'') 2048 of
                Some p \<Rightarrow> if starts_with [47] p then p else [47] | None \<Rightarrow> [47]),
            wc_expires = expires_of c, wc_secure = flag_of (lit ''secure'') c,
            wc_http_only = flag_of (lit ''http_only'') c, wc_same_site = same_site_of c\<rparr>"
    by (auto simp: clean_cookie_def split: option.splits if_splits)
  have path: "{0, 10, 13} \<inter> set (wc_path k) = {} \<and> starts_with [47] (wc_path k)"
    using text_field_ok [of c "lit ''path''" 2048]
    by (auto simp: k starts_with_def split: option.splits)
  have site: "wc_same_site k \<in> {[], lit ''none'', lit ''lax'', lit ''strict''}"
    by (auto simp: k same_site_of_def split: option.splits)
  show ?thesis
    using text_field_ok [OF f(1)] text_field_ok [OF f(2)] text_field_ok [OF f(3)] path site h
      lower_no_breaks [of domain] expires_of_bounds [of c]
    unfolding cookie_ok_def by (auto simp: k cookie_host_ok_def Let_def)
qed

lemma collect_cookies_ok:
  "length out \<le> MAX_COOKIES \<Longrightarrow> \<forall>k \<in> set out. cookie_ok site k \<Longrightarrow>
   length (collect_cookies site out cs) \<le> MAX_COOKIES \<and> (\<forall>k \<in> set (collect_cookies site out cs). cookie_ok site k)"
  by (induction site out cs rule: collect_cookies.induct) (auto split: option.splits dest: clean_cookie_ok)

lemma clean_cookies_ok:
  "length (clean_cookies site raw) \<le> MAX_COOKIES \<and> (\<forall>k \<in> set (clean_cookies site raw). cookie_ok site k)"
  unfolding clean_cookies_def by (rule collect_cookies_ok) (simp_all add: MAX_COOKIES_def)

end
