(* ===== verification/Browser_Sessions.thy ===== *)
theory Browser_Sessions
  imports Browser_Cleaning Core_Links
begin

text \<open>
  The browser link (\<open>browser.rs\<close>): the remembered browsers, the connected extensions and the
  questions that wait for them (\<open>Hub\<close>), linking a browser to a synth's vault, reading a
  site's cookies through a linked browser, and what each message of an extension does. A
  session is an object named by its id; a task that holds one whose connection ended sees it
  as it was (\<open>snapshot\<close>). What happens while the code waits (for the owner, for the synth,
  for the extension) is a change of the state handed in.
\<close>

section \<open>Remembered browsers\<close>

definition MAX_BROWSERS :: nat where "MAX_BROWSERS = 32"

fun oldest_unlinked :: "stored_browser list \<Rightarrow> stored_browser option" where
  \<comment> \<open>the first of those not seen for the longest, never a linked one\<close>
  "oldest_unlinked [] = None"
| "oldest_unlinked (b # bs) =
     (if b_linked b then oldest_unlinked bs
      else case oldest_unlinked bs of
          None \<Rightarrow> Some b
        | Some c \<Rightarrow> if b_last_seen b \<le> b_last_seen c then Some b else Some c)"

definition new_browser :: "utext \<Rightarrow> stored_browser" where
  "new_browser install = \<lparr>b_install = install, b_browser = lit ''browser'', b_linked = False,
     b_device_id = [], b_synth_id = [], b_ext_version = [], b_last_seen = 0\<rparr>"

definition make_room :: "utext \<Rightarrow> stored_browser list \<Rightarrow> stored_browser list option" where
  "make_room install bs =
     (if list_ex (\<lambda>b. b_install b = install) bs then Some bs
      else if MAX_BROWSERS \<le> length bs then
        (case oldest_unlinked bs of
           None \<Rightarrow> None
         | Some b \<Rightarrow> Some (remove1 b bs @ [new_browser install]))
      else Some (bs @ [new_browser install]))"

fun change_browser :: "utext \<Rightarrow> (stored_browser \<Rightarrow> stored_browser) \<Rightarrow> stored_browser list \<Rightarrow> stored_browser list" where
  "change_browser install f [] = []"
| "change_browser install f (b # bs) =
     (if b_install b = install then f b # bs else b # change_browser install f bs)"

definition find_browser :: "utext \<Rightarrow> shared \<Rightarrow> stored_browser option" where
  "find_browser install sh = find (\<lambda>b. b_install b = install) (p_browsers (sh_persisted sh))"

definition update_browser :: "utext \<Rightarrow> (stored_browser \<Rightarrow> stored_browser) \<Rightarrow> shared \<Rightarrow> shared" where
  \<comment> \<open>with no room for a new one nothing is done, and nobody told\<close>
  "update_browser install f sh =
     (let p = sh_persisted sh
      in case make_room install (p_browsers p) of
           None \<Rightarrow> sh
         | Some bs \<Rightarrow>
             (let bs1 = change_browser install f bs
              in emit EvBrowsers
                   (if bs1 \<noteq> p_browsers p then save_locked (set_persisted (p\<lparr>p_browsers := bs1\<rparr>) sh) else sh)))"

definition not_linked :: "stored_browser \<Rightarrow> stored_browser" where
  "not_linked b = b\<lparr>b_linked := False, b_device_id := [], b_synth_id := []\<rparr>"

definition linked_with :: "utext \<Rightarrow> utext \<Rightarrow> stored_browser \<Rightarrow> stored_browser" where
  "linked_with device synth b = b\<lparr>b_linked := True, b_device_id := device, b_synth_id := synth\<rparr>"

section \<open>Connected extensions\<close>

definition MAX_SESSIONS :: nat where "MAX_SESSIONS = 16"

definition session_of :: "nat \<Rightarrow> shared \<Rightarrow> browser_session option" where
  "session_of i sh = find (\<lambda>s. bs_id s = i) (sh_sessions sh)"

definition snapshot :: "browser_session \<Rightarrow> shared \<Rightarrow> browser_session" where
  "snapshot s sh = (case session_of (bs_id s) sh of Some cur \<Rightarrow> cur | None \<Rightarrow> s)"

definition upd_session :: "nat \<Rightarrow> (browser_session \<Rightarrow> browser_session) \<Rightarrow> shared \<Rightarrow> shared" where
  "upd_session i f sh = sh\<lparr>sh_sessions := map (\<lambda>s. if bs_id s = i then f s else s) (sh_sessions sh)\<rparr>"

definition takes_message :: "nat \<Rightarrow> shared \<Rightarrow> bool" where
  \<comment> \<open>\<open>try_send\<close> works: connected, and its queue is not full\<close>
  "takes_message i sh = (case session_of i sh of Some s \<Rightarrow> length (bs_queue s) < OUT_QUEUE | None \<Rightarrow> False)"

definition send_to :: "nat \<Rightarrow> json \<Rightarrow> shared \<Rightarrow> shared" where
  "send_to i m sh = upd_session i (session_send m) sh"

definition by_install :: "utext \<Rightarrow> shared \<Rightarrow> browser_session option" where
  "by_install install sh = find (\<lambda>s. bs_greeted s \<and> bs_install s = install) (rev (sh_sessions sh))"

definition new_session :: "nat \<Rightarrow> bool \<Rightarrow> browser_session" where
  "new_session i safari = \<lparr>bs_id = i, bs_safari = safari, bs_greeted = False, bs_browser = [],
     bs_install = [], bs_ext_version = [], bs_paired = False, bs_device_id = [], bs_sites = [],
     bs_all_sites = False, bs_pairing = False, bs_code_sent = None, bs_code_synth = [],
     bs_last_pair = None, bs_queue = []\<rparr>"

definition EXTENSION_ORIGIN :: utext where
  "EXTENSION_ORIGIN = lit ''chrome-extension://fmccidehlojeieenopnkfeggeghkhgpa/''"

definition SAFARI_ORIGIN :: utext where
  "SAFARI_ORIGIN = lit ''safari-web-extension://ai.snth.connect.safari/''"

definition admits :: "bool \<Rightarrow> utext \<Rightarrow> bool" where
  "admits safari_door origin = (if safari_door then origin = SAFARI_ORIGIN else origin = EXTENSION_ORIGIN)"

definition open_ok :: "bool \<Rightarrow> json \<Rightarrow> bool" where
  "open_ok safari_door v \<longleftrightarrow>
     jget (lit ''type'') v = Some (JStr (lit ''host.open'')) \<and> jget (lit ''v'') v = Some (JInt 1) \<and>
     admits safari_door (case get_str (lit ''origin'') v of Some origin \<Rightarrow> origin | None \<Rightarrow> [])"

definition connect_browser :: "bool \<Rightarrow> json \<Rightarrow> shared \<Rightarrow> nat option \<times> shared" where
  \<comment> \<open>the first line of a connection: the new session, or closed unheard\<close>
  "connect_browser safari_door v sh =
     (if \<not> open_ok safari_door v \<or> MAX_SESSIONS \<le> length (sh_sessions sh) then (None, sh)
      else let i = bh_next_session (sh_hub sh) + 1
           in (Some i, sh\<lparr>sh_hub := (sh_hub sh)\<lparr>bh_next_session := i\<rparr>,
                          sh_sessions := sh_sessions sh @ [new_session i safari_door]\<rparr>))"

definition leave_browser :: "nat \<Rightarrow> shared \<Rightarrow> shared" where
  \<comment> \<open>whoever waited for this extension gets no answer\<close>
  "leave_browser i sh = emit EvBrowsers
     (sh\<lparr>sh_sessions := filter (\<lambda>s. bs_id s \<noteq> i) (sh_sessions sh),
         sh_hub := (sh_hub sh)\<lparr>bh_waiting :=
           (\<lambda>r. if bh_waiting (sh_hub sh) r = Some i then None else bh_waiting (sh_hub sh) r)\<rparr>\<rparr>)"

section \<open>Asking an extension\<close>

definition hub_ask :: "nat \<Rightarrow> (nat \<Rightarrow> json) \<Rightarrow> shared \<Rightarrow> nat \<times> bool \<times> shared" where
  \<comment> \<open>the id of the question, whether it went out\<close>
  "hub_ask i msg sh =
     (let r = bh_next_request (sh_hub sh) + 1; h = (sh_hub sh)\<lparr>bh_next_request := r\<rparr>
      in if takes_message i sh
         then (r, True, send_to i (msg r) (sh\<lparr>sh_hub := h\<lparr>bh_waiting := (bh_waiting h)(r \<mapsto> i)\<rparr>\<rparr>))
         else (r, False, sh\<lparr>sh_hub := h\<lparr>bh_waiting := (bh_waiting h)(r := None)\<rparr>\<rparr>))"

definition hub_answer :: "nat \<Rightarrow> json \<Rightarrow> shared \<Rightarrow> shared" where
  \<comment> \<open>handed to whoever asked that session\<close>
  "hub_answer i msg sh =
     (case Option.bind (jget (lit ''id'') msg) as_u64 of
        None \<Rightarrow> sh
      | Some r \<Rightarrow>
          if bh_waiting (sh_hub sh) r = Some i then
            sh\<lparr>sh_hub := (sh_hub sh)\<lparr>bh_waiting := (bh_waiting (sh_hub sh))(r := None),
                 bh_answers := bh_answers (sh_hub sh) @ [(r, i, msg)]\<rparr>\<rparr>
          else sh)"

definition hub_end :: "nat \<Rightarrow> shared \<Rightarrow> json option \<times> shared" where
  \<comment> \<open>the wait is over: the answer, when one came in time\<close>
  "hub_end r sh =
     (map_option (\<lambda>(_, _, m). m) (find (\<lambda>(q, _, _). q = r) (bh_answers (sh_hub sh))),
      sh\<lparr>sh_hub := (sh_hub sh)\<lparr>bh_waiting := (bh_waiting (sh_hub sh))(r := None)\<rparr>\<rparr>)"

section \<open>Cookies through an extension\<close>

datatype extension_read =
    ExCookies "wire_cookie list" utext
  | ExNoBrowser
  | ExDenied utext
  | ExNoAnswer utext
  | ExFailed utext

definition keeps_site :: "unix_time \<Rightarrow> slot_ref option \<Rightarrow> utext \<Rightarrow> shared \<Rightarrow> bool \<times> shared" where
  "keeps_site now peer site sh =
     (case k_mode (st_cookies (sh_settings sh)) of
        CookiesAuto \<Rightarrow> (True, sh)
      | CookiesAskNew \<Rightarrow> sh_grant_allows now peer (lit ''cookies'') site sh
      | CookiesAsk \<Rightarrow> (False, sh))"

definition linked_sessions :: "slot_ref option \<Rightarrow> shared \<Rightarrow> browser_session list" where
  \<comment> \<open>of browsers the owner linked to the synth that asks, the last that connected first\<close>
  "linked_sessions peer sh =
     (let synth = current_synth_id peer sh;
          linked = map b_install (filter (\<lambda>b. b_linked b \<and> b_synth_id b = synth) (p_browsers (sh_persisted sh)))
      in rev (filter (\<lambda>s. bs_greeted s \<and> bs_install s \<in> set linked) (sh_sessions sh)))"

definition reads_site :: "utext \<Rightarrow> browser_session \<Rightarrow> bool" where
  "reads_site site s \<longleftrightarrow> bs_all_sites s \<or> site \<in> set (bs_sites s)"

definition sessions_for :: "slot_ref option \<Rightarrow> utext \<Rightarrow> shared \<Rightarrow> browser_session list" where
  \<comment> \<open>a stable sort by one bit\<close>
  "sessions_for peer site sh =
     (let ss = linked_sessions peer sh
      in filter (reads_site site) ss @ filter (\<lambda>s. \<not> reads_site site s) ss)"

definition extension_for :: "slot_ref option \<Rightarrow> utext \<Rightarrow> shared \<Rightarrow> (utext \<times> bool) option" where
  "extension_for peer site sh =
     (case sessions_for peer site sh of
        [] \<Rightarrow> None | s # _ \<Rightarrow> Some (bs_browser s, reads_site site s))"

definition peer_name :: "slot_ref option \<Rightarrow> shared \<Rightarrow> utext" where
  "peer_name peer sh = (case current_slot peer sh of Some r \<Rightarrow> display_name (slot_at sh r) | None \<Rightarrow> [])"

definition cookies_request :: "utext \<Rightarrow> utext \<Rightarrow> bool \<Rightarrow> nat \<Rightarrow> json" where
  "cookies_request site synth asked r =
     JObj [(lit ''asked'', JBool asked), (lit ''id'', JInt (int r)), (lit ''site'', JStr site),
           (lit ''synth'', JStr synth), (lit ''type'', JStr (lit ''cookies.get''))]"

definition cookies_reply ::
  "unix_time \<Rightarrow> slot_ref option \<Rightarrow> browser_session \<Rightarrow> utext \<Rightarrow> json option \<Rightarrow> shared \<Rightarrow> extension_read \<times> shared" where
  "cookies_reply now peer st site reply sh =
     (let name = browser_name (bs_browser st)
      in case reply of
           None \<Rightarrow> (ExNoAnswer (lit ''no answer from the user ('' @ name @
               lit '' is waiting for the owner to confirm '' @ site @ lit ''; try again once they did)''), sh)
         | Some m \<Rightarrow>
             if get_bool (lit ''ok'') m \<noteq> Some True then
               (if get_str (lit ''error'') m = Some (lit ''denied'')
                then (ExDenied (lit ''the owner did not confirm '' @ site @ lit '' in '' @ name), sh)
                else (ExFailed (name @ lit '' could not read the cookies of '' @ site), sh))
             else
               (let cookies = clean_cookies site (jget (lit ''cookies'') m);
                    (keep, sh1) = keeps_site now peer site sh;
                    sh2 = (if keep
                      then upd_session (bs_id st) (\<lambda>s. if site \<in> set (bs_sites s) then s
                             else s\<lparr>bs_sites := sort_texts (bs_sites s @ [site])\<rparr>) sh1
                      else upd_session (bs_id st) (\<lambda>s. s\<lparr>bs_sites := filter (\<lambda>x. x \<noteq> site) (bs_sites s)\<rparr>)
                             (send_to (bs_id st) (site_message site) sh1))
                in (ExCookies cookies (bs_browser st @ lit ''-extension''), emit EvBrowsers sh2)))"

definition cookies_from ::
  "unix_time \<Rightarrow> slot_ref option \<Rightarrow> browser_session \<Rightarrow> utext \<Rightarrow> bool \<Rightarrow> (shared \<Rightarrow> shared) \<Rightarrow> shared
     \<Rightarrow> extension_read \<times> shared" where
  "cookies_from now peer s site asked meanwhile sh =
     (let st = snapshot s sh;
          (r, sent, sh1) = hub_ask (bs_id s) (cookies_request site (peer_name peer sh) asked) sh;
          (reply, sh2) = (if sent then hub_end r (meanwhile sh1) else (None, sh1))
      in cookies_reply now peer st site reply sh2)"

text \<open>How long each question took and what happened meanwhile, by its number.\<close>

type_synonym browser_env = "nat \<Rightarrow> instant \<times> (shared \<Rightarrow> shared)"

fun ask_browsers ::
  "unix_time \<Rightarrow> slot_ref option \<Rightarrow> utext \<Rightarrow> bool \<Rightarrow> instant \<Rightarrow> browser_env \<Rightarrow> nat \<Rightarrow> instant \<Rightarrow> utext option
     \<Rightarrow> browser_session list \<Rightarrow> shared \<Rightarrow> extension_read \<times> shared" where
  \<comment> \<open>\<open>nothing\<close>: the first browser that had no cookie of the site\<close>
  "ask_browsers now peer site asked wait env n spent nothing [] sh =
     (case nothing of Some src \<Rightarrow> (ExCookies [] src, sh) | None \<Rightarrow> (ExNoBrowser, sh))"
| "ask_browsers now peer site asked wait env n spent nothing (s # ss) sh =
     (if nothing \<noteq> None \<and> wait - spent < seconds 2
      then (case nothing of Some src \<Rightarrow> (ExCookies [] src, sh) | None \<Rightarrow> (ExNoBrowser, sh))
      else case cookies_from now peer s site asked (snd (env n)) sh of
          (ExCookies [] src, sh1) \<Rightarrow>
            ask_browsers now peer site asked wait env (n + 1) (spent + fst (env n))
              (case nothing of None \<Rightarrow> Some src | Some x \<Rightarrow> Some x) ss sh1
        | (other, sh1) \<Rightarrow> (other, sh1))"

definition cookies_via_extension ::
  "names \<Rightarrow> unix_time \<Rightarrow> slot_ref option \<Rightarrow> utext \<Rightarrow> bool \<Rightarrow> instant \<Rightarrow> browser_env \<Rightarrow> shared
     \<Rightarrow> extension_read \<times> shared" where
  "cookies_via_extension nm now peer site asked wait env sh =
     (if clean_site nm site \<noteq> Some site then (ExNoBrowser, sh)
      else ask_browsers now peer site asked wait env 0 0 None (sessions_for peer site sh) sh)"

section \<open>Linking a browser to a vault\<close>

definition VAULT_CAP :: utext where "VAULT_CAP = lit ''vault''"
definition PAIR_WINDOW :: instant where "PAIR_WINDOW = seconds 180"
definition PAIR_COOLDOWN :: instant where "PAIR_COOLDOWN = seconds 3"

datatype pair_refusal =
    PrNotLinked | PrPaused | PrDenied | PrBusy | PrSynthOffline | PrSynthOutdated | PrOtherSynth
  | PrChooseSynth | PrFailed

fun refusal_code :: "pair_refusal \<Rightarrow> utext" where
  "refusal_code PrNotLinked = lit ''not_linked''"
| "refusal_code PrPaused = lit ''paused''"
| "refusal_code PrDenied = lit ''denied''"
| "refusal_code PrBusy = lit ''busy''"
| "refusal_code PrSynthOffline = lit ''synth_offline''"
| "refusal_code PrSynthOutdated = lit ''synth_outdated''"
| "refusal_code PrOtherSynth = lit ''other_synth''"
| "refusal_code PrChooseSynth = lit ''choose_synth''"
| "refusal_code PrFailed = lit ''failed''"

definition from_link_error :: "utext \<Rightarrow> pair_refusal" where
  "from_link_error e =
     (if contains_str (lit ''needs an update'') e \<or> contains_str (lit ''unknown method'') e then PrSynthOutdated
      else if contains_str (lit ''not linked'') e \<or> contains_str (lit ''dropped'') e \<or>
              contains_str (lit ''did not answer'') e then PrSynthOffline
      else PrFailed)"

text \<open>The world of one pairing: the owner, the synth's answers, the clock.\<close>

type_synonym synth_call = "slot_ref \<Rightarrow> utext \<Rightarrow> json \<Rightarrow> (shared \<Rightarrow> shared) \<times> answer"

record pair_world =
  pw_owner :: owner
  pw_call :: synth_call
  pw_wall :: unix_time
  pw_now :: instant        \<comment> \<open>when it is asked for\<close>
  pw_code_at :: instant    \<comment> \<open>when the code goes out\<close>
  pw_done_at :: instant    \<comment> \<open>when it is over\<close>

definition pair_entry :: "unix_time \<Rightarrow> utext \<Rightarrow> utext \<Rightarrow> entry" where
  "pair_entry wall name outcome = new_entry wall VAULT_CAP (lit ''vault.pair'') name outcome"

definition pair_refused :: "pair_world \<Rightarrow> browser_session \<Rightarrow> nat \<Rightarrow> pair_refusal \<Rightarrow> bool \<Rightarrow> shared \<Rightarrow> shared" where
  "pair_refused w s i why journaled sh =
     (let st = snapshot s sh;
          sh1 = send_to (bs_id s) (JObj [(lit ''error'', JStr (refusal_code why)), (lit ''id'', JInt (int i)),
            (lit ''type'', JStr (lit ''pair.refused''))]) sh
      in if journaled then sh_record None (pair_entry (pw_wall w) (browser_name (bs_browser st))
             (case why of
                PrDenied \<Rightarrow> lit ''denied: owner''
              | PrPaused \<Rightarrow> lit ''denied: paused by the owner''
              | _ \<Rightarrow> lit ''failed: '' @ refusal_code why)) sh1
         else sh1)"

definition pair_slot :: "utext option \<Rightarrow> shared \<Rightarrow> (pair_refusal, slot_ref) result" where
  "pair_slot synth sh =
     (case synth of
        Some i \<Rightarrow> (case find_link i sh of Some r \<Rightarrow> Ok r | None \<Rightarrow> Err PrNotLinked)
      | None \<Rightarrow> (case sh_links sh of [r] \<Rightarrow> Ok r | _ \<Rightarrow> Err PrChooseSynth))"

definition pair_question :: "utext \<Rightarrow> approval_request" where
  "pair_question name =
     (new_request VAULT_CAP name [] (lit ''link '' @ name @ lit '' to the synth's login vault''))
       \<lparr>rq_remember := NeverRemember\<rparr>"

definition pair_known ::
  "pair_world \<Rightarrow> browser_session \<Rightarrow> browser_session \<Rightarrow> nat \<Rightarrow> slot_ref \<Rightarrow> utext \<Rightarrow> shared \<Rightarrow> (pair_refusal, unit) result \<times> shared" where
  \<comment> \<open>it holds a pairing already: the synth lists the browsers it knows\<close>
  "pair_known w s st i r label sh =
     (let (meanwhile, a) = pw_call w r (lit ''vault.list'') (JObj []); sh1 = meanwhile sh
      in case a of
           Err e \<Rightarrow> (Err (from_link_error e), sh1)
         | Ok v \<Rightarrow>
             if \<not> (bs_device_id st \<noteq> [] \<and>
                   list_ex (\<lambda>d. vd_id d = bs_device_id st) (vl_devices (parse_vault_list v)))
             then (Err PrOtherSynth, sh1)
             else
               (let sh2 = update_browser (bs_install st)
                      (linked_with (bs_device_id st) (sl_synth_id (slot_at sh1 r))) sh1;
                    sh3 = send_to (bs_id s) (JObj [(lit ''id'', JInt (int i)), (lit ''synth'', JStr label),
                      (lit ''type'', JStr (lit ''pair.linked''))]) sh2
                in (Ok (), sh_record None (pair_entry (pw_wall w) (browser_name (bs_browser st)) (lit ''ok'')) sh3)))"

definition pair_code ::
  "pair_world \<Rightarrow> browser_session \<Rightarrow> browser_session \<Rightarrow> nat \<Rightarrow> slot_ref \<Rightarrow> utext \<Rightarrow> shared \<Rightarrow> (pair_refusal, unit) result \<times> shared" where
  \<comment> \<open>a code from the synth, handed to the extension\<close>
  "pair_code w s st i r label sh =
     (let (meanwhile, a) = pw_call w r (lit ''vault.pair_code'') (JObj [(lit ''browser'', JStr (bs_browser st))]);
          sh1 = meanwhile sh
      in case a of
           Err e \<Rightarrow> (Err (from_link_error e), sh1)
         | Ok v \<Rightarrow>
             (case Option.bind (get_str (lit ''code'') v) clean_code of
                None \<Rightarrow> (Err PrFailed, sh1)
              | Some code \<Rightarrow>
                  (let sh2 = upd_session (bs_id s)
                         (\<lambda>x. x\<lparr>bs_code_sent := Some (pw_code_at w), bs_code_synth := sl_synth_id (slot_at sh1 r)\<rparr>) sh1
                   in if takes_message (bs_id s) sh2
                      then (Ok (), send_to (bs_id s) (JObj [(lit ''code'', JStr code), (lit ''id'', JInt (int i)),
                             (lit ''synth'', JStr label), (lit ''type'', JStr (lit ''pair.code''))]) sh2)
                      else (Err PrFailed, sh2))))"

definition pair_inner ::
  "pair_world \<Rightarrow> browser_session \<Rightarrow> nat \<Rightarrow> bool \<Rightarrow> utext option \<Rightarrow> shared \<Rightarrow> (pair_refusal, unit) result \<times> shared" where
  "pair_inner w s i ask synth sh =
     (let st = snapshot s sh; name = browser_name (bs_browser st)
      in if \<not> has_synth sh then (Err PrNotLinked, sh)
         else case pair_slot synth sh of
             Err why \<Rightarrow> (Err why, sh)
           | Ok r \<Rightarrow>
               (let label = display_name (slot_at sh r)
                in if sh_paused sh then (Err PrPaused, sh)
                   else
                     (let (yes, sh1) = (if ask
                            then (let (a, sh') = ask_scoped (pw_owner w) (pw_wall w) None VAULT_CAP name (pair_question name) sh
                                  in (allow a, sh'))
                            else (True, sh))
                      in if \<not> yes then (Err PrDenied, sh1)
                         else if bs_paired st then pair_known w s st i r label sh1
                         else pair_code w s st i r label sh1)))"

definition too_soon :: "instant \<Rightarrow> browser_session \<Rightarrow> bool" where
  "too_soon now s \<longleftrightarrow> bs_pairing s \<or>
     (case bs_last_pair s of Some t \<Rightarrow> elapsed now t < PAIR_COOLDOWN | None \<Rightarrow> False)"

definition pair ::
  "pair_world \<Rightarrow> browser_session \<Rightarrow> nat \<Rightarrow> bool \<Rightarrow> utext option \<Rightarrow> shared \<Rightarrow> (pair_refusal, unit) result \<times> shared" where
  "pair w s i ask synth sh =
     (if too_soon (pw_now w) (snapshot s sh) then (Err PrBusy, pair_refused w s i PrBusy False sh)
      else
        (let (res, sh1) = pair_inner w s i ask synth (upd_session (bs_id s) (\<lambda>x. x\<lparr>bs_pairing := True\<rparr>) sh);
             sh2 = upd_session (bs_id s) (\<lambda>x. x\<lparr>bs_pairing := False, bs_last_pair := Some (pw_done_at w)\<rparr>) sh1
         in case res of
              Err why \<Rightarrow> (Err why, pair_refused w s i why True sh2)
            | Ok u \<Rightarrow> (Ok u, sh2)))"

definition device_of :: "json \<Rightarrow> utext" where
  "device_of msg = clean_device_id (case get_str (lit ''device_id'') msg of Some d \<Rightarrow> d | None \<Rightarrow> [])"

definition pair_done :: "instant \<Rightarrow> unix_time \<Rightarrow> nat \<Rightarrow> json \<Rightarrow> shared \<Rightarrow> shared" where
  "pair_done now wall i msg sh =
     (case session_of i sh of
        None \<Rightarrow> sh
      | Some s \<Rightarrow>
          (let waiting = (case bs_code_sent s of Some t \<Rightarrow> elapsed now t < PAIR_WINDOW | None \<Rightarrow> False);
               synth = bs_code_synth s;
               sh1 = upd_session i (\<lambda>x. x\<lparr>bs_code_sent := None, bs_code_synth := []\<rparr>) sh;
               name = browser_name (bs_browser s)
           in if \<not> waiting then sh1
              else if get_bool (lit ''ok'') msg \<noteq> Some True
              then sh_record None (pair_entry wall name (lit ''failed: the code was not accepted'')) sh1
              else
                (let d = device_of msg;
                     sh2 = upd_session i (\<lambda>x. x\<lparr>bs_paired := True, bs_device_id := d\<rparr>) sh1
                 in sh_record None (pair_entry wall name (lit ''ok''))
                      (update_browser (bs_install s) (linked_with d synth) sh2))))"

section \<open>What an extension says\<close>

definition hello_ack_message :: "utext \<Rightarrow> shared \<Rightarrow> utext \<Rightarrow> json" where
  "hello_ack_message app_version sh install =
     JObj [(lit ''app_version'', JStr app_version),
           (lit ''known'', JBool (linked_to sh install \<noteq> None)),
           (lit ''linked'', JBool (has_synth sh)),
           (lit ''synth'', JStr (synth_label_for (linked_to sh install) sh)),
           (lit ''type'', JStr (lit ''hello_ack'')), (lit ''v'', JInt 1)]"

definition error_message :: "utext \<Rightarrow> json" where
  "error_message e = (if e = lit ''unsupported_version''
     then JObj [(lit ''error'', JStr e), (lit ''type'', JStr (lit ''error'')), (lit ''v'', JInt 1)]
     else JObj [(lit ''error'', JStr e), (lit ''type'', JStr (lit ''error''))])"

definition str_of :: "utext \<Rightarrow> json \<Rightarrow> utext" where
  "str_of k msg = (case get_str k msg of Some s \<Rightarrow> s | None \<Rightarrow> [])"

definition hello_browser :: "unix_time \<Rightarrow> utext \<Rightarrow> utext \<Rightarrow> bool \<Rightarrow> utext \<Rightarrow> stored_browser \<Rightarrow> stored_browser" where
  "hello_browser wall browser version paired device b =
     (let b1 = b\<lparr>b_browser := browser, b_ext_version := version, b_last_seen := wall\<rparr>
      in if \<not> paired \<or> b_device_id b1 \<noteq> [] \<and> b_device_id b1 \<noteq> device then not_linked b1 else b1)"

fun take_back_sites :: "unix_time \<Rightarrow> utext option \<Rightarrow> nat \<Rightarrow> utext list \<Rightarrow> shared \<Rightarrow> shared" where
  \<comment> \<open>sites the owner does not allow any more\<close>
  "take_back_sites now own i [] sh = sh"
| "take_back_sites now own i (site # sites) sh =
     (let (allowed, sh1) = (case own of
            Some synth \<Rightarrow> (let (ok, g) = grant_allows now synth (lit ''cookies'') site (sh_grants sh)
                           in (ok, sh\<lparr>sh_grants := g\<rparr>))
          | None \<Rightarrow> grant_allows_any now (lit ''cookies'') site sh)
      in take_back_sites now own i sites
           (if allowed then sh1
            else upd_session i (\<lambda>s. s\<lparr>bs_sites := filter (\<lambda>x. x \<noteq> site) (bs_sites s)\<rparr>)
                   (send_to i (site_message site) sh1)))"

definition greet :: "names \<Rightarrow> utext \<Rightarrow> json \<Rightarrow> browser_session \<Rightarrow> browser_session" where
  "greet nm install msg s =
     s\<lparr>bs_greeted := True, bs_all_sites := flag_of (lit ''all_sites'') msg,
       bs_browser := clean_browser (str_of (lit ''browser'') msg) (bs_safari s), bs_install := install,
       bs_ext_version := clean_version (str_of (lit ''ext_version'') msg),
       bs_paired := flag_of (lit ''paired'') msg, bs_device_id := device_of msg,
       bs_sites := clean_sites nm (jget (lit ''sites'') msg)\<rparr>"

definition hello :: "names \<Rightarrow> utext \<Rightarrow> unix_time \<Rightarrow> nat \<Rightarrow> json \<Rightarrow> shared \<Rightarrow> shared" where
  "hello nm app_version wall i msg sh =
     (case session_of i sh of
        None \<Rightarrow> sh
      | Some s \<Rightarrow>
          (case Option.bind (get_str (lit ''install'') msg) clean_install of
             None \<Rightarrow> send_to i (error_message (lit ''bad_hello'')) sh
           | Some install \<Rightarrow>
               if Option.bind (jget (lit ''v'') msg) as_u64 \<noteq> Some 1
               then send_to i (error_message (lit ''unsupported_version'')) sh
               else
                 (let s1 = greet nm install msg s;
                      sh1 = upd_session i (greet nm install msg) sh;
                      sh2 = update_browser install (hello_browser wall (bs_browser s1) (bs_ext_version s1)
                              (bs_paired s1) (bs_device_id s1)) sh1;
                      sh3 = send_to i (hello_ack_message app_version sh2 install) sh2
                  in if k_mode (st_cookies (sh_settings sh3)) = CookiesAuto then sh3
                     else take_back_sites wall (linked_to sh3 install) i (bs_sites s1) sh3)))"

definition say_state :: "names \<Rightarrow> json \<Rightarrow> browser_session \<Rightarrow> browser_session" where
  "say_state nm msg s =
     (let s1 = (case get_bool (lit ''paired'') msg of
            Some p \<Rightarrow> if p then s\<lparr>bs_paired := True\<rparr> else s\<lparr>bs_paired := False, bs_device_id := []\<rparr>
          | None \<Rightarrow> s);
          s2 = (if jget (lit ''sites'') msg \<noteq> None
                then s1\<lparr>bs_sites := clean_sites nm (jget (lit ''sites'') msg)\<rparr> else s1)
      in case get_bool (lit ''all_sites'') msg of Some a \<Rightarrow> s2\<lparr>bs_all_sites := a\<rparr> | None \<Rightarrow> s2)"

definition state_update :: "names \<Rightarrow> nat \<Rightarrow> json \<Rightarrow> shared \<Rightarrow> shared" where
  "state_update nm i msg sh =
     (case session_of i sh of
        None \<Rightarrow> sh
      | Some s \<Rightarrow>
          (let sh1 = upd_session i (say_state nm msg) sh
           in if get_bool (lit ''paired'') msg = Some False then update_browser (bs_install s) not_linked sh1
              else emit EvBrowsers sh1))"

definition dispatch_message ::
  "names \<Rightarrow> utext \<Rightarrow> instant \<Rightarrow> unix_time \<Rightarrow> nat \<Rightarrow> json \<Rightarrow> shared \<Rightarrow> shared" where
  \<comment> \<open>one line of a connection; a request to pair starts a task of its own (\<open>pair\<close>)\<close>
  "dispatch_message nm app_version now wall i msg sh =
     (let ty = str_of (lit ''type'') msg
      in if ty \<noteq> lit ''hello'' \<and> \<not> (case session_of i sh of Some s \<Rightarrow> bs_greeted s | None \<Rightarrow> False) then sh
         else if ty = lit ''hello'' then hello nm app_version wall i msg sh
         else if ty = lit ''pair.done'' then pair_done now wall i msg sh
         else if ty = lit ''state'' then state_update nm i msg sh
         else if ty = lit ''cookies.result'' then hub_answer i msg sh
         else sh)"

section \<open>What the owner does\<close>

definition vault_slot :: "utext option \<Rightarrow> shared \<Rightarrow> (utext, slot_ref) result" where
  "vault_slot synth sh =
     (case synth of
        Some i \<Rightarrow>
          if i \<noteq> [] then
            (case find_link i sh of Some r \<Rightarrow> Ok r | None \<Rightarrow> Err (lit ''unavailable: not linked to that synth''))
          else (case sh_links sh of
              [] \<Rightarrow> Err (lit ''unavailable: not linked to a synth'')
            | [r] \<Rightarrow> Ok r
            | _ \<Rightarrow> Err (lit ''bad request: say which synth''))
      | None \<Rightarrow> (case sh_links sh of
              [] \<Rightarrow> Err (lit ''unavailable: not linked to a synth'')
            | [r] \<Rightarrow> Ok r
            | _ \<Rightarrow> Err (lit ''bad request: say which synth'')))"

record browser_view =
  bv_install :: utext
  bv_browser :: utext
  bv_connected :: bool
  bv_linked :: bool
  bv_synth_id :: "utext option"
  bv_ext_version :: utext
  bv_sites :: "utext list"
  bv_all_sites :: bool
  bv_last_seen :: unix_time

definition browser_view_of :: "shared \<Rightarrow> stored_browser \<Rightarrow> browser_view" where
  "browser_view_of sh b =
     (let cur = by_install (b_install b) sh
      in \<lparr>bv_install = b_install b, bv_browser = b_browser b, bv_connected = (cur \<noteq> None),
          bv_linked = b_linked b,
          bv_synth_id = (if b_linked b \<and> b_synth_id b \<noteq> [] then Some (b_synth_id b) else None),
          bv_ext_version = b_ext_version b,
          bv_sites = (case cur of Some s \<Rightarrow> bs_sites s | None \<Rightarrow> []),
          bv_all_sites = (case cur of Some s \<Rightarrow> bs_all_sites s | None \<Rightarrow> False),
          bv_last_seen = b_last_seen b\<rparr>)"

fun insert_view :: "browser_view \<Rightarrow> browser_view list \<Rightarrow> browser_view list" where
  "insert_view x [] = [x]"
| "insert_view x (y # ys) =
     (if bv_browser x \<noteq> bv_browser y \<and> text_le (bv_browser x) (bv_browser y) \<or>
         bv_browser x = bv_browser y \<and> text_le (bv_install x) (bv_install y)
      then x # y # ys else y # insert_view x ys)"

definition browsers :: "shared \<Rightarrow> browser_view list" where
  "browsers sh = foldr insert_view (map (browser_view_of sh) (p_browsers (sh_persisted sh))) []"

definition browser_link :: "pair_world \<Rightarrow> utext \<Rightarrow> utext option \<Rightarrow> shared \<Rightarrow> (pair_refusal, unit) result \<times> shared" where
  "browser_link w install synth sh =
     (case by_install install sh of
        None \<Rightarrow> (Err PrFailed, sh)
      | Some s \<Rightarrow> pair w s 0 False synth sh)"

definition browser_unlink ::
  "synth_call \<Rightarrow> unix_time \<Rightarrow> utext \<Rightarrow> shared \<Rightarrow> (utext, unit) result \<times> shared" where
  "browser_unlink call wall install sh =
     (case find_browser install sh of
        None \<Rightarrow> (Err (lit ''unknown browser''), sh)
      | Some b \<Rightarrow>
          (let sh1 = (case by_install install sh of
                 None \<Rightarrow> sh
               | Some s \<Rightarrow> upd_session (bs_id s) (\<lambda>x. x\<lparr>bs_paired := False, bs_device_id := [], bs_sites := []\<rparr>)
                   (send_to (bs_id s) sites_clear
                     (send_to (bs_id s) (JObj [(lit ''type'', JStr (lit ''unpair''))]) sh)));
               sh2 = update_browser install not_linked sh1;
               sh3 = sh_record None (new_entry wall VAULT_CAP (lit ''vault.unpair'')
                       (browser_name (b_browser b)) (lit ''ok'')) sh2
           in if b_device_id b = [] then (Ok (), sh3)
              else case vault_slot (Some (b_synth_id b)) sh3 of
                  Err e \<Rightarrow> (Err e, sh3)
                | Ok r \<Rightarrow>
                    (let (meanwhile, a) = call r (lit ''vault.revoke_device'')
                           (JObj [(lit ''device_id'', JStr (b_device_id b))])
                     in (case a of Ok _ \<Rightarrow> Ok () | Err e \<Rightarrow> Err e, meanwhile sh3))))"

definition browser_forget :: "utext \<Rightarrow> shared \<Rightarrow> shared" where
  "browser_forget install sh =
     (let p = sh_persisted sh;
          bs = filter (\<lambda>b. b_install b \<noteq> install \<or> by_install install sh \<noteq> None) (p_browsers p)
      in emit EvBrowsers (if length bs \<noteq> length (p_browsers p)
           then save_locked (set_persisted (p\<lparr>p_browsers := bs\<rparr>) sh) else sh))"

definition vault_list :: "synth_call \<Rightarrow> utext option \<Rightarrow> shared \<Rightarrow> (utext, vault_listing) result \<times> shared" where
  "vault_list call synth sh =
     (case vault_slot synth sh of
        Err e \<Rightarrow> (Err e, sh)
      | Ok r \<Rightarrow>
          (let (meanwhile, a) = call r (lit ''vault.list'') (JObj [])
           in (case a of Ok v \<Rightarrow> Ok (parse_vault_list v) | Err e \<Rightarrow> Err e, meanwhile sh)))"

definition vault_forget ::
  "synth_call \<Rightarrow> unix_time \<Rightarrow> utext \<Rightarrow> utext option \<Rightarrow> shared \<Rightarrow> (utext, unit) result \<times> shared" where
  "vault_forget call wall raw synth sh =
     (case vault_slot synth sh of
        Err e \<Rightarrow> (Err e, sh)
      | Ok r \<Rightarrow>
          (let site = to_ascii_lowercase (short_text (Some (JStr raw)) 253)
           in if \<not> is_host site then (Err (lit ''bad request: not a site''), sh)
              else
                (let (meanwhile, a) = call r (lit ''vault.forget'') (JObj [(lit ''site'', JStr site)]);
                     outcome = (case a of Ok _ \<Rightarrow> lit ''ok'' | Err e \<Rightarrow> lit ''failed: '' @ e)
                 in (case a of Ok _ \<Rightarrow> Ok () | Err e \<Rightarrow> Err e,
                     sh_record None (new_entry wall VAULT_CAP (lit ''vault.forget'') site outcome) (meanwhile sh)))))"


section \<open>Lemmas\<close>

lemma session_send_keeps [simp]:
  "bs_id (session_send m s) = bs_id s" "bs_greeted (session_send m s) = bs_greeted s"
  "bs_install (session_send m s) = bs_install s" "bs_sites (session_send m s) = bs_sites s"
  "bs_code_sent (session_send m s) = bs_code_sent s" "bs_code_synth (session_send m s) = bs_code_synth s"
  by (simp_all add: session_send_def)

lemma upd_session_keeps [core_simps, simp]:
  "sh_persisted (upd_session i f sh) = sh_persisted sh" "sh_grants (upd_session i f sh) = sh_grants sh"
  "sh_links (upd_session i f sh) = sh_links sh" "sh_slots (upd_session i f sh) = sh_slots sh"
  "sh_hub (upd_session i f sh) = sh_hub sh" "slot_at (upd_session i f sh) = slot_at sh"
  "sh_journal (upd_session i f sh) = sh_journal sh" "sh_paused (upd_session i f sh) = sh_paused sh"
  by (simp_all add: upd_session_def slot_at_def fun_eq_iff)

lemma send_to_keeps [core_simps, simp]:
  "sh_persisted (send_to i m sh) = sh_persisted sh" "sh_grants (send_to i m sh) = sh_grants sh"
  "sh_links (send_to i m sh) = sh_links sh" "sh_slots (send_to i m sh) = sh_slots sh"
  "sh_hub (send_to i m sh) = sh_hub sh" "slot_at (send_to i m sh) = slot_at sh"
  by (simp_all add: send_to_def)

lemma find_map_same: "(\<And>x. P (f x) = P x) \<Longrightarrow> find P (map f xs) = map_option f (find P xs)"
  by (induction xs) auto

lemma session_of_upd:
  assumes "\<And>s. bs_id (f s) = bs_id s"
  shows "session_of j (upd_session i f sh) = map_option (\<lambda>s. if bs_id s = i then f s else s) (session_of j sh)"
  unfolding session_of_def upd_session_def by (simp add: find_map_same assms)

lemma session_of_send [simp]:
  "session_of j (send_to i m sh) = map_option (\<lambda>s. if bs_id s = i then session_send m s else s) (session_of j sh)"
  by (simp add: send_to_def session_of_upd)

lemma session_of_id: "session_of i sh = Some s \<Longrightarrow> bs_id s = i"
  by (auto simp: session_of_def dest: find_SomeD)

lemma update_browser_keeps [core_simps, simp]:
  "sh_sessions (update_browser install f sh) = sh_sessions sh" "sh_grants (update_browser install f sh) = sh_grants sh"
  "sh_links (update_browser install f sh) = sh_links sh" "sh_slots (update_browser install f sh) = sh_slots sh"
  "sh_hub (update_browser install f sh) = sh_hub sh" "slot_at (update_browser install f sh) = slot_at sh"
  "p_settings (sh_persisted (update_browser install f sh)) = p_settings (sh_persisted sh)"
  by (simp_all add: update_browser_def Let_def split: option.split)

lemma session_of_cong: "sh_sessions a = sh_sessions b \<Longrightarrow> session_of i a = session_of i b"
  by (simp add: session_of_def)

lemma session_of_update [simp]: "session_of i (update_browser install f sh) = session_of i sh"
  by (rule session_of_cong) simp

section \<open>The remembered browsers\<close>

definition linked_pairs :: "shared \<Rightarrow> (utext \<times> utext) set" where
  \<comment> \<open>which profile is linked to which synth\<close>
  "linked_pairs sh = {(b_install b, b_synth_id b) | b. b \<in> set (p_browsers (sh_persisted sh)) \<and> b_linked b}"

lemma linked_pairs_cong: "sh_persisted a = sh_persisted b \<Longrightarrow> linked_pairs a = linked_pairs b"
  by (simp add: linked_pairs_def)

lemma set_change_browser:
  "b \<in> set (change_browser install f bs) \<Longrightarrow>
   b \<in> set bs \<or> (\<exists>c \<in> set bs. b_install c = install \<and> b = f c)"
  by (induction bs) (auto split: if_splits)

lemma make_room_set:
  "make_room install bs = Some cs \<Longrightarrow> set cs \<subseteq> insert (new_browser install) (set bs)"
  by (auto simp: make_room_def split: if_splits option.splits dest: notin_set_remove1)

lemma new_browser_unlinked [simp]: "\<not> b_linked (new_browser install)" "b_install (new_browser install) = install"
  by (simp_all add: new_browser_def)

lemma update_browser_set:
  assumes "b \<in> set (p_browsers (sh_persisted (update_browser install f sh)))"
  shows "b \<in> set (p_browsers (sh_persisted sh)) \<or> b = new_browser install \<or>
    (\<exists>c. (c \<in> set (p_browsers (sh_persisted sh)) \<or> c = new_browser install) \<and> b_install c = install \<and> b = f c)"
proof (cases "make_room install (p_browsers (sh_persisted sh))")
  case None
  then show ?thesis using assms by (simp add: update_browser_def)
next
  case (Some bs)
  then have "b \<in> set (change_browser install f bs)"
    using assms by (auto simp: update_browser_def Let_def split: if_splits)
  then show ?thesis using set_change_browser [of b install f bs] make_room_set [OF Some] by blast
qed

lemma linked_pairs_update:
  assumes "(i, synth) \<in> linked_pairs (update_browser install f sh)"
  shows "(i, synth) \<in> linked_pairs sh \<or>
    (\<exists>c. (c \<in> set (p_browsers (sh_persisted sh)) \<or> c = new_browser install) \<and> b_install c = install \<and>
         b_linked (f c) \<and> i = b_install (f c) \<and> synth = b_synth_id (f c))"
proof -
  from assms obtain b where "b \<in> set (p_browsers (sh_persisted (update_browser install f sh)))"
    and b: "b_linked b" "i = b_install b" "synth = b_synth_id b"
    by (auto simp: linked_pairs_def)
  from update_browser_set [OF this(1)] b show ?thesis by (auto simp: linked_pairs_def)
qed

lemma linked_pairs_not_linked: "linked_pairs (update_browser install not_linked sh) \<subseteq> linked_pairs sh"
  using linked_pairs_update [of _ _ install not_linked sh] by (fastforce simp: not_linked_def)

lemma hello_browser_linked:
  "b_linked (hello_browser wall br v p d b) \<Longrightarrow>
   b_linked b \<and> b_synth_id (hello_browser wall br v p d b) = b_synth_id b"
  "b_install (hello_browser wall br v p d b) = b_install b"
  by (auto simp: hello_browser_def not_linked_def Let_def split: if_splits)

lemma linked_pairs_hello:
  "linked_pairs (update_browser install (hello_browser wall br v p d) sh) \<subseteq> linked_pairs sh"
proof (rule subrelI)
  fix i synth
  assume "(i, synth) \<in> linked_pairs (update_browser install (hello_browser wall br v p d) sh)"
  from linked_pairs_update [OF this] show "(i, synth) \<in> linked_pairs sh"
  proof
    assume "\<exists>c. (c \<in> set (p_browsers (sh_persisted sh)) \<or> c = new_browser install) \<and> b_install c = install \<and>
       b_linked (hello_browser wall br v p d c) \<and> i = b_install (hello_browser wall br v p d c) \<and>
       synth = b_synth_id (hello_browser wall br v p d c)"
    then obtain c where c: "c \<in> set (p_browsers (sh_persisted sh)) \<or> c = new_browser install"
      "b_linked (hello_browser wall br v p d c)" "i = b_install (hello_browser wall br v p d c)"
      "synth = b_synth_id (hello_browser wall br v p d c)" by blast
    from hello_browser_linked(1) [OF c(2)] have "b_linked c" "synth = b_synth_id c" using c(4) by auto
    moreover from this c(1) have "c \<in> set (p_browsers (sh_persisted sh))" by auto
    ultimately show ?thesis using c(3) hello_browser_linked(2) by (auto simp: linked_pairs_def)
  qed
qed

lemma take_back_sites_persisted [simp]:
  "sh_persisted (take_back_sites now own i sites sh) = sh_persisted sh"
  by (induction now own i sites sh rule: take_back_sites.induct)
    (auto simp: Let_def grant_allows_any_def split: prod.split option.split)

lemma linked_pairs_done:
  "linked_pairs (update_browser install (linked_with d synth) sh) \<subseteq> insert (install, synth) (linked_pairs sh)"
  using linked_pairs_update [of _ _ install "linked_with d synth" sh] by (fastforce simp: linked_with_def)

lemma oldest_unlinked_in: "oldest_unlinked bs = Some b \<Longrightarrow> b \<in> set bs \<and> \<not> b_linked b"
  by (induction bs arbitrary: b) (auto split: if_splits option.splits)

lemma installs_change [simp]:
  "(\<And>b. b_install (f b) = b_install b) \<Longrightarrow> map b_install (change_browser install f bs) = map b_install bs"
  by (induction bs) auto

lemma length_change [simp]: "length (change_browser install f bs) = length bs"
  by (induction bs) auto

lemma change_browser_other: "b \<in> set bs \<Longrightarrow> b_install b \<noteq> install \<Longrightarrow> b \<in> set (change_browser install f bs)"
  by (induction bs) auto

lemma remove1_linked: "b_linked b \<Longrightarrow> \<not> b_linked c \<Longrightarrow> b \<in> set (remove1 c bs) \<longleftrightarrow> b \<in> set bs"
  by (metis in_set_remove1)

lemma make_room_ok:
  assumes "make_room install bs = Some cs"
  shows "b \<in> set bs \<Longrightarrow> b_linked b \<Longrightarrow> b \<in> set cs"
    and "length cs \<le> max MAX_BROWSERS (length bs)"
    and "distinct (map b_install bs) \<Longrightarrow> distinct (map b_install cs)"
proof -
  show "b \<in> set cs" if "b \<in> set bs" "b_linked b"
    using assms that by (auto simp: make_room_def remove1_linked split: if_splits option.splits dest!: oldest_unlinked_in)
  show "length cs \<le> max MAX_BROWSERS (length bs)"
    using assms by (auto simp: make_room_def length_remove1 MAX_BROWSERS_def split: if_splits option.splits dest!: oldest_unlinked_in)
  show "distinct (map b_install cs)" if "distinct (map b_install bs)"
  proof (cases "list_ex (\<lambda>b. b_install b = install) bs")
    case True
    then show ?thesis using assms that by (simp add: make_room_def)
  next
    case False
    then have "install \<notin> b_install ` set bs" by (auto simp: list_ex_iff)
    moreover have "distinct (map b_install (remove1 c bs))" for c
      using that set_remove1_subset [of c bs] by (auto simp: distinct_map distinct_remove1 inj_on_def)
    ultimately show ?thesis
      using assms False that set_remove1_subset [of _ bs]
      by (auto simp: make_room_def split: if_splits option.splits) blast
  qed
qed

text \<open>
  a browser the owner linked is never forgotten to make room for another: whatever record is
  written, a linked one of another profile stays as it is, there are never more records than
  thirty-two (or as many as there were), and one for each profile.
\<close>

theorem linked_browser_never_dropped:
  assumes "\<And>b. b_install (f b) = b_install b"
  shows "(b \<in> set (p_browsers (sh_persisted sh)) \<and> b_linked b \<and> b_install b \<noteq> install \<longrightarrow>
            b \<in> set (p_browsers (sh_persisted (update_browser install f sh)))) \<and>
    length (p_browsers (sh_persisted (update_browser install f sh)))
      \<le> max MAX_BROWSERS (length (p_browsers (sh_persisted sh))) \<and>
    (distinct (map b_install (p_browsers (sh_persisted sh))) \<longrightarrow>
       distinct (map b_install (p_browsers (sh_persisted (update_browser install f sh)))))"
proof (cases "make_room install (p_browsers (sh_persisted sh))")
  case None
  then show ?thesis by (simp add: update_browser_def)
next
  case (Some bs)
  then have eq: "p_browsers (sh_persisted (update_browser install f sh)) = change_browser install f bs"
    by (auto simp: update_browser_def Let_def)
  show ?thesis
    unfolding eq using make_room_ok [OF Some] assms change_browser_other by fastforce
qed

theorem linked_browser_never_dropped_witness:
  "length (p_browsers (sh_persisted (update_browser (lit ''a'') not_linked (blank_shared default_settings)))) \<le> MAX_BROWSERS"
  using linked_browser_never_dropped [of not_linked "new_browser []" "blank_shared default_settings" "lit ''a''"]
  by (simp add: not_linked_def blank_shared_def make_shared_def fresh_def MAX_BROWSERS_def)

section \<open>Linking\<close>

text \<open>The code a session was sent, and for whom.\<close>

definition code_of :: "nat \<Rightarrow> shared \<Rightarrow> (instant \<times> utext) option" where
  "code_of i sh = Option.bind (session_of i sh) (\<lambda>s. map_option (\<lambda>t. (t, bs_code_synth s)) (bs_code_sent s))"

lemma code_of_send [simp]: "code_of j (send_to i m sh) = code_of j sh"
  by (cases "session_of j sh") (simp_all add: code_of_def)

lemma code_of_upd:
  "(\<And>s. bs_id (f s) = bs_id s \<and> bs_code_sent (f s) = bs_code_sent s \<and> bs_code_synth (f s) = bs_code_synth s) \<Longrightarrow>
   code_of j (upd_session i f sh) = code_of j sh"
  by (cases "session_of j sh") (simp_all add: code_of_def session_of_upd)

lemma code_of_same: "sh_sessions a = sh_sessions b \<Longrightarrow> code_of i a = code_of i b"
  by (simp add: code_of_def session_of_def)

lemma code_of_update [simp]: "code_of i (update_browser install f sh) = code_of i sh"
  "code_of i (emit e sh) = code_of i sh" "code_of i (sh_record p x sh) = code_of i sh"
  "code_of i (hub_answer j m sh) = code_of i sh"
  by (rule code_of_same, simp add: hub_answer_def split: option.split)+

lemma code_of_take_back [simp]: "code_of j (take_back_sites now own i sites sh) = code_of j sh"
proof (induction now own i sites sh rule: take_back_sites.induct)
  case (2 now own i site sites sh)
  have grants: "code_of j (sh\<lparr>sh_grants := g\<rparr>) = code_of j sh" for g by (rule code_of_same) simp
  have dropped: "code_of j (upd_session i (\<lambda>s. s\<lparr>bs_sites := filter (\<lambda>x. x \<noteq> site) (bs_sites s)\<rparr>) q) = code_of j q" for q
    by (rule code_of_upd) simp
  show ?case
    using 2 by (auto simp: Let_def grants dropped grant_allows_any_def split: prod.split option.split)
qed simp

lemma code_of_hello [simp]: "code_of j (hello nm v wall i msg sh) = code_of j sh"
proof -
  have "code_of j (upd_session i (greet nm install msg) q) = code_of j q" for install q
    by (rule code_of_upd) (simp add: greet_def)
  then show ?thesis by (simp add: hello_def Let_def split: option.split)
qed

lemma code_of_state [simp]: "code_of j (state_update nm i msg sh) = code_of j sh"
proof -
  have "code_of j (upd_session i (say_state nm msg) q) = code_of j q" for q
    by (rule code_of_upd) (simp add: say_state_def Let_def split: option.split)
  then show ?thesis by (simp add: state_update_def Let_def split: option.split)
qed

lemma code_of_done: "code_of j (pair_done now wall i msg sh) = (if j = i then None else code_of j sh)"
proof (cases "session_of i sh")
  case None
  then show ?thesis by (auto simp: pair_done_def code_of_def)
next
  case (Some s)
  have take: "code_of j (upd_session i (\<lambda>x. x\<lparr>bs_code_sent := None, bs_code_synth := []\<rparr>) q) =
      (if j = i then None else code_of j q)" for q
    by (cases "session_of j q") (auto simp: code_of_def session_of_upd dest: session_of_id)
  have paired: "code_of j (upd_session i (\<lambda>x. x\<lparr>bs_paired := True, bs_device_id := d\<rparr>) q) = code_of j q" for d q
    by (rule code_of_upd) simp
  show ?thesis
    by (cases "j = i") (use Some take paired in \<open>simp_all add: pair_done_def Let_def\<close>)
qed


text \<open>One message of a session, with the clocks it is handled at.\<close>

type_synonym browser_message = "instant \<times> unix_time \<times> nat \<times> json"

definition run_messages :: "names \<Rightarrow> utext \<Rightarrow> browser_message list \<Rightarrow> shared \<Rightarrow> shared" where
  "run_messages nm v ms sh = fold (\<lambda>(now, wall, i, msg). dispatch_message nm v now wall i msg) ms sh"

definition is_done :: "json \<Rightarrow> bool" where
  "is_done msg \<longleftrightarrow> str_of (lit ''type'') msg = lit ''pair.done'' \<and> get_bool (lit ''ok'') msg = Some True"

lemma code_of_dispatch:
  "code_of j (dispatch_message nm v now wall i msg sh) \<in> {None, code_of j sh}"
  by (simp add: dispatch_message_def Let_def code_of_done)

lemma linked_pairs_hello_message: "linked_pairs (hello nm v wall i msg sh) \<subseteq> linked_pairs sh"
proof (cases "session_of i sh")
  case (Some s)
  have persisted: "linked_pairs (take_back_sites now own j sites q) = linked_pairs q"
      "linked_pairs (send_to j m q) = linked_pairs q" "linked_pairs (upd_session j g q) = linked_pairs q"
    for now own j sites q m g by (simp_all add: linked_pairs_def)
  show ?thesis
    using linked_pairs_hello [where sh = "upd_session i _ sh"]
    by (simp add: hello_def Let_def Some persisted split: option.split)
qed (simp add: hello_def)

lemma linked_pairs_done_message:
  "linked_pairs (pair_done now wall i msg sh) \<subseteq> linked_pairs sh \<union>
     {(install, synth). \<exists>s t. session_of i sh = Some s \<and> install = bs_install s \<and>
        code_of i sh = Some (t, synth) \<and> elapsed now t < PAIR_WINDOW \<and> get_bool (lit ''ok'') msg = Some True}"
proof (cases "session_of i sh")
  case (Some s)
  have persisted: "linked_pairs (sh_record p e q) = linked_pairs q" "linked_pairs (upd_session j g q) = linked_pairs q"
    for p e q j g by (simp_all add: linked_pairs_def)
  have added: "linked_pairs (update_browser (bs_install s) (linked_with d y) (upd_session i f (upd_session i g sh)))
      \<subseteq> insert (bs_install s, y) (linked_pairs sh)" for d y f g
    using linked_pairs_done [of "bs_install s" d y "upd_session i f (upd_session i g sh)"] by (simp add: persisted)
  show ?thesis
    by (auto dest!: subsetD [OF added] simp: pair_done_def Let_def Some persisted code_of_def split: option.splits)
qed (simp add: pair_done_def)

lemma linked_pairs_dispatch:
  assumes "(install, synth) \<in> linked_pairs (dispatch_message nm v now wall i msg sh)" "(install, synth) \<notin> linked_pairs sh"
  shows "\<exists>t. code_of i sh = Some (t, synth) \<and> elapsed now t < PAIR_WINDOW \<and> is_done msg"
proof -
  have state: "linked_pairs (state_update nm i msg sh) \<subseteq> linked_pairs sh"
    using linked_pairs_not_linked [where sh = "upd_session i _ sh"]
    by (auto simp: state_update_def Let_def linked_pairs_def split: option.split)
  have answer: "linked_pairs (hub_answer i msg sh) = linked_pairs sh"
    by (simp add: hub_answer_def linked_pairs_def split: option.split)
  show ?thesis
    using assms state answer linked_pairs_hello_message [of nm v wall i msg sh]
      linked_pairs_done_message [of now wall i msg sh]
    by (auto simp: dispatch_message_def Let_def is_done_def split: if_splits)
qed

text \<open>Some message redeemed a code of the synth's vault that waited in \<open>sh\<close>.\<close>

definition code_used :: "browser_message list \<Rightarrow> utext \<Rightarrow> shared \<Rightarrow> bool" where
  "code_used ms synth sh \<longleftrightarrow> (\<exists>(now, wall, i, msg) \<in> set ms. is_done msg \<and>
     (case code_of i sh of Some (t, s) \<Rightarrow> s = synth \<and> elapsed now t < PAIR_WINDOW | None \<Rightarrow> False))"

lemma code_used_Cons:
  "code_used ((now, wall, i, msg) # ms) synth sh \<longleftrightarrow>
     is_done msg \<and> (\<exists>t. code_of i sh = Some (t, synth) \<and> elapsed now t < PAIR_WINDOW) \<or> code_used ms synth sh"
  by (auto simp: code_used_def split: option.splits)

lemma code_used_mono:
  assumes "code_used ms synth a" "\<And>j. code_of j a \<in> {None, code_of j b}"
  shows "code_used ms synth b"
proof -
  have same: "code_of j a = Some x \<Longrightarrow> code_of j b = Some x" for j x using assms(2) [of j] by auto
  obtain now wall i msg t where m: "(now, wall, i, msg) \<in> set ms" "is_done msg" "code_of i a = Some (t, synth)"
      "elapsed now t < PAIR_WINDOW"
    using assms(1) by (auto simp: code_used_def split: option.splits)
  show ?thesis
    unfolding code_used_def using m same [OF m(3)] by (auto intro!: bexI [OF _ m(1)])
qed


definition waiting_browser :: shared where
  "waiting_browser = (blank_shared default_settings)\<lparr>sh_sessions :=
     [(new_session 7 False)\<lparr>bs_greeted := True, bs_install := lit ''0123456789abcdef'', bs_browser := lit ''chrome'',
        bs_code_sent := Some 0, bs_code_synth := lit ''mia''\<rparr>]\<rparr>"

definition example_done :: json where
  "example_done = JObj [(lit ''device_id'', JStr (lit ''dev_1'')), (lit ''ok'', JBool True),
     (lit ''type'', JStr (lit ''pair.done''))]"

lemma done_links_waiting:
  "(lit ''0123456789abcdef'', lit ''mia'') \<in> linked_pairs (run_messages nm v [(seconds 5, 0, 7, example_done)] waiting_browser)" for nm v
proof -
  have s: "session_of 7 waiting_browser = Some ((new_session 7 False)\<lparr>bs_greeted := True,
      bs_install := lit ''0123456789abcdef'', bs_browser := lit ''chrome'', bs_code_sent := Some 0,
      bs_code_synth := lit ''mia''\<rparr>)"
    by (simp add: session_of_def waiting_browser_def new_session_def)
  have dn: "str_of (lit ''type'') example_done = lit ''pair.done''" "get_bool (lit ''ok'') example_done = Some True"
    by (simp_all add: example_done_def str_of_def json_defs)
  have window: "elapsed (seconds 5) 0 < PAIR_WINDOW" by (simp add: elapsed_def PAIR_WINDOW_def seconds_def)
  have none: "p_browsers (sh_persisted waiting_browser) = []"
    by (simp add: waiting_browser_def blank_shared_def make_shared_def fresh_def)
  have add: "make_room (lit ''0123456789abcdef'') [] = Some [new_browser (lit ''0123456789abcdef'')]"
    by (simp add: make_room_def MAX_BROWSERS_def)
  show ?thesis
    by (simp add: run_messages_def dispatch_message_def s dn pair_done_def window Let_def linked_pairs_def
        update_browser_def none add linked_with_def)
qed


text \<open>The question a request of this session puts, in the state it is put in.\<close>

definition pairing_now :: "browser_session \<Rightarrow> shared \<Rightarrow> shared" where
  "pairing_now s sh = upd_session (bs_id s) (\<lambda>x. x\<lparr>bs_pairing := True\<rparr>) sh"

definition pair_asked :: "pair_world \<Rightarrow> browser_session \<Rightarrow> shared \<Rightarrow> approval \<times> shared" where
  "pair_asked w s sh = (let name = browser_name (bs_browser (snapshot s sh))
     in ask_scoped (pw_owner w) (pw_wall w) None VAULT_CAP name (pair_question name) (pairing_now s sh))"

lemma snapshot_pairing_now: "bs_browser (snapshot s (pairing_now s sh)) = bs_browser (snapshot s sh)"
  by (cases "session_of (bs_id s) sh") (auto simp: snapshot_def pairing_now_def session_of_upd)

lemma pair_refused_linked [simp]: "linked_pairs (pair_refused w s i why j sh) = linked_pairs sh"
  by (simp add: pair_refused_def linked_pairs_def Let_def)

lemma pair_refused_code [simp]: "code_of k (pair_refused w s i why j sh) = code_of k sh"
  by (simp add: pair_refused_def Let_def)

lemma code_of_pairing_flags [simp]:
  "code_of k (upd_session j (\<lambda>x. x\<lparr>bs_pairing := True\<rparr>) sh) = code_of k sh"
  "code_of k (upd_session j (\<lambda>x. x\<lparr>bs_pairing := False, bs_last_pair := t\<rparr>) sh) = code_of k sh"
  by (rule code_of_upd, simp)+

lemma linked_pairs_upd [simp]: "linked_pairs (upd_session j f sh) = linked_pairs sh"
  by (simp add: linked_pairs_def)

lemma pair_inner_refused:
  assumes "\<not> allow (fst (pair_asked w s sh))"
  shows "(\<exists>why. fst (pair_inner w s i True synth (pairing_now s sh)) = Err why) \<and>
    snd (pair_inner w s i True synth (pairing_now s sh)) \<in> {pairing_now s sh, snd (pair_asked w s sh)} \<and>
    pair_inner (w\<lparr>pw_call := call\<rparr>) s i True synth (pairing_now s sh) = pair_inner w s i True synth (pairing_now s sh)"
  using assms
  by (auto simp: pair_inner_def pair_asked_def snapshot_pairing_now Let_def split: prod.splits sum.splits)

text \<open>
  an extension that asks to be linked gets nothing without the owner's yes: when the owner
  refuses or does not answer in time the request is refused, the synth is not asked for
  anything (what it would answer makes no difference), and after the owner was asked nothing
  is linked and no code waits that was not there before.
\<close>

theorem refused_pair_asks_nobody:
  assumes "\<not> allow (fst (pair_asked w s sh))"
  shows "(\<exists>why. fst (pair w s i True synth sh) = Err why) \<and>
    pair (w\<lparr>pw_call := call\<rparr>) s i True synth sh = pair w s i True synth sh \<and>
    (let after = snd (pair w s i True synth sh); asked = snd (pair_asked w s sh)
     in (linked_pairs after, \<lambda>k. code_of k after)
          \<in> {(linked_pairs sh, \<lambda>k. code_of k sh), (linked_pairs asked, \<lambda>k. code_of k asked)})"
proof -
  note inner = pair_inner_refused [OF assms, of i synth call]
  have start: "linked_pairs (pairing_now s sh) = linked_pairs sh" "code_of k (pairing_now s sh) = code_of k sh" for k
    by (simp_all add: pairing_now_def)
  have same: "pair_refused (w\<lparr>pw_call := call\<rparr>) s i why j q = pair_refused w s i why j q" for why j q
    by (cases j) (simp_all add: pair_refused_def)
  show ?thesis
  proof (cases "too_soon (pw_now w) (snapshot s sh)")
    case True
    then show ?thesis by (simp add: pair_def same)
  next
    case False
    obtain why q where q: "pair_inner w s i True synth (pairing_now s sh) = (Err why, q)"
        "q \<in> {pairing_now s sh, snd (pair_asked w s sh)}"
      using inner by (metis prod.collapse)
    then have call: "pair_inner (w\<lparr>pw_call := call\<rparr>) s i True synth (pairing_now s sh) = (Err why, q)"
      using inner by simp
    show ?thesis
      using q False call start by (auto simp: pair_def same Let_def pairing_now_def [symmetric])
  qed
qed

definition refusing_world :: pair_world where
  "refusing_world = \<lparr>pw_owner = (\<lambda>_. InTime id approval_deny), pw_call = (\<lambda>_ _ _. (id, Err [])), pw_wall = 0,
     pw_now = seconds 9, pw_code_at = seconds 9, pw_done_at = seconds 9\<rparr>"

theorem refused_pair_asks_nobody_witness:
  "\<exists>why. fst (pair refusing_world (new_session 7 False) 3 True None (blank_shared default_settings)) = Err why"
proof -
  have "\<not> allow (fst (pair_asked refusing_world (new_session 7 False) (blank_shared default_settings)))"
    by (simp add: pair_asked_def Let_def ask_scoped_allow refusing_world_def approval_deny_def)
  from refused_pair_asks_nobody [OF this] show ?thesis by blast
qed

section \<open>Sites\<close>

text \<open>
  Whether an answer of the owner lets the browser keep a site: of the synth it is linked to,
  or of any synth when it is linked to none.
\<close>

definition site_allowed :: "unix_time \<Rightarrow> utext option \<Rightarrow> utext \<Rightarrow> shared \<Rightarrow> bool" where
  "site_allowed now own site sh \<longleftrightarrow>
     (case own of
        Some synth \<Rightarrow> fst (grant_allows now synth (lit ''cookies'') site (sh_grants sh))
      | None \<Rightarrow> (\<exists>s \<in> set (link_slots sh). fst (grant_allows now (sl_synth_id s) (lit ''cookies'') site (sh_grants sh))))"

lemma grant_allows_prune [simp]:
  "snd (grant_allows now s c sc g) = prune now g" "prune now (prune now g) = prune now g"
  "fst (grant_allows now s c sc (prune now g)) = fst (grant_allows now s c sc g)"
  by (simp_all add: grant_allows_def prune_def Let_def)

lemma allows_any_Cons:
  "allows_any now (s # ss) cap sc g =
     (if fst (grant_allows now s cap sc g) then (True, prune now g) else allows_any now ss cap sc (prune now g))"
  using grant_allows_prune(1) [of now s cap sc g]
  by (cases "grant_allows now s cap sc g") (auto split: bool.split)

lemma allows_any_iff:
  "fst (allows_any now ss cap sc g) \<longleftrightarrow> (\<exists>s \<in> set ss. fst (grant_allows now s cap sc g))"
  by (induction ss arbitrary: g) (auto simp: allows_any_Cons simp del: allows_any.simps(2))

lemma allows_any_store: "snd (allows_any now ss cap sc g) \<in> {g, prune now g}"
proof (induction ss arbitrary: g)
  case (Cons s ss)
  show ?case using Cons.IH [of "prune now g"] by (auto simp: allows_any_Cons simp del: allows_any.simps(2))
qed simp

lemma session_of_grants [simp]: "session_of i (sh\<lparr>sh_grants := g\<rparr>) = session_of i sh"
  by (simp add: session_of_def)

text \<open>One site of the hello: the check, and the site taken back when it fails.\<close>

definition site_checked :: "unix_time \<Rightarrow> utext option \<Rightarrow> utext \<Rightarrow> shared \<Rightarrow> bool \<times> shared" where
  "site_checked now own site sh = (case own of
     Some synth \<Rightarrow> (let (ok, g) = grant_allows now synth (lit ''cookies'') site (sh_grants sh)
                    in (ok, sh\<lparr>sh_grants := g\<rparr>))
   | None \<Rightarrow> grant_allows_any now (lit ''cookies'') site sh)"

lemma site_checked_allowed: "fst (site_checked now own site sh) = site_allowed now own site sh"
  by (auto simp: site_checked_def site_allowed_def grant_allows_any_def Let_def case_prod_unfold allows_any_iff
      split: option.split)

lemma site_checked_state:
  "\<exists>g \<in> {sh_grants sh, prune now (sh_grants sh)}. snd (site_checked now own site sh) = sh\<lparr>sh_grants := g\<rparr>"
  using allows_any_store [of now "map sl_synth_id (link_slots sh)" "lit ''cookies''" site "sh_grants sh"]
  by (auto simp: site_checked_def grant_allows_any_def Let_def case_prod_unfold split: option.split)

lemma site_allowed_pruned:
  "g \<in> {sh_grants sh, prune now (sh_grants sh)} \<Longrightarrow>
   site_allowed now own x (sh\<lparr>sh_grants := g\<rparr>) = site_allowed now own x sh"
  by (auto simp: site_allowed_def link_slots_def slot_at_def [abs_def] split: option.split)

lemma site_allowed_sessions [simp]:
  "site_allowed now own x (upd_session i f sh) = site_allowed now own x sh"
  "site_allowed now own x (send_to i m sh) = site_allowed now own x sh"
  by (cases own; simp add: site_allowed_def link_slots_def)+

lemma take_back_Cons:
  "take_back_sites now own i (site # sites) sh =
     (let (allowed, sh1) = site_checked now own site sh
      in take_back_sites now own i sites
           (if allowed then sh1
            else upd_session i (\<lambda>s. s\<lparr>bs_sites := filter (\<lambda>x. x \<noteq> site) (bs_sites s)\<rparr>)
                   (send_to i (site_message site) sh1)))"
  by (simp add: site_checked_def)

lemma take_back_sites_sites:
  assumes "session_of i sh = Some s"
  shows "\<exists>s'. session_of i (take_back_sites now own i sites sh) = Some s' \<and>
    bs_greeted s' = bs_greeted s \<and> bs_install s' = bs_install s \<and>
    bs_sites s' = filter (\<lambda>x. x \<in> set sites \<longrightarrow> site_allowed now own x sh) (bs_sites s)"
  using assms
proof (induction sites arbitrary: sh s)
  case (Cons site sites)
  obtain g where g: "g \<in> {sh_grants sh, prune now (sh_grants sh)}" "snd (site_checked now own site sh) = sh\<lparr>sh_grants := g\<rparr>"
    using site_checked_state by blast
  have check: "site_checked now own site sh = (site_allowed now own site sh, sh\<lparr>sh_grants := g\<rparr>)"
    by (rule prod_eqI) (simp_all add: g(2) site_checked_allowed)
  note same = site_allowed_pruned [OF g(1)]
  have step: "take_back_sites now own i (site # sites) sh = take_back_sites now own i sites
      (if site_allowed now own site sh then sh\<lparr>sh_grants := g\<rparr>
       else upd_session i (\<lambda>s. s\<lparr>bs_sites := filter (\<lambda>x. x \<noteq> site) (bs_sites s)\<rparr>)
              (send_to i (site_message site) (sh\<lparr>sh_grants := g\<rparr>)))" (is "_ = take_back_sites now own i sites ?q")
    by (simp only: take_back_Cons check Let_def prod.case)
  have allowed: "site_allowed now own x ?q = site_allowed now own x sh" for x by (simp add: same)
  have "\<exists>s'. session_of i ?q = Some s' \<and> bs_greeted s' = bs_greeted s \<and> bs_install s' = bs_install s \<and>
      bs_sites s' = filter (\<lambda>x. x = site \<longrightarrow> site_allowed now own x sh) (bs_sites s)"
    using Cons.prems session_of_id [OF Cons.prems]
    by (auto simp: session_of_upd filter_id_conv intro!: filter_cong)
  then obtain q where q: "session_of i ?q = Some q" "bs_greeted q = bs_greeted s" "bs_install q = bs_install s"
      "bs_sites q = filter (\<lambda>x. x = site \<longrightarrow> site_allowed now own x sh) (bs_sites s)" by blast
  have "filter (\<lambda>x. x \<in> set sites \<longrightarrow> site_allowed now own x sh) (bs_sites q) =
      filter (\<lambda>x. x \<in> set (site # sites) \<longrightarrow> site_allowed now own x sh) (bs_sites s)"
    unfolding q filter_filter by (rule filter_cong) auto
  then show ?case using Cons.IH [OF q(1)] q(2,3) unfolding step allowed by metis
qed simp

lemma linked_to_cong: "sh_persisted a = sh_persisted b \<Longrightarrow> linked_to a = linked_to b"
  by (simp add: linked_to_def fun_eq_iff)

lemma site_allowed_cong:
  "sh_grants a = sh_grants b \<Longrightarrow> link_slots a = link_slots b \<Longrightarrow> site_allowed now own x a = site_allowed now own x b"
  by (cases own) (simp_all add: site_allowed_def)

text \<open>
  once an extension says hello, the app holds it to the owner's answers: unless the owner
  wants no questions at all, the sites it may read in the app's eyes are exactly those it
  named that are sites and that a live answer of the owner allows, for the synth the browser
  is linked to after the hello, or for any synth when it is linked to none.
\<close>

theorem hello_keeps_only_allowed_sites:
  assumes "session_of i sh = Some s" "Option.bind (get_str (lit ''install'') msg) clean_install = Some install"
    "Option.bind (jget (lit ''v'') msg) as_u64 = Some 1" "k_mode (st_cookies (sh_settings sh)) \<noteq> CookiesAuto"
  shows "\<exists>s'. session_of i (hello nm v wall i msg sh) = Some s' \<and> bs_greeted s' \<and> bs_install s' = install \<and>
    bs_sites s' = filter (\<lambda>x. site_allowed wall (linked_to (hello nm v wall i msg sh) install) x sh)
      (clean_sites nm (jget (lit ''sites'') msg))"
proof -
  let ?s1 = "greet nm install msg s"
  let ?q2 = "update_browser install (hello_browser wall (bs_browser ?s1) (bs_ext_version ?s1) (bs_paired ?s1)
               (bs_device_id ?s1)) (upd_session i (greet nm install msg) sh)"
  let ?q3 = "send_to i (hello_ack_message v ?q2 install) ?q2"
  have mode: "k_mode (st_cookies (sh_settings ?q3)) \<noteq> CookiesAuto" using assms(4) by (simp add: sh_settings_def)
  have after: "hello nm v wall i msg sh = take_back_sites wall (linked_to ?q3 install) i (bs_sites ?s1) ?q3"
    using assms mode by (simp add: hello_def Let_def)
  have "session_of i ?q3 = Some (session_send (hello_ack_message v ?q2 install) ?s1)"
    using assms(1) session_of_id [OF assms(1)] by (simp add: session_of_upd greet_def)
  from take_back_sites_sites [OF this, of wall "linked_to ?q3 install" "bs_sites ?s1"]
  obtain s' where s': "session_of i (hello nm v wall i msg sh) = Some s'" "bs_greeted s'" "bs_install s' = install"
      "bs_sites s' = filter (\<lambda>x. x \<in> set (bs_sites ?s1) \<longrightarrow> site_allowed wall (linked_to ?q3 install) x ?q3) (bs_sites ?s1)"
    unfolding after by (auto simp: greet_def)
  have linked: "linked_to ?q3 = linked_to (hello nm v wall i msg sh)" unfolding after by (rule linked_to_cong) simp
  have allowed: "site_allowed wall own x ?q3 = site_allowed wall own x sh" for own x
    by (rule site_allowed_cong) (simp_all add: link_slots_def)
  have sites: "bs_sites ?s1 = clean_sites nm (jget (lit ''sites'') msg)" by (simp add: greet_def)
  have "bs_sites s' = filter (\<lambda>x. site_allowed wall (linked_to (hello nm v wall i msg sh) install) x sh) (bs_sites ?s1)"
    unfolding s'(4) linked allowed by (rule filter_cong) auto
  with s' sites show ?thesis by metis
qed

definition example_hello :: json where
  "example_hello = JObj [(lit ''install'', JStr (lit ''0123456789abcdef'')),
     (lit ''sites'', JArr [JStr (lit ''a.org'')]), (lit ''type'', JStr (lit ''hello'')), (lit ''v'', JInt 1)]"

theorem hello_keeps_only_allowed_sites_witness:
  "\<forall>nm v. \<exists>s'. session_of 7 (hello nm v 0 7 example_hello waiting_browser) = Some s' \<and> bs_greeted s'"
proof (intro allI)
  fix nm v
  have a: "session_of 7 waiting_browser \<noteq> None"
    by (simp add: session_of_def waiting_browser_def new_session_def)
  then obtain s where s: "session_of 7 waiting_browser = Some s" by blast
  have i: "Option.bind (get_str (lit ''install'') example_hello) clean_install = Some (lit ''0123456789abcdef'')"
    by (simp add: example_hello_def json_defs) code_simp
  have v: "Option.bind (jget (lit ''v'') example_hello) as_u64 = Some 1"
    by (simp add: example_hello_def json_defs)
  have m: "k_mode (st_cookies (sh_settings waiting_browser)) \<noteq> CookiesAuto"
    by (simp add: sh_settings_def waiting_browser_def blank_shared_def make_shared_def default_settings_def)
  show "\<exists>s'. session_of 7 (hello nm v 0 7 example_hello waiting_browser) = Some s' \<and> bs_greeted s'"
    using hello_keeps_only_allowed_sites [OF s i v m, of nm v 0] by blast
qed

section \<open>Cookies\<close>

lemma cookies_reply_others:
  assumes "bs_id st \<noteq> j"
  shows "session_of j (snd (cookies_reply now peer st site reply sh)) = session_of j sh"
proof -
  have keep: "session_of j (snd (keeps_site now peer site q)) = session_of j q" for q
    by (simp add: keeps_site_def sh_grant_allows_def Let_def case_prod_unfold split: cookies_mode.split)
  have emitted: "session_of j (emit e q) = session_of j q" for e q by (rule session_of_cong) simp
  have upd: "session_of j (upd_session (bs_id st) f q) = session_of j q" if "\<And>s. bs_id (f s) = bs_id s" for f q
    using assms session_of_id [of j q] by (cases "session_of j q") (auto simp: session_of_upd that)
  have sent: "session_of j (send_to (bs_id st) m q) = session_of j q" for m q
    unfolding send_to_def by (rule upd) simp
  show ?thesis
    by (cases reply)
      (simp_all add: cookies_reply_def Let_def case_prod_unfold emitted upd sent keep del: session_of_send)
qed

lemma hub_ask_others:
  assumes "i \<noteq> j"
  shows "session_of j (snd (snd (hub_ask i m sh))) = session_of j sh"
proof -
  have "session_of j (send_to i x q) = session_of j q" for x q
    using assms session_of_id [of j q] by (cases "session_of j q") auto
  moreover have "session_of j (sh\<lparr>sh_hub := h\<rparr>) = session_of j sh" for h by (simp add: session_of_def)
  ultimately show ?thesis by (simp add: hub_ask_def Let_def)
qed

lemma snapshot_id [simp]: "bs_id (snapshot s sh) = bs_id s"
  by (auto simp: snapshot_def dest: session_of_id split: option.split)

lemma cookies_from_others:
  assumes "bs_id s \<noteq> j"
  shows "session_of j (snd (cookies_from now peer s site asked id sh)) = session_of j sh"
proof -
  have ended: "session_of j (snd (hub_end r q)) = session_of j q" for r q by (simp add: hub_end_def session_of_def)
  show ?thesis
    using hub_ask_others [OF assms] assms
    by (simp add: cookies_from_def Let_def case_prod_unfold cookies_reply_others ended)
qed

lemma cookies_from_cookies:
  "fst (cookies_from now peer s site asked m sh) = ExCookies ks src \<Longrightarrow>
   length ks \<le> MAX_COOKIES \<and> list_all (cookie_ok site) ks"
  using clean_cookies_ok [of site]
  by (auto simp: cookies_from_def cookies_reply_def Let_def case_prod_unfold list_all_iff split: option.splits if_splits)

lemma ask_browsers_cookies:
  "fst (ask_browsers now peer site asked wait env n spent nothing ss sh) = ExCookies ks src \<Longrightarrow>
   length ks \<le> MAX_COOKIES \<and> list_all (cookie_ok site) ks"
proof (induction now peer site asked wait env n spent nothing ss sh rule: ask_browsers.induct)
  case (2 now peer site asked wait env n spent nothing s ss sh)
  then show ?case
    using cookies_from_cookies [of now peer s site asked "snd (env n)" sh]
    by (cases "cookies_from now peer s site asked (snd (env n)) sh")
      (auto split: if_splits option.splits extension_read.splits list.splits)
qed (auto split: option.splits)

lemma ask_browsers_others:
  "(\<And>k. snd (env k) = id) \<Longrightarrow> (\<And>s. s \<in> set ss \<Longrightarrow> bs_id s \<noteq> j) \<Longrightarrow>
   session_of j (snd (ask_browsers now peer site asked wait env n spent nothing ss sh)) = session_of j sh"
proof (induction ss arbitrary: n spent nothing sh)
  case (Cons s ss)
  obtain r q where rq: "cookies_from now peer s site asked (snd (env n)) sh = (r, q)"
    by (cases "cookies_from now peer s site asked (snd (env n)) sh")
  have q: "session_of j q = session_of j sh"
  proof -
    have "bs_id s \<noteq> j" using Cons.prems(2) by simp
    from cookies_from_others [OF this, of now peer site asked sh] show ?thesis
      unfolding rq [unfolded Cons.prems(1)] by simp
  qed
  have ih: "session_of j (snd (ask_browsers now peer site asked wait env m t nt ss q)) = session_of j q" for m t nt
    using Cons.IH Cons.prems by simp
  show ?case
    by (cases r) (use rq q ih in \<open>auto split: list.split option.split\<close>)
qed (simp split: option.split)

text \<open>
  cookies taken from an extension are cookies of the one site that was asked for, well formed
  and at most four hundred, whatever the extension sent; and a browser that the owner did not
  link to the synth that asks is not touched by the read: its session is as it was (when
  nothing else happens meanwhile).
\<close>

theorem extension_cookies_for_one_site:
  "case cookies_via_extension nm now peer site asked wait env sh of (r, after) \<Rightarrow>
     (\<forall>ks src. r = ExCookies ks src \<longrightarrow> clean_site nm site = Some site \<and> length ks \<le> MAX_COOKIES \<and>
        list_all (cookie_ok site) ks) \<and>
     ((\<forall>k. snd (env k) = id) \<longrightarrow>
        (\<forall>j. list_all (\<lambda>s. bs_id s \<noteq> j) (linked_sessions peer sh) \<longrightarrow> session_of j after = session_of j sh))"
proof (cases "clean_site nm site = Some site")
  case True
  obtain r after where ra: "ask_browsers now peer site asked wait env 0 0 None (sessions_for peer site sh) sh = (r, after)"
    by (cases "ask_browsers now peer site asked wait env 0 0 None (sessions_for peer site sh) sh")
  have set: "set (sessions_for peer site sh) = set (linked_sessions peer sh)"
    by (auto simp: sessions_for_def Let_def)
  show ?thesis
    using True ra ask_browsers_cookies [of now peer site asked wait env 0 0 None "sessions_for peer site sh" sh]
      ask_browsers_others [of env "sessions_for peer site sh" _ now peer site asked wait 0 0 None sh]
    by (auto simp: cookies_via_extension_def list_all_iff set)
qed (simp add: cookies_via_extension_def)

theorem extension_cookies_for_one_site_witness:
  "\<forall>asked. session_of 7 (snd (cookies_via_extension \<lparr>nm_is_ip = \<lambda>_. False, nm_domain = Some\<rparr> 0 None (lit ''a.org'')
     asked (seconds 10) (\<lambda>_. (0, id)) waiting_browser)) = session_of 7 waiting_browser"
proof
  fix asked
  have "linked_sessions None waiting_browser = []"
    by (simp add: linked_sessions_def Let_def waiting_browser_def blank_shared_def make_shared_def fresh_def)
  with extension_cookies_for_one_site [where nm = "\<lparr>nm_is_ip = \<lambda>_. False, nm_domain = Some\<rparr>" and now = 0
      and peer = None and site = "lit ''a.org''" and asked = asked and wait = "seconds 10"
      and env = "\<lambda>_. (0, id)" and sh = waiting_browser]
  show "session_of 7 (snd (cookies_via_extension \<lparr>nm_is_ip = \<lambda>_. False, nm_domain = Some\<rparr> 0 None (lit ''a.org'')
     asked (seconds 10) (\<lambda>_. (0, id)) waiting_browser)) = session_of 7 waiting_browser"
    by (simp add: case_prod_unfold)
qed

section \<open>A code that outlives its link\<close>

definition keeps_code :: "(browser_session \<Rightarrow> browser_session) \<Rightarrow> bool" where
  "keeps_code f \<longleftrightarrow> (\<forall>s. bs_id (f s) = bs_id s \<and> bs_install (f s) = bs_install s \<and>
     bs_code_sent (f s) = bs_code_sent s \<and> bs_code_synth (f s) = bs_code_synth s)"

lemma removed_sessions:
  "\<exists>f. keeps_code f \<and> sh_sessions (browsers_synth_removed synth n q) = map f (sh_sessions q)"
proof -
  define sh1 where "sh1 = (let p = sh_persisted q;
          gone = map b_install (filter (browser_gone synth n) (p_browsers p));
          bs = map (\<lambda>b. if browser_gone synth n b
                        then b\<lparr>b_linked := False, b_synth_id := []\<rparr> else b) (p_browsers p)
      in if gone \<noteq> [] then save_locked (set_persisted (p\<lparr>p_browsers := bs\<rparr>) q) else q)"
  have keep: "sh_sessions sh1 = sh_sessions q" by (simp add: sh1_def Let_def)
  define f where "f = (\<lambda>s. if bs_greeted s then
      (let s1 = session_send (status_message sh1 (bs_install s)) s
       in if n = 0 \<or> bs_install s \<in> set (map b_install (filter (browser_gone synth n) (p_browsers (sh_persisted q))))
          then session_send sites_clear s1 else s1) else s)"
  have eq: "browsers_synth_removed synth n q = emit EvBrowsers (sh1\<lparr>sh_sessions := map f (sh_sessions sh1)\<rparr>)"
    by (simp add: browsers_synth_removed_def Let_def to_greeted_def f_def sh1_def cong: if_cong)
  have "keeps_code f" by (simp add: keeps_code_def f_def Let_def)
  with eq keep show ?thesis by (intro exI [of _ f]) simp
qed

lemma wipe_sessions: "\<exists>f. keeps_code f \<and> sh_sessions (wipe_slot r sh) = map f (sh_sessions sh)"
proof -
  let ?synth = "sl_synth_id (slot_at sh r)"
  define q where "q = set_slot_state r Unpaired (lit ''unpaired'') (upd_slot r (\<lambda>s. s\<lparr>sl_synth := None\<rparr>)
     (lease_release ?synth (wipe_stored ?synth ((wipe_token r sh)\<lparr>sh_grants := clear_synth ?synth (sh_grants (wipe_token r sh)),
        sh_links := filter (\<lambda>l. l \<noteq> r) (sh_links (wipe_token r sh))\<rparr>))))"
  have q: "sh_sessions q = sh_sessions sh" by (simp add: q_def)
  have eq: "wipe_slot r sh = (if r \<in> set (sh_links sh)
      then browsers_synth_removed ?synth (length (sh_links q)) (emit (EvUnpaired ?synth (length (sh_links q))) q) else q)"
    by (simp add: wipe_slot_def Let_def q_def)
  have keep: "sh_sessions (emit e p) = sh_sessions p" for e p by simp
  show ?thesis
  proof (cases "r \<in> set (sh_links sh)")
    case True
    then show ?thesis
      using removed_sessions [of ?synth "length (sh_links q)" "emit (EvUnpaired ?synth (length (sh_links q))) q"]
      by (simp only: eq if_True q keep)
  next
    case False
    then show ?thesis using q by (intro exI [of _ id]) (simp add: eq keeps_code_def)
  qed
qed

lemma browsers_after_wipe: "b_install ` set (p_browsers (sh_persisted (wipe_slot r sh))) = b_install ` set (p_browsers (sh_persisted sh))"
proof -
  have removed: "b_install ` set (p_browsers (sh_persisted (browsers_synth_removed synth n q))) =
      b_install ` set (p_browsers (sh_persisted q))" for synth n q
  proof -
    have same: "b_install ` set (map (\<lambda>b. if g b then b\<lparr>b_linked := False, b_synth_id := []\<rparr> else b) bs) =
        b_install ` set bs" for g bs by (induction bs) auto
    show ?thesis by (simp add: browsers_synth_removed_def Let_def same del: set_map)
  qed
  show ?thesis by (simp add: wipe_slot_def Let_def removed wipe_persisted_def)
qed

lemma done_stores:
  assumes "install \<in> b_install ` set (p_browsers (sh_persisted sh))"
  shows "(install, synth) \<in> linked_pairs (update_browser install (linked_with d synth) sh)"
proof -
  have changed: "\<exists>b \<in> set (change_browser install (linked_with d synth) bs). b_install b = install \<and> b_linked b \<and> b_synth_id b = synth"
    if "install \<in> b_install ` set bs" for bs
    using that by (induction bs) (auto simp: linked_with_def)
  have room: "make_room install (p_browsers (sh_persisted sh)) = Some (p_browsers (sh_persisted sh))"
    using assms by (auto simp: make_room_def list_ex_iff)
  show ?thesis
    using changed [OF assms] by (auto simp: update_browser_def Let_def room linked_pairs_def)
qed

text \<open>
  a synth is unlinked while a pairing code for it is out in a browser. The code is not
  forgotten: when the browser says within three minutes that the code was accepted, it is
  stored as linked to the synth that is gone.
\<close>

theorem late_code_links_gone_synth:
  assumes ok: "core_ok sh" and r: "r \<in> set (sh_links sh)" and synth: "sl_synth_id (slot_at sh r) = synth" "synth \<noteq> []"
    and s: "session_of i sh = Some s" and code: "bs_code_sent s = Some t" "bs_code_synth s = synth"
    and known: "bs_install s \<in> b_install ` set (p_browsers (sh_persisted sh))"
    and soon: "elapsed now t < PAIR_WINDOW" and yes: "get_bool (lit ''ok'') msg = Some True"
  shows "let after = pair_done now wall i msg (wipe_slot r sh)
    in find_link synth after = None \<and> (bs_install s, synth) \<in> linked_pairs after"
proof -
  obtain f where f: "keeps_code f" "sh_sessions (wipe_slot r sh) = map f (sh_sessions sh)" using wipe_sessions by blast
  have s1: "session_of i (wipe_slot r sh) = Some (f s)"
    using s f by (simp add: session_of_def find_map_same keeps_code_def)
  have fields: "bs_install (f s) = bs_install s" "bs_code_sent (f s) = Some t" "bs_code_synth (f s) = synth"
    using f(1) code by (simp_all add: keeps_code_def)
  have none: "find_link synth (wipe_slot r sh) = None"
  proof -
    have "sl_synth_id (slot_at sh l) \<noteq> synth" if "l \<in> set (sh_links sh)" "l \<noteq> r" for l
      using ok that r synth by (auto simp: core_ok_def)
    then show ?thesis
      by (auto simp: find_link_def find_None_iff wipe_slot_links slot_at_wiped wiped_slot_def)
  qed
  have keeps: "find_link synth (upd_session j g q) = find_link synth q"
    "find_link synth (update_browser inst h q) = find_link synth q"
    "find_link synth (sh_record p e q) = find_link synth q" for j g q inst h p e
    by (simp_all add: find_link_def)
  have pairs: "linked_pairs (sh_record p e q) = linked_pairs q" for p e q by (simp add: linked_pairs_def)
  show ?thesis
    using known soon yes by (simp add: Let_def pair_done_def s1 fields none keeps pairs done_stores browsers_after_wipe)
qed

definition coded_shared :: shared where
  "coded_shared = linked_shared\<lparr>sh_sessions := sh_sessions waiting_browser,
     sh_persisted := (sh_persisted linked_shared)\<lparr>p_browsers := [new_browser (lit ''0123456789abcdef'')]\<rparr>\<rparr>"

theorem late_code_links_gone_synth_witness:
  "(lit ''0123456789abcdef'', lit ''mia'') \<in> linked_pairs (pair_done (seconds 5) 0 7 example_done (wipe_slot 0 coded_shared))"
proof -
  have same: "slot_at coded_shared = slot_at linked_shared" by (simp add: coded_shared_def slot_at_def fun_eq_iff)
  have ok: "core_ok coded_shared"
  proof -
    have "sh_links coded_shared = sh_links linked_shared" "sh_slots coded_shared = sh_slots linked_shared"
      "slot_ok (sh_persisted coded_shared) = slot_ok (sh_persisted linked_shared)"
      "p_identities (sh_persisted coded_shared) = p_identities (sh_persisted linked_shared)"
      by (simp_all add: coded_shared_def slot_ok_def fun_eq_iff)
    then have "core_ok coded_shared = core_ok linked_shared" by (simp only: core_ok_def same)
    with linked_shared_facts(1) show ?thesis by simp
  qed
  have r: "0 \<in> set (sh_links coded_shared)" by (simp add: coded_shared_def linked_shared_facts)
  have id: "sl_synth_id (slot_at coded_shared 0) = lit ''mia''" by (simp add: same linked_shared_facts)
  have ne: "lit ''mia'' \<noteq> []" by (simp add: lit_def)
  have s: "session_of 7 coded_shared = Some (hd (sh_sessions waiting_browser))"
    by (simp add: session_of_def coded_shared_def waiting_browser_def new_session_def)
  have code: "bs_code_sent (hd (sh_sessions waiting_browser)) = Some 0"
    "bs_code_synth (hd (sh_sessions waiting_browser)) = lit ''mia''"
    "bs_install (hd (sh_sessions waiting_browser)) = lit ''0123456789abcdef''"
    by (simp_all add: waiting_browser_def)
  have known: "bs_install (hd (sh_sessions waiting_browser)) \<in> b_install ` set (p_browsers (sh_persisted coded_shared))"
    by (simp add: code coded_shared_def)
  have window: "elapsed (seconds 5) 0 < PAIR_WINDOW" by (simp add: elapsed_def PAIR_WINDOW_def seconds_def)
  have yes: "get_bool (lit ''ok'') example_done = Some True"
    by (simp add: example_done_def json_defs)
  from late_code_links_gone_synth [OF ok r id ne s code(1,2) known window yes, of 0]
  show ?thesis by (simp add: code Let_def)
qed

end
