(* ===== verification/Shell_Gate.thy ===== *)
theory Shell_Gate
  imports Core_Policy Files_Confinement
begin

text \<open>
  \<open>shell.rs\<close>: a synth runs a command on this computer. The request is checked and bounded,
  the owner is asked, the command runs until it ends, takes too long, is cancelled or is
  stopped by the owner; one journal line, and the end of its output as the answer. The
  processes, the encoding of base64 and the folders of the computer are parameters.
\<close>

section \<open>The program a shell gets\<close>

definition SHELL_CAP :: utext where "SHELL_CAP = lit ''shell''"
definition DEFAULT_TIMEOUT :: instant where "DEFAULT_TIMEOUT = seconds 120"
definition MAX_TIMEOUT :: instant where "MAX_TIMEOUT = seconds (30 * 60)"
definition MIN_TIMEOUT :: instant where "MIN_TIMEOUT = seconds 1"
definition OUTPUT_CAP :: nat where "OUTPUT_CAP = 1024 * 1024"
definition MAX_COMMAND :: nat where "MAX_COMMAND = 8 * 1024"
definition MAX_STDIN :: nat where "MAX_STDIN = 4 * 1024 * 1024"
definition MAX_REMEMBERED :: nat where "MAX_REMEMBERED = 2000"
definition JOURNAL_COMMAND :: nat where "JOURNAL_COMMAND = 2000"

definition powershell_script :: "utext \<Rightarrow> utext" where
  "powershell_script command =
     lit ''$ProgressPreference = '' @ [39] @ lit ''SilentlyContinue'' @ [39, 10] @
     lit ''try { [Console]::OutputEncoding = New-Object System.Text.UTF8Encoding $false } catch {}'' @ [10] @
     lit ''$OutputEncoding = New-Object System.Text.UTF8Encoding $false'' @ [10] @
     lit ''if ($PSStyle) { $PSStyle.OutputRendering = '' @ [39] @ lit ''PlainText'' @ [39] @ lit '' }'' @ [10] @
     command @ [10] @
     lit ''$snthOk = $?'' @ [10] @
     lit ''if ($LASTEXITCODE) { exit $LASTEXITCODE }'' @ [10] @
     lit ''if (-not $snthOk) { exit 1 }'' @ [10] @
     lit ''exit 0'' @ [10]"

fun encode_utf16 :: "utext \<Rightarrow> nat list" where
  "encode_utf16 [] = []"
| "encode_utf16 (c # cs) =
     (if c < 65536 then c # encode_utf16 cs
      else (55296 + (c - 65536) div 1024) # (56320 + (c - 65536) mod 1024) # encode_utf16 cs)"

definition to_le_bytes :: "nat \<Rightarrow> nat list" where
  "to_le_bytes u = [u mod 256, u div 256]"

definition encode_powershell :: "(nat list \<Rightarrow> utext) \<Rightarrow> utext \<Rightarrow> utext" where
  "encode_powershell b64 script = b64 (concat (map to_le_bytes (encode_utf16 script)))"

section \<open>A request\<close>

record shell_request =
  sr_command :: utext
  sr_cwd :: utext
  sr_timeout :: instant
  sr_stdin :: "nat list option"
  sr_reason :: utext

datatype shell_end = Exited "int option" | TimedOut | Cancelled | Stopped

text \<open>
  What a running command and the world around it do, each at its time after the start. The
  owner's acts change the state; among them are those that stop commands.
\<close>

datatype run_event =
    ChildEnds "int option"
  | SynthGone
  | OwnerActs "shared \<Rightarrow> shared"

record shell_world =
  sw_home :: "utext option"
  sw_folder :: "utext \<Rightarrow> bool option"           \<comment> \<open>a folder, something else, nothing\<close>
  sw_decode :: "utext \<Rightarrow> (utext, nat list) result"
  sw_encode :: "nat list \<Rightarrow> utext"
  sw_label :: utext                             \<comment> \<open>the shell of this computer\<close>
  sw_waiting :: "shared \<Rightarrow> shared"              \<comment> \<open>while the folder is looked up\<close>
  sw_owner :: owner
  sw_wall :: unix_time
  sw_cannot_start :: "utext option"
  sw_events :: "(instant \<times> run_event) list"
  sw_stdout :: "nat list list \<times> bool"           \<comment> \<open>what was read, and whether it was closed within two seconds after the end\<close>
  sw_stderr :: "nat list list \<times> bool"
  sw_draining :: "shared \<Rightarrow> shared"             \<comment> \<open>while it is killed and its output collected\<close>
  sw_ms :: nat

definition parse_command :: "shell_world \<Rightarrow> json \<Rightarrow> (utext, utext \<times> utext) result" where
  \<comment> \<open>up to the lookup of the folder\<close>
  "parse_command w params =
     (case get_str (lit ''command'') params of
        None \<Rightarrow> Err (lit ''bad request: params.command is required'')
      | Some command \<Rightarrow>
          if trim command = [] then Err (lit ''bad request: params.command is empty'')
          else if MAX_COMMAND < utf8_len command
          then Err (lit ''bad request: the command is '' @ digits (utf8_len command) @
                 lit '' bytes, at most 8192; put a longer program in a script file and run that'')
          else if 0 \<in> set command then Err (lit ''bad request: the command contains a NUL character'')
          else
            (let given = (case get_str (lit ''cwd'') params of Some c \<Rightarrow> trim c | None \<Rightarrow> [])
             in if given = [] then
                  (case sw_home w of
                     None \<Rightarrow> Err (lit ''unavailable: this computer has no home folder to run in; pass cwd'')
                   | Some h \<Rightarrow> Ok (command, h))
                else if \<not> is_absolute given
                then Err (lit ''bad request: cwd must be an absolute path, not '' @ quoted given)
                else Ok (command, given)))"

definition timeout_of :: "json \<Rightarrow> instant" where
  "timeout_of params =
     (case Option.bind (jget (lit ''timeout_ms'') params) as_u64 of
        None \<Rightarrow> DEFAULT_TIMEOUT
      | Some ms \<Rightarrow> if ms = 0 then DEFAULT_TIMEOUT else min (max (millis ms) MIN_TIMEOUT) MAX_TIMEOUT)"

definition stdin_of :: "shell_world \<Rightarrow> json \<Rightarrow> (utext, nat list option) result" where
  "stdin_of w params =
     (case get_str (lit ''stdin_b64'') params of
        None \<Rightarrow> Ok None
      | Some b64 \<Rightarrow>
          if b64 = [] then Ok None
          else (case sw_decode w b64 of
              Err e \<Rightarrow> Err (lit ''bad request: stdin_b64: '' @ e)
            | Ok data \<Rightarrow>
                if MAX_STDIN < length data
                then Err (lit ''bad request: stdin is '' @ digits (length data) @ lit '' bytes, at most 4194304'')
                else Ok (Some data)))"

definition parse_rest :: "shell_world \<Rightarrow> json \<Rightarrow> utext \<Rightarrow> utext \<Rightarrow> (utext, shell_request) result" where
  "parse_rest w params command cwd =
     (case sw_folder w cwd of
        None \<Rightarrow> Err (lit ''not found: '' @ cwd)
      | Some False \<Rightarrow> Err (lit ''bad request: cwd '' @ cwd @ lit '' is not a folder'')
      | Some True \<Rightarrow>
          (case stdin_of w params of
             Err e \<Rightarrow> Err e
           | Ok stdin \<Rightarrow> Ok \<lparr>sr_command = command, sr_cwd = cwd, sr_timeout = timeout_of params, sr_stdin = stdin,
               sr_reason = (case get_str (lit ''reason'') params of Some r \<Rightarrow> r | None \<Rightarrow> [])\<rparr>))"

definition parse_shell :: "shell_world \<Rightarrow> json \<Rightarrow> (utext, shell_request) result" where
  "parse_shell w params =
     (case parse_command w params of
        Err e \<Rightarrow> Err e
      | Ok (command, cwd) \<Rightarrow> parse_rest w params command cwd)"

section \<open>A run\<close>

record tail =
  tl_data :: "nat list"
  tl_total :: nat

definition new_tail :: tail where "new_tail = \<lparr>tl_data = [], tl_total = 0\<rparr>"

definition truncated :: "tail \<Rightarrow> bool" where
  "truncated t \<longleftrightarrow> length (tl_data t) < tl_total t"

fun tail_loop :: "nat \<Rightarrow> tail \<Rightarrow> nat list list \<Rightarrow> tail" where
  \<comment> \<open>a read of nothing is the end\<close>
  "tail_loop cap t [] = t"
| "tail_loop cap t (c # cs) =
     (if c = [] then t
      else let d = tl_data t @ c
           in tail_loop cap \<lparr>tl_data = (if cap * 2 < length d then drop (length d - cap) d else d),
                            tl_total = tl_total t + length c\<rparr> cs)"

definition read_tail :: "nat \<Rightarrow> nat list list \<Rightarrow> tail" where
  "read_tail cap cs =
     (let t = tail_loop cap new_tail cs; d = tl_data t
      in t\<lparr>tl_data := (if cap < length d then drop (length d - cap) d else d)\<rparr>)"

record shell_run =
  rn_end :: shell_end
  rn_stdout :: tail
  rn_stderr :: tail
  rn_ms :: nat

fun run_select :: "instant \<Rightarrow> nat \<Rightarrow> (instant \<times> run_event) list \<Rightarrow> shared \<Rightarrow> shell_end \<times> shared" where
  \<comment> \<open>\<open>seen\<close>: how many stops there were when it started\<close>
  "run_select limit seen [] sh = (TimedOut, sh)"
| "run_select limit seen ((t, e) # es) sh =
     (if limit \<le> t then (TimedOut, sh)
      else case e of
          ChildEnds code \<Rightarrow> (Exited code, sh)
        | SynthGone \<Rightarrow> (Cancelled, sh)
        | OwnerActs act \<Rightarrow>
            (let sh1 = act sh
             in if sh_shell_stops sh1 \<noteq> seen then (Stopped, sh1) else run_select limit seen es sh1))"

definition collect_tail :: "nat list list \<times> bool \<Rightarrow> tail" where
  \<comment> \<open>the reading task is aborted with what it has when the pipe stays open\<close>
  "collect_tail = (\<lambda>(reads, closed). if closed then read_tail OUTPUT_CAP reads else new_tail)"

definition run_shell :: "shell_world \<Rightarrow> shell_request \<Rightarrow> shared \<Rightarrow> (utext, shell_run) result \<times> shared" where
  "run_shell w req sh =
     (case sw_cannot_start w of
        Some e \<Rightarrow> (Err (lit ''failed: cannot start '' @ sw_label w @ lit '': '' @ e), sh)
      | None \<Rightarrow>
          (let (ending, sh1) = run_select (sr_timeout req) (sh_shell_stops sh) (sw_events w) sh
           in (Ok \<lparr>rn_end = ending, rn_stdout = collect_tail (sw_stdout w),
                   rn_stderr = collect_tail (sw_stderr w), rn_ms = sw_ms w\<rparr>, sw_draining w sh1)))"

section \<open>The gate\<close>

definition one_line :: "utext \<Rightarrow> nat \<Rightarrow> utext" where
  "one_line command m =
     (let shown = take m (map (\<lambda>c. if is_control c then 32 else c) command)
      in if m < length command then shown @ lit ''...'' else shown)"

definition SHELL_PAUSED :: utext where
  "SHELL_PAUSED = lit ''denied: the command line is paused by the owner''"

definition SHELL_OFF :: utext where
  "SHELL_OFF = lit ''denied: the command line is turned off on this computer; only the owner can turn it on (SNTH Connect, General, developer mode)''"

definition SHELL_STOPPED :: utext where
  "SHELL_STOPPED = lit ''denied: the owner stopped the command (SNTH Connect was paused or the command line turned off)''"

definition shell_entry :: "shell_world \<Rightarrow> shell_request \<Rightarrow> utext \<Rightarrow> entry" where
  "shell_entry w req outcome =
     (new_entry (sw_wall w) SHELL_CAP (lit ''shell.exec'') (one_line (sr_command req) JOURNAL_COMMAND) outcome)
       \<lparr>e_cwd := Some (sr_cwd req)\<rparr>"

definition end_outcome :: "shell_end \<Rightarrow> utext" where
  "end_outcome e = (case e of
      Exited None \<Rightarrow> lit ''ended by a signal''
    | Exited (Some code) \<Rightarrow> if code = 0 then lit ''ok'' else lit ''exit '' @ int_digits code
    | TimedOut \<Rightarrow> lit ''timed out''
    | Cancelled \<Rightarrow> lit ''cancelled: the synth went away''
    | Stopped \<Rightarrow> lit ''stopped: paused by the owner'')"

definition run_entry :: "shell_world \<Rightarrow> shell_request \<Rightarrow> shell_run \<Rightarrow> entry" where
  "run_entry w req run =
     (with_bytes (tl_total (rn_stdout run) + tl_total (rn_stderr run)) (shell_entry w req (end_outcome (rn_end run))))
       \<lparr>e_duration_ms := Some (rn_ms run),
        e_exit_code := (case rn_end run of Exited code \<Rightarrow> code | _ \<Rightarrow> None)\<rparr>"

definition result_value :: "shell_world \<Rightarrow> shell_run \<Rightarrow> json" where
  "result_value w run = JObj [
     (lit ''duration_ms'', JInt (int (rn_ms run))),
     (lit ''exit_code'', case rn_end run of Exited (Some code) \<Rightarrow> JInt code | _ \<Rightarrow> JNull),
     (lit ''shell'', JStr (sw_label w)),
     (lit ''stderr_b64'', JStr (sw_encode w (tl_data (rn_stderr run)))),
     (lit ''stderr_bytes'', JInt (int (tl_total (rn_stderr run)))),
     (lit ''stdout_b64'', JStr (sw_encode w (tl_data (rn_stdout run)))),
     (lit ''stdout_bytes'', JInt (int (tl_total (rn_stdout run)))),
     (lit ''timed_out'', JBool (rn_end run = TimedOut)),
     (lit ''truncated_stderr'', JBool (truncated (rn_stderr run))),
     (lit ''truncated_stdout'', JBool (truncated (rn_stdout run)))]"

definition shell_value :: "utext \<Rightarrow> shell_settings \<Rightarrow> json" where
  \<comment> \<open>what the hello says of the command line (\<open>wire_value\<close>)\<close>
  "shell_value label s = JObj [(lit ''enabled'', JBool (s_enabled s)),
     (lit ''mode'', JStr (case s_mode s of ShellAsk \<Rightarrow> lit ''ask'' | ShellAuto \<Rightarrow> lit ''auto'')),
     (lit ''os_shell'', JStr label)]"

definition shell_question :: "shell_world \<Rightarrow> shell_request \<Rightarrow> approval_request" where
  "shell_question w req =
     (new_request SHELL_CAP (sr_command req) (sr_reason req) (lit ''run a command in '' @ sr_cwd req))
       \<lparr>rq_details := [(lit ''command'', sr_command req), (lit ''cwd'', sr_cwd req), (lit ''shell'', sw_label w)],
        rq_remember := (if utf8_len (sr_command req) \<le> MAX_REMEMBERED \<and> 10 \<notin> set (sr_command req)
                        then AlwaysOnly else NeverRemember)\<rparr>"

text \<open>The second part of an answer: the command that was started, and the state at its start.\<close>

type_synonym shell_answer = "(utext, json) result \<times> (shell_request \<times> shared) option \<times> shared"

definition start_shell :: "shell_world \<Rightarrow> slot_ref option \<Rightarrow> shell_request \<Rightarrow> shared \<Rightarrow> shell_answer" where
  "start_shell w peer req sh =
     (case run_shell w req sh of
        (Err why, sh1) \<Rightarrow> (Err why, None, sh_record peer (shell_entry w req why) sh1)
      | (Ok run, sh1) \<Rightarrow>
          (let sh2 = sh_record peer (run_entry w req run) sh1
           in (if rn_end run = Stopped then Err SHELL_STOPPED else Ok (result_value w run), Some (req, sh), sh2)))"

definition ask_shell :: "shell_world \<Rightarrow> slot_ref option \<Rightarrow> shell_request \<Rightarrow> shared \<Rightarrow> shell_answer" where
  "ask_shell w peer req sh =
     (let (a, sh1) = ask_scoped (sw_owner w) (sw_wall w) peer SHELL_CAP (sr_command req) (shell_question w req) sh
      in if \<not> allow a
         then (Err (lit ''denied: the owner did not allow this command''), None,
               sh_record peer (shell_entry w req (lit ''denied: owner'')) sh1)
         else if sh_paused sh1 then (Err SHELL_PAUSED, None, sh1)
         else if \<not> s_enabled (st_shell (sh_settings sh1)) then (Err SHELL_OFF, None, sh1)
         else start_shell w peer req sh1)"

definition exec_shell :: "shell_world \<Rightarrow> slot_ref option \<Rightarrow> json \<Rightarrow> shared \<Rightarrow> shell_answer" where
  "exec_shell w peer params sh =
     (let s = st_shell (sh_settings sh)
      in if sh_paused sh then (Err SHELL_PAUSED, None, sh)
         else if \<not> s_enabled s then (Err SHELL_OFF, None, sh)
         else case parse_command w params of
             Err e \<Rightarrow> (Err e, None, sh)
           | Ok (command, cwd) \<Rightarrow>
               (case parse_rest w params command cwd of
                  Err e \<Rightarrow> (Err e, None, sw_waiting w sh)
                | Ok req \<Rightarrow>
                    if s_mode s = ShellAsk then
                      (let (known, sh1) = sh_grant_allows (sw_wall w) peer SHELL_CAP (sr_command req) (sw_waiting w sh)
                       in if known then start_shell w peer req sh1 else ask_shell w peer req sh1)
                    else start_shell w peer req (sw_waiting w sh)))"

section \<open>Lemmas\<close>

text \<open>The UTF-16 form has one reading.\<close>

fun decode_utf16 :: "nat list \<Rightarrow> utext" where
  "decode_utf16 [] = []"
| "decode_utf16 (u # us) =
     (if 55296 \<le> u \<and> u < 56320
      then (case us of v # vs \<Rightarrow> (65536 + (u - 55296) * 1024 + (v - 56320)) # decode_utf16 vs | [] \<Rightarrow> [])
      else u # decode_utf16 us)"

fun pair_bytes :: "nat list \<Rightarrow> nat list" where
  "pair_bytes (a # b # bs) = (a + 256 * b) # pair_bytes bs"
| "pair_bytes bs = []"

definition scalar :: "uchar \<Rightarrow> bool" where
  \<comment> \<open>a Unicode scalar value, what a \<open>char\<close> holds\<close>
  "scalar c \<longleftrightarrow> c < 55296 \<or> 57344 \<le> c \<and> c < 1114112"

lemma decode_encode_utf16: "list_all scalar s \<Longrightarrow> decode_utf16 (encode_utf16 s) = s"
proof (induction s)
  case (Cons c s)
  have c: "scalar c" and ih: "decode_utf16 (encode_utf16 s) = s" using Cons by auto
  show ?case
  proof (cases "c < 65536")
    case True
    then show ?thesis using c ih by (auto simp: scalar_def)
  next
    case False
    then obtain d where d: "c = 65536 + d" by (metis le_add_diff_inverse not_less)
    have "d < 1048576" using c d by (auto simp: scalar_def)
    then have "d div 1024 < 1024" by (simp add: div_less_iff_less_mult)
    then show ?thesis using False ih d by simp
  qed
qed simp

lemma pair_bytes_le: "list_all (\<lambda>u. u < 65536) us \<Longrightarrow> pair_bytes (concat (map to_le_bytes us)) = us"
  by (induction us) (simp_all add: to_le_bytes_def)

lemma encode_utf16_units: "list_all scalar s \<Longrightarrow> list_all (\<lambda>u. u < 65536) (encode_utf16 s)"
proof (induction s)
  case (Cons c s)
  then have "c < 1114112" by (auto simp: scalar_def)
  then have "(c - 65536) div 1024 < 1024" "(c - 65536) mod 1024 < 1024" by (auto simp: div_less_iff_less_mult)
  then show ?case using Cons by auto
qed simp

lemma one_line_shown: "set (one_line command m) \<subseteq> {c. \<not> is_control c}" "length (one_line command m) \<le> m + 3"
proof -
  have "set (take m (map (\<lambda>c. if is_control c then 32 else c) command)) \<subseteq> {c. \<not> is_control c}"
    by (rule order_trans [OF set_take_subset]) (auto simp: is_control_def)
  moreover have "set (lit ''...'') \<subseteq> {c. \<not> is_control c}" by (simp add: set_lit is_control_def)
  ultimately show "set (one_line command m) \<subseteq> {c. \<not> is_control c}" by (simp add: one_line_def Let_def) (auto simp: is_control_def)
  show "length (one_line command m) \<le> m + 3" by (simp add: one_line_def Let_def)
qed

section \<open>The end of an output\<close>

definition tail_ok :: "nat \<Rightarrow> nat list \<Rightarrow> tail \<Rightarrow> bool" where
  \<comment> \<open>of what was read, enough of the end is held, and not more than twice the cap\<close>
  "tail_ok cap bs t \<longleftrightarrow> tl_total t = length bs \<and> length (tl_data t) \<le> cap * 2 \<and>
     (\<exists>n. n \<le> length bs \<and> tl_data t = drop n bs \<and> (n = 0 \<or> cap \<le> length bs - n))"

lemma tail_ok_loop: "tail_ok cap bs t \<Longrightarrow> tail_ok cap (bs @ concat (takeWhile (\<lambda>c. c \<noteq> []) cs)) (tail_loop cap t cs)"
proof (induction cs arbitrary: bs t)
  case (Cons c cs)
  show ?case
  proof (cases "c = []")
    case False
    let ?d = "tl_data t @ c"
    obtain n where n: "n \<le> length bs" "tl_data t = drop n bs" "n = 0 \<or> cap \<le> length bs - n"
      and total: "tl_total t = length bs" using Cons.prems by (auto simp: tail_ok_def)
    have d: "?d = drop n (bs @ c)" using n by simp
    have "tail_ok cap (bs @ c) \<lparr>tl_data = (if cap * 2 < length ?d then drop (length ?d - cap) ?d else ?d),
        tl_total = tl_total t + length c\<rparr>"
    proof (cases "cap * 2 < length ?d")
      case True
      have "drop (length ?d - cap) ?d = drop (length (bs @ c) - cap) (bs @ c)"
        unfolding d using True n by (simp add: d)
      then show ?thesis using True n total unfolding tail_ok_def
        by (auto intro!: exI [of _ "length (bs @ c) - cap"] simp del: drop_append)
    next
      case False
      then show ?thesis using n total d unfolding tail_ok_def
        by (auto intro!: exI [of _ n] simp del: drop_append)
    qed
    from Cons.IH [OF this] False show ?thesis by (simp add: Let_def)
  qed (use Cons.prems in simp)
qed simp

text \<open>
  of each output the last megabyte is kept, whatever the sizes of the reads, with the exact
  number of bytes there were, and the answer says it was cut just when it was; between two
  reads no more than twice the cap is held.
\<close>

theorem read_tail_is_the_end:
  "(let all = concat (takeWhile (\<lambda>c. c \<noteq> []) cs)
    in read_tail cap cs = \<lparr>tl_data = last_n cap all, tl_total = length all\<rparr> \<and>
       (truncated (read_tail cap cs) \<longleftrightarrow> cap < length all)) \<and>
   length (tl_data (tail_loop cap new_tail (take n cs))) \<le> cap * 2"
proof -
  have start: "tail_ok cap [] new_tail" by (simp add: tail_ok_def new_tail_def)
  define all where "all = concat (takeWhile (\<lambda>c. c \<noteq> []) cs)"
  have loop: "tail_ok cap all (tail_loop cap new_tail cs)" using tail_ok_loop [OF start, of cs] by (simp add: all_def)
  then obtain k where k: "k \<le> length all" "tl_data (tail_loop cap new_tail cs) = drop k all" "k = 0 \<or> cap \<le> length all - k"
    "tl_total (tail_loop cap new_tail cs) = length all" by (auto simp: tail_ok_def)
  have read: "read_tail cap cs = \<lparr>tl_data = last_n cap all, tl_total = length all\<rparr>"
    using k by (cases "tail_loop cap new_tail cs") (auto simp: read_tail_def Let_def last_n_def)
  have "length (tl_data (tail_loop cap new_tail (take n cs))) \<le> cap * 2"
    using tail_ok_loop [OF start, of "take n cs"] by (simp add: tail_ok_def)
  then show ?thesis by (simp add: Let_def all_def [symmetric] read truncated_def last_n_def) arith
qed

section \<open>Who may run a command\<close>

lemma start_shell_started:
  "start_shell w peer req sh = (res, Some (r, st), after) \<Longrightarrow> r = req \<and> st = sh"
  by (auto simp: start_shell_def Let_def split: prod.splits sum.splits)

lemma exec_shell_parsed:
  "exec_shell w peer params sh =
     (if sh_paused sh then (Err SHELL_PAUSED, None, sh)
      else if \<not> s_enabled (st_shell (sh_settings sh)) then (Err SHELL_OFF, None, sh)
      else case parse_shell w params of
          Err e \<Rightarrow> (Err e, None, if is_ok (parse_command w params) then sw_waiting w sh else sh)
        | Ok req \<Rightarrow>
            if s_mode (st_shell (sh_settings sh)) = ShellAsk then
              (let (known, sh1) = sh_grant_allows (sw_wall w) peer SHELL_CAP (sr_command req) (sw_waiting w sh)
               in if known then start_shell w peer req sh1 else ask_shell w peer req sh1)
            else start_shell w peer req (sw_waiting w sh))"
  by (simp add: exec_shell_def parse_shell_def Let_def split: sum.split prod.split)

lemma parse_shell_ok:
  assumes "parse_shell w params = Ok req"
  shows "sr_command req \<noteq> [] \<and> utf8_len (sr_command req) \<le> MAX_COMMAND \<and> 0 \<notin> set (sr_command req) \<and>
    get_str (lit ''command'') params = Some (sr_command req) \<and>
    sw_folder w (sr_cwd req) = Some True \<and> (is_absolute (sr_cwd req) \<or> sw_home w = Some (sr_cwd req)) \<and>
    MIN_TIMEOUT \<le> sr_timeout req \<and> sr_timeout req \<le> MAX_TIMEOUT \<and>
    (\<forall>d. sr_stdin req = Some d \<longrightarrow> length d \<le> MAX_STDIN)"
proof -
  from assms obtain command cwd where c: "parse_command w params = Ok (command, cwd)"
    and r: "parse_rest w params command cwd = Ok req"
    by (auto simp: parse_shell_def split: sum.splits)
  have "command \<noteq> [] \<and> utf8_len command \<le> MAX_COMMAND \<and> 0 \<notin> set command \<and>
      get_str (lit ''command'') params = Some command \<and> (is_absolute cwd \<or> sw_home w = Some cwd)"
    using c by (auto simp: parse_command_def Let_def split: option.splits if_splits)
  moreover have "MIN_TIMEOUT \<le> timeout_of params \<and> timeout_of params \<le> MAX_TIMEOUT"
    by (simp add: timeout_of_def DEFAULT_TIMEOUT_def MAX_TIMEOUT_def MIN_TIMEOUT_def seconds_def split: option.split)
  moreover have "length d \<le> MAX_STDIN" if "stdin_of w params = Ok (Some d)" for d
    using that by (auto simp: stdin_of_def split: option.splits if_splits sum.splits)
  moreover have "sr_command req = command \<and> sr_cwd req = cwd \<and> sw_folder w cwd = Some True \<and>
      sr_timeout req = timeout_of params \<and> stdin_of w params = Ok (sr_stdin req)"
    using r by (auto simp: parse_rest_def split: option.splits bool.splits sum.splits)
  ultimately show ?thesis by auto
qed

lemma ask_shell_started:
  assumes "ask_shell w peer req sh = (res, Some (r, st), after)"
  shows "r = req \<and> \<not> sh_paused st \<and> s_enabled (st_shell (sh_settings st)) \<and>
    (\<exists>meanwhile a. sw_owner w (ask_question peer (shell_question w req) sh) = InTime meanwhile a \<and> allow a)"
proof -
  let ?ask = "ask_scoped (sw_owner w) (sw_wall w) peer SHELL_CAP (sr_command req) (shell_question w req) sh"
  have yes: "allow (fst ?ask)" and st: "r = req" "st = snd ?ask"
    and now: "\<not> sh_paused (snd ?ask)" "s_enabled (st_shell (sh_settings (snd ?ask)))"
    using assms start_shell_started [of w peer req "snd ?ask"]
    by (auto simp: ask_shell_def Let_def case_prod_unfold split: if_splits)
  from yes have "\<exists>meanwhile a. sw_owner w (ask_question peer (shell_question w req) sh) = InTime meanwhile a \<and> allow a"
    by (simp add: ask_scoped_allow)
  with st now show ?thesis by simp
qed

definition shell_shown :: "shell_world \<Rightarrow> shell_request \<Rightarrow> approval_request \<Rightarrow> bool" where
  \<comment> \<open>the whole command and its folder are on the screen; only ``always'' for a short line may be kept\<close>
  "shell_shown w req q \<longleftrightarrow> rq_scope q = sr_command req \<and>
     (lit ''command'', sr_command req) \<in> set (rq_details q) \<and> (lit ''cwd'', sr_cwd req) \<in> set (rq_details q) \<and>
     (rq_remember q = NeverRemember \<or>
      rq_remember q = AlwaysOnly \<and> utf8_len (sr_command req) \<le> MAX_REMEMBERED \<and> 10 \<notin> set (sr_command req))"

text \<open>
  C33: a command of a synth is started only when the owner had the command line on and not paused,
  and the owner lets commands run unasked, or gave that very command to that synth, or was
  shown the whole command and its folder now and said yes, the command line being then still
  on and not paused. What is started is the command asked for: at most eight kilobytes, in a
  folder that is there, with a limit between one second and thirty minutes.
\<close>

theorem command_started_only_if_allowed:
  assumes "exec_shell w peer params sh = (res, Some (req, st), after)"
  shows "\<not> sh_paused sh \<and> s_enabled (st_shell (sh_settings sh)) \<and>
    (s_mode (st_shell (sh_settings sh)) = ShellAuto \<or>
     fst (sh_grant_allows (sw_wall w) peer SHELL_CAP (sr_command req) (sw_waiting w sh)) \<or>
     \<not> sh_paused st \<and> s_enabled (st_shell (sh_settings st)) \<and>
       (\<exists>q meanwhile a. shell_shown w req q \<and> sw_owner w q = InTime meanwhile a \<and> allow a)) \<and>
    get_str (lit ''command'') params = Some (sr_command req) \<and> utf8_len (sr_command req) \<le> MAX_COMMAND \<and>
    sw_folder w (sr_cwd req) = Some True \<and> MIN_TIMEOUT \<le> sr_timeout req \<and> sr_timeout req \<le> MAX_TIMEOUT"
proof -
  have on: "\<not> sh_paused sh" "s_enabled (st_shell (sh_settings sh))"
    using assms by (auto simp: exec_shell_parsed split: if_splits)
  then obtain r where r: "parse_shell w params = Ok r"
    using assms by (cases "parse_shell w params") (auto simp: exec_shell_parsed)
  let ?g = "sh_grant_allows (sw_wall w) peer SHELL_CAP (sr_command r) (sw_waiting w sh)"
  have run: "(if s_mode (st_shell (sh_settings sh)) = ShellAsk
        then if fst ?g then start_shell w peer r (snd ?g) else ask_shell w peer r (snd ?g)
        else start_shell w peer r (sw_waiting w sh)) = (res, Some (req, st), after)"
    using assms on r by (cases ?g) (simp add: exec_shell_parsed cong: if_cong)
  have shown: "shell_shown w r (ask_question peer (shell_question w r) q)" for q
    by (simp add: shell_shown_def ask_question_def shell_question_def new_request_def)
  consider "s_mode (st_shell (sh_settings sh)) = ShellAuto" "req = r"
    | "fst ?g" "req = r"
    | "req = r \<and> \<not> sh_paused st \<and> s_enabled (st_shell (sh_settings st)) \<and>
        (\<exists>meanwhile a. sw_owner w (ask_question peer (shell_question w r) (snd ?g)) = InTime meanwhile a \<and> allow a)"
    using run start_shell_started ask_shell_started [of w peer r "snd ?g" res req st after]
    by (cases "s_mode (st_shell (sh_settings sh))") (auto split: if_splits)
  then show ?thesis
    using on parse_shell_ok [OF r] shown by cases blast+
qed

definition shell_shared :: "shell_mode \<Rightarrow> shared" where
  "shell_shared m = blank_shared (default_settings\<lparr>st_shell := \<lparr>s_enabled = True, s_mode = m\<rparr>\<rparr>)"

definition shell_world_with :: "(shared \<Rightarrow> shared) \<Rightarrow> (instant \<times> run_event) list \<Rightarrow> nat list list \<times> bool \<Rightarrow> shell_world" where
  "shell_world_with waiting es out = \<lparr>sw_home = Some (lit ''/home/a''), sw_folder = (\<lambda>_. Some True),
     sw_decode = (\<lambda>_. Err []), sw_encode = (\<lambda>_. []), sw_label = lit ''sh'', sw_waiting = waiting,
     sw_owner = (\<lambda>_. InTime id approval_once), sw_wall = 0, sw_cannot_start = None, sw_events = es,
     sw_stdout = out, sw_stderr = out, sw_draining = id, sw_ms = 5\<rparr>"

abbreviation shell_example :: "(shared \<Rightarrow> shared) \<Rightarrow> (instant \<times> run_event) list \<Rightarrow> shell_world" where
  "shell_example waiting es \<equiv> shell_world_with waiting es ([[104, 105]], True)"

definition example_exec :: json where
  "example_exec = JObj [(lit ''command'', JStr (lit ''ls''))]"

definition example_command :: shell_request where
  "example_command = \<lparr>sr_command = lit ''ls'', sr_cwd = lit ''/home/a'', sr_timeout = DEFAULT_TIMEOUT,
     sr_stdin = None, sr_reason = []\<rparr>"

lemma parse_example: "parse_shell (shell_world_with waiting es out) example_exec = Ok example_command"
proof -
  have "get_str (lit ''command'') example_exec = Some (lit ''ls'')" "get_str (lit ''cwd'') example_exec = None"
    "get_str (lit ''stdin_b64'') example_exec = None" "get_str (lit ''reason'') example_exec = None"
    "Option.bind (jget (lit ''timeout_ms'') example_exec) as_u64 = None"
    by (simp_all add: example_exec_def json_defs)
  moreover have "trim (lit ''ls'') \<noteq> []" "0 \<notin> set (lit ''ls'')"
    by (simp_all add: lit_def trim_def trim_start_def is_whitespace_def)
  moreover have "utf8_len (lit ''ls'') \<le> MAX_COMMAND"
    using utf8_len_le [of "lit ''ls''"] by (simp add: MAX_COMMAND_def)
  ultimately show ?thesis
    by (simp add: parse_shell_def parse_command_def parse_rest_def stdin_of_def timeout_of_def
        shell_world_with_def example_command_def)
qed

lemma shell_shared_facts [simp]:
  "\<not> sh_paused (shell_shared m)" "s_enabled (st_shell (sh_settings (shell_shared m)))"
  "s_mode (st_shell (sh_settings (shell_shared m))) = m"
  by (simp_all add: shell_shared_def blank_shared_def make_shared_def sh_settings_def)

lemma exec_auto:
  "exec_shell (shell_world_with waiting es out) peer example_exec (shell_shared ShellAuto) =
     start_shell (shell_world_with waiting es out) peer example_command (waiting (shell_shared ShellAuto))"
  by (simp add: exec_shell_parsed parse_example) (simp add: shell_world_with_def)

lemma start_runs:
  "sw_cannot_start w = None \<Longrightarrow> fst (snd (start_shell w peer req sh)) = Some (req, sh)"
  by (simp add: start_shell_def run_shell_def Let_def split: prod.split)

lemma example_world [simp]:
  "sw_cannot_start (shell_world_with waiting es out) = None" "sw_events (shell_world_with waiting es out) = es"
  "sw_waiting (shell_world_with waiting es out) = waiting"
  "sw_stdout (shell_world_with waiting es out) = out" "sw_stderr (shell_world_with waiting es out) = out"
  by (simp_all add: shell_world_with_def)

lemma example_started:
  "\<exists>res after. exec_shell (shell_world_with waiting es out) peer example_exec (shell_shared ShellAuto) =
     (res, Some (example_command, waiting (shell_shared ShellAuto)), after)"
  using start_runs [of "shell_world_with waiting es out" peer example_command "waiting (shell_shared ShellAuto)"]
  by (cases "start_shell (shell_world_with waiting es out) peer example_command (waiting (shell_shared ShellAuto))")
    (simp add: exec_auto)

theorem command_started_only_if_allowed_witness:
  "get_str (lit ''command'') example_exec = Some (sr_command example_command)"
proof -
  obtain res after where "exec_shell (shell_example id []) None example_exec (shell_shared ShellAuto) =
      (res, Some (example_command, shell_shared ShellAuto), after)"
    using example_started [of id "[]" _ None] by fastforce
  from command_started_only_if_allowed [OF this] show ?thesis by blast
qed

section \<open>Stopping a command\<close>

definition no_stop :: "instant \<Rightarrow> instant \<times> run_event \<Rightarrow> bool" where
  "no_stop limit x \<longleftrightarrow> fst x < limit \<and>
     (\<exists>act. snd x = OwnerActs act \<and> (\<forall>s. sh_shell_stops (act s) = sh_shell_stops s))"

definition stops_commands :: "(shared \<Rightarrow> shared) \<Rightarrow> bool" where
  \<comment> \<open>a pause, or a change of the settings that leaves the command line off\<close>
  "stops_commands act \<longleftrightarrow> act = pause \<or>
     (\<exists>f. act = (\<lambda>s. snd (mutate_settings f s)) \<and> (\<forall>s. \<not> s_enabled (st_shell (f s))))"

lemma stops_commands_stop: "stops_commands act \<Longrightarrow> sh_shell_stops (act s) = sh_shell_stops s + 1"
  by (auto simp: stops_commands_def pause_def bump_control_def emit_def stop_cua_def clear_task_def
      daemon_gone_def shell_stop_all_def Let_def mutate_settings_def sh_settings_def)

lemma stopped_outcome:
  "rn_end run = Stopped \<Longrightarrow> e_outcome (run_entry w req run) = lit ''stopped: paused by the owner''"
  by (simp add: run_entry_def with_bytes_def shell_entry_def new_entry_def end_outcome_def)

lemma run_select_stopped:
  "list_all (no_stop limit) pre \<Longrightarrow> t < limit \<Longrightarrow> stops_commands act \<Longrightarrow> sh_shell_stops sh = seen \<Longrightarrow>
   fst (run_select limit seen (pre @ (t, OwnerActs act) # post) sh) = Stopped"
proof (induction pre arbitrary: sh)
  case Nil
  then show ?case by (simp add: stops_commands_stop Let_def)
next
  case (Cons x pre)
  from Cons.prems(1) obtain u g where x: "x = (u, OwnerActs g)" "u < limit" "\<And>s. sh_shell_stops (g s) = sh_shell_stops s"
    by (cases x) (auto simp: no_stop_def)
  have "sh_shell_stops (g sh) = seen" using x(3) Cons.prems(4) by simp
  from Cons.IH [OF _ Cons.prems(2,3) this] Cons.prems(1) show ?case
    using \<open>sh_shell_stops (g sh) = seen\<close> by (simp add: x(1,2) Let_def not_le)
qed

lemma start_shell_result:
  assumes "sw_cannot_start w = None"
    and "fst (run_select (sr_timeout req) (sh_shell_stops sh) (sw_events w) sh) = ending"
  shows "\<exists>s1 run. rn_end run = ending \<and> start_shell w peer req sh =
    (if ending = Stopped then Err SHELL_STOPPED else Ok (result_value w run), Some (req, sh),
     sh_record peer (run_entry w req run) s1)"
proof -
  let ?s = "run_select (sr_timeout req) (sh_shell_stops sh) (sw_events w) sh"
  let ?run = "\<lparr>rn_end = ending, rn_stdout = collect_tail (sw_stdout w), rn_stderr = collect_tail (sw_stderr w),
    rn_ms = sw_ms w\<rparr>"
  show ?thesis
    by (rule exI [of _ "sw_draining w (snd ?s)"], rule exI [of _ ?run])
      (use assms in \<open>simp add: start_shell_def run_shell_def Let_def case_prod_unfold\<close>)
qed

lemma started_by_start:
  assumes "exec_shell w peer params sh = (res, Some (req, st), after)"
  shows "start_shell w peer req st = (res, Some (req, st), after)"
proof -
  have ask: "start_shell w peer req st = (res, Some (req, st), after)"
    if "ask_shell w peer r q = (res, Some (req, st), after)" for r q
    using that start_shell_started
    by (fastforce simp: ask_shell_def Let_def case_prod_unfold split: if_splits)
  show ?thesis
    using assms ask start_shell_started
    by (fastforce simp: exec_shell_def Let_def case_prod_unfold split: if_splits sum.splits prod.splits)
qed

text \<open>
  a running command does not outlive the owner's no: when the owner pauses or turns the command
  line off before the command ends or its time is up, it is stopped, the synth is told so and
  gets none of the output, and the journal line says it was stopped.
\<close>

theorem owner_stops_command:
  assumes "exec_shell w peer params sh = (res, Some (req, st), after)"
    and "sw_events w = pre @ (t, OwnerActs act) # post" and "list_all (no_stop (sr_timeout req)) pre"
    and "t < sr_timeout req" and "stops_commands act"
  shows "res = Err SHELL_STOPPED \<and>
    (\<exists>s1 run. rn_end run = Stopped \<and> after = sh_record peer (run_entry w req run) s1 \<and>
       e_outcome (run_entry w req run) = lit ''stopped: paused by the owner'')"
proof -
  have run: "start_shell w peer req st = (res, Some (req, st), after)" using assms(1) by (rule started_by_start)
  then have ok: "sw_cannot_start w = None"
    by (auto simp: start_shell_def run_shell_def split: option.splits)
  have "fst (run_select (sr_timeout req) (sh_shell_stops st) (sw_events w) st) = Stopped"
    unfolding assms(2) by (rule run_select_stopped [OF assms(3,4,5) refl])
  from start_shell_result [OF ok this, of peer] obtain s1 run where r: "rn_end run = Stopped"
    "start_shell w peer req st = (Err SHELL_STOPPED, Some (req, st), sh_record peer (run_entry w req run) s1)"
    by auto
  have "res = Err SHELL_STOPPED" "after = sh_record peer (run_entry w req run) s1" using run r(2) by auto
  with r(1) stopped_outcome [OF r(1), of w req] show ?thesis by metis
qed

theorem owner_stops_command_witness:
  "fst (exec_shell (shell_example id [(seconds 2, OwnerActs pause), (seconds 3, ChildEnds (Some 0))]) None
     example_exec (shell_shared ShellAuto)) = Err SHELL_STOPPED"
proof -
  let ?w = "shell_example id [(seconds 2, OwnerActs pause), (seconds 3, ChildEnds (Some 0))]"
  obtain res after where run: "exec_shell ?w None example_exec (shell_shared ShellAuto) =
      (res, Some (example_command, shell_shared ShellAuto), after)"
    using example_started [of id _ _ None] by (metis id_apply)
  have "sw_events ?w = [] @ (seconds 2, OwnerActs pause) # [(seconds 3, ChildEnds (Some 0))]"
    "seconds 2 < sr_timeout example_command" "stops_commands pause" "list_all (no_stop (sr_timeout example_command)) []"
    by (simp_all add: example_command_def DEFAULT_TIMEOUT_def seconds_def stops_commands_def)
  from owner_stops_command [OF run this(1) this(4) this(2) this(3)] run show ?thesis by simp
qed

definition turns_off :: "(shared \<Rightarrow> shared) \<Rightarrow> bool" where
  "turns_off act \<longleftrightarrow> (\<exists>f. act = (\<lambda>s. snd (mutate_settings f s)) \<and> (\<forall>s. \<not> s_enabled (st_shell (f s))))"

text \<open>
  a switch-off that comes too early is lost. The switch is looked at before the folder is
  looked up, and again only after a question; a running command is stopped by what happens
  after its start. So when commands run unasked and the owner turns the command line off
  while the folder is being looked up, the command is started all the same, and runs to its
  end.
\<close>

theorem early_stop_is_lost:
  assumes "\<not> sh_paused sh" "s_enabled (st_shell (sh_settings sh))" "s_mode (st_shell (sh_settings sh)) = ShellAuto"
    and "parse_shell w params = Ok req" and "turns_off (sw_waiting w)" and "sw_cannot_start w = None"
    and "sw_events w = [(t, ChildEnds code)]" and "t < sr_timeout req"
  shows "case exec_shell w peer params sh of (res, started, after) \<Rightarrow>
    started = Some (req, sw_waiting w sh) \<and> (\<exists>run. res = Ok (result_value w run) \<and> rn_end run = Exited code) \<and>
    \<not> s_enabled (st_shell (sh_settings (sw_waiting w sh)))"
proof -
  have run: "exec_shell w peer params sh = start_shell w peer req (sw_waiting w sh)"
    using assms(1-4) by (simp add: exec_shell_parsed)
  have "fst (run_select (sr_timeout req) (sh_shell_stops (sw_waiting w sh)) (sw_events w) (sw_waiting w sh)) = Exited code"
    using assms(7,8) by simp
  from start_shell_result [OF assms(6) this, of peer] obtain s1 r where "rn_end r = Exited code"
    "start_shell w peer req (sw_waiting w sh) =
       (Ok (result_value w r), Some (req, sw_waiting w sh), sh_record peer (run_entry w req r) s1)" by auto
  moreover have "\<not> s_enabled (st_shell (sh_settings (sw_waiting w sh)))"
    using assms(5) mutate_settings_effect(1) by (auto simp: turns_off_def)
  ultimately show ?thesis by (auto simp: run)
qed

definition shell_off :: "shared \<Rightarrow> shared" where
  "shell_off s = snd (mutate_settings (\<lambda>x. x\<lparr>st_shell := (st_shell x)\<lparr>s_enabled := False\<rparr>\<rparr>) s)"

theorem early_stop_is_lost_witness:
  "\<exists>run. fst (exec_shell (shell_example shell_off [(seconds 2, ChildEnds (Some 0))]) None example_exec
     (shell_shared ShellAuto)) = Ok (result_value (shell_example shell_off [(seconds 2, ChildEnds (Some 0))]) run)"
proof -
  let ?w = "shell_example shell_off [(seconds 2, ChildEnds (Some 0))]"
  let ?f = "\<lambda>x. x\<lparr>st_shell := (st_shell x)\<lparr>s_enabled := False\<rparr>\<rparr> :: settings"
  have "shell_off = (\<lambda>s. snd (mutate_settings ?f s)) \<and> (\<forall>s. \<not> s_enabled (st_shell (?f s)))"
    by (simp add: shell_off_def fun_eq_iff)
  then have off: "turns_off (sw_waiting ?w)" unfolding turns_off_def example_world by blast
  have "sw_cannot_start ?w = None" "sw_events ?w = [(seconds 2, ChildEnds (Some 0))]"
    "seconds 2 < sr_timeout example_command"
    by (simp_all add: example_command_def DEFAULT_TIMEOUT_def seconds_def)
  from early_stop_is_lost [OF shell_shared_facts parse_example off this, of None] show ?thesis
    by (auto simp: case_prod_unfold)
qed

section \<open>Output that is lost\<close>

text \<open>
  when something the command left in the background still holds its output two seconds after
  the end, all of the output is lost, also what was written and read before the end: the
  answer says there were no bytes and that nothing was cut, and so does the journal.
\<close>

theorem held_pipe_loses_output:
  assumes "exec_shell w peer params sh = (Ok v, Some (req, st), after)"
    and "sw_stdout w = (reads, False)" and "sw_stderr w = (reads2, False)"
  shows "jget (lit ''stdout_bytes'') v = Some (JInt 0) \<and> jget (lit ''truncated_stdout'') v = Some (JBool False) \<and>
    jget (lit ''stdout_b64'') v = Some (JStr (sw_encode w [])) \<and>
    (\<exists>run s1. after = sh_record peer (run_entry w req run) s1 \<and> e_bytes (run_entry w req run) = Some 0)"
proof -
  have run: "start_shell w peer req st = (Ok v, Some (req, st), after)" using assms(1) by (rule started_by_start)
  then have ok: "sw_cannot_start w = None" by (auto simp: start_shell_def run_shell_def split: option.splits)
  have tails: "collect_tail (sw_stdout w) = new_tail" "collect_tail (sw_stderr w) = new_tail"
    using assms(2,3) by (simp_all add: collect_tail_def)
  obtain r s1 where r: "v = result_value w r" "after = sh_record peer (run_entry w req r) s1"
    "rn_stdout r = new_tail" "rn_stderr r = new_tail"
    using run ok by (auto simp: start_shell_def run_shell_def Let_def case_prod_unfold tails split: if_splits)
  have "e_bytes (run_entry w req r) = Some 0"
    by (simp add: run_entry_def with_bytes_def r(3,4) new_tail_def)
  moreover have "jget (lit ''stdout_bytes'') v = Some (JInt 0)" "jget (lit ''truncated_stdout'') v = Some (JBool False)"
    "jget (lit ''stdout_b64'') v = Some (JStr (sw_encode w []))"
    by (simp_all add: r(1,3) result_value_def jget_def new_tail_def truncated_def)
  ultimately show ?thesis using r(2) by blast
qed

abbreviation held_example :: shell_world where
  "held_example \<equiv> shell_world_with id [(seconds 2, ChildEnds (Some 0))] ([[104, 105]], False)"

theorem held_pipe_loses_output_witness:
  "jget (lit ''stdout_bytes'') (case fst (exec_shell held_example None example_exec (shell_shared ShellAuto)) of
     Ok v \<Rightarrow> v | Err _ \<Rightarrow> JNull) = Some (JInt 0)"
proof -
  let ?st = "shell_shared ShellAuto"
  have exec: "exec_shell held_example None example_exec ?st = start_shell held_example None example_command ?st"
    by (simp add: exec_auto)
  have "fst (run_select (sr_timeout example_command) (sh_shell_stops ?st) (sw_events held_example) ?st) = Exited (Some 0)"
    by (simp add: example_command_def DEFAULT_TIMEOUT_def seconds_def)
  from start_shell_result [OF example_world(1) this, of None] obtain run s1
    where run: "exec_shell held_example None example_exec ?st =
      (Ok (result_value held_example run), Some (example_command, ?st), sh_record None (run_entry held_example example_command run) s1)"
    unfolding exec by auto
  from held_pipe_loses_output [OF run] run show ?thesis by simp
qed

end
