(* ===== verification/App_Requests.thy ===== *)
theory App_Requests
  imports Core_Policy
begin

text \<open>
  \<open>apps/request.rs\<close>: one call of an app of the owner, checked and bounded before anything
  else looks at it. What Unicode and the C library's clock answer is a parameter.
\<close>

record unicode =
  uc_lower :: "utext \<Rightarrow> utext"
  uc_alphabetic :: "uchar \<Rightarrow> bool"
  uc_alphanumeric :: "uchar \<Rightarrow> bool"
  uc_local :: "int \<Rightarrow> local"       \<comment> \<open>\<open>local_from_unix\<close>\<close>

datatype app_error =
    AppDenied utext | AppUnavailable utext | AppNotFound utext | AppBadRequest utext | AppFailed utext

fun app_error_text :: "app_error \<Rightarrow> utext" where
  "app_error_text (AppDenied m) = lit ''denied: '' @ m"
| "app_error_text (AppUnavailable m) = lit ''unavailable: '' @ m"
| "app_error_text (AppNotFound m) = lit ''not found: '' @ m"
| "app_error_text (AppBadRequest m) = lit ''bad request: '' @ m"
| "app_error_text (AppFailed m) = m"

definition and_then :: "('e, 'a) result \<Rightarrow> ('a \<Rightarrow> ('e, 'b) result) \<Rightarrow> ('e, 'b) result" where
  \<comment> \<open>the \<open>?\<close> of a fallible step\<close>
  "and_then r f = (case r of Err e \<Rightarrow> Err e | Ok x \<Rightarrow> f x)"

lemma and_then_Ok [simp]: "and_then r f = Ok y \<longleftrightarrow> (\<exists>x. r = Ok x \<and> f x = Ok y)"
  by (cases r) (simp_all add: and_then_def)

section \<open>Limits\<close>

definition MESSAGES_DEFAULT :: nat where "MESSAGES_DEFAULT = 20"
definition MESSAGES_MAX :: nat where "MESSAGES_MAX = 50"
definition MESSAGE_TEXT_MAX :: nat where "MESSAGE_TEXT_MAX = 2000"
definition CONTACTS_DEFAULT :: nat where "CONTACTS_DEFAULT = 10"
definition CONTACTS_MAX :: nat where "CONTACTS_MAX = 25"
definition CONTACT_QUERY_MIN :: nat where "CONTACT_QUERY_MIN = 2"
definition CONTACT_DIGITS_MIN :: nat where "CONTACT_DIGITS_MIN = 4"
definition EVENTS_DEFAULT :: nat where "EVENTS_DEFAULT = 50"
definition EVENTS_MAX :: nat where "EVENTS_MAX = 100"
definition EVENT_RANGE_MAX_DAYS :: int where "EVENT_RANGE_MAX_DAYS = 92"
definition REMINDERS_DEFAULT :: nat where "REMINDERS_DEFAULT = 50"
definition REMINDERS_MAX :: nat where "REMINDERS_MAX = 200"
definition NOTES_DEFAULT :: nat where "NOTES_DEFAULT = 20"
definition NOTES_MAX :: nat where "NOTES_MAX = 50"
definition NOTE_QUERY_MIN :: nat where "NOTE_QUERY_MIN = 2"
definition NOTE_TEXT_MAX :: nat where "NOTE_TEXT_MAX = 20000"
definition TITLE_MAX :: nat where "TITLE_MAX = 300"
definition BODY_MAX :: nat where "BODY_MAX = 4000"
definition NAME_MAX :: nat where "NAME_MAX = 120"
definition SHORTCUT_INPUT_MAX :: nat where "SHORTCUT_INPUT_MAX = 16 * 1024"
definition SHORTCUT_OUTPUT_MAX :: nat where "SHORTCUT_OUTPUT_MAX = 64 * 1024"
definition SHORTCUTS_MAX :: nat where "SHORTCUTS_MAX = 200"
definition CLIPBOARD_MAX :: nat where "CLIPBOARD_MAX = 100000"
definition NOTIFY_TITLE_MAX :: nat where "NOTIFY_TITLE_MAX = 80"
definition NOTIFY_BODY_MAX :: nat where "NOTIFY_BODY_MAX = 300"
definition URL_MAX :: nat where "URL_MAX = 2000"

lemmas app_limits = MESSAGES_DEFAULT_def MESSAGES_MAX_def MESSAGE_TEXT_MAX_def CONTACTS_DEFAULT_def
  CONTACTS_MAX_def EVENTS_DEFAULT_def EVENTS_MAX_def REMINDERS_DEFAULT_def REMINDERS_MAX_def
  NOTES_DEFAULT_def NOTES_MAX_def SHORTCUTS_MAX_def NOTE_TEXT_MAX_def TITLE_MAX_def BODY_MAX_def
  NAME_MAX_def SHORTCUT_INPUT_MAX_def SHORTCUT_OUTPUT_MAX_def CLIPBOARD_MAX_def NOTIFY_TITLE_MAX_def
  NOTIFY_BODY_MAX_def URL_MAX_def

section \<open>Clean text\<close>

definition hidden :: "uchar \<Rightarrow> bool" where
  "hidden c \<longleftrightarrow> is_control c \<or> 8203 \<le> c \<and> c \<le> 8207 \<or> 8234 \<le> c \<and> c \<le> 8238 \<or> 8288 \<le> c \<and> c \<le> 8297 \<or>
     c = 65279 \<or> 65529 \<le> c \<and> c \<le> 65531"

fun line_chars :: "utext \<Rightarrow> utext" where
  "line_chars [] = []"
| "line_chars (c # s) =
     (if c = 10 \<or> c = 13 \<or> c = 9 then 32 # line_chars s
      else if hidden c then line_chars s else c # line_chars s)"

definition clean_line :: "utext \<Rightarrow> utext" where
  "clean_line s = trim (line_chars s)"

fun join_crlf :: "utext \<Rightarrow> utext" where
  "join_crlf (c # d # s) = (if c = 13 \<and> d = 10 then 10 # join_crlf s else c # join_crlf (d # s))"
| "join_crlf s = s"

fun text_chars :: "utext \<Rightarrow> utext" where
  "text_chars [] = []"
| "text_chars (c # s) =
     (if c = 10 \<or> c = 13 then 10 # text_chars s
      else if c = 9 then 32 # text_chars s
      else if hidden c then text_chars s else c # text_chars s)"

definition trim_blank :: "utext \<Rightarrow> utext" where
  "trim_blank s =
     (let blank = (\<lambda>c. c = 10 \<or> c = 32) in rev (dropWhile blank (rev (dropWhile blank s))))"

definition clean_text :: "utext \<Rightarrow> utext" where
  "clean_text s = trim_blank (text_chars (join_crlf s))"

definition cut :: "utext \<Rightarrow> nat \<Rightarrow> utext \<times> bool" where
  "cut s m = (if m < length s then (take m s, True) else (s, False))"

section \<open>Fields\<close>

definition str_param :: "json \<Rightarrow> utext \<Rightarrow> utext" where
  "str_param p key = (case get_str key p of Some s \<Rightarrow> s | None \<Rightarrow> [])"

definition bool_param :: "json \<Rightarrow> utext \<Rightarrow> bool" where
  "bool_param p key = (case get_bool key p of Some b \<Rightarrow> b | None \<Rightarrow> False)"

definition limit_param :: "json \<Rightarrow> nat \<Rightarrow> nat \<Rightarrow> nat" where
  "limit_param p start m =
     (case Option.bind (jget (lit ''limit'') p) as_u64 of
        None \<Rightarrow> start
      | Some n \<Rightarrow> if n = 0 then start else min n m)"

definition too_long :: "utext \<Rightarrow> nat \<Rightarrow> app_error" where
  "too_long key m = AppBadRequest (key @ lit '' is longer than '' @ digits m @ lit '' characters'')"

definition line_param :: "json \<Rightarrow> utext \<Rightarrow> nat \<Rightarrow> (app_error, utext) result" where
  "line_param p key m =
     (let v = clean_line (str_param p key)
      in if v = [] then Err (AppBadRequest (key @ lit '' is required''))
         else if m < length v then Err (too_long key m) else Ok v)"

definition opt_line :: "json \<Rightarrow> utext \<Rightarrow> nat \<Rightarrow> (app_error, utext option) result" where
  "opt_line p key m =
     (let v = clean_line (str_param p key)
      in if v = [] then Ok None else if m < length v then Err (too_long key m) else Ok (Some v))"

definition text_param :: "json \<Rightarrow> utext \<Rightarrow> nat \<Rightarrow> bool \<Rightarrow> (app_error, utext) result" where
  "text_param p key m required =
     (let v = clean_text (str_param p key)
      in if v = [] \<and> required then Err (AppBadRequest (key @ lit '' is required''))
         else if m < length v then Err (too_long key m) else Ok v)"

definition bad_recipient :: app_error where
  "bad_recipient = AppBadRequest (lit ''to must be one phone number (like +79161234567) or one email address; look a name up with contacts first'')"

fun phone_digits :: "bool \<Rightarrow> utext \<Rightarrow> utext option" where
  \<comment> \<open>a plus only at the very start\<close>
  "phone_digits first [] = Some []"
| "phone_digits first (c # s) =
     (if c = 43 \<and> first \<or> is_ascii_digit c then map_option (\<lambda>d. c # d) (phone_digits False s)
      else if c = 32 \<or> c = 45 \<or> c = 40 \<or> c = 41 \<or> c = 46 then phone_digits False s
      else None)"

definition email_ok :: "unicode \<Rightarrow> utext \<Rightarrow> bool" where
  "email_ok uc e \<longleftrightarrow>
     (case split_char 64 e of
        [user, host] \<Rightarrow> user \<noteq> [] \<and> 46 \<in> set host \<and> \<not> starts_with [46] host \<and> \<not> ends_with [46] host \<and>
          list_all (\<lambda>c. uc_alphanumeric uc c \<or> c = 64 \<or> c = 46 \<or> c = 95 \<or> c = 45 \<or> c = 43) e
      | _ \<Rightarrow> False)"

definition normalize_recipient :: "unicode \<Rightarrow> utext \<Rightarrow> (app_error, utext) result" where
  "normalize_recipient uc raw =
     (let v = clean_line raw
      in if v = [] \<or> 100 < length v then Err bad_recipient
         else if 64 \<in> set v then
           (let e = uc_lower uc v in if email_ok uc e then Ok e else Err bad_recipient)
         else case phone_digits True v of
             None \<Rightarrow> Err bad_recipient
           | Some d \<Rightarrow>
               (let n = length (filter is_ascii_digit d)
                in if 3 \<le> n \<and> n \<le> 15 then Ok d else Err bad_recipient))"

definition chat_filter :: "unicode \<Rightarrow> utext \<Rightarrow> (app_error, utext option) result" where
  "chat_filter uc raw =
     (let v = clean_line raw
      in if v = [] then Ok None
         else case normalize_recipient uc v of
             Ok h \<Rightarrow> Ok (Some h)
           | Err _ \<Rightarrow>
               if length v \<le> 200 \<and> list_all (\<lambda>c. uc_alphanumeric uc c \<or> c \<in> set (lit '';+-_.@:'')) v
               then Ok (Some v)
               else Err (AppBadRequest (lit ''chat must be a phone number, an email address, or a chat value from an earlier result'')))"

definition url_host :: "utext \<Rightarrow> utext" where
  \<comment> \<open>of an authority, without the port\<close>
  "url_host authority =
     (case strip_prefix [91] authority of
        Some v6 \<Rightarrow> takeWhile (\<lambda>c. c \<noteq> 93) v6
      | None \<Rightarrow> takeWhile (\<lambda>c. c \<noteq> 58) authority)"

definition url_authority :: "utext \<Rightarrow> utext" where
  "url_authority rest = takeWhile (\<lambda>c. c \<noteq> 47 \<and> c \<noteq> 63 \<and> c \<noteq> 35) rest"

definition check_url :: "names \<Rightarrow> utext \<Rightarrow> (app_error, utext \<times> utext) result" where
  "check_url nm raw =
     (let v = clean_line raw; l = to_ascii_lowercase v;
          rest = (if starts_with (lit ''https://'') l then Some (drop 8 v)
                  else if starts_with (lit ''http://'') l then Some (drop 7 v) else None)
      in if URL_MAX < length v then Err (too_long (lit ''url'') URL_MAX)
         else case rest of
             None \<Rightarrow> Err (AppDenied (lit ''only http and https addresses can be opened''))
           | Some r \<Rightarrow>
               if list_ex is_whitespace v then Err (AppBadRequest (lit ''url must not contain spaces''))
               else
                 (let authority = url_authority r; host = url_host authority
                  in if 64 \<in> set authority
                     then Err (AppDenied (lit ''addresses with a user name before the site are not opened''))
                     else if host = [] \<or> starts_with [45] host
                     then Err (AppBadRequest (lit ''url has no site name''))
                     else Ok (v, registrable_domain nm host)))"

definition app_name :: "utext \<Rightarrow> (app_error, utext) result" where
  "app_name raw =
     (let v = clean_line raw
      in if v = [] \<or> NAME_MAX < length v \<or> starts_with [45] v \<or> starts_with [46] v \<or>
            list_ex (\<lambda>c. c \<in> {47, 92, 58, 34, 60, 62, 124, 42, 63}) v
         then Err (AppBadRequest (lit ''name must be the plain name of an app, for example Safari''))
         else Ok v)"

definition bundle_id :: "utext \<Rightarrow> (app_error, utext option) result" where
  "bundle_id raw =
     (let v = trim raw
      in if v = [] then Ok None
         else if 155 < utf8_len v \<or> 46 \<notin> set v \<or> starts_with [46] v \<or> starts_with [45] v \<or> ends_with [46] v \<or>
              contains_str [46, 46] v \<or> \<not> list_all (\<lambda>c. is_ascii_alphanumeric c \<or> c = 46 \<or> c = 45) v
         then Err (AppBadRequest (lit ''bundle_id must be an app's bundle id, for example com.apple.finder''))
         else Ok (Some v))"

definition when_param :: "json \<Rightarrow> utext \<Rightarrow> (app_error, when_time) result" where
  "when_param p field =
     (case parse_when (str_param p field) of
        Some w \<Rightarrow> Ok w
      | None \<Rightarrow> Err (AppBadRequest (field @ lit '' must look like 2026-10-13T15:00 (this computer's time) or 2026-10-13T15:00:00+03:00'')))"

definition local_of :: "unicode \<Rightarrow> when_time \<Rightarrow> local" where
  "local_of uc w = (case w of LocalTime l \<Rightarrow> l | At unix \<Rightarrow> uc_local uc unix)"

definition or_empty :: "utext option \<Rightarrow> utext" where
  "or_empty x = (case x of Some s \<Rightarrow> s | None \<Rightarrow> [])"

section \<open>A checked call\<close>

datatype msg_service = IMessage | Sms

fun service_label :: "msg_service \<Rightarrow> utext" where
  "service_label IMessage = lit ''imessage''"
| "service_label Sms = lit ''sms''"

datatype app_request =
    MessagesRecent (mr_chat: "utext option") nat
  | MessagesSend utext utext msg_service
  | ContactsSearch utext nat
  | CalendarList when_time when_time "utext option" "utext option" nat
  | CalendarCreate utext when_time when_time "utext option" utext utext bool
  | RemindersList "utext option" bool nat
  | RemindersCreate utext "when_time option" "utext option" utext
  | RemindersComplete utext
  | NotesSearch utext "utext option" nat
  | NotesRead "utext option" "utext option"
  | NotesCreate utext utext "utext option"
  | ShortcutsList
  | ShortcutsRun utext utext
  | NotifyShow utext utext
  | ClipboardRead
  | ClipboardWrite utext
  | OpenUrl utext utext           \<comment> \<open>the address and its site\<close>
  | OpenFile utext
  | OpenApp utext "utext option"  \<comment> \<open>the name and the bundle id\<close>

definition parse_recent :: "unicode \<Rightarrow> json \<Rightarrow> (app_error, app_request) result" where
  "parse_recent uc p =
     and_then (chat_filter uc (str_param p (lit ''chat''))) (\<lambda>chat.
       Ok (MessagesRecent chat (limit_param p MESSAGES_DEFAULT MESSAGES_MAX)))"

definition service_param :: "json \<Rightarrow> (app_error, msg_service) result" where
  "service_param p =
     (let s = to_ascii_lowercase (str_param p (lit ''service''))
      in if s = [] \<or> s = lit ''imessage'' then Ok IMessage
         else if s = lit ''sms'' then Ok Sms
         else Err (AppBadRequest (lit ''service must be imessage or sms'')))"

definition parse_send :: "unicode \<Rightarrow> json \<Rightarrow> (app_error, app_request) result" where
  "parse_send uc p =
     and_then (service_param p) (\<lambda>service.
     and_then (normalize_recipient uc (str_param p (lit ''to''))) (\<lambda>recipient.
     and_then (text_param p (lit ''text'') MESSAGE_TEXT_MAX True) (\<lambda>t.
       Ok (MessagesSend recipient t service))))"

definition contact_query_ok :: "unicode \<Rightarrow> utext \<Rightarrow> bool" where
  "contact_query_ok uc query \<longleftrightarrow>
     (if filter (uc_alphabetic uc) query = [] then CONTACT_DIGITS_MIN \<le> length (filter is_ascii_digit query)
      else CONTACT_QUERY_MIN \<le> length (filter (uc_alphanumeric uc) query)) \<and> length query \<le> NAME_MAX"

definition parse_contacts :: "unicode \<Rightarrow> json \<Rightarrow> (app_error, app_request) result" where
  "parse_contacts uc p =
     (let query = clean_line (str_param p (lit ''query''))
      in if \<not> contact_query_ok uc query
         then Err (AppBadRequest (lit ''query must be a name of at least 2 letters, an email, or at least 4 digits of a phone number; the address book is never listed whole''))
         else Ok (ContactsSearch query (limit_param p CONTACTS_DEFAULT CONTACTS_MAX)))"

definition span_of :: "unicode \<Rightarrow> when_time \<Rightarrow> when_time \<Rightarrow> int" where
  "span_of uc start until = ordinal (local_of uc until) - ordinal (local_of uc start)"

definition end_after_start :: app_error where
  "end_after_start = AppBadRequest (lit ''end must be after start'')"

definition parse_events :: "unicode \<Rightarrow> json \<Rightarrow> (app_error, app_request) result" where
  "parse_events uc p =
     and_then (when_param p (lit ''start'')) (\<lambda>start.
     and_then (when_param p (lit ''end'')) (\<lambda>until.
       if span_of uc start until \<le> 0 then Err end_after_start
       else if EVENT_RANGE_MAX_DAYS * 86400 < span_of uc start until
       then Err (AppBadRequest (lit ''the range is longer than 92 days; ask for a shorter one''))
       else
         and_then (opt_line p (lit ''calendar'') NAME_MAX) (\<lambda>calendar.
         and_then (opt_line p (lit ''query'') NAME_MAX) (\<lambda>query.
           Ok (CalendarList start until calendar query (limit_param p EVENTS_DEFAULT EVENTS_MAX))))))"

definition parse_event :: "unicode \<Rightarrow> json \<Rightarrow> (app_error, app_request) result" where
  "parse_event uc p =
     and_then (when_param p (lit ''start'')) (\<lambda>start.
     and_then (when_param p (lit ''end'')) (\<lambda>until.
       if span_of uc start until \<le> 0 then Err end_after_start
       else
         and_then (line_param p (lit ''title'') TITLE_MAX) (\<lambda>title.
         and_then (opt_line p (lit ''calendar'') NAME_MAX) (\<lambda>calendar.
         and_then (opt_line p (lit ''location'') TITLE_MAX) (\<lambda>location.
         and_then (text_param p (lit ''notes'') BODY_MAX False) (\<lambda>notes.
           Ok (CalendarCreate title start until calendar (or_empty location) notes
                 (bool_param p (lit ''all_day'')))))))))"

definition parse_reminders :: "json \<Rightarrow> (app_error, app_request) result" where
  "parse_reminders p =
     and_then (opt_line p (lit ''list'') NAME_MAX) (\<lambda>l.
       Ok (RemindersList l (bool_param p (lit ''include_completed''))
             (limit_param p REMINDERS_DEFAULT REMINDERS_MAX)))"

definition parse_reminder :: "json \<Rightarrow> (app_error, app_request) result" where
  "parse_reminder p =
     and_then (if trim (str_param p (lit ''due'')) = [] then Ok None
               else and_then (when_param p (lit ''due'')) (\<lambda>w. Ok (Some w))) (\<lambda>due.
     and_then (line_param p (lit ''title'') TITLE_MAX) (\<lambda>title.
     and_then (opt_line p (lit ''list'') NAME_MAX) (\<lambda>l.
     and_then (text_param p (lit ''notes'') BODY_MAX False) (\<lambda>notes.
       Ok (RemindersCreate title due l notes)))))"

definition parse_notes :: "unicode \<Rightarrow> json \<Rightarrow> (app_error, app_request) result" where
  "parse_notes uc p =
     (let query = clean_line (str_param p (lit ''query''))
      in if length (filter (uc_alphanumeric uc) query) < NOTE_QUERY_MIN \<or> NAME_MAX < length query
         then Err (AppBadRequest (lit ''query must have at least 2 letters or digits; notes are never listed whole''))
         else and_then (opt_line p (lit ''folder'') NAME_MAX) (\<lambda>folder.
           Ok (NotesSearch query folder (limit_param p NOTES_DEFAULT NOTES_MAX))))"

definition parse_note :: "json \<Rightarrow> (app_error, app_request) result" where
  "parse_note p =
     and_then (opt_line p (lit ''id'') 300) (\<lambda>i.
     and_then (opt_line p (lit ''title'') TITLE_MAX) (\<lambda>title.
       if i = None \<and> title = None then Err (AppBadRequest (lit ''id or title is required''))
       else Ok (NotesRead i title)))"

definition parse_new_note :: "json \<Rightarrow> (app_error, app_request) result" where
  "parse_new_note p =
     and_then (line_param p (lit ''title'') TITLE_MAX) (\<lambda>title.
     and_then (text_param p (lit ''text'') NOTE_TEXT_MAX False) (\<lambda>t.
     and_then (opt_line p (lit ''folder'') NAME_MAX) (\<lambda>folder.
       Ok (NotesCreate title t folder))))"

definition parse_shortcut :: "json \<Rightarrow> (app_error, app_request) result" where
  "parse_shortcut p =
     and_then (line_param p (lit ''name'') NAME_MAX) (\<lambda>name.
       if starts_with [45] name then Err (AppBadRequest (lit ''name must be the exact name of a shortcut''))
       else
         (let input = clean_text (str_param p (lit ''input''))
          in if SHORTCUT_INPUT_MAX < utf8_len input
             then Err (AppBadRequest (lit ''input is larger than '' @ digits SHORTCUT_INPUT_MAX @ lit '' bytes''))
             else Ok (ShortcutsRun name input)))"

definition parse_notify :: "json \<Rightarrow> (app_error, app_request) result" where
  "parse_notify p =
     and_then (line_param p (lit ''title'') NOTIFY_TITLE_MAX) (\<lambda>title.
     and_then (opt_line p (lit ''body'') NOTIFY_BODY_MAX) (\<lambda>body.
       Ok (NotifyShow title (or_empty body))))"

definition parse_open_file :: "json \<Rightarrow> (app_error, app_request) result" where
  "parse_open_file p =
     (let raw = trim (str_param p (lit ''path''))
      in if raw = [] then Err (AppBadRequest (lit ''path is required''))
         else if list_ex hidden raw
         then Err (AppBadRequest (lit ''path has characters that cannot be in a file name''))
         else Ok (OpenFile raw))"

definition parse_open_app :: "json \<Rightarrow> (app_error, app_request) result" where
  "parse_open_app p =
     and_then (app_name (str_param p (lit ''name''))) (\<lambda>name.
     and_then (bundle_id (str_param p (lit ''bundle_id''))) (\<lambda>b. Ok (OpenApp name b)))"

definition parse_app_request ::
  "unicode \<Rightarrow> names \<Rightarrow> utext \<Rightarrow> utext \<Rightarrow> json \<Rightarrow> (app_error, app_request) result" where
  "parse_app_request uc nm app action p =
     (let m = (app, action)
      in if m = (lit ''messages'', lit ''recent'') then parse_recent uc p
         else if m = (lit ''messages'', lit ''send'') then parse_send uc p
         else if m = (lit ''contacts'', lit ''search'') then parse_contacts uc p
         else if m = (lit ''calendar'', lit ''list'') then parse_events uc p
         else if m = (lit ''calendar'', lit ''create'') then parse_event uc p
         else if m = (lit ''reminders'', lit ''list'') then parse_reminders p
         else if m = (lit ''reminders'', lit ''create'') then parse_reminder p
         else if m = (lit ''reminders'', lit ''complete'')
         then and_then (line_param p (lit ''id'') 300) (\<lambda>i. Ok (RemindersComplete i))
         else if m = (lit ''notes'', lit ''search'') then parse_notes uc p
         else if m = (lit ''notes'', lit ''read'') then parse_note p
         else if m = (lit ''notes'', lit ''create'') then parse_new_note p
         else if m = (lit ''shortcuts'', lit ''list'') then Ok ShortcutsList
         else if m = (lit ''shortcuts'', lit ''run'') then parse_shortcut p
         else if m = (lit ''notify'', lit ''show'') then parse_notify p
         else if m = (lit ''clipboard'', lit ''read'') then Ok ClipboardRead
         else if m = (lit ''clipboard'', lit ''write'')
         then and_then (text_param p (lit ''text'') CLIPBOARD_MAX True) (\<lambda>t. Ok (ClipboardWrite t))
         else if m = (lit ''open'', lit ''url'')
         then and_then (check_url nm (str_param p (lit ''url''))) (\<lambda>(url, host). Ok (OpenUrl url host))
         else if m = (lit ''open'', lit ''file'') then parse_open_file p
         else if m = (lit ''open'', lit ''app'') then parse_open_app p
         else Err (AppDenied (lit ''unknown method apps.'' @ app @ [46] @ action)))"

section \<open>What may be opened\<close>

definition OPENABLE_EXTENSIONS :: "utext list" where
  "OPENABLE_EXTENSIONS = map lit
     [''txt'', ''md'', ''rtf'', ''pdf'', ''doc'', ''docx'', ''odt'', ''pages'', ''xls'', ''xlsx'', ''ods'',
      ''numbers'', ''csv'', ''tsv'', ''ppt'', ''pptx'', ''odp'', ''key'', ''epub'', ''log'', ''json'', ''xml'',
      ''yaml'', ''yml'', ''ics'', ''vcf'', ''png'', ''jpg'', ''jpeg'', ''gif'', ''heic'', ''heif'', ''webp'',
      ''bmp'', ''tif'', ''tiff'', ''mp3'', ''m4a'', ''aac'', ''wav'', ''flac'', ''ogg'', ''mp4'', ''m4v'', ''mov'',
      ''mkv'', ''webm'', ''avi'']"

definition extension :: "utext \<Rightarrow> utext" where
  \<comment> \<open>\<open>Path::extension\<close> of a file name, empty when there is none\<close>
  "extension name =
     (let tail = rev (takeWhile (\<lambda>c. c \<noteq> 46) (rev name))
      in if 46 \<notin> set name \<or> length name = length tail + 1 then [] else tail)"

definition openable :: "utext \<Rightarrow> bool \<Rightarrow> (app_error, unit) result" where
  "openable name is_dir =
     (let ext = to_ascii_lowercase (extension name)
      in if is_dir then
           (if ext = [] then Ok ()
            else Err (AppDenied (lit ''a folder whose name ends like a file type is not opened (it may be an app or a package)'')))
         else if ext \<in> set OPENABLE_EXTENSIONS then Ok ()
         else Err (AppDenied (lit ''files of type '' @ [34] @ (if ext = [] then lit ''none'' else 46 # ext) @ [34] @
                lit '' are not opened: only documents, pictures, sound and video (opening a program or a script would run it)'')))"

section \<open>What a checked call looks like\<close>

definition shown :: "nat \<Rightarrow> utext \<Rightarrow> bool" where
  \<comment> \<open>one line the owner can read: nothing hidden, no line break\<close>
  "shown m t \<longleftrightarrow> t \<noteq> [] \<and> length t \<le> m \<and> list_all (\<lambda>c. \<not> hidden c) t"

definition shown_opt :: "nat \<Rightarrow> utext option \<Rightarrow> bool" where
  "shown_opt m x \<longleftrightarrow> (case x of None \<Rightarrow> True | Some t \<Rightarrow> shown m t)"

definition shown_block :: "nat \<Rightarrow> utext \<Rightarrow> bool" where
  "shown_block m t \<longleftrightarrow> length t \<le> m \<and> list_all (\<lambda>c. c = 10 \<or> \<not> hidden c) t"

definition recipient_ok :: "unicode \<Rightarrow> utext \<Rightarrow> bool" where
  \<comment> \<open>in the one spelling\<close>
  "recipient_ok uc r \<longleftrightarrow> shown 100 r \<and> normalize_recipient uc r = Ok r"

definition within_limit :: "nat \<Rightarrow> nat \<Rightarrow> bool" where
  "within_limit n m \<longleftrightarrow> 1 \<le> n \<and> n \<le> m"

fun request_ok :: "unicode \<Rightarrow> app_request \<Rightarrow> bool" where
  "request_ok uc (MessagesRecent chat n) \<longleftrightarrow> shown_opt 200 chat \<and> within_limit n MESSAGES_MAX"
| "request_ok uc (MessagesSend recipient t service) \<longleftrightarrow>
     recipient_ok uc recipient \<and> t \<noteq> [] \<and> shown_block MESSAGE_TEXT_MAX t"
| "request_ok uc (ContactsSearch q n) \<longleftrightarrow>
     contact_query_ok uc q \<and> shown NAME_MAX q \<and> within_limit n CONTACTS_MAX"
| "request_ok uc (CalendarList s u c q n) \<longleftrightarrow> 0 < span_of uc s u \<and>
     span_of uc s u \<le> EVENT_RANGE_MAX_DAYS * 86400 \<and> shown_opt NAME_MAX c \<and> shown_opt NAME_MAX q \<and>
     within_limit n EVENTS_MAX"
| "request_ok uc (CalendarCreate title s u c l notes all_day) \<longleftrightarrow> shown TITLE_MAX title \<and> 0 < span_of uc s u \<and>
     shown_opt NAME_MAX c \<and> (l = [] \<or> shown TITLE_MAX l) \<and> shown_block BODY_MAX notes"
| "request_ok uc (RemindersList l all n) \<longleftrightarrow> shown_opt NAME_MAX l \<and> within_limit n REMINDERS_MAX"
| "request_ok uc (RemindersCreate title due l notes) \<longleftrightarrow>
     shown TITLE_MAX title \<and> shown_opt NAME_MAX l \<and> shown_block BODY_MAX notes"
| "request_ok uc (RemindersComplete i) \<longleftrightarrow> shown 300 i"
| "request_ok uc (NotesSearch q f n) \<longleftrightarrow> shown NAME_MAX q \<and> shown_opt NAME_MAX f \<and> within_limit n NOTES_MAX \<and>
     NOTE_QUERY_MIN \<le> length (filter (uc_alphanumeric uc) q)"
| "request_ok uc (NotesRead i title) \<longleftrightarrow>
     (i \<noteq> None \<or> title \<noteq> None) \<and> shown_opt 300 i \<and> shown_opt TITLE_MAX title"
| "request_ok uc (NotesCreate title t f) \<longleftrightarrow>
     shown TITLE_MAX title \<and> shown_block NOTE_TEXT_MAX t \<and> shown_opt NAME_MAX f"
| "request_ok uc ShortcutsList \<longleftrightarrow> True"
| "request_ok uc (ShortcutsRun name input) \<longleftrightarrow> shown NAME_MAX name \<and> \<not> starts_with [45] name \<and>
     utf8_len input \<le> SHORTCUT_INPUT_MAX \<and> shown_block SHORTCUT_INPUT_MAX input"
| "request_ok uc (NotifyShow title body) \<longleftrightarrow>
     shown NOTIFY_TITLE_MAX title \<and> (body = [] \<or> shown NOTIFY_BODY_MAX body)"
| "request_ok uc ClipboardRead \<longleftrightarrow> True"
| "request_ok uc (ClipboardWrite t) \<longleftrightarrow> t \<noteq> [] \<and> shown_block CLIPBOARD_MAX t"
| "request_ok uc (OpenUrl url host) \<longleftrightarrow> shown URL_MAX url \<and> \<not> list_ex is_whitespace url \<and>
     (starts_with (lit ''https://'') (to_ascii_lowercase url) \<or> starts_with (lit ''http://'') (to_ascii_lowercase url))"
| "request_ok uc (OpenFile p) \<longleftrightarrow> p \<noteq> [] \<and> list_all (\<lambda>c. \<not> hidden c) p"
| "request_ok uc (OpenApp name b) \<longleftrightarrow> shown NAME_MAX name \<and> \<not> starts_with [45] name \<and> 47 \<notin> set name \<and>
     (case b of None \<Rightarrow> True | Some i \<Rightarrow> utf8_len i \<le> 155 \<and> 46 \<in> set i \<and> \<not> starts_with [45] i \<and>
        list_all (\<lambda>c. is_ascii_alphanumeric c \<or> c = 46 \<or> c = 45) i)"

fun action_of :: "app_request \<Rightarrow> utext \<times> utext" where
  "action_of (MessagesRecent _ _) = (lit ''messages'', lit ''recent'')"
| "action_of (MessagesSend _ _ _) = (lit ''messages'', lit ''send'')"
| "action_of (ContactsSearch _ _) = (lit ''contacts'', lit ''search'')"
| "action_of (CalendarList _ _ _ _ _) = (lit ''calendar'', lit ''list'')"
| "action_of (CalendarCreate _ _ _ _ _ _ _) = (lit ''calendar'', lit ''create'')"
| "action_of (RemindersList _ _ _) = (lit ''reminders'', lit ''list'')"
| "action_of (RemindersCreate _ _ _ _) = (lit ''reminders'', lit ''create'')"
| "action_of (RemindersComplete _) = (lit ''reminders'', lit ''complete'')"
| "action_of (NotesSearch _ _ _) = (lit ''notes'', lit ''search'')"
| "action_of (NotesRead _ _) = (lit ''notes'', lit ''read'')"
| "action_of (NotesCreate _ _ _) = (lit ''notes'', lit ''create'')"
| "action_of ShortcutsList = (lit ''shortcuts'', lit ''list'')"
| "action_of (ShortcutsRun _ _) = (lit ''shortcuts'', lit ''run'')"
| "action_of (NotifyShow _ _) = (lit ''notify'', lit ''show'')"
| "action_of ClipboardRead = (lit ''clipboard'', lit ''read'')"
| "action_of (ClipboardWrite _) = (lit ''clipboard'', lit ''write'')"
| "action_of (OpenUrl _ _) = (lit ''open'', lit ''url'')"
| "action_of (OpenFile _) = (lit ''open'', lit ''file'')"
| "action_of (OpenApp _ _) = (lit ''open'', lit ''app'')"

text \<open>What the model relies on of Unicode: a letter or a number is neither hidden nor a space;
  lowering twice is lowering once, and when the lower case of a text has only letters, numbers
  and the signs of an address in it, it has as many characters.\<close>

definition unicode_ok :: "unicode \<Rightarrow> bool" where
  "unicode_ok uc \<longleftrightarrow> (\<forall>c. uc_alphanumeric uc c \<longrightarrow> \<not> hidden c \<and> \<not> is_whitespace c) \<and>
     (\<forall>s. uc_lower uc (uc_lower uc s) = uc_lower uc s) \<and>
     (\<forall>s. list_all (\<lambda>c. uc_alphanumeric uc c \<or> c \<in> {64, 46, 95, 45, 43}) (uc_lower uc s) \<longrightarrow>
        length (uc_lower uc s) = length s)"

section \<open>Lemmas\<close>

lemma line_chars_shown: "c \<in> set (line_chars s) \<Longrightarrow> \<not> hidden c"
  by (induction s) (auto simp: hidden_def is_control_def split: if_splits)

lemma clean_line_shown: "c \<in> set (clean_line s) \<Longrightarrow> \<not> hidden c"
  using set_trim line_chars_shown unfolding clean_line_def by blast

lemma clean_line_list [simp]: "list_all (\<lambda>c. \<not> hidden c) (clean_line s)"
  using clean_line_shown by (auto simp: list_all_iff)

lemma text_chars_shown: "c \<in> set (text_chars s) \<Longrightarrow> c = 10 \<or> \<not> hidden c"
  by (induction s) (auto simp: hidden_def is_control_def split: if_splits)

lemma set_trim_blank: "set (trim_blank s) \<subseteq> set s"
  unfolding trim_blank_def Let_def using set_dropWhileD by (fastforce dest: set_dropWhileD)

lemma clean_text_list [simp]: "list_all (\<lambda>c. c = 10 \<or> \<not> hidden c) (clean_text s)"
  using set_trim_blank text_chars_shown unfolding clean_text_def list_all_iff by blast

lemma line_param_ok: "line_param p key m = Ok v \<Longrightarrow> shown m v"
  by (auto simp: line_param_def Let_def shown_def split: if_splits)

lemma opt_line_ok: "opt_line p key m = Ok v \<Longrightarrow> shown_opt m v"
  by (auto simp: opt_line_def Let_def shown_def shown_opt_def split: if_splits)

lemma text_param_ok: "text_param p key m r = Ok v \<Longrightarrow> shown_block m v \<and> (r \<longrightarrow> v \<noteq> [])"
  by (auto simp: text_param_def Let_def shown_block_def split: if_splits)

lemma limit_param_ok: "1 \<le> start \<Longrightarrow> start \<le> m \<Longrightarrow> within_limit (limit_param p start m) m"
  by (auto simp: limit_param_def within_limit_def split: option.split)

lemma or_empty_ok: "shown_opt m x \<Longrightarrow> or_empty x \<noteq> [] \<Longrightarrow> shown m (or_empty x)"
  by (cases x) (simp_all add: shown_opt_def or_empty_def)

lemma trimmed_clean:
  assumes "\<And>c. c \<in> set s \<Longrightarrow> \<not> hidden c \<and> \<not> is_whitespace c"
  shows "clean_line s = s"
proof -
  have "hidden 10" "hidden 13" "hidden 9" by (simp_all add: hidden_def is_control_def)
  then have "\<forall>c \<in> set s. \<not> hidden c \<Longrightarrow> line_chars s = s" by (induction s) auto
  then have "line_chars s = s" using assms by blast
  moreover have "trim s = s"
    using assms by (intro trim_trimmed) (cases s, auto simp: trimmed_def)
  ultimately show ?thesis by (simp add: clean_line_def)
qed


lemma recipient_same:
  assumes u: "unicode_ok uc" and n: "normalize_recipient uc raw = Ok r"
  shows "recipient_ok uc r"
proof -
  let ?v = "clean_line raw"
  have v: "?v \<noteq> []" "length ?v \<le> 100" using n by (auto simp: normalize_recipient_def Let_def split: if_splits)
  show ?thesis
  proof (cases "64 \<in> set ?v")
    case True
    then have e: "email_ok uc r" and r: "r = uc_lower uc ?v"
      using n v by (auto simp: normalize_recipient_def Let_def split: if_splits)
    have parts: "\<exists>user host. split_char 64 r = [user, host] \<and> user \<noteq> []"
      and chars: "list_all (\<lambda>c. uc_alphanumeric uc c \<or> c = 64 \<or> c = 46 \<or> c = 95 \<or> c = 45 \<or> c = 43) r"
      using e by (auto simp: email_ok_def split: list.splits)
    have plain: "\<not> hidden c \<and> \<not> is_whitespace c" if "c \<in> set r" for c
    proof -
      have signs: "c \<in> {64, 46, 95, 45, 43} \<Longrightarrow> \<not> hidden c \<and> \<not> is_whitespace c"
        by (auto simp: hidden_def is_control_def is_whitespace_def)
      have "uc_alphanumeric uc c \<or> c \<in> {64, 46, 95, 45, 43}" using chars that by (auto simp: list_all_iff)
      then show ?thesis using signs u unfolding unicode_ok_def by blast
    qed
    have len: "length r \<le> 100"
    proof -
      have "list_all (\<lambda>c. uc_alphanumeric uc c \<or> c \<in> {64, 46, 95, 45, 43}) (uc_lower uc ?v)"
        using chars by (simp add: r)
      then have "length (uc_lower uc ?v) = length ?v" using u unfolding unicode_ok_def by blast
      then show ?thesis using v r by simp
    qed
    have at_sign: "64 \<in> set r"
    proof (rule ccontr)
      assume "64 \<notin> set r"
      then have "split_char 64 r = [r]" by (induction r) auto
      with parts show False by auto
    qed
    then have ne: "r \<noteq> []" by auto
    have low: "uc_lower uc r = r" using u by (simp add: r unicode_ok_def)
    have "normalize_recipient uc r = Ok r"
      using trimmed_clean [OF plain] ne len at_sign e by (simp add: normalize_recipient_def Let_def low)
    then show ?thesis using ne len plain by (simp add: recipient_ok_def shown_def list_all_iff)
  next
    case False
    then have d: "phone_digits True ?v = Some r" and n: "3 \<le> length (filter is_ascii_digit r)" "length (filter is_ascii_digit r) \<le> 15"
      using n v by (auto simp: normalize_recipient_def Let_def split: if_splits option.splits)
    have later: "phone_digits False s = Some t \<Longrightarrow> list_all is_ascii_digit t \<and> phone_digits False t = Some t" for s t
      by (induction s arbitrary: t) (auto split: if_splits)
    have shape: "phone_digits True s = Some t \<Longrightarrow>
        phone_digits True t = Some t \<and> list_all (\<lambda>c. c = 43 \<or> is_ascii_digit c) t \<and> length t \<le> Suc (length (filter is_ascii_digit t))" for s t
    proof (cases s)
      case (Cons c cs)
      assume a: "phone_digits True s = Some t"
      have digits: "list_all is_ascii_digit x \<Longrightarrow> list_all (\<lambda>c. c = 43 \<or> is_ascii_digit c) x \<and>
          filter is_ascii_digit x = x" for x by (auto simp: list_all_iff)
      have first: "list_all is_ascii_digit x \<Longrightarrow> phone_digits False x = Some x \<Longrightarrow> phone_digits True x = Some x" for x
        by (cases x) (auto split: if_splits)
      show ?thesis
        using a Cons later [of cs] digits first by (auto split: if_splits)
    qed simp
    have plain: "\<not> hidden c \<and> \<not> is_whitespace c" if "c \<in> set r" for c
      using shape [OF d] that by (auto simp: list_all_iff is_ascii_digit_def hidden_def is_control_def is_whitespace_def)
    have no_at: "64 \<notin> set r" using shape [OF d] by (auto simp: list_all_iff is_ascii_digit_def)
    have ne: "r \<noteq> []" using n by auto
    have "length r \<le> 100" using shape [OF d] n by simp
    then show ?thesis
      using trimmed_clean [OF plain] ne no_at shape [OF d] n plain
      by (simp add: recipient_ok_def shown_def list_all_iff normalize_recipient_def Let_def)
  qed
qed


lemma chat_filter_ok: "unicode_ok uc \<Longrightarrow> chat_filter uc raw = Ok chat \<Longrightarrow> shown_opt 200 chat"
proof -
  assume u: "unicode_ok uc" and c: "chat_filter uc raw = Ok chat"
  have "shown_opt 200 (Some h)" if "normalize_recipient uc v = Ok h" for v h
    using recipient_same [OF u that] by (auto simp: recipient_ok_def shown_def shown_opt_def)
  then show "shown_opt 200 chat"
    using c by (auto simp: chat_filter_def Let_def shown_opt_def shown_def split: if_splits sum.splits)
qed

lemma check_url_ok:
  assumes ok: "check_url nm raw = Ok (url, host)"
  shows "request_ok uc (OpenUrl url host)"
proof -
  let ?v = "clean_line raw"
  let ?l = "to_ascii_lowercase ?v"
  have web: "starts_with (lit ''https://'') ?l \<or> starts_with (lit ''http://'') ?l"
    and len: "length ?v \<le> URL_MAX"
    using ok by (auto simp: check_url_def Let_def simp del: list_ex_iff split: if_splits)
  then obtain r where r: "(if starts_with (lit ''https://'') ?l then Some (drop 8 ?v)
      else if starts_with (lit ''http://'') ?l then Some (drop 7 ?v) else None) = Some r"
    by (cases "starts_with (lit ''https://'') ?l") auto
  have "\<not> list_ex is_whitespace ?v \<and> url = ?v"
    using ok len unfolding check_url_def Let_def r by (simp split: if_splits)
  moreover have "?v \<noteq> []"
  proof
    assume "?v = []"
    then have "?l = []" by (simp add: to_ascii_lowercase_def)
    with web show False by (simp add: starts_with_def lit_def)
  qed
  ultimately show ?thesis using web len by (simp add: shown_def)
qed

lemma app_name_ok:
  assumes "app_name raw = Ok v"
  shows "shown NAME_MAX v \<and> \<not> starts_with [45] v \<and> 47 \<notin> set v"
proof -
  define bad where "bad = list_ex (\<lambda>c::nat. c \<in> {47, 92, 58, 34, 60, 62, 124, 42, 63})"
  have v: "v = clean_line raw" "v \<noteq> []" "length v \<le> NAME_MAX" "\<not> starts_with [45] v" "\<not> bad v"
    using assms unfolding app_name_def Let_def bad_def [symmetric] by (simp_all split: if_splits)
  have "bad v" if "47 \<in> set v" unfolding bad_def list_ex_iff by (rule bexI [OF _ that]) simp
  with v show ?thesis by (auto simp: shown_def)
qed

lemma bundle_id_ok:
  "bundle_id raw = Ok (Some i) \<Longrightarrow> utf8_len i \<le> 155 \<and> 46 \<in> set i \<and> \<not> starts_with [45] i \<and>
     list_all (\<lambda>c. is_ascii_alphanumeric c \<or> c = 46 \<or> c = 45) i"
  by (auto simp: bundle_id_def Let_def split: if_splits)

lemmas param_oks = line_param_ok opt_line_ok text_param_ok

text \<open>One fact per action: its checked request is well formed, and is of that action.\<close>

named_theorems parsed_ok \<open>the requests of the actions are well formed\<close>

lemma parse_messages_ok [parsed_ok]:
  assumes "unicode_ok uc"
  shows "parse_recent uc p = Ok r \<Longrightarrow> request_ok uc r \<and> action_of r = (lit ''messages'', lit ''recent'')"
    and "parse_send uc p = Ok r \<Longrightarrow> request_ok uc r \<and> action_of r = (lit ''messages'', lit ''send'')"
  using chat_filter_ok [OF assms] recipient_same [OF assms]
  by (auto simp: parse_recent_def parse_send_def limit_param_ok app_limits dest!: text_param_ok)

lemma parse_contacts_ok [parsed_ok]:
  "parse_contacts uc p = Ok r \<Longrightarrow> request_ok uc r \<and> action_of r = (lit ''contacts'', lit ''search'')"
proof -
  have ne: "contact_query_ok uc q \<Longrightarrow> q \<noteq> [] \<and> length q \<le> NAME_MAX" for q
    by (auto simp: contact_query_ok_def CONTACT_DIGITS_MIN_def CONTACT_QUERY_MIN_def)
  show "parse_contacts uc p = Ok r \<Longrightarrow> request_ok uc r \<and> action_of r = (lit ''contacts'', lit ''search'')"
    using ne by (auto simp: parse_contacts_def Let_def shown_def limit_param_ok app_limits split: if_splits)
qed

lemma parse_calendar_ok [parsed_ok]:
  "parse_events uc p = Ok r \<Longrightarrow> request_ok uc r \<and> action_of r = (lit ''calendar'', lit ''list'')"
  "parse_event uc p = Ok r \<Longrightarrow> request_ok uc r \<and> action_of r = (lit ''calendar'', lit ''create'')"
  by (auto simp: parse_events_def parse_event_def limit_param_ok EVENTS_DEFAULT_def EVENTS_MAX_def
      dest!: param_oks intro!: or_empty_ok split: if_splits)

lemma parse_reminders_ok [parsed_ok]:
  "parse_reminders p = Ok r \<Longrightarrow> request_ok uc r \<and> action_of r = (lit ''reminders'', lit ''list'')"
  "parse_reminder p = Ok r \<Longrightarrow> request_ok uc r \<and> action_of r = (lit ''reminders'', lit ''create'')"
  by (auto simp: parse_reminders_def parse_reminder_def limit_param_ok REMINDERS_DEFAULT_def REMINDERS_MAX_def
      dest!: param_oks split: if_splits)

lemma parse_notes_ok [parsed_ok]:
  "parse_notes uc p = Ok r \<Longrightarrow> request_ok uc r \<and> action_of r = (lit ''notes'', lit ''search'')"
  "parse_note p = Ok r \<Longrightarrow> request_ok uc r \<and> action_of r = (lit ''notes'', lit ''read'')"
  "parse_new_note p = Ok r \<Longrightarrow> request_ok uc r \<and> action_of r = (lit ''notes'', lit ''create'')"
  by (auto simp: parse_notes_def parse_note_def parse_new_note_def Let_def limit_param_ok NOTES_DEFAULT_def
      NOTES_MAX_def NOTE_QUERY_MIN_def shown_def dest!: param_oks split: if_splits)

lemma parse_shortcut_ok [parsed_ok]:
  "parse_shortcut p = Ok r \<Longrightarrow> request_ok uc r \<and> action_of r = (lit ''shortcuts'', lit ''run'')"
  using length_le_utf8_len [of "clean_text (str_param p (lit ''input''))"]
  by (auto simp: parse_shortcut_def Let_def shown_block_def dest!: param_oks split: if_splits)

lemma parse_small_ok [parsed_ok]:
  "parse_notify p = Ok r \<Longrightarrow> request_ok uc r \<and> action_of r = (lit ''notify'', lit ''show'')"
  "parse_open_file p = Ok r \<Longrightarrow> request_ok uc r \<and> action_of r = (lit ''open'', lit ''file'')"
  by (auto simp: parse_notify_def parse_open_file_def Let_def list_all_iff list_ex_iff
      dest!: param_oks intro!: or_empty_ok split: if_splits)

lemma parse_open_app_ok [parsed_ok]:
  "parse_open_app p = Ok r \<Longrightarrow> request_ok uc r \<and> action_of r = (lit ''open'', lit ''app'')"
  by (auto simp: parse_open_app_def dest!: app_name_ok bundle_id_ok split: option.splits)

lemma parsed_call_ok:
  assumes u: "unicode_ok uc" and ok: "parse_app_request uc nm app action p = Ok r"
  shows "request_ok uc r \<and> action_of r = (app, action)"
proof -
  have url: "and_then (check_url nm raw) (\<lambda>(url, host). Ok (OpenUrl url host)) = Ok r \<Longrightarrow>
      request_ok uc r \<and> action_of r = (lit ''open'', lit ''url'')" for raw
    using check_url_ok [of nm raw _ _ uc] by auto
  have clip: "and_then (text_param p key CLIPBOARD_MAX True) (\<lambda>t. Ok (ClipboardWrite t)) = Ok r \<Longrightarrow>
      request_ok uc r \<and> action_of r = (lit ''clipboard'', lit ''write'')" for key
    by (auto dest!: param_oks)
  have done': "and_then (line_param p key 300) (\<lambda>i. Ok (RemindersComplete i)) = Ok r \<Longrightarrow>
      request_ok uc r \<and> action_of r = (lit ''reminders'', lit ''complete'')" for key
    by (auto dest!: param_oks)
  show ?thesis
    using ok parsed_ok(1,2) [OF u, of p r] url clip done'
    unfolding parse_app_request_def Let_def
    by (auto split: if_splits dest: parsed_ok)
qed


definition ascii_unicode :: unicode where
  "ascii_unicode = \<lparr>uc_lower = to_ascii_lowercase, uc_alphabetic = is_ascii_alphanumeric,
     uc_alphanumeric = is_ascii_alphanumeric, uc_local = utc_parts\<rparr>"

definition example_send :: json where
  "example_send = JObj [(lit ''text'', JStr (lit ''hi'')), (lit ''to'', JStr (lit ''+7 (916) 123''))]"

lemma ascii_unicode_ok: "unicode_ok ascii_unicode"
proof -
  have "is_ascii_alphanumeric c \<Longrightarrow> \<not> hidden c \<and> \<not> is_whitespace c" for c
    by (auto simp: is_ascii_alphanumeric_def is_ascii_digit_def hidden_def is_control_def is_whitespace_def)
  then show ?thesis by (simp add: unicode_ok_def ascii_unicode_def) (simp add: to_ascii_lowercase_def)
qed

lemma example_send_parsed:
  "parse_app_request ascii_unicode nm (lit ''messages'') (lit ''send'') example_send =
     Ok (MessagesSend (lit ''+7916123'') (lit ''hi'') IMessage)"
proof -
  have "parse_send ascii_unicode example_send = Ok (MessagesSend (lit ''+7916123'') (lit ''hi'') IMessage)"
  proof -
    have body: "clean_text (lit ''hi'') = lit ''hi''" "length (lit ''hi'') \<le> MESSAGE_TEXT_MAX"
      by (simp_all add: lit_def clean_text_def trim_blank_def hidden_def is_control_def MESSAGE_TEXT_MAX_def)
    have line: "clean_line (lit ''+7 (916) 123'') = lit ''+7 (916) 123''"
      by (simp add: lit_def clean_line_def hidden_def is_control_def trim_def trim_start_def is_whitespace_def)
    have digits: "phone_digits True (lit ''+7 (916) 123'') = Some (lit ''+7916123'')"
      "64 \<notin> set (lit ''+7 (916) 123'')" "length (filter is_ascii_digit (lit ''+7916123'')) = 7"
      by (simp_all add: lit_def is_ascii_digit_def)
    have fields: "str_param example_send (lit ''text'') = lit ''hi''" "str_param example_send (lit ''to'') = lit ''+7 (916) 123''"
      "str_param example_send (lit ''service'') = []"
      by (simp_all add: str_param_def example_send_def json_defs)
    have service: "service_param example_send = Ok IMessage"
      by (simp add: service_param_def fields to_ascii_lowercase_def)
    show ?thesis
      by (simp add: parse_send_def and_then_def service text_param_def normalize_recipient_def fields body line digits MESSAGE_TEXT_MAX_def)
  qed
  then show ?thesis by (simp add: parse_app_request_def)
qed


end
