(* ===== verification/App_Gate.thy ===== *)
theory App_Gate
  imports App_Requests Files_Confinement
begin

text \<open>
  \<open>apps/mod.rs\<close>: the one gate to the owner's apps. The catalog and its risks, the switches, the
  decision whether to ask, the question with the facts of the call in full, the call of the
  system's backend, the bounds on what it answers, the journal line. The backend is a
  parameter.
\<close>

section \<open>The catalog\<close>

datatype risk = RiskRead | RiskAct | RiskActLight

record app_action =
  aa_app :: utext
  aa_action :: utext
  aa_risk :: risk

definition catalog_row :: "string \<Rightarrow> string \<Rightarrow> risk \<Rightarrow> app_action" where
  "catalog_row app action r = \<lparr>aa_app = lit app, aa_action = lit action, aa_risk = r\<rparr>"

definition CATALOG :: "app_action list" where
  "CATALOG = [
     catalog_row ''messages'' ''recent'' RiskRead, catalog_row ''messages'' ''send'' RiskAct,
     catalog_row ''contacts'' ''search'' RiskRead,
     catalog_row ''calendar'' ''list'' RiskRead, catalog_row ''calendar'' ''create'' RiskAct,
     catalog_row ''reminders'' ''list'' RiskRead, catalog_row ''reminders'' ''create'' RiskAct,
     catalog_row ''reminders'' ''complete'' RiskAct,
     catalog_row ''notes'' ''search'' RiskRead, catalog_row ''notes'' ''read'' RiskRead,
     catalog_row ''notes'' ''create'' RiskAct,
     catalog_row ''shortcuts'' ''list'' RiskRead, catalog_row ''shortcuts'' ''run'' RiskAct,
     catalog_row ''notify'' ''show'' RiskActLight,
     catalog_row ''clipboard'' ''read'' RiskRead, catalog_row ''clipboard'' ''write'' RiskAct,
     catalog_row ''open'' ''url'' RiskAct, catalog_row ''open'' ''file'' RiskAct,
     catalog_row ''open'' ''app'' RiskAct]"

definition APPS :: "utext list" where
  "APPS = map lit [''messages'', ''contacts'', ''calendar'', ''reminders'', ''notes'', ''shortcuts'', ''notify'',
     ''clipboard'', ''open'']"

definition find_action :: "utext \<Rightarrow> utext \<Rightarrow> app_action option" where
  "find_action app action = find (\<lambda>x. aa_app x = app \<and> aa_action x = action) CATALOG"

definition actions_of :: "utext \<Rightarrow> utext list" where
  "actions_of app = map aa_action (filter (\<lambda>x. aa_app x = app) CATALOG)"

definition app_title :: "utext \<Rightarrow> utext" where
  "app_title app =
     (if app = lit ''messages'' then lit ''Messages'' else if app = lit ''contacts'' then lit ''Contacts''
      else if app = lit ''calendar'' then lit ''Calendar'' else if app = lit ''reminders'' then lit ''Reminders''
      else if app = lit ''notes'' then lit ''Notes'' else if app = lit ''shortcuts'' then lit ''Shortcuts''
      else if app = lit ''notify'' then lit ''notifications'' else if app = lit ''clipboard'' then lit ''the clipboard''
      else if app = lit ''open'' then lit ''opening links, files and apps'' else lit ''this app'')"

type_synonym app_offer = "utext \<times> utext list"

record app_view =
  av_id :: utext
  av_on :: bool
  av_actions :: "utext list"

definition app_views :: "app_offer list \<Rightarrow> apps_settings \<Rightarrow> app_view list" where
  "app_views offered s = List.map_filter (\<lambda>i.
     case find (\<lambda>o'. fst o' = i) offered of
       None \<Rightarrow> None
     | Some offer \<Rightarrow>
         (let actions = filter (\<lambda>x. x \<in> set (snd offer)) (actions_of i)
          in if actions = [] then None
             else Some \<lparr>av_id = i, av_on = app_on s i, av_actions = actions\<rparr>)) APPS"

definition view_json :: "app_view \<Rightarrow> json" where
  "view_json v = JObj [(lit ''actions'', JArr (map JStr (av_actions v))), (lit ''id'', JStr (av_id v)),
     (lit ''on'', JBool (av_on v))]"

definition apps_value :: "app_offer list \<Rightarrow> apps_settings \<Rightarrow> json" where
  "apps_value offered s = JObj [(lit ''apps'', JArr (map view_json (app_views offered s))),
     (lit ''enabled'', JBool (a_enabled s)),
     (lit ''mode'', JStr (case a_mode s of AppsAsk \<Rightarrow> lit ''ask'' | AppsAskNew \<Rightarrow> lit ''ask_new'' | AppsAuto \<Rightarrow> lit ''auto''))]"

section \<open>Whether to ask\<close>

datatype app_decision = AppPass | AppAsk utext remember

definition scope_of :: "unicode \<Rightarrow> app_request \<Rightarrow> utext" where
  "scope_of uc r = (case r of
      MessagesSend recipient _ _ \<Rightarrow> lit ''messages.send:'' @ recipient
    | CalendarCreate _ _ _ _ _ _ _ \<Rightarrow> lit ''calendar.create''
    | RemindersCreate _ _ _ _ \<Rightarrow> lit ''reminders.create''
    | RemindersComplete _ \<Rightarrow> lit ''reminders.complete''
    | NotesCreate _ _ _ \<Rightarrow> lit ''notes.create''
    | ShortcutsRun name _ \<Rightarrow> lit ''shortcuts.run:'' @ name
    | ClipboardWrite _ \<Rightarrow> lit ''clipboard.write''
    | OpenUrl _ host \<Rightarrow> lit ''open.url:'' @ host
    | OpenFile _ \<Rightarrow> lit ''open.file''
    | OpenApp name _ \<Rightarrow> lit ''open.app:'' @ uc_lower uc name
    | _ \<Rightarrow> [])"

definition app_decide :: "unicode \<Rightarrow> apps_mode \<Rightarrow> risk \<Rightarrow> app_request \<Rightarrow> app_decision" where
  "app_decide uc mode r req =
     (case req of
        MessagesSend recipient _ _ \<Rightarrow>
          AppAsk (lit ''messages.send:'' @ recipient) (if mode = AppsAsk then NeverRemember else AlwaysOnly)
      | _ \<Rightarrow>
          (case r of
             RiskAct \<Rightarrow>
               (case mode of
                  AppsAuto \<Rightarrow> AppPass
                | AppsAsk \<Rightarrow> AppAsk (scope_of uc req) NeverRemember
                | AppsAskNew \<Rightarrow> AppAsk (scope_of uc req)
                    (case req of ShortcutsRun _ input \<Rightarrow> if input \<noteq> [] then NeverRemember else AnyDuration
                     | _ \<Rightarrow> AnyDuration))
           | _ \<Rightarrow> AppPass))"

definition kv :: "string \<Rightarrow> utext \<Rightarrow> utext \<times> utext" where
  "kv k v = (lit k, v)"

definition kv_opt :: "string \<Rightarrow> utext option \<Rightarrow> (utext \<times> utext) list" where
  "kv_opt k x = (case x of Some v \<Rightarrow> [kv k v] | None \<Rightarrow> [])"

definition kv_ne :: "string \<Rightarrow> utext \<Rightarrow> (utext \<times> utext) list" where
  "kv_ne k v = (if v \<noteq> [] then [kv k v] else [])"

definition day_text :: "local \<Rightarrow> utext" where
  "day_text l = pad_int 4 (year l) @ [45] @ pad_int 2 (month l) @ [45] @ pad_int 2 (day l)"

definition when_text :: "unicode \<Rightarrow> when_time \<Rightarrow> when_time \<Rightarrow> bool \<Rightarrow> utext" where
  "when_text uc start until all_day =
     (let show = (if all_day then day_text else display_local)
      in show (local_of uc start) @ lit '' .. '' @ show (local_of uc until))"

definition details_of :: "unicode \<Rightarrow> app_request \<Rightarrow> (utext \<times> utext) list" where
  "details_of uc r = (case r of
      MessagesSend recipient t service \<Rightarrow> [kv ''to'' recipient, kv ''service'' (service_label service), kv ''text'' t]
    | CalendarCreate title start until calendar location notes all_day \<Rightarrow>
        [kv ''title'' title, kv ''when'' (when_text uc start until all_day)] @ kv_opt ''calendar'' calendar @
        kv_ne ''location'' location @ kv_ne ''notes'' notes
    | RemindersCreate title due l notes \<Rightarrow>
        [kv ''title'' title] @ kv_opt ''when'' (map_option (\<lambda>d. display_local (local_of uc d)) due) @
        kv_opt ''list'' l @ kv_ne ''notes'' notes
    | RemindersComplete i \<Rightarrow> [kv ''id'' i]
    | NotesCreate title t folder \<Rightarrow> [kv ''title'' title] @ kv_opt ''folder'' folder @ kv_ne ''text'' t
    | ShortcutsRun name input \<Rightarrow> [kv ''name'' name] @ kv_ne ''input'' input
    | ClipboardWrite t \<Rightarrow> [kv ''text'' t]
    | OpenUrl url _ \<Rightarrow> [kv ''url'' url]
    | OpenFile p \<Rightarrow> [kv ''path'' p]
    | OpenApp name b \<Rightarrow> [kv ''name'' name] @ kv_opt ''bundle id'' b
    | _ \<Rightarrow> [])"

definition journal_target :: "app_request \<Rightarrow> utext" where
  "journal_target r = (case r of OpenUrl _ host \<Rightarrow> host | OpenFile p \<Rightarrow> p | OpenApp name _ \<Rightarrow> name
     | ShortcutsRun name _ \<Rightarrow> name | _ \<Rightarrow> [])"

section \<open>Bounds on the answer\<close>

definition jput :: "utext \<Rightarrow> json \<Rightarrow> json \<Rightarrow> json" where
  "jput k x v = (case v of JObj kvs \<Rightarrow> JObj (obj_put k x kvs) | _ \<Rightarrow> v)"

definition cap_str :: "utext \<Rightarrow> nat \<Rightarrow> json \<Rightarrow> json \<times> bool" where
  "cap_str key m v =
     (case get_str key v of
        None \<Rightarrow> (v, False)
      | Some s \<Rightarrow> (case cut s m of (short, was) \<Rightarrow> if was then (jput key (JStr short) v, True) else (v, False)))"

definition items_of :: "utext \<Rightarrow> json \<Rightarrow> json list option" where
  "items_of key v = Option.bind (jget key v) as_arr"

definition cap_list :: "utext \<Rightarrow> nat \<Rightarrow> json \<Rightarrow> (nat \<times> bool) \<times> json" where
  "cap_list key m v =
     (case items_of key v of
        None \<Rightarrow> ((0, False), v)
      | Some xs \<Rightarrow> ((length (take m xs), m < length xs), jput key (JArr (take m xs)) v))"

definition map_items :: "utext \<Rightarrow> (json \<Rightarrow> json) \<Rightarrow> json \<Rightarrow> json" where
  "map_items key f v =
     (case items_of key v of None \<Rightarrow> v | Some xs \<Rightarrow> jput key (JArr (map f xs)) v)"

definition keep_keys :: "string list \<Rightarrow> json \<Rightarrow> json" where
  "keep_keys keys v = (case v of JObj kvs \<Rightarrow> JObj (filter (\<lambda>x. fst x \<in> set (map lit keys)) kvs) | _ \<Rightarrow> v)"

definition mark_truncated :: "bool \<Rightarrow> json \<Rightarrow> json" where
  "mark_truncated was v =
     (if was \<or> get_bool (lit ''truncated'') v = Some True then jput (lit ''truncated'') (JBool True) v
      else jput (lit ''truncated'') (JBool False) v)"

definition digits_of :: "utext \<Rightarrow> utext" where
  "digits_of s = filter is_ascii_digit s"

definition contact_field :: "unicode \<Rightarrow> json \<Rightarrow> string \<Rightarrow> utext" where
  "contact_field uc c k = uc_lower uc (case get_str (lit k) c of Some s \<Rightarrow> s | None \<Rightarrow> [])"

definition contact_list :: "json \<Rightarrow> string \<Rightarrow> utext list" where
  "contact_list c k = (case items_of (lit k) c of Some xs \<Rightarrow> List.map_filter as_str xs | None \<Rightarrow> [])"

definition contact_matches :: "unicode \<Rightarrow> utext \<Rightarrow> json \<Rightarrow> bool" where
  "contact_matches uc query c \<longleftrightarrow>
     (let q = uc_lower uc query; qd = digits_of query
      in contains_str q (contact_field uc c ''name'') \<or> contains_str q (contact_field uc c ''organization'') \<or>
         list_ex (\<lambda>e. contains_str q (uc_lower uc e)) (contact_list c ''emails'') \<or>
         CONTACT_DIGITS_MIN \<le> length qd \<and> list_ex (\<lambda>p. contains_str qd (digits_of p)) (contact_list c ''phones''))"

definition bound_message :: "json \<Rightarrow> json" where
  "bound_message m = keep_keys [''time'', ''from'', ''chat'', ''chat_name'', ''text'', ''service'', ''attachments'']
     (fst (cap_str (lit ''text'') MESSAGE_TEXT_MAX m))"

definition bound_contact :: "json \<Rightarrow> json" where
  "bound_contact c = keep_keys [''name'', ''organization'', ''phones'', ''emails'']
     (snd (cap_list (lit ''emails'') 10 (snd (cap_list (lit ''phones'') 10
       (fst (cap_str (lit ''organization'') NAME_MAX (fst (cap_str (lit ''name'') NAME_MAX c))))))))"

definition bound_event :: "json \<Rightarrow> json" where
  "bound_event e = fst (cap_str (lit ''notes'') BODY_MAX (fst (cap_str (lit ''location'') TITLE_MAX
     (fst (cap_str (lit ''title'') TITLE_MAX e)))))"

definition bound_reminder :: "json \<Rightarrow> json" where
  "bound_reminder r = fst (cap_str (lit ''notes'') BODY_MAX (fst (cap_str (lit ''title'') TITLE_MAX r)))"

definition bound_note :: "json \<Rightarrow> json" where
  "bound_note n = fst (cap_str (lit ''snippet'') 200 (fst (cap_str (lit ''title'') TITLE_MAX n)))"

definition bound_rows :: "string \<Rightarrow> nat \<Rightarrow> (json \<Rightarrow> json) \<Rightarrow> json \<Rightarrow> json \<times> nat option" where
  \<comment> \<open>the list cut, each row bounded, the answer marked\<close>
  "bound_rows key m f v =
     (case cap_list (lit key) m v of ((n, was), v1) \<Rightarrow>
        (mark_truncated was (map_items (lit key) f v1), Some n))"

definition bound_contacts :: "unicode \<Rightarrow> utext \<Rightarrow> nat \<Rightarrow> json \<Rightarrow> json \<times> nat option" where
  "bound_contacts uc query limit v =
     (case items_of (lit ''contacts'') v of
        None \<Rightarrow> (mark_truncated False v, Some 0)
      | Some xs \<Rightarrow>
          (let ys = map bound_contact (filter (contact_matches uc query) xs); m = min limit CONTACTS_MAX
           in (mark_truncated (m < length ys) (jput (lit ''contacts'') (JArr (take m ys)) v),
               Some (length (take m ys)))))"

definition bound :: "unicode \<Rightarrow> app_request \<Rightarrow> json \<Rightarrow> json \<times> nat option" where
  "bound uc r v = (case r of
      MessagesRecent _ limit \<Rightarrow> bound_rows ''messages'' (min limit MESSAGES_MAX) bound_message v
    | ContactsSearch query limit \<Rightarrow> bound_contacts uc query limit v
    | CalendarList _ _ _ _ limit \<Rightarrow> bound_rows ''events'' (min limit EVENTS_MAX) bound_event v
    | RemindersList _ _ limit \<Rightarrow> bound_rows ''reminders'' (min limit REMINDERS_MAX) bound_reminder v
    | NotesSearch _ _ limit \<Rightarrow> bound_rows ''notes'' (min limit NOTES_MAX) bound_note v
    | NotesRead _ _ \<Rightarrow>
        (case cap_str (lit ''text'') NOTE_TEXT_MAX (fst (cap_str (lit ''title'') TITLE_MAX v)) of
           (v1, was) \<Rightarrow> (mark_truncated was v1, Some 1))
    | ShortcutsList \<Rightarrow> bound_rows ''shortcuts'' SHORTCUTS_MAX id v
    | ShortcutsRun _ _ \<Rightarrow>
        (case cap_str (lit ''output'') SHORTCUT_OUTPUT_MAX v of (v1, was) \<Rightarrow> (mark_truncated was v1, None))
    | ClipboardRead \<Rightarrow>
        (case cap_str (lit ''text'') CLIPBOARD_MAX v of (v1, was) \<Rightarrow> (mark_truncated was v1, None))
    | _ \<Rightarrow> (v, None))"

section \<open>The gate\<close>

definition APPS_CAP :: utext where "APPS_CAP = lit ''apps''"
definition CALL_SECONDS :: nat where "CALL_SECONDS = 45"
definition SHORTCUT_SECONDS :: nat where "SHORTCUT_SECONDS = 120"
definition NOTIFY_PER_MINUTE :: nat where "NOTIFY_PER_MINUTE = 6"

record app_world =
  aw_uc :: unicode
  aw_nm :: names
  aw_offered :: "app_offer list"
  aw_owner :: owner
  aw_wall :: unix_time
  aw_now :: instant
  aw_disk :: disk
  aw_marked :: "real \<Rightarrow> bool"                 \<comment> \<open>an executable bit is set\<close>
  aw_resolving :: "shared \<Rightarrow> shared"           \<comment> \<open>what happens while a file is looked up\<close>
  aw_call :: "app_request \<Rightarrow> utext \<Rightarrow> (shared \<Rightarrow> shared) \<times> (app_error, json) result option"
    \<comment> \<open>the backend: what happens meanwhile, and its answer, if it comes in time\<close>

definition notify_allowed :: "instant \<Rightarrow> shared \<Rightarrow> bool \<times> shared" where
  "notify_allowed now sh =
     (let q = dropWhile (\<lambda>t. seconds 60 < elapsed now t) (sh_notified sh)
      in if NOTIFY_PER_MINUTE \<le> length q then (False, sh\<lparr>sh_notified := q\<rparr>)
         else (True, sh\<lparr>sh_notified := q @ [now]\<rparr>))"

definition no_folder_shared :: app_error where
  "no_folder_shared = AppDenied
     (lit ''no folder is shared on this computer, and only files in shared folders can be opened'')"

definition resolve_error :: "utext \<Rightarrow> app_error" where
  "resolve_error e =
     (case strip_prefix (lit ''not found: '') e of
        Some m \<Rightarrow> AppNotFound m
      | None \<Rightarrow> AppDenied (case strip_prefix (lit ''denied: '') e of Some m \<Rightarrow> m | None \<Rightarrow> e))"

definition resolve_openable :: "app_world \<Rightarrow> settings \<Rightarrow> utext \<Rightarrow> (app_error, real) result" where
  "resolve_openable w s path =
     (if \<not> f_enabled (st_files s) \<or> f_roots (st_files s) = [] then Err no_folder_shared
      else case resolve_read (aw_disk w) path (f_roots (st_files s)) of
          Err e \<Rightarrow> Err (resolve_error e)
        | Ok p \<Rightarrow>
            (case node_at (aw_disk w) p of
               None \<Rightarrow> Err (AppNotFound path)
             | Some n \<Rightarrow>
                 and_then (openable (if p = [] then [] else last p) (n = NDir)) (\<lambda>_.
                   if (\<exists>c. n = NFile c) \<and> aw_marked w p
                   then Err (AppDenied (lit ''this file is marked as a program and is not opened''))
                   else Ok p)))"

definition app_entry :: "app_world \<Rightarrow> utext \<Rightarrow> utext \<Rightarrow> utext \<Rightarrow> nat option \<Rightarrow> entry" where
  "app_entry w what tgt outcome rows =
     (let e = new_entry (aw_wall w) APPS_CAP what tgt outcome
      in case rows of Some n \<Rightarrow> with_count n e | None \<Rightarrow> e)"

text \<open>
  The second part of an answer: what the backend was asked to do, and the state in which it
  was asked.
\<close>

type_synonym app_answer = "(utext, json) result \<times> (app_request \<times> shared) option \<times> shared"

definition app_refuse :: "app_world \<Rightarrow> slot_ref option \<Rightarrow> utext \<Rightarrow> app_error \<Rightarrow> shared \<Rightarrow> app_answer" where
  "app_refuse w peer what why sh =
     (Err (app_error_text why), None,
      (case why of AppBadRequest _ \<Rightarrow> sh
       | _ \<Rightarrow> sh_record peer (app_entry w what [] (app_error_text why) None) sh))"

definition app_failure_outcome :: "app_error \<Rightarrow> utext" where
  "app_failure_outcome why = (case why of
      AppDenied m \<Rightarrow> lit ''denied: '' @ m
    | AppUnavailable _ \<Rightarrow> lit ''failed: unavailable''
    | AppNotFound _ \<Rightarrow> lit ''failed: not found''
    | AppBadRequest _ \<Rightarrow> lit ''failed: bad request''
    | AppFailed _ \<Rightarrow> lit ''failed'')"

definition call_seconds :: "app_request \<Rightarrow> nat" where
  "call_seconds r = (case r of ShortcutsRun _ _ \<Rightarrow> SHORTCUT_SECONDS | _ \<Rightarrow> CALL_SECONDS)"

definition caller_name :: "slot_ref option \<Rightarrow> shared \<Rightarrow> utext" where
  "caller_name peer sh =
     (case current_slot peer sh of
        None \<Rightarrow> lit ''SNTH''
      | Some r \<Rightarrow> if display_name (slot_at sh r) = [] then lit ''SNTH'' else display_name (slot_at sh r))"

definition carry_out :: "app_world \<Rightarrow> slot_ref option \<Rightarrow> utext \<Rightarrow> utext \<Rightarrow> app_request \<Rightarrow> shared \<Rightarrow> app_answer" where
  "carry_out w peer app what req sh =
     (let (meanwhile, answer) = aw_call w req (caller_name peer sh);
          result = (case answer of
              Some r \<Rightarrow> r
            | None \<Rightarrow> Err (AppUnavailable (app_title app @ lit '' did not answer in '' @ digits (call_seconds req) @ lit '' s'')));
          sh1 = meanwhile sh
      in case result of
           Ok v \<Rightarrow>
             (let (v1, rows) = bound (aw_uc w) req v
              in (Ok v1, Some (req, sh), sh_record peer (app_entry w what (journal_target req) (lit ''ok'') rows) sh1))
         | Err why \<Rightarrow>
             (Err (app_error_text why), Some (req, sh),
              sh_record peer (app_entry w what (journal_target req) (app_failure_outcome why) None) sh1))"

definition notify_gate :: "app_world \<Rightarrow> slot_ref option \<Rightarrow> utext \<Rightarrow> utext \<Rightarrow> app_request \<Rightarrow> shared \<Rightarrow> app_answer" where
  "notify_gate w peer app what req sh =
     (case req of
        NotifyShow _ _ \<Rightarrow>
          (let (ok, sh1) = notify_allowed (aw_now w) sh
           in if ok then carry_out w peer app what req sh1
              else app_refuse w peer what
                (AppDenied (lit ''too many notifications: at most '' @ digits NOTIFY_PER_MINUTE @ lit '' a minute'')) sh1)
      | _ \<Rightarrow> carry_out w peer app what req sh)"

definition app_question :: "app_world \<Rightarrow> utext \<Rightarrow> utext \<Rightarrow> utext \<Rightarrow> app_request \<Rightarrow> remember \<Rightarrow> approval_request" where
  "app_question w sc reason what req rem =
     (new_request APPS_CAP sc reason (lit ''let the synth do '' @ what))
       \<lparr>rq_details := details_of (aw_uc w) req, rq_remember := rem\<rparr>"

definition ask_app ::
  "app_world \<Rightarrow> slot_ref option \<Rightarrow> utext \<Rightarrow> utext \<Rightarrow> utext \<Rightarrow> app_request \<Rightarrow> utext \<Rightarrow> remember \<Rightarrow> shared \<Rightarrow> app_answer" where
  "ask_app w peer app what reason req sc rem sh =
     (let (granted, sh1) =
        (if rem \<noteq> NeverRemember then sh_grant_allows (aw_wall w) peer APPS_CAP sc sh else (False, sh))
      in if granted then notify_gate w peer app what req sh1
         else
           (let (a, sh2) = ask_scoped (aw_owner w) (aw_wall w) peer APPS_CAP sc (app_question w sc reason what req rem) sh1
            in if allow a then notify_gate w peer app what req sh2
               else (Err (lit ''denied: the owner did not allow it''), None,
                     sh_record peer (app_entry w what (journal_target req) (lit ''denied: owner'') None) sh2)))"

definition decide_app ::
  "app_world \<Rightarrow> slot_ref option \<Rightarrow> app_action \<Rightarrow> utext \<Rightarrow> settings \<Rightarrow> app_request \<Rightarrow> shared \<Rightarrow> app_answer" where
  "decide_app w peer spec reason s req sh =
     (let what = aa_app spec @ 46 # aa_action spec
      in case app_decide (aw_uc w) (a_mode (st_apps s)) (aa_risk spec) req of
           AppPass \<Rightarrow> notify_gate w peer (aa_app spec) what req sh
         | AppAsk sc rem \<Rightarrow> ask_app w peer (aa_app spec) what reason req sc rem sh)"

definition checked_app :: "app_world \<Rightarrow> slot_ref option \<Rightarrow> app_action \<Rightarrow> json \<Rightarrow> settings \<Rightarrow> shared \<Rightarrow> app_answer" where
  \<comment> \<open>from the parsing on\<close>
  "checked_app w peer spec params s sh =
     (let what = aa_app spec @ 46 # aa_action spec; reason = str_param params (lit ''reason'')
      in case parse_app_request (aw_uc w) (aw_nm w) (aa_app spec) (aa_action spec) params of
           Err why \<Rightarrow> app_refuse w peer what why sh
         | Ok (OpenFile path) \<Rightarrow>
             (let sh1 = aw_resolving w sh
              in case resolve_openable w s path of
                   Err why \<Rightarrow> app_refuse w peer what why sh1
                 | Ok p \<Rightarrow> decide_app w peer spec reason s (OpenFile (place_text p)) sh1)
         | Ok req \<Rightarrow> decide_app w peer spec reason s req sh)"

definition has_action :: "app_world \<Rightarrow> utext \<Rightarrow> utext \<Rightarrow> bool" where
  "has_action w app action \<longleftrightarrow> list_ex (\<lambda>x. fst x = app \<and> action \<in> set (snd x)) (aw_offered w)"

definition serve_app :: "app_world \<Rightarrow> slot_ref option \<Rightarrow> app_action \<Rightarrow> json \<Rightarrow> shared \<Rightarrow> app_answer" where
  "serve_app w peer spec params sh =
     (let what = aa_app spec @ 46 # aa_action spec; s = sh_settings sh
      in if sh_paused sh then app_refuse w peer what (AppDenied (lit ''apps are paused by the owner'')) sh
         else if \<not> a_enabled (st_apps s)
         then app_refuse w peer what (AppDenied (lit ''apps are turned off on this computer'')) sh
         else if \<not> has_action w (aa_app spec) (aa_action spec)
         then app_refuse w peer what (AppUnavailable (app_title (aa_app spec) @ lit '' ('' @ aa_action spec @
                lit '') is not available on this computer'')) sh
         else if \<not> app_on (st_apps s) (aa_app spec)
         then app_refuse w peer what (AppDenied (app_title (aa_app spec) @
                lit '' is turned off on this computer; only the owner can turn it on in the app'')) sh
         else checked_app w peer spec params s sh)"

definition method_action :: "utext \<Rightarrow> (utext \<times> utext) option" where
  "method_action m =
     Option.bind (strip_prefix (lit ''apps.'') m) (\<lambda>rest.
       if 46 \<in> set rest
       then Some (takeWhile (\<lambda>c. c \<noteq> 46) rest, tl (dropWhile (\<lambda>c. c \<noteq> 46) rest)) else None)"

definition handle_app :: "app_world \<Rightarrow> slot_ref option \<Rightarrow> utext \<Rightarrow> json \<Rightarrow> shared \<Rightarrow> app_answer" where
  "handle_app w peer m params sh =
     (case Option.bind (method_action m) (\<lambda>(app, action). find_action app action) of
        None \<Rightarrow> (Err (lit ''denied: unknown method '' @ quoted m), None, sh)
      | Some spec \<Rightarrow> serve_app w peer spec params sh)"

section \<open>Who may use an app\<close>

definition answered_yes :: "app_world \<Rightarrow> app_request \<Rightarrow> utext \<Rightarrow> remember \<Rightarrow> bool" where
  \<comment> \<open>the owner was shown the call in full, and said yes\<close>
  "answered_yes w req sc rem \<longleftrightarrow> (\<exists>q meanwhile a. aw_owner w q = InTime meanwhile a \<and> allow a \<and>
     rq_capability q = APPS_CAP \<and> rq_details q = details_of (aw_uc w) req \<and> rq_scope q = sc \<and> rq_remember q = rem)"

definition answered :: "app_world \<Rightarrow> apps_mode \<Rightarrow> app_action \<Rightarrow> app_request \<Rightarrow> bool" where
  \<comment> \<open>the question was the one the policy asks\<close>
  "answered w mode spec req \<longleftrightarrow> (\<exists>sc rem. app_decide (aw_uc w) mode (aa_risk spec) req = AppAsk sc rem \<and>
     answered_yes w req sc rem)"

definition before_decision :: "app_world \<Rightarrow> app_request \<Rightarrow> shared \<Rightarrow> shared" where
  "before_decision w req sh = (case req of OpenFile _ \<Rightarrow> aw_resolving w sh | _ \<Rightarrow> sh)"

definition remembered_yes :: "app_world \<Rightarrow> slot_ref option \<Rightarrow> apps_mode \<Rightarrow> app_request \<Rightarrow> shared \<Rightarrow> bool" where
  "remembered_yes w peer mode req sh \<longleftrightarrow> mode \<noteq> AppsAsk \<and>
     \<not> (\<exists>name input. req = ShortcutsRun name input \<and> input \<noteq> []) \<and>
     fst (sh_grant_allows (aw_wall w) peer APPS_CAP (scope_of (aw_uc w) req) (before_decision w req sh))"

lemma carry_out_called:
  "carry_out w peer app what req sh = (res, Some (r, st), after) \<Longrightarrow> r = req \<and> st = sh"
  by (auto simp: carry_out_def Let_def case_prod_unfold split: sum.splits)

lemma app_refuse_called [simp]: "app_refuse w peer what why sh = (res, Some x, after) \<longleftrightarrow> False"
  by (simp add: app_refuse_def)

lemma notify_gate_called:
  "notify_gate w peer app what req sh = (res, Some (r, st), after) \<Longrightarrow> r = req"
  by (auto simp: notify_gate_def Let_def case_prod_unfold dest: carry_out_called split: app_request.splits if_splits)

lemma ask_app_called:
  assumes "ask_app w peer app what reason req sc rem sh = (res, Some (r, st), after)"
  shows "r = req \<and> (answered_yes w req sc rem \<or>
    rem \<noteq> NeverRemember \<and> fst (sh_grant_allows (aw_wall w) peer APPS_CAP sc sh))"
proof (cases "rem \<noteq> NeverRemember \<and> fst (sh_grant_allows (aw_wall w) peer APPS_CAP sc sh)")
  case True
  with assms show ?thesis by (auto simp: ask_app_def Let_def case_prod_unfold dest: notify_gate_called)
next
  case False
  define sh1 where "sh1 = snd (if rem \<noteq> NeverRemember then sh_grant_allows (aw_wall w) peer APPS_CAP sc sh else (False, sh))"
  define q where "q = app_question w sc reason what req rem"
  define ask where "ask = ask_scoped (aw_owner w) (aw_wall w) peer APPS_CAP sc q sh1"
  have "(if allow (fst ask) then notify_gate w peer app what req (snd ask)
         else (Err (lit ''denied: the owner did not allow it''), None,
               sh_record peer (app_entry w what (journal_target req) (lit ''denied: owner'') None) (snd ask)))
        = (res, Some (r, st), after)"
    using assms False unfolding ask_app_def Let_def case_prod_unfold ask_def q_def sh1_def by (cases rem) auto
  then have yes: "allow (fst ask)" and r: "r = req" by (auto dest: notify_gate_called split: if_splits)
  from yes [unfolded ask_def ask_scoped_allow] obtain m a
    where "aw_owner w (ask_question peer q sh1) = InTime m a" "allow a" by blast
  moreover have "rq_capability q = APPS_CAP" "rq_details q = details_of (aw_uc w) req"
      "rq_scope q = sc" "rq_remember q = rem"
    by (simp_all add: q_def app_question_def new_request_def)
  ultimately have "answered_yes w req sc rem" unfolding answered_yes_def by (metis ask_question_keeps)
  with r show ?thesis by simp
qed

definition asks_first :: "apps_mode \<Rightarrow> app_action \<Rightarrow> bool" where
  \<comment> \<open>a change of something asks unless the owner's mode is to let it; a message asks in every mode\<close>
  "asks_first mode spec \<longleftrightarrow> aa_risk spec = RiskAct \<and> mode \<noteq> AppsAuto \<or>
     aa_app spec = lit ''messages'' \<and> aa_action spec = lit ''send''"

lemma app_decide_pass:
  "app_decide uc mode r req = AppPass \<Longrightarrow> (\<forall>a b c. req \<noteq> MessagesSend a b c) \<and> (r = RiskAct \<longrightarrow> mode = AppsAuto)"
  by (cases req) (auto simp: app_decide_def split: risk.splits apps_mode.splits)

lemma app_decide_ask:
  assumes "app_decide uc mode r req = AppAsk sc rem"
  shows "sc = scope_of uc req \<and> (mode = AppsAsk \<longrightarrow> rem = NeverRemember) \<and>
    ((\<exists>name input. req = ShortcutsRun name input \<and> input \<noteq> []) \<longrightarrow> rem = NeverRemember) \<and>
    ((\<exists>a b c. req = MessagesSend a b c) \<longrightarrow> rem \<in> {NeverRemember, AlwaysOnly})"
  using assms
  by (cases req) (auto simp: app_decide_def scope_of_def split: risk.splits apps_mode.splits if_splits)

lemma decide_app_called:
  assumes "decide_app w peer spec reason s req sh = (res, Some (r, st), after)"
    and "action_of req = (aa_app spec, aa_action spec)"
  shows "r = req \<and> (asks_first (a_mode (st_apps s)) spec \<longrightarrow> answered w (a_mode (st_apps s)) spec req \<or>
    a_mode (st_apps s) \<noteq> AppsAsk \<and> \<not> (\<exists>name input. req = ShortcutsRun name input \<and> input \<noteq> []) \<and>
    fst (sh_grant_allows (aw_wall w) peer APPS_CAP (scope_of (aw_uc w) req) sh))"
proof (cases "app_decide (aw_uc w) (a_mode (st_apps s)) (aa_risk spec) req")
  case AppPass
  from app_decide_pass [OF this] have "\<not> asks_first (a_mode (st_apps s)) spec"
    using assms(2) by (cases req) (auto simp: asks_first_def)
  then show ?thesis using assms(1) AppPass by (auto simp: decide_app_def Let_def dest: notify_gate_called)
next
  case (AppAsk sc rem)
  then have "ask_app w peer (aa_app spec) (aa_app spec @ 46 # aa_action spec) reason req sc rem sh = (res, Some (r, st), after)"
    using assms(1) by (simp add: decide_app_def Let_def)
  from ask_app_called [OF this] app_decide_ask [OF AppAsk] AppAsk show ?thesis by (auto simp: answered_def)
qed

lemma checked_app_called:
  assumes "checked_app w peer spec params s sh = (res, Some (r, st), after)" and "unicode_ok (aw_uc w)"
  shows "action_of r = (aa_app spec, aa_action spec) \<and>
    ((\<exists>p. r = OpenFile p) \<or> request_ok (aw_uc w) r) \<and>
    (asks_first (a_mode (st_apps s)) spec \<longrightarrow> answered w (a_mode (st_apps s)) spec r \<or> remembered_yes w peer (a_mode (st_apps s)) r sh)"
proof -
  let ?parse = "parse_app_request (aw_uc w) (aw_nm w) (aa_app spec) (aa_action spec) params"
  obtain req0 where p: "?parse = Ok req0"
    using assms(1) by (auto simp: checked_app_def Let_def split: sum.splits)
  note ok = parsed_call_ok [OF assms(2) p]
  show ?thesis
  proof (cases "\<exists>path. req0 = OpenFile path")
    case True
    then obtain path real where req0: "req0 = OpenFile path"
      and d: "decide_app w peer spec (str_param params (lit ''reason'')) s (OpenFile (place_text real)) (aw_resolving w sh)
        = (res, Some (r, st), after)"
      using assms(1) p by (auto simp: checked_app_def Let_def split: sum.splits)
    have "action_of (OpenFile (place_text real)) = (aa_app spec, aa_action spec)" using ok req0 by auto
    from decide_app_called [OF d this] this show ?thesis by (auto simp: remembered_yes_def before_decision_def)
  next
    case False
    then have d: "decide_app w peer spec (str_param params (lit ''reason'')) s req0 sh = (res, Some (r, st), after)"
      using assms(1) p by (cases req0) (auto simp: checked_app_def Let_def)
    have "before_decision w req0 sh = sh" using False by (cases req0) (auto simp: before_decision_def)
    with decide_app_called [OF d] ok show ?thesis by (auto simp: remembered_yes_def)
  qed
qed

lemma strip_prefix_Some: "strip_prefix p s = Some r \<Longrightarrow> s = p @ r"
  by (auto simp: strip_prefix_def starts_with_def split: if_splits) (metis append_take_drop_id)

lemma split_at_dot: "46 \<in> set s \<Longrightarrow> s = takeWhile (\<lambda>c. c \<noteq> 46) s @ 46 # tl (dropWhile (\<lambda>c. c \<noteq> (46::uchar)) s)"
proof -
  assume "46 \<in> set s"
  then have "dropWhile (\<lambda>c. c \<noteq> 46) s \<noteq> []" by (auto simp: dropWhile_eq_Nil_conv)
  moreover from this have "hd (dropWhile (\<lambda>c. c \<noteq> 46) s) = 46" using hd_dropWhile by blast
  ultimately have "dropWhile (\<lambda>c. c \<noteq> 46) s = 46 # tl (dropWhile (\<lambda>c. c \<noteq> 46) s)" by (metis list.collapse)
  then show ?thesis by (metis takeWhile_dropWhile_id)
qed

lemma method_action_Some: "method_action m = Some (app, action) \<Longrightarrow> m = lit ''apps.'' @ app @ 46 # action"
  using split_at_dot by (auto simp: method_action_def bind_eq_Some_conv dest!: strip_prefix_Some split: if_splits)

lemma find_action_Some: "find_action app action = Some spec \<Longrightarrow> spec \<in> set CATALOG \<and> aa_app spec = app \<and> aa_action spec = action"
  unfolding find_action_def by (drule find_SomeD) simp

lemma handle_app_called:
  assumes "handle_app w peer m params sh = (res, Some (r, st), after)"
  shows "\<exists>spec. spec \<in> set CATALOG \<and> m = lit ''apps.'' @ aa_app spec @ 46 # aa_action spec \<and>
    \<not> sh_paused sh \<and> a_enabled (st_apps (sh_settings sh)) \<and> has_action w (aa_app spec) (aa_action spec) \<and>
    app_on (st_apps (sh_settings sh)) (aa_app spec) \<and>
    checked_app w peer spec params (sh_settings sh) sh = (res, Some (r, st), after)"
proof -
  from assms obtain app action spec where m: "method_action m = Some (app, action)" "find_action app action = Some spec"
    and serve: "serve_app w peer spec params sh = (res, Some (r, st), after)"
    by (auto simp: handle_app_def bind_eq_Some_conv split: option.splits)
  from serve have "\<not> sh_paused sh \<and> a_enabled (st_apps (sh_settings sh)) \<and> has_action w (aa_app spec) (aa_action spec) \<and>
    app_on (st_apps (sh_settings sh)) (aa_app spec) \<and>
    checked_app w peer spec params (sh_settings sh) sh = (res, Some (r, st), after)"
    by (auto simp: serve_app_def Let_def split: if_splits)
  with method_action_Some [OF m(1)] find_action_Some [OF m(2)] show ?thesis by blast
qed


section \<open>An example\<close>

lemmas open_app_method = find_action_def CATALOG_def catalog_row_def method_action_def

definition app_ready :: "app_world \<Rightarrow> app_action \<Rightarrow> shared \<Rightarrow> bool" where
  "app_ready w spec sh \<longleftrightarrow> \<not> sh_paused sh \<and> a_enabled (st_apps (sh_settings sh)) \<and>
     has_action w (aa_app spec) (aa_action spec) \<and> app_on (st_apps (sh_settings sh)) (aa_app spec)"

definition plain_request :: "app_request \<Rightarrow> bool" where
  \<comment> \<open>nothing is looked up and nothing counted for it\<close>
  "plain_request r \<longleftrightarrow> (case r of OpenFile _ \<Rightarrow> False | NotifyShow _ _ \<Rightarrow> False | _ \<Rightarrow> True)"

lemma handle_app_ready:
  assumes "method_action m = Some (aa_app spec, aa_action spec)" "find_action (aa_app spec) (aa_action spec) = Some spec"
    "app_ready w spec sh" "parse_app_request (aw_uc w) (aw_nm w) (aa_app spec) (aa_action spec) params = Ok req"
    "plain_request req"
  shows "handle_app w peer m params sh =
    decide_app w peer spec (str_param params (lit ''reason'')) (sh_settings sh) req sh"
  using assms
  by (cases req) (simp_all add: handle_app_def serve_app_def app_ready_def checked_app_def plain_request_def Let_def)

lemma plain_carried:
  "plain_request req \<Longrightarrow> \<exists>res after. notify_gate w peer app what req sh = (res, Some (req, sh), after)"
  by (cases req) (auto simp: plain_request_def notify_gate_def carry_out_def Let_def case_prod_unfold split: sum.split)

lemma answer_ask_keeps:
  "sh_paused (snd (answer_ask now ak a sh)) = sh_paused sh" "sh_settings (snd (answer_ask now ak a sh)) = sh_settings sh"
  "sh_asked (snd (answer_ask now ak a sh)) = sh_asked sh"
  by (simp_all add: answer_ask_def persist_grants_def save_locked_def set_persisted_def sh_settings_def Let_def)

text \<open>A computer with every app, for the examples.\<close>

definition app_world_with :: "owner \<Rightarrow> app_world" where
  "app_world_with owner = \<lparr>aw_uc = ascii_unicode, aw_nm = example_names,
     aw_offered = map (\<lambda>a. (a, actions_of a)) APPS, aw_owner = owner, aw_wall = 0, aw_now = 0,
     aw_disk = [([lit ''d''], NDir), ([lit ''d'', lit ''a.txt''], NFile [])], aw_marked = (\<lambda>_. False),
     aw_resolving = id, aw_call = (\<lambda>_ _. (id, Some (Ok (JObj []))))\<rparr>"

definition app_shared :: "apps_mode \<Rightarrow> shared" where
  "app_shared mode = blank_shared (default_settings\<lparr>
     st_apps := \<lparr>a_enabled = True, a_mode = mode, a_apps = (\<lambda>_. Some True)\<rparr>,
     st_files := (st_files default_settings)\<lparr>f_enabled := True,
       f_roots := [\<lparr>r_path = lit ''/d'', r_write = False\<rparr>]\<rparr>\<rparr>)"

lemma app_shared_facts [simp]:
  "\<not> sh_paused (app_shared mode)" "a_enabled (st_apps (sh_settings (app_shared mode)))"
  "a_mode (st_apps (sh_settings (app_shared mode))) = mode" "app_on (st_apps (sh_settings (app_shared mode))) app"
  by (simp_all add: app_shared_def blank_shared_def make_shared_def sh_settings_def app_on_def)

lemma app_world_facts [simp]:
  "aw_uc (app_world_with owner) = ascii_unicode" "aw_nm (app_world_with owner) = example_names"
  "aw_owner (app_world_with owner) = owner" "aw_wall (app_world_with owner) = 0"
  by (simp_all add: app_world_with_def)

lemma send_known:
  "method_action (lit ''apps.messages.send'') = Some (lit ''messages'', lit ''send'')"
  "find_action (lit ''messages'') (lit ''send'') = Some (catalog_row ''messages'' ''send'' RiskAct)"
  "has_action (app_world_with owner) (lit ''messages'') (lit ''send'')"
  by (simp_all add: open_app_method strip_prefix_def starts_with_def has_action_def app_world_with_def APPS_def actions_of_def)
    (simp_all add: lit_def)

lemma example_sent:
  "\<exists>res after st. handle_app (app_world_with (\<lambda>_. InTime f approval_once)) None (lit ''apps.messages.send'') example_send
     (app_shared AppsAsk) = (res, Some (MessagesSend (lit ''+7916123'') (lit ''hi'') IMessage, st), after)"
proof -
  let ?w = "app_world_with (\<lambda>_. InTime f approval_once)" and ?spec = "catalog_row ''messages'' ''send'' RiskAct"
    and ?req = "MessagesSend (lit ''+7916123'') (lit ''hi'') IMessage" and ?sh = "app_shared AppsAsk"
  have spec: "aa_app ?spec = lit ''messages''" "aa_action ?spec = lit ''send''" "aa_risk ?spec = RiskAct"
    by (simp_all add: catalog_row_def)
  have "handle_app ?w None (lit ''apps.messages.send'') example_send ?sh =
      decide_app ?w None ?spec (str_param example_send (lit ''reason'')) (sh_settings ?sh) ?req ?sh"
    by (rule handle_app_ready) (simp_all add: spec send_known app_ready_def example_send_parsed plain_request_def)
  also have "\<dots> = ask_app ?w None (lit ''messages'') (lit ''messages'' @ 46 # lit ''send'') (str_param example_send (lit ''reason''))
      ?req (lit ''messages.send:'' @ lit ''+7916123'') NeverRemember ?sh"
    by (simp add: decide_app_def app_decide_def spec)
  finally have run: "handle_app ?w None (lit ''apps.messages.send'') example_send ?sh = \<dots>" .
  obtain st where "ask_app ?w None (lit ''messages'') (lit ''messages'' @ 46 # lit ''send'') (str_param example_send (lit ''reason''))
      ?req (lit ''messages.send:'' @ lit ''+7916123'') NeverRemember ?sh =
      notify_gate ?w None (lit ''messages'') (lit ''messages'' @ 46 # lit ''send'') ?req st"
    by (simp add: ask_app_def Let_def case_prod_unfold ask_scoped_def answer_ask_allow approval_once_def)
  moreover have "plain_request ?req" by (simp add: plain_request_def)
  ultimately show ?thesis using plain_carried run by metis
qed


definition always_shared :: "utext \<Rightarrow> shared" where
  \<comment> \<open>with one answer remembered for ever\<close>
  "always_shared sc = (app_shared AppsAskNew)
     \<lparr>sh_grants := [\<lparr>g_synth = [], g_capability = APPS_CAP, g_scope = sc, g_until = Some 0\<rparr>]\<rparr>"

lemma always_shared_facts [simp]:
  "sh_settings (always_shared sc) = sh_settings (app_shared AppsAskNew)" "\<not> sh_paused (always_shared sc)"
  "fst (sh_grant_allows now None APPS_CAP sc (always_shared sc))"
proof -
  show "sh_settings (always_shared sc) = sh_settings (app_shared AppsAskNew)" by (simp add: always_shared_def sh_settings_def)
  show "\<not> sh_paused (always_shared sc)" using app_shared_facts(1) [of AppsAskNew] by (simp add: always_shared_def)
  have "current_synth_id None (always_shared sc) = []"
    by (simp add: always_shared_def app_shared_def blank_shared_def make_shared_def current_synth_id_def current_slot_def)
  then show "fst (sh_grant_allows now None APPS_CAP sc (always_shared sc))"
    by (simp add: sh_grant_allows_def grant_allows_def Let_def prune_def live_def) (simp add: always_shared_def)
qed

lemma has_action_names [simp]: "has_action (w\<lparr>aw_nm := nm\<rparr>) app action = has_action w app action"
  by (simp add: has_action_def)

lemma offers_open [simp]:
  "has_action (app_world_with owner) (lit ''open'') (lit ''app'')" "has_action (app_world_with owner) (lit ''open'') (lit ''url'')"
  by (simp_all add: open_app_method has_action_def app_world_with_def APPS_def actions_of_def)

section \<open>Messages\<close>

text \<open>
  C27: a message goes out, in whatever mode, only to the person and with the text that the owner had
  in full on the screen of the question he said yes to; the one thing that can stand for the
  question is a remembered answer for exactly this recipient, and not in the mode that always
  asks. What he may have remembered is never less than ``always'', or nothing at all.
\<close>

theorem message_goes_as_shown:
  assumes "handle_app w peer m params sh = (res, Some (MessagesSend recipient t service, st), after)"
    and "unicode_ok (aw_uc w)"
  shows "(\<exists>q meanwhile a. aw_owner w q = InTime meanwhile a \<and> allow a \<and>
       rq_details q = [(lit ''to'', recipient), (lit ''service'', service_label service), (lit ''text'', t)] \<and>
       rq_scope q = lit ''messages.send:'' @ recipient \<and>
       rq_remember q = (if a_mode (st_apps (sh_settings sh)) = AppsAsk then NeverRemember else AlwaysOnly)) \<or>
     a_mode (st_apps (sh_settings sh)) \<noteq> AppsAsk \<and>
     fst (sh_grant_allows (aw_wall w) peer APPS_CAP (lit ''messages.send:'' @ recipient) sh)"
proof -
  let ?mode = "a_mode (st_apps (sh_settings sh))"
  obtain spec where "checked_app w peer spec params (sh_settings sh) sh = (res, Some (MessagesSend recipient t service, st), after)"
    using handle_app_called [OF assms(1)] by blast
  from checked_app_called [OF this assms(2)] have
    "answered w ?mode spec (MessagesSend recipient t service) \<or> remembered_yes w peer ?mode (MessagesSend recipient t service) sh"
    by (auto simp: asks_first_def)
  then show ?thesis
    by (auto simp: answered_def answered_yes_def app_decide_def details_of_def kv_def remembered_yes_def
        scope_of_def before_decision_def) blast+
qed

theorem message_goes_as_shown_witness:
  "\<exists>q. aw_owner (app_world_with (\<lambda>_. InTime id approval_once)) q = InTime id approval_once \<and>
     rq_details q = [(lit ''to'', lit ''+7916123''), (lit ''service'', lit ''imessage''), (lit ''text'', lit ''hi'')]"
proof -
  obtain res after st where "handle_app (app_world_with (\<lambda>_. InTime id approval_once)) None (lit ''apps.messages.send'')
      example_send (app_shared AppsAsk) = (res, Some (MessagesSend (lit ''+7916123'') (lit ''hi'') IMessage, st), after)"
    using example_sent by blast
  from message_goes_as_shown [OF this] show ?thesis by (auto simp: ascii_unicode_ok)
qed


section \<open>Files\<close>

lemma resolve_openable_ok:
  assumes "resolve_openable w s path = Ok p"
  shows "f_enabled (st_files s) \<and> (\<exists>r \<in> set (f_roots (st_files s)). inside (aw_disk w) p r) \<and> real_place (aw_disk w) p \<and>
    (let ext = to_ascii_lowercase (extension (if p = [] then [] else last p))
     in if node_at (aw_disk w) p = Some NDir then ext = [] else ext \<in> set OPENABLE_EXTENSIONS) \<and>
    \<not> ((\<exists>c. node_at (aw_disk w) p = Some (NFile c)) \<and> aw_marked w p)"
proof -
  define name where "name = (if p = [] then [] else last p)"
  from assms obtain n where on: "f_enabled (st_files s)"
    and r: "resolve_read (aw_disk w) path (f_roots (st_files s)) = Ok p"
    and n: "node_at (aw_disk w) p = Some n" "openable name (n = NDir) = Ok ()" "\<not> ((\<exists>c. n = NFile c) \<and> aw_marked w p)"
    by (auto simp: resolve_openable_def name_def split: if_splits sum.splits option.splits)
  from r have "canonicalize (aw_disk w) (walk_of path) = Some p" "which_root (aw_disk w) p (f_roots (st_files s)) \<noteq> None"
    by (auto simp: resolve_read_def split: if_splits option.splits)
  then have "real_place (aw_disk w) p" "\<exists>r \<in> set (f_roots (st_files s)). inside (aw_disk w) p r"
    using canonicalize_real which_root_Some by blast+
  moreover have "if n = NDir then to_ascii_lowercase (extension name) = [] else to_ascii_lowercase (extension name) \<in> set OPENABLE_EXTENSIONS"
    using n(2) by (auto simp: openable_def Let_def split: if_splits)
  ultimately show ?thesis using on n by (auto simp: Let_def name_def)
qed

text \<open>
  a file is opened for a synth only at a place without links inside a folder the owner shares,
  while sharing is on, when its name is that of a document, a picture, a sound or a film, or
  it is a folder with a plain name, and it is not marked as a program.
\<close>

theorem opened_file_is_shared_document:
  assumes "handle_app w peer m params sh = (res, Some (OpenFile path, st), after)"
  shows "\<exists>p. path = place_text p \<and> f_enabled (st_files (sh_settings sh)) \<and>
    (\<exists>r \<in> set (f_roots (st_files (sh_settings sh))). inside (aw_disk w) p r) \<and> real_place (aw_disk w) p \<and>
    (let ext = to_ascii_lowercase (extension (if p = [] then [] else last p))
     in if node_at (aw_disk w) p = Some NDir then ext = [] else ext \<in> set OPENABLE_EXTENSIONS) \<and>
    \<not> ((\<exists>c. node_at (aw_disk w) p = Some (NFile c)) \<and> aw_marked w p)"
proof -
  obtain spec where c: "checked_app w peer spec params (sh_settings sh) sh = (res, Some (OpenFile path, st), after)"
    using handle_app_called [OF assms] by blast
  have same: "decide_app w peer spec reason s req sh0 = (res, Some (OpenFile path, st), after) \<Longrightarrow> req = OpenFile path"
    for reason s req sh0
    by (auto simp: decide_app_def Let_def split: app_decision.splits dest: notify_gate_called ask_app_called)
  have "\<exists>raw p. resolve_openable w (sh_settings sh) raw = Ok p \<and> path = place_text p"
    using c by (auto simp: checked_app_def Let_def split: sum.splits app_request.splits dest!: same)
  then show ?thesis using resolve_openable_ok by blast
qed

lemma open_file_known:
  "method_action (lit ''apps.open.file'') = Some (lit ''open'', lit ''file'')"
  "find_action (lit ''open'') (lit ''file'') = Some (catalog_row ''open'' ''file'' RiskAct)"
  "has_action (app_world_with owner) (lit ''open'') (lit ''file'')"
  by (simp_all add: open_app_method strip_prefix_def starts_with_def has_action_def app_world_with_def APPS_def actions_of_def)
    (simp_all add: lit_def)

lemma example_opened:
  "resolve_openable (app_world_with owner) (sh_settings (app_shared mode)) (lit ''/d/a.txt'') = Ok [lit ''d'', lit ''a.txt'']"
proof -
  let ?d = "[([lit ''d''], NDir), ([lit ''d'', lit ''a.txt''], NFile [])]"
    and ?roots = "[\<lparr>r_path = lit ''/d'', r_write = False\<rparr>]"
  have "resolve_read ?d (lit ''/d/a.txt'') ?roots = Ok [lit ''d'', lit ''a.txt'']" by code_simp
  moreover have "node_at ?d [lit ''d'', lit ''a.txt''] = Some (NFile [])" by code_simp
  moreover have "openable (lit ''a.txt'') False = Ok ()" by code_simp
  moreover have "f_enabled (st_files (sh_settings (app_shared mode)))" "f_roots (st_files (sh_settings (app_shared mode))) = ?roots"
    by (simp_all add: app_shared_def blank_shared_def make_shared_def sh_settings_def)
  moreover have "aw_disk (app_world_with owner) = ?d" "\<not> aw_marked (app_world_with owner) p" for p
    by (simp_all add: app_world_with_def)
  ultimately show ?thesis by (simp add: resolve_openable_def and_then_def)
qed

theorem opened_file_is_shared_document_witness:
  "\<exists>p. lit ''/d/a.txt'' = place_text p \<and> real_place (aw_disk (app_world_with quiet_owner)) p"
proof -
  let ?w = "app_world_with quiet_owner" and ?sh = "app_shared AppsAuto" and ?spec = "catalog_row ''open'' ''file'' RiskAct"
    and ?params = "JObj [(lit ''path'', JStr (lit ''/d/a.txt''))]"
  have spec: "aa_app ?spec = lit ''open''" "aa_action ?spec = lit ''file''" "aa_risk ?spec = RiskAct"
    by (simp_all add: catalog_row_def)
  have "trim (lit ''/d/a.txt'') = lit ''/d/a.txt''" "\<not> list_ex hidden (lit ''/d/a.txt'')"
    by (simp_all add: lit_def hidden_def is_control_def trim_def trim_start_def is_whitespace_def)
  then have p: "parse_app_request ascii_unicode example_names (lit ''open'') (lit ''file'') ?params = Ok (OpenFile (lit ''/d/a.txt''))"
    by (simp add: parse_app_request_def parse_open_file_def str_param_def json_defs)
  have place: "place_text [lit ''d'', lit ''a.txt''] = lit ''/d/a.txt''" by code_simp
  have "handle_app ?w None (lit ''apps.open.file'') ?params ?sh =
      decide_app ?w None ?spec (str_param ?params (lit ''reason'')) (sh_settings ?sh) (OpenFile (lit ''/d/a.txt'')) (aw_resolving ?w ?sh)"
  proof -
    have "handle_app ?w None (lit ''apps.open.file'') ?params ?sh = checked_app ?w None ?spec ?params (sh_settings ?sh) ?sh"
      by (simp add: handle_app_def open_file_known serve_app_def spec Let_def)
    then show ?thesis unfolding checked_app_def Let_def spec app_world_facts p by (simp add: example_opened place)
  qed
  also have "\<dots> = carry_out ?w None (lit ''open'') (lit ''open'' @ 46 # lit ''file'') (OpenFile (lit ''/d/a.txt'')) (aw_resolving ?w ?sh)"
    by (simp add: decide_app_def app_decide_def spec notify_gate_def)
  finally obtain res after st where "handle_app ?w None (lit ''apps.open.file'') ?params ?sh =
      (res, Some (OpenFile (lit ''/d/a.txt''), st), after)"
    unfolding carry_out_def Let_def case_prod_unfold by (auto split: sum.splits)
  from opened_file_is_shared_document [OF this] show ?thesis by blast
qed


section \<open>What the gate does not look at again\<close>

text \<open>
  what the owner switches off while he is asked about an app is not looked at again: when the
  apps, or this one, are turned off while the question is open, and the answer that comes is a
  yes, the app is called all the same.
\<close>

theorem switch_off_while_asked_ignored:
  assumes "method_action m = Some (aa_app spec, aa_action spec)" "find_action (aa_app spec) (aa_action spec) = Some spec"
    and "app_ready w spec sh" and "plain_request req"
    and "parse_app_request (aw_uc w) (aw_nm w) (aa_app spec) (aa_action spec) params = Ok req"
    and "app_decide (aw_uc w) (a_mode (st_apps (sh_settings sh))) (aa_risk spec) req = AppAsk sc rem"
    and "rem = NeverRemember \<or> \<not> fst (sh_grant_allows (aw_wall w) peer APPS_CAP sc sh)"
    and "aw_owner w = (\<lambda>q. InTime meanwhile a)" and "allow a"
    and "\<And>s. \<not> (a_enabled (st_apps (sh_settings (meanwhile s))) \<and> app_on (st_apps (sh_settings (meanwhile s))) (aa_app spec))"
  shows "\<exists>res st after. handle_app w peer m params sh = (res, Some (req, st), after) \<and>
    \<not> (a_enabled (st_apps (sh_settings st)) \<and> app_on (st_apps (sh_settings st)) (aa_app spec))"
proof -
  let ?what = "aa_app spec @ 46 # aa_action spec" and ?reason = "str_param params (lit ''reason'')"
  define sh1 where "sh1 = snd (if rem \<noteq> NeverRemember then sh_grant_allows (aw_wall w) peer APPS_CAP sc sh else (False, sh))"
  define ask where "ask = ask_scoped (aw_owner w) (aw_wall w) peer APPS_CAP sc (app_question w sc ?reason ?what req rem) sh1"
  have yes: "allow (fst ask)" and st: "\<not> (a_enabled (st_apps (sh_settings (snd ask))) \<and> app_on (st_apps (sh_settings (snd ask))) (aa_app spec))"
    using assms(8,9,10) by (simp_all add: ask_def ask_scoped_def Let_def answer_ask_allow answer_ask_keeps)
  have "handle_app w peer m params sh = ask_app w peer (aa_app spec) ?what ?reason req sc rem sh"
    using handle_app_ready [OF assms(1,2,3,5,4)] by (simp add: decide_app_def Let_def assms(6))
  also have "\<dots> = notify_gate w peer (aa_app spec) ?what req (snd ask)"
    using assms(7) yes unfolding ask_app_def Let_def case_prod_unfold ask_def sh1_def by (cases rem) auto
  finally show ?thesis using plain_carried [OF assms(4), of w peer "aa_app spec" ?what "snd ask"] st by metis
qed

definition apps_off :: "shared \<Rightarrow> shared" where
  "apps_off s = snd (mutate_settings (\<lambda>x. x\<lparr>st_apps := (st_apps x)\<lparr>a_enabled := False\<rparr>\<rparr>) s)"

theorem switch_off_while_asked_ignored_witness:
  "\<exists>res st after. handle_app (app_world_with (\<lambda>_. InTime apps_off approval_once)) None (lit ''apps.messages.send'')
     example_send (app_shared AppsAsk) = (res, Some (MessagesSend (lit ''+7916123'') (lit ''hi'') IMessage, st), after) \<and>
     \<not> (a_enabled (st_apps (sh_settings st)) \<and> app_on (st_apps (sh_settings st)) (lit ''messages''))"
proof -
  have off: "\<not> a_enabled (st_apps (sh_settings (apps_off s)))" for s
    by (simp add: apps_off_def mutate_settings_def Let_def sh_settings_def shell_stop_all_def)
  have spec: "aa_app (catalog_row ''messages'' ''send'' RiskAct) = lit ''messages''"
    "aa_action (catalog_row ''messages'' ''send'' RiskAct) = lit ''send''" by (simp_all add: catalog_row_def)
  show ?thesis
    by (rule switch_off_while_asked_ignored [where spec = "catalog_row ''messages'' ''send'' RiskAct" and
          sc = "lit ''messages.send:'' @ lit ''+7916123''" and rem = NeverRemember and meanwhile = apps_off and a = approval_once,
          unfolded spec])
      (simp_all add: spec send_known app_ready_def plain_request_def example_send_parsed app_decide_def approval_once_def off)
qed


lemma granted_carried:
  assumes "method_action m = Some (aa_app spec, aa_action spec)" "find_action (aa_app spec) (aa_action spec) = Some spec"
    and "app_ready w spec sh" and "plain_request req"
    and "parse_app_request (aw_uc w) (aw_nm w) (aa_app spec) (aa_action spec) params = Ok req"
    and "app_decide (aw_uc w) (a_mode (st_apps (sh_settings sh))) (aa_risk spec) req = AppAsk sc AnyDuration"
    and "fst (sh_grant_allows (aw_wall w) peer APPS_CAP sc sh)"
  shows "\<exists>res st after. handle_app w peer m params sh = (res, Some (req, st), after) \<and> sh_asked st = sh_asked sh"
proof -
  let ?what = "aa_app spec @ 46 # aa_action spec"
  define sh1 where "sh1 = snd (sh_grant_allows (aw_wall w) peer APPS_CAP sc sh)"
  have "handle_app w peer m params sh = notify_gate w peer (aa_app spec) ?what req sh1"
    using handle_app_ready [OF assms(1,2,3,5,4)] assms(7)
    by (simp add: decide_app_def Let_def assms(6) ask_app_def case_prod_unfold sh1_def)
  moreover have "sh_asked sh1 = sh_asked sh" by (simp add: sh1_def sh_grant_allows_def case_prod_unfold Let_def)
  ultimately show ?thesis using plain_carried [OF assms(4), of w peer "aa_app spec" ?what sh1] by metis
qed

definition open_app_params :: "utext \<Rightarrow> utext \<Rightarrow> json" where
  "open_app_params name b = JObj [(lit ''bundle_id'', JStr b), (lit ''name'', JStr name)]"

lemma open_app_known:
  "method_action (lit ''apps.open.app'') = Some (lit ''open'', lit ''app'')"
  "find_action (lit ''open'') (lit ''app'') = Some (catalog_row ''open'' ''app'' RiskAct)"
  by (simp_all add: open_app_method strip_prefix_def starts_with_def) (simp_all add: lit_def)

text \<open>
  ``always open this app'' is kept under the name alone, and the name is what the synth calls
  it: with it, any app is opened by its bundle id, and nobody is asked.
\<close>

theorem open_app_grant_covers_any_bundle:
  assumes "app_ready w (catalog_row ''open'' ''app'' RiskAct) sh" and "a_mode (st_apps (sh_settings sh)) = AppsAskNew"
    and "app_name name = Ok shown_name" and "bundle_id b = Ok (Some any)"
    and "fst (sh_grant_allows (aw_wall w) peer APPS_CAP (lit ''open.app:'' @ uc_lower (aw_uc w) shown_name) sh)"
  shows "\<exists>res st after. handle_app w peer (lit ''apps.open.app'') (open_app_params name b) sh =
    (res, Some (OpenApp shown_name (Some any), st), after) \<and> sh_asked st = sh_asked sh"
proof -
  let ?spec = "catalog_row ''open'' ''app'' RiskAct"
  have spec: "aa_app ?spec = lit ''open''" "aa_action ?spec = lit ''app''" "aa_risk ?spec = RiskAct"
    by (simp_all add: catalog_row_def)
  have "str_param (open_app_params name b) (lit ''name'') = name" "str_param (open_app_params name b) (lit ''bundle_id'') = b"
    by (simp_all add: open_app_params_def str_param_def json_defs)
  then have "parse_app_request (aw_uc w) (aw_nm w) (lit ''open'') (lit ''app'') (open_app_params name b) =
      Ok (OpenApp shown_name (Some any))"
    using assms(3,4) by (simp add: parse_app_request_def parse_open_app_def and_then_def)
  then show ?thesis
    using assms(1,2,5) open_app_known
    by (intro granted_carried [where spec = ?spec]) (auto simp: spec plain_request_def app_decide_def scope_of_def)
qed

theorem open_app_grant_covers_any_bundle_witness:
  "\<exists>res st after. handle_app (app_world_with quiet_owner) None (lit ''apps.open.app'')
     (open_app_params (lit ''Notes'') (lit ''com.a.b'')) (always_shared (lit ''open.app:notes'')) =
     (res, Some (OpenApp (lit ''Notes'') (Some (lit ''com.a.b'')), st), after) \<and>
     sh_asked st = sh_asked (always_shared (lit ''open.app:notes''))"
proof (rule open_app_grant_covers_any_bundle)
  show "app_name (lit ''Notes'') = Ok (lit ''Notes'')"
    by (simp add: app_name_def clean_line_def hidden_def is_control_def trim_def trim_start_def is_whitespace_def
        starts_with_def NAME_MAX_def lit_def)
  show "bundle_id (lit ''com.a.b'') = Ok (Some (lit ''com.a.b''))"
    using utf8_len_le [of "lit ''com.a.b''"]
    by (simp add: bundle_id_def trim_def trim_start_def is_whitespace_def starts_with_def ends_with_def
        is_ascii_alphanumeric_def is_ascii_digit_def lit_def del: utf8_len_simps)
  have "uc_lower ascii_unicode (lit ''Notes'') = lit ''notes''"
    by (simp add: ascii_unicode_def to_ascii_lowercase_def ascii_lower_def lit_def)
  moreover have "lit ''open.app:'' @ lit ''notes'' = lit ''open.app:notes''" by (simp add: lit_def)
  ultimately show "fst (sh_grant_allows (aw_wall (app_world_with quiet_owner)) None APPS_CAP
      (lit ''open.app:'' @ uc_lower (aw_uc (app_world_with quiet_owner)) (lit ''Notes'')) (always_shared (lit ''open.app:notes'')))"
    by simp
qed (simp_all add: app_ready_def catalog_row_def)


section \<open>The site of an address\<close>

definition host_text :: "utext \<Rightarrow> bool" where
  "host_text h \<longleftrightarrow> h \<noteq> [] \<and> \<not> starts_with [45] h \<and> list_all (\<lambda>c. is_ascii_alphanumeric c \<or> c = 45 \<or> c = 46) h"

lemma visible_ascii: "32 < c \<Longrightarrow> c < 127 \<Longrightarrow> \<not> hidden c \<and> \<not> is_whitespace c"
  by (simp add: hidden_def is_control_def is_whitespace_def)

definition host_char :: "uchar \<Rightarrow> bool" where
  "host_char c \<longleftrightarrow> is_ascii_alphanumeric c \<or> c = 45 \<or> c = 46 \<or> c = 92"

lemma host_char_visible: "host_char c \<Longrightarrow> 32 < c \<and> c < 127 \<and> c \<notin> {47, 63, 35, 64, 58, 91, 93}"
  by (auto simp: host_char_def is_ascii_alphanumeric_def is_ascii_digit_def)

lemma check_url_site:
  assumes h: "h \<noteq> []" "hd h \<noteq> 45" "list_all host_char h"
    and len: "length h + 9 \<le> URL_MAX"
  shows "check_url nm (lit ''https://'' @ h @ [47]) = Ok (lit ''https://'' @ h @ [47], registrable_domain nm h)"
proof -
  let ?u = "lit ''https://'' @ h @ [47]"
  have pre: "lit ''https://'' = [104, 116, 116, 112, 115, 58, 47, 47]" by (simp add: lit_def)
  have in_h: "c \<in> set h \<Longrightarrow> 32 < c \<and> c < 127 \<and> c \<notin> {47, 63, 35, 64, 58, 91, 93}" for c
    using h(3) host_char_visible by (auto simp: list_all_iff)
  have "c \<in> set ?u \<Longrightarrow> 32 < c \<and> c < 127" for c using in_h by (auto simp: pre)
  then have chars: "c \<in> set ?u \<Longrightarrow> \<not> hidden c \<and> \<not> is_whitespace c" for c using visible_ascii by blast
  then have clean: "clean_line ?u = ?u" by (intro trimmed_clean) blast
  have low: "to_ascii_lowercase ?u = lit ''https://'' @ to_ascii_lowercase (h @ [47])"
    by (simp add: to_ascii_lowercase_def pre ascii_lower_def)
  have spaces: "\<not> list_ex is_whitespace ?u" using chars by (auto simp: list_ex_iff)
  have auth: "url_authority (h @ [47]) = h"
    unfolding url_authority_def using in_h by (subst takeWhile_append2) auto
  have "hd h \<noteq> 91" using h(1) in_h hd_in_set by blast
  then have "strip_prefix [91] h = None" using h(1) by (cases h) (auto simp: strip_prefix_def starts_with_def)
  moreover have "takeWhile (\<lambda>c. c \<noteq> 58) h = h" using in_h by (subst takeWhile_eq_all_conv) blast
  ultimately have host: "url_host h = h" by (simp add: url_host_def)
  have no_at: "64 \<notin> set h" using in_h by blast
  have dash: "take (Suc 0) h \<noteq> [45]" using h(1,2) by (cases h) auto
  show ?thesis
    unfolding check_url_def Let_def clean low
    using len spaces h(1) by (simp add: starts_with_def pre auth host no_at dash del: list_ex_append)
qed

lemma unbracket_host: "list_all host_char h \<Longrightarrow> unbracket h = h"
proof -
  assume h: "list_all host_char h"
  have "dropWhile (\<lambda>c. c = 91) h = h" using h host_char_visible by (cases h) auto
  moreover have "dropWhile (\<lambda>c. c = 93) (rev h) = rev h"
    using h host_char_visible by (cases "rev h") (auto simp: list_all_iff rev_eq_Cons_iff)
  ultimately show ?thesis by (simp add: unbracket_def)
qed

lemma host_text_chars: "host_text h \<Longrightarrow> list_all host_char h \<and> h \<noteq> [] \<and> hd h \<noteq> 45"
  by (cases h) (auto simp: host_text_def host_char_def list_all_iff starts_with_def)

lemma lower_append: "to_ascii_lowercase (a @ b) = to_ascii_lowercase a @ to_ascii_lowercase b"
  by (simp add: to_ascii_lowercase_def)

lemma open_url_known:
  "method_action (lit ''apps.open.url'') = Some (lit ''open'', lit ''url'')"
  "find_action (lit ''open'') (lit ''url'') = Some (catalog_row ''open'' ''url'' RiskAct)"
  by (simp_all add: open_app_method strip_prefix_def starts_with_def) (simp_all add: lit_def)

text \<open>
  a backslash ends the name of the site for a browser, and not for the check: an address that a
  browser takes to one site counts as an address of another, so a remembered answer for that
  one opens it, and nobody is asked. The list of public suffixes is taken to answer the last
  labels of a name.
\<close>

theorem backslash_hides_the_site:
  assumes "app_ready w (catalog_row ''open'' ''url'' RiskAct) sh" and "a_mode (st_apps (sh_settings sh)) = AppsAskNew"
    and "host_text goes" and "host_text site" and "length goes + length site + 11 \<le> URL_MAX"
    and "name = to_ascii_lowercase goes @ 92 # 46 # to_ascii_lowercase site" and "\<not> nm_is_ip (aw_nm w) name"
    and "nm_domain (aw_nm w) name = Some (to_ascii_lowercase site)"
    and "fst (sh_grant_allows (aw_wall w) peer APPS_CAP (lit ''open.url:'' @ to_ascii_lowercase site) sh)"
    and "url = lit ''https://'' @ goes @ [92, 46] @ site @ [47]"
  shows "\<exists>res st after. handle_app w peer (lit ''apps.open.url'') (JObj [(lit ''url'', JStr url)]) sh =
    (res, Some (OpenUrl url (to_ascii_lowercase site), st), after) \<and> sh_asked st = sh_asked sh"
proof -
  let ?spec = "catalog_row ''open'' ''url'' RiskAct" and ?h = "goes @ [92, 46] @ site"
  have spec: "aa_app ?spec = lit ''open''" "aa_action ?spec = lit ''url''" "aa_risk ?spec = RiskAct"
    by (simp_all add: catalog_row_def)
  have h: "list_all host_char ?h" "?h \<noteq> []" "hd ?h \<noteq> 45"
    using host_text_chars [OF assms(3)] host_text_chars [OF assms(4)] by (simp_all add: host_char_def)
  have low: "to_ascii_lowercase ?h = name"
    by (simp add: lower_append assms(6)) (simp add: to_ascii_lowercase_def ascii_lower_def)
  have "registrable_domain (aw_nm w) ?h = to_ascii_lowercase site"
    unfolding registrable_domain_def Let_def unbracket_host [OF h(1)] low using assms(7,8) by simp
  moreover have "length ?h + 9 \<le> URL_MAX" using assms(5) by simp
  ultimately have "check_url (aw_nm w) url = Ok (url, to_ascii_lowercase site)"
    using check_url_site [OF h(2,3,1), of "aw_nm w"] assms(10) by simp
  then have "parse_app_request (aw_uc w) (aw_nm w) (lit ''open'') (lit ''url'') (JObj [(lit ''url'', JStr url)]) =
      Ok (OpenUrl url (to_ascii_lowercase site))"
    by (simp add: parse_app_request_def and_then_def str_param_def json_defs)
  then show ?thesis
    using assms(1,2,9) open_url_known
    by (intro granted_carried [where spec = ?spec]) (auto simp: spec plain_request_def app_decide_def scope_of_def)
qed

definition suffix_names :: "utext \<Rightarrow> names" where
  "suffix_names site = \<lparr>nm_is_ip = (\<lambda>_. False), nm_domain = (\<lambda>h. if ends_with site h then Some site else None)\<rparr>"

theorem backslash_hides_the_site_witness:
  "\<exists>res st after. handle_app ((app_world_with quiet_owner)\<lparr>aw_nm := suffix_names (lit ''good.com'')\<rparr>) None (lit ''apps.open.url'')
     (JObj [(lit ''url'', JStr (lit ''https://'' @ lit ''evil.com'' @ [92, 46] @ lit ''good.com'' @ [47]))])
     (always_shared (lit ''open.url:'' @ lit ''good.com'')) =
     (res, Some (OpenUrl (lit ''https://'' @ lit ''evil.com'' @ [92, 46] @ lit ''good.com'' @ [47]) (lit ''good.com''), st), after) \<and>
     sh_asked st = sh_asked (always_shared (lit ''open.url:'' @ lit ''good.com''))"
proof -
  let ?w = "(app_world_with quiet_owner)\<lparr>aw_nm := suffix_names (lit ''good.com'')\<rparr>"
  have low: "to_ascii_lowercase (lit ''good.com'') = lit ''good.com''" "to_ascii_lowercase (lit ''evil.com'') = lit ''evil.com''"
    by (simp_all add: to_ascii_lowercase_def ascii_lower_def lit_def)
  have host: "host_text (lit ''good.com'')" "host_text (lit ''evil.com'')"
    by (simp_all add: host_text_def starts_with_def is_ascii_alphanumeric_def is_ascii_digit_def lit_def)
  show ?thesis
    by (rule backslash_hides_the_site [where site = "lit ''good.com''" and goes = "lit ''evil.com''" and w = ?w, unfolded low,
          OF _ _ host(2,1) _ refl])
      (simp_all add: low app_ready_def catalog_row_def suffix_names_def ends_with_def URL_MAX_def)
qed


section \<open>Notifications\<close>

fun shown_at :: "instant list \<Rightarrow> shared \<Rightarrow> instant list" where
  \<comment> \<open>of the times something asks to show a notification, those at which it is shown\<close>
  "shown_at [] sh = []"
| "shown_at (t # ts) sh =
     (case notify_allowed t sh of (ok, sh1) \<Rightarrow> if ok then t # shown_at ts sh1 else shown_at ts sh1)"

definition in_minute :: "instant \<Rightarrow> instant list \<Rightarrow> instant list" where
  "in_minute t xs = filter (\<lambda>x. t \<le> x \<and> x \<le> t + seconds 60) xs"

lemma set_shown_at: "set (shown_at ts sh) \<subseteq> set ts"
  by (induction ts arbitrary: sh) (auto split: prod.splits if_splits)

lemma shown_at_bound:
  "sorted ts \<Longrightarrow> length (sh_notified sh) \<le> NOTIFY_PER_MINUTE \<Longrightarrow>
   length (in_minute t (sh_notified sh @ shown_at ts sh)) \<le> NOTIFY_PER_MINUTE"
proof (induction ts arbitrary: sh)
  case Nil
  then show ?case by (simp add: in_minute_def order_trans [OF length_filter_le])
next
  case (Cons now ts)
  define q where "q = dropWhile (\<lambda>u. seconds 60 < elapsed now u) (sh_notified sh)"
  define old where "old = takeWhile (\<lambda>u. seconds 60 < elapsed now u) (sh_notified sh)"
  have split: "sh_notified sh = old @ q" by (simp add: q_def old_def)
  have short: "length q \<le> NOTIFY_PER_MINUTE" using Cons.prems(2) split by simp
  have sorted: "sorted ts" "\<And>u. u \<in> set ts \<Longrightarrow> now \<le> u" using Cons.prems(1) by auto
  obtain ok sh1 where n: "notify_allowed now sh = (ok, sh1)" by force
  have new: "length (in_minute t (q @ shown_at (now # ts) sh)) \<le> NOTIFY_PER_MINUTE"
  proof (cases ok)
    case True
    then have "length q < NOTIFY_PER_MINUTE" "sh_notified sh1 = q @ [now]"
      using n by (auto simp: notify_allowed_def Let_def q_def not_le split: if_splits)
    with Cons.IH [OF sorted(1), of sh1] True n show ?thesis by simp
  next
    case False
    then have "sh_notified sh1 = q" using n by (auto simp: notify_allowed_def Let_def q_def split: if_splits)
    with Cons.IH [OF sorted(1), of sh1] False n short show ?thesis by simp
  qed
  show ?case
  proof (cases "in_minute t old = []")
    case True
    then show ?thesis using new by (simp add: split in_minute_def)
  next
    case False
    then obtain u where "u \<in> set old" "t \<le> u" by (auto simp: in_minute_def filter_empty_conv)
    then have "t + seconds 60 < now" by (auto simp: old_def elapsed_def dest: set_takeWhileD)
    then have "in_minute t (shown_at (now # ts) sh) = []"
      using set_shown_at [of "now # ts" sh] sorted(2) unfolding in_minute_def filter_empty_conv
      by (metis (no_types, lifting) leD le_trans order_refl set_ConsD subsetD)
    then have "in_minute t (sh_notified sh @ shown_at (now # ts) sh) = in_minute t (sh_notified sh)"
      unfolding in_minute_def filter_append by simp
    moreover have "length (in_minute t (sh_notified sh)) \<le> length (sh_notified sh)" by (simp add: in_minute_def)
    ultimately show ?thesis using Cons.prems(2) by (metis le_trans)
  qed
qed

text \<open>
  from the start of the program on, however often the synths ask and whatever the answers, no
  more than six notifications are shown in any minute.
\<close>

theorem six_notifications_a_minute:
  assumes "sorted ts" and "sh_notified sh = []"
  shows "length (in_minute t (shown_at ts sh)) \<le> NOTIFY_PER_MINUTE"
  using shown_at_bound [OF assms(1), of sh t] assms(2) by simp

theorem six_notifications_a_minute_witness:
  "length (in_minute 0 (shown_at (replicate 9 (seconds 1)) (blank_shared default_settings))) \<le> NOTIFY_PER_MINUTE"
  by (rule six_notifications_a_minute) (simp_all add: blank_shared_def make_shared_def numeral_eq_Suc)


section \<open>What is told of an answer\<close>

lemma jget_jput: "jget k (jput k' x v) = (if is_JObj v \<and> k = k' then Some x else jget k v)"
  by (cases v) (auto simp: jput_def jget_def is_JObj_def map_of_obj_put)

lemma is_JObj_jput [simp]: "is_JObj (jput k x v) = is_JObj v"
  by (cases v) (simp_all add: jput_def is_JObj_def)

lemma items_of_obj: "items_of k v = Some xs \<Longrightarrow> is_JObj v"
  by (cases v) (auto simp: items_of_def jget_def is_JObj_def)

lemma items_of_jput: "items_of k (jput k' x v) = (if is_JObj v \<and> k = k' then as_arr x else items_of k v)"
  by (simp add: items_of_def jget_jput)

lemma items_of_mark [simp]: "k \<noteq> lit ''truncated'' \<Longrightarrow> items_of k (mark_truncated b v) = items_of k v"
  by (simp add: mark_truncated_def items_of_jput)

lemma mark_truncated_true: "is_JObj v \<Longrightarrow> get_bool (lit ''truncated'') (mark_truncated True v) = Some True"
  by (simp add: mark_truncated_def get_bool_def jget_jput as_bool_def)

lemma as_arr_JArr [simp]: "as_arr (JArr xs) = Some xs"
  by (simp add: as_arr_def)

lemma bound_rows_items:
  assumes "bound_rows key m f v = (v1, n)" "items_of (lit key) v1 = Some ys" "key \<noteq> ''truncated''"
  shows "\<exists>xs. items_of (lit key) v = Some xs \<and> ys = map f (take m xs) \<and> n = Some (length ys) \<and>
    (m < length xs \<longrightarrow> get_bool (lit ''truncated'') v1 = Some True)"
proof (cases "items_of (lit key) v")
  case None
  then show ?thesis using assms by (auto simp: bound_rows_def cap_list_def map_items_def)
next
  case (Some xs)
  note obj = items_of_obj [OF Some]
  show ?thesis using assms Some obj
    by (auto simp: bound_rows_def cap_list_def map_items_def items_of_jput mark_truncated_true)
qed

lemma bound_contacts_items:
  assumes "bound_contacts uc q limit v = (v1, n)" "items_of (lit ''contacts'') v1 = Some ys"
  shows "\<exists>xs. items_of (lit ''contacts'') v = Some xs \<and>
    ys = take (min limit CONTACTS_MAX) (map bound_contact (filter (contact_matches uc q) xs)) \<and> n = Some (length ys) \<and>
    (min limit CONTACTS_MAX < length (filter (contact_matches uc q) xs) \<longrightarrow> get_bool (lit ''truncated'') v1 = Some True)"
proof (cases "items_of (lit ''contacts'') v")
  case None
  then show ?thesis using assms by (auto simp: bound_contacts_def)
next
  case (Some xs)
  note obj = items_of_obj [OF Some]
  show ?thesis using assms Some obj
    by (auto simp: bound_contacts_def items_of_jput mark_truncated_true Let_def)
qed

definition row_keys :: "json \<Rightarrow> utext set" where
  "row_keys v = (case v of JObj kvs \<Rightarrow> fst ` set kvs | _ \<Rightarrow> {})"

lemma keep_keys_keys: "row_keys (keep_keys ks v) \<subseteq> set (map lit ks)"
  by (cases v) (auto simp: keep_keys_def row_keys_def)

lemma bound_contact_keys: "row_keys (bound_contact c) \<subseteq> {lit ''name'', lit ''organization'', lit ''phones'', lit ''emails''}"
  unfolding bound_contact_def by (rule order_trans [OF keep_keys_keys]) simp

text \<open>
  a search of the contacts tells no more of the address book than was asked, whatever the backend
  answers: of the cards it gave only those that match, no more than asked and never more than
  twenty-five, of each card only the name, the organization, the phones and the emails; and
  the number in the journal is the number of cards told.
\<close>

theorem contacts_only_matches:
  assumes "bound uc (ContactsSearch query limit) v = (v1, n)" and "items_of (lit ''contacts'') v1 = Some ys"
  shows "n = Some (length ys) \<and> length ys \<le> min limit CONTACTS_MAX \<and>
    (\<exists>xs. items_of (lit ''contacts'') v = Some xs \<and>
       (\<forall>y \<in> set ys. (\<exists>c \<in> set xs. contact_matches uc query c \<and> y = bound_contact c) \<and>
          row_keys y \<subseteq> {lit ''name'', lit ''organization'', lit ''phones'', lit ''emails''}) \<and>
       (length ys < length (filter (contact_matches uc query) xs) \<longrightarrow> get_bool (lit ''truncated'') v1 = Some True))"
proof -
  from assms(1) have "bound_contacts uc query limit v = (v1, n)" by (simp add: bound_def)
  from bound_contacts_items [OF this assms(2)] obtain xs where xs: "items_of (lit ''contacts'') v = Some xs"
    and ys: "ys = take (min limit CONTACTS_MAX) (map bound_contact (filter (contact_matches uc query) xs))"
    and n: "n = Some (length ys)"
    and cut: "min limit CONTACTS_MAX < length (filter (contact_matches uc query) xs) \<longrightarrow>
      get_bool (lit ''truncated'') v1 = Some True"
    by blast
  have "y \<in> set ys \<Longrightarrow> \<exists>c \<in> set xs. contact_matches uc query c \<and> y = bound_contact c" for y
    unfolding ys by (drule in_set_takeD) auto
  moreover have "length ys < length (filter (contact_matches uc query) xs) \<Longrightarrow>
      get_bool (lit ''truncated'') v1 = Some True"
    using cut unfolding ys by (auto simp: min_def split: if_splits)
  moreover have "length ys \<le> min limit CONTACTS_MAX" unfolding ys length_take by (rule min.cobounded2)
  ultimately show ?thesis using xs n bound_contact_keys by blast
qed

theorem contacts_only_matches_witness:
  "\<exists>v1. bound ascii_unicode (ContactsSearch (lit ''an'') 5) (JObj [(lit ''contacts'', JArr
       [JObj [(lit ''name'', JStr (lit ''Ann''))], JObj [(lit ''name'', JStr (lit ''Bob''))]])]) = (v1, Some 1)"
proof -
  let ?v = "JObj [(lit ''contacts'', JArr [JObj [(lit ''name'', JStr (lit ''Ann''))], JObj [(lit ''name'', JStr (lit ''Bob''))]])]"
  have m: "contact_matches ascii_unicode (lit ''an'') (JObj [(lit ''name'', JStr (lit ''Ann''))])"
    "\<not> contact_matches ascii_unicode (lit ''an'') (JObj [(lit ''name'', JStr (lit ''Bob''))])"
    by (simp_all add: contact_matches_def contact_field_def contact_list_def items_of_def json_defs ascii_unicode_def
        to_ascii_lowercase_def ascii_lower_def digits_of_def is_ascii_digit_def CONTACT_DIGITS_MIN_def Let_def
        starts_with_def lit_def)
  obtain v1 n where b: "bound ascii_unicode (ContactsSearch (lit ''an'') 5) ?v = (v1, n)" by force
  have items: "items_of (lit ''contacts'') ?v = Some [JObj [(lit ''name'', JStr (lit ''Ann''))], JObj [(lit ''name'', JStr (lit ''Bob''))]]"
    by (simp add: items_of_def json_defs)
  have "items_of (lit ''contacts'') v1 = Some [bound_contact (JObj [(lit ''name'', JStr (lit ''Ann''))])]"
    using b by (auto simp: bound_def bound_contacts_def items m Let_def CONTACTS_MAX_def items_of_jput is_JObj_def)
  from contacts_only_matches [OF b this] b show ?thesis by auto
qed


end
