(* ===== verification/Rpc_Gate.thy ===== *)
theory Rpc_Gate
  imports Browser_Sessions Files_Confinement
begin

text \<open>
  \<open>rpc.rs\<close>, the calls it serves itself: the files of the shared folders with the writes that
  go on chunk by chunk, the cookies of one site from the browsers' files or from a linked
  browser, and the request of a permission. The encoding of base64, the browsers' files and
  what happens to the disk and the state in between are parameters.
\<close>

record rpc_world =
  rw_nm :: names
  rw_owner :: owner
  rw_wall :: unix_time
  rw_now :: instant                              \<comment> \<open>when the call came\<close>
  rw_noted :: instant                            \<comment> \<open>when the chunk was written\<close>
  rw_decode :: "utext \<Rightarrow> (utext, content) result"  \<comment> \<open>base64\<close>
  rw_encode :: "content \<Rightarrow> utext"
  rw_modified :: "real \<Rightarrow> nat"
  rw_failed :: "real \<Rightarrow> utext"                    \<comment> \<open>the text of a failed system call\<close>
  rw_asking :: "disk \<Rightarrow> disk"                    \<comment> \<open>what happens on the disk during a question\<close>
  rw_cookies :: "utext \<Rightarrow> (utext, (utext option, wire_cookie list \<times> utext) result) result option"
    \<comment> \<open>the browsers' files: no answer of the thread; failed; not to be had; the cookies\<close>
  rw_reading :: "shared \<Rightarrow> shared"
  rw_left :: instant                             \<comment> \<open>what is left of the answer window\<close>
  rw_browsers :: browser_env

section \<open>Files\<close>

definition text_or :: "json \<Rightarrow> string \<Rightarrow> utext \<Rightarrow> utext" where
  "text_or p key otherwise = (case get_str (lit key) p of Some s \<Rightarrow> s | None \<Rightarrow> otherwise)"

definition u64_or_0 :: "json \<Rightarrow> string \<Rightarrow> nat" where
  "u64_or_0 p key = (case Option.bind (jget (lit key) p) as_u64 of Some n \<Rightarrow> n | None \<Rightarrow> 0)"

definition entry_value :: "rpc_world \<Rightarrow> real \<Rightarrow> dir_entry \<Rightarrow> json" where
  "entry_value w p e = JObj [(lit ''mod_unix'', JInt (int (rw_modified w p))), (lit ''name'', JStr (de_name e)),
     (lit ''path'', JStr (place_text p)), (lit ''size'', JInt (int (de_size e))), (lit ''type'', JStr (de_kind e))]"

definition list_value :: "rpc_world \<Rightarrow> real \<Rightarrow> dir_entry list \<times> bool \<Rightarrow> json" where
  "list_value w p = (\<lambda>(es, cut). JObj [(lit ''entries'', JArr (map (\<lambda>e. entry_value w (p @ [de_name e]) e) es)),
     (lit ''truncated'', JBool cut)])"

definition read_value :: "rpc_world \<Rightarrow> content \<times> nat \<times> bool \<Rightarrow> json" where
  "read_value w = (\<lambda>(got, n, end). JObj [(lit ''data_b64'', JStr (rw_encode w got)), (lit ''eof'', JBool end),
     (lit ''size'', JInt (int n))])"

definition TRANSFER_IDLE :: instant where "TRANSFER_IDLE = seconds (10 * 60)"
definition TRANSFERS_MAX :: nat where "TRANSFERS_MAX = 16"

definition transfer_continues :: "instant \<Rightarrow> utext \<Rightarrow> nat \<Rightarrow> shared \<Rightarrow> bool \<times> shared" where
  "transfer_continues now path offset sh =
     (let held = filter (\<lambda>(_, _, t). elapsed now t < TRANSFER_IDLE) (sh_transfers sh)
      in (list_ex (\<lambda>(p, n, _). p = path \<and> n = offset) held, sh\<lparr>sh_transfers := held\<rparr>))"

definition transfer_note :: "instant \<Rightarrow> utext \<Rightarrow> nat \<Rightarrow> shared \<Rightarrow> shared" where
  "transfer_note now path n sh =
     (let held = filter (\<lambda>(p, _, t). p \<noteq> path \<and> elapsed now t < TRANSFER_IDLE) (sh_transfers sh);
          room = (if length held = TRANSFERS_MAX then tl held else held)
      in sh\<lparr>sh_transfers := room @ [(path, n, now)]\<rparr>)"

definition write_error :: "utext \<Rightarrow> utext" where
  "write_error e =
     (if starts_with (lit ''exists:'') e \<or> starts_with (lit ''not found:'') e \<or> starts_with (lit ''denied:'') e then e
      else lit ''files.write: '' @ e)"

definition file_entry :: "rpc_world \<Rightarrow> string \<Rightarrow> utext \<Rightarrow> utext \<Rightarrow> entry" where
  "file_entry w what path outcome = new_entry (rw_wall w) (lit ''files'') (lit what) path outcome"

definition write_question :: "utext \<Rightarrow> approval_request" where
  "write_question path = new_request (lit ''files'') path [] (lit ''let the synth write to '' @ path)"

text \<open>An answer, the disk and the state after it.\<close>

type_synonym file_answer = "(utext, json) result \<times> disk \<times> shared"

record chunk =
  wr_path :: utext       \<comment> \<open>as the synth names it\<close>
  wr_place :: real
  wr_mode :: utext
  wr_offset :: nat
  wr_data :: content

definition write_chunk :: "rpc_world \<Rightarrow> slot_ref option \<Rightarrow> chunk \<Rightarrow> bool \<Rightarrow> disk \<Rightarrow> shared \<Rightarrow> file_answer" where
  "write_chunk w peer c continuing d sh =
     (case write_file d (wr_place c) (wr_mode c) (wr_offset c) (wr_data c) of
        (Err e, d1) \<Rightarrow> (Err (write_error e), d1, sh)
      | (Ok n, d1) \<Rightarrow>
          (let sh1 = (if wr_mode c \<noteq> lit ''append'' \<or> continuing then transfer_note (rw_noted w) (wr_path c) n sh else sh)
           in (Ok (JObj [(lit ''size'', JInt (int n))]), d1,
               sh_record peer (with_bytes (length (wr_data c)) (file_entry w ''files.write'' (wr_path c) (lit ''ok''))) sh1)))"

definition ask_write :: "rpc_world \<Rightarrow> slot_ref option \<Rightarrow> chunk \<Rightarrow> disk \<Rightarrow> shared \<Rightarrow> file_answer" where
  "ask_write w peer c d sh =
     (let (a, sh1) = ask_scoped (rw_owner w) (rw_wall w) peer (lit ''files'') (wr_path c) (write_question (wr_path c)) sh;
          d1 = rw_asking w d
      in if allow a then write_chunk w peer c False d1 sh1
         else (Err (lit ''denied: the owner did not allow writing to '' @ wr_path c), d1,
               sh_record peer (file_entry w ''files.write'' (wr_path c) (lit ''denied: owner'')) sh1))"

definition chunk_of :: "rpc_world \<Rightarrow> json \<Rightarrow> utext \<Rightarrow> root list \<Rightarrow> disk \<Rightarrow> (utext, chunk) result" where
  "chunk_of w params path roots d =
     (case resolve_write d path roots of
        Err e \<Rightarrow> Err e
      | Ok p \<Rightarrow>
          (case rw_decode w (text_or params ''data_b64'' []) of
             Err e \<Rightarrow> Err (lit ''files.write: bad base64: '' @ e)
           | Ok data \<Rightarrow> Ok \<lparr>wr_path = path, wr_place = p, wr_mode = text_or params ''mode'' (lit ''create''),
               wr_offset = u64_or_0 params ''offset'', wr_data = data\<rparr>))"

definition write_call :: "rpc_world \<Rightarrow> slot_ref option \<Rightarrow> chunk \<Rightarrow> bool \<Rightarrow> disk \<Rightarrow> shared \<Rightarrow> file_answer" where
  "write_call w peer c ask_on_write d sh =
     (let (continuing, sh1) =
            (if wr_mode c = lit ''append'' then transfer_continues (rw_now w) (wr_path c) (wr_offset c) sh else (False, sh))
      in if \<not> ask_on_write \<or> continuing then write_chunk w peer c continuing d sh1
         else (case sh_grant_allows (rw_wall w) peer (lit ''files'') (wr_path c) sh1 of
             (True, sh2) \<Rightarrow> write_chunk w peer c False d sh2
           | (False, sh2) \<Rightarrow> ask_write w peer c d sh2))"

definition read_call :: "rpc_world \<Rightarrow> slot_ref option \<Rightarrow> utext \<Rightarrow> json \<Rightarrow> utext \<Rightarrow> real \<Rightarrow> disk \<Rightarrow> shared \<Rightarrow> file_answer" where
  \<comment> \<open>a path that was resolved\<close>
  "read_call w peer m params path p d sh =
     (if m = lit ''files.list'' then
        (case list_dir d p of
           None \<Rightarrow> (Err (lit ''files.list: '' @ rw_failed w p), d, sh)
         | Some l \<Rightarrow> (Ok (list_value w p l), d, sh))
      else if m = lit ''files.stat'' then
        (case stat_file d p of
           None \<Rightarrow> (Err (lit ''files.stat: '' @ rw_failed w p), d, sh)
         | Some e \<Rightarrow> (Ok (entry_value w p e), d, sh))
      else
        (case read_file d p (u64_or_0 params ''offset'') (u64_or_0 params ''length'') of
           None \<Rightarrow> (Err (lit ''files.read: '' @ rw_failed w p), d, sh)
         | Some r \<Rightarrow> (Ok (read_value w r), d, sh_record peer (file_entry w ''files.read'' path (lit ''ok'')) sh)))"

definition files_method :: "rpc_world \<Rightarrow> slot_ref option \<Rightarrow> utext \<Rightarrow> json \<Rightarrow> disk \<Rightarrow> shared \<Rightarrow> file_answer" where
  "files_method w peer m params d sh =
     (let s = st_files (sh_settings sh)
      in if sh_paused sh then (Err (lit ''denied: files are paused by the owner''), d, sh)
         else if \<not> f_enabled s then (Err (lit ''denied: files are turned off on this computer''), d, sh)
         else case get_str (lit ''path'') params of
             None \<Rightarrow> (Err (lit ''bad request: params.path is required''), d, sh)
           | Some path \<Rightarrow>
               if m = lit ''files.write'' then
                 (case chunk_of w params path (f_roots s) d of
                    Err e \<Rightarrow> (Err e, d, sh)
                  | Ok c \<Rightarrow> write_call w peer c (f_ask_on_write s) d sh)
               else
                 (case resolve_read d path (f_roots s) of
                    Err e \<Rightarrow> (Err e, d, sh)
                  | Ok p \<Rightarrow> read_call w peer m params path p d sh))"

section \<open>Cookies\<close>

definition cookie_value :: "wire_cookie \<Rightarrow> json" where
  "cookie_value c = JObj ([(lit ''domain'', JStr (wc_domain c)), (lit ''expires'', JInt (wc_expires c)),
     (lit ''http_only'', JBool (wc_http_only c)), (lit ''name'', JStr (wc_name c)), (lit ''path'', JStr (wc_path c))] @
     (if wc_same_site c \<noteq> [] then [(lit ''same_site'', JStr (wc_same_site c))] else []) @
     [(lit ''secure'', JBool (wc_secure c)), (lit ''value'', JStr (wc_value c))])"

definition cookies_value :: "wire_cookie list \<Rightarrow> utext \<Rightarrow> json" where
  "cookies_value cs src = JObj [(lit ''cookies'', JArr (map cookie_value cs)), (lit ''source'', JStr src)]"

definition cookie_entry :: "rpc_world \<Rightarrow> utext \<Rightarrow> utext \<Rightarrow> entry" where
  "cookie_entry w tgt outcome = new_entry (rw_wall w) (lit ''cookies'') (lit ''cookies.get'') tgt outcome"

text \<open>What came of one source, and whether the browsers' files were read.\<close>

type_synonym cookie_answer = "(utext, json) result \<times> bool \<times> shared"

definition cookies_done :: "rpc_world \<Rightarrow> slot_ref option \<Rightarrow> utext \<Rightarrow> wire_cookie list \<Rightarrow> utext \<Rightarrow> bool \<Rightarrow> shared \<Rightarrow> cookie_answer" where
  "cookies_done w peer domain cs src touched sh =
     (Ok (cookies_value cs src), touched,
      sh_record peer (cookie_entry w (domain @ lit '' ('' @ digits (length cs) @ lit '' from '' @ src @ lit '')'') (lit ''ok'')) sh)"

definition extension_refusal :: "extension_read \<Rightarrow> utext option" where
  "extension_refusal r = (case r of ExDenied why \<Rightarrow> Some (lit ''denied: '' @ why)
     | ExNoAnswer why \<Rightarrow> Some (lit ''denied: '' @ why) | _ \<Rightarrow> None)"

definition try_extension ::
  "rpc_world \<Rightarrow> slot_ref option \<Rightarrow> utext \<Rightarrow> bool \<Rightarrow> bool \<Rightarrow> (shared \<Rightarrow> cookie_answer) \<Rightarrow> shared \<Rightarrow> cookie_answer" where
  \<comment> \<open>a linked browser, and when it does not settle the call, what comes next\<close>
  "try_extension w peer domain asked touched otherwise sh =
     (let (r, sh1) = cookies_via_extension (rw_nm w) (rw_wall w) peer domain asked (max (rw_left w) (seconds 3)) (rw_browsers w) sh
      in case r of
           ExCookies (c # cs) src \<Rightarrow> cookies_done w peer domain (c # cs) src touched sh1
         | _ \<Rightarrow>
             (case extension_refusal r of
                Some why \<Rightarrow> (Err why, touched, sh_record peer (cookie_entry w domain why) sh1)
              | None \<Rightarrow> otherwise sh1))"

definition no_cookies :: "utext option \<Rightarrow> shared \<Rightarrow> cookie_answer" where
  "no_cookies missing sh =
     (case missing of
        Some m \<Rightarrow> (Err (lit ''unavailable: '' @ m @
          lit ''; the owner can link that browser in the SNTH Connect app (Logins) to share its sign-ins''), True, sh)
      | None \<Rightarrow> (Ok (cookies_value [] []), True, sh))"

definition read_browser_files ::
  "rpc_world \<Rightarrow> slot_ref option \<Rightarrow> utext \<Rightarrow> (utext option \<Rightarrow> shared \<Rightarrow> cookie_answer) \<Rightarrow> shared \<Rightarrow> cookie_answer" where
  "read_browser_files w peer domain otherwise sh =
     (let sh1 = rw_reading w sh
      in case rw_cookies w domain of
           None \<Rightarrow> (Err (lit ''cookies.get: join: the reading thread ended''), True, sh1)
         | Some (Err m) \<Rightarrow> (Err (lit ''cookies.get: '' @ m), True, sh1)
         | Some (Ok (Err missing)) \<Rightarrow> otherwise missing sh1
         | Some (Ok (Ok (cs, src))) \<Rightarrow>
             if cs \<noteq> [] then cookies_done w peer domain cs src True sh1 else otherwise None sh1)"

definition cookies_sources :: "rpc_world \<Rightarrow> slot_ref option \<Rightarrow> utext \<Rightarrow> bool \<Rightarrow> bool \<Rightarrow> shared \<Rightarrow> cookie_answer" where
  "cookies_sources w peer domain extension_first asked sh =
     (if extension_first
      then try_extension w peer domain asked False (read_browser_files w peer domain no_cookies) sh
      else read_browser_files w peer domain
        (\<lambda>missing. try_extension w peer domain asked True (no_cookies missing)) sh)"

definition cookies_question :: "slot_ref option \<Rightarrow> utext \<Rightarrow> utext \<Rightarrow> bool \<Rightarrow> shared \<Rightarrow> approval_request" where
  "cookies_question peer domain reason extension_first sh =
     (let q = new_request (lit ''cookies'') domain reason (lit ''hand the synth your browser cookies for '' @ domain)
      in if extension_first then
           (case extension_for peer domain sh of
              Some (b, False) \<Rightarrow> q\<lparr>rq_details := [(lit ''browser_step'', browser_name b)]\<rparr>
            | _ \<Rightarrow> q)
         else q)"

definition cookies_need :: "rpc_world \<Rightarrow> slot_ref option \<Rightarrow> cookies_mode \<Rightarrow> utext \<Rightarrow> shared \<Rightarrow> bool \<times> shared" where
  \<comment> \<open>must the owner be asked\<close>
  "cookies_need w peer mode domain sh =
     (case mode of
        CookiesAuto \<Rightarrow> (False, sh)
      | CookiesAskNew \<Rightarrow> (case sh_grant_allows (rw_wall w) peer (lit ''cookies'') domain sh of (known, sh1) \<Rightarrow> (\<not> known, sh1))
      | CookiesAsk \<Rightarrow> (True, sh))"

definition cookies_get :: "rpc_world \<Rightarrow> slot_ref option \<Rightarrow> json \<Rightarrow> shared \<Rightarrow> cookie_answer" where
  "cookies_get w peer params sh =
     (let s = st_cookies (sh_settings sh)
      in if sh_paused sh then (Err (lit ''denied: cookies are paused by the owner''), False, sh)
         else if \<not> k_enabled s then (Err (lit ''denied: cookies are turned off on this computer''), False, sh)
         else case get_str (lit ''domain'') params of
             None \<Rightarrow> (Err (lit ''bad request: params.domain is required''), False, sh)
           | Some raw \<Rightarrow>
               (let domain = registrable_domain (rw_nm w) raw; first = sh_extension_first sh
                in if \<not> is_one_site (rw_nm w) domain
                   then (Err (lit ''bad request: params.domain must name one site''), False, sh)
                   else case cookies_need w peer (k_mode s) domain sh of
                       (False, sh1) \<Rightarrow> cookies_sources w peer domain first False sh1
                     | (True, sh1) \<Rightarrow>
                         (let (a, sh2) = ask_scoped (rw_owner w) (rw_wall w) peer (lit ''cookies'') domain
                            (cookies_question peer domain (text_or params ''reason'' []) first sh1) sh1
                          in if allow a then cookies_sources w peer domain first True sh2
                             else (Err (lit ''denied: the owner did not allow cookies for '' @ domain), False,
                                   sh_record peer (cookie_entry w domain (lit ''denied: owner'')) sh2))))"

section \<open>Asking ahead\<close>

definition permission_request :: "rpc_world \<Rightarrow> slot_ref option \<Rightarrow> json \<Rightarrow> shared \<Rightarrow> (utext, json) result \<times> shared" where
  "permission_request w peer params sh =
     (if sh_paused sh then (Err (lit ''denied: paused by the owner''), sh)
      else case get_str (lit ''capability'') params of
          None \<Rightarrow> (Err (lit ''bad request: params.capability is required''), sh)
        | Some cap \<Rightarrow>
            (let sc = text_or params ''scope'' []; reason = text_or params ''reason'' []
             in if cap = lit ''apps''
                then (Err (lit ''denied: actions in the owner's apps are asked about one by one, when they happen''), sh)
                else if cap = lit ''shell''
                then (Err (lit ''denied: commands are asked about one by one, when they run''), sh)
                else
                  (let (a, sh1) = ask_scoped (rw_owner w) (rw_wall w) peer cap sc
                         (new_request cap sc reason (lit ''grant '' @ cap @ lit '' for '' @ sc)) sh
                   in if allow a
                      then (Ok (JObj [(lit ''granted'', JBool True), (lit ''until_unix'', JInt (until_unix (lasts a)))]), sh1)
                      else (Err (lit ''denied: the owner did not allow it''), sh1))))"

section \<open>Who may write\<close>

lemma write_file_error_disk: "write_file d p mode offset data = (Err e, d') \<Longrightarrow> d' = d"
  by (auto simp: write_file_def split: if_splits option.splits node.splits)

definition owner_said_yes :: "rpc_world \<Rightarrow> utext \<Rightarrow> utext \<Rightarrow> bool" where
  "owner_said_yes w cap sc \<longleftrightarrow> (\<exists>q meanwhile a. rw_owner w q = InTime meanwhile a \<and> allow a \<and>
     rq_capability q = cap \<and> rq_scope q = sc)"

lemma ask_said_yes:
  "allow (fst (ask_scoped (rw_owner w) now peer cap sc (new_request cap' sc' reason summary) sh)) \<Longrightarrow> owner_said_yes w cap' sc'"
  unfolding owner_said_yes_def by (drule ask_yes) (simp add: new_request_def)

lemma write_chunk_disk:
  assumes "write_chunk w peer c cont d sh = (r, d', sh')"
  shows "case r of
      Ok v \<Rightarrow> (\<exists>n. write_file d (wr_place c) (wr_mode c) (wr_offset c) (wr_data c) = (Ok n, d'))
    | Err e \<Rightarrow> d' = d"
  using assms write_file_error_disk
  by (auto simp: write_chunk_def Let_def split: sum.splits prod.splits)

lemma ask_write_disk:
  assumes "ask_write w peer c d sh = (r, d', sh')"
  shows "case r of
      Ok v \<Rightarrow> owner_said_yes w (lit ''files'') (wr_path c) \<and>
        (\<exists>n. write_file (rw_asking w d) (wr_place c) (wr_mode c) (wr_offset c) (wr_data c) = (Ok n, d'))
    | Err e \<Rightarrow> d' = rw_asking w d"
proof -
  define ask where "ask = ask_scoped (rw_owner w) (rw_wall w) peer (lit ''files'') (wr_path c) (write_question (wr_path c)) sh"
  have "if allow (fst ask) then write_chunk w peer c False (rw_asking w d) (snd ask) = (r, d', sh')
      else (\<exists>e. r = Err e) \<and> d' = rw_asking w d"
    using assms unfolding ask_write_def Let_def ask_def case_prod_unfold by (auto split: if_splits)
  moreover have "allow (fst ask) \<Longrightarrow> owner_said_yes w (lit ''files'') (wr_path c)"
    unfolding ask_def write_question_def by (rule ask_said_yes)
  moreover have "write_chunk w peer c False (rw_asking w d) (snd ask) = (r, d', sh') \<Longrightarrow> ?thesis"
    if "owner_said_yes w (lit ''files'') (wr_path c)"
    using that write_chunk_disk [of w peer c False "rw_asking w d" "snd ask" r d' sh'] by (cases r) auto
  ultimately show ?thesis by (cases "allow (fst ask)") auto
qed

definition continues_write :: "rpc_world \<Rightarrow> chunk \<Rightarrow> shared \<Rightarrow> bool" where
  "continues_write w c sh \<longleftrightarrow> wr_mode c = lit ''append'' \<and> fst (transfer_continues (rw_now w) (wr_path c) (wr_offset c) sh)"

lemma transfer_continues_grants [simp]:
  "fst (sh_grant_allows now peer cap sc (snd (transfer_continues t p n sh))) = fst (sh_grant_allows now peer cap sc sh)"
  by (simp add: transfer_continues_def sh_grant_allows_def Let_def case_prod_unfold current_synth_id_def current_slot_def slot_at_def
      cong: option.case_cong list.case_cong)

lemma write_call_cases:
  "write_call w peer c ask d sh =
     (let sh1 = (if wr_mode c = lit ''append'' then snd (transfer_continues (rw_now w) (wr_path c) (wr_offset c) sh) else sh);
          known = sh_grant_allows (rw_wall w) peer (lit ''files'') (wr_path c) sh1
      in if \<not> ask \<or> continues_write w c sh then write_chunk w peer c (continues_write w c sh) d sh1
         else if fst known then write_chunk w peer c False d (snd known) else ask_write w peer c d (snd known))"
  unfolding write_call_def Let_def case_prod_unfold continues_write_def
  by (cases "wr_mode c = lit ''append''") (auto split: bool.split)

lemma write_call_disk:
  assumes "write_call w peer c ask d sh = (r, d', sh')"
  shows "case r of
      Ok v \<Rightarrow> (ask \<longrightarrow> continues_write w c sh \<or> fst (sh_grant_allows (rw_wall w) peer (lit ''files'') (wr_path c) sh) \<or>
          owner_said_yes w (lit ''files'') (wr_path c)) \<and>
        (\<exists>d1 n. d1 \<in> {d, rw_asking w d} \<and>
           write_file d1 (wr_place c) (wr_mode c) (wr_offset c) (wr_data c) = (Ok n, d'))
    | Err e \<Rightarrow> d' = d \<or> d' = rw_asking w d"
proof -
  define sh1 where "sh1 = (if wr_mode c = lit ''append'' then snd (transfer_continues (rw_now w) (wr_path c) (wr_offset c) sh) else sh)"
  define known where "known = sh_grant_allows (rw_wall w) peer (lit ''files'') (wr_path c) sh1"
  have known: "fst known = fst (sh_grant_allows (rw_wall w) peer (lit ''files'') (wr_path c) sh)"
    by (simp add: known_def sh1_def)
  note call = write_call_cases [of w peer c ask d sh, unfolded Let_def, folded sh1_def known_def]
  show ?thesis
  proof (cases "\<not> ask \<or> continues_write w c sh")
    case True
    then show ?thesis using assms call write_chunk_disk [of w peer c "continues_write w c sh" d sh1 r d' sh']
      by (auto split: sum.splits)
  next
    case False
    show ?thesis
    proof (cases "fst known")
      case True
      then show ?thesis using False assms call known write_chunk_disk [of w peer c False d "snd known" r d' sh']
        by (auto split: sum.splits)
    next
      case no: False
      then show ?thesis using False assms call ask_write_disk [of w peer c d "snd known" r d' sh']
        by (auto split: sum.splits)
    qed
  qed
qed


section \<open>Writes that go on\<close>

definition begins_write :: "utext \<Rightarrow> json \<times> (utext, json) result \<Rightarrow> bool" where
  \<comment> \<open>a write of this path that was done and is not an append\<close>
  "begins_write path x \<longleftrightarrow> get_str (lit ''path'') (fst x) = Some path \<and>
     text_or (fst x) ''mode'' (lit ''create'') \<noteq> lit ''append'' \<and> is_ok (snd x)"

definition left_off :: "utext \<Rightarrow> nat \<Rightarrow> json \<times> (utext, json) result \<Rightarrow> bool" where
  \<comment> \<open>a write of this path that left the file with this size\<close>
  "left_off path n x \<longleftrightarrow> get_str (lit ''path'') (fst x) = Some path \<and> snd x = Ok (JObj [(lit ''size'', JInt (int n))])"

definition transfers_from :: "(json \<times> (utext, json) result) list \<Rightarrow> shared \<Rightarrow> bool" where
  "transfers_from hist sh \<longleftrightarrow> (\<forall>(p, n, t) \<in> set (sh_transfers sh).
     list_ex (begins_write p) hist \<and> list_ex (left_off p n) hist)"

text \<open>A call of \<open>files.write\<close>: the world it meets, the link, what was sent.\<close>

type_synonym write_step = "rpc_world \<times> slot_ref option \<times> json"

fun run_writes ::
  "write_step list \<Rightarrow> disk \<Rightarrow> shared \<Rightarrow> (json \<times> (utext, json) result) list \<times> disk \<times> shared" where
  "run_writes [] d sh = ([], d, sh)"
| "run_writes ((w, peer, params) # xs) d sh =
     (let (r, d1, sh1) = files_method w peer (lit ''files.write'') params d sh;
          (rs, d2, sh2) = run_writes xs d1 sh1
      in ((params, r) # rs, d2, sh2))"

definition apart_from_writes :: "rpc_world \<Rightarrow> bool" where
  \<comment> \<open>what happens during a question leaves the list of writes alone\<close>
  "apart_from_writes w \<longleftrightarrow> (\<forall>q s. case rw_owner w q of
      InTime f a \<Rightarrow> sh_transfers (f s) = sh_transfers s | TooLate f \<Rightarrow> sh_transfers (f s) = sh_transfers s)"

lemma ask_scoped_transfers:
  assumes "apart_from_writes w"
  shows "sh_transfers (snd (ask_scoped (rw_owner w) now peer cap sc req sh)) = sh_transfers sh"
proof -
  define q where "q = ask_question peer req sh"
  have "case rw_owner w q of InTime f a \<Rightarrow> sh_transfers (f s) = sh_transfers s | TooLate f \<Rightarrow> sh_transfers (f s) = sh_transfers s" for s
    using assms by (auto simp: apart_from_writes_def)
  then show ?thesis
    by (cases "rw_owner w q") (simp_all add: ask_scoped_def Let_def q_def [symmetric] answer_ask_def persist_grants_def
        save_locked_def set_persisted_def)
qed

lemma sh_record_transfers [simp]: "sh_transfers (sh_record peer e sh) = sh_transfers sh"
  by (simp add: sh_record_def)

lemma grant_transfers [simp]: "sh_transfers (snd (sh_grant_allows now peer cap sc sh)) = sh_transfers sh"
  by (simp add: sh_grant_allows_def case_prod_unfold Let_def)

lemma set_tl: "set (tl xs) \<subseteq> set xs"
  by (cases xs) auto

lemma transfer_note_set: "set (sh_transfers (transfer_note t p n sh)) \<subseteq> insert (p, n, t) (set (sh_transfers sh))"
  using set_tl [of "filter (\<lambda>(q, _, u). q \<noteq> p \<and> elapsed t u < TRANSFER_IDLE) (sh_transfers sh)"]
  by (auto simp: transfer_note_def Let_def)

lemma transfer_continues_set: "set (sh_transfers (snd (transfer_continues t p n sh))) \<subseteq> set (sh_transfers sh)"
  by (auto simp: transfer_continues_def Let_def)

lemma transfer_continues_in:
  "fst (transfer_continues t p n sh) \<Longrightarrow> \<exists>u. (p, n, u) \<in> set (sh_transfers sh) \<and> elapsed t u < TRANSFER_IDLE"
  by (auto simp: transfer_continues_def Let_def list_ex_iff)

definition noted_as :: "chunk \<Rightarrow> bool \<Rightarrow> (utext, json) result \<Rightarrow> utext \<times> nat \<times> instant \<Rightarrow> bool" where
  \<comment> \<open>the entry of the list that a write makes\<close>
  "noted_as c cont r x \<longleftrightarrow> (wr_mode c \<noteq> lit ''append'' \<or> cont) \<and> fst x = wr_path c \<and>
     r = Ok (JObj [(lit ''size'', JInt (int (fst (snd x))))])"

lemma write_chunk_transfers:
  assumes "write_chunk w peer c cont d sh = (r, d', sh')" "x \<in> set (sh_transfers sh')"
  shows "x \<in> set (sh_transfers sh) \<or> noted_as c cont r x"
  using assms transfer_note_set
  by (fastforce simp: write_chunk_def Let_def noted_as_def split: sum.splits prod.splits if_splits)

lemma write_call_transfers:
  assumes call: "write_call w peer c ask d sh = (r, d', sh')" and x: "x \<in> set (sh_transfers sh')" and w: "apart_from_writes w"
  shows "x \<in> set (sh_transfers sh) \<or> noted_as c (continues_write w c sh) r x"
proof -
  define sh1 where "sh1 = (if wr_mode c = lit ''append'' then snd (transfer_continues (rw_now w) (wr_path c) (wr_offset c) sh) else sh)"
  define known where "known = sh_grant_allows (rw_wall w) peer (lit ''files'') (wr_path c) sh1"
  define asked where "asked = ask_scoped (rw_owner w) (rw_wall w) peer (lit ''files'') (wr_path c) (write_question (wr_path c)) (snd known)"
  note cases = write_call_cases [of w peer c ask d sh, unfolded Let_def, folded sh1_def known_def]
  have "x \<in> set (sh_transfers sh1) \<or> noted_as c (continues_write w c sh) r x"
  proof -
    have keep: "sh_transfers (snd asked) = sh_transfers sh1" "sh_transfers (snd known) = sh_transfers sh1"
      by (simp_all add: asked_def known_def ask_scoped_transfers [OF w])
    have one: "write_chunk w peer c b d0 s0 = (r, d', sh') \<Longrightarrow> sh_transfers s0 = sh_transfers sh1 \<Longrightarrow>
        x \<in> set (sh_transfers sh1) \<or> noted_as c b r x" for b d0 s0
      using write_chunk_transfers [of w peer c b d0 s0 r d' sh' x] x by auto
    have weaker: "noted_as c False r x \<Longrightarrow> noted_as c (continues_write w c sh) r x" by (auto simp: noted_as_def)
    have question: "ask_write w peer c d (snd known) = (r, d', sh') \<Longrightarrow> x \<in> set (sh_transfers sh1) \<or> noted_as c False r x"
      using one [of False "rw_asking w d" "snd asked"] x keep
      unfolding ask_write_def Let_def asked_def [symmetric] case_prod_unfold by (auto split: if_splits)
    show ?thesis
      using cases call one [of "continues_write w c sh" d sh1] one [of False d "snd known"]
        question weaker keep by (auto split: if_splits)
  qed
  moreover have "set (sh_transfers sh1) \<subseteq> set (sh_transfers sh)" using transfer_continues_set by (simp add: sh1_def)
  ultimately show ?thesis by blast
qed

lemma files_write_parsed:
  assumes "files_method w peer (lit ''files.write'') params d sh = (r, d', sh')"
  shows "(\<exists>c. get_str (lit ''path'') params = Some (wr_path c) \<and> wr_mode c = text_or params ''mode'' (lit ''create'') \<and>
      wr_offset c = u64_or_0 params ''offset'' \<and>
      write_call w peer c (f_ask_on_write (st_files (sh_settings sh))) d sh = (r, d', sh')) \<or>
    sh' = sh \<and> (\<exists>e. r = Err e)"
proof (cases "\<exists>path c. \<not> sh_paused sh \<and> f_enabled (st_files (sh_settings sh)) \<and> get_str (lit ''path'') params = Some path \<and>
    chunk_of w params path (f_roots (st_files (sh_settings sh))) d = Ok c")
  case True
  then obtain path c where c: "get_str (lit ''path'') params = Some path" "chunk_of w params path (f_roots (st_files (sh_settings sh))) d = Ok c"
    and on: "\<not> sh_paused sh" "f_enabled (st_files (sh_settings sh))" by blast
  then have "write_call w peer c (f_ask_on_write (st_files (sh_settings sh))) d sh = (r, d', sh')"
    using assms by (simp add: files_method_def Let_def)
  with c show ?thesis by (auto simp: chunk_of_def split: sum.splits)
next
  case False
  then show ?thesis
    using assms by (auto simp: files_method_def Let_def split: if_splits option.splits sum.splits)
qed

lemma transfers_from_mono: "transfers_from hist sh \<Longrightarrow> set hist \<subseteq> set hist' \<Longrightarrow> transfers_from hist' sh"
  unfolding transfers_from_def list_ex_iff by fast

lemma transfers_from_step:
  assumes call: "files_method w peer (lit ''files.write'') params d sh = (r, d', sh')" and w: "apart_from_writes w"
    and inv: "transfers_from hist sh"
  shows "transfers_from (hist @ [(params, r)]) sh'"
proof -
  consider c where "get_str (lit ''path'') params = Some (wr_path c)" "wr_mode c = text_or params ''mode'' (lit ''create'')"
      "write_call w peer c (f_ask_on_write (st_files (sh_settings sh))) d sh = (r, d', sh')"
    | "sh' = sh" using files_write_parsed [OF call] by blast
  then show ?thesis
  proof cases
    case 1
    have "list_ex (begins_write p) (hist @ [(params, r)]) \<and> list_ex (left_off p n) (hist @ [(params, r)])"
      if "(p, n, t) \<in> set (sh_transfers sh')" for p n t
    proof -
      from write_call_transfers [OF 1(3) that w]
      consider "(p, n, t) \<in> set (sh_transfers sh)" | "noted_as c (continues_write w c sh) r (p, n, t)" by blast
      then show ?thesis
      proof cases
        case 1
        then show ?thesis using inv by (auto simp: transfers_from_def)
      next
        case 2
        then have p: "p = wr_path c" and r: "r = Ok (JObj [(lit ''size'', JInt (int n))])"
          and how: "wr_mode c \<noteq> lit ''append'' \<or> continues_write w c sh" by (auto simp: noted_as_def)
        have "list_ex (begins_write p) (hist @ [(params, r)])"
        proof (cases "wr_mode c = lit ''append''")
          case True
          with how transfer_continues_in obtain u where "(wr_path c, wr_offset c, u) \<in> set (sh_transfers sh)"
            unfolding continues_write_def by blast
          with inv p show ?thesis by (auto simp: transfers_from_def)
        next
          case False
          then show ?thesis using 1(1,2) p r by (simp add: begins_write_def)
        qed
        moreover have "left_off p n (params, r)" using 1(1) p r by (simp add: left_off_def)
        ultimately show ?thesis by simp
      qed
    qed
    then show ?thesis unfolding transfers_from_def by blast
  next
    case 2
    then show ?thesis using transfers_from_mono [OF inv, of "hist @ [(params, r)]"] by auto
  qed
qed

lemma run_writes_from:
  "run_writes xs d sh = (rs, d', sh') \<Longrightarrow> list_all (\<lambda>(w, _). apart_from_writes w) xs \<Longrightarrow> transfers_from hist sh \<Longrightarrow>
   transfers_from (hist @ rs) sh'"
proof (induction xs arbitrary: d sh hist rs)
  case (Cons x xs)
  obtain w peer params where x: "x = (w, peer, params)" by (cases x)
  obtain r d1 sh1 where call: "files_method w peer (lit ''files.write'') params d sh = (r, d1, sh1)" by (metis prod_cases3)
  obtain rs1 where rs: "rs = (params, r) # rs1" "run_writes xs d1 sh1 = (rs1, d', sh')"
    using Cons.prems(1) call by (cases "run_writes xs d1 sh1") (auto simp: x)
  have "transfers_from (hist @ [(params, r)]) sh1"
    using transfers_from_step [OF call _ Cons.prems(3)] Cons.prems(2) by (simp add: x)
  from Cons.IH [OF rs(2) _ this] Cons.prems(2) rs(1) show ?case by simp
qed simp

text \<open>
  an owner who is asked before writes, says no and has remembered nothing sees no write but one
  that goes on where a write of the same file left off: the append of a chunk exactly at the
  end, of a file that an earlier call of the same path made or replaced.
\<close>

theorem unasked_write_goes_on:
  assumes "run_writes xs d0 sh0 = (hist, d, sh)" and "sh_transfers sh0 = []"
    and "list_all (\<lambda>(w, _). apart_from_writes w) xs"
    and "files_method w peer (lit ''files.write'') params d sh = (Ok v, d', sh')"
    and "f_ask_on_write (st_files (sh_settings sh))" and "get_str (lit ''path'') params = Some path"
    and "\<not> fst (sh_grant_allows (rw_wall w) peer (lit ''files'') path sh)" and "\<not> owner_said_yes w (lit ''files'') path"
  shows "text_or params ''mode'' (lit ''create'') = lit ''append'' \<and> list_ex (begins_write path) hist \<and>
    list_ex (left_off path (u64_or_0 params ''offset'')) hist"
proof -
  have "transfers_from [] sh0" using assms(2) by (simp add: transfers_from_def)
  from run_writes_from [OF assms(1,3) this] have inv: "transfers_from hist sh" by simp
  from files_write_parsed [OF assms(4)] obtain c where c: "wr_path c = path" "wr_mode c = text_or params ''mode'' (lit ''create'')"
    "wr_offset c = u64_or_0 params ''offset''" "write_call w peer c True d sh = (Ok v, d', sh')"
    using assms(5,6) by auto
  from write_call_disk [OF c(4)] assms(7,8) c(1) have "continues_write w c sh" by simp
  then obtain u where "(path, wr_offset c, u) \<in> set (sh_transfers sh)" "wr_mode c = lit ''append''"
    using transfer_continues_in c(1) unfolding continues_write_def by blast
  then show ?thesis using inv c(2,3) by (auto simp: transfers_from_def)
qed

section \<open>Who may read cookies\<close>

definition cookies_allowed :: "rpc_world \<Rightarrow> slot_ref option \<Rightarrow> cookies_mode \<Rightarrow> utext \<Rightarrow> shared \<Rightarrow> bool" where
  "cookies_allowed w peer mode domain sh \<longleftrightarrow>
     (case mode of
        CookiesAuto \<Rightarrow> True
      | CookiesAskNew \<Rightarrow> fst (sh_grant_allows (rw_wall w) peer (lit ''cookies'') domain sh) \<or>
          owner_said_yes w (lit ''cookies'') domain
      | CookiesAsk \<Rightarrow> owner_said_yes w (lit ''cookies'') domain)"

lemma cookies_question_key:
  "rq_capability (cookies_question peer domain reason first sh) = lit ''cookies''"
  "rq_scope (cookies_question peer domain reason first sh) = domain"
  by (auto simp: cookies_question_def new_request_def Let_def split: option.split bool.split)

lemma cookies_ask_yes:
  "allow (fst (ask_scoped (rw_owner w) now peer cap sc (cookies_question peer' domain reason first sh0) sh)) \<Longrightarrow>
   owner_said_yes w (lit ''cookies'') domain"
  unfolding owner_said_yes_def by (drule ask_yes) (simp add: cookies_question_key)


section \<open>Nothing ahead of time\<close>

text \<open>
  a synth cannot get an action in the owner's apps or a command allowed ahead of time: such a
  request is refused without a question and leaves everything as it is. Any other permission
  is granted only by the owner's yes to this very capability and scope, which is shown.
\<close>

theorem no_permission_ahead:
  "(get_str (lit ''capability'') params \<in> {Some (lit ''apps''), Some (lit ''shell'')} \<longrightarrow>
      (\<exists>e. permission_request w peer params sh = (Err e, sh))) \<and>
   (\<forall>v sh'. permission_request w peer params sh = (Ok v, sh') \<longrightarrow>
      (\<exists>cap. get_str (lit ''capability'') params = Some cap \<and> owner_said_yes w cap (text_or params ''scope'' [])))"
proof -
  have "\<exists>e. permission_request w peer params sh = (Err e, sh)"
    if "get_str (lit ''capability'') params \<in> {Some (lit ''apps''), Some (lit ''shell'')}"
    using that by (auto simp: permission_request_def Let_def)
  moreover have "\<exists>cap. get_str (lit ''capability'') params = Some cap \<and> owner_said_yes w cap (text_or params ''scope'' [])"
    if ok: "permission_request w peer params sh = (Ok v, sh')" for v sh'
  proof -
    obtain cap where cap: "get_str (lit ''capability'') params = Some cap"
      using ok by (auto simp: permission_request_def split: if_splits option.splits)
    define ask where "ask = ask_scoped (rw_owner w) (rw_wall w) peer cap (text_or params ''scope'' [])
      (new_request cap (text_or params ''scope'' []) (text_or params ''reason'' [])
         (lit ''grant '' @ cap @ lit '' for '' @ text_or params ''scope'' [])) sh"
    have "allow (fst ask)"
      using ok cap by (auto simp: permission_request_def Let_def case_prod_unfold ask_def [symmetric] split: if_splits)
    then have "owner_said_yes w cap (text_or params ''scope'' [])" unfolding ask_def by (rule ask_said_yes)
    with cap show ?thesis by blast
  qed
  ultimately show ?thesis by blast
qed

section \<open>Examples\<close>

definition rpc_world_with :: "owner \<Rightarrow> rpc_world" where
  "rpc_world_with owner = \<lparr>rw_nm = example_names, rw_owner = owner, rw_wall = 0, rw_now = 0, rw_noted = 0,
     rw_decode = (\<lambda>_. Ok [7, 8]), rw_encode = (\<lambda>_. []), rw_modified = (\<lambda>_. 0), rw_failed = (\<lambda>_. []),
     rw_asking = id, rw_cookies = (\<lambda>_. Some (Ok (Ok ([], [])))), rw_reading = id, rw_left = 0, rw_browsers = (\<lambda>_. (0, id))\<rparr>"

lemma rpc_world_facts [simp]:
  "rw_nm (rpc_world_with f) = example_names" "rw_owner (rpc_world_with f) = f" "rw_wall (rpc_world_with f) = 0"
  "rw_now (rpc_world_with f) = 0" "rw_noted (rpc_world_with f) = 0" "rw_decode (rpc_world_with f) t = Ok [7, 8]"
  "rw_asking (rpc_world_with f) = id"
  by (simp_all add: rpc_world_with_def)

definition folder_disk :: disk where
  "folder_disk = [([lit ''d''], NDir)]"

definition files_shared :: shared where
  "files_shared = blank_shared (default_settings\<lparr>
     st_files := \<lparr>f_enabled = True, f_roots = [\<lparr>r_path = lit ''/d'', r_write = True\<rparr>], f_ask_on_write = True\<rparr>,
     st_cookies := \<lparr>k_enabled = True, k_mode = CookiesAsk\<rparr>\<rparr>)"

definition write_params :: "string \<Rightarrow> nat \<Rightarrow> json" where
  "write_params mode offset = JObj [(lit ''mode'', JStr (lit mode)), (lit ''offset'', JInt (int offset)),
     (lit ''path'', JStr (lit ''/d/n''))]"

lemma files_shared_facts:
  "\<not> sh_paused files_shared" "f_enabled (st_files (sh_settings files_shared))" "f_ask_on_write (st_files (sh_settings files_shared))"
  "f_roots (st_files (sh_settings files_shared)) = [\<lparr>r_path = lit ''/d'', r_write = True\<rparr>]" "sh_transfers files_shared = []"
  "sh_grants files_shared = []"
  by (simp_all add: files_shared_def blank_shared_def make_shared_def sh_settings_def)

lemma write_params_facts:
  "get_str (lit ''path'') (write_params m n) = Some (lit ''/d/n'')" "text_or (write_params m n) ''mode'' x = lit m"
  "text_or (write_params m n) ''data_b64'' x = x" "n < 2 ^ 64 \<Longrightarrow> u64_or_0 (write_params m n) ''offset'' = n"
  by (simp_all add: write_params_def text_or_def u64_or_0_def json_defs)

abbreviation yes_world :: rpc_world where
  "yes_world \<equiv> rpc_world_with (\<lambda>_. InTime id approval_once)"

lemma write_place:
  "resolve_write folder_disk (lit ''/d/n'') [\<lparr>r_path = lit ''/d'', r_write = True\<rparr>] = Ok [lit ''d'', lit ''n'']"
  "resolve_write (put_node [lit ''d'', lit ''n''] (NFile [7, 8]) folder_disk) (lit ''/d/n'')
     [\<lparr>r_path = lit ''/d'', r_write = True\<rparr>] = Ok [lit ''d'', lit ''n'']"
  by code_simp+

lemma write_nodes:
  "node_at folder_disk [lit ''d'', lit ''n''] = None" "node_at folder_disk [lit ''d''] = Some NDir"
  "node_at (put_node [lit ''d'', lit ''n''] (NFile [7, 8]) folder_disk) [lit ''d'', lit ''n''] = Some (NFile [7, 8])"
  "canonicalize (put_node [lit ''d'', lit ''n''] (NFile [7, 8]) folder_disk) (map Name [lit ''d'', lit ''n'']) = Some [lit ''d'', lit ''n'']"
  by code_simp+

lemma write_done:
  "write_file folder_disk [lit ''d'', lit ''n''] (lit ''create'') 0 [7, 8] =
     (Ok 2, put_node [lit ''d'', lit ''n''] (NFile [7, 8]) folder_disk)"
  "fst (write_file (put_node [lit ''d'', lit ''n''] (NFile [7, 8]) folder_disk) [lit ''d'', lit ''n''] (lit ''append'') 2 [7, 8]) = Ok 4"
  unfolding write_file_def write_nodes by (simp_all add: WRITE_MAX_def write_nodes [simplified] node_size_def)

lemma none_granted: "sh_grants sh = [] \<Longrightarrow> \<not> fst (sh_grant_allows now peer cap sc sh)"
  by (simp add: sh_grant_allows_def grant_allows_def prune_def Let_def)

lemma first_write:
  "\<exists>sh. files_method yes_world None (lit ''files.write'') (write_params ''create'' 0) folder_disk files_shared =
     (Ok (JObj [(lit ''size'', JInt 2)]), put_node [lit ''d'', lit ''n''] (NFile [7, 8]) folder_disk, sh) \<and>
     sh_transfers sh = [(lit ''/d/n'', 2, 0)] \<and> sh_settings sh = sh_settings files_shared \<and> \<not> sh_paused sh \<and>
     sh_grants sh = []"
proof -
  define c where "c = \<lparr>wr_path = lit ''/d/n'', wr_place = [lit ''d'', lit ''n''], wr_mode = lit ''create'', wr_offset = 0, wr_data = [7, 8]\<rparr>"
  have "chunk_of yes_world (write_params ''create'' 0) (lit ''/d/n'') (f_roots (st_files (sh_settings files_shared))) folder_disk = Ok c"
    by (simp add: chunk_of_def files_shared_facts write_params_facts write_place c_def)
  then have "files_method yes_world None (lit ''files.write'') (write_params ''create'' 0) folder_disk files_shared =
      write_call yes_world None c True folder_disk files_shared"
    by (simp add: files_method_def files_shared_facts write_params_facts Let_def)
  also have "\<dots> = ask_write yes_world None c folder_disk (snd (sh_grant_allows 0 None (lit ''files'') (lit ''/d/n'') files_shared))"
    unfolding write_call_cases Let_def
    by (simp add: continues_write_def c_def none_granted files_shared_facts)
  finally have call: "files_method yes_world None (lit ''files.write'') (write_params ''create'' 0) folder_disk files_shared = \<dots>" .
  show ?thesis
    unfolding call
    by (simp add: ask_write_def ask_scoped_def answer_ask_def Let_def rpc_world_with_def approval_once_def write_chunk_def
        write_done c_def transfer_note_def sh_record_def persist_grants_def save_locked_def set_persisted_def
        sh_grant_allows_def grant_allows_def prune_def files_shared_facts sh_settings_def record_grant_def)
qed


theorem unasked_write_goes_on_witness:
  "\<exists>sh. fst (run_writes [(yes_world, None, write_params ''create'' 0)] folder_disk files_shared) =
       [(write_params ''create'' 0, Ok (JObj [(lit ''size'', JInt 2)]))] \<and>
     left_off (lit ''/d/n'') 2 (write_params ''create'' 0, Ok (JObj [(lit ''size'', JInt 2)]))"
proof -
  let ?d = "put_node [lit ''d'', lit ''n''] (NFile [7, 8]) folder_disk" and ?r = "Ok (JObj [(lit ''size'', JInt 2)]) :: (utext, json) result"
    and ?no = "rpc_world_with quiet_owner"
  obtain sh where w: "files_method yes_world None (lit ''files.write'') (write_params ''create'' 0) folder_disk files_shared =
      (?r, ?d, sh)" and sh: "sh_transfers sh = [(lit ''/d/n'', 2, 0)]" "sh_settings sh = sh_settings files_shared"
      "\<not> sh_paused sh" "sh_grants sh = []"
    using first_write by blast
  have run: "run_writes [(yes_world, None, write_params ''create'' 0)] folder_disk files_shared =
      ([(write_params ''create'' 0, ?r)], ?d, sh)" by (simp add: w)
  define c where "c = \<lparr>wr_path = lit ''/d/n'', wr_place = [lit ''d'', lit ''n''], wr_mode = lit ''append'', wr_offset = 2, wr_data = [7, 8]\<rparr>"
  have "chunk_of ?no (write_params ''append'' 2) (lit ''/d/n'') (f_roots (st_files (sh_settings sh))) ?d = Ok c"
    by (simp add: chunk_of_def sh files_shared_facts write_params_facts write_place c_def)
  then have "files_method ?no None (lit ''files.write'') (write_params ''append'' 2) ?d sh = write_call ?no None c True ?d sh"
    by (simp add: files_method_def sh files_shared_facts write_params_facts Let_def)
  moreover have "continues_write ?no c sh"
    by (simp add: continues_write_def c_def transfer_continues_def sh Let_def rpc_world_with_def TRANSFER_IDLE_def seconds_def)
  ultimately have "files_method ?no None (lit ''files.write'') (write_params ''append'' 2) ?d sh =
      write_chunk ?no None c True ?d (snd (transfer_continues 0 (lit ''/d/n'') 2 sh))"
    unfolding write_call_cases Let_def by (simp add: c_def rpc_world_with_def)
  moreover obtain d' where "write_file ?d (wr_place c) (wr_mode c) (wr_offset c) (wr_data c) = (Ok 4, d')"
    using write_done(2) by (cases "write_file ?d (wr_place c) (wr_mode c) (wr_offset c) (wr_data c)") (simp add: c_def)
  ultimately obtain v d'' sh' where again: "files_method ?no None (lit ''files.write'') (write_params ''append'' 2) ?d sh = (Ok v, d'', sh')"
    by (simp add: write_chunk_def Let_def)
  have "apart_from_writes yes_world" by (simp add: apart_from_writes_def rpc_world_with_def)
  moreover have "\<not> owner_said_yes ?no (lit ''files'') (lit ''/d/n'')"
    by (simp add: owner_said_yes_def rpc_world_with_def quiet_owner_def)
  ultimately have "list_ex (left_off (lit ''/d/n'') (u64_or_0 (write_params ''append'' 2) ''offset''))
      [(write_params ''create'' 0, ?r)]"
    using unasked_write_goes_on [OF run files_shared_facts(5) _ again] sh
    by (simp add: files_shared_facts write_params_facts none_granted)
  then show ?thesis unfolding run by (simp add: write_params_facts)
qed


theorem no_permission_ahead_witness:
  "owner_said_yes yes_world (lit ''files'') (lit ''/d'')"
proof -
  let ?p = "JObj [(lit ''capability'', JStr (lit ''files'')), (lit ''scope'', JStr (lit ''/d''))]"
  obtain v sh' where "permission_request yes_world None ?p files_shared = (Ok v, sh')"
    by (simp add: permission_request_def json_defs text_or_def files_shared_facts Let_def case_prod_unfold rpc_world_with_def
        ask_scoped_def answer_ask_def approval_once_def)
  from no_permission_ahead [of ?p yes_world None files_shared] this show ?thesis
    by (auto simp: json_defs text_or_def)
qed

end
