(* ===== verification/Island_Messages.thy ===== *)
theory Island_Messages
  imports Core_Links
begin

text \<open>
  \<open>island.rs\<close>: what the owner sends to a synth from the island (a line, a voice, screenshots),
  checked against the limits of the protocol and sent at most twice; the synth's face; the
  events of the synth that the island shows. The encoding of base64, the size of a JSON
  value as it is written and the answers of the link are parameters.
\<close>

definition ISLAND_FEATURE :: utext where "ISLAND_FEATURE = lit ''island''"
definition FEATURE_DEVICE_STT :: utext where "FEATURE_DEVICE_STT = lit ''island_device_stt''"
definition FEATURE_DEVICE_TONE :: utext where "FEATURE_DEVICE_TONE = lit ''island_device_tone''"
definition FEATURE_VOICE_REPLY :: utext where "FEATURE_VOICE_REPLY = lit ''island_voice_reply''"
definition REQUESTS_FEATURE :: utext where "REQUESTS_FEATURE = lit ''requests''"
definition ISLAND_VERSION :: nat where "ISLAND_VERSION = 1"
definition MAX_VOICE_MS :: nat where "MAX_VOICE_MS = 120000"
definition MAX_IMAGES :: nat where "MAX_IMAGES = 2"
definition MAX_IMAGE_EDGE :: nat where "MAX_IMAGE_EDGE = 2560"
definition MAX_REQUEST_BYTES :: nat where "MAX_REQUEST_BYTES = 8 * 1024 * 1024"
definition MAX_FACE_BYTES :: nat where "MAX_FACE_BYTES = 4096"
definition MAX_TEXT_CHARS :: nat where "MAX_TEXT_CHARS = 4000"
definition MAX_TRANSCRIPT_CHARS :: nat where "MAX_TRANSCRIPT_CHARS = 8000"
definition MAX_TONE_CHARS :: nat where "MAX_TONE_CHARS = 600"
definition MAX_SPEECH_BYTES :: nat where "MAX_SPEECH_BYTES = 6 * 1024 * 1024 div 4 * 3"
definition MAX_SPEECH_TEXT_CHARS :: nat where "MAX_SPEECH_TEXT_CHARS = 2000"
definition MAX_SUMMARY_CHARS :: nat where "MAX_SUMMARY_CHARS = 200"

record island_world =
  iw_encode :: "nat list \<Rightarrow> utext"
  iw_decode :: "utext \<Rightarrow> (utext, nat list) result"
  iw_json_len :: "json \<Rightarrow> nat option"             \<comment> \<open>None: it cannot be written\<close>
  iw_call :: "nat \<Rightarrow> json \<Rightarrow> (utext, json) result"  \<comment> \<open>the answer to the first and the second try\<close>
  iw_calling :: "nat \<Rightarrow> shared \<Rightarrow> shared"
  iw_waiting :: "shared \<Rightarrow> shared"                \<comment> \<open>until the link is back, or ten seconds\<close>
  iw_sink :: "(island_speech \<Rightarrow> (utext, unit) result) option"
  iw_now_ms :: nat

section \<open>A message of the owner\<close>

definition capability :: "bool \<Rightarrow> json option" where
  "capability on = (if on then Some (JObj [(lit ''enabled'', JBool True), (lit ''version'', JInt (int ISLAND_VERSION))]) else None)"

definition with_capability :: "json \<Rightarrow> bool \<Rightarrow> json" where
  "with_capability caps on =
     (case (capability on, caps) of
        (Some c, JObj kvs) \<Rightarrow> JObj (obj_put (lit ''island'') c kvs)
      | _ \<Rightarrow> caps)"

datatype msg_mode = MVoice | MScreenVoice | MText

fun mode_str :: "msg_mode \<Rightarrow> utext" where
  "mode_str MVoice = lit ''voice''"
| "mode_str MScreenVoice = lit ''screen_voice''"
| "mode_str MText = lit ''text''"

record audio =
  au_mime :: utext
  au_data :: "nat list"
  au_ms :: nat

record image =
  im_mime :: utext
  im_data :: "nat list"
  im_edge :: nat

record owner_message =
  om_client :: utext
  om_mode :: msg_mode
  om_text :: utext
  om_audio :: "audio option"
  om_images :: "image list"
  om_transcript :: "utext option"
  om_tone :: "utext option"
  om_reply :: "voice_reply option"

record send_error =
  se_code :: utext
  se_detail :: utext

definition send_error :: "string \<Rightarrow> utext \<Rightarrow> send_error" where
  "send_error code detail = \<lparr>se_code = lit code, se_detail = detail\<rparr>"

definition AUDIO_MIMES :: "utext list" where
  "AUDIO_MIMES = map lit [''audio/ogg'', ''audio/mp4'', ''audio/wav'']"

definition IMAGE_MIMES :: "utext list" where
  "IMAGE_MIMES = map lit [''image/jpeg'', ''image/png'']"

definition b64_len :: "nat \<Rightarrow> nat" where
  "b64_len n = (n + 2) div 3 * 4"

definition spoken :: "owner_message \<Rightarrow> utext option" where
  \<comment> \<open>the transcript, when there is something in it\<close>
  "spoken m = (case om_transcript m of None \<Rightarrow> None | Some t \<Rightarrow> if trim t = [] then None else Some (trim t))"

definition check_mode :: "owner_message \<Rightarrow> send_error option" where
  "check_mode m =
     (case om_mode m of
        MText \<Rightarrow>
          (if trim (om_text m) = [] then Some (send_error ''empty'' (lit ''no text''))
           else if om_audio m \<noteq> None then Some (send_error ''failed'' (lit ''a text message carries no voice''))
           else if om_transcript m \<noteq> None
           then Some (send_error ''failed'' (lit ''a text message carries no voice transcript'')) else None)
      | mode \<Rightarrow>
          (if om_audio m \<noteq> None \<and> om_transcript m \<noteq> None
           then Some (send_error ''failed'' (lit ''a voice message carries the audio or its transcript, not both''))
           else if mode = MVoice \<and> om_audio m = None \<and> spoken m = None then Some (send_error ''empty'' (lit ''no voice''))
           else if mode = MScreenVoice \<and> om_audio m = None \<and> spoken m = None \<and> om_images m = []
           then Some (send_error ''empty'' (lit ''no voice and no screenshot'')) else None))"

fun check_images :: "image list \<Rightarrow> send_error option" where
  "check_images [] = None"
| "check_images (i # is) =
     (if im_mime i \<notin> set IMAGE_MIMES
      then Some (send_error ''failed'' (lit ''image type '' @ im_mime i @ lit '' is not taken''))
      else if MAX_IMAGE_EDGE < im_edge i \<or> im_data i = []
      then Some (send_error ''too_large'' (lit ''an image of '' @ digits (im_edge i) @ lit '' px (max 2560)''))
      else check_images is)"

definition check_audio :: "owner_message \<Rightarrow> send_error option" where
  "check_audio m =
     (case om_audio m of
        None \<Rightarrow> None
      | Some a \<Rightarrow>
          (let raw = b64_len (length (au_data a)) + sum_list (map (\<lambda>i. b64_len (length (im_data i))) (om_images m))
           in if au_mime a \<notin> set AUDIO_MIMES
              then Some (send_error ''failed'' (lit ''audio type '' @ au_mime a @ lit '' is not taken''))
              else if MAX_VOICE_MS < au_ms a
              then Some (send_error ''too_long'' (digits (au_ms a) @ lit '' ms of voice (max 120000)''))
              else if au_data a = [] then Some (send_error ''empty'' (lit ''the recording is empty''))
              else if MAX_REQUEST_BYTES < raw
              then Some (send_error ''too_large'' (digits raw @ lit '' bytes of media (max 8388608)'')) else None))"

definition tone_of :: "owner_message \<Rightarrow> utext option" where
  "tone_of m = (case om_tone m of None \<Rightarrow> None | Some t \<Rightarrow> if trim t = [] then None else Some (trim t))"

definition check_message :: "owner_message \<Rightarrow> send_error option" where
  \<comment> \<open>the first check that fails\<close>
  "check_message m =
     (if trim (om_client m) = [] then Some (send_error ''failed'' (lit ''a message needs a client_id''))
      else if MAX_TEXT_CHARS < length (trim (om_text m))
      then Some (send_error ''too_large'' (lit ''text longer than 4000 characters''))
      else if (case om_transcript m of Some t \<Rightarrow> MAX_TRANSCRIPT_CHARS < length (trim t) | None \<Rightarrow> False)
      then Some (send_error ''too_large'' (lit ''a transcript longer than 8000 characters''))
      else case check_mode m of
          Some e \<Rightarrow> Some e
        | None \<Rightarrow>
            if om_mode m \<noteq> MScreenVoice \<and> om_images m \<noteq> []
            then Some (send_error ''failed'' (lit ''only screen_voice carries images''))
            else if MAX_IMAGES < length (om_images m) then Some (send_error ''too_large'' (lit ''more than 2 images''))
            else case check_images (om_images m) of
                Some e \<Rightarrow> Some e
              | None \<Rightarrow>
                  (case check_audio m of
                     Some e \<Rightarrow> Some e
                   | None \<Rightarrow>
                       if tone_of m \<noteq> None \<and> spoken m = None
                       then Some (send_error ''failed'' (lit ''a voice tone goes only with a transcript'')) else None))"

definition image_value :: "island_world \<Rightarrow> image \<Rightarrow> json" where
  "image_value w i = JObj [(lit ''b64'', JStr (iw_encode w (im_data i))), (lit ''mime'', JStr (im_mime i))]"

definition opt_field :: "string \<Rightarrow> json option \<Rightarrow> (utext \<times> json) list" where
  "opt_field k v = (case v of None \<Rightarrow> [] | Some x \<Rightarrow> [(lit k, x)])"

definition message_value :: "island_world \<Rightarrow> owner_message \<Rightarrow> json" where
  "message_value w m = JObj (
     opt_field ''audio'' (map_option (\<lambda>a. JObj [(lit ''b64'', JStr (iw_encode w (au_data a))),
       (lit ''mime'', JStr (au_mime a)), (lit ''ms'', JInt (int (au_ms a)))]) (om_audio m)) @
     [(lit ''client_id'', JStr (om_client m))] @
     opt_field ''images'' (if om_images m = [] then None else Some (JArr (map (image_value w) (om_images m)))) @
     [(lit ''mode'', JStr (mode_str (om_mode m)))] @
     opt_field ''stt'' (map_option (\<lambda>_. JStr (lit ''device'')) (spoken m)) @
     [(lit ''text'', JStr (trim (om_text m)))] @
     opt_field ''voice_reply'' (if om_mode m = MText then None else map_option (\<lambda>r. JStr (voice_reply_str r)) (om_reply m)) @
     opt_field ''voice_tone'' (map_option (\<lambda>t. JStr (take MAX_TONE_CHARS t)) (tone_of m)) @
     opt_field ''voice_transcript'' (map_option JStr (spoken m)))"

definition envelope :: "json \<Rightarrow> json" where
  "envelope params = JObj [(lit ''id'', JInt (2 ^ 64 - 1)), (lit ''method'', JStr (lit ''owner.message'')),
     (lit ''params'', params), (lit ''type'', JStr (lit ''request''))]"

definition message_params :: "island_world \<Rightarrow> owner_message \<Rightarrow> (send_error, json) result" where
  "message_params w m =
     (case check_message m of
        Some e \<Rightarrow> Err e
      | None \<Rightarrow>
          (let p = message_value w m
           in case iw_json_len w (envelope p) of
                None \<Rightarrow> Err (send_error ''too_large'' (lit ''a request of 18446744073709551615 bytes (max 8388608)''))
              | Some n \<Rightarrow>
                  if MAX_REQUEST_BYTES < n + 1
                  then Err (send_error ''too_large'' (lit ''a request of '' @ digits (n + 1) @ lit '' bytes (max 8388608)''))
                  else Ok p))"

definition send_error_of :: "utext \<Rightarrow> send_error" where
  "send_error_of e =
     (let code = trim (hd (split_char 58 e)); lower = to_ascii_lowercase e
      in if code \<in> set (map lit [''too_large'', ''no_owner_session'', ''busy'']) then \<lparr>se_code = code, se_detail = e\<rparr>
         else if code = lit ''bad_request'' then send_error ''failed'' e
         else if contains_str (lit ''needs an update'') lower \<or> contains_str (lit ''unknown method'') lower
         then send_error ''outdated'' e
         else if starts_with (lit ''unavailable: not linked'') lower \<or> contains_str (lit ''link to the synth dropped'') lower \<or>
                 contains_str (lit ''did not answer in time'') lower
         then send_error ''offline'' e
         else send_error ''failed'' e)"

definition accepted_of :: "json \<Rightarrow> (send_error, utext) result" where
  "accepted_of answer =
     (case get_str (lit ''error'') answer of
        Some e \<Rightarrow> Err (send_error_of e)
      | None \<Rightarrow>
          (if get_bool (lit ''accepted'') answer \<noteq> Some True
           then Err (send_error ''failed'' (lit ''the synth did not accept the message''))
           else
             (let i = (case get_str (lit ''message_id'') answer of Some s \<Rightarrow> trim s | None \<Rightarrow> [])
              in if i = [] then Err (send_error ''failed'' (lit ''the synth accepted without a message_id''))
                 else Ok (clip i 128))))"

section \<open>What a link takes\<close>

definition slot_has :: "utext \<Rightarrow> link_slot \<Rightarrow> bool" where
  "slot_has f s \<longleftrightarrow> (case sl_synth s of Some a \<Rightarrow> ack_has f a | None \<Rightarrow> False)"

definition island_supports :: "link_slot \<Rightarrow> bool" where
  "island_supports s \<longleftrightarrow> slot_has ISLAND_FEATURE s \<and> slot_has REQUESTS_FEATURE s"

definition supports_device_stt :: "link_slot \<Rightarrow> bool" where
  "supports_device_stt s \<longleftrightarrow> island_supports s \<and> slot_has FEATURE_DEVICE_STT s"

definition supports_device_tone :: "link_slot \<Rightarrow> bool" where
  "supports_device_tone s \<longleftrightarrow> supports_device_stt s \<and> slot_has FEATURE_DEVICE_TONE s"

definition supports_voice_reply :: "link_slot \<Rightarrow> bool" where
  "supports_voice_reply s \<longleftrightarrow> island_supports s \<and> slot_has FEATURE_VOICE_REPLY s"

definition drop_field :: "string \<Rightarrow> json \<Rightarrow> json" where
  "drop_field k v = (case v of JObj kvs \<Rightarrow> JObj (obj_remove (lit k) kvs) | _ \<Rightarrow> v)"

definition params_for :: "link_slot \<Rightarrow> json \<Rightarrow> json" where
  \<comment> \<open>without what the synth would not know\<close>
  "params_for s p =
     (let p1 = (if supports_device_tone s then p else drop_field ''voice_tone'' p)
      in if supports_voice_reply s then p1 else drop_field ''voice_reply'' p1)"

section \<open>Sending\<close>

definition send_refusal :: "slot_ref \<Rightarrow> owner_message \<Rightarrow> shared \<Rightarrow> send_error option" where
  \<comment> \<open>before every try\<close>
  "send_refusal r m sh =
     (let s = slot_at sh r
      in if sh_paused sh then Some (send_error ''paused'' (lit ''the owner paused SNTH Connect''))
         else if sl_state s \<noteq> Linked then Some (send_error ''offline'' (sl_detail s))
         else if \<not> island_supports s then Some (send_error ''outdated'' (lit ''the synth does not announce the island''))
         else if om_transcript m \<noteq> None \<and> \<not> supports_device_stt s
         then Some (send_error ''no_device_stt'' (lit ''the synth does not take a transcript'')) else None)"

text \<open>The answer, what was sent, and the state after it.\<close>

type_synonym send_answer = "(send_error, utext) result \<times> json list \<times> shared"

function send_loop :: "island_world \<Rightarrow> slot_ref \<Rightarrow> owner_message \<Rightarrow> json \<Rightarrow> bool \<Rightarrow> shared \<Rightarrow> send_answer" where
  "send_loop w r m params retried sh =
     (case send_refusal r m sh of
        Some e \<Rightarrow> (Err e, [], sh)
      | None \<Rightarrow>
          (let p = params_for (slot_at sh r) params; n = (if retried then 1 else 0); sh1 = iw_calling w n sh
           in case iw_call w n p of
                Ok answer \<Rightarrow> (accepted_of answer, [p], sh1)
              | Err e \<Rightarrow>
                  if \<not> retried \<and> contains_str (lit ''dropped'') e then
                    (case send_loop w r m params True (iw_waiting w sh1) of (res, sent, sh2) \<Rightarrow> (res, p # sent, sh2))
                  else (Err (send_error_of e), [p], sh1)))"
  by pat_completeness auto

termination
  by (relation "measure (\<lambda>(w, r, m, params, retried, sh). if retried then 0 else 1)") auto

declare send_loop.simps [simp del]

definition island_send :: "island_world \<Rightarrow> utext \<Rightarrow> owner_message \<Rightarrow> shared \<Rightarrow> send_answer" where
  "island_send w synth m sh =
     (case find_link synth sh of
        None \<Rightarrow> (Err (send_error ''no_synth'' synth), [], sh)
      | Some r \<Rightarrow>
          (case message_params w m of
             Err e \<Rightarrow> (Err e, [], sh)
           | Ok p \<Rightarrow> send_loop w r m p False sh))"

section \<open>Faces\<close>

definition face_ok :: "island_world \<Rightarrow> json \<Rightarrow> bool" where
  "face_ok w face \<longleftrightarrow> is_JObj face \<and> (case iw_json_len w face of Some n \<Rightarrow> n \<le> MAX_FACE_BYTES | None \<Rightarrow> False)"

definition store_face :: "utext \<Rightarrow> json option \<Rightarrow> shared \<Rightarrow> shared" where
  "store_face synth face sh =
     (if synth = [] then sh
      else let p = sh_persisted sh;
               changed = (p_faces p synth \<noteq> face);
               p1 = p\<lparr>p_faces := (p_faces p)(synth := face)\<rparr>;
               sh1 = (if changed then save_locked (set_persisted p1 sh) else set_persisted p1 sh)
           in if changed \<or> synth \<notin> set (sh_faces_read sh1)
              then emit (EvFace synth) (sh1\<lparr>sh_faces_read := List.insert synth (sh_faces_read sh1)\<rparr>) else sh1)"

definition face_of :: "string \<Rightarrow> json \<Rightarrow> json" where
  "face_of key v = (case jget (lit key) v of Some f \<Rightarrow> f | None \<Rightarrow> JNull)"

definition keep_face :: "island_world \<Rightarrow> utext \<Rightarrow> json \<Rightarrow> utext \<Rightarrow> shared \<Rightarrow> (utext, unit) result \<times> shared" where
  "keep_face w synth face why sh =
     (if face = JNull then (Ok (), store_face synth None sh)
      else if face_ok w face then (Ok (), store_face synth (Some face) sh)
      else (Err why, sh))"

definition refresh_face :: "island_world \<Rightarrow> slot_ref \<Rightarrow> shared \<Rightarrow> (utext, unit) result \<times> shared" where
  "refresh_face w r sh =
     (if \<not> island_supports (slot_at sh r) then (Err (lit ''unavailable: the synth does not announce the island''), sh)
      else let sh1 = iw_calling w 0 sh
           in case iw_call w 0 (JObj []) of
                Err e \<Rightarrow> (Err e, sh1)
              | Ok answer \<Rightarrow> keep_face w (sl_synth_id (slot_at sh r)) (face_of ''face'' answer)
                  (lit ''the synth's face is not a FaceConfig of at most 4 KB'') sh1)"

datatype face_set = FaceSaved json | FaceInvalid utext

definition face_refusal :: "utext \<Rightarrow> utext" where
  "face_refusal e = trim (trim_start_matches [58] (trim_start_matches (lit ''invalid_face'') e))"

definition set_face :: "island_world \<Rightarrow> utext \<Rightarrow> json \<Rightarrow> bool \<Rightarrow> shared \<Rightarrow> (utext, face_set) result \<times> shared" where
  "set_face w synth face patch sh =
     (case find_link synth sh of
        None \<Rightarrow> (Err (lit ''unknown_synth''), sh)
      | Some r \<Rightarrow>
          if \<not> face_ok w face then (Ok (FaceInvalid (lit ''a face is a JSON object of at most 4096 bytes'')), sh)
          else if sl_state (slot_at sh r) \<noteq> Linked then (Err (lit ''offline''), sh)
          else if \<not> island_supports (slot_at sh r) then (Err (lit ''outdated''), sh)
          else let sh1 = iw_calling w 0 sh
               in case iw_call w 0 (JObj [(lit ''face'', face), (lit ''patch'', JBool patch)]) of
                    Err e \<Rightarrow>
                      (if starts_with (lit ''invalid_face'') e then (Ok (FaceInvalid (face_refusal e)), sh1) else (Err e, sh1))
                  | Ok answer \<Rightarrow>
                      if get_str (lit ''error'') answer = Some (lit ''invalid_face'') then
                        (Ok (FaceInvalid (clip (case get_str (lit ''reason'') answer of Some t \<Rightarrow> t | None \<Rightarrow> []) 400)), sh1)
                      else if face_ok w (face_of ''face'' answer) then
                        (Ok (FaceSaved (face_of ''face'' answer)), store_face synth (Some (face_of ''face'' answer)) sh1)
                      else (Err (lit ''the synth answered without a face''), sh1))"

section \<open>Events of a synth\<close>

definition EVENT_KINDS :: "utext list" where
  "EVENT_KINDS = map lit [''accepted'', ''working'', ''done'', ''error'', ''face'', ''speech'', ''limits'']"

definition speech_mime :: "utext \<Rightarrow> utext option" where
  "speech_mime mime =
     (let base = to_ascii_lowercase (trim (hd (split_char 59 mime)))
      in if base \<in> set (map lit [''audio/mpeg'', ''audio/mp3'', ''audio/mpeg3'', ''audio/x-mpeg'']) then Some (lit ''audio/mpeg'')
         else if base \<in> set (map lit [''audio/wav'', ''audio/x-wav'', ''audio/wave'', ''audio/vnd.wave'']) then Some (lit ''audio/wav'')
         else if base \<in> set (map lit [''audio/ogg'', ''audio/opus'', ''audio/x-opus'']) then Some (lit ''audio/ogg'')
         else None)"

definition event_text :: "json \<Rightarrow> string \<Rightarrow> nat \<Rightarrow> utext" where
  "event_text params key mx = (case get_str (lit key) params of Some s \<Rightarrow> clip s mx | None \<Rightarrow> [])"

definition or_str :: "json \<Rightarrow> string \<Rightarrow> utext" where
  "or_str v key = (case get_str (lit key) v of Some s \<Rightarrow> s | None \<Rightarrow> [])"

definition speech_data :: "json \<Rightarrow> utext" where
  \<comment> \<open>\<open>data\<close>, or when there is none \<open>b64\<close>\<close>
  "speech_data a =
     (case (case jget (lit ''data'') a of Some v \<Rightarrow> Some v | None \<Rightarrow> jget (lit ''b64'') a) of
        None \<Rightarrow> [] | Some v \<Rightarrow> (case as_str v of Some s \<Rightarrow> s | None \<Rightarrow> []))"

definition speech_of :: "island_world \<Rightarrow> utext \<Rightarrow> json \<Rightarrow> (utext, island_speech) result" where
  "speech_of w synth params =
     (case jget (lit ''audio'') params of
        None \<Rightarrow> Err (lit ''bad request: a speech event carries params.audio'')
      | Some a \<Rightarrow>
          (case speech_mime (or_str a ''mime'') of
             None \<Rightarrow> Err (lit ''bad request: speech audio type '' @ quoted (clip (or_str a ''mime'') 64) @ lit '' is not played here'')
           | Some mime \<Rightarrow>
               (let b64 = speech_data a
                in if b64 = [] then Err (lit ''bad request: a speech event without audio data'')
                   else if b64_len MAX_SPEECH_BYTES + 4 < utf8_len b64
                   then Err (lit ''too_large: speech audio of '' @ digits (utf8_len b64) @ lit '' base64 bytes (max 4718592 bytes decoded)'')
                   else case iw_decode w (trim b64) of
                       Err e \<Rightarrow> Err (lit ''bad request: speech audio is not base64: '' @ e)
                     | Ok data \<Rightarrow>
                         if data = [] \<or> MAX_SPEECH_BYTES < length data
                         then Err (lit ''too_large: speech audio of '' @ digits (length data) @ lit '' bytes (max 4718592)'')
                         else Ok \<lparr>sp_synth = synth, sp_message = event_text params ''message_id'' 128, sp_mime = mime,
                           sp_audio = data, sp_text = event_text params ''text'' MAX_SPEECH_TEXT_CHARS,
                           sp_duration_ms = Option.bind (jget (lit ''duration_ms'') params) as_u64\<rparr>)))"

definition event_done :: json where
  "event_done = JObj [(lit ''ok'', JBool True)]"

definition channel_of :: "json \<Rightarrow> utext" where
  "channel_of params = filter (\<lambda>c. is_ascii_alphanumeric c \<or> c = 95 \<or> c = 45) (event_text params ''channel'' 32)"

definition message_event :: "utext \<Rightarrow> utext \<Rightarrow> json \<Rightarrow> island_event" where
  "message_event synth kind params = \<lparr>ie_synth = synth, ie_kind = kind, ie_message = event_text params ''message_id'' 128,
     ie_summary = event_text params ''summary'' MAX_SUMMARY_CHARS, ie_channel = channel_of params\<rparr>"

definition speech_event :: "island_world \<Rightarrow> utext \<Rightarrow> json \<Rightarrow> shared \<Rightarrow> (utext, json) result \<times> shared" where
  "speech_event w synth params sh =
     (case speech_of w synth params of
        Err e \<Rightarrow> (Err e, sh)
      | Ok sp \<Rightarrow>
          (case iw_sink w of
             Some sink \<Rightarrow> (case sink sp of Err e \<Rightarrow> (Err e, sh) | Ok _ \<Rightarrow> (Ok event_done, sh))
           | None \<Rightarrow> (Ok event_done, emit (EvSpeech sp) sh)))"

definition island_on :: "shared \<Rightarrow> bool" where
  "island_on sh \<longleftrightarrow> is_enabled (p_island (sh_persisted sh))"

definition handle_event :: "island_world \<Rightarrow> slot_ref option \<Rightarrow> json \<Rightarrow> shared \<Rightarrow> (utext, json) result \<times> shared" where
  "handle_event w peer params sh =
     (let kind = or_str params ''kind''; synth = current_synth_id peer sh
      in if \<not> island_on sh \<and> kind \<noteq> lit ''speech'' then (Err (lit ''denied: the island is off on this computer''), sh)
         else if synth = [] then (Err (lit ''denied: not from a linked synth''), sh)
         else if kind \<notin> set EVENT_KINDS then (Err (lit ''bad request: unknown island event kind '' @ quoted kind), sh)
         else if kind = lit ''face'' then
           (case keep_face w synth (face_of ''face'' params)
               (lit ''bad request: params.face must be a FaceConfig object of at most 4096 bytes'') sh of
              (Err e, sh1) \<Rightarrow> (Err e, sh1) | (Ok _, sh1) \<Rightarrow> (Ok event_done, sh1))
         else if kind = lit ''limits'' then
           (case parse_limits (iw_now_ms w) params of
              Err e \<Rightarrow> (Err e, sh) | Ok l \<Rightarrow> (Ok event_done, sh_store_limits synth l sh))
         else if kind = lit ''speech'' then speech_event w synth params sh
         else (Ok event_done, emit (EvIsland (message_event synth kind params)) sh))"

section \<open>What goes out\<close>

definition message_ok :: "owner_message \<Rightarrow> bool" where
  \<comment> \<open>the limits of the protocol\<close>
  "message_ok m \<longleftrightarrow> trim (om_client m) \<noteq> [] \<and> length (trim (om_text m)) \<le> MAX_TEXT_CHARS \<and>
     (\<forall>t. om_transcript m = Some t \<longrightarrow> length (trim t) \<le> MAX_TRANSCRIPT_CHARS) \<and>
     \<not> (om_audio m \<noteq> None \<and> om_transcript m \<noteq> None) \<and>
     (om_mode m = MText \<longrightarrow> trim (om_text m) \<noteq> [] \<and> om_audio m = None \<and> om_transcript m = None) \<and>
     (om_mode m = MVoice \<longrightarrow> om_audio m \<noteq> None \<or> spoken m \<noteq> None) \<and>
     (om_images m \<noteq> [] \<longrightarrow> om_mode m = MScreenVoice) \<and> length (om_images m) \<le> MAX_IMAGES \<and>
     list_all (\<lambda>i. im_mime i \<in> set IMAGE_MIMES \<and> im_edge i \<le> MAX_IMAGE_EDGE \<and> im_data i \<noteq> []) (om_images m) \<and>
     (\<forall>a. om_audio m = Some a \<longrightarrow> au_mime a \<in> set AUDIO_MIMES \<and> au_ms a \<le> MAX_VOICE_MS \<and> au_data a \<noteq> []) \<and>
     (tone_of m \<noteq> None \<longrightarrow> spoken m \<noteq> None)"

lemma check_images_None:
  "check_images is = None \<Longrightarrow> list_all (\<lambda>i. im_mime i \<in> set IMAGE_MIMES \<and> im_edge i \<le> MAX_IMAGE_EDGE \<and> im_data i \<noteq> []) is"
  by (induction "is") (auto split: if_splits)

lemma check_mode_None:
  assumes "check_mode m = None"
  shows "\<not> (om_audio m \<noteq> None \<and> om_transcript m \<noteq> None) \<and>
     (om_mode m = MText \<longrightarrow> trim (om_text m) \<noteq> [] \<and> om_audio m = None \<and> om_transcript m = None) \<and>
     (om_mode m = MVoice \<longrightarrow> om_audio m \<noteq> None \<or> spoken m \<noteq> None)"
  using assms by (cases "om_mode m") (auto simp: check_mode_def split: if_splits)

lemma check_audio_None:
  "check_audio m = None \<Longrightarrow> om_audio m = Some a \<Longrightarrow>
   au_mime a \<in> set AUDIO_MIMES \<and> au_ms a \<le> MAX_VOICE_MS \<and> au_data a \<noteq> []"
  by (auto simp: check_audio_def Let_def split: if_splits)

lemma check_message_None: "check_message m = None \<Longrightarrow> message_ok m"
  using check_mode_None [of m] check_images_None [of "om_images m"] check_audio_None [of m]
  by (auto simp: check_message_def message_ok_def split: if_splits option.splits)

lemma message_params_ok:
  assumes "message_params w m = Ok p"
  shows "message_ok m \<and> p = message_value w m \<and> (\<exists>n. iw_json_len w (envelope p) = Some n \<and> n < MAX_REQUEST_BYTES)"
proof -
  have "check_message m = None" using assms by (auto simp: message_params_def split: option.splits)
  with assms check_message_None show ?thesis
    by (auto simp: message_params_def Let_def split: option.splits if_splits)
qed

lemma client_in_value: "jget (lit ''client_id'') (message_value w m) = Some (JStr (om_client m))"
  by (cases "om_audio m") (simp_all add: message_value_def opt_field_def jget_def)

lemma jget_drop: "k \<noteq> lit x \<Longrightarrow> jget k (drop_field x v) = jget k v"
  by (cases v) (simp_all add: drop_field_def jget_def map_of_obj_remove)

lemma jget_params_for:
  "k \<noteq> lit ''voice_tone'' \<Longrightarrow> k \<noteq> lit ''voice_reply'' \<Longrightarrow> jget k (params_for s p) = jget k p"
  by (simp add: params_for_def Let_def jget_drop)

lemma jget_dropped: "jget (lit x) (drop_field x v) = None"
  by (cases v) (simp_all add: drop_field_def jget_def map_of_obj_remove)

definition known_to :: "link_slot \<Rightarrow> json \<Rightarrow> bool" where
  \<comment> \<open>nothing in it that a synth of this link would not know\<close>
  "known_to s p \<longleftrightarrow> (jget (lit ''voice_tone'') p \<noteq> None \<longrightarrow> supports_device_tone s) \<and>
     (jget (lit ''voice_reply'') p \<noteq> None \<longrightarrow> supports_voice_reply s)"

lemma params_for_known: "known_to s (params_for s p)"
  by (auto simp: known_to_def params_for_def Let_def jget_dropped jget_drop)

definition sent_ok :: "owner_message \<Rightarrow> json \<Rightarrow> bool" where
  "sent_ok m p \<longleftrightarrow> jget (lit ''client_id'') p = Some (JStr (om_client m)) \<and>
     jget (lit ''voice_transcript'') p = map_option JStr (spoken m) \<and> jget (lit ''text'') p = Some (JStr (trim (om_text m)))"

lemma sent_ok_value: "sent_ok m (message_value w m)"
  unfolding sent_ok_def
  by (cases "om_audio m"; cases "spoken m"; cases "om_images m"; cases "om_reply m"; cases "tone_of m")
    (simp_all add: message_value_def opt_field_def jget_def)

lemma sent_ok_for: "sent_ok m p \<Longrightarrow> sent_ok m (params_for s p)"
  by (simp add: sent_ok_def jget_params_for)

lemma send_once_more:
  "send_loop w r m params True sh = (res, sent, sh') \<Longrightarrow> length sent \<le> 1 \<and> (sent_ok m params \<longrightarrow> list_all (sent_ok m) sent)"
  unfolding send_loop.simps [of w r m params True sh] Let_def
  by (auto simp: sent_ok_for split: option.splits sum.splits)


section \<open>What the island shows\<close>

lemma clip_shown: "length (clip s n) \<le> n + 1" "c \<in> set (clip s n) \<Longrightarrow> \<not> is_control c"
proof -
  let ?t = "map (\<lambda>c. if is_control c then 32 else c) (take n s)"
  have short: "length (trim ?t) \<le> n" using length_trim [of ?t] by simp
  have "clip s n = trim ?t \<or> clip s n = trim ?t @ [8230]" unfolding clip_def Let_def by metis
  then show "length (clip s n) \<le> n + 1" proof (elim disjE)
    assume "clip s n = trim ?t" with short show ?thesis by (simp only:)
  next
    assume "clip s n = trim ?t @ [8230]" with short show ?thesis by (simp only: length_append_singleton)
  qed
  have "c \<in> set (trim ?t) \<Longrightarrow> \<not> is_control c" using set_trim [of ?t] by (auto simp: is_control_def)
  moreover have "\<not> is_control 8230" by (simp add: is_control_def)
  ultimately show "c \<in> set (clip s n) \<Longrightarrow> \<not> is_control c" by (auto simp: clip_def Let_def split: if_splits)
qed

definition plain_text :: "nat \<Rightarrow> utext \<Rightarrow> bool" where
  \<comment> \<open>with an ellipsis for what was cut\<close>
  "plain_text n t \<longleftrightarrow> length t \<le> n + 1 \<and> list_all (\<lambda>c. \<not> is_control c) t"

lemma event_text_plain: "plain_text n (event_text params key n)"
  using clip_shown by (auto simp: event_text_def plain_text_def list_all_iff split: option.split)

definition event_ok :: "utext \<Rightarrow> core_event \<Rightarrow> bool" where
  "event_ok synth e \<longleftrightarrow>
     (case e of
        EvIsland x \<Rightarrow> ie_synth x = synth \<and> ie_kind x \<in> set (map lit [''accepted'', ''working'', ''done'', ''error'']) \<and>
          plain_text 128 (ie_message x) \<and> plain_text MAX_SUMMARY_CHARS (ie_summary x) \<and>
          list_all (\<lambda>c. is_ascii_alphanumeric c \<or> c = 95 \<or> c = 45) (ie_channel x)
      | EvSpeech x \<Rightarrow> sp_synth x = synth \<and> plain_text 128 (sp_message x) \<and> plain_text MAX_SPEECH_TEXT_CHARS (sp_text x) \<and>
          sp_mime x \<in> set (map lit [''audio/mpeg'', ''audio/wav'', ''audio/ogg'']) \<and>
          sp_audio x \<noteq> [] \<and> length (sp_audio x) \<le> MAX_SPEECH_BYTES
      | EvFace s \<Rightarrow> s = synth
      | EvLimits s \<Rightarrow> s = synth
      | _ \<Rightarrow> False)"

lemma speech_mime_ok: "speech_mime t = Some x \<Longrightarrow> x \<in> set (map lit [''audio/mpeg'', ''audio/wav'', ''audio/ogg''])"
  by (auto simp: speech_mime_def Let_def split: if_splits)

lemma speech_of_ok: "speech_of w synth params = Ok sp \<Longrightarrow> event_ok synth (EvSpeech sp)"
  using event_text_plain
  by (auto simp: speech_of_def Let_def event_ok_def simp del: list.set set_map dest!: speech_mime_ok split: option.splits sum.splits if_splits)

definition only_for :: "island_world \<Rightarrow> utext \<Rightarrow> shared \<Rightarrow> shared \<Rightarrow> bool" where
  \<comment> \<open>what an event of a synth changed is what belongs to that synth\<close>
  "only_for w synth sh sh' \<longleftrightarrow> sh_settings sh' = sh_settings sh \<and> sh_grants sh' = sh_grants sh \<and> sh_slots sh' = sh_slots sh \<and>
     (\<forall>s. s \<noteq> synth \<longrightarrow> p_faces (sh_persisted sh') s = p_faces (sh_persisted sh) s \<and> sh_limits sh' s = sh_limits sh s) \<and>
     (\<forall>f. p_faces (sh_persisted sh') synth = Some f \<longrightarrow>
        p_faces (sh_persisted sh) synth = Some f \<or> is_JObj f \<and> (\<exists>n. iw_json_len w f = Some n \<and> n \<le> MAX_FACE_BYTES)) \<and>
     (\<exists>es. sh_events sh' = sh_events sh @ es \<and> length es \<le> 1 \<and> list_all (event_ok synth) es)"

lemma only_for_same: "only_for w synth sh sh"
  by (simp add: only_for_def)

lemma only_for_emit: "event_ok synth e \<Longrightarrow> only_for w synth sh (emit e sh)"
  by (simp add: only_for_def emit_def sh_settings_def)

lemma only_for_face:
  assumes "\<And>f. face = Some f \<Longrightarrow> face_ok w f"
  shows "only_for w synth sh (store_face synth face sh)"
proof -
  have "event_ok synth (EvFace synth)" by (simp add: event_ok_def)
  moreover have "face = Some f \<Longrightarrow> is_JObj f \<and> (\<exists>n. iw_json_len w f = Some n \<and> n \<le> MAX_FACE_BYTES)" for f
    using assms by (auto simp: face_ok_def split: option.splits)
  ultimately show ?thesis
    by (auto simp: only_for_def store_face_def Let_def emit_def save_locked_def set_persisted_def sh_settings_def)
qed

lemma only_for_limits: "only_for w synth sh (sh_store_limits synth l sh)"
proof -
  have "event_ok synth (EvLimits synth)" by (simp add: event_ok_def)
  then show ?thesis
    by (auto simp: only_for_def sh_store_limits_def store_limits_def Let_def emit_def sh_settings_def split: prod.split)
qed

lemma keep_face_only:
  "keep_face w synth face why sh = (r, sh') \<Longrightarrow> only_for w synth sh sh'"
  by (auto simp: keep_face_def only_for_same intro!: only_for_face split: if_splits)

lemma message_event_ok:
  assumes "kind \<in> set EVENT_KINDS" "kind \<noteq> lit ''face''" "kind \<noteq> lit ''limits''" "kind \<noteq> lit ''speech''"
  shows "event_ok synth (EvIsland (message_event synth kind params))"
proof -
  have "kind \<in> set (map lit [''accepted'', ''working'', ''done'', ''error''])" using assms by (auto simp: EVENT_KINDS_def)
  then show ?thesis
    by (simp add: event_ok_def message_event_def event_text_plain channel_of_def list_all_iff)
qed

text \<open>
  an event of a synth reaches the island only from a link with a synth, and but for a spoken answer
  only while the island is on. It changes nothing but the face and the limits of that very
  synth, a face of at most four kilobytes, and shows at most one event of its own, of a kind
  that is known, in bounded plain text without control characters.
\<close>

theorem synth_event_stays_its_own:
  assumes "handle_event w peer params sh = (r, sh')"
  shows "only_for w (current_synth_id peer sh) sh sh' \<and>
    (is_ok r \<longrightarrow> current_synth_id peer sh \<noteq> [] \<and> (island_on sh \<or> or_str params ''kind'' = lit ''speech''))"
proof -
  let ?synth = "current_synth_id peer sh" and ?kind = "or_str params ''kind''"
  show ?thesis
  proof (cases "(island_on sh \<or> ?kind = lit ''speech'') \<and> ?synth \<noteq> [] \<and> ?kind \<in> set EVENT_KINDS")
    case False
    then have "sh' = sh \<and> \<not> is_ok r" using assms by (auto simp: handle_event_def Let_def split: if_splits)
    then show ?thesis by (simp add: only_for_same)
  next
    case True
    have speech: "speech_event w ?synth params sh = (r, sh') \<Longrightarrow> only_for w ?synth sh sh'"
      using only_for_emit [OF speech_of_ok] only_for_same
      by (fastforce simp: speech_event_def split: sum.splits option.splits)
    have "only_for w ?synth sh sh'"
      using assms True speech keep_face_only only_for_limits only_for_same only_for_emit [OF message_event_ok]
      unfolding handle_event_def Let_def by (fastforce split: if_splits sum.splits prod.splits)
    then show ?thesis using True by blast
  qed
qed

definition island_shared :: shared where
  "island_shared = linked_shared\<lparr>sh_persisted := (sh_persisted linked_shared)
     \<lparr>p_island := (p_island (sh_persisted linked_shared))\<lparr>is_enabled := True\<rparr>\<rparr>\<rparr>"

definition done_event :: json where
  "done_event = JObj [(lit ''kind'', JStr (lit ''done'')), (lit ''summary'', JStr (lit ''ok''))]"

lemma done_event_kind [simp]: "or_str done_event ''kind'' = lit ''done''"
  by (simp add: or_str_def done_event_def get_str_def jget_def as_str_def)

lemma island_shared_synth [simp]: "current_synth_id (Some 0) island_shared = lit ''mia''"
  using linked_shared_facts(4) by (simp add: current_synth_id_def current_slot_def island_shared_def slot_at_def)

lemma island_shared_on [simp]: "island_on island_shared"
  by (simp add: island_on_def island_shared_def)

theorem synth_event_stays_its_own_witness:
  "\<forall>w. handle_event w (Some 0) done_event island_shared =
     (Ok event_done, emit (EvIsland (message_event (lit ''mia'') (lit ''done'') done_event)) island_shared) \<and>
   only_for w (lit ''mia'') island_shared (emit (EvIsland (message_event (lit ''mia'') (lit ''done'') done_event)) island_shared)"
proof (rule allI)
  fix w
  have e: "handle_event w (Some 0) done_event island_shared =
     (Ok event_done, emit (EvIsland (message_event (lit ''mia'') (lit ''done'') done_event)) island_shared)"
    by (simp add: handle_event_def Let_def EVENT_KINDS_def lit_def)
  from e synth_event_stays_its_own [OF e] show "handle_event w (Some 0) done_event island_shared =
     (Ok event_done, emit (EvIsland (message_event (lit ''mia'') (lit ''done'') done_event)) island_shared) \<and>
    only_for w (lit ''mia'') island_shared (emit (EvIsland (message_event (lit ''mia'') (lit ''done'') done_event)) island_shared)"
    by simp
qed

end
