(* ===== verification/Control_Stream.thy ===== *)
theory Control_Stream
  imports Island_Messages Observe_Reports Shell_Gate App_Gate Line_Frames Link_Loop
begin

text \<open>
  \<open>wire.rs\<close>, what the app says of itself on a link, and the control stream and the streams of
  one link of \<open>link.rs\<close> (\<open>run_one\<close>, \<open>control_loop\<close>, \<open>serve_stream\<close>). The control stream is a
  machine: what comes in, what the watches tell and what other tasks do in between are its
  events. A watch (\<open>settings_tx\<close>, \<open>control_tx\<close>) tells its reader only that there is something
  newer than what was seen, so it is a flag. What the operating system says of the computer
  and of the driver, and the writing of a line (it may fail), are parameters.
\<close>

section \<open>What is said\<close>

record link_world =
  lw_offered :: "app_offer list"
  lw_shell :: utext                \<comment> \<open>the name of the shell\<close>
  lw_os :: utext
  lw_os_version :: utext
  lw_arch :: utext
  lw_hostname :: utext
  lw_app_version :: utext
  lw_cua_version :: utext
  lw_cua_status :: utext

definition PROTO :: nat where "PROTO = 1"

definition net_mode_str :: "net_mode \<Rightarrow> utext" where
  "net_mode_str m = (case m of NetAll \<Rightarrow> lit ''all'' | NetAsk \<Rightarrow> lit ''ask'' | NetList \<Rightarrow> lit ''list'')"

definition computer_mode_str :: "computer_mode \<Rightarrow> utext" where
  "computer_mode_str m = (case m of ComputerAsk \<Rightarrow> lit ''ask'' | ComputerAuto \<Rightarrow> lit ''auto'' | ComputerAway \<Rightarrow> lit ''away'')"

definition foreground_str :: "foreground \<Rightarrow> utext" where
  "foreground_str f = (case f of FgNever \<Rightarrow> lit ''never'' | FgIdle \<Rightarrow> lit ''idle'' | FgAsk \<Rightarrow> lit ''ask'' | FgAlways \<Rightarrow> lit ''always'')"

definition experiment_str :: "cua_experiment \<Rightarrow> utext" where
  "experiment_str e = (case e of ExpDefault \<Rightarrow> lit ''default'' | ExpOn \<Rightarrow> lit ''on'' | ExpOff \<Rightarrow> lit ''off'')"

definition root_value :: "root \<Rightarrow> json" where
  "root_value r = JObj [(lit ''path'', JStr (r_path r)), (lit ''write'', JBool (r_write r))]"

definition computer_value :: "link_world \<Rightarrow> computer_settings \<Rightarrow> json" where
  "computer_value w c = JObj [(lit ''cua_version'', JStr (lw_cua_version w)), (lit ''enabled'', JBool (c_enabled c)),
     (lit ''experiment'', JStr (experiment_str (c_experiment c))), (lit ''foreground'', JStr (foreground_str (c_foreground c))),
     (lit ''locked_use'', JBool False), (lit ''mode'', JStr (computer_mode_str (c_mode c))), (lit ''status'', JStr (lw_cua_status w))]"

definition capabilities_value :: "link_world \<Rightarrow> settings \<Rightarrow> json" where
  "capabilities_value w s = JObj [
     (lit ''apps'', apps_value (lw_offered w) (st_apps s)),
     (lit ''computer'', computer_value w (st_computer s)),
     (lit ''cookies'', JObj [(lit ''enabled'', JBool (k_enabled (st_cookies s)))]),
     (lit ''files'', JObj [(lit ''enabled'', JBool (f_enabled (st_files s))),
        (lit ''max_request_bytes'', JInt (int MAX_REQUEST_LINE)), (lit ''roots'', JArr (map root_value (f_roots (st_files s))))]),
     (lit ''net'', JObj [(lit ''enabled'', JBool (n_enabled (st_net s))), (lit ''mode'', JStr (net_mode_str (n_mode (st_net s))))]),
     (lit ''shell'', shell_value (lw_shell w) (st_shell s))]"

definition capabilities_now :: "link_world \<Rightarrow> shared \<Rightarrow> json" where
  "capabilities_now w sh = with_capability (capabilities_value w (sh_settings sh)) (island_on sh)"

definition hello_message :: "link_world \<Rightarrow> utext \<Rightarrow> nat \<Rightarrow> json \<Rightarrow> json" where
  "hello_message w device rv caps = JObj [(lit ''app_version'', JStr (lw_app_version w)), (lit ''arch'', JStr (lw_arch w)),
     (lit ''capabilities'', caps), (lit ''device_id'', JStr device), (lit ''device_name'', JStr (lw_hostname w)),
     (lit ''os'', JStr (lw_os w)), (lit ''proto'', JInt (int PROTO)), (lit ''settings_rev'', JInt (int rv)),
     (lit ''type'', JStr (lit ''hello''))]"

definition presence_message :: "nat \<Rightarrow> bool \<Rightarrow> bool \<Rightarrow> bool \<Rightarrow> json" where
  "presence_message idle locked paused metered = JObj [(lit ''idle_seconds'', JInt (int idle)), (lit ''metered'', JBool metered),
     (lit ''paused'', JBool paused), (lit ''screen_locked'', JBool locked), (lit ''type'', JStr (lit ''presence''))]"

definition settings_message :: "nat \<Rightarrow> json \<Rightarrow> json" where
  "settings_message rv caps = JObj [(lit ''capabilities'', caps), (lit ''settings_rev'', JInt (int rv)), (lit ''type'', JStr (lit ''settings''))]"

definition device_info :: "link_world \<Rightarrow> utext \<Rightarrow> json" where
  "device_info w device = JObj [(lit ''app_version'', JStr (lw_app_version w)), (lit ''arch'', JStr (lw_arch w)),
     (lit ''cua_version'', JStr (lw_cua_version w)), (lit ''device_id'', JStr device), (lit ''device_name'', JStr (lw_hostname w)),
     (lit ''hostname'', JStr (lw_hostname w)), (lit ''os'', JStr (lw_os w)), (lit ''os_version'', JStr (lw_os_version w))]"

text \<open>The synth's answer: a missing field has its default, one of another type makes the whole answer the default.\<close>

definition ack_text :: "string \<Rightarrow> json \<Rightarrow> utext option" where
  "ack_text k msg = (case jget (lit k) msg of None \<Rightarrow> Some [] | Some v \<Rightarrow> as_str v)"

definition ack_texts :: "string \<Rightarrow> json \<Rightarrow> utext list option" where
  "ack_texts k msg = (case jget (lit k) msg of
      None \<Rightarrow> Some []
    | Some (JArr vs) \<Rightarrow> if list_all (\<lambda>v. as_str v \<noteq> None) vs then Some (List.map_filter as_str vs) else None
    | Some _ \<Rightarrow> None)"

definition no_ack :: hello_ack where
  "no_ack = \<lparr>ha_synth_id = [], ha_synth_name = [], ha_synth_version = [], ha_features = [], ha_observe_resources = []\<rparr>"

definition parse_ack :: "json \<Rightarrow> hello_ack" where
  "parse_ack msg =
     (case (ack_text ''synth_id'' msg, ack_text ''synth_name'' msg, ack_text ''synth_version'' msg,
            ack_texts ''features'' msg, ack_texts ''observe_resources'' msg) of
        (Some i, Some n, Some v, Some fs, Some rs) \<Rightarrow>
          \<lparr>ha_synth_id = i, ha_synth_name = n, ha_synth_version = v, ha_features = fs, ha_observe_resources = rs\<rparr>
      | _ \<Rightarrow> no_ack)"

section \<open>The control stream\<close>

datatype control_stage =
    CtlHeader             \<comment> \<open>the header is being written\<close>
  | CtlReply              \<comment> \<open>waiting for the answer to it\<close>
  | CtlAccepted           \<comment> \<open>asking the driver for its version\<close>
  | CtlHello json         \<comment> \<open>the hello is being written\<close>
  | CtlRunning            \<comment> \<open>the writer waits\<close>
  | CtlTelling nat        \<comment> \<open>the writer asks the driver before it tells the settings\<close>
  | CtlSaying nat json    \<comment> \<open>the settings are being written\<close>
  | CtlEnded utext

record control =
  co_shared :: shared
  co_observe :: link_observe
  co_generation :: nat
  co_stage :: control_stage
  co_sent :: "json list"
  co_settings_new :: bool  \<comment> \<open>the watch has something that was not seen\<close>
  co_control_new :: bool
  co_established :: bool
  co_reporting :: bool     \<comment> \<open>the task of the observe reports runs\<close>
  co_faces :: nat          \<comment> \<open>how often the face was asked for\<close>

definition on_requests :: "slot_ref \<Rightarrow> (link_requests \<Rightarrow> link_requests) \<Rightarrow> shared \<Rightarrow> shared" where
  "on_requests r f sh = upd_slot r (\<lambda>s. s\<lparr>sl_requests := f (sl_requests s)\<rparr>) sh"

definition control_open :: "slot_ref \<Rightarrow> link_observe \<Rightarrow> shared \<Rightarrow> control" where
  "control_open r ob sh =
     \<lparr>co_shared = on_requests r (\<lambda>q. snd (attach q)) sh, co_observe = ob,
      co_generation = fst (attach (sl_requests (slot_at sh r))), co_stage = CtlHeader, co_sent = [],
      co_settings_new = False, co_control_new = False, co_established = False, co_reporting = False, co_faces = 0\<rparr>"

definition ends :: "slot_ref \<Rightarrow> utext \<Rightarrow> control \<Rightarrow> control" where
  \<comment> \<open>the stream is over: its requests are taken down, its reports end with its queue\<close>
  "ends r why c = c\<lparr>co_stage := CtlEnded why, co_shared := on_requests r (detach (co_generation c)) (co_shared c),
     co_reporting := False\<rparr>"

definition writes :: "slot_ref \<Rightarrow> string \<Rightarrow> json \<Rightarrow> utext option \<Rightarrow> control \<Rightarrow> control" where
  \<comment> \<open>a line goes out, or the writing fails\<close>
  "writes r what m failed c =
     (case failed of None \<Rightarrow> c\<lparr>co_sent := co_sent c @ [m]\<rparr> | Some e \<Rightarrow> ends r (lit ''send '' @ lit what @ lit '': '' @ e) c)"

definition header_line :: json where
  "header_line = JObj [(lit ''kind'', JStr (lit ''control''))]"

datatype header_answer = NoAnswer | AnswerClosed | AnswerFailed utext | AnswerBad utext | AnswerIs bool utext

definition control_answered :: "slot_ref \<Rightarrow> header_answer \<Rightarrow> control \<Rightarrow> control" where
  "control_answered r a c = (case a of
      NoAnswer \<Rightarrow> ends r (lit ''no header reply from the synth'') c
    | AnswerClosed \<Rightarrow> ends r (lit ''closed before the header reply'') c
    | AnswerFailed e \<Rightarrow> ends r (lit ''read header reply: '' @ e) c
    | AnswerBad e \<Rightarrow> ends r (lit ''bad header reply: '' @ e) c
    | AnswerIs ok e \<Rightarrow>
        if ok then c\<lparr>co_stage := CtlAccepted\<rparr> else ends r (lit ''synth refused the control stream: '' @ e) c)"

definition control_hello :: "link_world \<Rightarrow> control \<Rightarrow> control" where
  "control_hello w c =
     (let sh = co_shared c
      in c\<lparr>co_stage := CtlHello (hello_message w (p_device_id (sh_persisted sh)) (p_rev (sh_persisted sh)) (capabilities_now w sh))\<rparr>)"

definition control_greeted :: "slot_ref \<Rightarrow> json \<Rightarrow> utext option \<Rightarrow> control \<Rightarrow> control" where
  \<comment> \<open>the hello is out; only now the watches are subscribed to\<close>
  "control_greeted r hello failed c =
     (case failed of
        Some e \<Rightarrow> ends r (lit ''send hello: '' @ e) c
      | None \<Rightarrow> c\<lparr>co_sent := co_sent c @ [hello], co_stage := CtlRunning, co_settings_new := False, co_control_new := False\<rparr>)"

definition take_ack :: "slot_ref \<Rightarrow> hello_ack \<Rightarrow> control \<Rightarrow> control" where
  "take_ack r ack c =
     (let sh1 = on_requests r (set_supported (ack_has REQUESTS_FEATURE ack)) (co_shared c);
          sh2 = set_synth r ack sh1;
          sh3 = set_slot_state r Linked (lit ''linked to '' @ ha_synth_name ack) sh2;
          faces = (if island_on sh3 \<and> island_supports (slot_at sh3 r) then co_faces c + 1 else co_faces c)
      in c\<lparr>co_shared := sh3, co_observe := note_ack ack (co_observe c), co_established := True,
           co_reporting := (ack_has OBSERVE_FEATURE ack \<and> sender (co_generation c) (sl_requests (slot_at sh3 r))),
           co_faces := faces\<rparr>)"

definition control_line :: "slot_ref \<Rightarrow> json \<Rightarrow> control \<Rightarrow> control" where
  \<comment> \<open>a line of the synth; what is not JSON counts as null\<close>
  "control_line r msg c =
     (let t = get_str (lit ''type'') msg
      in if t = Some (lit ''hello_ack'') then take_ack r (parse_ack msg) c
         else if t = Some (lit ''response'') then c\<lparr>co_shared := on_requests r (resolve_response msg) (co_shared c)\<rparr>
         else if t = Some (lit ''unpair_ack'')
         then ends r (lit ''unpaired (ack)'') (c\<lparr>co_shared := upd_slot r (\<lambda>s. s\<lparr>sl_unpair_ack := True\<rparr>) (co_shared c)\<rparr>)
         else if t = Some (lit ''error'')
         then ends r (lit ''synth: '' @ (case get_str (lit ''error'') msg of Some e \<Rightarrow> e | None \<Rightarrow> lit ''error'')) c
         else c)"

definition say_presence :: "slot_ref \<Rightarrow> nat \<Rightarrow> bool \<Rightarrow> utext option \<Rightarrow> control \<Rightarrow> control" where
  "say_presence r idle locked failed c =
     writes r ''presence'' (presence_message idle locked (sh_paused (co_shared c)) (sh_metered (co_shared c))) failed c"

text \<open>What other tasks do while the stream waits.\<close>

datatype meanwhile =
    OwnerSets "settings \<Rightarrow> settings"
  | OwnerIsland bool "island_settings \<Rightarrow> island_settings"
  | OwnerPauses
  | OwnerResumes
  | NetworkMetered bool
  | OtherWork shared  \<comment> \<open>anything that leaves the settings and the watches alone\<close>

definition leaves_told :: "shared \<Rightarrow> shared \<Rightarrow> bool" where
  "leaves_told sh sh' \<longleftrightarrow> sh_settings sh' = sh_settings sh \<and> island_on sh' = island_on sh \<and>
     p_rev (sh_persisted sh') = p_rev (sh_persisted sh) \<and> sh_settings_tx sh' = sh_settings_tx sh \<and>
     sh_paused sh' = sh_paused sh \<and> sh_metered sh' = sh_metered sh \<and> sh_control_tx sh' = sh_control_tx sh"

definition goes_on :: "meanwhile \<Rightarrow> shared \<Rightarrow> shared" where
  "goes_on e sh = (case e of
      OwnerSets f \<Rightarrow> snd (mutate_settings f sh)
    | OwnerIsland macos f \<Rightarrow> snd (set_island macos f sh)
    | OwnerPauses \<Rightarrow> pause sh
    | OwnerResumes \<Rightarrow> resume sh
    | NetworkMetered m \<Rightarrow> set_metered m sh
    | OtherWork sh' \<Rightarrow> if leaves_told sh sh' then sh' else sh)"

definition control_meanwhile :: "meanwhile \<Rightarrow> control \<Rightarrow> control" where
  "control_meanwhile e c =
     (let sh = co_shared c; sh' = goes_on e sh
      in c\<lparr>co_shared := sh', co_settings_new := (co_settings_new c \<or> sh_settings_tx sh' \<noteq> sh_settings_tx sh),
           co_control_new := (co_control_new c \<or> sh_control_tx sh' \<noteq> sh_control_tx sh)\<rparr>)"

datatype control_event =
    CtlHeaderOut "utext option"
  | CtlAnswered header_answer
  | CtlDriverKnown                          \<comment> \<open>the driver said its version\<close>
  | CtlHelloOut "utext option"
  | CtlLine "(utext, json option) result"   \<comment> \<open>a line, the end, or an error of the reader\<close>
  | CtlTick nat bool "utext option"
  | CtlSettings
  | CtlToldOut nat bool "utext option" "utext option"
  | CtlControl nat bool "utext option"
  | CtlUnpair "utext option"
  | CtlRequest json "utext option"
  | CtlMeanwhile meanwhile

definition reading :: "control_stage \<Rightarrow> bool" where
  "reading s \<longleftrightarrow> (case s of CtlRunning \<Rightarrow> True | CtlTelling _ \<Rightarrow> True | CtlSaying _ _ \<Rightarrow> True | _ \<Rightarrow> False)"

definition control_read :: "slot_ref \<Rightarrow> (utext, json option) result \<Rightarrow> control \<Rightarrow> control" where
  "control_read r l c = (case l of
      Err e \<Rightarrow> ends r (lit ''read: '' @ e) c
    | Ok None \<Rightarrow> ends r (lit ''closed by the synth'') c
    | Ok (Some msg) \<Rightarrow> control_line r msg c)"

definition control_told :: "slot_ref \<Rightarrow> json \<Rightarrow> nat \<Rightarrow> bool \<Rightarrow> utext option \<Rightarrow> utext option \<Rightarrow> control \<Rightarrow> control" where
  \<comment> \<open>the settings go out, and after them the presence\<close>
  "control_told r m idle locked failed failed' c =
     (let c1 = writes r ''settings'' m failed c
      in if failed \<noteq> None then c1 else say_presence r idle locked failed' (c1\<lparr>co_stage := CtlRunning\<rparr>))"

definition control_writer :: "slot_ref \<Rightarrow> control_event \<Rightarrow> control \<Rightarrow> control" where
  \<comment> \<open>one turn of the writer\<close>
  "control_writer r e c = (case e of
      CtlTick idle locked failed \<Rightarrow> say_presence r idle locked failed c
    | CtlSettings \<Rightarrow>
        (if co_settings_new c then c\<lparr>co_settings_new := False, co_stage := CtlTelling (sh_settings_tx (co_shared c))\<rparr> else c)
    | CtlControl idle locked failed \<Rightarrow>
        (if co_control_new c then say_presence r idle locked failed (c\<lparr>co_control_new := False\<rparr>) else c)
    | CtlUnpair failed \<Rightarrow>
        (if sl_unpair_req (slot_at (co_shared c) r)
         then writes r ''unpair'' (JObj [(lit ''type'', JStr (lit ''unpair''))]) failed
                (c\<lparr>co_shared := upd_slot r (\<lambda>s. s\<lparr>sl_unpair_req := False\<rparr>) (co_shared c)\<rparr>)
         else c)
    | CtlRequest m failed \<Rightarrow> writes r ''request'' m failed c
    | _ \<Rightarrow> c)"

fun control_step :: "link_world \<Rightarrow> slot_ref \<Rightarrow> control_event \<Rightarrow> control \<Rightarrow> control" where
  "control_step w r (CtlMeanwhile e) c = control_meanwhile e c"
| "control_step w r (CtlLine l) c = (if reading (co_stage c) then control_read r l c else c)"
| "control_step w r e c =
     (case co_stage c of
        CtlHeader \<Rightarrow>
          (case e of
             CtlHeaderOut None \<Rightarrow> c\<lparr>co_sent := co_sent c @ [header_line], co_stage := CtlReply\<rparr>
           | CtlHeaderOut (Some x) \<Rightarrow> ends r (lit ''send header: '' @ x) c
           | _ \<Rightarrow> c)
      | CtlReply \<Rightarrow> (case e of CtlAnswered a \<Rightarrow> control_answered r a c | _ \<Rightarrow> c)
      | CtlAccepted \<Rightarrow> (case e of CtlDriverKnown \<Rightarrow> control_hello w c | _ \<Rightarrow> c)
      | CtlHello m \<Rightarrow> (case e of CtlHelloOut failed \<Rightarrow> control_greeted r m failed c | _ \<Rightarrow> c)
      | CtlRunning \<Rightarrow> control_writer r e c
      | CtlTelling rv \<Rightarrow>
          (case e of CtlDriverKnown \<Rightarrow> c\<lparr>co_stage := CtlSaying rv (capabilities_now w (co_shared c))\<rparr> | _ \<Rightarrow> c)
      | CtlSaying rv caps \<Rightarrow>
          (case e of CtlToldOut idle locked failed failed' \<Rightarrow> control_told r (settings_message rv caps) idle locked failed failed' c
           | _ \<Rightarrow> c)
      | CtlEnded _ \<Rightarrow> c)"

definition control_run :: "link_world \<Rightarrow> slot_ref \<Rightarrow> control_event list \<Rightarrow> control \<Rightarrow> control" where
  "control_run w r es c = foldl (\<lambda>c e. control_step w r e c) c es"

section \<open>The streams of one link\<close>

datatype dial = DialBadUrl utext | DialBadToken | DialHttp nat utext | DialFailed utext | DialSilent | DialOpen

definition dial_end :: "dial \<Rightarrow> run_end option" where
  \<comment> \<open>how the dial ends the run; the text of the status is given\<close>
  "dial_end d = (case d of
      DialBadUrl e \<Rightarrow> Some (RunFailed (lit ''bad url: '' @ e))
    | DialBadToken \<Rightarrow> Some (RunFailed (lit ''token has characters not valid in a header''))
    | DialHttp code status \<Rightarrow>
        if code = 401 then Some (RunRefused (lit ''synth refused: HTTP '' @ status @ lit '' (re-pair needed)''))
        else Some (RunFailed (lit ''synth refused: HTTP '' @ status))
    | DialFailed e \<Rightarrow> Some (RunFailed (lit ''connect: '' @ e))
    | DialSilent \<Rightarrow> Some (RunFailed (lit ''connect: no answer in 15s''))
    | DialOpen \<Rightarrow> None)"

record link_run =
  ru_shared :: shared
  ru_streams :: "(nat \<times> bool) list"   \<comment> \<open>the open streams, and whether each came while the app was paused\<close>
  ru_next :: nat
  ru_control_new :: bool
  ru_established :: bool
  ru_end :: "run_end option"

datatype run_reason = LinkError utext | LinkClosed | ControlEnded utext | ControlFailed utext | ToldToStop

definition reason_text :: "run_reason \<Rightarrow> utext option" where
  "reason_text x = (case x of
      LinkError e \<Rightarrow> Some (lit ''link error: '' @ e)
    | LinkClosed \<Rightarrow> Some (lit ''closed by the synth'')
    | ControlEnded why \<Rightarrow> Some (lit ''control stream ended: '' @ why)
    | ControlFailed e \<Rightarrow> Some (lit ''control task failed: '' @ e)
    | ToldToStop \<Rightarrow> None)"

datatype run_event =
    RunInbound | RunFinished nat | RunControl | RunEstablished | RunEnds run_reason | RunMeanwhile meanwhile

definition stream_begins :: "shared \<Rightarrow> shared" where
  "stream_begins sh = sh\<lparr>sh_streams_open := sh_streams_open sh + 1\<rparr>"

definition streams_end :: "nat \<Rightarrow> shared \<Rightarrow> shared" where
  "streams_end n sh = sh\<lparr>sh_streams_open := sh_streams_open sh - n\<rparr>"

definition abort_all :: "link_run \<Rightarrow> link_run" where
  "abort_all u = u\<lparr>ru_streams := [], ru_shared := streams_end (length (ru_streams u)) (ru_shared u)\<rparr>"

definition run_start :: "shared \<Rightarrow> link_run" where
  "run_start sh = \<lparr>ru_shared = sh, ru_streams = [], ru_next = 0, ru_control_new = False, ru_established = False, ru_end = None\<rparr>"

definition run_over :: "run_reason \<Rightarrow> link_run \<Rightarrow> link_run" where
  "run_over why u = (abort_all u)\<lparr>ru_end := Some (case reason_text why of
      None \<Rightarrow> RunShutdown
    | Some t \<Rightarrow> if ru_established u then RunDropped t else RunFailed t)\<rparr>"

fun run_step :: "run_event \<Rightarrow> link_run \<Rightarrow> link_run" where
  "run_step (RunMeanwhile e) u =
     (let sh = ru_shared u; sh' = (goes_on e sh)\<lparr>sh_streams_open := sh_streams_open sh\<rparr>
      in u\<lparr>ru_shared := sh', ru_control_new := (ru_control_new u \<or> sh_control_tx sh' \<noteq> sh_control_tx sh)\<rparr>)"
| "run_step e u =
     (if ru_end u \<noteq> None then u
      else case e of
          RunInbound \<Rightarrow>
            u\<lparr>ru_streams := ru_streams u @ [(ru_next u, sh_paused (ru_shared u))], ru_next := ru_next u + 1,
              ru_shared := stream_begins (ru_shared u)\<rparr>
        | RunFinished i \<Rightarrow>
            (if i \<in> fst ` set (ru_streams u)
             then u\<lparr>ru_streams := filter (\<lambda>s. fst s \<noteq> i) (ru_streams u), ru_shared := streams_end 1 (ru_shared u)\<rparr> else u)
        | RunControl \<Rightarrow>
            (if ru_control_new u
             then (if sh_paused (ru_shared u) then abort_all (u\<lparr>ru_control_new := False\<rparr>) else u\<lparr>ru_control_new := False\<rparr>)
             else u)
        | RunEstablished \<Rightarrow> u\<lparr>ru_established := True\<rparr>
        | RunEnds why \<Rightarrow> run_over why u
        | RunMeanwhile _ \<Rightarrow> u)"

definition run_link :: "run_event list \<Rightarrow> link_run \<Rightarrow> link_run" where
  "run_link es u = foldl (\<lambda>u e. run_step e u) u es"

section \<open>What the synth was told\<close>

definition says_settings :: "json \<Rightarrow> bool" where
  "says_settings m \<longleftrightarrow> get_str (lit ''type'') m \<in> {Some (lit ''hello''), Some (lit ''settings'')}"

definition told_caps :: "json list \<Rightarrow> json option" where
  \<comment> \<open>the capabilities in the last message that has them\<close>
  "told_caps ms = (if filter says_settings ms = [] then None else jget (lit ''capabilities'') (last (filter says_settings ms)))"

lemma told_caps_append:
  "told_caps (ms @ [m]) = (if says_settings m then jget (lit ''capabilities'') m else told_caps ms)"
  by (simp add: told_caps_def)

lemma told_caps_append_two: "told_caps (ms @ [a, b]) = (if says_settings b then jget (lit ''capabilities'') b else told_caps (ms @ [a]))"
  using told_caps_append [of "ms @ [a]" b] by simp

lemma says_messages [simp]:
  "says_settings (hello_message w d n caps)" "says_settings (settings_message n caps)"
  "\<not> says_settings (presence_message i l p m)" "\<not> says_settings header_line"
  "\<not> says_settings (JObj [(lit ''type'', JStr (lit ''unpair''))])"
  by (simp_all add: says_settings_def hello_message_def settings_message_def presence_message_def header_line_def
      get_str_def jget_def as_str_def lit_def)

lemma caps_in_messages [simp]:
  "jget (lit ''capabilities'') (hello_message w d n caps) = Some caps"
  "jget (lit ''capabilities'') (settings_message n caps) = Some caps"
  by (simp_all add: hello_message_def settings_message_def jget_def lit_def)

definition rev_told :: "shared \<Rightarrow> bool" where
  "rev_told sh \<longleftrightarrow> sh_settings_tx sh = p_rev (sh_persisted sh)"

lemma rev_told_start: "rev_told (make_shared p path g j sec ss mon n now)"
  by (simp add: rev_told_def make_shared_def)

lemma caps_without_look: "same_but_look before after \<Longrightarrow> capabilities_value w after = capabilities_value w before"
  unfolding same_but_look_def by (erule subst) (simp add: capabilities_value_def computer_value_def)

lemma leaves_told_refl: "leaves_told sh sh"
  by (simp add: leaves_told_def)

lemma leaves_told_trans: "leaves_told a b \<Longrightarrow> leaves_told b c \<Longrightarrow> leaves_told a c"
  by (simp add: leaves_told_def)

lemma leaves_told_caps:
  "leaves_told sh sh' \<Longrightarrow> capabilities_now w sh' = capabilities_now w sh \<and> rev_told sh' = rev_told sh"
  by (simp add: leaves_told_def capabilities_now_def rev_told_def)

lemma leaves_told_upd [simp]: "leaves_told sh (upd_slot r f sh)"
  by (simp add: leaves_told_def sh_settings_def island_on_def)

lemma leaves_told_requests [simp]: "leaves_told sh (on_requests r f sh)"
  by (simp add: on_requests_def)

lemma leaves_told_emit [simp]: "leaves_told sh (emit e sh)"
  by (simp add: leaves_told_def sh_settings_def island_on_def)

lemma leaves_told_limits [simp]: "leaves_told sh (sh_store_limits synth l sh)"
  by (simp add: leaves_told_def sh_settings_def island_on_def sh_store_limits_def Let_def case_prod_unfold)

lemma leaves_told_state: "leaves_told sh (set_slot_state r st detail sh)"
  unfolding set_slot_state_def Let_def
  by (rule leaves_told_trans [OF _ leaves_told_emit]) (auto intro: leaves_told_trans [OF leaves_told_upd leaves_told_limits])

lemma leaves_told_synth: "leaves_told sh (set_synth r ack sh)"
  by (simp add: leaves_told_def sh_settings_def island_on_def set_synth_def Let_def case_prod_unfold set_persisted_def)

lemma goes_on_told:
  assumes "rev_told sh"
  shows "rev_told (goes_on e sh) \<and>
    (sh_settings_tx (goes_on e sh) = sh_settings_tx sh \<longrightarrow> capabilities_now w (goes_on e sh) = capabilities_now w sh)"
proof (cases e)
  case (OwnerSets f)
  define after where "after = f (p_settings (sh_persisted sh))"
  have look: "same_but_look (p_settings (sh_persisted sh)) after \<Longrightarrow>
      capabilities_value w after = capabilities_value w (p_settings (sh_persisted sh))"
    by (rule caps_without_look)
  show ?thesis
    using assms look
    by (auto simp: OwnerSets goes_on_def mutate_settings_def Let_def after_def [symmetric] rev_told_def shell_stop_all_def
        capabilities_now_def sh_settings_def island_on_def set_persisted_def)
next
  case (OwnerIsland macos f)
  show ?thesis
    using assms
    by (auto simp: OwnerIsland goes_on_def set_island_def Let_def rev_told_def capabilities_now_def sh_settings_def
        island_on_def set_persisted_def)
qed (use assms in \<open>auto simp: goes_on_def rev_told_def capabilities_now_def sh_settings_def island_on_def leaves_told_def
      pause_def resume_def set_metered_def bump_control_def stop_cua_def daemon_gone_def clear_task_def shell_stop_all_def Let_def\<close>)

section \<open>The settings reach the synth\<close>

definition plain_event :: "control_event \<Rightarrow> bool" where
  \<comment> \<open>what other parts of the app send is not of the types this stream says itself\<close>
  "plain_event e \<longleftrightarrow> (case e of CtlRequest m _ \<Rightarrow> \<not> says_settings m | _ \<Rightarrow> True)"

lemma plain_requests:
  "\<not> says_settings (request_json i m params)" "\<not> says_settings (observe_message r v t)"
  by (simp_all add: says_settings_def request_json_def observe_message_def get_str_def jget_def as_str_def lit_def
      split: option.split)

definition told_stage :: "link_world \<Rightarrow> control \<Rightarrow> bool" where
  "told_stage w c \<longleftrightarrow> (case co_stage c of
      CtlRunning \<Rightarrow> co_settings_new c \<or> told_caps (co_sent c) = Some (capabilities_now w (co_shared c))
    | CtlTelling _ \<Rightarrow> True
    | CtlSaying _ caps \<Rightarrow> co_settings_new c \<or> caps = capabilities_now w (co_shared c)
    | CtlEnded _ \<Rightarrow> True
    | _ \<Rightarrow> False)"

definition told_ok :: "link_world \<Rightarrow> control \<Rightarrow> bool" where
  "told_ok w c \<longleftrightarrow> rev_told (co_shared c) \<and> told_stage w c"

lemma ends_told: "rev_told (co_shared c) \<Longrightarrow> told_ok w (ends r why c)"
  using leaves_told_caps [OF leaves_told_requests] by (simp add: told_ok_def told_stage_def ends_def)

lemma ends_told_ok: "told_ok w c \<Longrightarrow> told_ok w (ends r why c)"
  by (rule ends_told) (simp add: told_ok_def)

lemma told_ok_same:
  assumes "told_ok w c" "co_stage c' = co_stage c" "co_sent c' = co_sent c" "co_settings_new c' = co_settings_new c"
    "leaves_told (co_shared c) (co_shared c')"
  shows "told_ok w c'"
  using assms(1-4) leaves_told_caps [OF assms(5), of w] by (simp add: told_ok_def told_stage_def cong: control_stage.case_cong)

lemma writes_told:
  assumes "told_ok w c" "\<not> says_settings m"
  shows "told_ok w (writes r what m failed c)"
proof (cases failed)
  case None
  with assms show ?thesis
    by (auto simp: writes_def told_ok_def told_stage_def told_caps_append split: control_stage.splits)
qed (use assms in \<open>simp add: writes_def ends_told_ok\<close>)

lemma presence_told: "told_ok w c \<Longrightarrow> told_ok w (say_presence r i l failed c)"
  unfolding say_presence_def by (rule writes_told) simp_all

lemma line_told:
  assumes "told_ok w c"
  shows "told_ok w (control_line r msg c)"
proof -
  have "told_ok w (take_ack r ack c)" for ack
  proof (rule told_ok_same [OF assms])
    have "co_shared (take_ack r ack c) = set_slot_state r Linked (lit ''linked to '' @ ha_synth_name ack)
        (set_synth r ack (on_requests r (set_supported (ack_has REQUESTS_FEATURE ack)) (co_shared c)))"
      by (simp add: take_ack_def Let_def)
    then show "leaves_told (co_shared c) (co_shared (take_ack r ack c))"
      using leaves_told_trans [OF leaves_told_trans [OF leaves_told_requests leaves_told_synth] leaves_told_state] by simp
  qed (simp_all add: take_ack_def Let_def)
  moreover have "told_ok w (c\<lparr>co_shared := on_requests r f (co_shared c)\<rparr>)" for f
    by (rule told_ok_same [OF assms]) simp_all
  moreover have "told_ok w (ends r why (c\<lparr>co_shared := upd_slot r f (co_shared c)\<rparr>))" for why f
    using assms leaves_told_caps [OF leaves_told_upd] by (intro ends_told) (simp add: told_ok_def)
  moreover have "told_ok w (ends r why c)" for why using assms by (intro ends_told) (simp add: told_ok_def)
  ultimately show ?thesis using assms by (simp add: control_line_def Let_def)
qed

lemma read_told: "told_ok w c \<Longrightarrow> told_ok w (control_read r l c)"
  by (simp add: control_read_def line_told ends_told_ok split: sum.split option.split)

lemma meanwhile_told:
  assumes "told_ok w c"
  shows "told_ok w (control_meanwhile e c)"
proof -
  have "rev_told (co_shared c)" using assms by (simp add: told_ok_def)
  from goes_on_told [OF this, of e w] assms show ?thesis
    by (auto simp: told_ok_def told_stage_def control_meanwhile_def Let_def split: control_stage.splits)
qed

lemma told_out_told:
  assumes "told_ok w c" "co_stage c = CtlSaying rv caps"
  shows "told_ok w (control_told r (settings_message rv caps) i l failed failed' c)"
proof (cases failed)
  case None
  have "told_ok w ((writes r ''settings'' (settings_message rv caps) None c)\<lparr>co_stage := CtlRunning\<rparr>)"
    using assms by (simp add: told_ok_def told_stage_def writes_def told_caps_append)
  then show ?thesis by (simp add: control_told_def Let_def None presence_told)
qed (use assms in \<open>simp add: control_told_def Let_def writes_def ends_told_ok\<close>)

lemma writer_told:
  assumes "told_ok w c" "co_stage c = CtlRunning" "plain_event e"
  shows "told_ok w (control_writer r e c)"
proof (cases e)
  case (CtlUnpair failed)
  have "told_ok w (c\<lparr>co_shared := upd_slot r f (co_shared c)\<rparr>)" for f
    by (rule told_ok_same [OF assms(1)]) simp_all
  then show ?thesis using assms(1) by (simp add: control_writer_def CtlUnpair writes_told)
next
  case CtlSettings
  then show ?thesis using assms(1) by (simp add: control_writer_def told_ok_def told_stage_def)
next
  case (CtlControl i l failed)
  have "told_ok w (c\<lparr>co_control_new := False\<rparr>)" by (rule told_ok_same [OF assms(1)]) (simp_all add: leaves_told_refl)
  then show ?thesis using assms(1) by (simp add: control_writer_def CtlControl presence_told)
qed (use assms in \<open>simp_all add: control_writer_def presence_told writes_told plain_event_def\<close>)

lemma step_told:
  assumes "told_ok w c" "plain_event e"
  shows "told_ok w (control_step w r e c)"
proof (cases e)
  case (CtlMeanwhile m)
  then show ?thesis using assms by (simp add: meanwhile_told)
next
  case (CtlLine l)
  then show ?thesis using assms by (simp add: read_told)
qed (use assms writer_told [OF assms(1) _ assms(2)] told_out_told [OF assms(1)] in
    \<open>cases "co_stage c"; simp add: told_ok_def told_stage_def plain_event_def\<close>)+

lemma run_told: "told_ok w c \<Longrightarrow> list_all plain_event es \<Longrightarrow> told_ok w (control_run w r es c)"
  by (induction es arbitrary: c) (simp_all add: control_run_def step_told)

lemma news_told:
  assumes "told_ok w c" "co_stage c = CtlRunning" "co_settings_new c"
  shows "co_stage (control_run w r [CtlSettings, CtlDriverKnown, CtlToldOut i l None None] c) = CtlRunning \<and>
    told_caps (co_sent (control_run w r [CtlSettings, CtlDriverKnown, CtlToldOut i l None None] c)) =
      Some (capabilities_now w (co_shared c))"
  using assms
  by (simp add: control_run_def control_writer_def control_told_def Let_def writes_def say_presence_def told_caps_append
      told_caps_append_two)

text \<open>
  C9: once the hello says what the owner's settings are when the watches are subscribed to, the
  synth has them in every state of the stream in which the writer waits and nothing is new;
  and when something is new, one turn of the writer brings it up to date: whatever the
  owner changed in the meantime, how often, and whatever else the stream did.
\<close>

theorem settings_reach_synth:
  assumes "rev_told (co_shared c)" "co_stage c = CtlRunning"
    and "told_caps (co_sent c) = Some (capabilities_now w (co_shared c))" "list_all plain_event es"
    and "c' = control_run w r es c" "co_stage c' = CtlRunning"
  shows "told_caps (co_sent (if co_settings_new c'
      then control_run w r [CtlSettings, CtlDriverKnown, CtlToldOut i l None None] c' else c')) =
    Some (capabilities_now w (co_shared c'))"
proof -
  have "told_ok w c" using assms(1-3) by (simp add: told_ok_def told_stage_def)
  from run_told [OF this assms(4)] have ok: "told_ok w c'" by (simp add: assms(5))
  show ?thesis
    using ok assms(6) news_told [OF ok assms(6)] by (auto simp: told_ok_def told_stage_def)
qed

section \<open>A change while the hello goes out\<close>

definition quiet_event :: "control_event \<Rightarrow> bool" where
  \<comment> \<open>the owner leaves the settings as they are\<close>
  "quiet_event e \<longleftrightarrow> plain_event e \<and>
     (case e of CtlMeanwhile (OwnerSets _) \<Rightarrow> False | CtlMeanwhile (OwnerIsland _ _) \<Rightarrow> False | _ \<Rightarrow> True)"

definition untold :: "link_world \<Rightarrow> json \<Rightarrow> json \<Rightarrow> control \<Rightarrow> bool" where
  "untold w old caps c \<longleftrightarrow> \<not> co_settings_new c \<and> (co_stage c = CtlRunning \<or> (\<exists>why. co_stage c = CtlEnded why)) \<and>
     told_caps (co_sent c) = Some old \<and> capabilities_now w (co_shared c) = caps"

lemma untold_ends: "untold w old caps c \<Longrightarrow> untold w old caps (ends r why c)"
  using leaves_told_caps [OF leaves_told_requests] by (simp add: untold_def ends_def)

lemma untold_same:
  assumes "untold w old caps c" "co_stage c' = co_stage c" "co_sent c' = co_sent c" "co_settings_new c' = co_settings_new c"
    "leaves_told (co_shared c) (co_shared c')"
  shows "untold w old caps c'"
  using assms(1-4) leaves_told_caps [OF assms(5), of w] by (simp add: untold_def)

lemma untold_writes: "untold w old caps c \<Longrightarrow> \<not> says_settings m \<Longrightarrow> untold w old caps (writes r what m failed c)"
  by (cases failed) (simp_all add: writes_def untold_ends, simp add: untold_def told_caps_append)

lemma untold_presence: "untold w old caps c \<Longrightarrow> untold w old caps (say_presence r i l failed c)"
  unfolding say_presence_def by (rule untold_writes) simp_all

lemma take_ack_leaves: "leaves_told (co_shared c) (co_shared (take_ack r ack c))"
proof -
  have "co_shared (take_ack r ack c) = set_slot_state r Linked (lit ''linked to '' @ ha_synth_name ack)
      (set_synth r ack (on_requests r (set_supported (ack_has REQUESTS_FEATURE ack)) (co_shared c)))"
    by (simp add: take_ack_def Let_def)
  then show ?thesis
    using leaves_told_trans [OF leaves_told_trans [OF leaves_told_requests leaves_told_synth] leaves_told_state] by simp
qed

lemma untold_read: "untold w old caps c \<Longrightarrow> untold w old caps (control_read r l c)"
proof -
  assume u: "untold w old caps c"
  have "untold w old caps (take_ack r ack c)" for ack
    by (rule untold_same [OF u]) (simp_all add: take_ack_leaves, simp_all add: take_ack_def Let_def)
  moreover have "untold w old caps (c\<lparr>co_shared := on_requests r f (co_shared c)\<rparr>)" for f
    by (rule untold_same [OF u]) simp_all
  moreover have "untold w old caps (c\<lparr>co_shared := upd_slot r f (co_shared c)\<rparr>)" for f
    by (rule untold_same [OF u]) simp_all
  ultimately show ?thesis
    using u by (simp add: control_read_def control_line_def Let_def untold_ends split: sum.split option.split)
qed

lemma goes_on_quiet:
  assumes "quiet_event (CtlMeanwhile e)"
  shows "sh_settings_tx (goes_on e sh) = sh_settings_tx sh \<and> capabilities_now w (goes_on e sh) = capabilities_now w sh"
  using assms
  by (cases e) (auto simp: quiet_event_def plain_event_def goes_on_def capabilities_now_def sh_settings_def island_on_def
      leaves_told_def pause_def resume_def set_metered_def bump_control_def stop_cua_def daemon_gone_def clear_task_def
      shell_stop_all_def Let_def)

lemma untold_writer:
  assumes "untold w old caps c" "quiet_event e"
  shows "untold w old caps (control_writer r e c)"
proof (cases e)
  case (CtlUnpair failed)
  have "untold w old caps (c\<lparr>co_shared := upd_slot r f (co_shared c)\<rparr>)" for f
    by (rule untold_same [OF assms(1)]) simp_all
  then show ?thesis using assms(1) by (simp add: control_writer_def CtlUnpair untold_writes)
next
  case (CtlControl i l failed)
  have "untold w old caps (c\<lparr>co_control_new := False\<rparr>)" by (rule untold_same [OF assms(1)]) (simp_all add: leaves_told_refl)
  then show ?thesis using assms(1) by (simp add: control_writer_def CtlControl untold_presence)
next
  case CtlSettings
  then show ?thesis using assms(1) by (simp add: control_writer_def untold_def)
qed (use assms in \<open>simp_all add: control_writer_def untold_presence untold_writes quiet_event_def plain_event_def\<close>)

lemma untold_step:
  assumes "untold w old caps c" "quiet_event e"
  shows "untold w old caps (control_step w r e c)"
proof -
  have stage: "co_stage c = CtlRunning \<or> (\<exists>why. co_stage c = CtlEnded why)" using assms(1) by (simp add: untold_def)
  show ?thesis
  proof (cases e)
    case (CtlMeanwhile m)
    then show ?thesis
      using assms goes_on_quiet [of m "co_shared c" w] by (simp add: untold_def control_meanwhile_def Let_def)
  next
    case (CtlLine l)
    then show ?thesis using assms by (simp add: untold_read)
  qed (use assms(1) stage untold_writer [OF assms] in auto)
qed

lemma untold_run: "untold w old caps c \<Longrightarrow> list_all quiet_event es \<Longrightarrow> untold w old caps (control_run w r es c)"
  by (induction es arbitrary: c) (simp_all add: control_run_def untold_step)

text \<open>
  C37: what the owner changes while the hello is being written does not reach the synth: the hello
  has the settings of before, the watch is subscribed to after it, and so the change counts
  as seen. However long the link then lasts, until the owner changes something else the
  synth goes by the settings the owner took back.
\<close>

theorem change_during_hello_untold:
  assumes "co_stage c = CtlAccepted" "list_all quiet_event es"
    and "capabilities_now w (snd (mutate_settings f (co_shared c))) \<noteq> capabilities_now w (co_shared c)"
    and "c' = control_run w r (CtlDriverKnown # CtlMeanwhile (OwnerSets f) # CtlHelloOut None # es) c"
  shows "told_caps (co_sent c') = Some (capabilities_now w (co_shared c)) \<and>
    capabilities_now w (co_shared c') = capabilities_now w (snd (mutate_settings f (co_shared c))) \<and>
    told_caps (co_sent c') \<noteq> Some (capabilities_now w (co_shared c'))"
proof -
  let ?c = "control_run w r [CtlDriverKnown, CtlMeanwhile (OwnerSets f), CtlHelloOut None] c"
  have "untold w (capabilities_now w (co_shared c)) (capabilities_now w (snd (mutate_settings f (co_shared c)))) ?c"
    using assms(1)
    by (simp add: untold_def control_run_def control_hello_def control_meanwhile_def control_greeted_def goes_on_def
        Let_def told_caps_append)
  from untold_run [OF this assms(2), of r] assms(3) show ?thesis
    by (simp add: assms(4) untold_def control_run_def)
qed

section \<open>Nothing before the hello\<close>

definition starts_with_hello :: "link_world \<Rightarrow> json list \<Rightarrow> bool" where
  "starts_with_hello w ms \<longleftrightarrow> (\<exists>d n caps rest. ms = header_line # hello_message w d n caps # rest)"

definition hello_stage :: "link_world \<Rightarrow> control \<Rightarrow> bool" where
  "hello_stage w c \<longleftrightarrow> (case co_stage c of
      CtlHeader \<Rightarrow> co_sent c = []
    | CtlReply \<Rightarrow> co_sent c = [header_line]
    | CtlAccepted \<Rightarrow> co_sent c = [header_line]
    | CtlHello m \<Rightarrow> co_sent c = [header_line] \<and> (\<exists>d n caps. m = hello_message w d n caps)
    | CtlEnded _ \<Rightarrow> co_sent c \<in> {[], [header_line]} \<or> starts_with_hello w (co_sent c)
    | _ \<Rightarrow> starts_with_hello w (co_sent c)) \<and>
    (co_established c \<longrightarrow> starts_with_hello w (co_sent c))"

lemma starts_append: "starts_with_hello w ms \<Longrightarrow> starts_with_hello w (ms @ ns)"
  by (metis append_Cons starts_with_hello_def)

lemma starts_longer [simp]: "\<not> starts_with_hello w []" "\<not> starts_with_hello w [m]"
  by (simp_all add: starts_with_hello_def)

lemma hello_ends: "hello_stage w c \<Longrightarrow> hello_stage w (ends r why c)"
  by (auto simp: hello_stage_def ends_def split: control_stage.splits)

lemma hello_writes:
  "starts_with_hello w (co_sent c) \<Longrightarrow> reading (co_stage c) \<Longrightarrow> hello_stage w (writes r what m failed c)"
  by (auto simp: writes_def hello_stage_def starts_append ends_def reading_def split: option.split control_stage.splits)

lemma hello_same:
  "hello_stage w c \<Longrightarrow> co_stage c' = co_stage c \<Longrightarrow> co_sent c' = co_sent c \<Longrightarrow>
   (co_established c' \<longrightarrow> co_established c \<or> reading (co_stage c)) \<Longrightarrow> hello_stage w c'"
  by (auto simp: hello_stage_def reading_def split: control_stage.splits)

lemma hello_read: "hello_stage w c \<Longrightarrow> reading (co_stage c) \<Longrightarrow> hello_stage w (control_read r l c)"
proof -
  assume h: "hello_stage w c" and r: "reading (co_stage c)"
  have "hello_stage w (take_ack r ack c)" for ack
    by (rule hello_same [OF h]) (simp_all add: take_ack_def Let_def r)
  moreover have "hello_stage w (c\<lparr>co_shared := x\<rparr>)" for x
    by (rule hello_same [OF h]) simp_all
  ultimately show ?thesis
    using h by (simp add: control_read_def control_line_def Let_def hello_ends split: sum.split option.split)
qed

lemma hello_writer:
  assumes "hello_stage w c" "co_stage c = CtlRunning"
  shows "hello_stage w (control_writer r e c)"
proof -
  have st: "starts_with_hello w (co_sent c)" using assms by (simp add: hello_stage_def)
  have up: "hello_stage w (writes r what m failed (c\<lparr>co_shared := x\<rparr>))" for what m failed x
    by (rule hello_writes) (simp_all add: st assms(2) reading_def)
  have "hello_stage w (writes r what m failed (c\<lparr>co_control_new := False\<rparr>))" for what m failed
    by (rule hello_writes) (simp_all add: st assms(2) reading_def)
  moreover have "hello_stage w (writes r what m failed c)" for what m failed
    by (rule hello_writes) (simp_all add: st assms(2) reading_def)
  moreover have "hello_stage w (c\<lparr>co_settings_new := False, co_stage := CtlTelling n\<rparr>)" for n
    using st by (simp add: hello_stage_def)
  ultimately show ?thesis
    using assms(1) up by (cases e) (simp_all add: control_writer_def say_presence_def)
qed

lemma hello_told:
  assumes "starts_with_hello w (co_sent c)"
  shows "hello_stage w (control_told r m i l failed failed' c)"
  using assms
  by (auto simp: control_told_def Let_def writes_def say_presence_def hello_stage_def ends_def starts_append
      split: option.split control_stage.splits)

lemma hello_step:
  assumes "hello_stage w c"
  shows "hello_stage w (control_step w r e c)"
proof (cases e)
  case (CtlMeanwhile m)
  then show ?thesis using assms by (auto simp: control_meanwhile_def Let_def intro: hello_same)
next
  case (CtlLine l)
  then show ?thesis using assms hello_read by simp
next
  case (CtlHeaderOut x)
  then show ?thesis
    using assms hello_writer by (cases "co_stage c"; cases x) (simp_all add: hello_stage_def ends_def)
next
  case (CtlAnswered x)
  then show ?thesis
    using assms hello_writer by (cases "co_stage c"; cases x) (simp_all add: hello_stage_def ends_def control_answered_def)
next
  case CtlDriverKnown
  then show ?thesis
    using assms hello_writer
    by (cases "co_stage c") (auto simp: hello_stage_def control_hello_def Let_def)
next
  case (CtlHelloOut x)
  then show ?thesis
    using assms hello_writer
    by (cases "co_stage c"; cases x) (auto simp: hello_stage_def control_greeted_def ends_def starts_with_hello_def)
next
  case (CtlToldOut i l x y)
  then show ?thesis
    using assms hello_writer hello_told [of w c]
    by (cases "co_stage c") (auto simp: hello_stage_def [of w c])
qed (use assms hello_writer in \<open>cases "co_stage c"; simp\<close>)+

lemma hello_run: "hello_stage w c \<Longrightarrow> hello_stage w (control_run w r es c)"
  by (induction es arbitrary: c) (simp_all add: control_run_def hello_step)

definition accepts :: "control_event \<Rightarrow> bool" where
  "accepts e \<longleftrightarrow> (case e of CtlAnswered (AnswerIs ok _) \<Rightarrow> ok | _ \<Rightarrow> False)"

definition before_accepted :: "control \<Rightarrow> bool" where
  "before_accepted c \<longleftrightarrow> co_stage c = CtlHeader \<and> co_sent c = [] \<or> co_stage c = CtlReply \<and> co_sent c = [header_line] \<or>
     (\<exists>why. co_stage c = CtlEnded why) \<and> co_sent c \<in> {[], [header_line]}"

lemma before_accepted_step:
  assumes "before_accepted c" "\<not> accepts e"
  shows "before_accepted (control_step w r e c)"
proof (cases e)
  case (CtlAnswered x)
  then show ?thesis
    using assms by (cases x) (auto simp: before_accepted_def control_answered_def ends_def accepts_def)
next
  case (CtlHeaderOut x)
  then show ?thesis using assms by (cases x) (auto simp: before_accepted_def ends_def)
qed (use assms in \<open>auto simp: before_accepted_def control_meanwhile_def Let_def reading_def\<close>)

lemma before_accepted_run:
  "before_accepted c \<Longrightarrow> list_all (\<lambda>e. \<not> accepts e) es \<Longrightarrow> before_accepted (control_run w r es c)"
  by (induction es arbitrary: c) (simp_all add: control_run_def before_accepted_step)

text \<open>
  whatever comes in and whatever is asked for, the first thing that is said of this computer on a
  link is the hello, right after the header of the stream; until the synth accepted the
  stream nothing but that header goes out; and the link counts as established only after
  the hello.
\<close>

theorem hello_before_all:
  assumes "c = control_run w r es (control_open r ob sh)"
  shows "(co_sent c \<in> {[], [header_line]} \<or> starts_with_hello w (co_sent c)) \<and>
    (co_sent c \<in> {[], [header_line]} \<or> list_ex accepts es) \<and> (co_established c \<longrightarrow> starts_with_hello w (co_sent c))"
proof -
  have "hello_stage w (control_open r ob sh)" by (simp add: hello_stage_def control_open_def)
  from hello_run [OF this, of r es] have h: "hello_stage w c" by (simp add: assms)
  have "before_accepted (control_open r ob sh)" by (simp add: before_accepted_def control_open_def)
  from before_accepted_run [OF this, of es w r] have "list_ex accepts es \<or> co_sent c \<in> {[], [header_line]}"
    by (auto simp: before_accepted_def assms list_ex_iff list_all_iff)
  with h show ?thesis by (auto simp: hello_stage_def split: control_stage.splits)
qed

section \<open>A pause ends the open streams\<close>

lemma bump_moves: "Suc (n mod 2 ^ 64) \<noteq> n" "Suc n mod 2 ^ 64 \<noteq> n"
proof -
  have "Suc (n mod 2 ^ 64) mod 2 ^ 64 = Suc n mod 2 ^ 64" by (rule mod_Suc_eq)
  show "Suc n mod 2 ^ 64 \<noteq> n"
  proof (cases "Suc n < 2 ^ 64")
    case False
    have "Suc n mod 2 ^ 64 < 2 ^ 64" by simp
    with False show ?thesis by (cases "Suc n = 2 ^ 64") auto
  qed simp
  show "Suc (n mod 2 ^ 64) \<noteq> n"
  proof (cases "n < 2 ^ 64")
    case False
    then have "n mod 2 ^ 64 \<noteq> n - 1" using mod_less_divisor [of "2 ^ 64" n] by (cases "n = 2 ^ 64") auto
    with False show ?thesis by auto
  qed simp
qed

lemma goes_on_control:
  "sh_control_tx (goes_on e sh) = sh_control_tx sh \<Longrightarrow> sh_paused (goes_on e sh) = sh_paused sh"
proof (cases e)
  case (OtherWork x)
  then show ?thesis by (simp add: goes_on_def leaves_told_def)
qed (auto simp: goes_on_def pause_def resume_def bump_control_def set_metered_def mutate_settings_def set_island_def Let_def
    shell_stop_all_def set_persisted_def stop_cua_def daemon_gone_def clear_task_def bump_moves [simplified] split: if_splits)

definition streams_ok :: "nat \<Rightarrow> link_run \<Rightarrow> bool" where
  "streams_ok others u \<longleftrightarrow>
     (\<not> ru_control_new u \<and> sh_paused (ru_shared u) \<longrightarrow> list_all snd (ru_streams u)) \<and>
     (ru_end u \<noteq> None \<longrightarrow> ru_streams u = []) \<and> (\<forall>t. ru_end u = Some (RunDropped t) \<longrightarrow> ru_established u) \<and>
     sh_streams_open (ru_shared u) = others + length (ru_streams u) \<and>
     distinct (map fst (ru_streams u)) \<and> (\<forall>s \<in> set (ru_streams u). fst s < ru_next u)"

lemma length_without:
  "distinct (map fst xs) \<Longrightarrow> i \<in> fst ` set xs \<Longrightarrow> length (filter (\<lambda>s. fst s \<noteq> i) xs) + 1 = length xs"
proof (induction xs)
  case (Cons x xs)
  then show ?case
  proof (cases "fst x = i")
    case True
    then have "\<forall>y \<in> set xs. fst y \<noteq> i" using Cons.prems(1) by (metis distinct.simps(2) imageI list.map(2) list.set_map)
    then have "filter (\<lambda>s. fst s \<noteq> i) xs = xs" by (simp add: filter_id_conv)
    with True show ?thesis by simp
  qed auto
qed simp

lemma streams_ok_step:
  assumes "streams_ok n u"
  shows "streams_ok n (run_step e u)"
proof (cases e)
  case (RunMeanwhile m)
  then show ?thesis
    using assms goes_on_control [of m "ru_shared u"] by (auto simp: streams_ok_def Let_def)
next
  case (RunFinished i)
  show ?thesis
  proof (cases "ru_end u = None \<and> i \<in> fst ` set (ru_streams u)")
    case True
    then have "length (filter (\<lambda>s. fst s \<noteq> i) (ru_streams u)) + 1 = length (ru_streams u)"
      using assms length_without [of "ru_streams u" i] by (simp add: streams_ok_def)
    moreover have "distinct (map fst (filter p (ru_streams u)))" for p
      using assms by (simp add: streams_ok_def distinct_map_filter)
    moreover have "run_step e u = u\<lparr>ru_streams := filter (\<lambda>s. fst s \<noteq> i) (ru_streams u), ru_shared := streams_end 1 (ru_shared u)\<rparr>"
      using True by (simp add: RunFinished)
    ultimately show ?thesis using assms True by (auto simp: streams_ok_def streams_end_def list_all_iff)
  next
    case False
    then have "run_step e u = u" by (auto simp: RunFinished)
    with assms show ?thesis by simp
  qed
qed (use assms in \<open>auto simp: streams_ok_def stream_begins_def run_over_def abort_all_def streams_end_def reason_text_def
    less_Suc_eq split: if_splits option.splits run_reason.splits\<close>)

lemma streams_ok_run: "streams_ok n u \<Longrightarrow> streams_ok n (run_link es u)"
  by (induction es arbitrary: u) (simp_all add: run_link_def streams_ok_step)

text \<open>
  when the app is paused and the link has seen it, no stream is open that came before the
  pause; a link that ended has no open stream; the streams are counted exactly, however each
  of them ends; and a link is reported as dropped, not as failed, only when the synth had
  answered the hello.
\<close>

theorem pause_ends_streams:
  assumes "u = run_link es (run_start sh)"
  shows "(\<not> ru_control_new u \<and> sh_paused (ru_shared u) \<longrightarrow> list_all snd (ru_streams u)) \<and>
    (ru_end u \<noteq> None \<longrightarrow> ru_streams u = []) \<and> (\<forall>t. ru_end u = Some (RunDropped t) \<longrightarrow> ru_established u) \<and>
    sh_streams_open (ru_shared u) = sh_streams_open sh + length (ru_streams u)"
proof -
  have "streams_ok (sh_streams_open sh) (run_start sh)" by (simp add: streams_ok_def run_start_def)
  from streams_ok_run [OF this, of es] show ?thesis by (simp add: streams_ok_def assms)
qed

section \<open>Examples\<close>

definition example_link :: link_world where
  "example_link = \<lparr>lw_offered = [], lw_shell = lit ''zsh'', lw_os = lit ''macos'', lw_os_version = [], lw_arch = lit ''aarch64'',
     lw_hostname = lit ''mac'', lw_app_version = lit ''1'', lw_cua_version = [], lw_cua_status = []\<rparr>"

definition example_ack :: json where
  "example_ack = JObj [(lit ''type'', JStr (lit ''hello_ack''))]"

definition greeting :: "control_event list" where
  "greeting = [CtlHeaderOut None, CtlAnswered (AnswerIs True []), CtlDriverKnown, CtlHelloOut None]"

definition files_on :: "settings \<Rightarrow> settings" where
  "files_on s = s\<lparr>st_files := (st_files s)\<lparr>f_enabled := \<not> f_enabled (st_files s)\<rparr>\<rparr>"

lemma ack_taken: "control_line r example_ack c = take_ack r (parse_ack example_ack) c"
  by (simp add: control_line_def Let_def example_ack_def get_str_def jget_def as_str_def)

lemma greeted:
  "co_stage (control_run w r greeting (control_open r ob sh)) = CtlRunning"
  "\<not> co_settings_new (control_run w r greeting (control_open r ob sh))"
  "told_caps (co_sent (control_run w r greeting (control_open r ob sh))) =
     Some (capabilities_now w (co_shared (control_run w r greeting (control_open r ob sh))))"
  "co_shared (control_run w r greeting (control_open r ob sh)) = on_requests r (\<lambda>q. snd (attach q)) sh"
  by (simp_all add: greeting_def control_run_def control_open_def control_answered_def control_hello_def control_greeted_def
      Let_def told_caps_append [of "[header_line]", simplified])

theorem hello_before_all_witness:
  "starts_with_hello example_link (co_sent (control_run example_link 0 (greeting @ [CtlLine (Ok (Some example_ack))])
     (control_open 0 no_observe linked_shared)))"
proof -
  let ?c = "control_run example_link 0 (greeting @ [CtlLine (Ok (Some example_ack))]) (control_open 0 no_observe linked_shared)"
  have "co_established ?c"
    using greeted(1) [of example_link 0 no_observe linked_shared]
    by (simp add: control_run_def reading_def control_read_def ack_taken take_ack_def Let_def)
  with hello_before_all [of ?c, OF refl] show ?thesis by simp
qed

lemma files_told:
  "capabilities_now w (snd (mutate_settings files_on sh)) \<noteq> capabilities_now w sh"
  by (simp add: capabilities_now_def with_capability_def capability_def sh_settings_def mutate_settings_def Let_def files_on_def
      set_persisted_def capabilities_value_def island_on_def obj_put_def put_last_def shell_stop_all_def)

lemma rev_told_linked: "rev_told (on_requests r f (blank_shared default_settings))"
  using leaves_told_caps [OF leaves_told_requests] by (simp add: blank_shared_def rev_told_start)

theorem settings_reach_synth_witness:
  "\<exists>c c'. c' = control_run example_link 0 [CtlMeanwhile (OwnerSets files_on)] c \<and> co_settings_new c' \<and>
     capabilities_now example_link (co_shared c') \<noteq> capabilities_now example_link (co_shared c) \<and>
     told_caps (co_sent (control_run example_link 0 [CtlSettings, CtlDriverKnown, CtlToldOut 0 False None None] c')) =
       Some (capabilities_now example_link (co_shared c'))"
proof -
  define c where "c = control_run example_link 0 greeting (control_open 0 no_observe (blank_shared default_settings))"
  define c' where "c' = control_run example_link 0 [CtlMeanwhile (OwnerSets files_on)] c"
  have sh: "co_shared c = on_requests 0 (\<lambda>q. snd (attach q)) (blank_shared default_settings)"
    by (simp add: c_def greeted(4))
  have r: "rev_told (co_shared c)" by (simp add: sh rev_told_linked)
  have st: "co_stage c' = CtlRunning"
    by (simp add: c'_def control_run_def control_meanwhile_def Let_def) (simp add: c_def greeted(1))
  have "sh_settings_tx (co_shared c') \<noteq> sh_settings_tx (co_shared c)"
    using r goes_on_told [OF r, of "OwnerSets files_on" example_link] files_told [of example_link "co_shared c"]
    by (auto simp: c'_def control_run_def control_meanwhile_def Let_def goes_on_def)
  then have new: "co_settings_new c'" by (simp add: c'_def control_run_def control_meanwhile_def Let_def)
  have caps: "capabilities_now example_link (co_shared c') \<noteq> capabilities_now example_link (co_shared c)"
    using files_told [of example_link "co_shared c"] by (simp add: c'_def control_run_def control_meanwhile_def Let_def goes_on_def)
  have t: "told_caps (co_sent c) = Some (capabilities_now example_link (co_shared c))" "co_stage c = CtlRunning"
    by (simp_all add: c_def greeted)
  have "list_all plain_event [CtlMeanwhile (OwnerSets files_on)]" by (simp add: plain_event_def)
  from settings_reach_synth [OF r t(2) t(1) this c'_def st, of 0 False] new caps c'_def show ?thesis by auto
qed

theorem change_during_hello_untold_witness:
  "\<exists>c. told_caps (co_sent (control_run example_link 0 [CtlDriverKnown, CtlMeanwhile (OwnerSets files_on), CtlHelloOut None] c)) \<noteq>
     Some (capabilities_now example_link
       (co_shared (control_run example_link 0 [CtlDriverKnown, CtlMeanwhile (OwnerSets files_on), CtlHelloOut None] c)))"
proof -
  define c where "c = control_run example_link 0 [CtlHeaderOut None, CtlAnswered (AnswerIs True [])]
      (control_open 0 no_observe (blank_shared default_settings))"
  have st: "co_stage c = CtlAccepted" by (simp add: c_def control_run_def control_open_def control_answered_def)
  have "list_all quiet_event []" by simp
  from change_during_hello_untold [OF st this files_told [of example_link "co_shared c"] refl, of 0] show ?thesis by blast
qed

theorem pause_ends_streams_witness:
  "ru_streams (run_link [RunInbound, RunMeanwhile OwnerPauses, RunControl, RunInbound] (run_start (blank_shared default_settings)))
     = [(1, True)]"
proof -
  let ?u = "run_link [RunInbound, RunMeanwhile OwnerPauses, RunControl, RunInbound] (run_start (blank_shared default_settings))"
  have p: "sh_paused (goes_on OwnerPauses sh)" "sh_control_tx (goes_on OwnerPauses sh) \<noteq> sh_control_tx sh" for sh
    by (simp_all add: goes_on_def pause_def bump_control_def stop_cua_def daemon_gone_def clear_task_def shell_stop_all_def
        Let_def bump_moves [simplified])
  have "\<not> ru_control_new ?u" "sh_paused (ru_shared ?u)"
    using p by (simp_all add: run_link_def run_start_def Let_def abort_all_def streams_end_def stream_begins_def)
  with pause_ends_streams [of ?u, OF refl] have "list_all snd (ru_streams ?u)" by simp
  then show ?thesis
    using p by (simp add: run_link_def run_start_def Let_def abort_all_def streams_end_def stream_begins_def)
qed

end
