(* ===== verification/Computer_Guard.thy ===== *)
theory Computer_Guard
  imports Files_Confinement Computer_Apps
begin

text \<open>
  \<open>cua_guard.rs\<close>, what a synth may never call and where the driver may write a file,
  \<open>cua_look.rs\<close>, the owner's look as start flags of the daemon and as a gate on the calls,
  and the readings of a call in \<open>cua.rs\<close>. The colours and files of the cursor themes, the
  system they run on and the environment are parameters.
\<close>

section \<open>What is never allowed\<close>

definition NEVER :: "(utext \<times> utext) list" where
  \<comment> \<open>the tool and what the synth is told\<close>
  "NEVER = [
  (lit ''start_recording'',
    lit ''recording the screen is not available through SNTH Connect; tell the owner you cannot record their screen from here, and that their system's own screen recorder can''),
   (lit ''install_ffmpeg'',
    lit ''installing software on this computer is not something you may do through SNTH Connect; ffmpeg is only needed for recording, which is not available either, so tell the owner that if they asked for it''),
   (lit ''install_extension'',
    lit ''installing software on this computer is not something you may do through SNTH Connect; work from the screenshot and the accessibility tree, and tell the owner the visual parser is not part of SNTH Connect if they ask''),
   (lit ''check_for_update'',
    lit ''the helper on this computer is kept at the version SNTH Connect was tested with and is updated together with the app; never run an installer for it, and if the owner asks about updates tell them to update SNTH Connect''),
   (lit ''set_config'',
    lit ''the helper's settings on this computer are its owner's, in SNTH Connect under Computer control; for a smaller screenshot pass max_image_dimension on the call itself, and for anything else tell the owner where the setting is''),
   (lit ''replay_trajectory'',
    lit ''replaying a recording is not available through SNTH Connect; do the steps one call at a time, and tell the owner so if they asked for a replay'')
   ]"

definition never_refusal :: "utext \<Rightarrow> utext option" where
  "never_refusal tool = map_option (\<lambda>t. lit ''denied: '' @ t) (map_of NEVER tool)"

definition WRITE_ARGS :: "utext list" where
  "WRITE_ARGS = map lit [''screenshot_out_file'', ''debug_image_out'', ''destination_root'']"

definition REVIEWED_TOOLS :: "utext list" where
  "REVIEWED_TOOLS = map lit [''stop_recording'', ''get_recording_state'', ''get_config'', ''check_permissions'', ''escalate_session'', ''browser_download'']"

definition REVIEWED_ARGS :: "(utext \<times> utext) list" where
  "REVIEWED_ARGS = map (\<lambda>(t, a). (lit t, lit a)) [
     (''clipboard_write'', ''file_path''),
     (''clipboard_write'', ''image_path''),
     (''browser_set_input_files'', ''files''),
     (''browser_pointer'', ''destination_ref''),
     (''invoke_menu'', ''path''),
     (''launch_app'', ''launch_path''),
     (''launch_app'', ''path''),
     (''drag'', ''path''),
     (''start_recording'', ''output_dir''),
     (''replay_trajectory'', ''dir'')]"

definition TOOL_MARKS :: "utext list" where
  "TOOL_MARKS = map lit [''install'', ''record'', ''updat'', ''upgrad'', ''config'', ''permission'', ''histor'', ''extension'',
     ''download'', ''escalat'', ''replay'', ''telemetr'', ''autostart'', ''skill'', ''grant'', ''revok'']"

definition ARG_WORDS :: "utext list" where
  "ARG_WORDS = map lit [''file'', ''files'', ''filename'', ''path'', ''paths'', ''dir'', ''directory'', ''out'', ''output'', ''destination'', ''save'', ''folder'']"

fun name_words :: "utext \<Rightarrow> utext list" where
  \<comment> \<open>split at underscores, dashes and dots, what is empty left out\<close>
  "name_words [] = []"
| "name_words (c # cs) =
     (if c \<in> {95, 45, 46} then name_words cs
      else let w = takeWhile (\<lambda>x. x \<notin> {95, 45, 46}) cs in (c # w) # name_words (drop (length w) cs))"

definition schema_args :: "json \<Rightarrow> utext list" where
  "schema_args t = (case Option.bind (jget (lit ''inputSchema'') t) (jget (lit ''properties'')) of
      Some (JObj kvs) \<Rightarrow> map fst kvs | _ \<Rightarrow> [])"

definition tool_unclassified :: "utext \<Rightarrow> bool" where
  "tool_unclassified name \<longleftrightarrow> name \<notin> fst ` set NEVER \<and> name \<notin> set REVIEWED_TOOLS \<and>
     list_ex (\<lambda>m. contains_str m name) TOOL_MARKS"

definition arg_unclassified :: "utext \<Rightarrow> utext \<Rightarrow> bool" where
  "arg_unclassified name arg \<longleftrightarrow> \<not> (arg \<in> set WRITE_ARGS \<or> (name, arg) \<in> set REVIEWED_ARGS) \<and>
     list_ex (\<lambda>x. x \<in> set ARG_WORDS) (name_words arg)"

definition unclassified_of :: "json \<Rightarrow> utext list" where
  "unclassified_of t =
     (case get_str (lit ''name'') t of
        None \<Rightarrow> []
      | Some name \<Rightarrow>
          (if tool_unclassified name then [lit ''tool '' @ name] else []) @
          map (\<lambda>a. lit ''argument '' @ name @ 46 # a) (filter (arg_unclassified name) (schema_args t)))"

definition unclassified :: "json list \<Rightarrow> utext list" where
  "unclassified tools = concat (map unclassified_of tools)"

section \<open>Where the driver may write\<close>

definition write_hint :: utext where
  "write_hint = lit ''leave the argument out to get the picture in the answer, or tell the owner which folder to share for writing in SNTH Connect under Files''"

definition confine_arg :: "disk \<Rightarrow> files_settings \<Rightarrow> utext \<Rightarrow> json \<Rightarrow> (utext \<times> refusal_kind, utext) result" where
  \<comment> \<open>one argument that names a place: the resolved path\<close>
  "confine_arg d fs name value =
     (case as_str value of
        None \<Rightarrow> Err (lit ''denied: '' @ name @ lit '' must be a path; '' @ write_hint, bad_argument (lit ''write_arg_not_path''))
      | Some path \<Rightarrow>
          if \<not> f_enabled fs then
            Err (lit ''denied: '' @ name @ lit '': files are turned off on this computer, so nothing may be written to its disk; '' @ write_hint,
                 bad_argument (lit ''write_arg_files_off''))
          else if f_ask_on_write fs then
            Err (lit ''denied: '' @ name @ lit '': the owner is asked before every file written on this computer, and the helper cannot ask; write the file with the files tool instead, or '' @ write_hint,
                 bad_argument (lit ''write_arg_ask_on_write''))
          else
            (case resolve_write d path (f_roots fs) of
               Err why \<Rightarrow> Err (why @ lit ''; '' @ name @ lit '' may only point into a folder shared for writing; '' @ write_hint,
                 bad_argument (lit ''write_arg_outside_shared''))
             | Ok p \<Rightarrow> Ok (place_text p)))"

fun confine_args :: "disk \<Rightarrow> files_settings \<Rightarrow> utext list \<Rightarrow> bool \<Rightarrow> (utext \<times> json) list
    \<Rightarrow> (utext \<times> refusal_kind, bool \<times> (utext \<times> json) list) result" where
  "confine_args d fs [] changed args = Ok (changed, args)"
| "confine_args d fs (n # ns) changed args =
     (case map_of args n of
        None \<Rightarrow> confine_args d fs ns changed args
      | Some v \<Rightarrow>
          if v = JNull then confine_args d fs ns changed args
          else case confine_arg d fs n v of
              Err e \<Rightarrow> Err e
            | Ok p \<Rightarrow> confine_args d fs ns True (obj_put n (JStr p) args))"

definition put_arguments :: "(utext \<times> json) list \<Rightarrow> json \<Rightarrow> json" where
  \<comment> \<open>the message with other arguments\<close>
  "put_arguments args msg =
     (case msg of
        JObj kvs \<Rightarrow>
          (case map_of kvs (lit ''params'') of
             Some (JObj ps) \<Rightarrow> JObj (obj_put (lit ''params'') (JObj (obj_put (lit ''arguments'') (JObj args) ps)) kvs)
           | _ \<Rightarrow> msg)
      | _ \<Rightarrow> msg)"

definition confine_paths :: "disk \<Rightarrow> files_settings \<Rightarrow> json \<Rightarrow> (utext \<times> refusal_kind, bool \<times> json) result" where
  "confine_paths d fs msg =
     (case arguments msg of
        Some (JObj args) \<Rightarrow>
          (case confine_args d fs WRITE_ARGS False args of
             Err e \<Rightarrow> Err e
           | Ok (changed, args') \<Rightarrow> Ok (changed, put_arguments args' msg))
      | _ \<Rightarrow> Ok (False, msg))"

section \<open>Reading a call\<close>

definition tool_name :: "json \<Rightarrow> utext option" where
  "tool_name msg =
     (if get_str (lit ''method'') msg \<noteq> Some (lit ''tools/call'') then None
      else Option.bind (jget (lit ''params'') msg) (get_str (lit ''name'')))"

fun wants_foreground :: "json \<Rightarrow> bool" where
  "wants_foreground (JObj kvs) \<longleftrightarrow>
     get_str (lit ''delivery_mode'') (JObj kvs) = Some (lit ''foreground'') \<or> list_ex (\<lambda>kv. wants_foreground (snd kv)) kvs"
| "wants_foreground (JArr vs) \<longleftrightarrow> list_ex wants_foreground vs"
| "wants_foreground _ \<longleftrightarrow> False"

definition sat_mul64 :: "nat \<Rightarrow> nat \<Rightarrow> nat" where
  "sat_mul64 a b = min (a * b) (2 ^ 64 - 1)"

definition away_allows :: "computer_mode \<Rightarrow> nat \<Rightarrow> nat \<Rightarrow> bool" where
  "away_allows mode minutes idle \<longleftrightarrow> (case mode of ComputerAway \<Rightarrow> sat_mul64 minutes 60 \<le> idle | _ \<Rightarrow> True)"

definition foreground_decision :: "foreground \<Rightarrow> nat \<Rightarrow> nat \<Rightarrow> bool option" where
  "foreground_decision fg minutes idle = (case fg of
      FgNever \<Rightarrow> Some False | FgAlways \<Rightarrow> Some True | FgIdle \<Rightarrow> Some (sat_mul64 minutes 60 \<le> idle) | FgAsk \<Rightarrow> None)"

section \<open>The owner's look\<close>

definition theme_for :: "cursor_color \<Rightarrow> utext option" where
  \<comment> \<open>the theme the app ships for a colour\<close>
  "theme_for c = (case c of
      CAuto \<Rightarrow> None
    | CSky \<Rightarrow> Some (lit ''ai.snth.connect.sky'')
    | CViolet \<Rightarrow> Some (lit ''ai.snth.connect.violet'')
    | CRose \<Rightarrow> Some (lit ''ai.snth.connect.rose'')
    | CGreen \<Rightarrow> Some (lit ''ai.snth.connect.green'')
    | CAmber \<Rightarrow> Some (lit ''ai.snth.connect.amber'')
    | CRed \<Rightarrow> Some (lit ''ai.snth.connect.red'')
    | CGraphite \<Rightarrow> Some (lit ''ai.snth.connect.graphite''))"

record motion =
  mo_glide :: nat
  mo_dwell :: nat

definition DRIVER_MOTION :: motion where "DRIVER_MOTION = \<lparr>mo_glide = 0, mo_dwell = 80\<rparr>"
definition DRIVER_IDLE_HIDE :: nat where "DRIVER_IDLE_HIDE = 15"

definition motion_of :: "cursor_speed \<Rightarrow> motion" where
  "motion_of s = (case s of
      SpFast \<Rightarrow> \<lparr>mo_glide = 250, mo_dwell = 40\<rparr>
    | SpNormal \<Rightarrow> DRIVER_MOTION
    | SpRelaxed \<Rightarrow> \<lparr>mo_glide = 1500, mo_dwell = 400\<rparr>)"

record look_support =
  su_cursor :: bool
  su_color :: bool
  su_motion :: bool
  su_preview :: bool

definition look_support :: "bool \<Rightarrow> bool \<Rightarrow> bool \<Rightarrow> look_support" where
  "look_support linux wayland_named macos =
     (let wayland = (linux \<and> wayland_named)
      in \<lparr>su_cursor = True, su_color = (\<not> wayland), su_motion = (\<not> wayland), su_preview = macos\<rparr>)"

definition motion_args :: "look_settings \<Rightarrow> bool \<Rightarrow> utext list" where
  "motion_args look system_reduced =
     (let reduced = (case l_reduced_motion look of RmSystem \<Rightarrow> system_reduced | RmAlways \<Rightarrow> True | RmNever \<Rightarrow> False);
          m = motion_of (l_speed look)
      in [lit ''--cursor-reduced-motion'', if reduced then lit ''on'' else lit ''off''] @
         (if m \<noteq> DRIVER_MOTION then [lit ''--glide-ms'', digits (mo_glide m), lit ''--dwell-ms'', digits (mo_dwell m)] else []) @
         (if l_idle_hide_seconds look \<noteq> DRIVER_IDLE_HIDE
          then [lit ''--idle-hide-ms'', digits (min (l_idle_hide_seconds look) 60 * 1000)] else []))"

definition daemon_args :: "look_settings \<Rightarrow> bool \<Rightarrow> bool \<Rightarrow> look_support \<Rightarrow> utext list" where
  "daemon_args look themes system_reduced su =
     (if \<not> l_cursor look then [lit ''--no-overlay'']
      else (if themes \<and> su_color su
            then (case theme_for (l_color look) of Some t \<Rightarrow> [lit ''--cursor-theme'', t] | None \<Rightarrow> []) else []) @
           (if su_motion su then motion_args look system_reduced else [])) @
     (if l_preview_window look \<and> su_preview su then [lit ''--experimental-pip''] else [])"

definition look_flags :: "look_settings \<Rightarrow> bool option \<Rightarrow> bool \<Rightarrow> look_support \<Rightarrow> utext list" where
  \<comment> \<open>\<open>resolve\<close>: is there a theme folder, and could the themes be put there\<close>
  "look_flags look installed system_reduced su = daemon_args look (installed = Some True) system_reduced su"

section \<open>The gate of the look\<close>

definition CURSOR_SETTERS :: "utext list" where
  "CURSOR_SETTERS = map lit [''set_agent_cursor_enabled'', ''set_agent_cursor_motion'', ''set_agent_cursor_theme'']"

definition SCREENSHOT_TOOLS :: "utext list" where
  "SCREENSHOT_TOOLS = map lit [''get_window_state'', ''get_desktop_state'']"

datatype look_gate = LookPass | LookChanged utext | LookRefuse utext refusal_kind

definition start_session_look :: "json \<Rightarrow> look_gate \<times> json" where
  "start_session_look msg =
     (case arguments msg of
        Some (JObj args) \<Rightarrow>
          (let theme = (map_of args (lit ''cursor_theme'') \<noteq> None); motion = (map_of args (lit ''cursor_motion'') \<noteq> None);
               msg' = put_arguments (obj_remove (lit ''cursor_motion'') (obj_remove (lit ''cursor_theme'') args)) msg
           in (if theme \<and> motion then LookChanged (lit ''cursor_theme and cursor_motion removed'')
               else if theme then LookChanged (lit ''cursor_theme removed'')
               else if motion then LookChanged (lit ''cursor_motion removed'')
               else LookPass, msg'))
      | _ \<Rightarrow> (LookPass, msg))"

definition limit_screenshot :: "nat \<Rightarrow> (utext \<times> json) list \<Rightarrow> json \<Rightarrow> look_gate \<times> json" where
  "limit_screenshot limit args msg =
     (case Option.bind (map_of args (lit ''max_image_dimension'')) as_u64 of
        Some v \<Rightarrow>
          if 0 < v \<and> v \<le> limit then (LookPass, put_arguments args msg)
          else (LookChanged (lit ''screenshot limited''),
                put_arguments (obj_put (lit ''max_image_dimension'') (JInt (int limit)) args) msg)
      | None \<Rightarrow> (LookChanged (lit ''screenshot limited''),
                put_arguments (obj_put (lit ''max_image_dimension'') (JInt (int limit)) args) msg))"

definition params_of :: "json \<Rightarrow> (utext \<times> json) list option" where
  "params_of msg = (case jget (lit ''params'') msg of Some (JObj ps) \<Rightarrow> Some ps | _ \<Rightarrow> None)"

definition screenshot_look :: "nat \<Rightarrow> (utext \<times> json) list \<Rightarrow> json \<Rightarrow> look_gate \<times> json" where
  "screenshot_look limit ps msg =
     (case map_of ps (lit ''arguments'') of
        None \<Rightarrow> limit_screenshot limit [] msg
      | Some JNull \<Rightarrow> limit_screenshot limit [] msg
      | Some (JObj args) \<Rightarrow> limit_screenshot limit args msg
      | Some _ \<Rightarrow> (LookPass, msg))"

definition look_gate :: "utext \<Rightarrow> json \<Rightarrow> look_settings \<Rightarrow> look_gate \<times> json" where
  "look_gate tool msg look =
     (if tool \<in> set CURSOR_SETTERS then
        (LookRefuse (lit ''the cursor's look on this computer is its owner's choice, in SNTH Connect under Computer control; go on without changing it, and tell the owner where the setting is if they asked for another look'')
           (bad_argument (lit ''cursor_look_is_owners'')), msg)
      else if tool = lit ''move_cursor'' \<and> \<not> l_cursor look then
        (LookRefuse (lit ''the owner of this computer switched the agent cursor off, in SNTH Connect under Computer control; nothing is wrong, go on without it, and tell the owner where the switch is if they miss the cursor'')
           (bad_argument (lit ''agent_cursor_off'')), msg)
      else case params_of msg of
          None \<Rightarrow> (LookPass, msg)
        | Some ps \<Rightarrow>
            if tool = lit ''start_session'' then start_session_look msg
            else if 0 < l_screenshot_max look \<and> tool \<in> set SCREENSHOT_TOOLS
            then screenshot_look (l_screenshot_max look) ps msg
            else (LookPass, msg))"

end
