(* ===== verification/Mcp_Gate.thy ===== *)
theory Mcp_Gate
  imports Computer_Guard Computer_Lease Core_Policy
begin

text \<open>
  \<open>mcp.rs\<close>: computer use. The gate of a working stream, the gate every message to the driver
  goes through, and the turn of a stream around it. The driver, the reading of the owner's
  presence, the owner and the disk are parameters; a message is its JSON (one that does not
  parse is None), printed again for the driver.
\<close>

record presence =
  pr_idle :: nat       \<comment> \<open>seconds\<close>
  pr_locked :: bool

record mcp_world =
  mw_owner :: owner
  mw_wall :: unix_time
  mw_now :: instant          \<comment> \<open>when the message came\<close>
  mw_acts :: instant         \<comment> \<open>when the action takes the lease\<close>
  mw_presence :: presence    \<comment> \<open>when the message came\<close>
  mw_idle :: nat             \<comment> \<open>at the question about the foreground\<close>
  mw_after :: presence       \<comment> \<open>when the message goes to the driver\<close>
  mw_later :: "shared \<Rightarrow> shared"  \<comment> \<open>what other tasks did before that\<close>
  mw_lower :: "utext \<Rightarrow> utext"
  mw_dbg :: "utext \<Rightarrow> utext"
  mw_foldp :: bool
  mw_driver :: driver
  mw_disk :: disk

section \<open>The policy of a working stream\<close>

definition authorize_active_turn :: "(utext, unit) result" where
  "authorize_active_turn = Err (lit ''locked use unavailable: native unlock is not implemented in this build'')"

definition working_policy :: "shared \<Rightarrow> presence \<Rightarrow> (refusal, unit) result" where
  "working_policy sh observed =
     (let c = st_computer (sh_settings sh)
      in if sh_paused sh then Err (Denied (lit ''computer use is paused by the owner''))
         else if \<not> c_enabled c then Err (Denied (lit ''computer use is turned off on this computer''))
         else if c_mode c = ComputerAway \<and> \<not> away_allows ComputerAway (c_away_idle_minutes c) (pr_idle observed)
         then Err (Denied (lit ''computer use is allowed only while you are away ('' @ digits (c_away_idle_minutes c) @
           lit '' min idle); you are active''))
         else if pr_locked observed then
           (if \<not> c_locked_use c
            then Err (Denied (lit ''the screen is locked and locked use is turned off on this computer''))
            else (case authorize_active_turn of Err e \<Rightarrow> Err (Failed e) | Ok _ \<Rightarrow> Ok ()))
         else Ok ())"

definition task_question :: "utext \<Rightarrow> approval_request" where
  "task_question reason = new_request (lit ''computer'') (lit ''task'') reason (lit ''let the synth use this computer for a task'')"

definition open_asked :: "mcp_world \<Rightarrow> slot_ref option \<Rightarrow> computer_mode \<Rightarrow> utext \<Rightarrow> shared \<Rightarrow> bool \<times> shared" where
  \<comment> \<open>may the task go on, as far as the owner is to be asked\<close>
  "open_asked w peer mode reason sh =
     (if mode \<noteq> ComputerAsk then (True, sh)
      else case sh_grant_allows (mw_wall w) peer (lit ''computer'') (lit ''task'') sh of
          (True, sh1) \<Rightarrow> (True, sh1)
        | (False, sh1) \<Rightarrow>
            (case ask_scoped (mw_owner w) (mw_wall w) peer (lit ''computer'') (lit ''task'') (task_question reason) sh1 of
               (a, sh2) \<Rightarrow> (allow a, sh2)))"

definition open_gate :: "mcp_world \<Rightarrow> slot_ref option \<Rightarrow> utext \<Rightarrow> shared \<Rightarrow> (refusal, computer_mode) result \<times> shared" where
  "open_gate w peer reason sh =
     (case working_policy sh (mw_presence w) of
        Err e \<Rightarrow> (Err e, sh)
      | Ok _ \<Rightarrow>
          (let mode = c_mode (st_computer (sh_settings sh))
           in case open_asked w peer mode reason sh of
                (False, sh1) \<Rightarrow> (Err (Denied (lit ''the owner did not allow computer use for this task'')), sh1)
              | (True, sh1) \<Rightarrow>
                  if c_mode (st_computer (sh_settings sh1)) \<noteq> mode
                  then (Err (Denied (lit ''computer-use policy changed; start a new task'')), sh1)
                  else (case working_policy sh1 (mw_after w) of Err e \<Rightarrow> (Err e, sh1) | Ok _ \<Rightarrow> (Ok mode, sh1))))"

section \<open>One message\<close>

datatype pipe_gate = Forward json | AppAnswer json | RefuseCall json | DropMessage utext

definition jsonrpc_error :: "json \<Rightarrow> utext \<Rightarrow> refusal_kind \<Rightarrow> json" where
  "jsonrpc_error i message kind = JObj [
     (lit ''error'', JObj [(lit ''code'', JInt (- 32001)), (lit ''data'', kind_data kind), (lit ''message'', JStr message)]),
     (lit ''id'', i), (lit ''jsonrpc'', JStr (lit ''2.0''))]"

definition jsonrpc_unavailable :: "json \<Rightarrow> utext \<Rightarrow> json" where
  "jsonrpc_unavailable i message = JObj [
     (lit ''error'', JObj [(lit ''code'', JInt (- 32001)), (lit ''message'', JStr message)]),
     (lit ''id'', i), (lit ''jsonrpc'', JStr (lit ''2.0''))]"

definition jsonrpc_busy :: "json \<Rightarrow> utext \<Rightarrow> json" where
  "jsonrpc_busy i who = JObj [
     (lit ''error'', JObj [(lit ''code'', JInt (- 32001)), (lit ''data'', JObj [(lit ''code'', JStr (lit ''computer_busy''))]),
        (lit ''message'', JStr (lit ''unavailable: '' @ who @ lit '' is controlling this computer right now; try again in a minute''))]),
     (lit ''id'', i), (lit ''jsonrpc'', JStr (lit ''2.0''))]"

definition call_entry :: "mcp_world \<Rightarrow> utext \<Rightarrow> utext \<Rightarrow> entry" where
  "call_entry w tool outcome = new_entry (mw_wall w) (lit ''computer'') (lit ''tools/call'') tool outcome"

text \<open>A call: the tool, the id of the message, the synth it comes from.\<close>

record tool_call =
  tc_tool :: utext
  tc_id :: json
  tc_peer :: "slot_ref option"
  tc_synth :: utext
  tc_name :: utext

definition refuse_call :: "mcp_world \<Rightarrow> tool_call \<Rightarrow> utext \<Rightarrow> utext \<Rightarrow> refusal_kind \<Rightarrow> shared \<Rightarrow> pipe_gate \<times> shared" where
  "refuse_call w t outcome message kind sh =
     (RefuseCall (jsonrpc_error (tc_id t) message kind), sh_record (tc_peer t) (call_entry w (tc_tool t) outcome) sh)"

definition busy_call :: "mcp_world \<Rightarrow> tool_call \<Rightarrow> utext \<Rightarrow> shared \<Rightarrow> pipe_gate \<times> shared" where
  "busy_call w t who sh =
     (RefuseCall (jsonrpc_busy (tc_id t) who),
      sh_record (tc_peer t) (call_entry w (tc_tool t) (lit ''denied: '' @ who @ lit '' is controlling the computer'')) sh)"

definition screen_point :: "json \<Rightarrow> (rat \<times> rat) option" where
  "screen_point msg =
     Option.bind (jget (lit ''params'') msg) (\<lambda>p. Option.bind (jget (lit ''arguments'') p) (\<lambda>a.
       if jget (lit ''window_id'') a \<noteq> None \<or> jget (lit ''pid'') a \<noteq> None then None
       else Option.bind (Option.bind (jget (lit ''x'') a) as_f64) (\<lambda>x.
              map_option (\<lambda>y. (x, y)) (Option.bind (jget (lit ''y'') a) as_f64))))"

definition sent_call :: "mcp_world \<Rightarrow> tool_call \<Rightarrow> json \<Rightarrow> shared \<Rightarrow> pipe_gate \<times> shared" where
  "sent_call w t msg sh =
     (let sh1 = sh_record (tc_peer t) (call_entry w (tc_tool t) (lit ''ok'')) sh
      in (Forward msg, case screen_point msg of Some (x, y) \<Rightarrow> note_agent_cursor (mw_acts w) x y sh1 | None \<Rightarrow> sh1))"

definition lease_call :: "mcp_world \<Rightarrow> tool_call \<Rightarrow> json \<Rightarrow> shared \<Rightarrow> pipe_gate \<times> shared" where
  "lease_call w t msg sh =
     (if is_action (tc_tool t) then
        (case lease_take (mw_acts w) (tc_synth t) (tc_name t) sh of
           (Err who, sh1) \<Rightarrow> busy_call w t who sh1
         | (Ok _, sh1) \<Rightarrow> sent_call w t msg sh1)
      else sent_call w t msg sh)"

definition look_call :: "mcp_world \<Rightarrow> settings \<Rightarrow> tool_call \<Rightarrow> json \<Rightarrow> shared \<Rightarrow> pipe_gate \<times> shared" where
  "look_call w s t msg sh =
     (case look_gate (tc_tool t) msg (c_look (st_computer s)) of
        (LookRefuse why kind, _) \<Rightarrow>
          refuse_call w t (lit ''denied: the look is the owner's to set'') (lit ''denied: '' @ why) kind sh
      | (_, msg1) \<Rightarrow> lease_call w t msg1 sh)"

definition place_call :: "mcp_world \<Rightarrow> settings \<Rightarrow> tool_call \<Rightarrow> json \<Rightarrow> shared \<Rightarrow> pipe_gate \<times> shared" where
  "place_call w s t msg sh =
     (case confine_paths (mw_disk w) (st_files s) msg of
        Err (message, kind) \<Rightarrow> refuse_call w t (lit ''denied: outside the shared folders'') message kind sh
      | Ok (_, msg1) \<Rightarrow> look_call w s t msg1 sh)"

definition foreground_scope :: "utext \<Rightarrow> utext" where
  "foreground_scope tool = lit ''foreground:'' @ tool"

definition foreground_question :: "utext \<Rightarrow> approval_request" where
  "foreground_question tool = new_request (lit ''computer'') (foreground_scope tool) []
     (lit ''let the synth bring a window to the foreground ('' @ tool @ lit '')'')"

definition foreground_refusal :: "foreground \<Rightarrow> utext \<times> utext" where
  "foreground_refusal fg = (case fg of
      FgNever \<Rightarrow> (lit ''foreground delivery is turned off'', lit ''foreground_off'')
    | FgIdle \<Rightarrow> (lit ''foreground delivery is allowed only while you are away'', lit ''foreground_away_only'')
    | _ \<Rightarrow> (lit ''the owner did not allow foreground delivery'', lit ''foreground_not_allowed''))"

definition foreground_allowed :: "mcp_world \<Rightarrow> settings \<Rightarrow> tool_call \<Rightarrow> shared \<Rightarrow> bool \<times> shared" where
  "foreground_allowed w s t sh =
     (case foreground_decision (c_foreground (st_computer s)) (c_away_idle_minutes (st_computer s)) (mw_idle w) of
        Some b \<Rightarrow> (b, sh)
      | None \<Rightarrow>
          (case ask_scoped (mw_owner w) (mw_wall w) (tc_peer t) (lit ''computer'') (foreground_scope (tc_tool t))
                  (foreground_question (tc_tool t)) sh of
             (a, sh1) \<Rightarrow> (allow a, sh1)))"

definition foreground_call :: "mcp_world \<Rightarrow> settings \<Rightarrow> tool_call \<Rightarrow> json \<Rightarrow> shared \<Rightarrow> pipe_gate \<times> shared" where
  "foreground_call w s t msg sh =
     (if wants_foreground msg then
        (case foreground_allowed w s t sh of
           (True, sh1) \<Rightarrow> place_call w s t msg sh1
         | (False, sh1) \<Rightarrow>
             (let (why, code) = foreground_refusal (c_foreground (st_computer s))
              in refuse_call w t (lit ''denied: '' @ why) (lit ''denied: '' @ why) (owner_policy code) sh1))
      else place_call w s t msg sh)"

definition apps_call :: "mcp_world \<Rightarrow> scope \<Rightarrow> settings \<Rightarrow> tool_call \<Rightarrow> json \<Rightarrow> shared \<Rightarrow> pipe_gate \<times> shared" where
  "apps_call w sc s t msg sh =
     (case decide (mw_lower w) (mw_dbg w) (mw_foldp w) (mw_driver w) (mw_now w) sc (tc_tool t) msg (sh_directory sh) of
        (v, d) \<Rightarrow>
          (let sh1 = sh\<lparr>sh_directory := d\<rparr>
           in case v of
                Pass \<Rightarrow> foreground_call w s t msg sh1
              | Refuse message outcome kind \<Rightarrow> refuse_call w t outcome message kind sh1
              | Answer result \<Rightarrow>
                  (AppAnswer (JObj [(lit ''id'', tc_id t), (lit ''jsonrpc'', JStr (lit ''2.0'')), (lit ''result'', result)]),
                   sh_record (tc_peer t) (call_entry w (tc_tool t) (lit ''ok'')) sh1)))"

definition session_label :: "json \<Rightarrow> utext option" where
  "session_label msg = Option.bind (jget (lit ''params'') msg) (\<lambda>p. Option.bind (jget (lit ''arguments'') p) (get_str (lit ''session'')))"

definition driven_call :: "mcp_world \<Rightarrow> scope \<Rightarrow> settings \<Rightarrow> tool_call \<Rightarrow> json \<Rightarrow> shared \<Rightarrow> pipe_gate \<times> shared" where
  \<comment> \<open>one synth drives at a time; the name of the task\<close>
  "driven_call w sc s t msg sh =
     (let acting = is_action (tc_tool t)
      in case (acting, lease_check (mw_now w) (tc_synth t) sh) of
           (True, Err who) \<Rightarrow> busy_call w t who sh
         | _ \<Rightarrow>
             apps_call w sc s t msg
               (if acting \<or> computer_driver (mw_now w) sh = None then note_task (mw_now w) (session_label msg) sh else sh))"

definition caller :: "slot_ref option \<Rightarrow> shared \<Rightarrow> utext \<times> utext" where
  "caller peer sh = (case current_slot peer sh of
      Some r \<Rightarrow> (sl_synth_id (slot_at sh r), display_name (slot_at sh r)) | None \<Rightarrow> ([], []))"

definition named_call :: "mcp_world \<Rightarrow> scope \<Rightarrow> bool \<Rightarrow> tool_call \<Rightarrow> json \<Rightarrow> shared \<Rightarrow> pipe_gate \<times> shared" where
  \<comment> \<open>what no choice of the owner's, and no synth that drives, comes before\<close>
  "named_call w sc is_catalog t msg sh =
     (if is_catalog then
        refuse_call w t (lit ''denied: catalog stream'') (lit ''denied: a catalog stream may not call tools'')
          (owner_policy (lit ''catalog_stream'')) sh
      else case working_policy sh (mw_presence w) of
          Err why \<Rightarrow> refuse_call w t (refusal_text why) (refusal_text why) (owner_policy (lit ''session_unavailable'')) sh
        | Ok _ \<Rightarrow>
            (case never_refusal (tc_tool t) of
               Some why \<Rightarrow>
                 refuse_call w t (lit ''denied: never allowed for the synth'') why (owner_policy (lit ''never_allowed'')) sh
             | None \<Rightarrow>
                 if tc_tool t \<in> set (c_tool_denylist (st_computer (sh_settings sh))) then
                   refuse_call w t (lit ''denied: tool on the denylist'')
                     (lit ''denied: tool '' @ quoted (tc_tool t) @ lit '' is on this computer's denylist'')
                     (owner_policy (lit ''tool_denylist'')) sh
                 else driven_call w sc (sh_settings sh) t msg sh))"

definition message_id :: "json \<Rightarrow> json" where
  "message_id msg = (case jget (lit ''id'') msg of Some i \<Rightarrow> i | None \<Rightarrow> JNull)"

definition call_of :: "slot_ref option \<Rightarrow> utext \<Rightarrow> json \<Rightarrow> shared \<Rightarrow> tool_call" where
  "call_of peer tool msg sh = \<lparr>tc_tool = tool, tc_id = message_id msg, tc_peer = peer,
     tc_synth = fst (caller peer sh), tc_name = snd (caller peer sh)\<rparr>"

definition filter_scoped :: "mcp_world \<Rightarrow> slot_ref option \<Rightarrow> scope \<Rightarrow> bool \<Rightarrow> json option \<Rightarrow> shared \<Rightarrow> pipe_gate \<times> shared" where
  "filter_scoped w peer sc is_catalog line sh =
     (case line of
        None \<Rightarrow> (DropMessage (lit ''not valid JSON''), sh)
      | Some msg \<Rightarrow>
          if \<not> is_JObj msg then (DropMessage (lit ''not a JSON object''), sh)
          else case tool_name msg of
              None \<Rightarrow> (Forward msg, sh)
            | Some tool \<Rightarrow> named_call w sc is_catalog (call_of peer tool msg sh) msg sh)"

section \<open>One turn of a stream\<close>

definition TASK_GAP :: instant where "TASK_GAP = seconds (5 * 60)"

definition REOPEN :: utext where
  "REOPEN = lit ''unavailable: SNTH Connect is restarting its helper so that the owner's current settings for computer control apply; this connection is closed and nothing was done; call again, starting with a fresh list_windows''"

definition between_tasks :: "instant option \<Rightarrow> nat \<Rightarrow> bool" where
  "between_tasks since_last_call sessions_open \<longleftrightarrow>
     (case since_last_call of Some gap \<Rightarrow> TASK_GAP \<le> gap | None \<Rightarrow> False) \<and> sessions_open \<le> 1"

definition call_id :: "json option \<Rightarrow> json option" where
  "call_id line = (case line of None \<Rightarrow> None | Some msg \<Rightarrow> if tool_name msg = None then None else Some (message_id msg))"

record mcp_stream =
  ms_peer :: "slot_ref option"
  ms_catalog :: bool
  ms_scope :: scope           \<comment> \<open>what the daemon of this session was started with\<close>
  ms_mode :: computer_mode    \<comment> \<open>when the stream was opened\<close>
  ms_last :: "instant option" \<comment> \<open>when it last carried a call\<close>

datatype mcp_turn =
    ToDriver json        \<comment> \<open>handed to the driver\<close>
  | ToSynth json         \<comment> \<open>answered\<close>
  | Nothing
  | Reopen json          \<comment> \<open>answered, and the stream is closed\<close>
  | Revoked              \<comment> \<open>the stream is closed and the daemon stopped\<close>

definition mcp_handed :: "mcp_world \<Rightarrow> mcp_stream \<Rightarrow> json \<Rightarrow> shared \<Rightarrow> mcp_turn \<times> mcp_stream \<times> shared" where
  \<comment> \<open>what the gate let through\<close>
  "mcp_handed w m msg sh =
     (let sh1 = mw_later w sh
      in if \<not> ms_catalog m \<and> call_id (Some msg) \<noteq> None \<and>
            (\<not> is_ok (working_policy sh1 (mw_after w)) \<or> c_mode (st_computer (sh_settings sh1)) \<noteq> ms_mode m)
         then (Revoked, m, stop_cua sh1)
         else (ToDriver msg, m, sh1))"

definition mcp_decided :: "mcp_world \<Rightarrow> mcp_stream \<Rightarrow> json option \<Rightarrow> shared \<Rightarrow> mcp_turn \<times> mcp_stream \<times> shared" where
  "mcp_decided w m line sh =
     (case filter_scoped w (ms_peer m) (ms_scope m) (ms_catalog m) line sh of
        (g, sh1) \<Rightarrow>
          (case g of
             Forward msg \<Rightarrow> mcp_handed w m msg sh1
           | AppAnswer a \<Rightarrow> (ToSynth a, m, sh1)
           | RefuseCall e \<Rightarrow> (ToSynth e, m, sh1)
           | DropMessage _ \<Rightarrow> (Nothing, m, sh1)))"

definition mcp_turn :: "mcp_world \<Rightarrow> bool \<Rightarrow> mcp_stream \<Rightarrow> json option \<Rightarrow> shared \<Rightarrow> mcp_turn \<times> mcp_stream \<times> shared" where
  \<comment> \<open>\<open>outdated\<close>: the owner's settings ask for another daemon\<close>
  "mcp_turn w outdated m line sh =
     (case (if ms_catalog m then None else call_id line) of
        Some i \<Rightarrow>
          (if between_tasks (map_option (elapsed (mw_now w)) (ms_last m)) (sh_cua_sessions sh) \<and> outdated
           then (Reopen (jsonrpc_unavailable i REOPEN), m, sh)
           else mcp_decided w (m\<lparr>ms_last := Some (mw_now w)\<rparr>) line sh)
      | None \<Rightarrow> mcp_decided w m line sh)"

definition watch_session :: "mcp_stream \<Rightarrow> presence \<Rightarrow> shared \<Rightarrow> bool" where
  \<comment> \<open>every quarter of a second: does the stream go on?\<close>
  "watch_session m observed sh \<longleftrightarrow> ms_catalog m \<or>
     is_ok (working_policy sh observed) \<and> c_mode (st_computer (sh_settings sh)) = ms_mode m"

section \<open>What the checks leave of a call\<close>

definition arg :: "utext \<Rightarrow> json \<Rightarrow> json option" where
  "arg k msg = Option.bind (arguments msg) (jget k)"

definition CHANGED_ARGS :: "utext list" where
  \<comment> \<open>the arguments the app itself may change\<close>
  "CHANGED_ARGS = WRITE_ARGS @ map lit [''cursor_theme'', ''cursor_motion'', ''max_image_dimension'']"

definition same_call :: "json \<Rightarrow> json \<Rightarrow> bool" where
  "same_call msg msg' \<longleftrightarrow> tool_name msg' = tool_name msg \<and> (\<forall>k. k \<notin> set CHANGED_ARGS \<longrightarrow> arg k msg' = arg k msg)"

lemma same_call_refl [simp]: "same_call msg msg"
  by (simp add: same_call_def)

lemma same_call_trans: "same_call a b \<Longrightarrow> same_call b c \<Longrightarrow> same_call a c"
  by (simp add: same_call_def)

lemma jget_object: "jget k v = Some x \<Longrightarrow> \<exists>kvs. v = JObj kvs"
  by (cases v) (simp_all add: jget_def)

lemma arguments_params: "arguments msg = Some a \<Longrightarrow> params_of msg \<noteq> None"
proof -
  assume "arguments msg = Some a"
  then obtain p x where p: "jget (lit ''params'') msg = Some p" and "jget (lit ''arguments'') p = Some x"
    by (auto simp: arguments_def bind_eq_Some_conv)
  with jget_object obtain ps where "p = JObj ps" by blast
  with p show ?thesis by (simp add: params_of_def)
qed

lemma arguments_object: "arguments msg = Some a \<Longrightarrow> \<exists>args. a = JObj args"
  by (cases a) (auto simp: arguments_def bind_eq_Some_conv is_JObj_def split: if_splits)

lemma no_params: "params_of msg = None \<Longrightarrow> arguments msg = None"
  using arguments_params by (cases "arguments msg") auto

lemma params_cases:
  assumes "params_of msg = Some ps"
  obtains kvs where "msg = JObj kvs" "map_of kvs (lit ''params'') = Some (JObj ps)"
  using assms by (auto simp: params_of_def jget_def split: json.splits option.splits)

lemma arguments_put: "params_of msg \<noteq> None \<Longrightarrow> arguments (put_arguments args msg) = Some (JObj args)"
proof -
  assume "params_of msg \<noteq> None"
  then obtain ps where "params_of msg = Some ps" by blast
  then obtain kvs where "msg = JObj kvs" "map_of kvs (lit ''params'') = Some (JObj ps)" by (rule params_cases)
  then show ?thesis by (simp add: arguments_def put_arguments_def jget_def store_simps is_JObj_def)
qed

lemma tool_name_put [simp]: "tool_name (put_arguments args msg) = tool_name msg"
  by (auto simp: tool_name_def put_arguments_def get_str_def jget_def store_simps lit_eq_iff split: json.splits option.splits)

lemma same_call_put:
  assumes "params_of msg \<noteq> None" "\<And>k. k \<notin> set CHANGED_ARGS \<Longrightarrow> map_of args k = arg k msg"
  shows "same_call msg (put_arguments args msg)"
  using assms(2) by (simp add: same_call_def arg_def arguments_put [OF assms(1)] jget_def)

definition confined :: "disk \<Rightarrow> files_settings \<Rightarrow> json option \<Rightarrow> bool" where
  \<comment> \<open>an argument that names a place names one inside a folder shared for writing, or nothing\<close>
  "confined d fs v \<longleftrightarrow> (case v of None \<Rightarrow> True
     | Some x \<Rightarrow> x = JNull \<or> f_enabled fs \<and> \<not> f_ask_on_write fs \<and>
         (\<exists>p. x = JStr (place_text p) \<and> list_ex (\<lambda>r. r_write r \<and> inside d p r) (f_roots fs)))"

lemma confine_arg_Ok:
  "confine_arg d fs n v = Ok p \<Longrightarrow> confined d fs (Some (JStr p))"
  by (auto simp: confine_arg_def confined_def dest: resolve_write_ok split: option.splits if_splits sum.splits)

lemma confine_args_keep: "confine_args d fs ns ch args = Ok (ch', args') \<Longrightarrow> k \<notin> set ns \<Longrightarrow> map_of args' k = map_of args k"
  by (induction d fs ns ch args rule: confine_args.induct)
    (auto simp: store_simps split: option.splits if_splits sum.splits)

lemma confine_args_good:
  "confine_args d fs ns ch args = Ok (ch', args') \<Longrightarrow> k \<in> set ns \<or> confined d fs (map_of args k) \<Longrightarrow>
   confined d fs (map_of args' k)"
proof (induction d fs ns ch args rule: confine_args.induct)
  case (2 d fs n ns ch args)
  show ?case
  proof (cases "map_of args n = None \<or> map_of args n = Some JNull")
    case True
    then have "confined d fs (map_of args n)" by (auto simp: confined_def)
    with True 2 show ?thesis by (auto split: option.splits)
  next
    case False
    then obtain v p where "map_of args n = Some v" "v \<noteq> JNull" "confine_arg d fs n v = Ok p"
      using 2(4) by (auto split: option.splits if_splits sum.splits)
    with 2 confine_arg_Ok show ?thesis by (auto simp: store_simps)
  qed
qed simp

lemma confine_paths_Ok:
  assumes "confine_paths d fs msg = Ok (ch, msg')"
  shows "same_call msg msg' \<and> (params_of msg' = None) = (params_of msg = None) \<and>
    (\<forall>n \<in> set WRITE_ARGS. confined d fs (arg n msg'))"
proof (cases "\<exists>args. arguments msg = Some (JObj args)")
  case False
  then have none: "arguments msg = None" using arguments_object by (cases "arguments msg") auto
  then have "confine_paths d fs msg = Ok (False, msg)" by (simp add: confine_paths_def)
  with assms none show ?thesis by (simp add: arg_def confined_def)
next
  case True
  then obtain args args' where a: "arguments msg = Some (JObj args)" and
      c: "confine_args d fs WRITE_ARGS False args = Ok (ch, args')" and m: "msg' = put_arguments args' msg"
    using assms by (auto simp: confine_paths_def split: sum.splits)
  note p = arguments_params [OF a]
  have "same_call msg msg'"
    unfolding m by (rule same_call_put [OF p]) (simp add: arg_def a jget_def confine_args_keep [OF c] CHANGED_ARGS_def)
  moreover have "params_of msg' \<noteq> None" using arguments_params arguments_put [OF p, of args'] by (simp add: m)
  moreover have "\<forall>n \<in> set WRITE_ARGS. confined d fs (arg n msg')"
    using confine_args_good [OF c] by (simp add: m arg_def arguments_put [OF p] jget_def)
  ultimately show ?thesis using p by auto
qed

text \<open>After the gate of the look a screenshot is within the owner's limit, and what was confined still is.\<close>

definition screenshot_ok :: "look_settings \<Rightarrow> utext \<Rightarrow> json \<Rightarrow> bool" where
  "screenshot_ok look tool msg \<longleftrightarrow>
     (tool \<in> set SCREENSHOT_TOOLS \<and> 0 < l_screenshot_max look \<and> arguments msg \<noteq> None \<longrightarrow>
        (\<exists>n. arg (lit ''max_image_dimension'') msg = Some (JInt n) \<and> 0 < n \<and> n \<le> int (l_screenshot_max look)))"

definition look_kept :: "json \<Rightarrow> json \<Rightarrow> bool" where
  "look_kept msg msg' \<longleftrightarrow> same_call msg msg' \<and> (\<forall>n \<in> set WRITE_ARGS. arg n msg' = arg n msg)"

lemma write_args_distinct:
  "n \<in> set WRITE_ARGS \<Longrightarrow> n \<noteq> lit ''cursor_theme'' \<and> n \<noteq> lit ''cursor_motion'' \<and> n \<noteq> lit ''max_image_dimension''"
  by (auto simp: WRITE_ARGS_def lit_eq_iff)

lemma look_kept_put:
  assumes "params_of msg \<noteq> None"
    and "\<And>k. k \<notin> {lit ''cursor_theme'', lit ''cursor_motion'', lit ''max_image_dimension''} \<Longrightarrow> map_of args k = arg k msg"
  shows "look_kept msg (put_arguments args msg)"
proof -
  have "same_call msg (put_arguments args msg)"
    by (rule same_call_put [OF assms(1)]) (auto simp: CHANGED_ARGS_def intro: assms(2))
  moreover have "map_of args n = arg n msg" if "n \<in> set WRITE_ARGS" for n
    using assms(2) [of n] write_args_distinct [OF that] by blast
  ultimately show ?thesis by (simp add: look_kept_def arg_def [of _ "put_arguments args msg"] arguments_put [OF assms(1)] jget_def)
qed

lemma start_session_kept: "start_session_look msg = (g, msg') \<Longrightarrow> look_kept msg msg'"
proof (cases "\<exists>args. arguments msg = Some (JObj args)")
  case True
  then obtain args where a: "arguments msg = Some (JObj args)" by blast
  assume "start_session_look msg = (g, msg')"
  then have "msg' = put_arguments (obj_remove (lit ''cursor_motion'') (obj_remove (lit ''cursor_theme'') args)) msg"
    by (simp add: start_session_look_def a Let_def)
  then show ?thesis
    using look_kept_put [OF arguments_params [OF a]] by (simp add: store_simps arg_def a jget_def)
qed (auto simp: start_session_look_def look_kept_def split: option.splits json.splits)

lemma limit_screenshot_kept:
  assumes "limit_screenshot limit args msg = (g, msg')" "params_of msg \<noteq> None" "0 < limit"
    and "\<And>k. map_of args k = arg k msg"
  shows "look_kept msg msg' \<and> (\<exists>n. arg (lit ''max_image_dimension'') msg' = Some (JInt n) \<and> 0 < n \<and> n \<le> int limit)"
proof -
  let ?k = "lit ''max_image_dimension''"
  consider "msg' = put_arguments args msg" "\<exists>v. Option.bind (map_of args ?k) as_u64 = Some v \<and> 0 < v \<and> v \<le> limit"
    | "msg' = put_arguments (obj_put ?k (JInt (int limit)) args) msg"
    using assms(1) by (auto simp: limit_screenshot_def split: option.splits if_splits)
  then show ?thesis
  proof cases
    case 1
    then obtain v x where x: "map_of args ?k = Some x" "as_u64 x = Some v" "0 < v" "v \<le> limit"
      by (auto simp: bind_eq_Some_conv)
    then have "\<exists>n. map_of args ?k = Some (JInt n) \<and> 0 < n \<and> n \<le> int limit"
      by (cases x) (auto simp: as_u64_def split: if_splits)
    moreover have "look_kept msg msg'" unfolding 1(1) by (rule look_kept_put [OF assms(2)]) (simp add: assms(4))
    ultimately show ?thesis by (simp add: 1(1) arg_def arguments_put [OF assms(2)] jget_def)
  next
    case 2
    have "look_kept msg msg'" unfolding 2 by (rule look_kept_put [OF assms(2)]) (simp add: store_simps assms(4))
    with assms(3) show ?thesis by (simp add: 2 arg_def arguments_put [OF assms(2)] jget_def store_simps)
  qed
qed

lemma arg_of_params:
  "params_of msg = Some ps \<Longrightarrow> arguments msg = Option.bind (map_of ps (lit ''arguments'')) (\<lambda>a. if is_JObj a then Some a else None)"
  by (auto simp: params_of_def arguments_def jget_def split: json.splits option.splits)

lemma screenshot_kept:
  assumes "screenshot_look limit ps msg = (g, msg')" "params_of msg = Some ps" "0 < limit"
  shows "look_kept msg msg' \<and>
    (arguments msg' = None \<or> (\<exists>n. arg (lit ''max_image_dimension'') msg' = Some (JInt n) \<and> 0 < n \<and> n \<le> int limit))"
proof -
  note ar = arg_of_params [OF assms(2)]
  have p: "params_of msg \<noteq> None" using assms(2) by simp
  consider args where "limit_screenshot limit args msg = (g, msg')" "\<And>k. map_of args k = arg k msg"
    | "msg' = msg" "arguments msg = None"
    using assms(1) ar by (auto simp: screenshot_look_def arg_def jget_def is_JObj_def split: option.splits json.splits)
  then show ?thesis
  proof cases
    case 1
    from limit_screenshot_kept [OF 1(1) p assms(3) 1(2)] show ?thesis by blast
  qed (simp add: look_kept_def)
qed

lemma look_gate_kept:
  assumes "look_gate tool msg look = (g, msg')" "\<And>why kind. g \<noteq> LookRefuse why kind"
  shows "tool \<notin> set CURSOR_SETTERS \<and> look_kept msg msg' \<and> screenshot_ok look tool msg'"
proof -
  have ns: "lit ''start_session'' \<notin> set SCREENSHOT_TOOLS" by (simp add: SCREENSHOT_TOOLS_def lit_eq_iff)
  have t: "tool \<notin> set CURSOR_SETTERS" and r: "\<not> (tool = lit ''move_cursor'' \<and> \<not> l_cursor look)"
    using assms by (auto simp: look_gate_def split: if_splits)
  show ?thesis
  proof (cases "params_of msg")
    case None
    then have "msg' = msg" "arguments msg = None"
      using assms(1) t r no_params by (auto simp: look_gate_def)
    with t show ?thesis by (simp add: look_kept_def screenshot_ok_def)
  next
    case (Some ps)
    consider "tool = lit ''start_session''" "start_session_look msg = (g, msg')"
      | "screenshot_look (l_screenshot_max look) ps msg = (g, msg')" "0 < l_screenshot_max look"
      | "msg' = msg" "\<not> (tool \<in> set SCREENSHOT_TOOLS \<and> 0 < l_screenshot_max look)"
      using assms(1) t r Some by (auto simp: look_gate_def split: if_splits)
    then show ?thesis
    proof cases
      case 1
      with t ns start_session_kept show ?thesis by (auto simp: screenshot_ok_def)
    next
      case 2
      from screenshot_kept [OF 2(1) Some 2(2)] t show ?thesis by (auto simp: screenshot_ok_def)
    next
      case 3
      with t show ?thesis by (auto simp: look_kept_def screenshot_ok_def)
    qed
  qed
qed

section \<open>What reaches the driver\<close>

definition owner_answered_yes :: "mcp_world \<Rightarrow> utext \<Rightarrow> bool" where
  "owner_answered_yes w sc \<longleftrightarrow> (\<exists>q meanwhile a. mw_owner w q = InTime meanwhile a \<and> allow a \<and>
     rq_capability q = lit ''computer'' \<and> rq_scope q = sc)"

definition foreground_ok :: "mcp_world \<Rightarrow> settings \<Rightarrow> utext \<Rightarrow> bool" where
  "foreground_ok w s tool \<longleftrightarrow> (case c_foreground (st_computer s) of
      FgNever \<Rightarrow> False
    | FgAlways \<Rightarrow> True
    | FgIdle \<Rightarrow> sat_mul64 (c_away_idle_minutes (st_computer s)) 60 \<le> mw_idle w
    | FgAsk \<Rightarrow> owner_answered_yes w (foreground_scope tool))"

lemma foreground_allowed_ok: "foreground_allowed w s t sh = (True, sh') \<Longrightarrow> foreground_ok w s (tc_tool t)"
proof (cases "c_foreground (st_computer s)")
  case FgAsk
  assume "foreground_allowed w s t sh = (True, sh')"
  then have "allow (fst (ask_scoped (mw_owner w) (mw_wall w) (tc_peer t) (lit ''computer'') (foreground_scope (tc_tool t))
      (foreground_question (tc_tool t)) sh))"
    by (simp add: foreground_allowed_def foreground_decision_def FgAsk split: prod.splits)
  from ask_yes [OF this] show ?thesis
    by (simp add: foreground_ok_def FgAsk owner_answered_yes_def foreground_question_def new_request_def)
qed (auto simp: foreground_allowed_def foreground_decision_def foreground_ok_def)

definition lease_held :: "tool_call \<Rightarrow> shared \<Rightarrow> bool" where
  "lease_held t sh \<longleftrightarrow> (is_action (tc_tool t) \<longrightarrow> (\<exists>l. sh_lease sh = Some l \<and> le_synth_id l = tc_synth t))"

lemma record_lease [simp]: "sh_lease (sh_record peer e sh) = sh_lease sh"
  by (simp add: sh_record_def)

lemma sent_call_forward: "sent_call w t msg sh = (Forward msg', sh') \<Longrightarrow> msg' = msg \<and> sh_lease sh' = sh_lease sh"
  by (auto simp: sent_call_def Let_def note_agent_cursor_def split: option.splits)

lemma lease_call_forward: "lease_call w t msg sh = (Forward msg', sh') \<Longrightarrow> msg' = msg \<and> lease_held t sh'"
  by (auto simp: lease_call_def lease_take_def busy_call_def Let_def lease_held_def
      dest!: sent_call_forward split: if_splits prod.splits sum.splits option.splits)

lemma look_call_forward:
  assumes "look_call w s t msg sh = (Forward msg', sh')"
  shows "tc_tool t \<notin> set CURSOR_SETTERS \<and> look_kept msg msg' \<and>
    screenshot_ok (c_look (st_computer s)) (tc_tool t) msg' \<and> lease_held t sh'"
proof -
  obtain g m where g: "look_gate (tc_tool t) msg (c_look (st_computer s)) = (g, m)" by fastforce
  have no: "g \<noteq> LookRefuse why kind" for why kind using assms by (auto simp: look_call_def g refuse_call_def)
  then have "lease_call w t m sh = (Forward msg', sh')" using assms by (cases g) (auto simp: look_call_def g)
  from lease_call_forward [OF this] look_gate_kept [OF g no] show ?thesis by simp
qed

definition places_ok :: "mcp_world \<Rightarrow> settings \<Rightarrow> json \<Rightarrow> bool" where
  "places_ok w s msg \<longleftrightarrow> (\<forall>n \<in> set WRITE_ARGS. confined (mw_disk w) (st_files s) (arg n msg))"

lemma place_call_forward:
  assumes "place_call w s t msg sh = (Forward msg', sh')"
  shows "tc_tool t \<notin> set CURSOR_SETTERS \<and> same_call msg msg' \<and> places_ok w s msg' \<and>
    screenshot_ok (c_look (st_computer s)) (tc_tool t) msg' \<and> lease_held t sh'"
proof -
  obtain ch m where c: "confine_paths (mw_disk w) (st_files s) msg = Ok (ch, m)" and
      l: "look_call w s t m sh = (Forward msg', sh')"
    using assms by (auto simp: place_call_def refuse_call_def split: sum.splits)
  from confine_paths_Ok [OF c] look_call_forward [OF l] show ?thesis
    by (auto simp: look_kept_def places_ok_def intro: same_call_trans)
qed

lemma foreground_call_forward:
  assumes "foreground_call w s t msg sh = (Forward msg', sh')"
  shows "(wants_foreground msg \<longrightarrow> foreground_ok w s (tc_tool t)) \<and> (\<exists>sh1. place_call w s t msg sh1 = (Forward msg', sh'))"
proof (cases "wants_foreground msg")
  case True
  obtain b sh1 where f: "foreground_allowed w s t sh = (b, sh1)" by fastforce
  have "b" using assms by (cases b) (auto simp: foreground_call_def True f refuse_call_def case_prod_unfold Let_def)
  with assms f foreground_allowed_ok show ?thesis by (auto simp: foreground_call_def True)
qed (use assms in \<open>auto simp: foreground_call_def\<close>)

lemma apps_call_forward:
  assumes "apps_call w sc s t msg sh = (Forward msg', sh')"
  shows "\<exists>d sh1. decide (mw_lower w) (mw_dbg w) (mw_foldp w) (mw_driver w) (mw_now w) sc (tc_tool t) msg (sh_directory sh) = (Pass, d) \<and>
    foreground_call w s t msg sh1 = (Forward msg', sh')"
proof -
  obtain v d where d: "decide (mw_lower w) (mw_dbg w) (mw_foldp w) (mw_driver w) (mw_now w) sc (tc_tool t) msg (sh_directory sh) = (v, d)"
    by fastforce
  from assms have "v = Pass" by (cases v) (auto simp: apps_call_def d Let_def refuse_call_def)
  with assms d show ?thesis by (auto simp: apps_call_def Let_def)
qed

lemma note_task_directory [simp]: "sh_directory (note_task now l sh) = sh_directory sh"
  by (auto simp: note_task_def Let_def split: option.splits)

lemma driven_call_forward:
  assumes "driven_call w sc s t msg sh = (Forward msg', sh')"
  shows "\<exists>sh1. sh_directory sh1 = sh_directory sh \<and> apps_call w sc s t msg sh1 = (Forward msg', sh')"
proof -
  let ?sh1 = "if is_action (tc_tool t) \<or> computer_driver (mw_now w) sh = None then note_task (mw_now w) (session_label msg) sh else sh"
  have "driven_call w sc s t msg sh = apps_call w sc s t msg ?sh1 \<or> (\<exists>who. driven_call w sc s t msg sh = busy_call w t who sh)"
    by (auto simp: driven_call_def Let_def split: sum.split bool.split)
  with assms have "apps_call w sc s t msg ?sh1 = (Forward msg', sh')" by (auto simp: busy_call_def)
  moreover have "sh_directory ?sh1 = sh_directory sh" by simp
  ultimately show ?thesis by blast
qed

lemma named_call_forward:
  assumes "named_call w sc cat t msg sh = (Forward msg', sh')"
  shows "\<not> cat \<and> is_ok (working_policy sh (mw_presence w)) \<and> tc_tool t \<notin> fst ` set NEVER \<and>
    tc_tool t \<notin> set (c_tool_denylist (st_computer (sh_settings sh))) \<and> driven_call w sc (sh_settings sh) t msg sh = (Forward msg', sh')"
proof -
  have never: "never_refusal x = None \<longleftrightarrow> x \<notin> fst ` set NEVER" for x
    by (simp add: never_refusal_def map_of_eq_None_iff)
  show ?thesis
    using assms
    by (auto simp: named_call_def refuse_call_def never [symmetric] split: if_splits sum.splits option.splits)
qed

definition call_ok :: "mcp_world \<Rightarrow> scope \<Rightarrow> settings \<Rightarrow> utext \<Rightarrow> json \<Rightarrow> json \<Rightarrow> directory \<Rightarrow> bool" where
  \<comment> \<open>the message that goes, the message that came\<close>
  "call_ok w sc s tool msg' msg d \<longleftrightarrow> same_call msg msg' \<and>
     tool \<notin> fst ` set NEVER \<and> tool \<notin> set (c_tool_denylist (st_computer s)) \<and> tool \<notin> set CURSOR_SETTERS \<and>
     (restricted sc \<longrightarrow> pass_ok (mw_lower w) (mw_foldp w) (mw_driver w) (mw_now w) sc tool msg d) \<and>
     (wants_foreground msg \<longrightarrow> foreground_ok w s tool) \<and> places_ok w s msg' \<and> screenshot_ok (c_look (st_computer s)) tool msg'"


definition turn_ok :: "mcp_world \<Rightarrow> mcp_stream \<Rightarrow> mcp_turn \<Rightarrow> shared \<Rightarrow> bool" where
  "turn_ok w m turn sh \<longleftrightarrow> (case turn of
      ToDriver msg \<Rightarrow> ms_catalog m \<or> tool_name msg = None \<or>
        is_ok (working_policy sh (mw_after w)) \<and> c_mode (st_computer (sh_settings sh)) = ms_mode m
    | Revoked \<Rightarrow> sh_daemon sh = None \<and> sh_task sh = None
    | _ \<Rightarrow> True)"

lemma turn_ok_last [simp]: "turn_ok w (m\<lparr>ms_last := t\<rparr>) turn sh = turn_ok w m turn sh"
  by (cases turn) (simp_all add: turn_ok_def)

lemma mcp_decided_ok:
  assumes "mcp_decided w m line sh = (turn, m', sh')"
  shows "turn_ok w m turn sh'"
proof -
  have stopped: "sh_daemon (stop_cua x) = None \<and> sh_task (stop_cua x) = None" for x
    by (simp add: stop_cua_def Let_def clear_task_def daemon_gone_def)
  obtain g sh1 where g: "filter_scoped w (ms_peer m) (ms_scope m) (ms_catalog m) line sh = (g, sh1)" by fastforce
  show ?thesis
    using assms stopped
    by (cases g) (auto simp: mcp_decided_def g mcp_handed_def Let_def call_id_def turn_ok_def split: if_splits)
qed

text \<open>
  in a working stream a tool call reaches the driver only if, at that moment, after whatever
  the owner did while it was checked, computer use is still on, not paused, the owner away
  where that is asked for and the screen unlocked, and the mode is the one the stream was
  opened in; else the stream ends and the daemon is stopped.
\<close>

theorem call_handed_over_under_policy:
  assumes "mcp_turn w outdated m line sh = (turn, m', sh')"
  shows "turn_ok w m turn sh'"
  using assms mcp_decided_ok [of w "m\<lparr>ms_last := Some (mw_now w)\<rparr>" line sh turn m' sh'] mcp_decided_ok [of w m line sh turn m' sh']
  by (auto simp: mcp_turn_def turn_ok_def [of _ _ "Reopen _"] split: option.splits if_splits)

text \<open>
  C8: a working stream opens only when computer use is on, not paused, and the owner away and the
  screen unlocked as the mode asks, both before and after the owner was asked, in the mode
  it had before; in the mode that asks, for a synth that has a grant for tasks or that the
  owner said yes to just now.
\<close>

theorem stream_opens_only_as_allowed:
  assumes "open_gate w peer reason sh = (Ok mode, sh')"
  shows "is_ok (working_policy sh (mw_presence w)) \<and> is_ok (working_policy sh' (mw_after w)) \<and>
    mode = c_mode (st_computer (sh_settings sh)) \<and> mode = c_mode (st_computer (sh_settings sh')) \<and>
    (mode = ComputerAsk \<longrightarrow> fst (sh_grant_allows (mw_wall w) peer (lit ''computer'') (lit ''task'') sh) \<or>
       owner_answered_yes w (lit ''task''))"
proof -
  let ?mode = "c_mode (st_computer (sh_settings sh))"
  obtain b sh1 where a: "open_asked w peer ?mode reason sh = (b, sh1)" by fastforce
  have "b" using assms by (auto simp: open_gate_def Let_def a split: sum.splits bool.splits)
  then have st: "is_ok (working_policy sh (mw_presence w))" "is_ok (working_policy sh1 (mw_after w))" "sh' = sh1" "mode = ?mode"
      "c_mode (st_computer (sh_settings sh1)) = ?mode"
    using assms by (auto simp: open_gate_def Let_def a split: sum.splits if_splits)
  have "mode = ComputerAsk \<longrightarrow> fst (sh_grant_allows (mw_wall w) peer (lit ''computer'') (lit ''task'') sh) \<or> owner_answered_yes w (lit ''task'')"
  proof (intro impI)
    assume ask: "mode = ComputerAsk"
    obtain g sh2 where g: "sh_grant_allows (mw_wall w) peer (lit ''computer'') (lit ''task'') sh = (g, sh2)" by fastforce
    show "fst (sh_grant_allows (mw_wall w) peer (lit ''computer'') (lit ''task'') sh) \<or> owner_answered_yes w (lit ''task'')"
    proof (cases g)
      case False
      then have "allow (fst (ask_scoped (mw_owner w) (mw_wall w) peer (lit ''computer'') (lit ''task'') (task_question reason) sh2))"
        using a ask st(4) \<open>b\<close> by (auto simp: open_asked_def g split: prod.splits)
      from ask_yes [OF this] show ?thesis by (simp add: owner_answered_yes_def task_question_def new_request_def)
    qed (simp add: g)
  qed
  with st show ?thesis by simp
qed

text \<open>
  a \<open>tools/call\<close> whose parameters are given by position names no tool the gate can read, and
  it goes to the driver unchecked: from a catalog stream, while the app is paused, with
  computer use switched off, whatever it asks for.
\<close>

theorem positional_call_unchecked:
  assumes "get_str (lit ''method'') msg = Some (lit ''tools/call'')" "jget (lit ''params'') msg = Some (JArr ps)"
  shows "filter_scoped w peer sc cat (Some msg) sh = (Forward msg, sh) \<and>
    fst (mcp_turn w outdated (m\<lparr>ms_catalog := True\<rparr>) (Some msg) sh) = ToDriver msg"
proof -
  have "get_str (lit ''name'') (JArr ps) = None" by (simp add: get_str_def jget_def)
  then have n: "tool_name msg = None" by (simp add: tool_name_def assms)
  obtain kvs where "msg = JObj kvs" using jget_object [OF assms(2)] by blast
  then have "is_JObj msg" by (simp add: is_JObj_def)
  with n have f: "filter_scoped w peer sc cat (Some msg) sh = (Forward msg, sh)" for peer sc cat by (simp add: filter_scoped_def)
  show ?thesis by (simp add: f mcp_turn_def mcp_decided_def mcp_handed_def)
qed

section \<open>Examples\<close>

definition computer_on :: settings where
  "computer_on = default_settings\<lparr>st_computer := (st_computer default_settings)\<lparr>c_enabled := True, c_mode := ComputerAuto\<rparr>\<rparr>"

definition example_world :: mcp_world where
  "example_world = \<lparr>mw_owner = quiet_owner, mw_wall = 0, mw_now = 0, mw_acts = 0, mw_presence = \<lparr>pr_idle = 0, pr_locked = False\<rparr>,
     mw_idle = 0, mw_after = \<lparr>pr_idle = 0, pr_locked = False\<rparr>, mw_later = id, mw_lower = id, mw_dbg = id, mw_foldp = True,
     mw_driver = \<lparr>dv_apps = \<lambda>_. Err [], dv_windows = \<lambda>_. Err []\<rparr>, mw_disk = trap_disk\<rparr>"

definition example_call :: json where
  "example_call = JObj [(lit ''method'', JStr (lit ''tools/call'')),
     (lit ''params'', JObj [(lit ''name'', JStr (lit ''click'')), (lit ''arguments'', JObj [(lit ''pid'', JInt 7)])])]"

lemma example_policy [simp]: "working_policy (blank_shared computer_on) \<lparr>pr_idle = 0, pr_locked = False\<rparr> = Ok ()"
  by (simp add: working_policy_def Let_def blank_shared_def make_shared_def fresh_def sh_settings_def computer_on_def)

lemma example_tool: "tool_name example_call = Some (lit ''click'')"
  by (simp add: tool_name_def example_call_def get_str_def jget_def as_str_def lit_eq_iff)

lemma example_facts:
  "never_refusal (lit ''click'') = None" "lit ''click'' \<notin> set CURSOR_SETTERS" "lit ''click'' \<notin> set SCREENSHOT_TOOLS"
  "is_action (lit ''click'')" "\<not> wants_foreground example_call" "params_of example_call \<noteq> None"
  "arguments example_call = Some (JObj [(lit ''pid'', JInt 7)])"
  by (simp_all add: never_refusal_def NEVER_def CURSOR_SETTERS_def SCREENSHOT_TOOLS_def is_action_def LOOK_ONLY_TOOLS_def
      example_call_def get_str_def jget_def as_str_def params_of_def arguments_def is_JObj_def lit_eq_iff)

lemma example_forward:
  "\<exists>msg' sh'. filter_scoped example_world None open_scope False (Some example_call) (blank_shared computer_on) = (Forward msg', sh')"
proof -
  let ?sh = "blank_shared computer_on" and ?s = "sh_settings (blank_shared computer_on)"
  let ?t = "call_of None (lit ''click'') example_call ?sh"
  have t [simp]: "tc_tool ?t = lit ''click''" "tc_synth ?t = []"
    by (simp_all add: call_of_def caller_def current_slot_def blank_shared_def make_shared_def)
  have sett: "?s = computer_on" by (simp add: sh_settings_def blank_shared_def make_shared_def fresh_def)
  have lease: "sh_lease ?sh = None" by (simp add: blank_shared_def make_shared_def)
  have look: "look_gate (lit ''click'') m l = (LookPass, m)" if "params_of m \<noteq> None" for m l
    using that example_facts(2,3) by (auto simp: look_gate_def lit_eq_iff)
  have conf: "\<exists>m. confine_paths trap_disk fs example_call = Ok (False, m) \<and> params_of m \<noteq> None" for fs
    using arguments_params [OF arguments_put [OF example_facts(6)]]
    by (simp add: confine_paths_def example_facts WRITE_ARGS_def lit_eq_iff)
  have lc: "\<exists>m x. lease_call w ?t msg sh = (Forward m, x)" if "sh_lease sh = None" for w msg sh
    using that by (simp add: lease_call_def example_facts(4) lease_take_def Let_def sent_call_def)
  have disk: "mw_disk example_world = trap_disk" by (simp add: example_world_def)
  have presence_w: "mw_presence example_world = \<lparr>pr_idle = 0, pr_locked = False\<rparr>" by (simp add: example_world_def)
  have "\<exists>m x. place_call example_world ?s ?t example_call sh = (Forward m, x)" if l: "sh_lease sh = None" for sh
  proof -
    obtain m where m: "confine_paths trap_disk (st_files ?s) example_call = Ok (False, m)" "params_of m \<noteq> None"
      using conf by blast
    obtain m' x where "lease_call example_world ?t m sh = (Forward m', x)" using lc [OF l] by blast
    then have "place_call example_world ?s ?t example_call sh = (Forward m', x)"
      by (simp add: place_call_def disk m(1) look_call_def look [OF m(2)])
    then show ?thesis by blast
  qed
  moreover have "decide lo dbg fo dv now open_scope x m d = (Pass, d)" for lo dbg fo dv now x m d
    by (simp add: decide_def restricted_def open_scope_def)
  ultimately have "\<exists>m x. apps_call w open_scope ?s ?t example_call sh = (Forward m, x)" if "sh_lease sh = None" "w = example_world" for sh w
    using that by (simp add: apps_call_def Let_def foreground_call_def example_facts(5))
  moreover have "lease_check now me ?sh = Ok ()" for now me using lease by (simp add: lease_check_def computer_driver_def)
  moreover have "sh_lease (note_task now l ?sh) = None" for now l
    using lease by (auto simp: note_task_def Let_def emit_def split: option.splits)
  ultimately have "\<exists>m x. driven_call example_world open_scope ?s ?t example_call ?sh = (Forward m, x)"
    using lease example_facts(4) by (simp add: driven_call_def Let_def)
  moreover have "lit ''click'' \<notin> set (c_tool_denylist (st_computer computer_on))"
    by (simp add: computer_on_def default_settings_def)
  ultimately have "\<exists>m x. named_call example_world open_scope False ?t example_call ?sh = (Forward m, x)"
    using example_policy sett by (simp add: named_call_def example_facts(1) presence_w)
  then show ?thesis
    by (simp add: filter_scoped_def example_tool) (simp add: example_call_def is_JObj_def)
qed


definition example_stream :: mcp_stream where
  "example_stream = \<lparr>ms_peer = None, ms_catalog = False, ms_scope = open_scope, ms_mode = ComputerAuto, ms_last = None\<rparr>"

theorem call_handed_over_under_policy_witness:
  "\<exists>turn m' sh'. mcp_turn example_world True example_stream (Some example_call) (blank_shared computer_on) = (turn, m', sh') \<and>
     turn_ok example_world example_stream turn sh'"
proof -
  obtain turn m' sh' where t: "mcp_turn example_world True example_stream (Some example_call) (blank_shared computer_on) = (turn, m', sh')"
    by (metis prod_cases3)
  from call_handed_over_under_policy [OF t] t show ?thesis by blast
qed

theorem stream_opens_only_as_allowed_witness:
  "is_ok (working_policy (blank_shared computer_on) (mw_after example_world))"
proof -
  have "open_gate example_world None [] (blank_shared computer_on) = (Ok ComputerAuto, blank_shared computer_on)"
    by (simp add: open_gate_def open_asked_def Let_def example_world_def)
      (simp add: sh_settings_def blank_shared_def make_shared_def fresh_def computer_on_def)
  from stream_opens_only_as_allowed [OF this] show ?thesis by simp
qed

theorem positional_call_unchecked_witness:
  "\<exists>msg. fst (mcp_turn example_world False (example_stream\<lparr>ms_catalog := True\<rparr>) (Some msg)
       ((blank_shared default_settings)\<lparr>sh_paused := True\<rparr>)) = ToDriver msg"
proof -
  let ?msg = "JObj [(lit ''method'', JStr (lit ''tools/call'')), (lit ''params'', JArr [JStr (lit ''set_config'')])]"
  have "get_str (lit ''method'') ?msg = Some (lit ''tools/call'')" "jget (lit ''params'') ?msg = Some (JArr [JStr (lit ''set_config'')])"
    by (simp_all add: get_str_def jget_def as_str_def lit_eq_iff)
  from positional_call_unchecked [OF this] show ?thesis by blast
qed

end
