(* ===== verification/Platform_Requests.thy ===== *)
theory Platform_Requests
  imports Pairing Json_Value
begin

text \<open>
  The platform's app API of \<open>account.rs\<close>: what the platform says, the requests of the client,
  how a response is read. The HTTP client and the reading of the fields of an answer are
  parameters.
\<close>

section \<open>What the platform says\<close>

record account_info =
  ai_id :: utext
  ai_email :: utext
  ai_name :: utext

record account_synth =
  as_hub_id :: utext
  as_synth_id :: utext
  as_name :: utext
  as_avatar :: "utext option"

record account_me =
  me_account :: account_info
  me_synths :: "account_synth list"

record token_answer =
  ta_token :: utext
  ta_account :: account_info

record minted =
  mi_synth_id :: utext
  mi_synth_url :: utext
  mi_synth_name :: utext
  mi_token :: utext

record link_code_answer =
  lc_synth_id :: utext
  lc_synth_url :: utext
  lc_synth_name :: utext
  lc_token :: utext
  lc_linked :: bool
  lc_reason :: "utext option"

datatype platform_error =
    Unauthorized
  | PStatus nat utext "utext option"
  | Unreachable utext
  | BadAnswer utext

definition platform_code :: "platform_error \<Rightarrow> utext" where
  "platform_code e = (case e of
      Unauthorized \<Rightarrow> lit ''signed_out''
    | PStatus n err _ \<Rightarrow> if err = [] then lit ''http_'' @ digits n else err
    | Unreachable _ \<Rightarrow> lit ''platform_unreachable''
    | BadAnswer _ \<Rightarrow> lit ''platform_error'')"

definition platform_status :: "platform_error \<Rightarrow> nat option" where
  "platform_status e = (case e of PStatus n _ _ \<Rightarrow> Some n | _ \<Rightarrow> None)"

definition platform_reason :: "platform_error \<Rightarrow> utext option" where
  "platform_reason e = (case e of PStatus _ _ r \<Rightarrow> r | _ \<Rightarrow> None)"

definition platform_error_text :: "platform_error \<Rightarrow> utext" where
  "platform_error_text e = (case e of
      Unauthorized \<Rightarrow> lit ''the platform refused the app's sign-in (401)''
    | PStatus n err r \<Rightarrow> lit ''platform returned '' @ digits n @ lit '': '' @ err @
        (case r of Some x \<Rightarrow> lit '' ('' @ x @ lit '')'' | None \<Rightarrow> [])
    | Unreachable x \<Rightarrow> lit ''could not reach the platform: '' @ x
    | BadAnswer x \<Rightarrow> lit ''bad answer from the platform: '' @ x)"

section \<open>The requests\<close>

fun utf8_bytes_of :: "uchar \<Rightarrow> nat list" where
  "utf8_bytes_of c =
     (if c < 128 then [c]
      else if c < 2048 then [192 + c div 64, 128 + c mod 64]
      else if c < 65536 then [224 + c div 4096, 128 + c div 64 mod 64, 128 + c mod 64]
      else [240 + c div 262144, 128 + c div 4096 mod 64, 128 + c div 64 mod 64, 128 + c mod 64])"

definition utf8_bytes :: "utext \<Rightarrow> nat list" where
  "utf8_bytes s = concat (map utf8_bytes_of s)"

definition unreserved :: "nat \<Rightarrow> bool" where
  "unreserved b \<longleftrightarrow> is_ascii_alphanumeric b \<or> b \<in> {45, 95, 46, 126}"

definition upper_hex :: "nat \<Rightarrow> uchar" where
  "upper_hex n = (if n < 10 then 48 + n else 55 + n)"

definition percent_byte :: "nat \<Rightarrow> utext" where
  "percent_byte b = (if unreserved b then [b] else [37, upper_hex (b div 16), upper_hex (b mod 16)])"

definition segment :: "utext \<Rightarrow> utext" where
  \<comment> \<open>also \<open>query\<close>\<close>
  "segment s = concat (map percent_byte (utf8_bytes s))"

definition trim_slashes :: "utext \<Rightarrow> utext" where
  \<comment> \<open>no slash at the end\<close>
  "trim_slashes s = List.rev (dropWhile (\<lambda>c. c = 47) (List.rev s))"

datatype http_method = Get | Post

record platform_request =
  pq_method :: http_method
  pq_url :: utext
  pq_bearer :: "utext option"
  pq_body :: json

definition app_url :: "utext \<Rightarrow> utext \<Rightarrow> utext" where
  "app_url base path = trim_slashes base @ path"

definition exchange_request :: "utext \<Rightarrow> utext \<Rightarrow> utext \<Rightarrow> utext \<Rightarrow> platform_request" where
  "exchange_request base code verifier device = \<lparr>pq_method = Post, pq_url = app_url base (lit ''/api/app/v1/token''),
     pq_bearer = None, pq_body = JObj [(lit ''code'', JStr code), (lit ''code_verifier'', JStr verifier),
       (lit ''device_id'', JStr device)]\<rparr>"

definition me_request :: "utext \<Rightarrow> utext \<Rightarrow> platform_request" where
  "me_request base token = \<lparr>pq_method = Get, pq_url = app_url base (lit ''/api/app/v1/me''),
     pq_bearer = Some token, pq_body = JNull\<rparr>"

definition connect_request :: "utext \<Rightarrow> utext \<Rightarrow> utext \<Rightarrow> utext \<Rightarrow> platform_request" where
  "connect_request base token hub synth = \<lparr>pq_method = Post,
     pq_url = app_url base (lit ''/api/app/v1/synths/'' @ segment hub @ lit ''/'' @ segment synth @ lit ''/connect''),
     pq_bearer = Some token, pq_body = JObj []\<rparr>"

definition link_code_request :: "utext \<Rightarrow> utext \<Rightarrow> utext \<Rightarrow> platform_request" where
  "link_code_request base token code = \<lparr>pq_method = Post, pq_url = app_url base (lit ''/api/app/v1/link-code''),
     pq_bearer = Some token, pq_body = JObj [(lit ''code'', JStr code)]\<rparr>"

definition logout_request :: "utext \<Rightarrow> utext \<Rightarrow> platform_request" where
  "logout_request base token = \<lparr>pq_method = Post, pq_url = app_url base (lit ''/api/app/v1/logout''),
     pq_bearer = Some token, pq_body = JObj []\<rparr>"

datatype http_response =
    HttpOk json
  | HttpUnread utext            \<comment> \<open>a success whose body is not JSON\<close>
  | HttpStatus nat json         \<comment> \<open>null for a body that is not JSON\<close>
  | HttpTransport utext

definition read_platform :: "(json \<Rightarrow> (utext, 'a) result) \<Rightarrow> http_response \<Rightarrow> (platform_error, 'a) result" where
  \<comment> \<open>\<open>parse\<close>: the fields of the answer\<close>
  "read_platform parse resp = (case resp of
      HttpOk v \<Rightarrow> (case parse v of Err e \<Rightarrow> Err (BadAnswer e) | Ok x \<Rightarrow> Ok x)
    | HttpUnread e \<Rightarrow> Err (BadAnswer e)
    | HttpStatus n body \<Rightarrow>
        if n = 401 then Err Unauthorized
        else Err (PStatus n (take 80 (case get_str (lit ''error'') body of Some e \<Rightarrow> e | None \<Rightarrow> []))
                (map_option (take 300) (get_str (lit ''reason'') body)))
    | HttpTransport e \<Rightarrow> Err (Unreachable e))"

section \<open>Ids in an address\<close>

text \<open>The reading of a percent-encoded text, as a server does it.\<close>

definition hex_value :: "uchar \<Rightarrow> nat" where
  "hex_value c = (if c < 58 then c - 48 else c - 55)"

fun percent_decode :: "utext \<Rightarrow> nat list" where
  "percent_decode (c # a # b # cs) =
     (if c = 37 then (hex_value a * 16 + hex_value b) # percent_decode cs else c # percent_decode (a # b # cs))"
| "percent_decode cs = cs"

lemma percent_decode_plain: "c \<noteq> 37 \<Longrightarrow> percent_decode (c # cs) = c # percent_decode cs"
  by (cases cs rule: percent_decode.cases) auto

lemma hex_value_upper: "n < 16 \<Longrightarrow> hex_value (upper_hex n) = n"
  by (auto simp: hex_value_def upper_hex_def)

lemma unreserved_not_percent: "unreserved b \<Longrightarrow> b \<noteq> 37"
  by (auto simp: unreserved_def is_ascii_alphanumeric_def is_ascii_digit_def)

lemma percent_decode_byte: "b < 256 \<Longrightarrow> percent_decode (percent_byte b @ cs) = b # percent_decode cs"
proof (cases "unreserved b")
  case True
  then show ?thesis using unreserved_not_percent by (simp add: percent_byte_def percent_decode_plain)
next
  case False
  assume "b < 256"
  then have "b div 16 < 16" "b mod 16 < 16" by (simp_all add: less_mult_imp_div_less)
  then have "hex_value (upper_hex (b div 16)) * 16 + hex_value (upper_hex (b mod 16)) = b" by (simp add: hex_value_upper)
  with False show ?thesis by (simp add: percent_byte_def)
qed

lemma percent_decode_bytes: "\<forall>b \<in> set bs. b < 256 \<Longrightarrow> percent_decode (concat (map percent_byte bs)) = bs"
  by (induction bs) (simp_all add: percent_decode_byte)

lemma utf8_bytes_small: "c < 1114112 \<Longrightarrow> b \<in> set (utf8_bytes_of c) \<Longrightarrow> b < 256"
proof -
  assume c: "c < 1114112" and b: "b \<in> set (utf8_bytes_of c)"
  have m: "x mod 64 < 64" for x :: nat by simp
  have "c div 64 < 64 \<or> 2048 \<le> c" "c div 4096 < 16 \<or> 65536 \<le> c" "c div 262144 < 16"
    using c by (auto simp: less_mult_imp_div_less)
  then show ?thesis using b m [of c] m [of "c div 64"] m [of "c div 4096"] by (auto split: if_splits)
qed

lemma upper_hex_unreserved: "n < 16 \<Longrightarrow> unreserved (upper_hex n)"
  by (auto simp: upper_hex_def unreserved_def is_ascii_alphanumeric_def is_ascii_digit_def)

text \<open>
  an id of the platform keeps its place in an address: percent-encoded it is made of letters,
  digits, \<open>-_.~\<close> and percent signs only (no slash, no question mark, no ampersand), and what
  the server decodes are the UTF-8 bytes of the id.
\<close>

theorem segment_round_trip:
  assumes "\<forall>c \<in> set s. c < 1114112"
  shows "percent_decode (segment s) = utf8_bytes s \<and> (\<forall>c \<in> set (segment s). unreserved c \<or> c = 37)"
proof
  have small: "\<forall>b \<in> set (utf8_bytes s). b < 256"
    using assms utf8_bytes_small by (auto simp: utf8_bytes_def simp del: utf8_bytes_of.simps)
  then show "percent_decode (segment s) = utf8_bytes s" by (simp add: segment_def percent_decode_bytes)
  have "unreserved c \<or> c = 37" if "b < 256" "c \<in> set (percent_byte b)" for b c
  proof -
    have "b div 16 < 16" "b mod 16 < 16" using that(1) by (simp_all add: less_mult_imp_div_less)
    then show ?thesis using that(2) upper_hex_unreserved by (auto simp: percent_byte_def split: if_splits)
  qed
  with small show "\<forall>c \<in> set (segment s). unreserved c \<or> c = 37" by (auto simp: segment_def)
qed

theorem segment_round_trip_witness: "percent_decode (segment [47, 233]) = [47, 195, 169]"
proof -
  have "\<forall>c \<in> set [47, 233 :: nat]. c < 1114112" by simp
  from segment_round_trip [OF this] show ?thesis by (simp add: utf8_bytes_def)
qed

end
