(* ===== verification/Account_Sync.thy ===== *)
theory Account_Sync
  imports Core_Links Platform_Requests
begin

text \<open>
  \<open>account.rs\<close>: the owner's account at the platform: the sign-in through the browser, the
  sync that keeps the links in step with the account's synths, the sign-out. The platform
  and its HTTP client, the random state and verifier of a sign-in, the hash of the
  challenge are parameters. Where the code waits for the platform (or for a synth that is
  unpaired) other tasks go on: \<open>pw_gap\<close> is what they do there. One sync, connect or
  sign-out runs at a time (the lock \<open>busy\<close>), so a gap holds none of these.
\<close>

section \<open>The account's part of the state\<close>

datatype login_phase = PhIdle | PhWaiting unix_time | PhExchanging | PhFailed utext

record login_pending =
  pl_state :: utext
  pl_verifier :: utext
  pl_started :: instant
  pl_started_unix :: unix_time
  pl_url :: utext

record connect_error =
  ce_code :: utext
  ce_reason :: "utext option"

record account_state =
  at_base :: "utext option"      \<comment> \<open>the platform's address, with the client\<close>
  at_login :: "login_pending option"
  at_phase :: login_phase
  at_synths :: "account_synth list option"
  at_errors :: "utext \<rightharpoonup> connect_error"
  at_last_sync :: "unix_time option"
  at_sync_error :: "utext option"

record app_state =
  ap_at :: account_state
  ap_sh :: shared

record sync_report =
  sr_added :: "utext list"
  sr_removed :: "utext list"
  sr_signed_out :: bool
  sr_first_link :: bool

definition no_report :: sync_report where
  "no_report = \<lparr>sr_added = [], sr_removed = [], sr_signed_out = False, sr_first_link = False\<rparr>"

text \<open>An answer of the platform; the left side is a call that could not be run at all.\<close>

type_synonym 'a platform_call = "(utext, (platform_error, 'a) result) result"

datatype await = AwExchange | AwMe | AwConnect utext | AwUnpair utext | AwLogout | AwLinkCode

record platform_world =
  pw_wall :: unix_time
  pw_challenge :: "utext \<Rightarrow> utext"
  pw_os :: utext
  pw_device_name :: utext
  pw_app_version :: utext
  pw_exchange :: "utext \<Rightarrow> utext \<Rightarrow> utext \<Rightarrow> utext \<Rightarrow> token_answer platform_call"
  pw_me :: "utext \<Rightarrow> utext \<Rightarrow> account_me platform_call"
  pw_connect :: "utext \<Rightarrow> utext \<Rightarrow> utext \<Rightarrow> utext \<Rightarrow> minted platform_call"
  pw_link_code :: "utext \<Rightarrow> utext \<Rightarrow> utext \<Rightarrow> link_code_answer platform_call"
  pw_logout :: "utext \<Rightarrow> utext \<Rightarrow> unit platform_call"
  pw_gap :: "await \<Rightarrow> app_state \<Rightarrow> app_state"

definition on_shared :: "(shared \<Rightarrow> shared) \<Rightarrow> app_state \<Rightarrow> app_state" where
  "on_shared f a = a\<lparr>ap_sh := f (ap_sh a)\<rparr>"

definition on_account :: "(account_state \<Rightarrow> account_state) \<Rightarrow> app_state \<Rightarrow> app_state" where
  "on_account f a = a\<lparr>ap_at := f (ap_at a)\<rparr>"

definition ACCOUNT_TOKEN_KEY :: sec_key where "ACCOUNT_TOKEN_KEY = lit ''account_token''"
definition LOGIN_TTL :: instant where "LOGIN_TTL = seconds (10 * 60)"
definition SYNC_EVERY :: instant where "SYNC_EVERY = seconds (10 * 60)"

definition account_token :: "app_state \<Rightarrow> utext option" where
  "account_token a = some_token (fs_get (sh_secret (ap_sh a)) ACCOUNT_TOKEN_KEY)"

definition stored_account_of :: "app_state \<Rightarrow> stored_account option" where
  "stored_account_of a = p_account (sh_persisted (ap_sh a))"

definition account_signed_in :: "app_state \<Rightarrow> bool" where
  "account_signed_in a \<longleftrightarrow> stored_account_of a \<noteq> None \<and> account_token a \<noteq> None"

definition tell_account :: "app_state \<Rightarrow> app_state" where
  "tell_account a = on_shared (emit EvAccount) a"

definition set_phase :: "login_phase \<Rightarrow> app_state \<Rightarrow> app_state" where
  "set_phase ph a = tell_account (on_account (\<lambda>t. t\<lparr>at_phase := ph\<rparr>) a)"

definition app_note :: "platform_world \<Rightarrow> string \<Rightarrow> utext \<Rightarrow> utext \<Rightarrow> app_state \<Rightarrow> app_state" where
  "app_note w act target outcome a =
     on_shared (sh_record None (new_entry (pw_wall w) (lit ''app'') (lit act) target outcome)) a"

definition update_account :: "(stored_account option \<Rightarrow> stored_account option) \<Rightarrow> app_state \<Rightarrow> app_state" where
  "update_account f a =
     (let p = sh_persisted (ap_sh a); p1 = p\<lparr>p_account := f (p_account p)\<rparr>
      in on_shared (\<lambda>sh. if p_account p1 \<noteq> p_account p then save_locked (set_persisted p1 sh) else sh) a)"

section \<open>One link of the account\<close>

definition minted_pending :: "account_synth \<Rightarrow> minted \<Rightarrow> pending" where
  "minted_pending s m =
     \<lparr>pn_synth_id = (if mi_synth_id m = [] then as_synth_id s else mi_synth_id m),
      pn_synth_url = mi_synth_url m, pn_token = mi_token m,
      pn_synth_name = (if mi_synth_name m = [] then as_name s else mi_synth_name m),
      pn_source = SrcAccount, pn_hub_id = as_hub_id s, pn_linked_to_account = Some True, pn_reason = None\<rparr>"

definition io_error_text :: utext where "io_error_text = lit ''io error''"

definition add_error_text :: "add_error \<Rightarrow> utext" where
  \<comment> \<open>the text of the store's own error is not modelled\<close>
  "add_error_text e = (case e of NoSynthId \<Rightarrow> lit ''the pairing has no synth_id'' | StoreFailed _ \<Rightarrow> io_error_text)"

definition connect_taken :: "platform_world \<Rightarrow> account_synth \<Rightarrow> minted \<Rightarrow> app_state \<Rightarrow> (connect_error, bool) result \<times> app_state" where
  "connect_taken w s m a =
     (let p = minted_pending s m;
          a1 = on_account (\<lambda>t. t\<lparr>at_errors := (at_errors t)(as_synth_id s := None)\<rparr>) a
      in case add_link p (ap_sh a1) of
           (Err e, sh) \<Rightarrow> (Err \<lparr>ce_code = lit ''store_failed'', ce_reason = Some (add_error_text e)\<rparr>, a1\<lparr>ap_sh := sh\<rparr>)
         | (Ok first, sh) \<Rightarrow> (Ok first, app_note w ''account.connect'' (pn_synth_id p) (lit ''ok'') (a1\<lparr>ap_sh := sh\<rparr>)))"

definition connect_refused :: "platform_world \<Rightarrow> account_synth \<Rightarrow> platform_error \<Rightarrow> app_state \<Rightarrow> (connect_error, bool) result \<times> app_state" where
  "connect_refused w s e a =
     (let err = \<lparr>ce_code = platform_code e, ce_reason = platform_reason e\<rparr>
      in (Err err, on_account (\<lambda>t. t\<lparr>at_errors := (at_errors t)(as_synth_id s \<mapsto> err)\<rparr>)
            (app_note w ''account.connect'' (as_synth_id s) (lit ''failed: '' @ ce_code err) a)))"

definition connect_one :: "platform_world \<Rightarrow> account_synth \<Rightarrow> app_state \<Rightarrow> (connect_error, bool) result \<times> app_state" where
  "connect_one w s a =
     (case at_base (ap_at a) of
        None \<Rightarrow> (Err \<lparr>ce_code = lit ''platform_unavailable'', ce_reason = None\<rparr>, a)
      | Some base \<Rightarrow>
          (case account_token a of
             None \<Rightarrow> (Err \<lparr>ce_code = lit ''signed_out'', ce_reason = None\<rparr>, a)
           | Some token \<Rightarrow>
               (let a1 = pw_gap w (AwConnect (as_synth_id s)) a
                in case pw_connect w base token (as_hub_id s) (as_synth_id s) of
                     Err e \<Rightarrow> (Err \<lparr>ce_code = lit ''platform_error'', ce_reason = Some e\<rparr>, a1)
                   | Ok (Err e) \<Rightarrow> connect_refused w s e a1
                   | Ok (Ok m) \<Rightarrow> connect_taken w s m a1)))"

definition unpair_synth :: "platform_world \<Rightarrow> utext \<Rightarrow> app_state \<Rightarrow> app_state" where
  "unpair_synth w synth a =
     (case unpair_start synth (ap_sh a) of
        (None, sh) \<Rightarrow> a\<lparr>ap_sh := sh\<rparr>
      | (Some r, sh) \<Rightarrow> on_shared (unpair_finish r) (pw_gap w (AwUnpair synth) (a\<lparr>ap_sh := sh\<rparr>)))"

fun unpair_where :: "platform_world \<Rightarrow> (link_slot \<Rightarrow> bool) \<Rightarrow> (utext \<Rightarrow> app_state \<Rightarrow> app_state) \<Rightarrow> slot_ref list
    \<Rightarrow> app_state \<Rightarrow> utext list \<times> app_state" where
  \<comment> \<open>over the links as they were: those that are to go, with their names\<close>
  "unpair_where w goes note [] a = ([], a)"
| "unpair_where w goes note (r # rs) a =
     (let s = slot_at (ap_sh a) r
      in if goes s
         then (let (names, a1) = unpair_where w goes note rs (unpair_synth w (sl_synth_id s) (note (sl_synth_id s) a))
               in (display_name s # names, a1))
         else unpair_where w goes note rs a)"

definition forget_account :: "app_state \<Rightarrow> app_state" where
  "forget_account a =
     on_account (\<lambda>t. t\<lparr>at_synths := None, at_errors := Map.empty, at_sync_error := None, at_login := None, at_phase := PhIdle\<rparr>)
       (update_account (\<lambda>_. None)
          (on_shared (\<lambda>sh. sh\<lparr>sh_secret := snd (fs_delete (sh_secret sh) ACCOUNT_TOKEN_KEY)\<rparr>) a))"

definition account_link :: "link_slot \<Rightarrow> bool" where
  "account_link s \<longleftrightarrow> sl_source s = SrcAccount"

definition sign_out_local :: "platform_world \<Rightarrow> app_state \<Rightarrow> utext list \<times> app_state" where
  "sign_out_local w a =
     (let a1 = forget_account a;
          (removed, a2) = unpair_where w account_link (\<lambda>_ a. a) (sh_links (ap_sh a1)) a1
      in (removed, tell_account a2))"

section \<open>A code through the account, a fresh token\<close>

definition link_code_failed :: "platform_error \<Rightarrow> utext" where
  "link_code_failed e =
     (let st = platform_status e
      in (if e = Unauthorized then lit ''signed_out''
          else if st = Some 404 then lit ''code_not_found''
          else if st = Some 410 then lit ''code_expired''
          else if st = Some 400 then lit ''bad_code''
          else if st = Some 429 then lit ''rate_limited''
          else if st = Some 409 then lit ''conflict''
          else case e of Unreachable _ \<Rightarrow> lit ''platform_unreachable'' | _ \<Rightarrow> lit ''platform_error'') @
         lit '': '' @ platform_error_text e)"

definition code_pending :: "link_code_answer \<Rightarrow> pending" where
  "code_pending c = \<lparr>pn_synth_id = lc_synth_id c, pn_synth_url = lc_synth_url c, pn_token = lc_token c,
     pn_synth_name = lc_synth_name c, pn_source = (if lc_linked c then SrcAccount else SrcCode), pn_hub_id = [],
     pn_linked_to_account = Some (lc_linked c),
     pn_reason = (case lc_reason c of Some r \<Rightarrow> if r = [] then None else Some r | None \<Rightarrow> None)\<rparr>"

definition account_link_code :: "platform_world \<Rightarrow> utext \<Rightarrow> app_state \<Rightarrow> (utext, pending) result \<times> app_state" where
  "account_link_code w raw a =
     (case normalize_code raw of
        None \<Rightarrow> (Err (lit ''bad_code: the code must be six digits''), a)
      | Some code \<Rightarrow>
          (case at_base (ap_at a) of
             None \<Rightarrow> (Err (lit ''platform_unavailable: no platform''), a)
           | Some base \<Rightarrow>
               (case account_token a of
                  None \<Rightarrow> (Err (lit ''signed_out: not signed in''), a)
                | Some token \<Rightarrow>
                    (let a1 = pw_gap w AwLinkCode a
                     in case pw_link_code w base token code of
                          Err e \<Rightarrow> (Err e, a1)
                        | Ok (Err e) \<Rightarrow> (Err (link_code_failed e), a1)
                        | Ok (Ok c) \<Rightarrow>
                            (Ok (code_pending c),
                             app_note w ''account.link_code'' (lc_synth_id c)
                               (if lc_linked c then lit ''ok'' else lit ''ok: linked elsewhere'') a1)))))"

definition pair_begin :: "platform_world \<Rightarrow> (utext \<Rightarrow> (utext, claim_result) result) \<Rightarrow> utext \<Rightarrow> app_state
    \<Rightarrow> (utext, pending) result \<times> app_state" where
  \<comment> \<open>through the account when signed in, else through the hub (its answer is given)\<close>
  "pair_begin w claim code a =
     (if account_signed_in a
      then (case account_link_code w code a of
              (Err e, a1) \<Rightarrow> (Err e, a1)
            | (Ok p, a1) \<Rightarrow> (Ok p, on_shared (\<lambda>sh. sh\<lparr>sh_pending := Some p\<rparr>) a1))
      else (case claim code of
              Err e \<Rightarrow> (Err e, a)
            | Ok c \<Rightarrow> (Ok (from_claim c), on_shared (\<lambda>sh. sh\<lparr>sh_pending := Some (from_claim c)\<rparr>) a)))"

definition remint :: "platform_world \<Rightarrow> slot_ref \<Rightarrow> app_state \<Rightarrow> (utext, unit) result \<times> app_state" where
  "remint w r a =
     (let s = slot_at (ap_sh a) r
      in if sl_source s \<noteq> SrcAccount then (Err (lit ''needs_code''), a)
         else if sl_hub_id s = [] then (Err (lit ''no_hub_id''), a)
         else case connect_one w \<lparr>as_hub_id = sl_hub_id s, as_synth_id = sl_synth_id s,
                 as_name = display_name s, as_avatar = None\<rparr> a of
                (Err e, a1) \<Rightarrow> (Err (ce_code e), a1)
              | (Ok _, a1) \<Rightarrow> (Ok (), a1))"

section \<open>The sync\<close>

fun adopt_identity :: "utext \<Rightarrow> account_synth \<Rightarrow> identity list \<Rightarrow> identity list option" where
  \<comment> \<open>the first of the synth; None: there is none\<close>
  "adopt_identity synth s [] = None"
| "adopt_identity synth s (i # is) =
     (if id_synth_id i = synth
      then Some (i\<lparr>id_source := SrcAccount, id_hub_id := as_hub_id s,
             id_synth_name := (if id_synth_name i = [] then as_name s else id_synth_name i)\<rparr> # is)
      else map_option (\<lambda>js. i # js) (adopt_identity synth s is))"

definition adopt :: "account_synth \<Rightarrow> slot_ref \<Rightarrow> shared \<Rightarrow> shared" where
  "adopt s r sh =
     (let l = slot_at sh r
      in if sl_source l = SrcAccount \<and> sl_hub_id l = as_hub_id s then sh
         else (let sh1 = upd_slot r (\<lambda>l. l\<lparr>sl_source := SrcAccount, sl_hub_id := as_hub_id s,
                    sl_stored_name := (if as_name s \<noteq> [] \<and> sl_stored_name l = [] then as_name s else sl_stored_name l)\<rparr>) sh;
                   p = sh_persisted sh1
               in case adopt_identity (sl_synth_id l) s (p_identities p) of
                    None \<Rightarrow> sh1
                  | Some ids \<Rightarrow> save_locked (set_persisted (p\<lparr>p_identities := ids\<rparr>) sh1)))"

definition adopt_listed :: "account_synth \<Rightarrow> shared \<Rightarrow> shared" where
  "adopt_listed s sh = (case find_link (as_synth_id s) sh of Some r \<Rightarrow> adopt s r sh | None \<Rightarrow> sh)"

definition listed_name :: "account_synth \<Rightarrow> utext" where
  "listed_name s = (if as_name s = [] then as_synth_id s else as_name s)"

fun connect_where :: "platform_world \<Rightarrow> (account_synth \<Rightarrow> app_state \<Rightarrow> bool) \<Rightarrow> account_synth list \<Rightarrow> sync_report \<Rightarrow> app_state
    \<Rightarrow> sync_report \<times> app_state" where
  "connect_where w wanted [] rep a = (rep, a)"
| "connect_where w wanted (s # ss) rep a =
     (if wanted s a
      then (case connect_one w s a of
              (Err _, a1) \<Rightarrow> connect_where w wanted ss rep a1
            | (Ok first, a1) \<Rightarrow>
                connect_where w wanted ss
                  (rep\<lparr>sr_first_link := (sr_first_link rep \<or> first), sr_added := sr_added rep @ [listed_name s]\<rparr>) a1)
      else connect_where w wanted ss rep a)"

definition unlinked_unskipped :: "utext list \<Rightarrow> account_synth \<Rightarrow> app_state \<Rightarrow> bool" where
  "unlinked_unskipped skipped s a \<longleftrightarrow> find_link (as_synth_id s) (ap_sh a) = None \<and> as_synth_id s \<notin> set skipped"

definition left_account :: "account_synth list \<Rightarrow> link_slot \<Rightarrow> bool" where
  "left_account synths s \<longleftrightarrow> sl_source s = SrcAccount \<and> sl_hub_id s \<noteq> [] \<and> sl_synth_id s \<notin> as_synth_id ` set synths"

definition usable_synths :: "account_me \<Rightarrow> account_synth list" where
  "usable_synths m = filter (\<lambda>s. as_synth_id s \<noteq> [] \<and> as_hub_id s \<noteq> []) (me_synths m)"

definition sync_account :: "account_me \<Rightarrow> stored_account option \<Rightarrow> stored_account option" where
  "sync_account m x = map_option (\<lambda>s. s\<lparr>ac_email := (if ai_email (me_account m) \<noteq> [] then ai_email (me_account m) else ac_email s),
     ac_name := ai_name (me_account m)\<rparr>) x"

definition sync_links :: "platform_world \<Rightarrow> account_synth list \<Rightarrow> app_state \<Rightarrow> sync_report \<times> app_state" where
  "sync_links w synths a =
     (let (removed, a1) = unpair_where w (left_account synths)
            (\<lambda>synth. app_note w ''account.sync'' synth (lit ''unlinked: the synth left the account'')) (sh_links (ap_sh a)) a;
          a2 = on_shared (fold adopt_listed synths) a1;
          rep = no_report\<lparr>sr_removed := removed\<rparr>
      in case stored_account_of a2 of
           Some acc \<Rightarrow>
             (if ac_consented acc then connect_where w (unlinked_unskipped (ac_skipped acc)) synths rep a2 else (rep, a2))
         | None \<Rightarrow> (rep, a2))"

definition sync_read :: "platform_world \<Rightarrow> account_me \<Rightarrow> app_state \<Rightarrow> sync_report \<times> app_state" where
  "sync_read w m a =
     (let a1 = on_account (\<lambda>t. t\<lparr>at_sync_error := None, at_last_sync := Some (pw_wall w)\<rparr>) a;
          a2 = update_account (sync_account m) a1;
          a3 = on_account (\<lambda>t. t\<lparr>at_synths := Some (usable_synths m)\<rparr>) a2;
          (rep, a4) = sync_links w (usable_synths m) a3
      in (rep, tell_account a4))"

definition sync_refused :: "platform_world \<Rightarrow> app_state \<Rightarrow> sync_report \<times> app_state" where
  "sync_refused w a =
     (let (removed, a1) = sign_out_local w (app_note w ''account.sync'' (lit ''platform'')
            (lit ''signed out: the platform refused the app's sign-in'') a)
      in (no_report\<lparr>sr_removed := removed, sr_signed_out := True\<rparr>, a1))"

definition account_sync :: "platform_world \<Rightarrow> app_state \<Rightarrow> sync_report \<times> app_state" where
  "account_sync w a =
     (case (at_base (ap_at a), account_token a, stored_account_of a) of
        (Some base, Some token, Some _) \<Rightarrow>
          (let a1 = pw_gap w AwMe a
           in case pw_me w base token of
                Ok (Ok m) \<Rightarrow> sync_read w m a1
              | Ok (Err e) \<Rightarrow>
                  if e = Unauthorized then sync_refused w a1
                  else (no_report, tell_account (on_account (\<lambda>t. t\<lparr>at_sync_error := Some (platform_code e)\<rparr>) a1))
              | Err e \<Rightarrow> (no_report, on_account (\<lambda>t. t\<lparr>at_sync_error := Some e\<rparr>) a1))
      | _ \<Rightarrow> (no_report, a))"

definition needs_repair :: "account_synth \<Rightarrow> app_state \<Rightarrow> bool" where
  "needs_repair s a \<longleftrightarrow> (case find_link (as_synth_id s) (ap_sh a) of
      Some r \<Rightarrow> sl_state (slot_at (ap_sh a) r) = NeedsRepair | None \<Rightarrow> False)"

definition account_connect :: "platform_world \<Rightarrow> app_state \<Rightarrow> (utext, sync_report) result \<times> app_state" where
  "account_connect w a =
     (if \<not> account_signed_in a then (Err (lit ''not_signed_in''), a)
      else (case account_sync w (update_account (map_option (\<lambda>s. s\<lparr>ac_consented := True, ac_skipped := []\<rparr>)) a) of
              (rep, a1) \<Rightarrow>
                if sr_signed_out rep then (Err (lit ''signed_out''), a1)
                else (case connect_where w needs_repair (case at_synths (ap_at a1) of Some l \<Rightarrow> l | None \<Rightarrow> []) rep a1 of
                        (rep1, a2) \<Rightarrow> (Ok rep1, tell_account a2))))"

definition account_skip :: "utext \<Rightarrow> app_state \<Rightarrow> app_state" where
  "account_skip synth a =
     (if (case at_synths (ap_at a) of Some l \<Rightarrow> synth \<in> as_synth_id ` set l | None \<Rightarrow> False)
      then tell_account (update_account (map_option (\<lambda>s. if synth \<in> set (ac_skipped s) then s
              else s\<lparr>ac_skipped := ac_skipped s @ [synth]\<rparr>)) a)
      else a)"

definition sign_out :: "platform_world \<Rightarrow> app_state \<Rightarrow> utext list \<times> app_state" where
  \<comment> \<open>whatever the platform answers\<close>
  "sign_out w a =
     (let a1 = (if at_base (ap_at a) \<noteq> None \<and> account_token a \<noteq> None then pw_gap w AwLogout a else a)
      in sign_out_local w (app_note w ''account.logout'' (lit ''platform'') (lit ''ok'') a1))"

section \<open>The sign-in\<close>

definition login_address :: "platform_world \<Rightarrow> utext \<Rightarrow> utext \<Rightarrow> utext \<Rightarrow> utext \<Rightarrow> utext" where
  "login_address w base state verifier device =
     trim_slashes base @ lit ''/connect/login?state='' @ segment state @
     lit ''&code_challenge='' @ segment (pw_challenge w verifier) @
     lit ''&device_id='' @ segment device @
     lit ''&device_name='' @ segment (pw_device_name w) @
     lit ''&os='' @ pw_os w @
     lit ''&app_version='' @ segment (pw_app_version w)"

definition os_name :: "utext \<Rightarrow> utext" where
  "os_name os = (if os \<in> {lit ''macos'', lit ''windows''} then os else lit ''linux'')"

definition login_url :: "platform_world \<Rightarrow> instant \<Rightarrow> utext \<times> utext \<Rightarrow> app_state \<Rightarrow> (utext, utext) result \<times> app_state" where
  \<comment> \<open>with a fresh random state and verifier\<close>
  "login_url w now rnd a =
     (case at_base (ap_at a) of
        None \<Rightarrow> (Err (lit ''platform_unavailable''), a)
      | Some base \<Rightarrow>
          (let new = (let url = login_address (w\<lparr>pw_os := os_name (pw_os w)\<rparr>) base (fst rnd) (snd rnd)
                              (p_device_id (sh_persisted (ap_sh a)))
                      in (Ok url, set_phase (PhWaiting (pw_wall w))
                            (on_account (\<lambda>t. t\<lparr>at_login := Some \<lparr>pl_state = fst rnd, pl_verifier = snd rnd, pl_started = now,
                               pl_started_unix = pw_wall w, pl_url = url\<rparr>\<rparr>) a)))
           in case at_login (ap_at a) of
                Some p \<Rightarrow> if elapsed now (pl_started p) < LOGIN_TTL
                  then (Ok (pl_url p), set_phase (PhWaiting (pl_started_unix p)) a) else new
              | None \<Rightarrow> new))"

definition login_cancel :: "app_state \<Rightarrow> app_state" where
  "login_cancel a = set_phase PhIdle (on_account (\<lambda>t. t\<lparr>at_login := None\<rparr>) a)"

definition login_failed :: "platform_world \<Rightarrow> utext \<Rightarrow> utext \<Rightarrow> app_state \<Rightarrow> app_state" where
  "login_failed w outcome code a = set_phase (PhFailed code) (app_note w ''account.login'' (lit ''platform'') outcome a)"

definition signed_in_account :: "account_info \<Rightarrow> stored_account option \<Rightarrow> stored_account option" where
  "signed_in_account i x =
     (let keep = (case x of Some s \<Rightarrow> if ac_id s = ai_id i then Some s else None | None \<Rightarrow> None)
      in Some \<lparr>ac_id = ai_id i, ac_email = ai_email i, ac_name = ai_name i,
           ac_consented = (case keep of Some s \<Rightarrow> ac_consented s | None \<Rightarrow> False),
           ac_skipped = (case keep of Some s \<Rightarrow> ac_skipped s | None \<Rightarrow> [])\<rparr>)"

definition login_stored :: "platform_world \<Rightarrow> token_answer \<Rightarrow> app_state \<Rightarrow> (utext, unit) result \<times> app_state" where
  \<comment> \<open>the token is kept, the account with it, its synths are read\<close>
  "login_stored w t a =
     (case fs_set (sh_secret (ap_sh a)) ACCOUNT_TOKEN_KEY (ta_token t) of
        (Err _, sec) \<Rightarrow>
          (Err (lit ''store_failed: '' @ io_error_text),
           set_phase (PhFailed (lit ''store_failed'')) (on_shared (\<lambda>sh. sh\<lparr>sh_secret := sec\<rparr>) a))
      | (Ok _, sec) \<Rightarrow>
          (let a1 = update_account (signed_in_account (ta_account t)) (on_shared (\<lambda>sh. sh\<lparr>sh_secret := sec\<rparr>) a);
               a2 = on_account (\<lambda>x. x\<lparr>at_phase := PhIdle\<rparr>) (app_note w ''account.login'' (lit ''platform'') (lit ''ok'') a1)
           in (Ok (), tell_account (snd (account_sync w a2)))))"

definition login_exchanged :: "platform_world \<Rightarrow> token_answer platform_call \<Rightarrow> app_state \<Rightarrow> (utext, unit) result \<times> app_state" where
  "login_exchanged w answer a =
     (case answer of
        Err e \<Rightarrow> (Err e, a)
      | Ok (Ok t) \<Rightarrow>
          if starts_with (lit ''snthapp_'') (ta_token t) \<and> ai_id (ta_account t) \<noteq> [] then login_stored w t a
          else (Err (lit ''exchange_failed''),
                app_note w ''account.login'' (lit ''platform'') (lit ''failed: an answer without a token'')
                  (set_phase (PhFailed (lit ''exchange_failed'')) a))
      | Ok (Err e) \<Rightarrow>
          (let code = (case e of Unreachable _ \<Rightarrow> lit ''platform_unreachable'' | _ \<Rightarrow> lit ''exchange_failed'')
           in (Err code, login_failed w (lit ''failed: '' @ platform_code e) code a)))"

definition login_back :: "platform_world \<Rightarrow> login_pending \<Rightarrow> (utext, utext) result \<Rightarrow> app_state \<Rightarrow> (utext, unit) result \<times> app_state" where
  \<comment> \<open>the browser came back to the sign-in that waited\<close>
  "login_back w p code a =
     (case code of
        Err why \<Rightarrow>
          (Err (lit ''denied''),
           login_failed w (lit ''denied: '' @ (if why = lit ''denied'' then lit ''denied'' else lit ''failed'') @ lit '' in the browser'')
             why a)
      | Ok c \<Rightarrow>
          (case at_base (ap_at a) of
             None \<Rightarrow> (Err (lit ''platform_unavailable''), set_phase PhExchanging a)
           | Some base \<Rightarrow>
               login_exchanged w (pw_exchange w base c (pl_verifier p) (p_device_id (sh_persisted (ap_sh a))))
                 (pw_gap w AwExchange (set_phase PhExchanging a))))"

definition login_complete :: "platform_world \<Rightarrow> instant \<Rightarrow> (utext, utext) result \<Rightarrow> utext \<Rightarrow> app_state
    \<Rightarrow> (utext, unit) result \<times> app_state" where
  "login_complete w now code state a =
     (let taken = on_account (\<lambda>t. t\<lparr>at_login := None\<rparr>) a
      in case (case at_login (ap_at a) of Some p \<Rightarrow> if pl_state p = state then Some p else None | None \<Rightarrow> None) of
           Some p \<Rightarrow>
             (if elapsed now (pl_started p) < LOGIN_TTL then login_back w p code taken
              else (Err (lit ''expired''), login_failed w (lit ''failed: the sign-in took too long'') (lit ''expired'') taken))
         | None \<Rightarrow>
             (Err (lit ''state_mismatch''),
              app_note w ''account.login'' (lit ''platform'') (lit ''ignored: a sign-in link this app did not start'') a))"

section \<open>The view\<close>

record account_synth_view =
  av_hub_id :: utext
  av_synth_id :: utext
  av_name :: utext
  av_avatar :: "utext option"
  av_linked :: bool
  av_skipped :: bool
  av_error :: "utext option"
  av_reason :: "utext option"

record account_view =
  vw_signed_in :: bool
  vw_account :: "account_info option"
  vw_login :: login_phase
  vw_synths :: "account_synth_view list option"
  vw_consented :: bool
  vw_last_sync :: "unix_time option"
  vw_sync_error :: "utext option"
  vw_platform_url :: utext

definition synth_view :: "app_state \<Rightarrow> account_synth \<Rightarrow> account_synth_view" where
  "synth_view a s =
     (let err = at_errors (ap_at a) (as_synth_id s)
      in \<lparr>av_hub_id = as_hub_id s, av_synth_id = as_synth_id s, av_name = listed_name s, av_avatar = as_avatar s,
          av_linked = list_ex (\<lambda>l. sl_synth_id l = as_synth_id s) (link_slots (ap_sh a)),
          av_skipped = (case stored_account_of a of Some x \<Rightarrow> as_synth_id s \<in> set (ac_skipped x) | None \<Rightarrow> False),
          av_error = map_option ce_code err, av_reason = Option.bind err ce_reason\<rparr>)"

definition account_view_of :: "app_state \<Rightarrow> account_view" where
  "account_view_of a =
     (let signed_in = account_signed_in a; t = ap_at a
      in \<lparr>vw_signed_in = signed_in,
          vw_account = (if signed_in then map_option (\<lambda>x. \<lparr>ai_id = ac_id x, ai_email = ac_email x, ai_name = ac_name x\<rparr>)
                          (stored_account_of a) else None),
          vw_login = at_phase t,
          vw_synths = (if signed_in then map_option (map (synth_view a)) (at_synths t) else None),
          vw_consented = (signed_in \<and> (case stored_account_of a of Some x \<Rightarrow> ac_consented x | None \<Rightarrow> False)),
          vw_last_sync = at_last_sync t, vw_sync_error = at_sync_error t,
          vw_platform_url = (case at_base t of Some b \<Rightarrow> b | None \<Rightarrow> [])\<rparr>)"

section \<open>What the steps leave alone\<close>

definition quiet :: "platform_world \<Rightarrow> bool" where
  \<comment> \<open>nothing else goes on while a call is waited for\<close>
  "quiet w \<longleftrightarrow> pw_gap w = (\<lambda>_ a. a)"

lemma quietD [simp]: "quiet w \<Longrightarrow> pw_gap w x a = a"
  by (simp add: quiet_def)

definition account_ok :: "shared \<Rightarrow> bool" where
  \<comment> \<open>the links are consistent, and a link of the account is no ad hoc one\<close>
  "account_ok sh \<longleftrightarrow> core_ok sh \<and> (\<forall>r \<in> set (sh_links sh). account_link (slot_at sh r) \<longrightarrow> \<not> sl_adhoc (slot_at sh r))"

definition store_works :: "shared \<Rightarrow> bool" where
  "store_works sh \<longleftrightarrow> fs_writes (sh_secret sh) = [] \<and> is_ok (read_map (sh_secret sh))"

lemma account_key_other [simp]: "token_key s \<noteq> ACCOUNT_TOKEN_KEY" "ACCOUNT_TOKEN_KEY \<noteq> token_key s"
  "ACCOUNT_TOKEN_KEY \<noteq> TOKEN_KEY" "TOKEN_KEY \<noteq> ACCOUNT_TOKEN_KEY"
  by (simp_all add: token_key_def TOKEN_KEY_def ACCOUNT_TOKEN_KEY_def lit_def)

lemma fs_delete_works: "fs_writes s = [] \<and> is_ok (read_map s) \<Longrightarrow>
   fs_writes (snd (fs_delete s k)) = [] \<and> is_ok (read_map (snd (fs_delete s k)))"
  by (auto simp: fs_delete_def write_map_def read_map_def is_ok_def split: sum.splits secret_file.splits)

lemma fs_set_works: "fs_writes s = [] \<and> is_ok (read_map s) \<Longrightarrow>
   \<exists>s'. fs_set s k v = (Ok (), s') \<and> fs_writes s' = [] \<and> is_ok (read_map s')"
  by (auto simp: fs_set_def write_map_def read_map_def is_ok_def split: sum.splits secret_file.splits)

lemma fs_set_other: "fs_set s k v = (x, s') \<Longrightarrow> k' \<noteq> k \<Longrightarrow> fs_get s' k' = fs_get s k'"
  by (auto simp: fs_set_def fs_get_def write_map_def read_map_def split: sum.splits secret_file.splits list.splits bool.splits)

lemma app_parts [simp]:
  "ap_at (on_shared f a) = ap_at a" "ap_sh (on_shared f a) = f (ap_sh a)"
  "ap_at (on_account g a) = g (ap_at a)" "ap_sh (on_account g a) = ap_sh a"
  by (simp_all add: on_shared_def on_account_def)

lemma sh_record_parts [simp]:
  "sh_persisted (sh_record peer e sh) = sh_persisted sh" "sh_secret (sh_record peer e sh) = sh_secret sh"
  "sh_links (sh_record peer e sh) = sh_links sh" "sh_slots (sh_record peer e sh) = sh_slots sh"
  "slot_at (sh_record peer e sh) = slot_at sh"
  by (simp_all add: sh_record_def slot_at_def fun_eq_iff)

text \<open>A step that touches neither the links nor the secrets nor the stored account.\<close>

definition aside :: "app_state \<Rightarrow> app_state \<Rightarrow> bool" where
  "aside a a' \<longleftrightarrow> sh_links (ap_sh a') = sh_links (ap_sh a) \<and> sh_slots (ap_sh a') = sh_slots (ap_sh a) \<and>
     sh_secret (ap_sh a') = sh_secret (ap_sh a) \<and> sh_persisted (ap_sh a') = sh_persisted (ap_sh a) \<and>
     at_base (ap_at a') = at_base (ap_at a)"

lemma aside_simps [simp]:
  "aside a a" "aside a (tell_account b) = aside a b" "aside a (app_note w x t out b) = aside a b"
  "aside a (set_phase ph b) = aside a b"
  by (simp_all add: aside_def tell_account_def app_note_def set_phase_def)

lemma aside_trans: "aside a b \<Longrightarrow> aside b c \<Longrightarrow> aside a c"
  by (simp add: aside_def)

lemma aside_slot_at: "aside a b \<Longrightarrow> slot_at (ap_sh b) = slot_at (ap_sh a)"
  by (simp add: aside_def slot_at_def fun_eq_iff)

lemma aside_facts:
  assumes "aside a b"
  shows "account_token b = account_token a" "stored_account_of b = stored_account_of a"
    "account_ok (ap_sh b) = account_ok (ap_sh a)" "store_works (ap_sh b) = store_works (ap_sh a)"
    "find_link i (ap_sh b) = find_link i (ap_sh a)"
  using assms aside_slot_at [OF assms]
  by (simp_all add: aside_def account_token_def stored_account_of_def account_ok_def core_ok_def store_works_def find_link_def)

lemma login_failed_aside [simp]: "aside a (login_failed w x c b) = aside a b"
  by (simp add: login_failed_def)

section \<open>Links that go\<close>

definition only_unlinks :: "slot_ref set \<Rightarrow> shared \<Rightarrow> shared \<Rightarrow> bool" where
  \<comment> \<open>the links of a set are gone, every other is as it was, with its token\<close>
  "only_unlinks G sh sh' \<longleftrightarrow>
     sh_links sh' = filter (\<lambda>l. l \<notin> G) (sh_links sh) \<and> length (sh_slots sh') = length (sh_slots sh) \<and>
     (\<forall>l. l \<notin> G \<longrightarrow> slot_at sh' l = slot_at sh l) \<and>
     (\<forall>l. sl_synth_id (slot_at sh' l) = sl_synth_id (slot_at sh l) \<and> sl_token_key (slot_at sh' l) = sl_token_key (slot_at sh l) \<and>
          sl_source (slot_at sh' l) = sl_source (slot_at sh l) \<and> sl_adhoc (slot_at sh' l) = sl_adhoc (slot_at sh l)) \<and>
     p_account (sh_persisted sh') = p_account (sh_persisted sh) \<and>
     (\<forall>k. k \<noteq> TOKEN_KEY \<and> (\<forall>l \<in> G. k \<noteq> sl_token_key (slot_at sh l)) \<longrightarrow> fs_get (sh_secret sh') k = fs_get (sh_secret sh) k) \<and>
     (account_ok sh \<longrightarrow> account_ok sh') \<and> (store_works sh \<longrightarrow> store_works sh')"

lemma only_unlinks_none: "only_unlinks {} sh sh"
  by (simp add: only_unlinks_def)

lemma only_unlinks_trans:
  assumes "only_unlinks G a b" "only_unlinks H b c"
  shows "only_unlinks (G \<union> H) a c"
  using assms by (auto simp: only_unlinks_def intro: filter_cong)

lemma p_account_gone [simp]:
  "p_account (sh_persisted (browsers_synth_removed i n sh)) = p_account (sh_persisted sh)"
  "p_account (wipe_persisted i p) = p_account p"
  by (simp_all add: browsers_synth_removed_def wipe_persisted_def Let_def)

lemma wipe_slot_account: "p_account (sh_persisted (wipe_slot r sh)) = p_account (sh_persisted sh)"
  by (simp add: wipe_slot_def Let_def)

lemma wiped_secret_works: "fs_writes s = [] \<and> is_ok (read_map s) \<Longrightarrow>
   fs_writes (wiped_secret l s) = [] \<and> is_ok (read_map (wiped_secret l s))"
  by (auto simp: wiped_secret_def Let_def fs_delete_works)

lemma wipe_only_unlinks:
  assumes "r \<in> set (sh_links sh)"
  shows "only_unlinks {r} sh (wipe_slot r sh)"
proof -
  have "sl_source (slot_at (wipe_slot r sh) l) = sl_source (slot_at sh l)" "sl_adhoc (slot_at (wipe_slot r sh) l) = sl_adhoc (slot_at sh l)"
    "sl_synth_id (slot_at (wipe_slot r sh) l) = sl_synth_id (slot_at sh l)"
    "sl_token_key (slot_at (wipe_slot r sh) l) = sl_token_key (slot_at sh l)" for l
    by (simp_all add: slot_at_wiped wiped_slot_def)
  moreover from this have "account_ok sh \<longrightarrow> account_ok (wipe_slot r sh)"
    using core_ok_wipe [OF _ assms] by (auto simp: account_ok_def wipe_slot_links account_link_def)
  ultimately show ?thesis
    using wiped_secret_works [of "sh_secret sh" "slot_at sh r"]
    by (auto simp: only_unlinks_def wipe_slot_links wipe_slot_others slot_at_wiped wipe_slot_account wipe_slot_secret
        wiped_secret_other store_works_def)
qed

lemma find_link_own:
  assumes "core_ok sh" "r \<in> set (sh_links sh)" "sl_synth_id (slot_at sh r) \<noteq> []"
  shows "find_link (sl_synth_id (slot_at sh r)) sh = Some r"
proof -
  have "find_link (sl_synth_id (slot_at sh r)) sh \<noteq> None" using find_link_None assms(2) by blast
  then obtain l where l: "find_link (sl_synth_id (slot_at sh r)) sh = Some l" by blast
  with find_link_Some [OF l] assms show ?thesis unfolding core_ok_def by metis
qed

lemma unpair_only_unlinks:
  assumes "quiet w" "account_ok (ap_sh a)" "r \<in> set (sh_links (ap_sh a))" "sl_synth_id (slot_at (ap_sh a) r) \<noteq> []"
  shows "only_unlinks {r} (ap_sh a) (ap_sh (unpair_synth w (sl_synth_id (slot_at (ap_sh a) r)) a)) \<and>
    ap_at (unpair_synth w (sl_synth_id (slot_at (ap_sh a) r)) a) = ap_at a"
proof -
  let ?i = "sl_synth_id (slot_at (ap_sh a) r)"
  have f: "find_link ?i (ap_sh a) = Some r" using find_link_own assms(2-4) by (simp add: account_ok_def)
  obtain sh1 where u: "unpair_start ?i (ap_sh a) = (Some r, sh1)" using f by (simp add: unpair_start_def Let_def)
  let ?sh2 = "upd_slot r (\<lambda>s. s\<lparr>sl_unpair_ack := False\<rparr>) sh1"
  have "same_links (ap_sh a) sh1" using same_links_small(2) [of "ap_sh a" ?i] u by simp
  moreover have "same_links sh1 ?sh2" by (simp add: same_links_def slot_at_upd)
  ultimately have same: "same_links (ap_sh a) ?sh2" by (rule same_links_trans)
  have parts: "sh_links ?sh2 = sh_links (ap_sh a)" "length (sh_slots ?sh2) = length (sh_slots (ap_sh a))"
    "sh_secret ?sh2 = sh_secret (ap_sh a)" "sh_persisted ?sh2 = sh_persisted (ap_sh a)"
    "\<And>l. l \<noteq> r \<Longrightarrow> slot_at ?sh2 l = slot_at (ap_sh a) l"
    "\<And>l. sl_source (slot_at ?sh2 l) = sl_source (slot_at (ap_sh a) l)"
    using u f by (auto simp: unpair_start_def Let_def slot_at_upd split: option.splits)
  have "account_ok ?sh2 = account_ok (ap_sh a)"
    using core_ok_same [OF same] same parts by (simp add: account_ok_def same_links_def account_link_def)
  then have "only_unlinks {r} (ap_sh a) (wipe_slot r ?sh2)"
    using wipe_only_unlinks [of r ?sh2] parts assms(3) same
    by (simp add: only_unlinks_def same_links_def store_works_def)
  with u assms(1) show ?thesis by (simp add: unpair_synth_def unpair_finish_def)
qed

lemma unpair_where_only_unlinks:
  assumes "quiet w" "\<And>s. goes s \<Longrightarrow> account_link s" "\<And>i b. aside b (note i b) \<and> ap_at (note i b) = ap_at b"
  shows "account_ok (ap_sh a) \<Longrightarrow> distinct rs \<Longrightarrow> set rs \<subseteq> set (sh_links (ap_sh a)) \<Longrightarrow>
    unpair_where w goes note rs a = (names, a') \<Longrightarrow>
    only_unlinks {r \<in> set rs. goes (slot_at (ap_sh a) r)} (ap_sh a) (ap_sh a') \<and> ap_at a' = ap_at a \<and>
    names = map (\<lambda>r. display_name (slot_at (ap_sh a) r)) (filter (\<lambda>r. goes (slot_at (ap_sh a) r)) rs)"
proof (induction rs arbitrary: a names)
  case Nil
  then show ?case by (simp add: only_unlinks_none)
next
  case (Cons r rs)
  let ?s = "slot_at (ap_sh a) r"
  show ?case
  proof (cases "goes ?s")
    case False
    with Cons have "only_unlinks {x \<in> set rs. goes (slot_at (ap_sh a) x)} (ap_sh a) (ap_sh a') \<and> ap_at a' = ap_at a \<and>
      names = map (\<lambda>r. display_name (slot_at (ap_sh a) r)) (filter (\<lambda>r. goes (slot_at (ap_sh a) r)) rs)"
      by (simp add: Let_def)
    moreover have "{x \<in> set (r # rs). goes (slot_at (ap_sh a) x)} = {x \<in> set rs. goes (slot_at (ap_sh a) x)}"
      using False by auto
    ultimately show ?thesis using False by simp
  next
    case True
    let ?n = "note (sl_synth_id ?s) a"
    have n: "aside a ?n" "ap_at ?n = ap_at a" using assms(3) by auto
    have sl: "slot_at (ap_sh ?n) = slot_at (ap_sh a)" "sh_links (ap_sh ?n) = sh_links (ap_sh a)"
      using aside_slot_at [OF n(1)] n(1) by (simp_all add: aside_def)
    have okn: "account_ok (ap_sh ?n)" using Cons.prems(1) aside_facts(3) [OF n(1)] by simp
    have r: "r \<in> set (sh_links (ap_sh a))" using Cons.prems(3) by simp
    then have id: "sl_synth_id ?s \<noteq> []"
      using Cons.prems(1) assms(2) [OF True] by (auto simp: account_ok_def core_ok_def slot_ok_def split: if_splits)
    define b where "b = unpair_synth w (sl_synth_id ?s) ?n"
    have u: "only_unlinks {r} (ap_sh ?n) (ap_sh b)" "ap_at b = ap_at a"
      using unpair_only_unlinks [OF assms(1) okn, of r] r id n by (simp_all add: sl b_def)
    have ua: "only_unlinks {r} (ap_sh a) (ap_sh b)"
      using u(1) n(1) sl okn by (simp add: only_unlinks_def aside_def store_works_def)
    then have okb: "account_ok (ap_sh b)" and sb: "\<And>l. l \<noteq> r \<Longrightarrow> slot_at (ap_sh b) l = slot_at (ap_sh a) l"
      and lb: "sh_links (ap_sh b) = filter (\<lambda>l. l \<notin> {r}) (sh_links (ap_sh a))"
      using Cons.prems(1) by (auto simp: only_unlinks_def)
    obtain names' where w: "unpair_where w goes note rs b = (names', a')" "names = display_name ?s # names'"
      using Cons.prems(4) True by (auto simp: Let_def b_def split: prod.splits)
    have rs: "r \<notin> set rs" using Cons.prems(2) by simp
    have sub: "set rs \<subseteq> set (sh_links (ap_sh b))" using Cons.prems(3) rs lb by auto
    have IH: "only_unlinks {x \<in> set rs. goes (slot_at (ap_sh b) x)} (ap_sh b) (ap_sh a')" "ap_at a' = ap_at b"
      "names' = map (\<lambda>r. display_name (slot_at (ap_sh b) r)) (filter (\<lambda>r. goes (slot_at (ap_sh b) r)) rs)"
      using Cons.IH [OF okb _ sub w(1)] Cons.prems(2) by auto
    have same: "slot_at (ap_sh b) x = slot_at (ap_sh a) x" if "x \<in> set rs" for x using sb that rs by metis
    have "{x \<in> set rs. goes (slot_at (ap_sh b) x)} = {x \<in> set rs. goes (slot_at (ap_sh a) x)}" using same by auto
    moreover have "{x \<in> set (r # rs). goes (slot_at (ap_sh a) x)} = {r} \<union> {x \<in> set rs. goes (slot_at (ap_sh a) x)}"
      using True by auto
    moreover have "names' = map (\<lambda>r. display_name (slot_at (ap_sh a) r)) (filter (\<lambda>r. goes (slot_at (ap_sh a) r)) rs)"
      unfolding IH(3) using same by (induction rs) auto
    ultimately show ?thesis
      using only_unlinks_trans [OF ua IH(1)] IH(2) u(2) w(2) True by simp
  qed
qed

section \<open>Links that come\<close>

text \<open>Adopting: the cells of the listed synths become the account's, every other stays.\<close>

definition only_adopts :: "utext set \<Rightarrow> shared \<Rightarrow> shared \<Rightarrow> bool" where
  "only_adopts ids sh sh' \<longleftrightarrow> same_links sh sh' \<and> sh_secret sh' = sh_secret sh \<and>
     p_account (sh_persisted sh') = p_account (sh_persisted sh) \<and>
     (\<forall>r. sl_synth_id (slot_at sh r) \<notin> ids \<longrightarrow> slot_at sh' r = slot_at sh r) \<and>
     (\<forall>r. account_link (slot_at sh r) \<longrightarrow> account_link (slot_at sh' r))"

lemma only_adopts_refl: "only_adopts ids sh sh"
  by (simp add: only_adopts_def same_links_def)

lemma only_adopts_trans: "only_adopts A a b \<Longrightarrow> only_adopts B b c \<Longrightarrow> only_adopts (A \<union> B) a c"
  unfolding only_adopts_def using same_links_trans [of a b c] by (auto simp: same_links_def)

lemma adopt_identity_ids: "adopt_identity i s is = Some js \<Longrightarrow> map id_synth_id js = map id_synth_id is"
  by (induction "is" arbitrary: js) (auto split: if_splits)

lemma adopt_only: "only_adopts {sl_synth_id (slot_at sh r)} sh (adopt s r sh)"
proof -
  have "map id_synth_id ids = map id_synth_id (p_identities (sh_persisted sh))"
    if "adopt_identity (sl_synth_id (slot_at sh r)) s (p_identities (sh_persisted sh)) = Some ids" for ids
    using adopt_identity_ids [OF that] .
  then show ?thesis
    by (auto simp: adopt_def Let_def only_adopts_def same_links_def slot_at_upd account_link_def split: option.split)
qed

lemma adopt_takes: "r < length (sh_slots sh) \<Longrightarrow> account_link (slot_at (adopt s r sh) r)"
  by (auto simp: adopt_def Let_def slot_at_upd account_link_def split: option.split)

lemma adopt_listed_only: "only_adopts {as_synth_id s} sh (adopt_listed s sh)"
proof (cases "find_link (as_synth_id s) sh")
  case (Some r)
  with adopt_only [of sh r s] find_link_Some [OF Some] show ?thesis by (simp add: adopt_listed_def)
qed (simp add: adopt_listed_def only_adopts_refl)

lemma adopt_all_only: "only_adopts (as_synth_id ` set ss) sh (fold adopt_listed ss sh)"
proof (induction ss arbitrary: sh)
  case (Cons s ss)
  from only_adopts_trans [OF adopt_listed_only Cons.IH] show ?case by simp
qed (simp add: only_adopts_refl)

lemma account_ok_adopt: "only_adopts ids sh sh' \<Longrightarrow> core_ok sh' = core_ok sh"
  unfolding only_adopts_def using core_ok_same by blast

lemma find_link_same: "same_links sh sh' \<Longrightarrow> find_link i sh' = find_link i sh"
  by (simp add: find_link_def same_links_def)

lemma adopt_all_takes:
  assumes "core_ok sh" "s \<in> set ss" "find_link (as_synth_id s) sh = Some r"
  shows "account_link (slot_at (fold adopt_listed ss sh) r)"
  using assms
proof (induction ss arbitrary: sh)
  case (Cons x ss)
  have o: "only_adopts {as_synth_id x} sh (adopt_listed x sh)" by (rule adopt_listed_only)
  then have ok: "core_ok (adopt_listed x sh)" and f: "find_link (as_synth_id s) (adopt_listed x sh) = Some r"
    using Cons.prems account_ok_adopt [OF o] find_link_same [of sh "adopt_listed x sh" "as_synth_id s"]
    by (simp_all add: only_adopts_def)
  show ?case
  proof (cases "s \<in> set ss")
    case True
    with Cons.IH [OF ok True f] show ?thesis by simp
  next
    case False
    with Cons.prems have x: "x = s" by simp
    have "r < length (sh_slots sh)" using Cons.prems(1) find_link_Some [OF Cons.prems(3)] by (simp add: core_ok_def)
    then have "account_link (slot_at (adopt_listed x sh) r)" using Cons.prems(3) adopt_takes by (simp add: x adopt_listed_def)
    moreover have "only_adopts (as_synth_id ` set ss) (adopt_listed x sh) (fold adopt_listed ss (adopt_listed x sh))"
      by (rule adopt_all_only)
    ultimately show ?thesis by (simp add: only_adopts_def)
  qed
qed simp

text \<open>Linking: every link there was stays, and what is new is of the account and of a synth that was asked for.\<close>

definition only_links :: "utext set \<Rightarrow> shared \<Rightarrow> shared \<Rightarrow> bool" where
  "only_links ids sh sh' \<longleftrightarrow>
     (\<exists>ns. sh_links sh' = sh_links sh @ ns \<and>
        (\<forall>r \<in> set ns. account_link (slot_at sh' r) \<and> sl_synth_id (slot_at sh' r) \<in> ids \<and> \<not> sl_adhoc (slot_at sh' r) \<and>
           length (sh_slots sh) \<le> r \<and> r < length (sh_slots sh'))) \<and>
     (\<forall>r < length (sh_slots sh). slot_at sh' r = slot_at sh r) \<and> length (sh_slots sh) \<le> length (sh_slots sh') \<and>
     p_account (sh_persisted sh') = p_account (sh_persisted sh) \<and>
     fs_get (sh_secret sh') ACCOUNT_TOKEN_KEY = fs_get (sh_secret sh) ACCOUNT_TOKEN_KEY \<and>
     (account_ok sh \<longrightarrow> account_ok sh') \<and> (store_works sh \<longrightarrow> store_works sh')"

lemma only_links_refl: "only_links ids sh sh"
  by (simp add: only_links_def)

lemma only_links_trans: "only_links A a b \<Longrightarrow> only_links B b c \<Longrightarrow> only_links (A \<union> B) a c"
proof -
  assume 1: "only_links A a b" and 2: "only_links B b c"
  obtain ns where ns: "sh_links b = sh_links a @ ns" "\<forall>r \<in> set ns. account_link (slot_at b r) \<and> sl_synth_id (slot_at b r) \<in> A \<and>
      \<not> sl_adhoc (slot_at b r) \<and> length (sh_slots a) \<le> r \<and> r < length (sh_slots b)"
    using 1 by (auto simp: only_links_def)
  obtain ms where ms: "sh_links c = sh_links b @ ms" "\<forall>r \<in> set ms. account_link (slot_at c r) \<and> sl_synth_id (slot_at c r) \<in> B \<and>
      \<not> sl_adhoc (slot_at c r) \<and> length (sh_slots b) \<le> r \<and> r < length (sh_slots c)"
    using 2 by (auto simp: only_links_def)
  have le: "length (sh_slots a) \<le> length (sh_slots b)" "length (sh_slots b) \<le> length (sh_slots c)"
    and same: "\<And>r. r < length (sh_slots b) \<Longrightarrow> slot_at c r = slot_at b r"
    using 1 2 by (auto simp: only_links_def)
  have "\<forall>r \<in> set (ns @ ms). account_link (slot_at c r) \<and> sl_synth_id (slot_at c r) \<in> A \<union> B \<and> \<not> sl_adhoc (slot_at c r) \<and>
      length (sh_slots a) \<le> r \<and> r < length (sh_slots c)"
    using ns(2) ms(2) le same by fastforce
  moreover have "sh_links c = sh_links a @ ns @ ms" using ns(1) ms(1) by simp
  moreover have "\<forall>r < length (sh_slots a). slot_at c r = slot_at a r" using 1 le same by (simp add: only_links_def)
  moreover have "length (sh_slots a) \<le> length (sh_slots c)" using le by simp
  ultimately show ?thesis using 1 2 unfolding only_links_def by auto
qed

lemma only_links_mono: "only_links A a b \<Longrightarrow> A \<subseteq> B \<Longrightarrow> only_links B a b"
  unfolding only_links_def by blast

lemma only_links_aside: "aside a b \<Longrightarrow> only_links ids (ap_sh a) (ap_sh b)"
  using aside_facts(3) [of a b] aside_slot_at [of a b]
  by (simp add: only_links_def aside_def store_works_def)

definition faithful :: "platform_world \<Rightarrow> bool" where
  \<comment> \<open>the platform mints a token for the synth it was asked for\<close>
  "faithful w \<longleftrightarrow> (\<forall>b t h s m. pw_connect w b t h s = Ok (Ok m) \<longrightarrow> mi_synth_id m = [] \<or> mi_synth_id m = s)"

lemma add_new_parts:
  "sh_links (add_new p sh) = sh_links sh @ [length (sh_slots sh)]"
  "length (sh_slots (add_new p sh)) = length (sh_slots sh) + 1"
  "sh_secret (add_new p sh) = sh_secret sh" "sh_persisted (add_new p sh) = sh_persisted sh"
  "r < length (sh_slots sh) \<Longrightarrow> slot_at (add_new p sh) r = slot_at sh r"
  "sl_synth_id (slot_at (add_new p sh) (length (sh_slots sh))) = pn_synth_id p"
  "sl_source (slot_at (add_new p sh) (length (sh_slots sh))) = pn_source p"
  "sl_adhoc (slot_at (add_new p sh) (length (sh_slots sh))) = False"
  by (simp_all add: add_new_def Let_def case_prod_unfold slot_at_set_state slot_at_push from_identity_def new_slot_def
      pending_identity_def)

lemma with_identity_account [simp]: "p_account (sh_persisted (with_identity p sh)) = p_account (sh_persisted sh)"
  by (simp add: with_identity_def)

lemma add_link_new:
  assumes add: "add_link p sh = (res, sh')" and none: "find_link (pn_synth_id p) sh = None" and src: "pn_source p = SrcAccount"
  shows "only_links {pn_synth_id p} sh sh' \<and> (is_ok res \<longrightarrow> find_link (pn_synth_id p) sh' \<noteq> None) \<and>
    (store_works sh \<and> pn_synth_id p \<noteq> [] \<longrightarrow> is_ok res)"
proof (cases res)
  case (Inl e)
  have ok: "core_ok sh \<longrightarrow> core_ok sh'" using core_ok_add [of sh p] add by simp
  show ?thesis
  proof (cases "pn_synth_id p = []")
    case True
    with add Inl show ?thesis by (auto simp: add_link_def only_links_refl is_ok_def)
  next
    case False
    then obtain x sec where s: "fs_set (sh_secret sh) (token_key (pn_synth_id p)) (pn_token p) = (Err x, sec)" "sh' = sh\<lparr>sh_secret := sec\<rparr>"
      using add Inl by (auto simp: add_link_def Let_def split: prod.splits sum.splits)
    have no: "\<not> store_works sh"
      using fs_set_works [of "sh_secret sh" "token_key (pn_synth_id p)" "pn_token p"] s(1) by (auto simp: store_works_def)
    have "fs_get sec ACCOUNT_TOKEN_KEY = fs_get (sh_secret sh) ACCOUNT_TOKEN_KEY" using fs_set_other [OF s(1)] by simp
    with ok no s(2) Inl show ?thesis by (auto simp: only_links_def account_ok_def is_ok_def)
  qed
next
  case (Inr b)
  from add_link_ok [OF add [unfolded Inr]] none obtain sec where
    s: "fs_set (sh_secret sh) (token_key (pn_synth_id p)) (pn_token p) = (Ok (), sec)" and
    sh': "sh' = browsers_synth_added (emit (EvPaired (pn_synth_id p)) (add_new p (with_identity p (sh\<lparr>sh_secret := sec\<rparr>))))"
    by auto
  have len: "length (sh_slots sh') = length (sh_slots sh) + 1" and links: "sh_links sh' = sh_links sh @ [length (sh_slots sh)]"
    and sec: "sh_secret sh' = sec"
    by (simp_all add: sh' add_new_parts)
  have old: "slot_at sh' r = slot_at sh r" if "r < length (sh_slots sh)" for r
    using that by (simp add: sh' add_new_parts)
  have new: "sl_synth_id (slot_at sh' (length (sh_slots sh))) = pn_synth_id p" "account_link (slot_at sh' (length (sh_slots sh)))"
    "\<not> sl_adhoc (slot_at sh' (length (sh_slots sh)))"
    using add_new_parts(6-8) [of p "with_identity p (sh\<lparr>sh_secret := sec\<rparr>)"] src by (simp_all add: sh' account_link_def)
  have "account_ok sh \<longrightarrow> account_ok sh'"
  proof
    assume ok: "account_ok sh"
    then have "\<forall>r \<in> set (sh_links sh). r < length (sh_slots sh)" by (simp add: account_ok_def core_ok_def)
    with ok core_ok_add [of sh p] add new old links show "account_ok sh'" by (auto simp: account_ok_def)
  qed
  moreover have "store_works sh \<longrightarrow> store_works sh'"
    using fs_set_works [of "sh_secret sh" "token_key (pn_synth_id p)" "pn_token p"] s by (auto simp: store_works_def sec)
  moreover have "fs_get (sh_secret sh') ACCOUNT_TOKEN_KEY = fs_get (sh_secret sh) ACCOUNT_TOKEN_KEY"
    using fs_set_other [OF s] by (simp add: sec)
  ultimately have "only_links {pn_synth_id p} sh sh'"
    using len links old new by (simp add: only_links_def) (simp add: sh' add_new_parts)
  moreover have "find_link (pn_synth_id p) sh' \<noteq> None"
    using new(1) links find_link_None [of "pn_synth_id p" sh' "length (sh_slots sh)"] by auto
  ultimately show ?thesis by (simp add: Inr is_ok_def)
qed

lemma connect_one_links:
  assumes "quiet w" "faithful w" "find_link (as_synth_id s) (ap_sh a) = None" "connect_one w s a = (res, a')"
  shows "only_links {as_synth_id s} (ap_sh a) (ap_sh a') \<and> at_base (ap_at a') = at_base (ap_at a) \<and>
    at_synths (ap_at a') = at_synths (ap_at a) \<and> at_login (ap_at a') = at_login (ap_at a) \<and>
    (store_works (ap_sh a) \<and> as_synth_id s \<noteq> [] \<and> account_token a = Some token \<and> at_base (ap_at a) = Some base \<and>
       (\<exists>m. pw_connect w base token (as_hub_id s) (as_synth_id s) = Ok (Ok m)) \<longrightarrow>
       find_link (as_synth_id s) (ap_sh a') \<noteq> None)"
proof (cases "\<exists>b t m. at_base (ap_at a) = Some b \<and> account_token a = Some t \<and> pw_connect w b t (as_hub_id s) (as_synth_id s) = Ok (Ok m)")
  case False
  then have "aside a a' \<and> at_synths (ap_at a') = at_synths (ap_at a) \<and> at_login (ap_at a') = at_login (ap_at a)"
    using assms(1,4)
    by (auto simp: connect_one_def connect_refused_def Let_def aside_def app_note_def split: option.splits sum.splits)
  with False show ?thesis using only_links_aside by (auto simp: aside_def)
next
  case True
  then obtain b t m where m: "at_base (ap_at a) = Some b" "account_token a = Some t"
      "pw_connect w b t (as_hub_id s) (as_synth_id s) = Ok (Ok m)" by blast
  then have id: "pn_synth_id (minted_pending s m) = as_synth_id s"
    using assms(2) m(3) unfolding faithful_def minted_pending_def by fastforce
  obtain r sh' where add: "add_link (minted_pending s m) (ap_sh a) = (r, sh')" by fastforce
  have c: "connect_taken w s m a = (res, a')" using assms(1,4) m by (simp add: connect_one_def)
  have src: "pn_source (minted_pending s m) = SrcAccount" by (simp add: minted_pending_def)
  note l = add_link_new [OF add _ src, unfolded id, OF assms(3)]
  have sh: "sh_links (ap_sh a') = sh_links sh'" "sh_slots (ap_sh a') = sh_slots sh'" "sh_secret (ap_sh a') = sh_secret sh'"
      "sh_persisted (ap_sh a') = sh_persisted sh'" and at: "at_base (ap_at a') = at_base (ap_at a)"
      "at_synths (ap_at a') = at_synths (ap_at a)" "at_login (ap_at a') = at_login (ap_at a)"
    using c add by (auto simp: connect_taken_def Let_def app_note_def split: sum.splits)
  have sl: "slot_at (ap_sh a') = slot_at sh'" using sh(2) by (simp add: slot_at_def fun_eq_iff)
  then have "only_links {as_synth_id s} (ap_sh a) (ap_sh a') = only_links {as_synth_id s} (ap_sh a) sh'"
    "find_link (as_synth_id s) (ap_sh a') = find_link (as_synth_id s) sh'"
    using sh by (simp_all add: only_links_def account_ok_def core_ok_def store_works_def find_link_def)
  with l at show ?thesis by simp
qed

lemma only_links_find:
  assumes "core_ok sh" "only_links ids sh sh'"
  shows "find_link i sh = Some r \<Longrightarrow> find_link i sh' = Some r"
    and "find_link i sh = None \<Longrightarrow> i \<notin> ids \<Longrightarrow> find_link i sh' = None"
proof -
  obtain ns where ns: "sh_links sh' = sh_links sh @ ns" "\<forall>r \<in> set ns. sl_synth_id (slot_at sh' r) \<in> ids"
    using assms(2) by (auto simp: only_links_def)
  have same: "slot_at sh' r = slot_at sh r" if "r \<in> set (sh_links sh)" for r
    using assms that by (auto simp: only_links_def core_ok_def)
  have old: "find (\<lambda>r. sl_synth_id (slot_at sh' r) = i) (sh_links sh) = find_link i sh"
    unfolding find_link_def by (rule find_cong) (simp_all add: same)
  show "find_link i sh = Some r \<Longrightarrow> find_link i sh' = Some r"
    using old by (simp add: find_link_def [of i sh'] ns(1) find_append)
  show "find_link i sh' = None" if "find_link i sh = None" "i \<notin> ids"
  proof -
    have "find (\<lambda>r. sl_synth_id (slot_at sh' r) = i) ns = None" using ns(2) that(2) by (auto simp: find_None_iff)
    with old that(1) show ?thesis by (simp add: find_link_def [of i sh'] ns(1) find_append)
  qed
qed

lemma account_token_links: "only_links ids (ap_sh a) (ap_sh a') \<Longrightarrow> account_token a' = account_token a"
  by (simp add: only_links_def account_token_def)

lemma connect_where_links:
  assumes "quiet w" "faithful w"
  shows "core_ok (ap_sh a) \<Longrightarrow> account_ok (ap_sh a) \<Longrightarrow> connect_where w (unlinked_unskipped skipped) ss rep a = (rep', a') \<Longrightarrow>
    only_links (as_synth_id ` set ss - set skipped) (ap_sh a) (ap_sh a') \<and> at_base (ap_at a') = at_base (ap_at a) \<and>
    at_login (ap_at a') = at_login (ap_at a) \<and>
    (\<forall>s \<in> set ss. store_works (ap_sh a) \<and> as_synth_id s \<noteq> [] \<and> as_synth_id s \<notin> set skipped \<and>
       account_token a = Some token \<and> at_base (ap_at a) = Some base \<and>
       (\<exists>m. pw_connect w base token (as_hub_id s) (as_synth_id s) = Ok (Ok m)) \<longrightarrow>
       find_link (as_synth_id s) (ap_sh a') \<noteq> None)"
proof (induction ss arbitrary: rep a)
  case Nil
  then show ?case by (simp add: only_links_refl)
next
  case (Cons s ss)
  let ?i = "as_synth_id s"
  show ?case
  proof (cases "unlinked_unskipped skipped s a")
    case False
    with Cons.prems(3) have c: "connect_where w (unlinked_unskipped skipped) ss rep a = (rep', a')" by simp
    note IH = Cons.IH [OF Cons.prems(1,2) c]
    then have o: "only_links (as_synth_id ` set ss - set skipped) (ap_sh a) (ap_sh a')" by blast
    have "find_link ?i (ap_sh a') \<noteq> None" if "?i \<notin> set skipped"
      using False that only_links_find(1) [OF Cons.prems(1) o] by (auto simp: unlinked_unskipped_def)
    moreover have "only_links (as_synth_id ` set (s # ss) - set skipped) (ap_sh a) (ap_sh a')"
      by (rule only_links_mono [OF o]) auto
    ultimately show ?thesis using IH by auto
  next
    case True
    then have none: "find_link ?i (ap_sh a) = None" and nsk: "?i \<notin> set skipped" by (auto simp: unlinked_unskipped_def)
    obtain res b where c: "connect_one w s a = (res, b)" by fastforce
    note one = connect_one_links [OF assms none c]
    then have o1: "only_links {?i} (ap_sh a) (ap_sh b)" and base: "at_base (ap_at b) = at_base (ap_at a)"
      and tok: "account_token b = account_token a" and lg: "at_login (ap_at b) = at_login (ap_at a)"
      using account_token_links by blast+
    have okb: "account_ok (ap_sh b)" and sw: "store_works (ap_sh a) \<Longrightarrow> store_works (ap_sh b)"
      using o1 Cons.prems(2) by (auto simp: only_links_def)
    obtain rep1 where r: "connect_where w (unlinked_unskipped skipped) ss rep1 b = (rep', a')"
      using Cons.prems(3) True c by (auto split: sum.splits)
    have cb: "core_ok (ap_sh b)" using okb by (simp add: account_ok_def)
    note IH = Cons.IH [OF cb okb r]
    then have o2: "only_links (as_synth_id ` set ss - set skipped) (ap_sh b) (ap_sh a')" by blast
    have "only_links (as_synth_id ` set (s # ss) - set skipped) (ap_sh a) (ap_sh a')"
      by (rule only_links_mono [OF only_links_trans [OF o1 o2]]) (use nsk in auto)
    moreover have "find_link (as_synth_id x) (ap_sh a') \<noteq> None"
      if x: "x \<in> set (s # ss)" and h: "store_works (ap_sh a) \<and> as_synth_id x \<noteq> [] \<and> as_synth_id x \<notin> set skipped \<and>
         account_token a = Some token \<and> at_base (ap_at a) = Some base \<and>
         (\<exists>m. pw_connect w base token (as_hub_id x) (as_synth_id x) = Ok (Ok m))" for x
    proof (cases "x \<in> set ss")
      case True
      with IH h tok base sw show ?thesis by simp
    next
      case False
      with x have "x = s" by simp
      with one [of token base] h have "find_link ?i (ap_sh b) \<noteq> None" by blast
      then show ?thesis using only_links_find(1) [OF cb o2] \<open>x = s\<close> by auto
    qed
    ultimately show ?thesis using IH base lg by simp
  qed
qed

lemma update_account_parts [simp]:
  "ap_at (update_account f a) = ap_at a" "sh_links (ap_sh (update_account f a)) = sh_links (ap_sh a)"
  "sh_slots (ap_sh (update_account f a)) = sh_slots (ap_sh a)" "sh_secret (ap_sh (update_account f a)) = sh_secret (ap_sh a)"
  "p_identities (sh_persisted (ap_sh (update_account f a))) = p_identities (sh_persisted (ap_sh a))"
  "slot_at (ap_sh (update_account f a)) = slot_at (ap_sh a)"
  "stored_account_of (update_account f a) = f (stored_account_of a)"
  by (auto simp: update_account_def Let_def on_shared_def stored_account_of_def slot_at_def fun_eq_iff set_persisted_def save_locked_def)

lemma stored_account_on_account [simp]: "stored_account_of (on_account f a) = stored_account_of a"
  by (simp add: stored_account_of_def)

lemma account_ok_cong:
  assumes "sh_links sh' = sh_links sh" "sh_slots sh' = sh_slots sh" "p_identities (sh_persisted sh') = p_identities (sh_persisted sh)"
  shows "account_ok sh' = account_ok sh"
proof -
  have "slot_at sh' = slot_at sh" by (simp add: slot_at_def assms(2) fun_eq_iff)
  then show ?thesis using assms by (simp add: account_ok_def core_ok_def slot_ok_def)
qed

lemma usable_id: "s \<in> set (usable_synths m) \<Longrightarrow> as_synth_id s \<noteq> []"
  by (simp add: usable_synths_def)

definition in_step :: "account_synth list \<Rightarrow> shared \<Rightarrow> bool" where
  \<comment> \<open>a link of the account that the account is known to have is listed, and every listed link is the account's\<close>
  "in_step synths sh \<longleftrightarrow> (\<forall>s \<in> set (link_slots sh).
      (account_link s \<and> sl_hub_id s \<noteq> [] \<longrightarrow> sl_synth_id s \<in> as_synth_id ` set synths) \<and>
      (sl_synth_id s \<in> as_synth_id ` set synths \<longrightarrow> account_link s))"

lemma adopted_in_step:
  assumes ok: "account_ok sh" and ids: "\<forall>s \<in> set ss. as_synth_id s \<noteq> []"
    and none: "\<forall>r \<in> set (sh_links sh). \<not> left_account ss (slot_at sh r)"
  shows "account_ok (fold adopt_listed ss sh) \<and> in_step ss (fold adopt_listed ss sh)"
proof -
  let ?sh' = "fold adopt_listed ss sh" and ?ids = "as_synth_id ` set ss"
  have o: "only_adopts ?ids sh ?sh'" by (rule adopt_all_only)
  then have links: "sh_links ?sh' = sh_links sh" and id: "\<And>r. sl_synth_id (slot_at ?sh' r) = sl_synth_id (slot_at sh r)"
    and adhoc: "\<And>r. sl_adhoc (slot_at ?sh' r) = sl_adhoc (slot_at sh r)"
    and other: "\<And>r. sl_synth_id (slot_at sh r) \<notin> ?ids \<Longrightarrow> slot_at ?sh' r = slot_at sh r"
    by (auto simp: only_adopts_def same_links_def)
  have core: "core_ok ?sh'" using account_ok_adopt [OF o] ok by (simp add: account_ok_def)
  have taken: "account_link (slot_at ?sh' r)" if r: "r \<in> set (sh_links sh)" and i: "sl_synth_id (slot_at sh r) \<in> ?ids" for r
  proof -
    obtain s where s: "s \<in> set ss" "as_synth_id s = sl_synth_id (slot_at sh r)" using i by auto
    have "sl_synth_id (slot_at sh r) \<noteq> []" using s ids by metis
    then have "find_link (as_synth_id s) sh = Some r"
      using find_link_own [of sh r] ok r s(2) by (simp add: account_ok_def)
    with adopt_all_takes [OF _ s(1)] ok show ?thesis by (simp add: account_ok_def)
  qed
  have "\<not> sl_adhoc (slot_at ?sh' r)" if "r \<in> set (sh_links sh)" "account_link (slot_at ?sh' r)" for r
  proof (cases "sl_synth_id (slot_at sh r) \<in> ?ids")
    case True
    then have "sl_synth_id (slot_at sh r) \<noteq> []" using ids by auto
    with ok that(1) show ?thesis by (auto simp: adhoc account_ok_def core_ok_def slot_ok_def split: if_splits)
  next
    case False
    with that ok other show ?thesis by (simp add: account_ok_def)
  qed
  then have "account_ok ?sh'" using core by (simp add: account_ok_def links)
  moreover have "in_step ss ?sh'"
    using none other taken by (fastforce simp: in_step_def link_slots_def links id left_account_def account_link_def)
  ultimately show ?thesis by blast
qed

definition keeps_own :: "account_synth list \<Rightarrow> shared \<Rightarrow> shared \<Rightarrow> bool" where
  \<comment> \<open>the links of the owner's own that the account does not list stay as they were\<close>
  "keeps_own synths sh sh' \<longleftrightarrow> (\<forall>r \<in> set (sh_links sh).
      \<not> account_link (slot_at sh r) \<and> sl_synth_id (slot_at sh r) \<notin> as_synth_id ` set synths \<longrightarrow>
      r \<in> set (sh_links sh') \<and> slot_at sh' r = slot_at sh r)"

lemma sync_links_ok:
  assumes w: "quiet w" "faithful w" and ok: "account_ok (ap_sh a)" and ids: "\<forall>s \<in> set ss. as_synth_id s \<noteq> []"
    and acc: "stored_account_of a = Some acc" and run: "sync_links w ss a = (rep, a')"
  shows "account_ok (ap_sh a') \<and> in_step ss (ap_sh a') \<and> keeps_own ss (ap_sh a) (ap_sh a') \<and>
    (\<forall>s \<in> set ss. store_works (ap_sh a) \<and> ac_consented acc \<and> as_synth_id s \<notin> set (ac_skipped acc) \<and>
       account_token a = Some token \<and> at_base (ap_at a) = Some base \<and>
       (\<exists>x. pw_connect w base token (as_hub_id s) (as_synth_id s) = Ok (Ok x)) \<longrightarrow>
       find_link (as_synth_id s) (ap_sh a') \<noteq> None) \<and>
    (\<forall>i. (\<not> ac_consented acc \<or> i \<in> set (ac_skipped acc)) \<and> find_link i (ap_sh a) = None \<longrightarrow> find_link i (ap_sh a') = None)"
proof -
  let ?note = "\<lambda>synth. app_note w ''account.sync'' synth (lit ''unlinked: the synth left the account'')"
  obtain gone b where u: "unpair_where w (left_account ss) ?note (sh_links (ap_sh a)) a = (gone, b)" by fastforce
  have d: "distinct (sh_links (ap_sh a))" and lt: "\<forall>r \<in> set (sh_links (ap_sh a)). r < length (sh_slots (ap_sh a))"
    using ok by (auto simp: account_ok_def core_ok_def)
  let ?G = "{r \<in> set (sh_links (ap_sh a)). left_account ss (slot_at (ap_sh a) r)}"
  have "aside c (?note i c) \<and> ap_at (?note i c) = ap_at c" for i c by (simp add: app_note_def aside_def)
  from unpair_where_only_unlinks [OF w(1) _ this ok d _ u]
  have o: "only_unlinks ?G (ap_sh a) (ap_sh b)" and atb: "ap_at b = ap_at a"
    by (auto simp: left_account_def account_link_def)
  have okb: "account_ok (ap_sh b)" and lb: "sh_links (ap_sh b) = filter (\<lambda>l. l \<notin> ?G) (sh_links (ap_sh a))"
    and sb: "\<And>l. l \<notin> ?G \<Longrightarrow> slot_at (ap_sh b) l = slot_at (ap_sh a) l" and lenb: "length (sh_slots (ap_sh b)) = length (sh_slots (ap_sh a))"
    and accb: "p_account (sh_persisted (ap_sh b)) = Some acc" and swb: "store_works (ap_sh a) \<Longrightarrow> store_works (ap_sh b)"
    using o ok acc by (auto simp: only_unlinks_def stored_account_of_def)
  have tokb: "account_token b = account_token a"
  proof -
    have "sl_token_key (slot_at (ap_sh a) l) \<noteq> ACCOUNT_TOKEN_KEY" if "l \<in> ?G" for l
      using ok that by (auto simp: account_ok_def core_ok_def slot_ok_def left_account_def account_link_def)
    then have "\<forall>l \<in> ?G. ACCOUNT_TOKEN_KEY \<noteq> sl_token_key (slot_at (ap_sh a) l)" by metis
    moreover have "\<And>k. k \<noteq> TOKEN_KEY \<and> (\<forall>l \<in> ?G. k \<noteq> sl_token_key (slot_at (ap_sh a) l)) \<Longrightarrow>
        fs_get (sh_secret (ap_sh b)) k = fs_get (sh_secret (ap_sh a)) k"
      using o unfolding only_unlinks_def by blast
    ultimately have "fs_get (sh_secret (ap_sh b)) ACCOUNT_TOKEN_KEY = fs_get (sh_secret (ap_sh a)) ACCOUNT_TOKEN_KEY" by simp
    then show ?thesis by (simp add: account_token_def)
  qed
  let ?c = "on_shared (fold adopt_listed ss) b"
  have no: "\<forall>r \<in> set (sh_links (ap_sh b)). \<not> left_account ss (slot_at (ap_sh b) r)"
    using sb lb by auto
  note ad = adopted_in_step [OF okb ids no]
  have oc: "only_adopts (as_synth_id ` set ss) (ap_sh b) (ap_sh ?c)" by (simp add: adopt_all_only)
  have accc: "stored_account_of ?c = Some acc" and tokc: "account_token ?c = account_token a"
    and linksc: "sh_links (ap_sh ?c) = sh_links (ap_sh b)" and lenc: "length (sh_slots (ap_sh ?c)) = length (sh_slots (ap_sh a))"
    and swc: "store_works (ap_sh a) \<Longrightarrow> store_works (ap_sh ?c)"
    using oc accb tokb swb lenb by (auto simp: only_adopts_def same_links_def stored_account_of_def account_token_def store_works_def)
  have own: "keeps_own ss (ap_sh a) (ap_sh ?c)"
    unfolding keeps_own_def
  proof (intro ballI impI)
    fix r assume r: "r \<in> set (sh_links (ap_sh a))"
      "\<not> account_link (slot_at (ap_sh a) r) \<and> sl_synth_id (slot_at (ap_sh a) r) \<notin> as_synth_id ` set ss"
    then have g: "r \<notin> ?G" by (auto simp: left_account_def account_link_def)
    then have "slot_at (ap_sh ?c) r = slot_at (ap_sh a) r" using r(2) sb [OF g] oc by (simp add: only_adopts_def)
    moreover have "r \<in> set (sh_links (ap_sh ?c))" using r(1) g linksc lb by simp
    ultimately show "r \<in> set (sh_links (ap_sh ?c)) \<and> slot_at (ap_sh ?c) r = slot_at (ap_sh a) r" by blast
  qed
  have none: "find_link i (ap_sh ?c) = None" if "find_link i (ap_sh a) = None" for i
  proof -
    have "find_link i (ap_sh b) = None"
      using that o by (auto simp: find_link_def find_None_iff only_unlinks_def)
    then show ?thesis using find_link_same [of "ap_sh b" "ap_sh ?c" i] oc by (simp add: only_adopts_def)
  qed
  show ?thesis
  proof (cases "ac_consented acc")
    case False
    then have "a' = ?c" using run u accc by (simp add: sync_links_def Let_def)
    with False ad own none show ?thesis by simp
  next
    case True
    then have c: "connect_where w (unlinked_unskipped (ac_skipped acc)) ss (no_report\<lparr>sr_removed := gone\<rparr>) ?c = (rep, a')"
      using run u accc by (simp add: sync_links_def Let_def)
    have cc: "core_ok (ap_sh ?c)" "account_ok (ap_sh ?c)" using ad by (simp_all add: account_ok_def)
    note cw = connect_where_links [OF w cc c]
    then have ol: "only_links (as_synth_id ` set ss - set (ac_skipped acc)) (ap_sh ?c) (ap_sh a')" by blast
    then have oka: "account_ok (ap_sh a')" using cc by (simp add: only_links_def)
    obtain ns where ns: "sh_links (ap_sh a') = sh_links (ap_sh ?c) @ ns"
        "\<forall>r \<in> set ns. account_link (slot_at (ap_sh a') r) \<and> sl_synth_id (slot_at (ap_sh a') r) \<in> as_synth_id ` set ss"
      using ol by (auto simp: only_links_def)
    have old: "slot_at (ap_sh a') r = slot_at (ap_sh ?c) r" if "r \<in> set (sh_links (ap_sh ?c))" for r
      using ol cc(1) that by (auto simp: only_links_def core_ok_def)
    have "in_step ss (ap_sh a')" using ad ns old by (auto simp: in_step_def link_slots_def)
    moreover have "keeps_own ss (ap_sh a) (ap_sh a')" using own old ns(1) by (auto simp: keeps_own_def)
    moreover have "find_link i (ap_sh a') = None" if "i \<in> set (ac_skipped acc)" "find_link i (ap_sh a) = None" for i
      using only_links_find(2) [OF cc(1) ol none [OF that(2)]] that(1) by simp
    ultimately show ?thesis using oka cw [of token base] True swc tokc atb ids by simp
  qed
qed

section \<open>Properties\<close>

lemma sync_read_ok:
  assumes w: "quiet w" "faithful w" and ok: "account_ok (ap_sh a)" and acc: "stored_account_of a = Some acc"
    and run: "sync_read w m a = (rep, a')"
  shows "account_ok (ap_sh a') \<and> in_step (usable_synths m) (ap_sh a') \<and> keeps_own (usable_synths m) (ap_sh a) (ap_sh a') \<and>
    (\<forall>s \<in> set (usable_synths m). store_works (ap_sh a) \<and> ac_consented acc \<and> as_synth_id s \<notin> set (ac_skipped acc) \<and>
       account_token a = Some token \<and> at_base (ap_at a) = Some base \<and>
       (\<exists>x. pw_connect w base token (as_hub_id s) (as_synth_id s) = Ok (Ok x)) \<longrightarrow>
       find_link (as_synth_id s) (ap_sh a') \<noteq> None) \<and>
    (\<forall>i. (\<not> ac_consented acc \<or> i \<in> set (ac_skipped acc)) \<and> find_link i (ap_sh a) = None \<longrightarrow> find_link i (ap_sh a') = None)"
proof -
  define b where "b = on_account (\<lambda>t. t\<lparr>at_synths := Some (usable_synths m)\<rparr>)
     (update_account (sync_account m) (on_account (\<lambda>t. t\<lparr>at_sync_error := None, at_last_sync := Some (pw_wall w)\<rparr>) a))"
  obtain rep1 c where c: "sync_links w (usable_synths m) b = (rep1, c)" by fastforce
  have a': "a' = tell_account c" using run c by (simp add: sync_read_def Let_def b_def)
  have sh: "sh_links (ap_sh b) = sh_links (ap_sh a)" "slot_at (ap_sh b) = slot_at (ap_sh a)" "sh_secret (ap_sh b) = sh_secret (ap_sh a)"
    "at_base (ap_at b) = at_base (ap_at a)" "account_token b = account_token a"
    by (simp_all add: b_def account_token_def)
  have okb: "account_ok (ap_sh b)" using ok account_ok_cong [of "ap_sh b" "ap_sh a"] by (simp add: b_def)
  obtain acc' where acc': "stored_account_of b = Some acc'" "ac_consented acc' = ac_consented acc" "ac_skipped acc' = ac_skipped acc"
    using acc by (simp add: b_def sync_account_def)
  have fl: "find_link i (ap_sh b) = find_link i (ap_sh a)" for i by (simp add: find_link_def sh)
  have "aside c a'" by (simp add: a')
  note out = aside_facts [OF this] aside_slot_at [OF this]
  have "in_step ss (ap_sh a') = in_step ss (ap_sh c)" "keeps_own ss x (ap_sh a') = keeps_own ss x (ap_sh c)" for ss x
    using out(6) by (simp_all add: in_step_def keeps_own_def link_slots_def a' tell_account_def)
  moreover have "keeps_own (usable_synths m) (ap_sh b) x = keeps_own (usable_synths m) (ap_sh a) x"
    "store_works (ap_sh b) = store_works (ap_sh a)" for x
    by (simp_all add: keeps_own_def store_works_def sh)
  ultimately show ?thesis
    using sync_links_ok [OF w okb _ acc'(1) c, of token base] usable_id out(3,5) acc'(2,3) sh fl by simp
qed


lemma forget_account_parts:
  "sh_links (ap_sh (forget_account a)) = sh_links (ap_sh a)" "slot_at (ap_sh (forget_account a)) = slot_at (ap_sh a)"
  "sh_secret (ap_sh (forget_account a)) = snd (fs_delete (sh_secret (ap_sh a)) ACCOUNT_TOKEN_KEY)"
  "stored_account_of (forget_account a) = None" "at_login (ap_at (forget_account a)) = None"
  by (simp_all add: forget_account_def slot_at_def fun_eq_iff)

lemma account_ok_forget: "account_ok (ap_sh a) \<Longrightarrow> account_ok (ap_sh (forget_account a))"
  using account_ok_cong [of "ap_sh (forget_account a)" "ap_sh a"] by (simp add: forget_account_def)

lemma sign_out_local_ok:
  assumes w: "quiet w" and ok: "account_ok (ap_sh a)" and run: "sign_out_local w a = (names, a')"
  shows "stored_account_of a' = None \<and> at_login (ap_at a') = None \<and>
    sh_links (ap_sh a') = filter (\<lambda>r. \<not> account_link (slot_at (ap_sh a) r)) (sh_links (ap_sh a)) \<and>
    (\<forall>r \<in> set (sh_links (ap_sh a')). slot_at (ap_sh a') r = slot_at (ap_sh a) r \<and>
       (sl_adhoc (slot_at (ap_sh a) r) \<or> slot_token r (ap_sh a') = slot_token r (ap_sh a) \<or> sl_legacy_token (slot_at (ap_sh a) r))) \<and>
    names = map (\<lambda>r. display_name (slot_at (ap_sh a) r)) (filter (\<lambda>r. account_link (slot_at (ap_sh a) r)) (sh_links (ap_sh a))) \<and>
    (store_works (ap_sh a) \<longrightarrow> account_token a' = None) \<and> account_ok (ap_sh a')"
proof -
  let ?f = "forget_account a"
  note f = forget_account_parts [of a]
  let ?G = "{r \<in> set (sh_links (ap_sh ?f)). account_link (slot_at (ap_sh ?f) r)}"
  have okf: "account_ok (ap_sh ?f)" by (rule account_ok_forget [OF ok])
  obtain names' b where u: "unpair_where w account_link (\<lambda>_ a. a) (sh_links (ap_sh ?f)) ?f = (names', b)" by fastforce
  have a': "a' = tell_account b" "names = names'" using run u by (simp_all add: sign_out_local_def Let_def)
  have d: "distinct (sh_links (ap_sh ?f))" using okf by (simp add: account_ok_def core_ok_def)
  have o: "only_unlinks ?G (ap_sh ?f) (ap_sh b)" and at: "ap_at b = ap_at ?f" and
      n: "names' = map (\<lambda>r. display_name (slot_at (ap_sh ?f) r)) (filter (\<lambda>r. account_link (slot_at (ap_sh ?f) r)) (sh_links (ap_sh ?f)))"
    using unpair_where_only_unlinks [OF w _ _ okf d _ u] by auto
  have as: "aside b a'" by (simp add: a')
  note out = aside_facts [OF as] aside_slot_at [OF as]
  have sec': "sh_secret (ap_sh a') = sh_secret (ap_sh b)" "sh_links (ap_sh a') = sh_links (ap_sh b)" using as by (simp_all add: aside_def)
  have links: "sh_links (ap_sh a') = filter (\<lambda>r. \<not> account_link (slot_at (ap_sh a) r)) (sh_links (ap_sh a))"
    using o f by (simp add: only_unlinks_def sec' cong: filter_cong)
  have ne: "sl_token_key (slot_at (ap_sh a) l) \<noteq> ACCOUNT_TOKEN_KEY" if "l \<in> ?G" for l
    using okf that f by (auto simp: account_ok_def core_ok_def slot_ok_def)
  have keep: "\<And>k. k \<noteq> TOKEN_KEY \<Longrightarrow> (\<forall>l \<in> ?G. k \<noteq> sl_token_key (slot_at (ap_sh a) l)) \<Longrightarrow>
      fs_get (sh_secret (ap_sh b)) k = fs_get (sh_secret (ap_sh ?f)) k"
    using o f(2) unfolding only_unlinks_def by simp
  have slots: "slot_at (ap_sh a') r = slot_at (ap_sh a) r" if "r \<notin> ?G" for r
    using o that f(2) out(6) by (simp add: only_unlinks_def)
  have tok: "slot_token r (ap_sh a') = slot_token r (ap_sh a)"
    if r: "r \<in> set (sh_links (ap_sh a'))" and h: "\<not> sl_adhoc (slot_at (ap_sh a) r)" "\<not> sl_legacy_token (slot_at (ap_sh a) r)" for r
  proof -
    have rl: "r \<in> set (sh_links (ap_sh a))" "r \<notin> ?G" using r links f by auto
    have key: "sl_token_key (slot_at (ap_sh a) r) = token_key (sl_synth_id (slot_at (ap_sh a) r))"
      and id: "sl_synth_id (slot_at (ap_sh a) r) \<noteq> []"
      using ok rl(1) h(1) by (auto simp: account_ok_def core_ok_def slot_ok_def)
    have "token_key (sl_synth_id (slot_at (ap_sh a) r)) \<noteq> sl_token_key (slot_at (ap_sh a) l)" if l: "l \<in> ?G" for l
    proof -
      have "sl_token_key (slot_at (ap_sh a) l) = token_key (sl_synth_id (slot_at (ap_sh a) l))"
        using okf l f by (auto simp: account_ok_def core_ok_def slot_ok_def)
      moreover have "sl_synth_id (slot_at (ap_sh a) l) \<noteq> sl_synth_id (slot_at (ap_sh a) r)"
        using ok rl l id f unfolding account_ok_def core_ok_def by (metis (no_types, lifting) mem_Collect_eq)
      ultimately show ?thesis by (simp add: token_key_def)
    qed
    moreover have "token_key i \<noteq> TOKEN_KEY" for i by (simp add: token_key_def)
    ultimately have "fs_get (sh_secret (ap_sh b)) (token_key (sl_synth_id (slot_at (ap_sh a) r))) =
        fs_get (sh_secret (ap_sh ?f)) (token_key (sl_synth_id (slot_at (ap_sh a) r)))"
      using keep by blast
    then have "fs_get (sh_secret (ap_sh a')) (token_key (sl_synth_id (slot_at (ap_sh a) r))) =
        fs_get (sh_secret (ap_sh a)) (token_key (sl_synth_id (slot_at (ap_sh a) r)))"
      by (simp add: sec' f(3) fs_delete_other)
    then show ?thesis using h(2) slots [OF rl(2)] by (simp add: slot_token_def token_of_def key)
  qed
  have gone: "account_token a' = None" if "store_works (ap_sh a)"
  proof -
    have "fs_get (sh_secret (ap_sh b)) ACCOUNT_TOKEN_KEY = fs_get (sh_secret (ap_sh ?f)) ACCOUNT_TOKEN_KEY"
    proof (rule keep)
      show "\<forall>l \<in> ?G. ACCOUNT_TOKEN_KEY \<noteq> sl_token_key (slot_at (ap_sh a) l)" using ne by metis
    qed simp
    moreover have "fs_get (snd (fs_delete (sh_secret (ap_sh a)) ACCOUNT_TOKEN_KEY)) ACCOUNT_TOKEN_KEY = Ok None"
      using that by (auto simp: store_works_def is_ok_def fs_delete_def fs_get_def write_map_def read_map_def
          split: sum.splits secret_file.splits)
    ultimately show ?thesis by (simp add: account_token_def sec' f(3) some_token_def)
  qed
  have "stored_account_of a' = None" using o f(4) out(2) by (simp add: only_unlinks_def stored_account_of_def)
  moreover have "at_login (ap_at a') = None" using at f(5) by (simp add: a' tell_account_def)
  moreover have "account_ok (ap_sh a')" using o okf out(3) by (simp add: only_unlinks_def)
  moreover have "slot_at (ap_sh a') r = slot_at (ap_sh a) r" if "r \<in> set (sh_links (ap_sh a'))" for r
    using that links f slots by auto
  moreover have "names = map (\<lambda>r. display_name (slot_at (ap_sh a) r)) (filter (\<lambda>r. account_link (slot_at (ap_sh a) r)) (sh_links (ap_sh a)))"
    using n f(1,2) a'(2) by simp
  ultimately show ?thesis using links tok gone by blast
qed

text \<open>
  a sign-out forgets the account whatever the platform answers: no account is stored, its
  token is gone when the secret store takes the deletion, and every link made through the
  account goes and is named. Every link made with a code stays, cell by cell, with its token
  (a link of a pairing older than the per-synth keys keeps its bare token apart).
\<close>

theorem sign_out_keeps_code_links:
  assumes "quiet w" "account_ok (ap_sh a)" "sign_out w a = (names, a')"
  shows "stored_account_of a' = None \<and>
    sh_links (ap_sh a') = filter (\<lambda>r. \<not> account_link (slot_at (ap_sh a) r)) (sh_links (ap_sh a)) \<and>
    (\<forall>r \<in> set (sh_links (ap_sh a')). slot_at (ap_sh a') r = slot_at (ap_sh a) r \<and>
       (sl_adhoc (slot_at (ap_sh a) r) \<or> slot_token r (ap_sh a') = slot_token r (ap_sh a) \<or> sl_legacy_token (slot_at (ap_sh a) r))) \<and>
    names = map (\<lambda>r. display_name (slot_at (ap_sh a) r)) (filter (\<lambda>r. account_link (slot_at (ap_sh a) r)) (sh_links (ap_sh a))) \<and>
    (store_works (ap_sh a) \<longrightarrow> account_token a' = None) \<and> account_ok (ap_sh a')"
proof -
  let ?b = "app_note w ''account.logout'' (lit ''platform'') (lit ''ok'') a"
  have as: "aside a ?b" by simp
  have run: "sign_out_local w ?b = (names, a')" using assms(1,3) by (simp add: sign_out_def Let_def split: if_splits)
  have ok: "account_ok (ap_sh ?b)" using aside_facts(3) [OF as] assms(2) by simp
  have eq: "sh_links (ap_sh ?b) = sh_links (ap_sh a)" "slot_at (ap_sh ?b) = slot_at (ap_sh a)" "sh_secret (ap_sh ?b) = sh_secret (ap_sh a)"
    using as aside_slot_at [OF as] by (simp_all add: aside_def)
  have "slot_token r (ap_sh ?b) = slot_token r (ap_sh a)" for r by (simp add: slot_token_def eq)
  with sign_out_local_ok [OF assms(1) ok run] eq aside_facts(4) [OF as] show ?thesis by simp
qed

text \<open>
  C38: when the platform refuses the token a sync was begun with, the sync signs the app out, and
  what it forgets is the account and the token that are there when the answer comes: a
  sign-in that was completed while the sync waited is undone by the refusal of the old one.
\<close>

theorem late_refusal_undoes_new_sign_in:
  assumes "at_base (ap_at a) = Some base" "account_token a = Some old" "stored_account_of a = Some acc"
    and "pw_me w base old = Ok (Err Unauthorized)" and "pw_gap w = (\<lambda>x b. if x = AwMe then signed_in_meanwhile b else b)"
    and "account_ok (ap_sh (signed_in_meanwhile a))" "store_works (ap_sh (signed_in_meanwhile a))"
    and "account_sync w a = (rep, a')"
  shows "stored_account_of a' = None \<and> account_token a' = None \<and> sr_signed_out rep"
proof -
  let ?b = "app_note w ''account.sync'' (lit ''platform'') (lit ''signed out: the platform refused the app's sign-in'') (signed_in_meanwhile a)"
  have as: "aside (signed_in_meanwhile a) ?b" by simp
  obtain names where s: "sign_out_local w ?b = (names, a')" "rep = no_report\<lparr>sr_removed := names, sr_signed_out := True\<rparr>"
    using assms(1-5,8) by (auto simp: account_sync_def sync_refused_def Let_def split: prod.splits)
  let ?q = "w\<lparr>pw_gap := \<lambda>_ a. a\<rparr>"
  have q: "quiet ?q" by (simp add: quiet_def)
  have unp: "unpair_synth w i c = unpair_synth ?q i c" for i c
    using assms(5) by (simp add: unpair_synth_def split: prod.split option.split)
  have "unpair_where w goes n rs c = unpair_where ?q goes n rs c" for goes n rs c
    by (induction rs arbitrary: c) (simp_all add: unp Let_def)
  then have "sign_out_local ?q ?b = (names, a')" using s(1) by (simp add: sign_out_local_def)
  with sign_out_local_ok [OF q, of ?b names a'] aside_facts(3,4) [OF as] assms(6,7) s(2) show ?thesis by simp
qed

section \<open>The sign-in\<close>

definition waits_for :: "instant \<Rightarrow> utext \<Rightarrow> app_state \<Rightarrow> bool" where
  "waits_for now state a \<longleftrightarrow> (\<exists>p. at_login (ap_at a) = Some p \<and> pl_state p = state \<and> elapsed now (pl_started p) < LOGIN_TTL)"

text \<open>
  C18: a sign-in link is accepted only for the sign-in this app started: with the state of the one
  that waits, within ten minutes of its start, and only when the platform took that very
  sign-in's verifier with the code for a token of the app. A link with another state, or too
  late, changes neither the token nor the account nor a link.
\<close>

theorem sign_in_is_its_own:
  assumes "login_complete w now code state a = (r, a')"
  shows "(r \<noteq> Ok () \<or> (\<exists>p c base t. at_login (ap_at a) = Some p \<and> pl_state p = state \<and> elapsed now (pl_started p) < LOGIN_TTL \<and>
       code = Ok c \<and> at_base (ap_at a) = Some base \<and>
       pw_exchange w base c (pl_verifier p) (p_device_id (sh_persisted (ap_sh a))) = Ok (Ok t) \<and>
       starts_with (lit ''snthapp_'') (ta_token t) \<and> ai_id (ta_account t) \<noteq> [])) \<and>
    (waits_for now state a \<or> r \<noteq> Ok () \<and> account_token a' = account_token a \<and>
       stored_account_of a' = stored_account_of a \<and> link_slots (ap_sh a') = link_slots (ap_sh a))"
proof -
  let ?taken = "on_account (\<lambda>t. t\<lparr>at_login := None\<rparr>) a"
  have taken: "aside a ?taken" by (simp add: aside_def)
  show ?thesis
  proof (cases "waits_for now state a")
    case True
    then obtain p where p: "at_login (ap_at a) = Some p" "pl_state p = state" "elapsed now (pl_started p) < LOGIN_TTL"
      by (auto simp: waits_for_def)
    then have lb: "login_back w p code ?taken = (r, a')" using assms by (simp add: login_complete_def Let_def)
    show ?thesis
    proof (cases "r = Ok ()")
      case True
      with lb obtain c base where c: "code = Ok c" "at_base (ap_at a) = Some base" and
          ex: "login_exchanged w (pw_exchange w base c (pl_verifier p) (p_device_id (sh_persisted (ap_sh a))))
             (pw_gap w AwExchange (set_phase PhExchanging ?taken)) = (Ok (), a')"
        by (auto simp: login_back_def split: sum.splits option.splits)
      then obtain t where "pw_exchange w base c (pl_verifier p) (p_device_id (sh_persisted (ap_sh a))) = Ok (Ok t)"
          "starts_with (lit ''snthapp_'') (ta_token t)" "ai_id (ta_account t) \<noteq> []"
        by (auto simp: login_exchanged_def Let_def split: sum.splits if_splits)
      with p c \<open>waits_for now state a\<close> show ?thesis by blast
    qed (use \<open>waits_for now state a\<close> in simp)
  next
    case False
    then have "aside a a' \<and> r \<noteq> Ok ()"
      using assms taken by (auto simp: login_complete_def Let_def waits_for_def split: option.splits if_splits)
    then show ?thesis
      using False aside_facts(1,2) [of a a'] aside_slot_at [of a a'] by (auto simp: link_slots_def aside_def)
  qed
qed

section \<open>Examples\<close>

definition example_account :: stored_account where
  "example_account = \<lparr>ac_id = lit ''a1'', ac_email = [], ac_name = [], ac_consented = True, ac_skipped = []\<rparr>"

definition example_synth :: account_synth where
  "example_synth = \<lparr>as_hub_id = lit ''h'', as_synth_id = lit ''zoe'', as_name = lit ''Zoe'', as_avatar = None\<rparr>"

definition example_platform :: platform_world where
  "example_platform = \<lparr>pw_wall = 0, pw_challenge = id, pw_os = lit ''macos'', pw_device_name = [], pw_app_version = [],
     pw_exchange = \<lambda>_ _ _ _. Ok (Ok \<lparr>ta_token = lit ''snthapp_1'', ta_account = \<lparr>ai_id = lit ''a1'', ai_email = [], ai_name = []\<rparr>\<rparr>),
     pw_me = \<lambda>_ _. Ok (Ok \<lparr>me_account = \<lparr>ai_id = lit ''a1'', ai_email = [], ai_name = []\<rparr>, me_synths = [example_synth]\<rparr>),
     pw_connect = \<lambda>_ _ _ _. Ok (Ok \<lparr>mi_synth_id = [], mi_synth_url = lit ''https://z'', mi_synth_name = [], mi_token = lit ''t''\<rparr>),
     pw_link_code = \<lambda>_ _ _. Err [], pw_logout = \<lambda>_ _. Ok (Ok ()), pw_gap = \<lambda>_ a. a\<rparr>"

definition example_app :: app_state where
  "example_app = \<lparr>ap_at = \<lparr>at_base = Some (lit ''https://p''), at_login = Some \<lparr>pl_state = lit ''s'', pl_verifier = lit ''v'',
       pl_started = 0, pl_started_unix = 0, pl_url = []\<rparr>, at_phase = PhIdle, at_synths = None, at_errors = Map.empty,
       at_last_sync = None, at_sync_error = None\<rparr>,
     ap_sh = linked_shared\<lparr>sh_persisted := (sh_persisted linked_shared)\<lparr>p_account := Some example_account\<rparr>,
       sh_secret := \<lparr>fs_file = SecMap [ACCOUNT_TOKEN_KEY \<mapsto> lit ''snthapp_0''], fs_writes = []\<rparr>\<rparr>\<rparr>"

lemma example_app_facts:
  "account_ok (ap_sh example_app)" "stored_account_of example_app = Some example_account"
  "account_token example_app = Some (lit ''snthapp_0'')" "at_base (ap_at example_app) = Some (lit ''https://p'')"
  "store_works (ap_sh example_app)"
proof -
  have "account_ok linked_shared" using linked_shared_facts by (simp add: account_ok_def)
  then show "account_ok (ap_sh example_app)"
    using account_ok_cong [of "ap_sh example_app" linked_shared] by (simp add: example_app_def)
qed (simp_all add: example_app_def stored_account_of_def account_token_def fs_get_def read_map_def some_token_def lit_def
    store_works_def is_ok_def)

lemma example_platform_facts: "quiet example_platform" "faithful example_platform"
  "pw_me example_platform b t = Ok (Ok \<lparr>me_account = \<lparr>ai_id = lit ''a1'', ai_email = [], ai_name = []\<rparr>, me_synths = [example_synth]\<rparr>)"
  by (simp_all add: quiet_def faithful_def example_platform_def)


theorem sign_out_keeps_code_links_witness:
  "stored_account_of (snd (sign_out example_platform example_app)) = None \<and>
     account_token (snd (sign_out example_platform example_app)) = None"
proof -
  obtain names a' where r: "sign_out example_platform example_app = (names, a')" by fastforce
  from sign_out_keeps_code_links [OF example_platform_facts(1) example_app_facts(1) r] example_app_facts(5) r
  show ?thesis by simp
qed

definition another_sign_in :: "app_state \<Rightarrow> app_state" where
  "another_sign_in a = on_shared (\<lambda>sh. sh\<lparr>sh_persisted := (sh_persisted sh)\<lparr>p_account := Some (example_account\<lparr>ac_id := lit ''b2''\<rparr>)\<rparr>,
     sh_secret := \<lparr>fs_file = SecMap [ACCOUNT_TOKEN_KEY \<mapsto> lit ''snthapp_2''], fs_writes = []\<rparr>\<rparr>) a"

theorem late_refusal_undoes_new_sign_in_witness:
  "\<exists>w. account_token (another_sign_in example_app) = Some (lit ''snthapp_2'') \<and>
     account_token (snd (account_sync w example_app)) = None"
proof -
  let ?w = "example_platform\<lparr>pw_me := \<lambda>_ t. if t = lit ''snthapp_0'' then Ok (Err Unauthorized) else Err [],
     pw_gap := \<lambda>x b. if x = AwMe then another_sign_in b else b\<rparr>"
  obtain rep a' where r: "account_sync ?w example_app = (rep, a')" by fastforce
  have "account_ok (ap_sh (another_sign_in example_app))" "store_works (ap_sh (another_sign_in example_app))"
    using account_ok_cong [of "ap_sh (another_sign_in example_app)" "ap_sh example_app"] example_app_facts(1)
    by (simp_all add: another_sign_in_def store_works_def read_map_def is_ok_def)
  from late_refusal_undoes_new_sign_in [where signed_in_meanwhile = another_sign_in, OF example_app_facts(4,3,2) _ _ this r]
  have "account_token a' = None" by simp
  moreover have "account_token (another_sign_in example_app) = Some (lit ''snthapp_2'')"
    by (simp add: another_sign_in_def account_token_def fs_get_def read_map_def some_token_def lit_def)
  ultimately show ?thesis using r by (intro exI [of _ ?w]) simp
qed

theorem sign_in_is_its_own_witness:
  "\<exists>p. at_login (ap_at example_app) = Some p \<and> pl_state p = lit ''s''"
proof -
  have "fst (login_complete example_platform 0 (Ok (lit ''c'')) (lit ''s'') example_app) = Ok ()"
    by (simp add: login_complete_def example_app_def example_platform_def Let_def LOGIN_TTL_def seconds_def elapsed_def
        login_back_def login_exchanged_def login_stored_def starts_with_def fs_set_def read_map_def write_map_def lit_def
        set_phase_def tell_account_def)
  then obtain a' where "login_complete example_platform 0 (Ok (lit ''c'')) (lit ''s'') example_app = (Ok (), a')"
    by (metis prod.collapse)
  from sign_in_is_its_own [OF this] show ?thesis by blast
qed

end
