(* ===== verification/Driver_Manifest.thy ===== *)
theory Driver_Manifest
  imports Computer_Apps
begin

text \<open>
  \<open>cua_apps.rs\<close>, \<open>Scope::manifest\<close>: the capability manifest of a driver daemon that may touch
  only the chosen apps, a YAML text the driver reads once at its start. The file system
  (resolving a path, is it a directory, has it a parent) and the case folding of Unicode are
  parameters. Shown: no name the owner (or a synth through a file name) puts in a value can
  add a line to the manifest, every value is read back as it was, and what is listed is what
  the owner chose.
\<close>

section \<open>A double-quoted scalar\<close>

definition json_escape :: "uchar \<Rightarrow> utext" where
  \<comment> \<open>how \<open>serde_json\<close> writes a character of a string\<close>
  "json_escape c =
     (if c = 34 then [92, 34] else if c = 92 then [92, 92]
      else if c = 8 then [92, 98] else if c = 12 then [92, 102]
      else if c = 10 then [92, 110] else if c = 13 then [92, 114] else if c = 9 then [92, 116]
      else if c < 32 then [92, 117, 48, 48, hex_digit (c div 16), hex_digit (c mod 16)]
      else [c])"

definition yaml_string :: "utext \<Rightarrow> utext" where
  "yaml_string t = 34 # concat (map json_escape t) @ [34]"

section \<open>The manifest\<close>

definition LEASE_HOURS :: nat where "LEASE_HOURS = 24"

record file_view =
  fv_absolute :: "utext \<Rightarrow> bool"
  fv_resolved :: "utext \<Rightarrow> utext option"   \<comment> \<open>\<open>canonicalize\<close>, then \<open>plain\<close>\<close>
  fv_dir :: "utext \<Rightarrow> bool"
  fv_top :: "utext \<Rightarrow> bool"                 \<comment> \<open>no parent\<close>

definition manifest_app :: "file_view \<Rightarrow> app_ref \<Rightarrow> utext \<times> utext" where
  "manifest_app fv pick =
     (if fv_absolute fv (ar_id pick)
      then (lit ''executable'', case fv_resolved fv (ar_id pick) of Some p \<Rightarrow> p | None \<Rightarrow> ar_id pick)
      else (lit ''bundle_id'', ar_id pick))"

fun manifest_apps :: "(utext \<Rightarrow> utext) \<Rightarrow> file_view \<Rightarrow> utext list \<Rightarrow> app_ref list \<Rightarrow> (utext \<times> utext) list" where
  "manifest_apps lower fv seen [] = []"
| "manifest_apps lower fv seen (pick # picks) =
     (if ar_loose pick \<or> ar_id pick = [] then manifest_apps lower fv seen picks
      else let a = manifest_app fv pick
           in if lower (snd a) \<in> set seen then manifest_apps lower fv seen picks
              else a # manifest_apps lower fv (seen @ [lower (snd a)]) picks)"

fun manifest_roots :: "file_view \<Rightarrow> utext list \<Rightarrow> utext list \<Rightarrow> utext list" where
  "manifest_roots fv seen [] = []"
| "manifest_roots fv seen (r # rs) =
     (case fv_resolved fv r of
        None \<Rightarrow> manifest_roots fv seen rs
      | Some p \<Rightarrow>
          if \<not> fv_dir fv p \<or> fv_top fv p \<or> p \<in> set seen then manifest_roots fv seen rs
          else p # manifest_roots fv (seen @ [p]) rs)"

definition nl :: "utext \<Rightarrow> utext" where "nl t = t @ [10]"

definition manifest_head :: utext where
  "manifest_head = nl (lit ''version: 3'') @ nl (lit ''expires_after: '' @ digits LEASE_HOURS @ lit ''h'') @
     nl (lit ''idle_timeout: '' @ digits LEASE_HOURS @ lit ''h'') @ nl (lit ''allow:'') @ nl (lit ''  tools:'')"

definition app_text :: "utext \<times> utext \<Rightarrow> utext" where
  "app_text a = nl (lit ''    - '' @ fst a @ lit '': '' @ yaml_string (snd a)) @ nl (lit ''      launch: true'') @
     nl (lit ''      windows: all'') @ nl (lit ''      terminate: driver_launched'')"

definition root_text :: "utext \<Rightarrow> utext" where
  "root_text p = nl (lit ''      - dir: '' @ yaml_string p) @ nl (lit ''        recursive: true'')"

definition manifest :: "(utext \<Rightarrow> utext) \<Rightarrow> file_view \<Rightarrow> scope \<Rightarrow> utext option" where
  "manifest lower fv s =
     (if sp_policy s \<noteq> PolOnly then None
      else let apps = manifest_apps lower fv [] (sp_apps s);
               roots = manifest_roots fv [] (sp_write_roots s)
           in Some (manifest_head @ concat (map (\<lambda>t. nl (lit ''    - '' @ t)) MANIFEST_TOOLS) @ nl (lit ''resources:'') @
                (if apps = [] then nl (lit ''  apps: []'') else nl (lit ''  apps:'') @ concat (map app_text apps)) @
                (if roots = [] then [] else nl (lit ''  files:'') @ nl (lit ''    write:'') @ concat (map root_text roots)) @
                nl (lit ''  desktop:'') @ nl (lit ''    display: false'')))"

section \<open>What the driver reads\<close>

text \<open>
  The reader of a double-quoted scalar, for the escapes above: it stops at the first quote
  that is not escaped and gives the value and what follows.
\<close>

definition nibble :: "uchar \<Rightarrow> nat option" where
  "nibble c = (if 48 \<le> c \<and> c \<le> 57 then Some (c - 48) else if 97 \<le> c \<and> c \<le> 102 then Some (c - 87) else None)"

definition short_escape :: "uchar \<Rightarrow> uchar option" where
  "short_escape c = map_of [(34, 34), (92, 92), (98, 8), (102, 12), (110, 10), (114, 13), (116, 9)] c"

fun read_scalar :: "utext \<Rightarrow> (utext \<times> utext) option" where
  "read_scalar [] = None"
| "read_scalar (c # cs) =
     (if c = 34 then Some ([], cs)
      else if c = 92 then
        (case cs of
           e # h # i # j # k # rest \<Rightarrow>
             (if e = 117
              then (case (nibble h, nibble i, nibble j, nibble k) of
                      (Some a, Some b, Some x, Some y) \<Rightarrow>
                        map_option (\<lambda>(v, r). ((((a * 16 + b) * 16 + x) * 16 + y) # v, r)) (read_scalar rest)
                    | _ \<Rightarrow> None)
              else (case short_escape e of
                      Some v \<Rightarrow> map_option (\<lambda>(vs, r). (v # vs, r)) (read_scalar (h # i # j # k # rest))
                    | None \<Rightarrow> None))
         | e # rest \<Rightarrow>
             (case short_escape e of
                Some v \<Rightarrow> map_option (\<lambda>(vs, r). (v # vs, r)) (read_scalar rest)
              | None \<Rightarrow> None)
         | [] \<Rightarrow> None)
      else if c < 32 then None
      else map_option (\<lambda>(v, r). (c # v, r)) (read_scalar cs))"

lemma nibble_digit: "n < 16 \<Longrightarrow> nibble (hex_digit n) = Some n"
  by (simp add: nibble_def hex_digit_def)

lemma read_escape_short:
  "short_escape e = Some v \<Longrightarrow> e \<noteq> 117 \<Longrightarrow>
   read_scalar (92 # e # cs) = map_option (\<lambda>(vs, r). (v # vs, r)) (read_scalar cs)"
  by (cases cs; cases "tl cs"; cases "tl (tl cs)"; cases "tl (tl (tl cs))") auto

lemma read_escape: "read_scalar (json_escape c @ cs) = map_option (\<lambda>(v, r). (c # v, r)) (read_scalar cs)"
proof (cases "c \<in> {34, 92, 8, 12, 10, 13, 9}")
  case True
  then show ?thesis
    using read_escape_short [of "json_escape c ! 1" c cs] by (auto simp: json_escape_def short_escape_def)
next
  case False
  show ?thesis
  proof (cases "c < 32")
    case True
    then have "nibble (hex_digit (c div 16)) = Some (c div 16)" "nibble (hex_digit (c mod 16)) = Some (c mod 16)"
      by (simp_all add: nibble_digit)
    moreover have "nibble 48 = Some 0" by (simp add: nibble_def)
    ultimately show ?thesis using True False by (simp add: json_escape_def)
  qed (use False in \<open>simp add: json_escape_def\<close>)
qed

lemma read_scalar_back: "read_scalar (concat (map json_escape t) @ 34 # rest) = Some (t, rest)"
  by (induction t) (simp_all add: read_escape del: read_scalar.simps(2), simp)

text \<open>
  a value in the manifest is read back as the text it was written for, whatever is in it, and
  the reader ends at the closing quote the writer put there.
\<close>

theorem yaml_string_reads_back: "read_scalar (tl (yaml_string t) @ rest) = Some (t, rest) \<and> hd (yaml_string t) = 34"
  by (simp add: yaml_string_def read_scalar_back)

section \<open>The lines of the manifest\<close>

lemma escape_no_newline: "10 \<notin> set (json_escape c)"
  by (auto simp: json_escape_def hex_digit_def)

lemma yaml_string_one_line: "10 \<notin> set (yaml_string t)"
  using escape_no_newline by (auto simp: yaml_string_def)

lemma split_line: "10 \<notin> set t \<Longrightarrow> split_char 10 (t @ 10 # rest) = t # split_char 10 rest"
  by (induction t) auto

lemma split_nl: "10 \<notin> set t \<Longrightarrow> split_char 10 (nl t @ rest) = t # split_char 10 rest"
  by (simp add: nl_def split_line)

lemma split_pieces:
  assumes "\<And>x rest. x \<in> set xs \<Longrightarrow> split_char 10 (f x @ rest) = g x @ split_char 10 rest"
  shows "split_char 10 (concat (map f xs) @ rest) = concat (map g xs) @ split_char 10 rest"
  using assms by (induction xs) auto

definition app_lines :: "utext \<times> utext \<Rightarrow> utext list" where
  "app_lines a = [lit ''    - '' @ fst a @ lit '': '' @ yaml_string (snd a), lit ''      launch: true'',
     lit ''      windows: all'', lit ''      terminate: driver_launched'']"

definition root_lines :: "utext \<Rightarrow> utext list" where
  "root_lines p = [lit ''      - dir: '' @ yaml_string p, lit ''        recursive: true'']"

definition tool_lines :: "utext list" where
  "tool_lines = map (\<lambda>t. lit ''    - '' @ t) MANIFEST_TOOLS"

lemma split_app: "10 \<notin> set (fst a) \<Longrightarrow> split_char 10 (app_text a @ rest) = app_lines a @ split_char 10 rest"
  by (simp add: app_text_def app_lines_def split_nl set_lit yaml_string_one_line)

lemma split_root: "split_char 10 (root_text p @ rest) = root_lines p @ split_char 10 rest"
  by (simp add: root_text_def root_lines_def split_nl set_lit yaml_string_one_line)

lemma fields_of_apps: "a \<in> set (manifest_apps lower fv seen picks) \<Longrightarrow> 10 \<notin> set (fst a)"
  by (induction lower fv seen picks rule: manifest_apps.induct)
    (auto simp: manifest_app_def Let_def set_lit split: if_splits)

lemma manifest_apps_chosen:
  "set (manifest_apps lower fv seen picks) \<subseteq> manifest_app fv ` {p \<in> set picks. \<not> ar_loose p \<and> ar_id p \<noteq> []} \<and>
   distinct (map (lower \<circ> snd) (manifest_apps lower fv seen picks)) \<and>
   set (map (lower \<circ> snd) (manifest_apps lower fv seen picks)) \<inter> set seen = {}"
proof (induction picks arbitrary: seen)
  case (Cons p ps)
  show ?case
  proof (cases "ar_loose p \<or> ar_id p = [] \<or> lower (snd (manifest_app fv p)) \<in> set seen")
    case True
    then have "manifest_apps lower fv seen (p # ps) = manifest_apps lower fv seen ps" by (auto simp: Let_def)
    with Cons.IH [of seen] show ?thesis by auto
  next
    case False
    then have "manifest_apps lower fv seen (p # ps) =
        manifest_app fv p # manifest_apps lower fv (seen @ [lower (snd (manifest_app fv p))]) ps" by (simp add: Let_def)
    with Cons.IH [of "seen @ [lower (snd (manifest_app fv p))]"] False show ?thesis by auto
  qed
qed simp

lemma manifest_roots_shared:
  "set (manifest_roots fv seen rs) \<subseteq> {p. fv_dir fv p \<and> \<not> fv_top fv p \<and> Some p \<in> fv_resolved fv ` set rs} \<and>
   distinct (manifest_roots fv seen rs) \<and> set (manifest_roots fv seen rs) \<inter> set seen = {}"
  by (induction fv seen rs rule: manifest_roots.induct) (auto split: option.split)

definition manifest_frame :: "(utext \<times> utext) list \<Rightarrow> utext list \<Rightarrow> utext list" where
  "manifest_frame apps roots =
     [lit ''version: 3'', lit ''expires_after: 24h'', lit ''idle_timeout: 24h'', lit ''allow:'', lit ''  tools:''] @
     tool_lines @ [lit ''resources:''] @
     (if apps = [] then [lit ''  apps: []''] else lit ''  apps:'' # concat (map app_lines apps)) @
     (if roots = [] then [] else lit ''  files:'' # lit ''    write:'' # concat (map root_lines roots)) @
     [lit ''  desktop:'', lit ''    display: false'', []]"

lemma lease_digits: "digits LEASE_HOURS = lit ''24''"
  by (simp add: LEASE_HOURS_def digits.simps lit_def)

lemma lit_append: "lit a @ lit b = lit (a @ b)"
  by (simp add: lit_def)

lemma split_head: "split_char 10 (manifest_head @ rest) =
  [lit ''version: 3'', lit ''expires_after: 24h'', lit ''idle_timeout: 24h'', lit ''allow:'', lit ''  tools:''] @ split_char 10 rest"
  by (simp add: manifest_head_def lease_digits lit_append split_nl set_lit)

lemma tools_one_line: "t \<in> set MANIFEST_TOOLS \<Longrightarrow> 10 \<notin> set t"
  by (auto simp: MANIFEST_TOOLS_def set_lit)

lemma split_tools: "split_char 10 (concat (map (\<lambda>t. nl (lit ''    - '' @ t)) MANIFEST_TOOLS) @ rest) = tool_lines @ split_char 10 rest"
proof -
  have "split_char 10 (concat (map (\<lambda>t. nl (lit ''    - '' @ t)) MANIFEST_TOOLS) @ rest) =
      concat (map (\<lambda>t. [lit ''    - '' @ t]) MANIFEST_TOOLS) @ split_char 10 rest"
    by (rule split_pieces) (use tools_one_line in \<open>auto simp: split_nl set_lit\<close>)
  then show ?thesis by (simp add: tool_lines_def concat_map_singleton)
qed

lemma split_tail: "split_char 10 (nl (lit ''  desktop:'') @ nl (lit ''    display: false'')) = [lit ''  desktop:'', lit ''    display: false'', []]"
  using split_nl [of "lit ''    display: false''" "[]"] by (simp add: split_nl set_lit)

lemma manifest_split:
  assumes "manifest lower fv s = Some m"
  shows "split_char 10 m = manifest_frame (manifest_apps lower fv [] (sp_apps s)) (manifest_roots fv [] (sp_write_roots s))"
proof -
  let ?a = "manifest_apps lower fv [] (sp_apps s)" and ?r = "manifest_roots fv [] (sp_write_roots s)"
  have "10 \<notin> set (fst a)" if "a \<in> set ?a" for a using that fields_of_apps by blast
  then have apps: "split_char 10 (concat (map app_text ?a) @ rest) = concat (map app_lines ?a) @ split_char 10 rest" for rest
    by (intro split_pieces split_app) simp
  have roots: "split_char 10 (concat (map root_text ?r) @ rest) = concat (map root_lines ?r) @ split_char 10 rest" for rest
    by (intro split_pieces split_root)
  show ?thesis
    using assms
    by (auto simp: manifest_def Let_def manifest_frame_def split_head split_tools split_nl split_tail set_lit
        apps roots split: if_splits)
qed


end
