(* ===== verification/Driver_Install.thy ===== *)
theory Driver_Install
  imports Journal "HOL-Library.List_Lexorder"
begin

text \<open>
  \<open>cua_install.rs\<close>: the app's own copy of the computer-control driver: the pinned release, the
  download, the check of its hash, the unpacking, the probe and the switch. The release
  folder is the list of its directories; what a copy prints for \<open>--version\<close> belongs to the
  copy. The HTTP client, the hash, tar and the failures of the disk are parameters; a blocking
  task that panics is not modelled, and a folder that cannot be removed is left as it is.
  Shown: a copy is put in place only when it came with the pinned hash and runs as the pinned
  version, a run that fails takes no copy away that works, and what a daemon runs from stays.
\<close>

section \<open>The pinned release\<close>

type_synonym contents = "nat list"

record release_spec =
  rl_version :: utext
  rl_url :: utext
  rl_archive :: utext
  rl_sha :: utext

definition PINNED_VERSION :: utext where "PINNED_VERSION = lit ''0.34.1''"

definition PINNED_ARCHIVES :: "(utext \<times> utext \<times> utext \<times> utext) list" where
  "PINNED_ARCHIVES =
    [(lit ''macos'', lit ''*'', lit ''darwin-universal-binary.tar.gz'',
      lit ''52de49b5046df19245ad02ff9aa89ce9caf69e84988e1d0fac677611dd83e48c''),
     (lit ''linux'', lit ''x86_64'', lit ''linux-x86_64-binary.tar.gz'',
      lit ''a41fe2bdcbeea4501dc594c074f16b0975728e0cc7b08b90acea8564d48fafee''),
     (lit ''linux'', lit ''aarch64'', lit ''linux-arm64-binary.tar.gz'',
      lit ''1c839d35401bbdea20f3e1cf50ace926ef17be6f32cea7e821b02b263c4933dc''),
     (lit ''windows'', lit ''x86_64'', lit ''windows-x86_64-binary.zip'',
      lit ''021bc2e5330c80a6c5e2c347c305fafbd4defe195d6282e0d20436f2f13c19bb''),
     (lit ''windows'', lit ''aarch64'', lit ''windows-arm64-binary.zip'',
      lit ''21820a2ae20cb4bb998a340ff87c11007b9eb5cec8d1b8338c7b0d6dc88b01a6'')]"

definition UNUSED_PREFIXES :: "utext list" where
  "UNUSED_PREFIXES = [lit ''libcua_driver_sdk.'', lit ''cua_driver_sdk.'', lit ''cua_driver_node_runtime.'', lit ''cua_driver_abi.'']"

definition INSTALL_TIMEOUT :: instant where "INSTALL_TIMEOUT = seconds (15 * 60)"

definition release_for :: "utext \<Rightarrow> utext \<Rightarrow> release_spec option" where
  "release_for os arch =
     map_option (\<lambda>(_, _, suffix, sha).
         let name = lit ''cua-driver-rs-'' @ PINNED_VERSION @ lit ''-'' @ suffix
         in \<lparr>rl_version = PINNED_VERSION,
             rl_url = lit ''https://github.com/trycua/cua/releases/download/cua-driver-rs-v'' @ PINNED_VERSION @ lit ''/'' @ name,
             rl_archive = name, rl_sha = sha\<rparr>)
       (find (\<lambda>(o', a, _, _). o' = os \<and> (a = lit ''*'' \<or> a = arch)) PINNED_ARCHIVES)"

section \<open>States and failures\<close>

datatype fail_code = FailOffline | FailDownload | FailChecksum | FailDisk | FailVerify | FailUnsupported | FailTimeout | FailCancelled

datatype install_state =
    InIdle | InChecking | InDownloading nat "nat option" | InInstalling | InVerifying
  | InReady utext | InFailed fail_code utext

datatype fetch_error = FetchNetwork utext | FetchStatus nat | FetchIo utext | FetchCancelled

section \<open>The download\<close>

text \<open>One turn of the loop: was a stop asked for, what was read, did the write fail.\<close>

record read_turn =
  rt_cancelled :: bool
  rt_read :: "(utext, contents) result"
  rt_write :: "utext option"

record fetch_response =
  fr_call :: "(fetch_error, nat option) result"  \<comment> \<open>the answer's length, as its header gives it\<close>
  fr_create :: "utext option"
  fr_turns :: "read_turn list"
  fr_sync :: "utext option"

text \<open>What the file holds and what was told of the progress come with the end, if it has come.\<close>

definition fetch_end :: "nat option \<Rightarrow> utext option \<Rightarrow> contents \<Rightarrow> (fetch_error, unit) result" where
  "fetch_end announced sync got =
     (case sync of
        Some e \<Rightarrow> Err (FetchIo e)
      | None \<Rightarrow>
          (case announced of
             Some t \<Rightarrow> if length got \<noteq> t
               then Err (FetchNetwork (lit ''the download ended early ('' @ digits (length got) @ lit '' of '' @ digits t @ lit '' bytes)''))
               else Ok ()
           | None \<Rightarrow> Ok ()))"

fun fetch_loop :: "nat option \<Rightarrow> utext option \<Rightarrow> read_turn list \<Rightarrow> contents \<Rightarrow> (nat \<times> nat option) list
    \<Rightarrow> (fetch_error, unit) result option \<times> contents \<times> (nat \<times> nat option) list" where
  "fetch_loop announced sync [] got told = (None, got, told)"
| "fetch_loop announced sync (t # ts) got told =
     (if rt_cancelled t then (Some (Err FetchCancelled), got, told)
      else case rt_read t of
             Err e \<Rightarrow> (Some (Err (FetchNetwork e)), got, told)
           | Ok bs \<Rightarrow>
               if bs = [] then (Some (fetch_end announced sync got), got, told)
               else (case rt_write t of
                       Some e \<Rightarrow> (Some (Err (FetchIo e)), got, told)
                     | None \<Rightarrow> fetch_loop announced sync ts (got @ bs) (told @ [(length (got @ bs), announced)])))"

definition fetch_file :: "fetch_response \<Rightarrow> (fetch_error, unit) result option \<times> contents \<times> (nat \<times> nat option) list" where
  "fetch_file r =
     (case fr_call r of
        Err e \<Rightarrow> (Some (Err e), [], [])
      | Ok announced \<Rightarrow>
          (case fr_create r of
             Some e \<Rightarrow> (Some (Err (FetchIo e)), [], [])
           | None \<Rightarrow> fetch_loop announced (fr_sync r) (fr_turns r) [] [(0, announced)]))"

text \<open>Which of these the owner sees: the first, the last, and a few a second.\<close>

definition progress_shown :: "instant \<Rightarrow> nat \<Rightarrow> nat option \<Rightarrow> instant \<times> nat \<Rightarrow> bool" where
  "progress_shown now received announced last_told \<longleftrightarrow>
     announced = Some received \<or> received = 0 \<or> millis 250 \<le> elapsed now (fst last_told) \<or>
     4 * 1024 * 1024 \<le> received - snd last_told"

section \<open>The copies on disk\<close>

record driver_copy =
  dc_bin :: bool                   \<comment> \<open>the binary is a file\<close>
  dc_changed :: nat
  dc_says :: "utext option"        \<comment> \<open>what it prints for \<open>--version\<close>, when it runs and ends well in time\<close>
  dc_files :: "utext list"         \<comment> \<open>the other files\<close>

record installer =
  in_root :: utext
  in_exe :: utext                  \<comment> \<open>\<open>bin_name\<close>\<close>
  in_spec :: "release_spec option"
  in_version :: utext
  in_state :: install_state
  in_stopped :: bool
  in_held :: "utext option"        \<comment> \<open>a release folder, by its path\<close>
  in_releases :: "(utext \<times> driver_copy) list"
  in_notes :: "entry list"         \<comment> \<open>lines for the journal\<close>

definition new_installer :: "utext \<Rightarrow> utext \<Rightarrow> release_spec option \<Rightarrow> (utext \<times> driver_copy) list \<Rightarrow> installer" where
  "new_installer root exe spec disk =
     \<lparr>in_root = root, in_exe = exe, in_spec = spec,
      in_version = (case spec of Some s \<Rightarrow> rl_version s | None \<Rightarrow> PINNED_VERSION),
      in_state = InIdle, in_stopped = False, in_held = None, in_releases = disk, in_notes = []\<rparr>"

definition path_join :: "utext \<Rightarrow> utext \<Rightarrow> utext" where
  "path_join a b = a @ 47 # b"

definition path_parent :: "utext \<Rightarrow> utext" where
  \<comment> \<open>of a path made by \<open>path_join\<close>\<close>
  "path_parent p = rev (tl (dropWhile (\<lambda>c. c \<noteq> 47) (rev p)))"

definition releases_dir :: "installer \<Rightarrow> utext" where
  "releases_dir i = path_join (in_root i) (lit ''releases'')"

definition release_dir :: "installer \<Rightarrow> utext \<Rightarrow> utext" where
  \<comment> \<open>of a version; the code's \<open>release_dir\<close> is that of its own version\<close>
  "release_dir i v = path_join (releases_dir i) v"

definition copy_bin :: "installer \<Rightarrow> utext \<Rightarrow> utext" where
  "copy_bin i v = path_join (release_dir i v) (in_exe i)"

definition bin_path :: "installer \<Rightarrow> utext" where
  "bin_path i = copy_bin i (in_version i)"

definition copy_at :: "installer \<Rightarrow> utext \<Rightarrow> driver_copy option" where
  "copy_at i v = map_of (in_releases i) v"

definition copy_runs :: "installer \<Rightarrow> utext \<Rightarrow> bool" where
  \<comment> \<open>there is a copy with its binary\<close>
  "copy_runs i v \<longleftrightarrow> (case copy_at i v of Some c \<Rightarrow> dc_bin c | None \<Rightarrow> False)"

text \<open>The copies of other versions, the one changed last first, then by version.\<close>

definition not_newer :: "nat \<times> utext \<Rightarrow> nat \<times> utext \<Rightarrow> bool" where
  "not_newer b a \<longleftrightarrow> fst b < fst a \<or> (fst b = fst a \<and> snd b \<le> snd a)"

fun insert_copy :: "nat \<times> utext \<Rightarrow> (nat \<times> utext) list \<Rightarrow> (nat \<times> utext) list" where
  "insert_copy a [] = [a]"
| "insert_copy a (b # bs) = (if not_newer b a then a # b # bs else b # insert_copy a bs)"

definition old_copies :: "installer \<Rightarrow> (utext \<times> utext) list" where
  "old_copies i =
     map (\<lambda>(_, v). (v, copy_bin i v))
       (foldr insert_copy
          (map (\<lambda>(v, c). (dc_changed c, v)) (filter (\<lambda>(v, c). v \<noteq> in_version i \<and> dc_bin c) (in_releases i))) [])"

definition usable_bin :: "installer \<Rightarrow> (utext \<times> utext) option" where
  "usable_bin i =
     (if copy_runs i (in_version i) then Some (in_version i, bin_path i)
      else case old_copies i of [] \<Rightarrow> None | c # _ \<Rightarrow> Some c)"

definition hold_copy :: "utext \<Rightarrow> installer \<Rightarrow> installer" where
  "hold_copy bin i = (if bin \<noteq> bin_path i then i\<lparr>in_held := Some (path_parent bin)\<rparr> else i)"

definition drop_old :: "(utext \<Rightarrow> bool) \<Rightarrow> installer \<Rightarrow> installer" where
  \<comment> \<open>given which folders can be deleted\<close>
  "drop_old deletes i =
     (if \<not> copy_runs i (in_version i) then i
      else i\<lparr>in_releases := filter (\<lambda>(v, _). v = in_version i \<or> Some (release_dir i v) = in_held i \<or> \<not> deletes v) (in_releases i)\<rparr>)"

definition release_old :: "(utext \<Rightarrow> bool) \<Rightarrow> installer \<Rightarrow> installer" where
  "release_old deletes i = drop_old deletes (i\<lparr>in_held := None\<rparr>)"

definition set_install :: "install_state \<Rightarrow> installer \<Rightarrow> installer" where
  "set_install st i = i\<lparr>in_state := st\<rparr>"

definition stop_install :: "installer \<Rightarrow> installer" where
  \<comment> \<open>\<open>shutdown\<close>; a run in progress sees it at its next check\<close>
  "stop_install i = i\<lparr>in_stopped := True\<rparr>"

definition version_word :: "utext \<Rightarrow> utext option" where
  "version_word out = (case split_whitespace out of _ # v # _ \<Rightarrow> Some v | _ \<Rightarrow> None)"

definition installed_version :: "driver_copy option \<Rightarrow> utext option" where
  "installed_version c = (case c of None \<Rightarrow> None | Some d \<Rightarrow> if \<not> dc_bin d then None else Option.bind (dc_says d) version_word)"

section \<open>An installation\<close>

datatype install_await = WaitFetch | WaitHash | WaitUnpack | WaitProbe

datatype stop_check = AfterHash | AfterUnpack | AfterProbe

record install_world =
  iw_wall :: unix_time
  iw_timeout :: "install_await option"    \<comment> \<open>where the time limit of the run strikes\<close>
  iw_staging :: "utext option"            \<comment> \<open>errors of the disk\<close>
  iw_fetch :: "utext \<Rightarrow> (fetch_error, contents) result"
  iw_read :: "utext option"
  iw_sha :: "contents \<Rightarrow> utext"
  iw_unpack :: "contents \<Rightarrow> (utext, driver_copy) result"
  iw_stop :: "stop_check \<Rightarrow> bool"
  iw_releases :: "utext option"
  iw_remove :: "utext option"
  iw_rename :: "utext option"
  iw_deletes :: "utext \<Rightarrow> bool"

text \<open>A step of the run ends with a failure, or with the time limit (\<open>Err None\<close>).\<close>

type_synonym failure = "fail_code \<times> utext"

definition check_stop :: "install_world \<Rightarrow> stop_check \<Rightarrow> (failure option, unit) result" where
  "check_stop w k = (if iw_stop w k then Err (Some (FailCancelled, lit ''stopped'')) else Ok ())"

definition fetch_failure :: "fetch_error \<Rightarrow> failure" where
  "fetch_failure e =
     (case e of FetchCancelled \<Rightarrow> (FailCancelled, lit ''stopped'')
      | FetchNetwork t \<Rightarrow> (FailOffline, t)
      | FetchStatus c \<Rightarrow> (FailDownload, lit ''the server answered HTTP '' @ digits c)
      | FetchIo t \<Rightarrow> (FailDisk, lit ''write the download: '' @ t))"

definition disk_failure :: "string \<Rightarrow> utext \<Rightarrow> failure" where
  "disk_failure what e = (FailDisk, lit what @ lit '': '' @ e)"

definition drop_unused :: "driver_copy \<Rightarrow> driver_copy" where
  "drop_unused c = c\<lparr>dc_files := filter (\<lambda>f. \<not> list_ex (\<lambda>p. starts_with p f) UNUSED_PREFIXES) (dc_files c)\<rparr>"

definition install_switch :: "install_world \<Rightarrow> release_spec \<Rightarrow> driver_copy \<Rightarrow> installer
    \<Rightarrow> (failure option, unit) result \<times> installer" where
  "install_switch w spec c i =
     (case iw_releases w of
        Some e \<Rightarrow> (Err (Some (disk_failure ''create the releases folder'' e)), i)
      | None \<Rightarrow>
          (let others = filter (\<lambda>(v, _). v \<noteq> in_version i) (in_releases i);
               there = copy_at i (in_version i) \<noteq> None
           in if there \<and> iw_remove w \<noteq> None
              then (Err (Some (disk_failure ''remove the broken copy'' (the (iw_remove w)))), i)
              else let i1 = i\<lparr>in_releases := others\<rparr>
                   in case iw_rename w of
                        Some e \<Rightarrow> (Err (Some (disk_failure ''move the new copy into place'' e)), i1)
                      | None \<Rightarrow>
                          (let i2 = drop_old (iw_deletes w) (i1\<lparr>in_releases := others @ [(in_version i, c)]\<rparr>);
                               line = new_entry (iw_wall w) (lit ''computer'')
                                 (if others \<noteq> [] then lit ''helper.update'' else lit ''helper.install'') (rl_version spec) (lit ''ok'')
                           in (Ok (), i2\<lparr>in_notes := in_notes i2 @ [line]\<rparr>))))"

definition install_verify :: "install_world \<Rightarrow> release_spec \<Rightarrow> driver_copy \<Rightarrow> installer
    \<Rightarrow> (failure option, unit) result \<times> installer" where
  "install_verify w spec c i =
     (let i1 = set_install InVerifying i
      in if iw_timeout w = Some WaitProbe then (Err None, i1)
         else if installed_version (Some c) \<noteq> Some (rl_version spec)
         then (Err (Some (FailVerify, lit ''the unpacked driver reports version '' @
                 quoted (case installed_version (Some c) of Some v \<Rightarrow> v | None \<Rightarrow> []) @ lit '', expected '' @ rl_version spec)), i1)
         else case check_stop w AfterProbe of
                Err e \<Rightarrow> (Err e, i1)
              | Ok _ \<Rightarrow> install_switch w spec c i1)"

definition install_unpack :: "install_world \<Rightarrow> release_spec \<Rightarrow> contents \<Rightarrow> installer
    \<Rightarrow> (failure option, unit) result \<times> installer" where
  "install_unpack w spec bytes i =
     (let i1 = set_install InInstalling i
      in if iw_timeout w = Some WaitUnpack then (Err None, i1)
         else case iw_unpack w bytes of
                Err e \<Rightarrow> (Err (Some (FailDisk, e)), i1)
              | Ok c \<Rightarrow>
                  if \<not> dc_bin c then (Err (Some (FailDisk, lit ''the archive has no '' @ in_exe i)), i1)
                  else (case check_stop w AfterUnpack of
                          Err e \<Rightarrow> (Err e, i1)
                        | Ok _ \<Rightarrow> install_verify w spec (drop_unused c) i1))"

definition install_check :: "install_world \<Rightarrow> release_spec \<Rightarrow> contents \<Rightarrow> installer
    \<Rightarrow> (failure option, unit) result \<times> installer" where
  "install_check w spec bytes i =
     (if iw_timeout w = Some WaitHash then (Err None, i)
      else case iw_read w of
             Some e \<Rightarrow> (Err (Some (disk_failure ''read the download'' e)), i)
           | None \<Rightarrow>
               if \<not> eq_ignore_ascii_case (iw_sha w bytes) (rl_sha spec)
               then (Err (Some (FailChecksum, rl_archive spec @ lit '' has sha256 '' @ iw_sha w bytes @ lit '', expected '' @ rl_sha spec)), i)
               else (case check_stop w AfterHash of
                       Err e \<Rightarrow> (Err e, i)
                     | Ok _ \<Rightarrow> install_unpack w spec bytes i))"

definition install :: "install_world \<Rightarrow> release_spec \<Rightarrow> installer \<Rightarrow> (failure option, unit) result \<times> installer" where
  "install w spec i =
     (case iw_staging w of
        Some e \<Rightarrow> (Err (Some (disk_failure ''create the staging folder'' e)), i)
      | None \<Rightarrow>
          (let i1 = set_install (InDownloading 0 None) i
           in if iw_timeout w = Some WaitFetch then (Err None, i1)
              else case iw_fetch w (rl_url spec) of
                     Err e \<Rightarrow> (Err (Some (fetch_failure e)), i1)
                   | Ok bytes \<Rightarrow> install_check w spec bytes i1))"

definition install_failed :: "failure \<Rightarrow> installer \<Rightarrow> install_state \<times> installer" where
  "install_failed f i = (InFailed (fst f) (snd f), set_install (InFailed (fst f) (snd f)) i)"

text \<open>The final state, and did this run put a new copy in place.\<close>

definition ensure :: "install_world \<Rightarrow> utext \<Rightarrow> installer \<Rightarrow> (install_state \<times> bool) \<times> installer" where
  \<comment> \<open>given the name of this platform, for the message\<close>
  "ensure w platform i =
     (if in_stopped i
      then (let (st, i1) = install_failed (FailCancelled, lit ''the app is quitting'') i in ((st, False), i1))
      else let i1 = set_install InChecking i
           in if installed_version (copy_at i1 (in_version i1)) = Some (in_version i1)
              then ((InReady (in_version i1), False), set_install (InReady (in_version i1)) (drop_old (iw_deletes w) i1))
              else case in_spec i1 of
                     None \<Rightarrow> (let (st, i2) = install_failed (FailUnsupported, lit ''no Cua Driver release for '' @ platform) i1
                              in ((st, False), i2))
                   | Some spec \<Rightarrow>
                       (case install w spec i1 of
                          (Ok _, i2) \<Rightarrow> ((InReady (rl_version spec), True), set_install (InReady (rl_version spec)) i2)
                        | (Err (Some f), i2) \<Rightarrow> (let (st, i3) = install_failed f i2 in ((st, False), i3))
                        | (Err None, i2) \<Rightarrow>
                            (let (st, i3) = install_failed (FailTimeout, lit ''not finished after '' @
                                 digits (INSTALL_TIMEOUT div seconds 1) @ lit '' s'') i2 in ((st, False), i3))))"

section \<open>What a run keeps\<close>

definition same_place :: "installer \<Rightarrow> installer \<Rightarrow> bool" where
  "same_place i i' \<longleftrightarrow> in_root i' = in_root i \<and> in_exe i' = in_exe i \<and> in_spec i' = in_spec i \<and>
     in_version i' = in_version i \<and> in_stopped i' = in_stopped i \<and> in_held i' = in_held i"

definition installer_ok :: "installer \<Rightarrow> bool" where
  "installer_ok i \<longleftrightarrow> distinct (map fst (in_releases i)) \<and>
     (\<forall>s. in_spec i = Some s \<longrightarrow> rl_version s = in_version i)"

lemma new_installer_ok: "distinct (map fst disk) \<Longrightarrow> installer_ok (new_installer root exe spec disk)"
  by (simp add: installer_ok_def new_installer_def)

lemma same_place_refl [simp]: "same_place i i"
  by (simp add: same_place_def)

lemma same_place_trans: "same_place i j \<Longrightarrow> same_place j k \<Longrightarrow> same_place i k"
  by (simp add: same_place_def)

lemma same_paths:
  "same_place i i' \<Longrightarrow> release_dir i' = release_dir i \<and> copy_bin i' = copy_bin i \<and> bin_path i' = bin_path i"
  by (simp add: same_place_def release_dir_def copy_bin_def bin_path_def releases_dir_def fun_eq_iff)

lemma set_install_parts [simp]:
  "same_place i (set_install st i)" "in_releases (set_install st i) = in_releases i" "in_version (set_install st i) = in_version i"
  "in_held (set_install st i) = in_held i" "in_spec (set_install st i) = in_spec i" "in_state (set_install st i) = st"
  "copy_at (set_install st i) = copy_at i" "copy_runs (set_install st i) = copy_runs i" "release_dir (set_install st i) = release_dir i"
  "in_notes (set_install st i) = in_notes i"
  by (simp_all add: set_install_def same_place_def copy_at_def copy_runs_def release_dir_def releases_dir_def fun_eq_iff)

lemma copies_filtered: "map_of (filter (\<lambda>(v, _). P v) xs) v = (if P v then map_of xs v else None)"
  by (induction xs) auto

lemma drop_old_place [simp]: "same_place i (drop_old d i)" "in_version (drop_old d i) = in_version i" "in_notes (drop_old d i) = in_notes i"
  by (simp_all add: drop_old_def same_place_def)

lemma copy_at_drop_old:
  "copy_at (drop_old d i) v =
    (if \<not> copy_runs i (in_version i) \<or> v = in_version i \<or> Some (release_dir i v) = in_held i \<or> \<not> d v then copy_at i v else None)"
  by (auto simp: drop_old_def copy_at_def copies_filtered)

lemma distinct_filter_keys: "distinct (map fst xs) \<Longrightarrow> distinct (map fst (filter P xs))"
  by (rule distinct_keys_filter)

lemma releases_drop_old: "distinct (map fst (in_releases i)) \<Longrightarrow> distinct (map fst (in_releases (drop_old d i)))"
  by (simp add: drop_old_def distinct_filter_keys)

text \<open>
  What a step of the run may do to the copies: those of other versions stay unless the run
  ended well, and a held one stays even then.
\<close>

definition copies_kept :: "bool \<Rightarrow> installer \<Rightarrow> installer \<Rightarrow> bool" where
  "copies_kept well i i' \<longleftrightarrow> same_place i i' \<and>
     (\<forall>v. v \<noteq> in_version i \<and> (in_held i = Some (release_dir i v) \<or> \<not> well) \<longrightarrow> copy_at i' v = copy_at i v) \<and>
     (\<not> well \<longrightarrow> copy_at i' (in_version i) = copy_at i (in_version i) \<or> copy_at i' (in_version i) = None) \<and>
     (distinct (map fst (in_releases i)) \<longrightarrow> distinct (map fst (in_releases i')))"

lemma copies_kept_same: "same_place i i' \<Longrightarrow> in_releases i' = in_releases i \<Longrightarrow> copies_kept well i i'"
  by (simp add: copies_kept_def copy_at_def)

lemma copies_kept_after:
  assumes "same_place i j" "in_releases j = in_releases i" "copies_kept well j k" shows "copies_kept well i k"
  using assms same_paths [OF assms(1)] same_place_trans [OF assms(1), of k]
  by (simp add: copies_kept_def copy_at_def) (simp add: same_place_def)

lemma install_switch_keeps:
  assumes "install_switch w spec c i = (r, i')"
  shows "copies_kept (r = Ok ()) i i'"
proof -
  let ?others = "filter (\<lambda>(v, _). v \<noteq> in_version i) (in_releases i)"
  let ?placed = "i\<lparr>in_releases := ?others @ [(in_version i, c)]\<rparr>"
  have other: "map_of ?others v = (if v \<noteq> in_version i then copy_at i v else None)" for v
    using copies_filtered [of "\<lambda>v. v \<noteq> in_version i" "in_releases i" v] by (simp add: copy_at_def)
  have gone: "copies_kept False i (i\<lparr>in_releases := ?others\<rparr>)"
    by (simp add: copies_kept_def same_place_def other copy_at_def distinct_filter_keys)
  have place: "copy_at ?placed v = (if v = in_version i then Some c else copy_at i v)" for v
    by (simp add: copy_at_def [of ?placed] map_add_def other split: option.split)
  have "distinct (map fst (in_releases i)) \<Longrightarrow> distinct (map fst (in_releases ?placed))"
    by (auto simp: distinct_filter_keys)
  then have "distinct (map fst (in_releases i)) \<Longrightarrow> distinct (map fst (in_releases (drop_old d ?placed)))" for d
    using releases_drop_old [of ?placed d] by simp
  moreover have "same_place i (drop_old d ?placed)" for d by (simp add: drop_old_def same_place_def)
  moreover have "copy_at (drop_old d ?placed) v = copy_at i v"
    if "v \<noteq> in_version i" "in_held i = Some (release_dir i v)" for d v
    using that by (simp add: copy_at_drop_old place release_dir_def releases_dir_def)
  ultimately have placed: "copies_kept True i (drop_old d ?placed)" for d by (simp add: copies_kept_def)
  then have "copies_kept True i ((drop_old d ?placed)\<lparr>in_notes := n\<rparr>)" for d n
    by (simp add: copies_kept_def same_place_def copy_at_def)
  with assms gone show ?thesis
    by (auto simp: install_switch_def Let_def copies_kept_same split: option.splits if_splits)
qed

lemma install_switch_places:
  "install_switch w spec c i = (Ok (), i') \<Longrightarrow> copy_at i' (in_version i) = Some c \<and> (\<exists>n. in_notes i' = in_notes i @ [n])"
  using copies_filtered [of "\<lambda>v. v \<noteq> in_version i" "in_releases i" "in_version i"]
  by (auto simp: install_switch_def Let_def copy_at_def [of "in_notes_update _ _"] copy_at_drop_old [unfolded copy_at_def]
      map_add_def split: option.splits if_splits)

lemma install_steps_keep:
  "install_verify w spec c i = (r, i') \<Longrightarrow> copies_kept (r = Ok ()) i i'"
  "install_unpack w spec bytes i = (r, i') \<Longrightarrow> copies_kept (r = Ok ()) i i'"
  "install_check w spec bytes i = (r, i') \<Longrightarrow> copies_kept (r = Ok ()) i i'"
proof -
  have verify: "copies_kept (r = Ok ()) i i'" if "install_verify w spec c i = (r, i')" for c i i' r
    using that install_switch_keeps [of w spec c "set_install InVerifying i" r i']
      copies_kept_after [of i "set_install InVerifying i" "r = Ok ()" i']
    by (auto simp: install_verify_def Let_def copies_kept_same split: sum.splits if_splits)
  have unpack: "copies_kept (r = Ok ()) i i'" if "install_unpack w spec bytes i = (r, i')" for i i' r
    using that verify [of _ "set_install InInstalling i" r i'] copies_kept_after [of i "set_install InInstalling i" "r = Ok ()" i']
    by (auto simp: install_unpack_def Let_def copies_kept_same split: sum.splits if_splits)
  show "install_verify w spec c i = (r, i') \<Longrightarrow> copies_kept (r = Ok ()) i i'" by (rule verify)
  show "install_unpack w spec bytes i = (r, i') \<Longrightarrow> copies_kept (r = Ok ()) i i'" by (rule unpack)
  show "install_check w spec bytes i = (r, i') \<Longrightarrow> copies_kept (r = Ok ()) i i'"
    using unpack [of i r i']
    by (auto simp: install_check_def Let_def copies_kept_same split: sum.splits option.splits if_splits)
qed

lemma install_keeps:
  assumes "install w spec i = (r, i')" shows "copies_kept (r = Ok ()) i i'"
  using assms install_steps_keep(3) [of w spec _ "set_install (InDownloading 0 None) i" r i']
    copies_kept_after [of i "set_install (InDownloading 0 None) i" "r = Ok ()" i']
  by (auto simp: install_def Let_def copies_kept_same split: sum.splits option.splits if_splits)

definition came_checked :: "install_world \<Rightarrow> release_spec \<Rightarrow> driver_copy \<Rightarrow> bool" where
  "came_checked w spec c \<longleftrightarrow> (\<exists>bytes u. iw_fetch w (rl_url spec) = Ok bytes \<and>
     eq_ignore_ascii_case (iw_sha w bytes) (rl_sha spec) \<and> iw_unpack w bytes = Ok u \<and> c = drop_unused u)"

lemma install_done:
  assumes "install w spec i = (Ok (), i')"
  obtains c where "came_checked w spec c" "copy_at i' (in_version i) = Some c" "installed_version (Some c) = Some (rl_version spec)"
proof -
  let ?i1 = "set_install (InDownloading 0 None) i"
  obtain bytes where f: "iw_fetch w (rl_url spec) = Ok bytes" and "install_check w spec bytes ?i1 = (Ok (), i')"
    using assms by (auto simp: install_def Let_def split: option.splits if_splits sum.splits)
  then have h: "eq_ignore_ascii_case (iw_sha w bytes) (rl_sha spec)" and "install_unpack w spec bytes ?i1 = (Ok (), i')"
    by (auto simp: install_check_def split: option.splits if_splits sum.splits)
  then obtain u where u: "iw_unpack w bytes = Ok u"
    and "install_verify w spec (drop_unused u) (set_install InInstalling ?i1) = (Ok (), i')"
    by (auto simp: install_unpack_def Let_def split: if_splits sum.splits)
  then have v: "installed_version (Some (drop_unused u)) = Some (rl_version spec)"
    and "install_switch w spec (drop_unused u) (set_install InVerifying (set_install InInstalling ?i1)) = (Ok (), i')"
    by (auto simp: install_verify_def Let_def split: if_splits sum.splits)
  from install_switch_places [OF this(2)] have "copy_at i' (in_version i) = Some (drop_unused u)" by simp
  with f h u v that show ?thesis by (auto simp: came_checked_def)
qed

section \<open>The properties\<close>

text \<open>
  C15: the helper is said to be ready only when the pinned version is what the app would run: its
  copy is in place, runs and reports that version; and a copy a run put there came from the
  pinned address with the pinned hash and was checked before anything was replaced.
\<close>

theorem ready_helper_is_pinned:
  assumes "installer_ok i" "ensure w platform i = ((InReady v, put), i')"
  shows "v = in_version i \<and> installed_version (copy_at i' (in_version i)) = Some (in_version i) \<and>
    usable_bin i' = Some (in_version i, bin_path i) \<and>
    (put \<longrightarrow> (\<exists>spec c. in_spec i = Some spec \<and> came_checked w spec c \<and> copy_at i' (in_version i) = Some c))"
proof -
  let ?i1 = "set_install InChecking i"
  have runs: "usable_bin j = Some (in_version i, bin_path i)"
    if "same_place i j" "installed_version (copy_at j (in_version i)) = Some (in_version i)" for j
    using that same_paths [OF that(1)]
    by (auto simp: usable_bin_def copy_runs_def installed_version_def same_place_def split: option.splits if_splits)
  show ?thesis
  proof (cases "installed_version (copy_at i (in_version i)) = Some (in_version i)")
    case True
    let ?j = "set_install (InReady (in_version i)) (drop_old (iw_deletes w) ?i1)"
    have e: "v = in_version i" "\<not> put" "i' = ?j"
      using assms(2) True by (auto simp: ensure_def Let_def install_failed_def split: if_splits)
    moreover have "copy_at ?j (in_version i) = copy_at i (in_version i)" by (simp add: copy_at_drop_old)
    moreover have "same_place i ?j"
      using same_place_trans [of i ?i1 "drop_old (iw_deletes w) ?i1"] same_place_trans [of i "drop_old (iw_deletes w) ?i1" ?j] by simp
    ultimately show ?thesis using True runs by simp
  next
    case False
    with assms(2) obtain spec i2 where s: "in_spec i = Some spec" and run: "install w spec ?i1 = (Ok (), i2)"
      and e: "v = rl_version spec" "put" "i' = set_install (InReady (rl_version spec)) i2"
      by (auto simp: ensure_def Let_def install_failed_def split: if_splits option.splits sum.splits prod.splits)
    have v: "rl_version spec = in_version i" using assms(1) s by (simp add: installer_ok_def)
    obtain c where c: "came_checked w spec c" "copy_at i2 (in_version i) = Some c" "installed_version (Some c) = Some (in_version i)"
      using install_done [OF run] v by auto
    have "same_place i i2"
      using install_keeps [OF run] same_place_trans [of i ?i1 i2] by (simp add: copies_kept_def)
    then have "same_place i i'" using same_place_trans [of i i2 i'] e(3) by simp
    with c e s v runs [of i'] show ?thesis by auto
  qed
qed

lemma ensure_keeps:
  assumes "ensure w platform i = ((st, put), i')"
  shows "copies_kept (\<exists>v. st = InReady v) i i' \<and> (put \<longrightarrow> (\<exists>v. st = InReady v))"
proof -
  let ?i1 = "set_install InChecking i"
  have drop: "copies_kept True i (set_install st (drop_old d ?i1))" for st d
    using same_place_trans [of i "drop_old d ?i1" "set_install st (drop_old d ?i1)"]
      same_place_trans [of i ?i1 "drop_old d ?i1"] releases_drop_old [of ?i1 d]
    by (auto simp: copies_kept_def copy_at_drop_old)
  have later: "copies_kept b i (set_install st j)" if "copies_kept b ?i1 j" for b st j
    using copies_kept_after [OF _ _ that, of i] same_place_trans [of i j "set_install st j"]
    by (simp add: copies_kept_def)
  have chk: "copies_kept b i (set_install st ?i1)" for b st
    using same_place_trans [of i ?i1 "set_install st ?i1"] by (simp add: copies_kept_same)
  show ?thesis
  proof (cases "in_stopped i \<or> installed_version (copy_at i (in_version i)) = Some (in_version i) \<or> in_spec i = None")
    case True
    then show ?thesis
      using assms drop chk by (auto simp: ensure_def Let_def install_failed_def copies_kept_same split: if_splits)
  next
    case False
    then obtain spec where spec: "in_spec i = Some spec" by auto
    obtain r j where run: "install w spec ?i1 = (r, j)" by fastforce
    from later [OF install_keeps [OF run]] have k: "copies_kept (r = Ok ()) i (set_install st j)" for st .
    consider "r = Ok ()" | f where "r = Err f" "r \<noteq> Ok ()" by (cases r) auto
    then show ?thesis
    proof cases
      case 1
      then show ?thesis using assms False spec run k by (auto simp: ensure_def Let_def split: if_splits)
    next
      case 2
      then show ?thesis
        using assms False spec run k by (cases f) (auto simp: ensure_def Let_def install_failed_def split: if_splits)
    qed
  qed
qed

lemma set_insert_copy: "set (insert_copy a xs) = insert a (set xs)"
  by (induction xs) auto

lemma set_sorted_copies: "set (foldr insert_copy xs []) = set xs"
  by (induction xs) (simp_all add: set_insert_copy)

lemma usable_bin_there:
  assumes "copy_runs i v"
  shows "usable_bin i \<noteq> None"
proof (cases "v = in_version i")
  case False
  then obtain c where "(v, c) \<in> set (in_releases i)" "dc_bin c"
    using assms by (auto simp: copy_runs_def copy_at_def split: option.splits dest: map_of_SomeD)
  with False have "old_copies i \<noteq> []" by (auto simp: old_copies_def set_sorted_copies simp flip: set_empty)
  then show ?thesis by (simp add: usable_bin_def split: list.split)
qed (use assms in \<open>simp add: usable_bin_def\<close>)


section \<open>The download again\<close>

lemma fetch_loop_ok:
  "fetch_loop announced sync ts got told = (Some (Ok ()), file, shown) \<Longrightarrow>
   (case announced of Some n \<Rightarrow> length file = n | None \<Rightarrow> True) \<and> (\<exists>more. file = got @ more)"
proof (induction ts arbitrary: got told)
  case (Cons t ts)
  then show ?case
    by (auto simp: fetch_end_def split: if_splits sum.splits option.splits) fastforce+
qed simp

section \<open>Examples\<close>

definition example_spec :: release_spec where
  "example_spec = \<lparr>rl_version = lit ''2'', rl_url = lit ''https://x'', rl_archive = lit ''d.tar'', rl_sha = lit ''ab''\<rparr>"

definition example_installer :: installer where
  "example_installer = new_installer (lit ''/a'') (lit ''cua-driver'') (Some example_spec)
     [(lit ''1'', \<lparr>dc_bin = True, dc_changed = 1, dc_says = Some (lit ''cua-driver 1''), dc_files = []\<rparr>)]"

definition example_install :: install_world where
  "example_install = \<lparr>iw_wall = 0, iw_timeout = None, iw_staging = None, iw_fetch = \<lambda>_. Ok [7], iw_read = None,
     iw_sha = \<lambda>_. lit ''AB'',
     iw_unpack = \<lambda>_. Ok \<lparr>dc_bin = True, dc_changed = 2, dc_says = Some (lit ''cua-driver 2''), dc_files = [lit ''cua_driver_abi.h'']\<rparr>,
     iw_stop = \<lambda>_. False, iw_releases = None, iw_remove = None, iw_rename = None, iw_deletes = \<lambda>_. True\<rparr>"

lemma example_installer_ok: "installer_ok example_installer"
  by (simp add: example_installer_def new_installer_def installer_ok_def example_spec_def)

lemma example_says: "version_word (lit ''cua-driver 2'') = Some (lit ''2'')"
  by (simp add: version_word_def lit_def is_whitespace_def)

lemma example_hash: "eq_ignore_ascii_case (lit ''AB'') (lit ''ab'')" "\<not> eq_ignore_ascii_case (lit ''00'') (lit ''ab'')"
  by (simp_all add: eq_ignore_ascii_case_def ascii_lower_def lit_def)

lemma drop_unused_version: "installed_version (Some (drop_unused c)) = installed_version (Some c)"
  by (simp add: installed_version_def drop_unused_def)

lemma example_fields:
  "iw_timeout example_install = None" "iw_staging example_install = None" "iw_fetch example_install u = Ok [7]" "iw_read example_install = None"
  "iw_sha example_install b = lit ''AB''" "iw_stop example_install k = False" "iw_releases example_install = None"
  "iw_remove example_install = None" "iw_rename example_install = None"
  "iw_unpack example_install b = Ok \<lparr>dc_bin = True, dc_changed = 2, dc_says = Some (lit ''cua-driver 2''), dc_files = [lit ''cua_driver_abi.h'']\<rparr>"
  "rl_version example_spec = lit ''2''" "rl_sha example_spec = lit ''ab''" "in_stopped example_installer = False"
  "in_spec example_installer = Some example_spec" "in_version example_installer = lit ''2''"
  "copy_at example_installer (lit ''2'') = None" "copy_runs example_installer (lit ''1'')"
  by (simp_all add: example_install_def example_spec_def example_installer_def new_installer_def copy_at_def copy_runs_def)

lemma example_run: "\<exists>j. install example_install example_spec i = (Ok (), j)"
proof -
  have "\<exists>j. install_switch example_install example_spec c i = (Ok (), j)" for c i
    by (simp add: install_switch_def Let_def example_fields)
  then have "\<exists>j. install_verify example_install example_spec (drop_unused c) i = (Ok (), j)"
    if "installed_version (Some c) = Some (lit ''2'')" for c i
    using that by (simp add: install_verify_def Let_def check_stop_def drop_unused_version example_fields)
  then have "\<exists>j. install_unpack example_install example_spec b i = (Ok (), j)" for b i
    by (simp add: install_unpack_def Let_def check_stop_def example_fields installed_version_def example_says)
  then have "\<exists>j. install_check example_install example_spec b i = (Ok (), j)" for b i
    by (simp add: install_check_def check_stop_def example_fields example_hash)
  then show ?thesis by (simp add: install_def Let_def example_fields)
qed

theorem ready_helper_is_pinned_witness:
  "\<exists>i'. usable_bin i' = Some (lit ''2'', bin_path example_installer)"
proof -
  obtain j where j: "install example_install example_spec (set_install InChecking example_installer) = (Ok (), j)"
    using example_run by blast
  have "ensure example_install [] example_installer = ((InReady (lit ''2''), True), set_install (InReady (lit ''2'')) j)"
    using j by (simp add: ensure_def Let_def example_fields installed_version_def)
  from ready_helper_is_pinned [OF example_installer_ok this] show ?thesis by (auto simp: example_fields)
qed


end
