(* ===== verification/Driver_Session.thy ===== *)
theory Driver_Session
  imports Computer_Guard Core_Policy Driver_Install Driver_Manifest
begin

text \<open>
  \<open>core.rs\<close> and \<open>cua.rs\<close>: the app's own driver daemon: how it is started and watched until it
  listens, when it is replaced, the wait after a failed start, the sessions that hold it, the
  driver in place and its status, the update of the helper. Processes, the file system and
  the operating system's settings are parameters. \<open>dw_gap\<close> is what other tasks do at an await;
  the lock on the daemon is held over all of them but \<open>AwaitLock\<close>. A stop is two steps, for
  the lock is let go before the daemon has ended.
\<close>

section \<open>The wait after a failed start\<close>

definition DAEMON_RETRY_AFTER :: "instant list" where
  "DAEMON_RETRY_AFTER = [seconds 5, seconds 15, seconds 60, seconds 300]"

definition wait_left :: "instant \<Rightarrow> start_backoff \<Rightarrow> nat option" where
  "wait_left now b =
     (case sb_not_before b of
        None \<Rightarrow> None
      | Some until \<Rightarrow> if now \<le> until then Some (max ((until - now) div seconds 1) 1) else None)"

definition start_failed :: "instant \<Rightarrow> utext \<Rightarrow> start_backoff \<Rightarrow> start_backoff" where
  "start_failed now why b =
     \<lparr>sb_failures = sb_failures b + 1,
      sb_not_before = Some (now + DAEMON_RETRY_AFTER ! min (sb_failures b) (length DAEMON_RETRY_AFTER - 1)),
      sb_last_error = why\<rparr>"

section \<open>The driver in place\<close>

datatype driver_status = StatusOk | NotInstalled | NoPermissions | DaemonDown | OtherStatus utext

fun status_label :: "driver_status \<Rightarrow> utext" where
  "status_label StatusOk = lit ''ok''"
| "status_label NotInstalled = lit ''not_installed''"
| "status_label NoPermissions = lit ''no_permissions''"
| "status_label DaemonDown = lit ''daemon_down''"
| "status_label (OtherStatus s) = s"

record detection =
  de_installed :: bool
  de_version :: "utext option"
  de_path :: utext

datatype cua_attach = PrivateDaemon | UserDaemon

datatype daemon_await = AwaitLock | AwaitDiscard | AwaitStop | AwaitStart | AwaitInstall

datatype process_watch = StillRuns | HasExited utext | CannotWatch utext

record driver_state =
  ds_sh :: shared
  ds_inst :: "installer option"
  ds_probe :: "(instant \<times> detection) option"
  ds_spawned :: "utext list list"   \<comment> \<open>the command lines of the daemons started, a log\<close>

record driver_world =
  dw_attach :: cua_attach
  dw_bin :: utext                   \<comment> \<open>the binary as configured\<close>
  dw_now :: instant
  dw_ready :: instant               \<comment> \<open>when the start of a daemon has ended, well or not\<close>
  dw_windows :: bool
  dw_temp :: utext
  dw_pid :: nat
  dw_suffix :: nat
  dw_pipe :: nat                    \<comment> \<open>the suffix of the pipe's name\<close>
  dw_themes :: "bool option"        \<comment> \<open>the look: themes, the system's wish, the display\<close>
  dw_reduced :: bool
  dw_support :: look_support
  dw_lower :: "utext \<Rightarrow> utext"
  dw_files :: file_view
  dw_alive :: "daemon \<Rightarrow> bool"
  dw_mkdir :: "utext option"
  dw_log :: "utext option"
  dw_write :: "utext option"
  dw_spawn :: "utext option"
  dw_listens :: "nat \<Rightarrow> bool"       \<comment> \<open>at the n-th look\<close>
  dw_watch :: "nat \<Rightarrow> process_watch"
  dw_late :: "nat \<Rightarrow> bool"
  dw_log_text :: utext
  dw_says :: "utext \<Rightarrow> utext option" \<comment> \<open>what a binary prints for \<open>--version\<close>\<close>
  dw_status :: "utext \<Rightarrow> (utext, utext) result"
  dw_permissions :: "(bool \<times> bool) option"
  dw_deletes :: "utext \<Rightarrow> bool"
  dw_gap :: "daemon_await \<Rightarrow> driver_state \<Rightarrow> driver_state"

definition on_core :: "(shared \<Rightarrow> shared) \<Rightarrow> driver_state \<Rightarrow> driver_state" where
  "on_core f st = st\<lparr>ds_sh := f (ds_sh st)\<rparr>"

definition on_installer :: "(installer \<Rightarrow> installer) \<Rightarrow> driver_state \<Rightarrow> driver_state" where
  "on_installer f st = st\<lparr>ds_inst := map_option f (ds_inst st)\<rparr>"

definition detect :: "driver_world \<Rightarrow> utext \<Rightarrow> detection" where
  "detect w bin =
     (case dw_says w bin of
        Some out \<Rightarrow> \<lparr>de_installed = True, de_version = version_word out, de_path = bin\<rparr>
      | None \<Rightarrow> \<lparr>de_installed = False, de_version = None, de_path = bin\<rparr>)"

definition cua_bin_now :: "driver_world \<Rightarrow> driver_state \<Rightarrow> utext" where
  "cua_bin_now w st =
     (case ds_inst st of
        Some i \<Rightarrow> (case usable_bin i of Some (_, bin) \<Rightarrow> bin | None \<Rightarrow> dw_bin w)
      | None \<Rightarrow> dw_bin w)"

definition cua_proxy_bin :: "driver_world \<Rightarrow> driver_state \<Rightarrow> utext" where
  "cua_proxy_bin w st = (case sh_daemon_bin (ds_sh st) of Some b \<Rightarrow> b | None \<Rightarrow> cua_bin_now w st)"

definition CUA_PROBE_TTL :: instant where "CUA_PROBE_TTL = seconds 5"

definition known_copy :: "installer \<Rightarrow> utext option option" where
  \<comment> \<open>None: the binary has to be asked\<close>
  "known_copy i =
     (case in_state i of
        InReady v \<Rightarrow> Some (Some v)
      | InIdle \<Rightarrow> None
      | InChecking \<Rightarrow> None
      | _ \<Rightarrow> Some (map_option fst (usable_bin i)))"

definition cua_detect :: "driver_world \<Rightarrow> bool \<Rightarrow> driver_state \<Rightarrow> detection \<times> driver_state" where
  "cua_detect w again st =
     (case Option.bind (ds_inst st) known_copy of
        Some v \<Rightarrow> (\<lparr>de_installed = v \<noteq> None, de_version = v, de_path = dw_bin w\<rparr>, st)
      | None \<Rightarrow>
          (let asked = (let d = detect w (cua_bin_now w st) in (d, st\<lparr>ds_probe := Some (dw_now w, d)\<rparr>))
           in case ds_probe st of
                Some (since, d) \<Rightarrow> if \<not> again \<and> elapsed (dw_now w) since < CUA_PROBE_TTL then (d, st) else asked
              | None \<Rightarrow> asked))"

fun text_lines :: "utext \<Rightarrow> utext list" where
  \<comment> \<open>\<open>str::lines\<close>: the end of a line is a line feed, with or without a return before it\<close>
  "text_lines [] = []"
| "text_lines (c # cs) =
     (let l = takeWhile (\<lambda>x. x \<noteq> 10) (c # cs);
          shown = (if l \<noteq> [] \<and> last l = 13 \<and> length l < length (c # cs) then butlast l else l)
      in shown # text_lines (drop (length l + 1) (c # cs)))"

definition status_socket :: "utext \<Rightarrow> utext option" where
  \<comment> \<open>the first line that gives one\<close>
  "status_socket line = (case strip_prefix (lit ''socket:'') (trim line) of
      Some p \<Rightarrow> if trim p \<noteq> [] then Some (trim p) else None | None \<Rightarrow> None)"

definition user_daemon_socket :: "driver_world \<Rightarrow> utext \<Rightarrow> (refusal, utext) result" where
  "user_daemon_socket w bin =
     (case dw_status w bin of
        Err e \<Rightarrow> Err (Failed (lit ''unavailable: cannot run '' @ bin @ lit '': '' @ e))
      | Ok out \<Rightarrow>
          if \<not> contains_str (lit ''daemon is running'') out
          then Err (Failed (lit ''unavailable: the Cua Driver daemon is not running''))
          else case List.map_filter status_socket (text_lines out) of
                 s # _ \<Rightarrow> Ok s
               | [] \<Rightarrow> Err (Failed (lit ''unavailable: cua-driver status reported no socket'')))"

definition cua_status :: "driver_world \<Rightarrow> driver_state \<Rightarrow> (utext \<times> utext) \<times> driver_state" where
  "cua_status w st =
     (let (d, st1) = cua_detect w False st;
          version = (case de_version d of Some v \<Rightarrow> v | None \<Rightarrow> [])
      in if \<not> de_installed d then (([], status_label NotInstalled), st1)
         else if \<not> c_enabled (st_computer (sh_settings (ds_sh st1))) then ((version, status_label StatusOk), st1)
         else case dw_attach w of
                UserDaemon \<Rightarrow> ((version, status_label (if is_ok (user_daemon_socket w (dw_bin w)) then StatusOk else DaemonDown)), st1)
              | PrivateDaemon \<Rightarrow>
                  (case dw_permissions w of
                     Some (access, screen) \<Rightarrow> ((version, status_label (if access \<and> screen then StatusOk else NoPermissions)), st1)
                   | None \<Rightarrow> ((version, status_label StatusOk), st1)))"

section \<open>A daemon is started\<close>

definition bounded_args :: "utext \<Rightarrow> utext list" where
  "bounded_args path = [lit ''--permission-mode'', lit ''bounded'', lit ''--capability-manifest'', path,
     lit ''--approve-capability-manifest'']"

definition mcp_argv :: "utext \<Rightarrow> utext \<Rightarrow> bool \<Rightarrow> utext list" where
  "mcp_argv bin socket embedded =
     [bin, lit ''mcp''] @ (if embedded then [lit ''--embedded''] else []) @ [lit ''--socket'', socket]"

definition install_argv :: "utext \<Rightarrow> utext list" where
  "install_argv bin = [bin, lit ''update'', lit ''--apply'']"

definition permissions_grant_argv :: "utext \<Rightarrow> utext list" where
  "permissions_grant_argv bin = [bin, lit ''permissions'', lit ''grant'']"

definition theme_dir :: "utext option \<Rightarrow> utext option" where
  "theme_dir home = map_option (\<lambda>h. path_join h (lit ''cursor-themes'')) home"

definition driver_env :: "utext option \<Rightarrow> (utext \<times> utext) list" where
  "driver_env home =
     [(lit ''DO_NOT_TRACK'', lit ''1''), (lit ''CUA_DRIVER_RS_TELEMETRY_ENABLED'', lit ''0''), (lit ''CUA_TELEMETRY_ENABLED'', lit ''0''),
      (lit ''CUA_DRIVER_RS_UPDATE_CHECK'', lit ''0'')] @
     (case home of Some h \<Rightarrow> [(lit ''CUA_DRIVER_RS_HOME'', h)] | None \<Rightarrow> []) @
     (case theme_dir home of Some t \<Rightarrow> [(lit ''CUA_DRIVER_CURSOR_THEME_DIR'', t)] | None \<Rightarrow> [])"

definition private_endpoint :: "driver_world \<Rightarrow> utext \<Rightarrow> utext" where
  "private_endpoint w dir =
     (if dw_windows w then [92, 92, 46, 92] @ lit ''pipe'' @ [92] @ lit ''snth-connect-cua-'' @ digits (dw_pid w) @ lit ''-'' @ digits (dw_pipe w)
      else path_join dir (lit ''cua.sock''))"

definition daemon_dir :: "driver_world \<Rightarrow> utext" where
  "daemon_dir w = path_join (dw_temp w) (lit ''connect-cua-'' @ digits (dw_pid w) @ lit ''-'' @ digits (dw_suffix w))"

definition look_now :: "driver_world \<Rightarrow> settings \<Rightarrow> utext list" where
  "look_now w s = look_flags (c_look (st_computer s)) (dw_themes w) (dw_reduced w) (dw_support w)"

definition serve_args :: "driver_world \<Rightarrow> utext \<Rightarrow> settings \<Rightarrow> utext list" where
  "serve_args w bin s =
     (let dir = daemon_dir w
      in [bin, lit ''serve'', lit ''--embedded''] @ (if dw_windows w then [lit ''--parent-liveness-stdio''] else []) @
         [lit ''--host-bundle-id'', lit ''ai.snth.connect'', lit ''--socket'', private_endpoint w dir,
          lit ''--pid-file'', path_join dir (lit ''cua.pid'')] @ look_now w s @
         (case manifest (dw_lower w) (dw_files w) (scope_of_settings s) of
            Some _ \<Rightarrow> bounded_args (path_join dir (lit ''apps.yaml'')) | None \<Rightarrow> []))"

fun drop_bytes :: "nat \<Rightarrow> utext \<Rightarrow> utext" where
  \<comment> \<open>at least so many bytes, whole characters\<close>
  "drop_bytes n [] = []"
| "drop_bytes n (c # cs) = (if n = 0 then c # cs else drop_bytes (n - char_utf8_len c) cs)"

definition log_tail :: "utext \<Rightarrow> utext" where
  "log_tail text_of =
     (let ls = text_lines text_of; out = join (lit '' | '') (drop (length ls - 6) ls)
      in if 600 < utf8_len out then drop_bytes (utf8_len out - 600) out else out)"

text \<open>
  The looks are at least 100 ms apart: the 200th is after the 20 s a daemon may take. None is
  a daemon that listens.
\<close>

definition DAEMON_LOOKS :: nat where "DAEMON_LOOKS = 200"

function ready_loop :: "driver_world \<Rightarrow> nat \<Rightarrow> utext option" where
  "ready_loop w n =
     (if dw_listens w n then None
      else case dw_watch w n of
             HasExited status \<Rightarrow> Some (lit ''the helper daemon exited before it was ready ('' @ status @ lit ''): '' @ log_tail (dw_log_text w))
           | CannotWatch e \<Rightarrow> Some (lit ''cannot watch the helper daemon: '' @ e)
           | StillRuns \<Rightarrow>
               if DAEMON_LOOKS \<le> n \<or> dw_late w n
               then Some (lit ''the helper daemon was not listening after 20 s: '' @ log_tail (dw_log_text w))
               else ready_loop w (Suc n))"
  by auto
termination by (relation "measure (\<lambda>(w, n). DAEMON_LOOKS - n)") auto

declare ready_loop.simps [simp del]

definition daemon_start :: "driver_world \<Rightarrow> utext \<Rightarrow> settings \<Rightarrow> driver_state \<Rightarrow> (utext, daemon) result \<times> driver_state" where
  "daemon_start w bin s st =
     (case dw_mkdir w of Some e \<Rightarrow> (Err e, st) | None \<Rightarrow>
       (case dw_log w of Some e \<Rightarrow> (Err e, st) | None \<Rightarrow>
         (if manifest (dw_lower w) (dw_files w) (scope_of_settings s) \<noteq> None \<and> dw_write w \<noteq> None
          then (Err (the (dw_write w)), st)
          else case dw_spawn w of
                 Some e \<Rightarrow> (Err e, st)
               | None \<Rightarrow>
                   (let st1 = dw_gap w AwaitStart (st\<lparr>ds_spawned := ds_spawned st @ [serve_args w bin s]\<rparr>)
                    in case ready_loop w 0 of
                         Some why \<Rightarrow> (Err why, st1)
                       | None \<Rightarrow>
                           (Ok \<lparr>dm_bin = bin, dm_socket = private_endpoint w (daemon_dir w), dm_scope = scope_of_settings s,
                                dm_look = look_now w s, dm_started = dw_ready w\<rparr>, st1)))))"

section \<open>Where the daemon is\<close>

record endpoint =
  ep_socket :: utext
  ep_embedded :: bool
  ep_scope :: scope
  ep_look :: "utext list option"
  ep_started :: instant
  ep_bin :: "utext option"

definition RENEW_AFTER :: instant where "RENEW_AFTER = seconds (12 * 60 * 60)"

definition lease_old :: "instant \<Rightarrow> scope \<Rightarrow> instant \<Rightarrow> bool" where
  "lease_old now sc started \<longleftrightarrow> sp_policy sc = PolOnly \<and> RENEW_AFTER \<le> elapsed now started"

definition daemon_gone_for :: "driver_world \<Rightarrow> driver_state \<Rightarrow> driver_state" where
  "daemon_gone_for w st = on_installer (release_old (dw_deletes w)) (on_core daemon_gone st)"

definition drop_dead :: "driver_world \<Rightarrow> driver_state \<Rightarrow> driver_state" where
  "drop_dead w st =
     (case sh_daemon (ds_sh st) of
        Some d \<Rightarrow> if dw_alive w d then st
          else daemon_gone_for w (dw_gap w AwaitDiscard (on_core (\<lambda>sh. sh\<lparr>sh_daemon := None\<rparr>) st))
      | None \<Rightarrow> st)"

definition why_replace :: "driver_world \<Rightarrow> settings \<Rightarrow> utext \<Rightarrow> daemon \<Rightarrow> string option" where
  "why_replace w s bin d =
     (if dm_look d \<noteq> look_now w s then Some ''the look changed''
      else if dm_scope d \<noteq> scope_of_settings s then Some ''the owner's choice of apps changed''
      else if lease_old (dw_now w) (dm_scope d) (dm_started d) then Some ''its permissions are half a day old''
      else if dm_bin d \<noteq> bin then Some ''a new version of the helper is in place''
      else None)"

definition replace_outdated :: "driver_world \<Rightarrow> settings \<Rightarrow> utext \<Rightarrow> driver_state \<Rightarrow> driver_state" where
  "replace_outdated w s bin st =
     (if sh_cua_sessions (ds_sh st) \<noteq> 0 then st
      else case Option.bind (sh_daemon (ds_sh st)) (why_replace w s bin) of
             None \<Rightarrow> st
           | Some _ \<Rightarrow> daemon_gone_for w (dw_gap w AwaitStop (on_core (\<lambda>sh. sh\<lparr>sh_daemon := None\<rparr>) st)))"

definition bin_is_file :: "driver_state \<Rightarrow> utext \<Rightarrow> bool" where
  "bin_is_file st bin \<longleftrightarrow> (case ds_inst st of None \<Rightarrow> True
     | Some i \<Rightarrow> list_ex (\<lambda>(v, c). copy_bin i v = bin \<and> dc_bin c) (in_releases i))"

definition take_daemon :: "daemon \<Rightarrow> driver_state \<Rightarrow> driver_state" where
  "take_daemon d st =
     on_core (\<lambda>sh. sh\<lparr>sh_daemon_bin := Some (dm_bin d), sh_daemon := Some d\<rparr>)
       (on_installer (hold_copy (dm_bin d)) (on_core (\<lambda>sh. sh\<lparr>sh_backoff := no_backoff\<rparr>) st))"

definition start_one :: "driver_world \<Rightarrow> settings \<Rightarrow> utext \<Rightarrow> driver_state \<Rightarrow> (refusal, unit) result \<times> driver_state" where
  "start_one w s bin st =
     (if sh_daemon (ds_sh st) \<noteq> None then (Ok (), st)
      else if ds_inst st \<noteq> None \<and> \<not> bin_is_file st bin
      then (Err (Failed (lit ''unavailable: the computer-control helper is not installed yet'')), st)
      else case wait_left (dw_now w) (sh_backoff (ds_sh st)) of
             Some secs \<Rightarrow>
               (Err (Failed (lit ''unavailable: the computer-control helper did not start ('' @ sb_last_error (sh_backoff (ds_sh st)) @
                  lit ''); next try in '' @ digits secs @ lit '' s'')), st)
           | None \<Rightarrow>
               (case daemon_start w bin s st of
                  (Ok d, st1) \<Rightarrow> (Ok (), take_daemon d st1)
                | (Err why, st1) \<Rightarrow>
                    (Err (Failed (lit ''unavailable: start private Cua daemon: '' @ why)),
                     on_core (\<lambda>sh. sh\<lparr>sh_backoff := start_failed (dw_ready w) why (sh_backoff sh)\<rparr>) st1)))"

definition count_session :: "bool \<Rightarrow> driver_state \<Rightarrow> driver_state" where
  "count_session session st = (if session then on_core (\<lambda>sh. sh\<lparr>sh_cua_sessions := sh_cua_sessions sh + 1\<rparr>) st else st)"

definition endpoint_of :: "daemon \<Rightarrow> endpoint" where
  "endpoint_of d = \<lparr>ep_socket = dm_socket d, ep_embedded = True, ep_scope = dm_scope d, ep_look = Some (dm_look d),
     ep_started = dm_started d, ep_bin = Some (dm_bin d)\<rparr>"

definition endpoint_locked :: "driver_world \<Rightarrow> bool \<Rightarrow> driver_state \<Rightarrow> (refusal, endpoint) result \<times> driver_state" where
  "endpoint_locked w session st =
     (let st1 = drop_dead w st;
          s = sh_settings (ds_sh st1);
          bin = cua_bin_now w st1;
          (started, st3) = start_one w s bin (replace_outdated w s bin st1)
      in case started of
           Err e \<Rightarrow> (Err e, st3)
         | Ok _ \<Rightarrow> (Ok (endpoint_of (the (sh_daemon (ds_sh st3)))), count_session session st3))"

definition cua_endpoint_at :: "driver_world \<Rightarrow> bool \<Rightarrow> driver_state \<Rightarrow> (refusal, endpoint) result \<times> driver_state" where
  "cua_endpoint_at w session st =
     (if sh_paused (ds_sh st) then (Err (Denied (lit ''computer use is paused by the owner'')), st)
      else if \<not> c_enabled (st_computer (sh_settings (ds_sh st)))
      then (Err (Denied (lit ''computer use is turned off on this computer'')), st)
      else case dw_attach w of
             UserDaemon \<Rightarrow>
               (case user_daemon_socket w (dw_bin w) of
                  Err e \<Rightarrow> (Err e, st)
                | Ok socket \<Rightarrow>
                    (Ok \<lparr>ep_socket = socket, ep_embedded = False, ep_scope = scope_of_settings (sh_settings (ds_sh st)),
                         ep_look = None, ep_started = dw_now w, ep_bin = None\<rparr>, count_session session st))
           | PrivateDaemon \<Rightarrow> endpoint_locked w session (dw_gap w AwaitLock st))"

definition cua_session :: "driver_world \<Rightarrow> driver_state \<Rightarrow> (refusal, endpoint) result \<times> driver_state" where
  "cua_session w st = cua_endpoint_at w True st"

definition drop_session :: "driver_state \<Rightarrow> driver_state" where
  "drop_session st = on_core (\<lambda>sh. sh\<lparr>sh_cua_sessions := sh_cua_sessions sh - 1\<rparr>) st"

definition outdated :: "driver_world \<Rightarrow> endpoint \<Rightarrow> driver_state \<Rightarrow> bool" where
  "outdated w e st \<longleftrightarrow>
     (let s = sh_settings (ds_sh st)
      in ep_scope e \<noteq> scope_of_settings s
       \<or> (ep_embedded e \<and> lease_old (dw_now w) (ep_scope e) (ep_started e))
       \<or> (case ep_bin e of Some b \<Rightarrow> b \<noteq> cua_bin_now w st | None \<Rightarrow> False)
       \<or> (case ep_look e of Some l \<Rightarrow> l \<noteq> look_now w s | None \<Rightarrow> False))"

section \<open>Stopping it, updating the helper\<close>

definition stop_begin :: "driver_state \<Rightarrow> driver_state" where
  \<comment> \<open>the daemon is taken; the lock is let go, and its process is told to end\<close>
  "stop_begin st = on_core (\<lambda>sh. sh\<lparr>sh_daemon := None\<rparr>) st"

definition stop_end :: "driver_world \<Rightarrow> driver_state \<Rightarrow> driver_state" where
  "stop_end w st =
     on_core (\<lambda>sh. clear_task (sh\<lparr>sh_directory := dir_stop (sh_directory sh)\<rparr>)) (daemon_gone_for w st)"

definition stop_daemon :: "driver_world \<Rightarrow> driver_state \<Rightarrow> driver_state" where
  "stop_daemon w st = stop_end w (dw_gap w AwaitStop (stop_begin st))"

definition cua_ensure :: "driver_world \<Rightarrow> install_world \<Rightarrow> utext \<Rightarrow> driver_state \<Rightarrow> install_state \<times> driver_state" where
  "cua_ensure w iw platform st =
     (case ds_inst st of
        None \<Rightarrow>
          (let (d, st1) = cua_detect w True st
           in (case de_version d of
                 Some v \<Rightarrow> if de_installed d then InReady v
                   else InFailed FailUnsupported (lit ''this core does not manage a private driver copy'')
               | None \<Rightarrow> InFailed FailUnsupported (lit ''this core does not manage a private driver copy''), st1))
      | Some i \<Rightarrow>
          (let ((state, put), i1) = ensure iw platform i;
               st1 = dw_gap w AwaitInstall (st\<lparr>ds_inst := Some i1\<rparr>)
           in if \<not> put then (state, st1)
              else let st2 = (if sh_cua_sessions (ds_sh st1) = 0 then stop_daemon w st1 else st1)
                   in (state, on_core (\<lambda>sh. snd (mutate_settings (\<lambda>s. s) sh)) (st2\<lparr>ds_probe := None\<rparr>))))"

section \<open>What the lock gives\<close>

text \<open>
  The rely condition of the operations that hold the lock: at their awaits other tasks neither
  start nor take a daemon nor change the copies on disk, and open no session (a session is
  counted under the lock); sessions may end.
\<close>

definition lock_kept :: "driver_world \<Rightarrow> bool" where
  "lock_kept w \<longleftrightarrow> (\<forall>x st. x \<noteq> AwaitLock \<longrightarrow>
     sh_daemon (ds_sh (dw_gap w x st)) = sh_daemon (ds_sh st) \<and> sh_daemon_bin (ds_sh (dw_gap w x st)) = sh_daemon_bin (ds_sh st) \<and>
     ds_inst (dw_gap w x st) = ds_inst st \<and> ds_spawned (dw_gap w x st) = ds_spawned st \<and>
     sh_backoff (ds_sh (dw_gap w x st)) = sh_backoff (ds_sh st) \<and>
     sh_cua_sessions (ds_sh (dw_gap w x st)) \<le> sh_cua_sessions (ds_sh st))"

lemma lock_keptD:
  assumes "lock_kept w" "x \<noteq> AwaitLock"
  shows "sh_daemon (ds_sh (dw_gap w x st)) = sh_daemon (ds_sh st)" "sh_daemon_bin (ds_sh (dw_gap w x st)) = sh_daemon_bin (ds_sh st)"
    "ds_inst (dw_gap w x st) = ds_inst st" "ds_spawned (dw_gap w x st) = ds_spawned st"
    "sh_cua_sessions (ds_sh (dw_gap w x st)) \<le> sh_cua_sessions (ds_sh st)"
    "sh_backoff (ds_sh (dw_gap w x st)) = sh_backoff (ds_sh st)"
  using assms by (simp_all add: lock_kept_def)

lemma driver_parts [simp]:
  "ds_sh (on_core f st) = f (ds_sh st)" "ds_inst (on_core f st) = ds_inst st" "ds_spawned (on_core f st) = ds_spawned st"
  "ds_sh (on_installer g st) = ds_sh st" "ds_inst (on_installer g st) = map_option g (ds_inst st)"
  "ds_spawned (on_installer g st) = ds_spawned st"
  "ds_sh (daemon_gone_for w st) = daemon_gone (ds_sh st)" "ds_spawned (daemon_gone_for w st) = ds_spawned st"
  "ds_inst (daemon_gone_for w st) = map_option (release_old (dw_deletes w)) (ds_inst st)"
  by (simp_all add: on_core_def on_installer_def daemon_gone_for_def)

lemma daemon_gone_parts [simp]:
  "sh_daemon (daemon_gone sh) = sh_daemon sh" "sh_daemon_bin (daemon_gone sh) = None"
  "sh_cua_sessions (daemon_gone sh) = sh_cua_sessions sh" "sh_persisted (daemon_gone sh) = sh_persisted sh"
  "sh_backoff (daemon_gone sh) = sh_backoff sh" "sh_paused (daemon_gone sh) = sh_paused sh"
  by (simp_all add: daemon_gone_def)

lemma drop_dead_facts:
  assumes "lock_kept w"
  shows "sh_daemon (ds_sh (drop_dead w st)) = (case sh_daemon (ds_sh st) of Some d \<Rightarrow> if dw_alive w d then Some d else None | None \<Rightarrow> None)"
    "sh_cua_sessions (ds_sh (drop_dead w st)) \<le> sh_cua_sessions (ds_sh st)"
    "ds_spawned (drop_dead w st) = ds_spawned st"
    "sh_daemon (ds_sh (drop_dead w st)) \<noteq> None \<Longrightarrow> drop_dead w st = st"
  using lock_keptD [OF assms, of AwaitDiscard "on_core (\<lambda>sh. sh\<lparr>sh_daemon := None\<rparr>) st"]
  by (auto simp: drop_dead_def split: option.splits)

lemma replace_facts:
  assumes "lock_kept w"
  shows "sh_daemon (ds_sh (replace_outdated w s bin st)) =
      (if sh_cua_sessions (ds_sh st) = 0 \<and> Option.bind (sh_daemon (ds_sh st)) (why_replace w s bin) \<noteq> None then None else sh_daemon (ds_sh st))"
    "sh_cua_sessions (ds_sh (replace_outdated w s bin st)) \<le> sh_cua_sessions (ds_sh st)"
    "ds_spawned (replace_outdated w s bin st) = ds_spawned st"
    "sh_daemon (ds_sh (replace_outdated w s bin st)) \<noteq> None \<Longrightarrow> replace_outdated w s bin st = st"
  using lock_keptD [OF assms, of AwaitStop "on_core (\<lambda>sh. sh\<lparr>sh_daemon := None\<rparr>) st"]
  by (auto simp: replace_outdated_def split: option.splits)

definition started_by :: "driver_world \<Rightarrow> settings \<Rightarrow> utext \<Rightarrow> daemon" where
  "started_by w s bin = \<lparr>dm_bin = bin, dm_socket = private_endpoint w (daemon_dir w), dm_scope = scope_of_settings s,
     dm_look = look_now w s, dm_started = dw_ready w\<rparr>"

lemma daemon_start_facts:
  assumes "lock_kept w" "daemon_start w bin s st = (r, st')"
  shows "r = Ok d \<Longrightarrow> d = started_by w s bin" "sh_daemon (ds_sh st') = sh_daemon (ds_sh st)"
    "sh_daemon_bin (ds_sh st') = sh_daemon_bin (ds_sh st)" "ds_inst st' = ds_inst st"
    "sh_cua_sessions (ds_sh st') \<le> sh_cua_sessions (ds_sh st)"
    "ds_spawned st' = ds_spawned st \<or> ds_spawned st' = ds_spawned st @ [serve_args w bin s] \<and>
       (manifest (dw_lower w) (dw_files w) (scope_of_settings s) \<noteq> None \<longrightarrow> dw_write w = None)"
    "\<And>d. r = Ok d \<Longrightarrow> ds_spawned st' \<noteq> ds_spawned st"
  using assms(2) lock_keptD [OF assms(1), of AwaitStart "st\<lparr>ds_spawned := ds_spawned st @ [serve_args w bin s]\<rparr>"]
  by (auto simp: daemon_start_def started_by_def Let_def split: option.splits if_splits)

lemma start_one_cases:
  assumes "start_one w s bin st = (r, st')"
  obtains (there) "sh_daemon (ds_sh st) \<noteq> None" "r = Ok ()" "st' = st"
  | (refused) "sh_daemon (ds_sh st) = None" "r \<noteq> Ok ()" "st' = st"
  | (started) d st1 where "sh_daemon (ds_sh st) = None" "daemon_start w bin s st = (Ok d, st1)" "r = Ok ()" "st' = take_daemon d st1"
      "ds_inst st \<noteq> None \<longrightarrow> bin_is_file st bin"
  | (failed) why st1 where "sh_daemon (ds_sh st) = None" "daemon_start w bin s st = (Err why, st1)" "r \<noteq> Ok ()"
      "st' = on_core (\<lambda>sh. sh\<lparr>sh_backoff := start_failed (dw_ready w) why (sh_backoff sh)\<rparr>) st1"
      "wait_left (dw_now w) (sh_backoff (ds_sh st)) = None"
proof (cases "sh_daemon (ds_sh st) = None")
  case none: True
  show ?thesis
  proof (cases "(ds_inst st \<noteq> None \<and> \<not> bin_is_file st bin) \<or> wait_left (dw_now w) (sh_backoff (ds_sh st)) \<noteq> None")
    case True
    then have "r \<noteq> Ok ()" "st' = st" using assms none by (auto simp: start_one_def split: option.splits if_splits)
    then show ?thesis using refused none by simp
  next
    case False
    obtain q st1 where q: "daemon_start w bin s st = (q, st1)" by fastforce
    show ?thesis
      using assms none False q started failed by (cases q) (auto simp: start_one_def split: if_splits)
  qed
next
  case False
  then have "r = Ok ()" "st' = st" using assms by (simp_all add: start_one_def split: if_splits)
  with False show ?thesis by (rule there)
qed

lemma take_daemon_parts [simp]:
  "sh_daemon (ds_sh (take_daemon d st)) = Some d" "sh_daemon_bin (ds_sh (take_daemon d st)) = Some (dm_bin d)"
  "sh_cua_sessions (ds_sh (take_daemon d st)) = sh_cua_sessions (ds_sh st)" "ds_spawned (take_daemon d st) = ds_spawned st"
  "ds_inst (take_daemon d st) = map_option (hold_copy (dm_bin d)) (ds_inst st)"
  "sh_backoff (ds_sh (take_daemon d st)) = no_backoff"
  by (simp_all add: take_daemon_def)

section \<open>Sessions\<close>

definition fits :: "driver_world \<Rightarrow> settings \<Rightarrow> utext \<Rightarrow> daemon \<Rightarrow> bool" where
  "fits w s bin d \<longleftrightarrow> dm_look d = look_now w s \<and> dm_scope d = scope_of_settings s \<and> dm_bin d = bin \<and>
     \<not> lease_old (dw_now w) (dm_scope d) (dm_started d)"

lemma why_replace_fits: "why_replace w s bin d = None \<longleftrightarrow> fits w s bin d"
  by (auto simp: why_replace_def fits_def)

lemma started_fits: "dw_now w \<le> dw_ready w \<Longrightarrow> fits w s bin (started_by w s bin)"
  by (simp add: fits_def started_by_def lease_old_def RENEW_AFTER_def elapsed_def seconds_def)


section \<open>The daemon over time\<close>

text \<open>
  What happens to the daemon, one operation after the other (the lock makes them so, but for
  the end of a stop, which is shown apart).
\<close>

datatype driver_event =
    SessionOpens driver_world
  | DaemonAsked driver_world
  | SessionEnds
  | OwnerStops driver_world
  | HelperUpdates driver_world install_world utext
  | OwnerChooses "settings \<Rightarrow> settings"

fun driver_next :: "driver_event \<Rightarrow> driver_state \<Rightarrow> driver_state" where
  "driver_next (SessionOpens w) st = snd (cua_session w st)"
| "driver_next (DaemonAsked w) st = snd (cua_endpoint_at w False st)"
| "driver_next SessionEnds st = drop_session st"
| "driver_next (OwnerStops w) st = stop_daemon w st"
| "driver_next (HelperUpdates w iw platform) st = snd (cua_ensure w iw platform st)"
| "driver_next (OwnerChooses f) st = on_core (\<lambda>sh. snd (mutate_settings f sh)) st"

definition driver_run :: "driver_event list \<Rightarrow> driver_state \<Rightarrow> driver_state" where
  "driver_run es st = fold driver_next es st"

definition calm :: "driver_world \<Rightarrow> bool" where
  "calm w \<longleftrightarrow> lock_kept w \<and> (\<forall>st. dw_gap w AwaitLock st = st)"

fun calm_event :: "driver_event \<Rightarrow> bool" where
  "calm_event (SessionOpens w) = calm w"
| "calm_event (DaemonAsked w) = calm w"
| "calm_event (OwnerStops w) = calm w"
| "calm_event (HelperUpdates w iw platform) = calm w"
| "calm_event _ = True"

lemma mutate_keeps_daemon [simp]:
  "sh_daemon (snd (mutate_settings f sh)) = sh_daemon sh" "sh_daemon_bin (snd (mutate_settings f sh)) = sh_daemon_bin sh"
  "sh_cua_sessions (snd (mutate_settings f sh)) = sh_cua_sessions sh"
  by (simp_all add: mutate_settings_def Let_def save_locked_def set_persisted_def emit_def shell_stop_all_def)

lemma count_session_parts [simp]:
  "sh_daemon (ds_sh (count_session b st)) = sh_daemon (ds_sh st)" "sh_daemon_bin (ds_sh (count_session b st)) = sh_daemon_bin (ds_sh st)"
  "ds_inst (count_session b st) = ds_inst st"
  by (simp_all add: count_session_def)

lemma stop_daemon_parts:
  assumes "lock_kept w"
  shows "sh_daemon (ds_sh (stop_daemon w st)) = None" "ds_inst (stop_daemon w st) = map_option (release_old (dw_deletes w)) (ds_inst st)"
  using lock_keptD [OF assms, of AwaitStop "stop_begin st"]
  by (simp_all add: stop_daemon_def stop_end_def stop_begin_def clear_task_def emit_def)

lemma detect_keeps [simp]:
  "cua_detect w b st = (d, st1) \<Longrightarrow> ds_sh st1 = ds_sh st \<and> ds_inst st1 = ds_inst st"
  by (auto simp: cua_detect_def Let_def split: option.splits if_splits)

subsection \<open>A daemon that is held stays\<close>

definition still_held :: "driver_world \<Rightarrow> driver_state \<Rightarrow> bool" where
  \<comment> \<open>a session is open when the update of the helper has ended\<close>
  "still_held w st \<longleftrightarrow> (\<forall>i. 0 < sh_cua_sessions (ds_sh (dw_gap w AwaitInstall (st\<lparr>ds_inst := i\<rparr>))))"

fun undisturbed :: "daemon \<Rightarrow> driver_event list \<Rightarrow> driver_state \<Rightarrow> bool" where
  \<comment> \<open>a session is open all the time, the daemon does not die, the owner does not stop it\<close>
  "undisturbed d [] st \<longleftrightarrow> True"
| "undisturbed d (e # es) st \<longleftrightarrow> 0 < sh_cua_sessions (ds_sh st) \<and>
     (case e of OwnerStops w \<Rightarrow> False | SessionOpens w \<Rightarrow> dw_alive w d | DaemonAsked w \<Rightarrow> dw_alive w d
      | HelperUpdates w iw platform \<Rightarrow> still_held w st | _ \<Rightarrow> True) \<and>
     undisturbed d es (driver_next e st)"

lemma endpoint_keeps_held:
  assumes "calm w" "sh_daemon (ds_sh st) = Some d" "dw_alive w d" "0 < sh_cua_sessions (ds_sh st)"
  shows "sh_daemon (ds_sh (snd (cua_endpoint_at w b st))) = Some d"
proof -
  have "drop_dead w st = st" using assms by (simp add: drop_dead_def)
  then show ?thesis
    using assms by (auto simp: cua_endpoint_at_def endpoint_locked_def replace_outdated_def start_one_def calm_def Let_def
        split: cua_attach.split sum.split)
qed

lemma update_keeps_held:
  assumes "calm w" "sh_daemon (ds_sh st) = Some d" "still_held w st"
  shows "sh_daemon (ds_sh (snd (cua_ensure w iw platform st))) = Some d"
proof -
  have no: "sh_cua_sessions (ds_sh (dw_gap w AwaitInstall (st\<lparr>ds_inst := i\<rparr>))) \<noteq> 0" for i
    using assms(3) by (simp add: still_held_def)
  show ?thesis
    using assms(1,2) lock_keptD(1) [of w AwaitInstall]
    by (auto simp: cua_ensure_def Let_def calm_def no split: option.split prod.split)
qed

lemma held_daemon_run:
  "undisturbed d es st \<Longrightarrow> list_all calm_event es \<Longrightarrow> sh_daemon (ds_sh st) = Some d \<Longrightarrow>
   sh_daemon (ds_sh (driver_run es st)) = Some d"
proof (induction es arbitrary: st)
  case (Cons e es)
  have "sh_daemon (ds_sh (driver_next e st)) = Some d"
    using Cons.prems endpoint_keeps_held update_keeps_held
    by (cases e) (auto simp: cua_session_def drop_session_def)
  with Cons show ?case by (simp add: driver_run_def)
qed (simp add: driver_run_def)

text \<open>
  while a session holds our daemon and it is alive, no other session, no question for its
  socket, no change of the owner's choices and no update of the helper stops or replaces it:
  only the owner's stop does.
\<close>

theorem held_daemon_stays:
  assumes "sh_daemon (ds_sh st) = Some d" "list_all calm_event es" "undisturbed d es st"
  shows "sh_daemon (ds_sh (driver_run es st)) = Some d"
  using held_daemon_run assms by blast

subsection \<open>What the daemon runs from\<close>

lemma dropWhile_until: "x \<notin> set xs \<Longrightarrow> dropWhile (\<lambda>c. c \<noteq> x) (xs @ x # ys) = x # ys"
  by (induction xs) auto

lemma path_parent_join: "47 \<notin> set b \<Longrightarrow> path_parent (path_join a b) = a"
  using dropWhile_until [of 47 "rev b" "rev a"] by (simp add: path_parent_def path_join_def)

lemma copy_bin_inj: "copy_bin i u = copy_bin i v \<longleftrightarrow> u = v"
  by (simp add: copy_bin_def release_dir_def path_join_def)

definition home_ok :: "installer \<Rightarrow> bool" where
  "home_ok i \<longleftrightarrow> installer_ok i \<and> 47 \<notin> set (in_exe i)"

definition backed :: "installer \<Rightarrow> daemon \<Rightarrow> bool" where
  "backed i d \<longleftrightarrow> (\<exists>v. dm_bin d = copy_bin i v \<and>
     (v = in_version i \<or> in_held i = Some (release_dir i v) \<and> copy_at i v \<noteq> None))"

definition copy_safe :: "driver_state \<Rightarrow> bool" where
  "copy_safe st \<longleftrightarrow> (\<forall>i. ds_inst st = Some i \<longrightarrow> home_ok i \<and>
     (\<forall>d. sh_daemon (ds_sh st) = Some d \<longrightarrow> sh_daemon_bin (ds_sh st) = Some (dm_bin d) \<and> backed i d))"

lemma home_ok_drop_old: "home_ok i \<Longrightarrow> home_ok (drop_old g i)"
  using releases_drop_old [of i g] by (auto simp: home_ok_def installer_ok_def drop_old_def)

lemma home_ok_release: "home_ok i \<Longrightarrow> home_ok (release_old g i)"
  using home_ok_drop_old [of "i\<lparr>in_held := None\<rparr>" g] by (simp add: release_old_def home_ok_def installer_ok_def)

lemma home_ok_hold: "home_ok i \<Longrightarrow> home_ok (hold_copy b i)"
  by (simp add: hold_copy_def home_ok_def installer_ok_def)

lemma copy_safe_none:
  "(\<And>i. ds_inst st = Some i \<Longrightarrow> home_ok i) \<Longrightarrow> sh_daemon (ds_sh st) = None \<Longrightarrow> copy_safe st"
  by (simp add: copy_safe_def)

lemma copy_safe_same:
  "copy_safe st \<Longrightarrow> ds_inst st' = ds_inst st \<Longrightarrow> sh_daemon (ds_sh st') = sh_daemon (ds_sh st) \<Longrightarrow>
   sh_daemon_bin (ds_sh st') = sh_daemon_bin (ds_sh st) \<Longrightarrow> copy_safe st'"
  by (simp add: copy_safe_def)

lemma copy_safe_gone:
  assumes "copy_safe st" "lock_kept w" "x \<noteq> AwaitLock"
  shows "copy_safe (daemon_gone_for w (dw_gap w x (on_core (\<lambda>sh. sh\<lparr>sh_daemon := None\<rparr>) st)))"
  using assms(1) lock_keptD [OF assms(2,3), of "on_core (\<lambda>sh. sh\<lparr>sh_daemon := None\<rparr>) st"]
  by (intro copy_safe_none) (auto simp: copy_safe_def home_ok_release)

lemma copy_safe_started:
  assumes "copy_safe st" "lock_kept w" "sh_daemon (ds_sh st) = None" "daemon_start w bin s st = (Ok d, st1)"
    "ds_inst st \<noteq> None \<longrightarrow> bin_is_file st bin"
  shows "copy_safe (take_daemon d st1)"
proof -
  note f = daemon_start_facts [OF assms(2,4)]
  have d: "dm_bin d = bin" using f(1) [OF refl] by (simp add: started_by_def)
  have "home_ok (hold_copy bin i) \<and> backed (hold_copy bin i) d" if i: "ds_inst st = Some i" for i
  proof -
    have ok: "home_ok i" using assms(1) i by (simp add: copy_safe_def)
    obtain v c where v: "(v, c) \<in> set (in_releases i)" "copy_bin i v = bin"
      using assms(5) i by (auto simp: bin_is_file_def list_ex_iff)
    then have "copy_at i v \<noteq> None" by (auto simp: copy_at_def map_of_eq_None_iff image_iff intro: bexI [of _ "(v, c)"])
    moreover have "path_parent bin = release_dir i v"
      using ok v(2) by (auto simp: home_ok_def copy_bin_def path_parent_join)
    moreover have "bin = bin_path i \<longleftrightarrow> v = in_version i" using v(2) by (auto simp: bin_path_def copy_bin_inj)
    ultimately have "backed (hold_copy bin i) d"
      unfolding backed_def using d v(2)
      by (intro exI [of _ v]) (auto simp: hold_copy_def copy_bin_def release_dir_def releases_dir_def copy_at_def)
    with ok show ?thesis by (simp add: home_ok_hold)
  qed
  with d f(4) show ?thesis by (auto simp: copy_safe_def)
qed

lemma copy_safe_endpoint:
  assumes "copy_safe st" "calm w" shows "copy_safe (snd (cua_endpoint_at w b st))"
proof -
  have lk: "lock_kept w" and id: "dw_gap w AwaitLock st = st" using assms(2) by (simp_all add: calm_def)
  let ?st1 = "drop_dead w st"
  let ?s = "sh_settings (ds_sh ?st1)" and ?bin = "cua_bin_now w ?st1"
  let ?st2 = "replace_outdated w ?s ?bin ?st1"
  have s1: "copy_safe ?st1" using assms(1) copy_safe_gone [OF assms(1) lk, of AwaitDiscard] by (auto simp: drop_dead_def split: option.split)
  have s2: "copy_safe ?st2" using s1 copy_safe_gone [OF s1 lk, of AwaitStop] by (auto simp: replace_outdated_def split: option.split)
  obtain q st3 where q: "start_one w ?s ?bin ?st2 = (q, st3)" by fastforce
  then have s3: "copy_safe st3"
  proof (cases rule: start_one_cases)
    case (started d st1)
    with copy_safe_started [OF s2 lk started(1,2)] show ?thesis by simp
  next
    case (failed why st1)
    with daemon_start_facts [OF lk failed(2)] copy_safe_same [OF s2] show ?thesis by simp
  qed (use s2 in simp_all)
  have "copy_safe (count_session b st3)" using copy_safe_same [OF s3] by simp
  then have "copy_safe (snd (endpoint_locked w b st))" using q s3 by (auto simp: endpoint_locked_def Let_def split: sum.split)
  moreover have "copy_safe (count_session b st)" using copy_safe_same [OF assms(1)] by simp
  ultimately show ?thesis using assms(1) id by (auto simp: cua_endpoint_at_def split: cua_attach.split sum.split)
qed

lemma backed_ensure:
  assumes "ensure iw platform i = ((state, put), i')" "backed i d" "home_ok i"
  shows "backed i' d \<and> home_ok i'"
proof -
  have k: "copies_kept (\<exists>v. state = InReady v) i i'" using ensure_keeps [OF assms(1)] by simp
  then have sp: "same_place i i'" by (simp add: copies_kept_def)
  obtain v where v: "dm_bin d = copy_bin i v" "v = in_version i \<or> in_held i = Some (release_dir i v) \<and> copy_at i v \<noteq> None"
    using assms(2) by (auto simp: backed_def)
  have "copy_at i' v = copy_at i v" if "v \<noteq> in_version i"
    using k v(2) that by (auto simp: copies_kept_def)
  then have "backed i' d" using v same_paths [OF sp] sp by (auto simp: backed_def same_place_def)
  moreover have "home_ok i'" using k sp assms(3) by (auto simp: home_ok_def installer_ok_def copies_kept_def same_place_def)
  ultimately show ?thesis by simp
qed

lemma copy_safe_stop:
  assumes "copy_safe st" "lock_kept w" shows "copy_safe (stop_daemon w st)"
proof (rule copy_safe_none)
  fix i assume "ds_inst (stop_daemon w st) = Some i"
  then obtain j where "ds_inst st = Some j" "i = release_old (dw_deletes w) j" using stop_daemon_parts(2) [OF assms(2)] by auto
  then show "home_ok i" using assms(1) by (simp add: copy_safe_def home_ok_release)
qed (rule stop_daemon_parts(1) [OF assms(2)])

lemma copy_safe_ensure:
  assumes "copy_safe st" "calm w" shows "copy_safe (snd (cua_ensure w iw platform st))"
proof (cases "ds_inst st")
  case None
  then have "ds_inst (snd (cua_detect w True st)) = None" by (metis detect_keeps prod.collapse)
  then show ?thesis using None by (auto simp: cua_ensure_def copy_safe_def Let_def split: prod.split)
next
  case (Some i)
  have lk: "lock_kept w" using assms(2) by (simp add: calm_def)
  obtain state put i1 where e: "ensure iw platform i = ((state, put), i1)" by (metis prod.exhaust)
  have ok: "home_ok i" using assms(1) Some by (simp add: copy_safe_def)
  have k: "copies_kept (\<exists>v. state = InReady v) i i1" using ensure_keeps [OF e] by simp
  then have "home_ok i1" using ok by (simp add: home_ok_def installer_ok_def copies_kept_def same_place_def)
  then have "copy_safe (st\<lparr>ds_inst := Some i1\<rparr>)"
    using assms(1) Some backed_ensure [OF e _ ok] by (simp add: copy_safe_def)
  then have s1: "copy_safe (dw_gap w AwaitInstall (st\<lparr>ds_inst := Some i1\<rparr>))"
    using copy_safe_same [of "st\<lparr>ds_inst := Some i1\<rparr>" "dw_gap w AwaitInstall (st\<lparr>ds_inst := Some i1\<rparr>)"]
      lock_keptD [OF lk, of AwaitInstall "st\<lparr>ds_inst := Some i1\<rparr>"] by simp
  have fin: "copy_safe (on_core (\<lambda>sh. snd (mutate_settings f sh)) (s\<lparr>ds_probe := None\<rparr>))" if "copy_safe s" for s f
    using that by (simp add: copy_safe_def)
  from s1 fin [OF s1] fin [OF copy_safe_stop [OF s1 lk]] show ?thesis
    using Some e by (simp add: cua_ensure_def Let_def)
qed

lemma copy_safe_next:
  assumes "copy_safe st" "calm_event e" shows "copy_safe (driver_next e st)"
proof (cases e)
  case (OwnerStops w)
  with assms copy_safe_stop [of st w] show ?thesis by (simp add: calm_def)
next
  case (HelperUpdates w iw platform)
  with assms copy_safe_ensure [of st w] show ?thesis by simp
next
  case (SessionOpens w)
  with assms copy_safe_endpoint [of st w] show ?thesis by (simp add: cua_session_def)
next
  case (DaemonAsked w)
  with assms copy_safe_endpoint [of st w] show ?thesis by simp
next
  case SessionEnds
  with assms copy_safe_same [of st "drop_session st"] show ?thesis by (simp add: drop_session_def)
next
  case (OwnerChooses f)
  with assms copy_safe_same [of st "on_core (\<lambda>sh. snd (mutate_settings f sh)) st"] show ?thesis by simp
qed

lemma copy_safe_run: "copy_safe st \<Longrightarrow> list_all calm_event es \<Longrightarrow> copy_safe (driver_run es st)"
  by (induction es arbitrary: st) (simp_all add: driver_run_def copy_safe_next)


text \<open>
  C39: a start that comes between the two steps of a stop (the lock is let go before the old
  daemon has ended): the end of the stop forgets which binary the new daemon runs and lets go
  of its copy, although the daemon runs and a session holds it.
\<close>

theorem stop_forgets_new_daemon:
  assumes "lock_kept w" "dw_now w \<le> dw_ready w" "endpoint_locked w True (stop_begin st) = (Ok e, st1)"
  shows "\<exists>d. sh_daemon (ds_sh (stop_end u st1)) = Some d \<and> e = endpoint_of d \<and>
    0 < sh_cua_sessions (ds_sh (stop_end u st1)) \<and> sh_daemon_bin (ds_sh (stop_end u st1)) = None \<and>
    (case ds_inst (stop_end u st1) of Some i \<Rightarrow> in_held i = None | None \<Rightarrow> True)"
proof -
  let ?a = "drop_dead w (stop_begin st)"
  have no: "sh_daemon (ds_sh ?a) = None" using drop_dead_facts(1) [OF assms(1), of "stop_begin st"] by (simp add: stop_begin_def)
  let ?b = "replace_outdated w (sh_settings (ds_sh ?a)) (cua_bin_now w ?a) ?a"
  have b: "?b = ?a" using no by (simp add: replace_outdated_def)
  obtain q st3 where q: "start_one w (sh_settings (ds_sh ?a)) (cua_bin_now w ?a) ?a = (q, st3)" by fastforce
  then have r: "q = Ok ()" "st1 = count_session True st3" "e = endpoint_of (the (sh_daemon (ds_sh st3)))"
    using assms(3) b by (auto simp: endpoint_locked_def Let_def split: sum.splits)
  from q show ?thesis
  proof (cases rule: start_one_cases)
    case (started d st2)
    with r show ?thesis
      by (auto simp: stop_end_def clear_task_def emit_def count_session_def release_old_def drop_old_def split: option.split)
  qed (use no r(1) in simp_all)
qed

text \<open>
  the pause of the owner is looked at before the lock is waited for: a pause that falls in
  between stops no daemon, for there is none, and the call starts one, which runs on while
  the app is paused.
\<close>

theorem daemon_started_while_paused:
  assumes "lock_kept w" "dw_attach w = PrivateDaemon" "dw_gap w AwaitLock = on_core pause" "\<not> sh_paused (ds_sh st)"
    and "c_enabled (st_computer (sh_settings (ds_sh st)))" "cua_session w st = (Ok e, st')"
    and "\<And>x s. x \<noteq> AwaitLock \<Longrightarrow> dw_gap w x s = s"
  shows "sh_paused (ds_sh st') \<and> sh_daemon (ds_sh st') \<noteq> None"
proof -
  let ?p = "on_core pause st"
  have p: "sh_daemon (ds_sh ?p) = None" "sh_paused (ds_sh ?p)"
    by (simp_all add: pause_def bump_control_def emit_def stop_cua_def daemon_gone_def clear_task_def shell_stop_all_def Let_def)
  have a: "drop_dead w ?p = ?p" "replace_outdated w s b ?p = ?p" for s b
    using p(1) by (simp_all add: drop_dead_def replace_outdated_def)
  obtain q st3 where q: "start_one w (sh_settings (ds_sh ?p)) (cua_bin_now w ?p) ?p = (q, st3)" by fastforce
  have "endpoint_locked w True ?p = (Ok e, st')" using assms(2-6) by (simp add: cua_session_def cua_endpoint_at_def)
  then have "q = Ok ()" and st': "st' = count_session True st3"
    using q a by (auto simp: endpoint_locked_def Let_def split: sum.splits)
  from q show ?thesis
  proof (cases rule: start_one_cases)
    case (started d st1)
    have "ds_sh st1 = ds_sh ?p"
      using started(2) assms(7) [of AwaitStart] by (auto simp: daemon_start_def Let_def split: option.splits if_splits)
    with p(2) st' started(4) show ?thesis by (simp add: count_session_def take_daemon_def)
  qed (use p(1) \<open>q = Ok ()\<close> in simp_all)
qed

section \<open>A driver that does not start\<close>

definition never_listens :: "driver_world \<Rightarrow> bool" where
  "never_listens w \<longleftrightarrow> lock_kept w \<and> ready_loop w 0 \<noteq> None"

definition tries :: "settings \<Rightarrow> utext \<Rightarrow> driver_world list \<Rightarrow> driver_state \<Rightarrow> driver_state" where
  "tries s bin ws st = fold (\<lambda>w st. snd (start_one w s bin st)) ws st"

fun in_turn :: "instant \<Rightarrow> driver_world list \<Rightarrow> instant \<Rightarrow> bool" where
  "in_turn t [] until \<longleftrightarrow> t \<le> until"
| "in_turn t (w # ws) until \<longleftrightarrow> t \<le> dw_now w \<and> dw_now w \<le> dw_ready w \<and> in_turn (dw_ready w) ws until"

definition spaced :: "instant \<Rightarrow> instant \<Rightarrow> start_backoff \<Rightarrow> bool" where
  \<comment> \<open>how the failures so far lie since \<open>t0\<close>\<close>
  "spaced t0 t b \<longleftrightarrow> (case sb_not_before b of None \<Rightarrow> sb_failures b = 0
     | Some nb \<Rightarrow> t0 + seconds 300 * (sb_failures b - 3) \<le> nb) \<and> sb_failures b \<le> 4 + (t - t0) div seconds 300"

lemma spaced_later: "spaced t0 t b \<Longrightarrow> t \<le> u \<Longrightarrow> spaced t0 u b"
proof -
  assume "spaced t0 t b" "t \<le> u"
  moreover from this(2) have "(t - t0) div seconds 300 \<le> (u - t0) div seconds 300" by (intro div_le_mono) simp
  ultimately show "spaced t0 u b" by (simp add: spaced_def)
qed

lemma retry_step: "DAEMON_RETRY_AFTER ! min n (length DAEMON_RETRY_AFTER - 1) \<ge> seconds 5"
  "3 \<le> n \<Longrightarrow> DAEMON_RETRY_AFTER ! min n (length DAEMON_RETRY_AFTER - 1) = seconds 300"
proof -
  have "n = 0 \<or> n = 1 \<or> n = 2 \<or> 3 \<le> n" by linarith
  then show "DAEMON_RETRY_AFTER ! min n (length DAEMON_RETRY_AFTER - 1) \<ge> seconds 5"
    by (auto simp: DAEMON_RETRY_AFTER_def min_def numeral_eq_Suc)
qed (simp add: DAEMON_RETRY_AFTER_def min_def numeral_eq_Suc)

lemma spaced_failed:
  assumes "spaced t0 t b" "t0 \<le> t" "t \<le> now" "now \<le> ended" "wait_left now b = None"
  shows "spaced t0 ended (start_failed ended why b)"
proof (cases "3 \<le> sb_failures b")
  case False
  then show ?thesis using assms(2-4) by (simp add: spaced_def start_failed_def)
next
  case True
  let ?n = "sb_failures b"
  obtain nb where nb: "sb_not_before b = Some nb" using True assms(1) by (cases "sb_not_before b") (simp_all add: spaced_def)
  then have bound: "t0 + seconds 300 * (?n - 3) \<le> nb" using assms(1) by (simp add: spaced_def)
  have late: "nb < now" using assms(5) nb by (simp add: wait_left_def split: if_splits)
  have "t0 + seconds 300 * (?n - 3) + seconds 300 \<le> ended + seconds 300" using bound late assms(4) by linarith
  moreover have "seconds 300 * (?n - 2) = seconds 300 * (?n - 3) + seconds 300"
  proof -
    have "?n - 2 = Suc (?n - 3)" using True by simp
    then show ?thesis by simp
  qed
  moreover have "?n - 3 \<le> (ended - t0) div seconds 300"
  proof -
    have "(?n - 3) * seconds 300 \<le> ended - t0" using bound late assms(4) by (simp add: mult.commute)
    then show ?thesis by (simp add: less_eq_div_iff_mult_less_eq seconds_def)
  qed
  ultimately show ?thesis using True retry_step(2) [OF True] by (simp add: spaced_def start_failed_def)
qed

lemma try_once:
  assumes "never_listens w" "sh_daemon (ds_sh st) = None" "start_one w s bin st = (r, st')"
    and "spaced t0 t (sh_backoff (ds_sh st))" "t0 \<le> t" "t \<le> dw_now w" "dw_now w \<le> dw_ready w"
  shows "sh_daemon (ds_sh st') = None \<and> spaced t0 (dw_ready w) (sh_backoff (ds_sh st')) \<and>
    length (ds_spawned st') + sb_failures (sh_backoff (ds_sh st)) \<le> length (ds_spawned st) + sb_failures (sh_backoff (ds_sh st'))"
proof -
  have lk: "lock_kept w" and nl: "ready_loop w 0 \<noteq> None" using assms(1) by (simp_all add: never_listens_def)
  from assms(3) show ?thesis
  proof (cases rule: start_one_cases)
    case there
    then show ?thesis using assms(2) by simp
  next
    case refused
    then show ?thesis using assms(2,4-7) spaced_later [of t0 t _ "dw_ready w"] by simp
  next
    case (started d st1)
    then show ?thesis using nl by (auto simp: daemon_start_def Let_def split: option.splits if_splits)
  next
    case (failed why st1)
    note f = daemon_start_facts [OF lk failed(2)]
    have b: "sh_backoff (ds_sh st1) = sh_backoff (ds_sh st)"
      using failed(2) lock_keptD(6) [OF lk, of AwaitStart]
      by (auto simp: daemon_start_def Let_def split: option.splits if_splits)
    have "spaced t0 (dw_ready w) (start_failed (dw_ready w) why (sh_backoff (ds_sh st)))"
      by (rule spaced_failed [OF assms(4-7) failed(5)])
    then show ?thesis using failed f(2,6) b assms(2) by (auto simp: start_failed_def)
  qed
qed

lemma tries_spaced:
  "list_all never_listens ws \<Longrightarrow> in_turn t ws until \<Longrightarrow> sh_daemon (ds_sh st) = None \<Longrightarrow>
   spaced t0 t (sh_backoff (ds_sh st)) \<Longrightarrow> t0 \<le> t \<Longrightarrow>
   spaced t0 until (sh_backoff (ds_sh (tries s bin ws st))) \<and>
   length (ds_spawned (tries s bin ws st)) + sb_failures (sh_backoff (ds_sh st)) \<le>
     length (ds_spawned st) + sb_failures (sh_backoff (ds_sh (tries s bin ws st)))"
proof (induction ws arbitrary: st t)
  case Nil
  then show ?case using spaced_later [of t0 t _ "until"] by (simp add: tries_def)
next
  case (Cons w ws)
  obtain r st1 where r: "start_one w s bin st = (r, st1)" by fastforce
  have one: "sh_daemon (ds_sh st1) = None \<and> spaced t0 (dw_ready w) (sh_backoff (ds_sh st1)) \<and>
      length (ds_spawned st1) + sb_failures (sh_backoff (ds_sh st)) \<le> length (ds_spawned st) + sb_failures (sh_backoff (ds_sh st1))"
    using try_once [OF _ Cons.prems(3) r Cons.prems(4,5)] Cons.prems(1,2) by simp
  have "tries s bin (w # ws) st = tries s bin ws st1" using r by (simp add: tries_def)
  moreover have "t0 \<le> dw_ready w" using Cons.prems(2,5) by simp
  ultimately show ?case using Cons.IH [of "dw_ready w" st1] Cons.prems(1,2) one by (auto simp: tries_def)
qed

text \<open>
  C32: a driver that never comes up is not started over and over: however often and from wherever
  the daemon is asked for, there are at most four starts and one for every five minutes.
\<close>

theorem failing_driver_starts_rarely:
  assumes "list_all never_listens ws" "in_turn t ws until" "sh_daemon (ds_sh st) = None" "sh_backoff (ds_sh st) = no_backoff"
  shows "length (ds_spawned (tries s bin ws st)) \<le> length (ds_spawned st) + 4 + (until - t) div seconds 300"
  using tries_spaced [OF assms(1-3), of t s bin] assms(4) by (simp add: spaced_def no_backoff_def)

section \<open>A daemon for only the chosen apps\<close>

text \<open>
  a process that is started for the choice of only some apps is told so: it runs in bounded
  mode with the manifest of that choice, which was written before. There is no start without.
\<close>

theorem bounded_daemon_gets_manifest:
  assumes "lock_kept w" "start_one w s bin st = (r, st')" "ds_spawned st' \<noteq> ds_spawned st" "sc_policy (c_apps (st_computer s)) = PolOnly"
  shows "ds_spawned st' = ds_spawned st @ [serve_args w bin s] \<and> dw_write w = None \<and>
    (\<exists>front. serve_args w bin s = front @ bounded_args (path_join (daemon_dir w) (lit ''apps.yaml'')))"
proof -
  have "manifest (dw_lower w) (dw_files w) (scope_of_settings s) \<noteq> None"
    using assms(4) by (simp add: manifest_def scope_of_settings_def Let_def)
  then have "(\<exists>front. serve_args w bin s = front @ bounded_args (path_join (daemon_dir w) (lit ''apps.yaml'')))"
    and m: "manifest (dw_lower w) (dw_files w) (scope_of_settings s) \<noteq> None"
    by (auto simp: serve_args_def Let_def)
  moreover from assms(2) have "ds_spawned st' = ds_spawned st @ [serve_args w bin s] \<and> dw_write w = None"
  proof (cases rule: start_one_cases)
    case (started d st1)
    with daemon_start_facts(6) [OF assms(1) started(2)] assms(3) m show ?thesis by auto
  next
    case (failed why st1)
    with daemon_start_facts(6) [OF assms(1) failed(2)] assms(3) m show ?thesis by auto
  qed (use assms(3) in simp_all)
  ultimately show ?thesis by blast
qed

section \<open>Examples\<close>

definition example_driver :: driver_world where
  "example_driver = \<lparr>dw_attach = PrivateDaemon, dw_bin = lit ''/b'', dw_now = 0, dw_ready = 0, dw_windows = False, dw_temp = lit ''/t'',
     dw_pid = 1, dw_suffix = 2, dw_pipe = 3, dw_themes = None, dw_reduced = False, dw_support = look_support False False True,
     dw_lower = id, dw_files = \<lparr>fv_absolute = \<lambda>_. False, fv_resolved = \<lambda>_. None, fv_dir = \<lambda>_. False, fv_top = \<lambda>_. False\<rparr>,
     dw_alive = \<lambda>_. True, dw_mkdir = None, dw_log = None, dw_write = None, dw_spawn = None, dw_listens = \<lambda>_. True,
     dw_watch = \<lambda>_. StillRuns, dw_late = \<lambda>_. False, dw_log_text = [], dw_says = \<lambda>_. None, dw_status = \<lambda>_. Err [],
     dw_permissions = None, dw_deletes = \<lambda>_. True, dw_gap = \<lambda>_ st. st\<rparr>"

definition example_choices :: "apps_policy \<Rightarrow> settings" where
  "example_choices p = default_settings\<lparr>st_computer := (st_computer default_settings)\<lparr>c_enabled := True,
     c_apps := default_scope\<lparr>sc_policy := p\<rparr>\<rparr>\<rparr>"

definition example_state :: "apps_policy \<Rightarrow> installer option \<Rightarrow> driver_state" where
  "example_state p i = \<lparr>ds_sh = blank_shared (example_choices p), ds_inst = i, ds_probe = None, ds_spawned = []\<rparr>"

lemma blank_parts:
  "sh_daemon (blank_shared s) = None" "sh_backoff (blank_shared s) = no_backoff" "sh_cua_sessions (blank_shared s) = 0"
  "sh_paused (blank_shared s) = False" "sh_settings (blank_shared s) = s"
  by (simp_all add: blank_shared_def make_shared_def sh_settings_def)

lemma example_state_parts:
  "ds_inst (example_state p i) = i" "ds_spawned (example_state p i) = []"
  "sh_daemon (ds_sh (example_state p i)) = None" "sh_backoff (ds_sh (example_state p i)) = no_backoff"
  "sh_cua_sessions (ds_sh (example_state p i)) = 0" "sh_paused (ds_sh (example_state p i)) = False"
  "sh_settings (ds_sh (example_state p i)) = example_choices p"
  by (simp_all add: example_state_def blank_parts)

lemma example_calm: "calm example_driver" "lock_kept example_driver" "dw_now example_driver \<le> dw_ready example_driver"
  by (simp_all add: calm_def lock_kept_def example_driver_def)

lemma example_starts:
  assumes "sh_daemon (ds_sh st) = None" "sh_backoff (ds_sh st) = no_backoff" "ds_inst st = None \<or> bin_is_file st bin"
    "w = example_driver \<or> w = example_driver\<lparr>dw_gap := g\<rparr> \<and> (\<forall>s. g AwaitStart s = s)"
  shows "start_one w s bin st = (Ok (), take_daemon (started_by w s bin) (st\<lparr>ds_spawned := ds_spawned st @ [serve_args w bin s]\<rparr>))"
  using assms by (auto simp: start_one_def daemon_start_def example_driver_def wait_left_def no_backoff_def ready_loop.simps started_by_def Let_def)

lemma example_endpoint:
  assumes "sh_daemon (ds_sh st) = None" "sh_backoff (ds_sh st) = no_backoff"
    "ds_inst st = None \<or> bin_is_file st (cua_bin_now w st)"
    "w = example_driver \<or> w = example_driver\<lparr>dw_gap := g\<rparr> \<and> (\<forall>s. g AwaitStart s = s)"
  shows "\<exists>e st'. endpoint_locked w True st = (Ok e, st')"
  using assms example_starts [OF assms(1,2), of "cua_bin_now w st" w g]
  by (simp add: endpoint_locked_def drop_dead_def replace_outdated_def Let_def)


theorem held_daemon_stays_witness:
  "\<exists>st d. sh_daemon (ds_sh (driver_run [SessionOpens example_driver] st)) = Some d"
proof -
  let ?d = "started_by example_driver default_settings []"
  let ?st = "on_core (\<lambda>sh. sh\<lparr>sh_daemon := Some ?d, sh_cua_sessions := 1\<rparr>) (example_state PolAll None)"
  have "undisturbed ?d [SessionOpens example_driver] ?st" by (simp add: example_driver_def)
  from held_daemon_stays [OF _ _ this] example_calm show ?thesis by auto
qed


theorem stop_forgets_new_daemon_witness:
  "\<exists>st1. sh_daemon (ds_sh (stop_end example_driver st1)) \<noteq> None \<and> sh_daemon_bin (ds_sh (stop_end example_driver st1)) = None"
proof -
  let ?st = "example_state PolAll None"
  have "\<exists>e st'. endpoint_locked example_driver True (stop_begin ?st) = (Ok e, st')"
    by (rule example_endpoint) (simp_all add: example_state_parts stop_begin_def)
  then obtain e st1 where r: "endpoint_locked example_driver True (stop_begin ?st) = (Ok e, st1)" by blast
  from stop_forgets_new_daemon [OF example_calm(2,3) r, of example_driver] show ?thesis by auto
qed

theorem daemon_started_while_paused_witness:
  "\<exists>w st. \<not> sh_paused (ds_sh st) \<and> sh_paused (ds_sh (snd (cua_session w st))) \<and> sh_daemon (ds_sh (snd (cua_session w st))) \<noteq> None"
proof -
  let ?g = "\<lambda>x s. if x = AwaitLock then on_core pause s else s"
  let ?w = "example_driver\<lparr>dw_gap := ?g\<rparr>" and ?st = "example_state PolAll None"
  have lk: "lock_kept ?w" by (simp add: lock_kept_def)
  have p: "sh_daemon (pause sh) = None" "sh_backoff (pause sh) = sh_backoff sh" for sh
    by (simp_all add: pause_def bump_control_def emit_def stop_cua_def daemon_gone_def clear_task_def shell_stop_all_def Let_def)
  have "\<exists>e st'. endpoint_locked ?w True (on_core pause ?st) = (Ok e, st')"
    by (rule example_endpoint [of _ _ ?g]) (simp_all add: example_state_parts p)
  then obtain e st' where "endpoint_locked ?w True (on_core pause ?st) = (Ok e, st')" by blast
  then have r: "cua_session ?w ?st = (Ok e, st')"
    by (simp add: cua_session_def cua_endpoint_at_def) (simp add: example_driver_def example_state_def blank_parts example_choices_def)
  have "sh_paused (ds_sh st') \<and> sh_daemon (ds_sh st') \<noteq> None"
    by (rule daemon_started_while_paused [OF lk _ _ _ _ r])
      (simp_all add: fun_eq_iff, simp_all add: example_driver_def example_state_def blank_parts example_choices_def)
  with r show ?thesis by (intro exI [of _ ?w] exI [of _ ?st]) (simp add: example_state_def blank_parts)
qed

theorem failing_driver_starts_rarely_witness:
  "\<exists>ws. length ws = 1 \<and> length (ds_spawned (tries default_settings [] ws (example_state PolAll None))) \<le> 4"
proof -
  let ?w = "example_driver\<lparr>dw_listens := \<lambda>_. False, dw_watch := \<lambda>_. HasExited []\<rparr>"
  have "never_listens ?w" using example_calm
    by (simp add: never_listens_def calm_def lock_kept_def ready_loop.simps)
  moreover have "in_turn 0 [?w] 0" by (simp add: example_driver_def)
  ultimately have "length (ds_spawned (tries default_settings [] [?w] (example_state PolAll None))) \<le> 0 + 4 + (0 - 0) div seconds 300"
    using failing_driver_starts_rarely [of "[?w]" 0 0 "example_state PolAll None" default_settings "[]"]
    by (simp add: example_state_def blank_parts)
  then show ?thesis by (intro exI [of _ "[?w]"]) simp
qed

theorem bounded_daemon_gets_manifest_witness:
  "\<exists>front. serve_args example_driver [] (example_choices PolOnly) =
     front @ bounded_args (path_join (daemon_dir example_driver) (lit ''apps.yaml''))"
proof -
  let ?st = "example_state PolOnly None"
  have s: "start_one example_driver (example_choices PolOnly) [] ?st =
      (Ok (), take_daemon (started_by example_driver (example_choices PolOnly) [])
        (?st\<lparr>ds_spawned := ds_spawned ?st @ [serve_args example_driver [] (example_choices PolOnly)]\<rparr>))"
    by (rule example_starts) (simp_all add: example_state_def blank_parts)
  from bounded_daemon_gets_manifest [OF example_calm(2) s] show ?thesis
    by (simp add: example_choices_def example_state_parts)
qed

end
