(* ===== verification/Shell_Approvals.thy ===== *)
theory Shell_Approvals
  imports Grants
begin

text \<open>
  \<open>app/src-tauri/src/approvals.rs\<close>: the queue between the core, which asks, and the approval
  window, which answers. A question that was pushed waits in the queue; the task that asked
  waits at the other end of a channel for at most \<open>APPROVAL_TIMEOUT\<close>. Letting go of the channel
  and taking the question off the queue are two steps of that task, so the owner's click can
  fall in between. The windows and events shown are left out. Shown: every question gets one
  answer at most, an allowing answer is one the owner gave to that very
  question, and what the window shows is bounded.
\<close>

section \<open>The question as the window sees it\<close>

definition MAX_SCOPE :: nat where "MAX_SCOPE = 200"
definition MAX_DETAIL :: nat where "MAX_DETAIL = 20000"
definition APPROVAL_TIMEOUT_MS :: nat where "APPROVAL_TIMEOUT_MS = 55000"

record approval_dto =
  ad_id :: nat
  ad_capability :: utext
  ad_scope :: utext
  ad_summary :: utext
  ad_reason :: utext
  ad_details :: "(utext \<times> utext) list"
  ad_remember :: utext
  ad_asked_at :: nat
  ad_expires_at :: nat
  ad_synth :: "utext option"

fun cut_bytes :: "nat \<Rightarrow> utext \<Rightarrow> utext" where
  \<comment> \<open>the longest start of whole characters within so many bytes\<close>
  "cut_bytes n [] = []"
| "cut_bytes n (c # cs) = (if n < char_utf8_len c then [] else c # cut_bytes (n - char_utf8_len c) cs)"

definition approval_dto :: "nat \<Rightarrow> nat \<Rightarrow> approval_request \<Rightarrow> approval_dto" where
  "approval_dto i now q =
     \<lparr>ad_id = i, ad_capability = sanitize_reason (rq_capability q), ad_scope = cut_bytes MAX_SCOPE (sanitize_reason (rq_scope q)),
      ad_summary = rq_summary q, ad_reason = rq_reason q,
      ad_details = map (\<lambda>(k, v). (sanitize_reason k, take MAX_DETAIL v)) (rq_details q),
      ad_remember = remember_label (rq_remember q), ad_asked_at = now, ad_expires_at = now + APPROVAL_TIMEOUT_MS,
      ad_synth = (case rq_synth q of Some n \<Rightarrow> if sanitize_reason n = [] then None else Some (sanitize_reason n) | None \<Rightarrow> None)\<rparr>"

section \<open>The queue\<close>

text \<open>
  \<open>aq_pending\<close> is in the order of the ids. \<open>aq_waiting\<close> are the questions whose asker still
  waits; \<open>aq_settled\<close> is the log of what each asker was told.
\<close>

record approvals =
  aq_next :: nat
  aq_pending :: "approval_dto list"
  aq_waiting :: "nat list"
  aq_settled :: "(nat \<times> approval) list"

definition no_approvals :: approvals where
  "no_approvals = \<lparr>aq_next = 0, aq_pending = [], aq_waiting = [], aq_settled = []\<rparr>"

definition push_question :: "nat \<Rightarrow> approval_request \<Rightarrow> approvals \<Rightarrow> approval_dto \<times> approvals" where
  "push_question now q a =
     (let i = aq_next a + 1; d = approval_dto i now q
      in (d, a\<lparr>aq_next := i, aq_pending := aq_pending a @ [d], aq_waiting := aq_waiting a @ [i]\<rparr>))"

definition list_questions :: "approvals \<Rightarrow> approval_dto list" where
  "list_questions a = aq_pending a"

definition no_questions :: "approvals \<Rightarrow> bool" where
  "no_questions a \<longleftrightarrow> aq_pending a = []"

definition queued :: "approvals \<Rightarrow> nat \<Rightarrow> bool" where
  "queued a i \<longleftrightarrow> list_ex (\<lambda>d. ad_id d = i) (aq_pending a)"

definition unqueue :: "nat \<Rightarrow> approvals \<Rightarrow> approvals" where
  "unqueue i a = a\<lparr>aq_pending := filter (\<lambda>d. ad_id d \<noteq> i) (aq_pending a)\<rparr>"

definition send_answer_to :: "nat \<Rightarrow> approval \<Rightarrow> approvals \<Rightarrow> approvals" where
  \<comment> \<open>down the channel: lost when the other end is gone\<close>
  "send_answer_to i x a =
     (if i \<in> set (aq_waiting a)
      then a\<lparr>aq_waiting := filter (\<lambda>j. j \<noteq> i) (aq_waiting a), aq_settled := aq_settled a @ [(i, x)]\<rparr> else a)"

definition answer_question :: "nat \<Rightarrow> approval \<Rightarrow> approvals \<Rightarrow> bool \<times> approvals" where
  "answer_question i x a = (if queued a i then (True, send_answer_to i x (unqueue i a)) else (False, a))"

definition deny_all :: "approvals \<Rightarrow> nat list \<times> approvals" where
  "deny_all a =
     (let ids = map ad_id (aq_pending a)
      in (ids, fold (\<lambda>i. send_answer_to i approval_deny) ids (a\<lparr>aq_pending := []\<rparr>)))"

definition ask_timed_out :: "nat \<Rightarrow> approvals \<Rightarrow> approvals" where
  \<comment> \<open>no answer in time: the asker refuses, and its end of the channel is gone\<close>
  "ask_timed_out i a = send_answer_to i approval_deny a"

definition drop_expired :: "nat \<Rightarrow> approvals \<Rightarrow> bool \<times> approvals" where
  "drop_expired i a = (queued a i, unqueue i a)"

section \<open>What happens to the queue\<close>

datatype queue_event =
    Asked nat approval_request | Answered nat approval | AllDenied | TimedOut nat | Expired nat

fun queue_next :: "queue_event \<Rightarrow> approvals \<Rightarrow> approvals" where
  "queue_next (Asked now q) a = snd (push_question now q a)"
| "queue_next (Answered i x) a = snd (answer_question i x a)"
| "queue_next AllDenied a = snd (deny_all a)"
| "queue_next (TimedOut i) a = ask_timed_out i a"
| "queue_next (Expired i) a = snd (drop_expired i a)"

definition queue_run :: "queue_event list \<Rightarrow> approvals \<Rightarrow> approvals" where
  "queue_run es a = fold queue_next es a"

text \<open>
  The well-formedness: the waiting ids are new and not settled, an id is settled once, an
  allowing answer was given by the owner (\<open>given\<close> are the answers so far), nothing is settled
  or queued that was not asked.
\<close>

definition queue_ok :: "(nat \<times> approval) set \<Rightarrow> approvals \<Rightarrow> bool" where
  "queue_ok given a \<longleftrightarrow> distinct (aq_waiting a) \<and> distinct (map fst (aq_settled a)) \<and>
     set (aq_waiting a) \<inter> fst ` set (aq_settled a) = {} \<and> distinct (map ad_id (aq_pending a)) \<and>
     set (aq_waiting a) \<union> fst ` set (aq_settled a) = {1..aq_next a} \<and> set (map ad_id (aq_pending a)) \<subseteq> {1..aq_next a} \<and>
     {x \<in> set (aq_settled a). allow (snd x)} \<subseteq> given"

fun given_by :: "queue_event \<Rightarrow> (nat \<times> approval) set" where
  "given_by (Answered i x) = {(i, x)}"
| "given_by _ = {}"

lemma queue_ok_more: "queue_ok g a \<Longrightarrow> queue_ok (g \<union> h) a"
  by (auto simp: queue_ok_def)

lemma queue_ok_send:
  assumes "queue_ok g a" "allow x \<longrightarrow> (i, x) \<in> g"
  shows "queue_ok g (send_answer_to i x a)"
proof (cases "i \<in> set (aq_waiting a)")
  case True
  have union: "set (aq_waiting a) \<union> fst ` set (aq_settled a) = {1..aq_next a}"
    and none: "set (aq_waiting a) \<inter> fst ` set (aq_settled a) = {}" using assms(1) by (auto simp: queue_ok_def)
  have "set (filter (\<lambda>j. j \<noteq> i) (aq_waiting a)) \<union> fst ` set (aq_settled a @ [(i, x)]) = {1..aq_next a}"
    using union True by auto
  with True assms none show ?thesis by (auto simp: queue_ok_def send_answer_to_def)
qed (use assms in \<open>simp add: send_answer_to_def\<close>)

lemma queue_ok_pending:
  "queue_ok g a \<Longrightarrow> distinct (map ad_id ds) \<Longrightarrow> set (map ad_id ds) \<subseteq> {1..aq_next a} \<Longrightarrow> queue_ok g (a\<lparr>aq_pending := ds\<rparr>)"
  by (simp add: queue_ok_def)

lemma queue_ok_unqueue: "queue_ok g a \<Longrightarrow> queue_ok g (unqueue i a)"
  unfolding unqueue_def
  by (intro queue_ok_pending) (auto simp: queue_ok_def distinct_map inj_on_def)

lemma queue_ok_deny: "queue_ok g a \<Longrightarrow> queue_ok g (fold (\<lambda>i. send_answer_to i approval_deny) is a)"
  by (induction "is" arbitrary: a) (simp_all add: queue_ok_send approval_deny_def)

lemma queue_ok_push: "queue_ok g a \<Longrightarrow> queue_ok g (snd (push_question now q a))"
proof -
  assume ok: "queue_ok g a"
  let ?i = "aq_next a + 1"
  have "?i \<notin> set (aq_waiting a) \<union> fst ` set (aq_settled a)" "?i \<notin> set (map ad_id (aq_pending a))"
    using ok by (auto simp: queue_ok_def)
  moreover have "set (aq_waiting a @ [?i]) \<union> fst ` set (aq_settled a) = {1..?i}"
  proof -
    have "set (aq_waiting a) \<union> fst ` set (aq_settled a) = {1..aq_next a}" using ok by (simp add: queue_ok_def)
    then show ?thesis by (auto simp: atLeastAtMostSuc_conv)
  qed
  ultimately show ?thesis using ok by (auto simp: queue_ok_def push_question_def approval_dto_def Let_def)
qed

lemma queue_ok_next: "queue_ok g a \<Longrightarrow> queue_ok (g \<union> given_by e) (queue_next e a)"
proof (cases e)
  case (Asked now q)
  then show "queue_ok g a \<Longrightarrow> ?thesis" using queue_ok_push by simp
next
  case (Answered i x)
  assume "queue_ok g a"
  then have "queue_ok (g \<union> {(i, x)}) (unqueue i a)" using queue_ok_unqueue queue_ok_more by blast
  then have "queue_ok (g \<union> {(i, x)}) (send_answer_to i x (unqueue i a))" by (rule queue_ok_send) simp
  with \<open>queue_ok g a\<close> Answered queue_ok_more [of g a "{(i, x)}"] show ?thesis by (simp add: answer_question_def)
next
  case AllDenied
  assume "queue_ok g a"
  then have "queue_ok g (a\<lparr>aq_pending := []\<rparr>)" by (rule queue_ok_pending) simp_all
  with AllDenied queue_ok_deny show ?thesis by (simp add: deny_all_def Let_def)
next
  case (TimedOut i)
  then show "queue_ok g a \<Longrightarrow> ?thesis" using queue_ok_send by (simp add: ask_timed_out_def approval_deny_def)
next
  case (Expired i)
  then show "queue_ok g a \<Longrightarrow> ?thesis" using queue_ok_unqueue by (simp add: drop_expired_def)
qed

lemma queue_ok_run: "queue_ok g a \<Longrightarrow> queue_ok (g \<union> \<Union> (set (map given_by es))) (queue_run es a)"
proof (induction es arbitrary: g a)
  case (Cons e es)
  from Cons.IH [OF queue_ok_next [OF Cons.prems, of e]] show ?case by (simp add: queue_run_def Un_assoc)
qed (simp add: queue_run_def)

lemma given_by_events: "\<Union> (given_by ` set es) = {(i, x). Answered i x \<in> set es}"
proof -
  have "(i, x) \<in> given_by e \<longleftrightarrow> e = Answered i x" for i x e by (cases e) auto
  then show ?thesis by auto
qed


lemma unqueue_waiting [simp]: "aq_waiting (unqueue i a) = aq_waiting a" "aq_settled (unqueue i a) = aq_settled a"
  by (simp_all add: unqueue_def)

text \<open>
  A click that falls between the end of the wait and the question leaving the queue: the
  command says the answer was taken, and the asker was told no.
\<close>

theorem late_answer_lost:
  assumes "i \<in> set (aq_waiting a)" "queued a i" "answer_question i x (ask_timed_out i a) = (taken, a')"
  shows "taken \<and> (i, approval_deny) \<in> set (aq_settled a') \<and> aq_settled a' = aq_settled a @ [(i, approval_deny)]"
proof -
  have "queued (ask_timed_out i a) i" using assms(1,2) by (simp add: queued_def ask_timed_out_def send_answer_to_def)
  then have "taken" "a' = send_answer_to i x (unqueue i (ask_timed_out i a))"
    using assms(3) by (simp_all add: answer_question_def)
  moreover have "i \<notin> set (aq_waiting (ask_timed_out i a))" "aq_settled (ask_timed_out i a) = aq_settled a @ [(i, approval_deny)]"
    using assms(1) by (simp_all add: ask_timed_out_def send_answer_to_def)
  ultimately show ?thesis by (simp add: send_answer_to_def)
qed

theorem late_answer_lost_witness:
  "\<exists>a'. answer_question 1 approval_always (ask_timed_out 1 (snd (push_question 0 (new_request [] [] [] []) no_approvals))) = (True, a') \<and>
     aq_settled a' = [(1, approval_deny)]"
proof -
  let ?a = "snd (push_question 0 (new_request [] [] [] []) no_approvals)"
  obtain t a' where r: "answer_question 1 approval_always (ask_timed_out 1 ?a) = (t, a')" by fastforce
  have a: "1 \<in> set (aq_waiting ?a)" "queued ?a 1" "aq_settled ?a = []"
    by (simp_all add: push_question_def no_approvals_def queued_def approval_dto_def Let_def)
  from late_answer_lost [OF a(1,2) r] r a(3) show ?thesis by simp
qed

section \<open>What the window shows\<close>

lemma cut_bytes_len: "utf8_len (cut_bytes n s) \<le> n"
  by (induction n s rule: cut_bytes.induct) auto

lemma cut_bytes_part: "set (cut_bytes n s) \<subseteq> set s"
  by (induction n s rule: cut_bytes.induct) auto

text \<open>
  What the approval window shows of a synth's words is bounded and of one line: the scope at
  most 200 bytes, no control character in it or in the synth's name, each fact at most 20000
  characters; the question ends 55 seconds after it was asked.
\<close>

theorem shown_question_bounded:
  "utf8_len (ad_scope (approval_dto i now q)) \<le> 200 \<and> \<not> list_ex is_control (ad_scope (approval_dto i now q)) \<and>
   \<not> list_ex is_control (ad_capability (approval_dto i now q)) \<and>
   (case ad_synth (approval_dto i now q) of Some n \<Rightarrow> n \<noteq> [] \<and> \<not> list_ex is_control n | None \<Rightarrow> True) \<and>
   list_all (\<lambda>(k, v). \<not> list_ex is_control k \<and> length v \<le> 20000) (ad_details (approval_dto i now q)) \<and>
   ad_expires_at (approval_dto i now q) = now + 55000"
proof -
  have clean: "\<not> list_ex is_control (sanitize_reason t)" for t using sanitize_reason_safe [of t] by (simp add: list_ex_iff)
  then have "\<not> list_ex is_control (cut_bytes n (sanitize_reason t))" for n t
    using cut_bytes_part [of n "sanitize_reason t"] by (auto simp: list_ex_iff)
  with clean cut_bytes_len [of 200] show ?thesis
    by (auto simp: approval_dto_def MAX_SCOPE_def MAX_DETAIL_def APPROVAL_TIMEOUT_MS_def list_all_iff split: option.split)
qed

end
