(* ===== verification/App_Updates.thy ===== *)
theory App_Updates
  imports Core_Policy Driver_Install Shell_Approvals
begin

text \<open>
  \<open>app/src-tauri/src/updates.rs\<close> and the actions of \<open>actions.rs\<close> it works with: how the
  desktop app finds, downloads and applies a new version of itself, when it does so on its
  own, and what is put back when an installation fails. The release feed, the updater plugin
  (its download checks the signature), the clock and the operating system are parameters;
  \<open>uw_gap\<close> is what other tasks do while this one waits. One check, download or installation
  runs at a time (the lock \<open>gate\<close>), so a gap holds none of these. The pause of an exit is cut
  after four seconds in the code, which leaves at most a daemon behind; on Windows the installer
  ends the process itself.
\<close>

section \<open>State\<close>

datatype update_block = Translocated | ReadOnly | SystemPackage

datatype update_step = StepCheck | StepDownload | StepInstall

datatype update_phase =
    UpIdle
  | UpChecking
  | UpDownloading utext nat "nat option"
  | UpReady utext "utext option"
  | UpAvailable utext "utext option"
  | UpApplying utext
  | UpFailed "utext option" update_step utext

record app_update =
  ud_version :: utext
  ud_notes :: "utext option"

record updates =
  up_phase :: update_phase
  up_announced :: "app_update option"
  up_downloaded :: "app_update option"
  up_next_check :: instant
  up_last_checked :: "unix_time option"
  up_configured :: bool
  up_blocked :: "update_block option"
  up_updated_from :: "utext option"
  up_window_was_shown :: bool
  up_started_hidden :: bool

record prefs =
  pf_onboarded :: bool
  pf_language :: "utext option"
  pf_last_language :: "utext option"
  pf_autostart :: bool
  pf_stop_shortcut :: utext
  pf_paused :: bool
  pf_auto_update :: bool
  pf_last_version :: "utext option"
  pf_resume_hidden :: "bool option"
  pf_developer :: bool

definition DEFAULT_STOP_SHORTCUT :: utext where "DEFAULT_STOP_SHORTCUT = lit ''CommandOrControl+Alt+Period''"

definition default_prefs :: prefs where
  "default_prefs = \<lparr>pf_onboarded = False, pf_language = None, pf_last_language = None, pf_autostart = False,
     pf_stop_shortcut = DEFAULT_STOP_SHORTCUT, pf_paused = False, pf_auto_update = True, pf_last_version = None,
     pf_resume_hidden = None, pf_developer = False\<rparr>"

record app_ctx =
  cx_core :: shared
  cx_helper :: installer
  cx_approvals :: approvals
  cx_updates :: updates
  cx_prefs :: prefs
  cx_visible :: bool
  cx_version :: utext             \<comment> \<open>of the app on disk\<close>
  cx_shutdown :: bool
  cx_relaunch :: bool
  cx_exited :: bool
  cx_phases :: "update_phase list" \<comment> \<open>what the window was told, a log\<close>

datatype update_await = AwFeed | AwDownload | AwPause | AwInstall

record update_world =
  uw_now :: instant
  uw_wall :: unix_time
  uw_nanos :: nat
  uw_feed :: "(utext, app_update option) result"
  uw_chunks :: "nat list"
  uw_length :: "nat option"
  uw_download :: "(utext, unit) result"
  uw_idle :: nat
  uw_install :: "app_update \<Rightarrow> (utext, unit) result"
  uw_gap :: "update_await \<Rightarrow> app_ctx \<Rightarrow> app_ctx"

definition FIRST_CHECK_AFTER :: instant where "FIRST_CHECK_AFTER = seconds 25"
definition CHECK_EVERY :: instant where "CHECK_EVERY = seconds (6 * 3600)"
definition CHECK_JITTER_SECS :: nat where "CHECK_JITTER_SECS = 20 * 60"
definition UPDATE_RETRY_AFTER :: instant where "UPDATE_RETRY_AFTER = seconds (20 * 60)"
definition AWAY_SECONDS :: nat where "AWAY_SECONDS = 180"

definition jitter_secs :: "update_world \<Rightarrow> nat \<Rightarrow> instant" where
  "jitter_secs w most = seconds (uw_nanos w mod (most + 1))"

definition is_translocated :: "utext list \<Rightarrow> bool" where
  \<comment> \<open>given the components of the path\<close>
  "is_translocated path \<longleftrightarrow> lit ''AppTranslocation'' \<in> set path"

definition detect_block_macos :: "(utext list \<times> bool \<times> bool) option \<Rightarrow> update_block option" where
  \<comment> \<open>the bundle, and may its folder and itself be written\<close>
  "detect_block_macos target =
     (case target of None \<Rightarrow> None
      | Some (path, folder, itself) \<Rightarrow>
          if is_translocated path then Some Translocated else if \<not> folder \<or> \<not> itself then Some ReadOnly else None)"

definition detect_block_linux :: "bool \<Rightarrow> (bool \<times> bool) option \<Rightarrow> update_block option" where
  "detect_block_linux package target =
     (if package then Some SystemPackage
      else case target of Some (folder, itself) \<Rightarrow> if folder \<and> itself then None else Some ReadOnly
        | None \<Rightarrow> Some SystemPackage)"

definition new_updates :: "update_world \<Rightarrow> bool \<Rightarrow> bool \<Rightarrow> update_block option \<Rightarrow> utext option \<Rightarrow> updates" where
  \<comment> \<open>given: is this a debug build, and what \<open>detect_block\<close> says\<close>
  "new_updates w configured debug blocked from =
     (let c = (configured \<and> \<not> debug)
      in \<lparr>up_phase = UpIdle, up_announced = None, up_downloaded = None,
          up_next_check = uw_now w + FIRST_CHECK_AFTER + jitter_secs w 20, up_last_checked = None,
          up_configured = c, up_blocked = (if c then blocked else None), up_updated_from = from,
          up_window_was_shown = False, up_started_hidden = False\<rparr>)"

definition on_updates :: "(updates \<Rightarrow> updates) \<Rightarrow> app_ctx \<Rightarrow> app_ctx" where
  "on_updates f c = c\<lparr>cx_updates := f (cx_updates c)\<rparr>"

definition on_ctx_core :: "(shared \<Rightarrow> shared) \<Rightarrow> app_ctx \<Rightarrow> app_ctx" where
  "on_ctx_core f c = c\<lparr>cx_core := f (cx_core c)\<rparr>"

definition update_prefs :: "(prefs \<Rightarrow> prefs) \<Rightarrow> app_ctx \<Rightarrow> app_ctx" where
  "update_prefs f c = c\<lparr>cx_prefs := f (cx_prefs c)\<rparr>"

definition set_update_phase :: "update_phase \<Rightarrow> app_ctx \<Rightarrow> app_ctx" where
  "set_update_phase ph c = (on_updates (\<lambda>u. u\<lparr>up_phase := ph\<rparr>) c)\<lparr>cx_phases := cx_phases c @ [ph]\<rparr>"

definition phase_of :: "app_ctx \<Rightarrow> update_phase" where
  "phase_of c = up_phase (cx_updates c)"

definition has_download :: "app_ctx \<Rightarrow> bool" where
  "has_download c \<longleftrightarrow> up_downloaded (cx_updates c) \<noteq> None"

section \<open>Checking and downloading\<close>

fun shows_own :: "update_phase \<Rightarrow> bool" where
  \<comment> \<open>stays in sight while the feed is asked again\<close>
  "shows_own (UpReady v n) = True"
| "shows_own (UpDownloading v r t) = True"
| "shows_own (UpApplying v) = True"
| "shows_own _ = False"

definition next_scheduled :: "update_world \<Rightarrow> instant" where
  "next_scheduled w = uw_now w + CHECK_EVERY - seconds CHECK_JITTER_SECS + jitter_secs w (2 * CHECK_JITTER_SECS)"

definition check_answer :: "update_world \<Rightarrow> bool \<Rightarrow> update_phase \<Rightarrow> app_ctx \<Rightarrow> app_ctx" where
  \<comment> \<open>with the phase there was before\<close>
  "check_answer w by_owner before c =
     (case uw_feed w of
        Err detail \<Rightarrow>
          (if by_owner then set_update_phase (UpFailed None StepCheck detail) c
           else if \<not> shows_own before then set_update_phase (if before = UpChecking then UpIdle else before) c
           else c)
      | Ok None \<Rightarrow>
          set_update_phase UpIdle
            (on_updates (\<lambda>u. u\<lparr>up_last_checked := Some (uw_wall w), up_announced := None, up_downloaded := None\<rparr>) c)
      | Ok (Some found) \<Rightarrow>
          (let c1 = on_updates (\<lambda>u. u\<lparr>up_last_checked := Some (uw_wall w)\<rparr>) c
           in if (case up_downloaded (cx_updates c1) of Some d \<Rightarrow> ud_version d = ud_version found | None \<Rightarrow> False) then c1
              else set_update_phase (UpAvailable (ud_version found) (ud_notes found))
                (on_updates (\<lambda>u. u\<lparr>up_downloaded := None, up_announced := Some found\<rparr>) c1)))"

definition check_feed :: "update_world \<Rightarrow> bool \<Rightarrow> app_ctx \<Rightarrow> app_ctx" where
  "check_feed w by_owner c =
     (if \<not> up_configured (cx_updates c) then c
      else let c1 = on_updates (\<lambda>u. u\<lparr>up_next_check := next_scheduled w\<rparr>) c;
               before = phase_of c1;
               c2 = (if shows_own before then c1 else set_update_phase UpChecking c1)
           in check_answer w by_owner before (uw_gap w AwFeed c2))"

fun progress_told :: "utext \<Rightarrow> nat option \<Rightarrow> nat \<Rightarrow> nat \<Rightarrow> nat list \<Rightarrow> app_ctx \<Rightarrow> app_ctx" where
  \<comment> \<open>what was received, what was shown last\<close>
  "progress_told v len received shown [] c = c"
| "progress_told v len received shown (n # ns) c =
     (let r = received + n
      in if 512 * 1024 \<le> r - shown \<or> Some r = len
         then progress_told v len r r ns (set_update_phase (UpDownloading v r len) c)
         else progress_told v len r shown ns c)"

definition download_update :: "update_world \<Rightarrow> bool \<Rightarrow> app_ctx \<Rightarrow> bool \<times> app_ctx" where
  "download_update w by_owner c =
     (if has_download c then (True, c)
      else case up_announced (cx_updates c) of
             None \<Rightarrow> (False, c)
           | Some u \<Rightarrow>
               (let c1 = uw_gap w AwDownload (progress_told (ud_version u) (uw_length w) 0 0 (uw_chunks w)
                    (set_update_phase (UpDownloading (ud_version u) 0 None) c))
                in case uw_download w of
                     Ok _ \<Rightarrow> (True, set_update_phase (UpReady (ud_version u) (ud_notes u)) (on_updates (\<lambda>x. x\<lparr>up_downloaded := Some u\<rparr>) c1))
                   | Err e \<Rightarrow>
                       (False, set_update_phase
                          (if by_owner then UpFailed (Some (ud_version u)) StepDownload e else UpAvailable (ud_version u) (ud_notes u))
                          (on_updates (\<lambda>x. x\<lparr>up_next_check := uw_now w + UPDATE_RETRY_AFTER + jitter_secs w 120\<rparr>) c1))))"

section \<open>Applying\<close>

fun helper_busy :: "install_state \<Rightarrow> bool" where
  "helper_busy InChecking = True"
| "helper_busy (InDownloading r t) = True"
| "helper_busy InInstalling = True"
| "helper_busy InVerifying = True"
| "helper_busy _ = False"

definition nothing_in_flight :: "app_ctx \<Rightarrow> bool" where
  "nothing_in_flight c \<longleftrightarrow> sh_streams_open (cx_core c) = 0 \<and> no_questions (cx_approvals c) \<and> \<not> helper_busy (in_state (cx_helper c))"

definition quiet_moment :: "update_world \<Rightarrow> app_ctx \<Rightarrow> bool" where
  "quiet_moment w c \<longleftrightarrow> nothing_in_flight c \<and>
     (AWAY_SECONDS \<le> uw_idle w \<or> (up_started_hidden (cx_updates c) \<and> \<not> up_window_was_shown (cx_updates c)))"

datatype apply_how = ApplyQuiet | ApplyByOwner | ApplyAtQuit

fun block_name :: "update_block \<Rightarrow> utext" where
  "block_name Translocated = lit ''Translocated''"
| "block_name ReadOnly = lit ''ReadOnly''"
| "block_name SystemPackage = lit ''Package''"

definition blocked_text :: "update_block \<Rightarrow> utext" where
  "blocked_text b = lit ''blocked: '' @ block_name b"

definition stop_everything :: "app_ctx \<Rightarrow> app_ctx" where
  \<comment> \<open>the owner's pause is what is remembered, not this one\<close>
  "stop_everything c =
     on_ctx_core pause (c\<lparr>cx_shutdown := True, cx_helper := stop_install (cx_helper c), cx_approvals := snd (deny_all (cx_approvals c))\<rparr>)"

definition exit_app :: "app_ctx \<Rightarrow> app_ctx" where
  "exit_app c = (stop_everything c)\<lparr>cx_exited := True\<rparr>"

definition apply_failed :: "update_world \<Rightarrow> apply_how \<Rightarrow> bool \<Rightarrow> utext \<Rightarrow> utext \<Rightarrow> app_ctx \<Rightarrow> app_ctx" where
  \<comment> \<open>the old version goes on: was the core paused when the installation began\<close>
  "apply_failed w how was_paused version detail c =
     (let c1 = update_prefs (\<lambda>p. p\<lparr>pf_resume_hidden := None\<rparr>) c;
          c2 = (if how \<noteq> ApplyAtQuit \<and> \<not> was_paused then on_ctx_core resume c1 else c1)
      in set_update_phase (UpFailed (Some version) StepInstall detail)
           (on_updates (\<lambda>u. u\<lparr>up_next_check := uw_now w + UPDATE_RETRY_AFTER + jitter_secs w 120\<rparr>) c2))"

definition apply_installing :: "update_world \<Rightarrow> apply_how \<Rightarrow> app_update \<Rightarrow> app_ctx \<Rightarrow> (utext, unit) result \<times> app_ctx" where
  "apply_installing w how u c =
     (let was_paused = sh_paused (cx_core c);
          c1 = (if how \<noteq> ApplyAtQuit then uw_gap w AwPause (on_ctx_core pause c) else c);
          c2 = set_update_phase (UpApplying (ud_version u)) c1;
          c3 = (if how \<noteq> ApplyAtQuit then update_prefs (\<lambda>p. p\<lparr>pf_resume_hidden := Some (\<not> cx_visible c2)\<rparr>) c2 else c2);
          c4 = uw_gap w AwInstall c3
      in case uw_install w u of
           Err detail \<Rightarrow> (Err detail, apply_failed w how was_paused (ud_version u) detail c4)
         | Ok _ \<Rightarrow>
             (let c5 = c4\<lparr>cx_version := ud_version u\<rparr>
              in if how \<noteq> ApplyAtQuit then (Ok (), exit_app (c5\<lparr>cx_relaunch := True\<rparr>)) else (Ok (), c5)))"

definition apply_update :: "update_world \<Rightarrow> apply_how \<Rightarrow> app_ctx \<Rightarrow> (utext, unit) result \<times> app_ctx" where
  "apply_update w how c =
     (case up_blocked (cx_updates c) of
        Some b \<Rightarrow> (Err (blocked_text b), c)
      | None \<Rightarrow>
          (case up_downloaded (cx_updates c) of
             None \<Rightarrow> (Err (lit ''no downloaded update''), c)
           | Some u \<Rightarrow>
               (let c1 = on_updates (\<lambda>x. x\<lparr>up_downloaded := None\<rparr>) c
                in if how = ApplyQuiet \<and> \<not> nothing_in_flight c1
                   then (Err (lit ''busy''),
                         set_update_phase (UpReady (ud_version u) (ud_notes u)) (on_updates (\<lambda>x. x\<lparr>up_downloaded := Some u\<rparr>) c1))
                   else apply_installing w how u c1)))"

section \<open>The safety copy on macOS\<close>

text \<open>
  The place of the app: nothing, or a bundle with its version, has it a program, does its
  signature hold. \<open>gw_install\<close> is what the plugin leaves there and says.
\<close>

record app_bundle =
  bu_version :: utext
  bu_program :: bool
  bu_signed :: bool

record guard_world =
  gw_place :: bool                 \<comment> \<open>it runs from a bundle, and there is a folder for the copy\<close>
  gw_mkdir :: "utext option"
  gw_clone :: bool                 \<comment> \<open>do the two ways to copy succeed\<close>
  gw_plain :: bool
  gw_install :: "app_bundle option \<Rightarrow> (utext, unit) result \<times> app_bundle option"
  gw_rename :: bool
  gw_copy_back :: bool

definition bundle_is_whole :: "app_bundle option \<Rightarrow> (utext, unit) result" where
  "bundle_is_whole b =
     (case b of
        None \<Rightarrow> Err (lit ''the installed app has no program in it'')
      | Some x \<Rightarrow>
          if \<not> bu_program x then Err (lit ''the installed app has no program in it'')
          else if bu_signed x then Ok () else Err (lit ''the installed app did not pass the signature check''))"

definition install_guarded :: "guard_world \<Rightarrow> app_bundle option \<Rightarrow> (utext, unit) result \<times> app_bundle option" where
  "install_guarded g place =
     (if \<not> gw_place g then (Err (lit ''the app is not running from an app bundle''), place)
      else case gw_mkdir g of
             Some e \<Rightarrow> (Err (lit ''safety copy: '' @ e), place)
           | None \<Rightarrow>
               (if \<not> gw_clone g \<and> \<not> gw_plain g then (Err (lit ''could not make a safety copy of the app''), place)
                else let backup = place;
                         (installed, after) = gw_install g place;
                         result = (case installed of Err e \<Rightarrow> Err e | Ok _ \<Rightarrow> bundle_is_whole after)
                     in if \<not> is_ok result \<and> \<not> is_ok (bundle_is_whole after)
                        then (result, if gw_rename g \<or> gw_copy_back g then backup else None)
                        else (result, after)))"

section \<open>What the owner asks for, and the loop\<close>

fun is_available :: "update_phase \<Rightarrow> bool" where
  "is_available (UpAvailable v n) = True"
| "is_available _ = False"

fun is_ready :: "update_phase \<Rightarrow> bool" where
  "is_ready (UpReady v n) = True"
| "is_ready _ = False"

definition check_by_owner :: "update_world \<Rightarrow> app_ctx \<Rightarrow> app_ctx" where
  "check_by_owner w c =
     (let c1 = check_feed w True c
      in if pf_auto_update (cx_prefs c1) \<and> up_blocked (cx_updates c1) = None \<and> is_available (phase_of c1)
         then snd (download_update w True c1) else c1)"

definition fetch_if_wanted :: "update_world \<Rightarrow> app_ctx \<Rightarrow> app_ctx" where
  "fetch_if_wanted w c =
     (if \<not> up_configured (cx_updates c) \<or> up_blocked (cx_updates c) \<noteq> None then c
      else let c1 = (if is_available (phase_of c) \<or> is_ready (phase_of c) then c else check_feed w False c)
           in if pf_auto_update (cx_prefs c1) \<and> is_available (phase_of c1) then snd (download_update w False c1) else c1)"

definition install_by_owner :: "update_world \<Rightarrow> app_ctx \<Rightarrow> (utext, unit) result \<times> app_ctx" where
  "install_by_owner w c =
     (case up_blocked (cx_updates c) of
        Some b \<Rightarrow> (Err (blocked_text b), c)
      | None \<Rightarrow>
          (let (ok, c1) = (if has_download c then (True, c) else download_update w True c)
           in if \<not> ok then (Err (lit ''download failed''), c1) else apply_update w ApplyByOwner c1))"

definition apply_at_quit :: "update_world \<Rightarrow> app_ctx \<Rightarrow> app_ctx" where
  "apply_at_quit w c =
     (if up_configured (cx_updates c) \<and> up_blocked (cx_updates c) = None \<and> pf_auto_update (cx_prefs c) \<and> has_download c
      then snd (apply_update w ApplyAtQuit c) else c)"

definition quit_app :: "update_world \<Rightarrow> app_ctx \<Rightarrow> app_ctx" where
  "quit_app w c = (apply_at_quit w (stop_everything c))\<lparr>cx_exited := True\<rparr>"

definition pause_by_owner :: "app_ctx \<Rightarrow> app_ctx" where
  "pause_by_owner c = update_prefs (\<lambda>p. p\<lparr>pf_paused := True\<rparr>)
     (on_ctx_core pause (c\<lparr>cx_approvals := snd (deny_all (cx_approvals c))\<rparr>))"

definition resume_by_owner :: "app_ctx \<Rightarrow> app_ctx" where
  "resume_by_owner c =
     (if \<not> pf_onboarded (cx_prefs c) then c else update_prefs (\<lambda>p. p\<lparr>pf_paused := False\<rparr>) (on_ctx_core resume c))"

definition update_beat :: "update_world \<Rightarrow> app_ctx \<Rightarrow> app_ctx" where
  \<comment> \<open>one round of the background loop; there is none in a build without the key, or once the app shuts down\<close>
  "update_beat w c =
     (if \<not> up_configured (cx_updates c) \<or> cx_shutdown c then c
      else let c1 = (if up_next_check (cx_updates c) \<le> uw_now w then check_feed w False c else c)
      in if \<not> pf_auto_update (cx_prefs c1) \<or> up_blocked (cx_updates c1) \<noteq> None then c1
         else if is_available (phase_of c1)
         then (if uw_now w + CHECK_EVERY div 2 < up_next_check (cx_updates c1) then snd (download_update w False c1) else c1)
         else if is_ready (phase_of c1) \<and> quiet_moment w c1 then snd (apply_update w ApplyQuiet c1)
         else c1)"

definition note_version :: "utext \<Rightarrow> unix_time \<Rightarrow> app_ctx \<Rightarrow> utext option \<times> app_ctx" where
  "note_version current wall c =
     (let previous = pf_last_version (cx_prefs c);
          c1 = update_prefs (\<lambda>p. p\<lparr>pf_last_version := Some current\<rparr>) c
      in case previous of
           Some prev \<Rightarrow>
             if prev \<noteq> current
             then (Some prev, on_ctx_core (sh_record None (new_entry wall (lit ''app'') (lit ''update'') current (lit ''ok''))) c1)
             else (None, c1)
         | None \<Rightarrow> (None, c1))"

section \<open>What is ready was downloaded\<close>

definition ready_is_held :: "app_ctx \<Rightarrow> bool" where
  "ready_is_held c \<longleftrightarrow>
     (\<forall>v n. phase_of c = UpReady v n \<longrightarrow> (\<exists>u. up_downloaded (cx_updates c) = Some u \<and> ud_version u = v))"

definition updates_untouched :: "update_world \<Rightarrow> bool" where
  \<comment> \<open>other tasks leave the phase and the download alone: they need the lock\<close>
  "updates_untouched w \<longleftrightarrow>
     (\<forall>k c. phase_of (uw_gap w k c) = phase_of c \<and> up_downloaded (cx_updates (uw_gap w k c)) = up_downloaded (cx_updates c))"

named_theorems update_simps

lemma on_updates_fields [simp, update_simps]:
  "cx_updates (on_updates f c) = f (cx_updates c)" "cx_core (on_updates f c) = cx_core c"
  "cx_helper (on_updates f c) = cx_helper c" "cx_approvals (on_updates f c) = cx_approvals c"
  "cx_prefs (on_updates f c) = cx_prefs c" "cx_version (on_updates f c) = cx_version c"
  "cx_exited (on_updates f c) = cx_exited c" "cx_visible (on_updates f c) = cx_visible c"
  "cx_relaunch (on_updates f c) = cx_relaunch c" "cx_shutdown (on_updates f c) = cx_shutdown c" "cx_phases (on_updates f c) = cx_phases c"
  by (simp_all add: on_updates_def)

lemma on_ctx_core_fields [simp, update_simps]:
  "cx_updates (on_ctx_core g c) = cx_updates c" "cx_core (on_ctx_core g c) = g (cx_core c)"
  "cx_helper (on_ctx_core g c) = cx_helper c" "cx_approvals (on_ctx_core g c) = cx_approvals c"
  "cx_prefs (on_ctx_core g c) = cx_prefs c" "cx_version (on_ctx_core g c) = cx_version c"
  "cx_exited (on_ctx_core g c) = cx_exited c" "cx_visible (on_ctx_core g c) = cx_visible c"
  "cx_relaunch (on_ctx_core g c) = cx_relaunch c" "phase_of (on_ctx_core g c) = phase_of c"
  by (simp_all add: on_ctx_core_def phase_of_def)

lemma update_prefs_fields [simp, update_simps]:
  "cx_updates (update_prefs h c) = cx_updates c" "cx_core (update_prefs h c) = cx_core c"
  "cx_helper (update_prefs h c) = cx_helper c" "cx_approvals (update_prefs h c) = cx_approvals c"
  "cx_prefs (update_prefs h c) = h (cx_prefs c)" "cx_version (update_prefs h c) = cx_version c"
  "cx_exited (update_prefs h c) = cx_exited c" "cx_visible (update_prefs h c) = cx_visible c"
  "cx_relaunch (update_prefs h c) = cx_relaunch c" "phase_of (update_prefs h c) = phase_of c"
  by (simp_all add: update_prefs_def phase_of_def)

lemma set_update_phase_fields [simp, update_simps]:
  "phase_of (set_update_phase ph c) = ph"
  "up_phase (cx_updates (set_update_phase ph c)) = ph"
  "up_downloaded (cx_updates (set_update_phase ph c)) = up_downloaded (cx_updates c)"
  "up_announced (cx_updates (set_update_phase ph c)) = up_announced (cx_updates c)"
  "up_blocked (cx_updates (set_update_phase ph c)) = up_blocked (cx_updates c)"
  "up_configured (cx_updates (set_update_phase ph c)) = up_configured (cx_updates c)"
  "up_next_check (cx_updates (set_update_phase ph c)) = up_next_check (cx_updates c)"
  "up_started_hidden (cx_updates (set_update_phase ph c)) = up_started_hidden (cx_updates c)"
  "up_window_was_shown (cx_updates (set_update_phase ph c)) = up_window_was_shown (cx_updates c)"
  "cx_core (set_update_phase ph c) = cx_core c" "cx_helper (set_update_phase ph c) = cx_helper c"
  "cx_approvals (set_update_phase ph c) = cx_approvals c" "cx_prefs (set_update_phase ph c) = cx_prefs c"
  "cx_version (set_update_phase ph c) = cx_version c" "cx_exited (set_update_phase ph c) = cx_exited c"
  "cx_visible (set_update_phase ph c) = cx_visible c" "cx_relaunch (set_update_phase ph c) = cx_relaunch c"
  "cx_shutdown (set_update_phase ph c) = cx_shutdown c"
  by (simp_all add: set_update_phase_def phase_of_def)

lemma ready_is_held_set [simp]:
  "ready_is_held (set_update_phase ph c) \<longleftrightarrow>
     (\<forall>v n. ph = UpReady v n \<longrightarrow> (\<exists>u. up_downloaded (cx_updates c) = Some u \<and> ud_version u = v))"
  by (simp add: ready_is_held_def)

lemma ready_is_held_cong:
  assumes "phase_of c' = phase_of c" and "up_downloaded (cx_updates c') = up_downloaded (cx_updates c)"
  shows "ready_is_held c' = ready_is_held c"
  using assms by (simp add: ready_is_held_def)

lemma check_answer_held:
  assumes "ready_is_held c" and "shows_own before \<or> phase_of c = UpChecking"
  shows "ready_is_held (check_answer w by_owner before c)"
proof -
  have own: "\<not> shows_own ph \<Longrightarrow> ph \<noteq> UpReady v n" for ph v n by auto
  show ?thesis
    using assms own
    by (auto simp: check_answer_def ready_is_held_def[of "on_updates f c" for f] phase_of_def Let_def
          ready_is_held_def[of c] split: sum.splits option.splits)
qed

lemma check_feed_held:
  assumes g: "updates_untouched w" and c: "ready_is_held c"
  shows "ready_is_held (check_feed w by_owner c)"
proof -
  define c1 where "c1 = on_updates (\<lambda>u. u\<lparr>up_next_check := next_scheduled w\<rparr>) c"
  define c2 where "c2 = (if shows_own (phase_of c1) then c1 else set_update_phase UpChecking c1)"
  have c1: "ready_is_held c1"
    using c by (simp add: c1_def ready_is_held_def phase_of_def)
  have c2: "ready_is_held c2" using c1 by (auto simp: c2_def)
  have gap: "ready_is_held (uw_gap w AwFeed c2)"
    using g c2 ready_is_held_cong[of "uw_gap w AwFeed c2" c2] by (simp add: updates_untouched_def)
  have "shows_own (phase_of c1) \<or> phase_of (uw_gap w AwFeed c2) = UpChecking"
    using g by (simp add: updates_untouched_def c2_def)
  from check_answer_held[OF gap this] show ?thesis
    using c by (simp add: check_feed_def Let_def c1_def[symmetric] c2_def[symmetric])
qed

lemma progress_told_fields:
  "up_downloaded (cx_updates (progress_told v len r s ns c)) = up_downloaded (cx_updates c)"
  "cx_core (progress_told v len r s ns c) = cx_core c"
  "cx_version (progress_told v len r s ns c) = cx_version c"
  "cx_exited (progress_told v len r s ns c) = cx_exited c"
  "cx_prefs (progress_told v len r s ns c) = cx_prefs c"
  "cx_approvals (progress_told v len r s ns c) = cx_approvals c"
  by (induction v len r s ns c rule: progress_told.induct) (simp_all add: Let_def)

lemma download_update_held:
  assumes "ready_is_held c"
  shows "ready_is_held (snd (download_update w by_owner c))"
  using assms by (auto simp: download_update_def Let_def split: option.splits sum.splits)

lemma apply_failed_held [simp]: "ready_is_held (apply_failed w how p v d c)"
  by (simp add: apply_failed_def Let_def)

lemma stop_everything_fields [simp, update_simps]:
  "cx_updates (stop_everything c) = cx_updates c" "phase_of (stop_everything c) = phase_of c"
  "cx_core (stop_everything c) = pause (cx_core c)" "cx_prefs (stop_everything c) = cx_prefs c"
  "cx_version (stop_everything c) = cx_version c" "cx_exited (stop_everything c) = cx_exited c"
  "cx_relaunch (stop_everything c) = cx_relaunch c"
  by (simp_all add: stop_everything_def on_ctx_core_def phase_of_def)

lemma exit_app_fields [simp, update_simps]:
  "cx_updates (exit_app c) = cx_updates c" "phase_of (exit_app c) = phase_of c"
  "cx_core (exit_app c) = pause (cx_core c)" "cx_prefs (exit_app c) = cx_prefs c"
  "cx_version (exit_app c) = cx_version c" "cx_exited (exit_app c) = True"
  "cx_relaunch (exit_app c) = cx_relaunch c"
  using stop_everything_fields[of c] by (simp_all add: exit_app_def phase_of_def)

lemma apply_installing_held:
  assumes "updates_untouched w"
  shows "ready_is_held (snd (apply_installing w how u c))"
  using assms by (auto simp: apply_installing_def Let_def ready_is_held_def updates_untouched_def phase_of_def
      apply_failed_def split: sum.splits)

lemma apply_update_held:
  assumes "updates_untouched w" and "ready_is_held c"
  shows "ready_is_held (snd (apply_update w how c))"
  using assms apply_installing_held[OF assms(1)]
  by (auto simp: apply_update_def Let_def split: option.splits)

datatype update_act = DoCheck | DoFetch | DoInstall | DoBeat | DoQuit | DoPause | DoResume

definition update_turn :: "update_act \<Rightarrow> update_world \<Rightarrow> app_ctx \<Rightarrow> app_ctx" where
  \<comment> \<open>what the buttons, the tray and the background loop do\<close>
  "update_turn a w c =
     (case a of
        DoCheck \<Rightarrow> check_by_owner w c
      | DoFetch \<Rightarrow> fetch_if_wanted w c
      | DoInstall \<Rightarrow> snd (install_by_owner w c)
      | DoBeat \<Rightarrow> update_beat w c
      | DoQuit \<Rightarrow> quit_app w c
      | DoPause \<Rightarrow> pause_by_owner c
      | DoResume \<Rightarrow> resume_by_owner c)"

fun update_turns :: "(update_act \<times> update_world) list \<Rightarrow> app_ctx \<Rightarrow> app_ctx" where
  "update_turns [] c = c"
| "update_turns ((a, w) # ts) c = update_turns ts (update_turn a w c)"

lemma update_turn_held:
  assumes w: "updates_untouched w" and c: "ready_is_held c"
  shows "ready_is_held (update_turn a w c)"
proof (cases a)
  case DoCheck
  show ?thesis unfolding DoCheck update_turn_def update_act.case check_by_owner_def Let_def
    using check_feed_held[OF w c, of True] download_update_held by simp
next
  case DoFetch
  have "ready_is_held (if p then c else check_feed w False c)" for p
    using c check_feed_held[OF w c] by simp
  then show ?thesis unfolding DoFetch update_turn_def update_act.case fetch_if_wanted_def Let_def
    using c download_update_held by simp
next
  case DoInstall
  obtain ok c1 where d: "(if has_download c then (True, c) else download_update w True c) = (ok, c1)"
    by (cases "if has_download c then (True, c) else download_update w True c")
  have "ready_is_held c1"
    using d c download_update_held[OF c, of w True] by (auto split: if_splits)
  then show ?thesis using DoInstall c d apply_update_held[OF w]
    by (auto simp: update_turn_def install_by_owner_def split: option.splits)
next
  case DoBeat
  define c1 where "c1 = (if up_next_check (cx_updates c) \<le> uw_now w then check_feed w False c else c)"
  have "ready_is_held c1" using c check_feed_held[OF w c] by (simp add: c1_def)
  then show ?thesis using DoBeat c download_update_held apply_update_held[OF w]
    by (simp add: update_turn_def update_beat_def c1_def[symmetric])
next
  case DoQuit
  have s: "ready_is_held (stop_everything c)" using c by (simp add: ready_is_held_def)
  show ?thesis using DoQuit s apply_update_held[OF w s]
    by (simp add: update_turn_def quit_app_def apply_at_quit_def ready_is_held_def phase_of_def)
next
  case DoPause
  show ?thesis using DoPause c
    by (simp add: update_turn_def pause_by_owner_def ready_is_held_def phase_of_def)
next
  case DoResume
  show ?thesis using DoResume c
    by (simp add: update_turn_def resume_by_owner_def ready_is_held_def phase_of_def)
qed

lemma update_turns_held:
  "\<forall>t\<in>set ts. updates_untouched (snd t) \<Longrightarrow> ready_is_held c \<Longrightarrow> ready_is_held (update_turns ts c)"
proof (induction ts arbitrary: c)
  case (Cons t ts)
  obtain a w where t: "t = (a, w)" by (cases t)
  have "ready_is_held (update_turn a w c)"
    using Cons.prems t by (intro update_turn_held) simp_all
  then show ?case using Cons.IH[of "update_turn a w c"] Cons.prems(1) t by simp
qed simp

definition example_update :: app_update where
  "example_update = \<lparr>ud_version = lit ''2'', ud_notes = None\<rparr>"

definition update_day :: update_world where
  "update_day = \<lparr>uw_now = 0, uw_wall = 0, uw_nanos = 0, uw_feed = Ok (Some example_update), uw_chunks = [], uw_length = None,
     uw_download = Ok (), uw_idle = 0, uw_install = (\<lambda>_. Err (lit ''no space'')), uw_gap = \<lambda>_ c. c\<rparr>"

definition example_app :: app_ctx where
  "example_app = \<lparr>cx_core = blank_shared default_settings, cx_helper = example_installer, cx_approvals = no_approvals,
     cx_updates = new_updates update_day True False None None,
     cx_prefs = default_prefs\<lparr>pf_onboarded := True\<rparr>,
     cx_visible = True, cx_version = lit ''1'', cx_shutdown = False, cx_relaunch = False, cx_exited = False, cx_phases = []\<rparr>"


section \<open>A moment that disturbs nobody\<close>

lemma download_keeps_the_rest:
  assumes "uw_gap w AwDownload = (\<lambda>c. c)"
  shows "cx_core (snd (download_update w b c)) = cx_core c"
    "cx_version (snd (download_update w b c)) = cx_version c"
    "cx_exited (snd (download_update w b c)) = cx_exited c"
    "cx_prefs (snd (download_update w b c)) = cx_prefs c"
    "cx_approvals (snd (download_update w b c)) = cx_approvals c"
  using assms by (auto simp: download_update_def Let_def progress_told_fields split: option.splits sum.splits)

lemma check_answer_keeps:
  "cx_core (check_answer w b before c) = cx_core c"
  "cx_version (check_answer w b before c) = cx_version c"
  "cx_exited (check_answer w b before c) = cx_exited c"
  "cx_prefs (check_answer w b before c) = cx_prefs c"
  "cx_approvals (check_answer w b before c) = cx_approvals c"
  "cx_helper (check_answer w b before c) = cx_helper c"
  "up_blocked (cx_updates (check_answer w b before c)) = up_blocked (cx_updates c)"
  "up_started_hidden (cx_updates (check_answer w b before c)) = up_started_hidden (cx_updates c)"
  "up_window_was_shown (cx_updates (check_answer w b before c)) = up_window_was_shown (cx_updates c)"
  by (auto simp: check_answer_def Let_def set_update_phase_def on_updates_def split: option.splits sum.splits)

lemma check_feed_keeps:
  assumes "uw_gap w AwFeed = (\<lambda>c. c)"
  shows "cx_core (check_feed w b c) = cx_core c"
    "cx_version (check_feed w b c) = cx_version c"
    "cx_exited (check_feed w b c) = cx_exited c"
    "cx_prefs (check_feed w b c) = cx_prefs c"
    "cx_approvals (check_feed w b c) = cx_approvals c"
    "quiet_moment w (check_feed w b c) = quiet_moment w c"
    "up_blocked (cx_updates (check_feed w b c)) = up_blocked (cx_updates c)"
  using assms by (auto simp: check_feed_def Let_def check_answer_keeps quiet_moment_def nothing_in_flight_def
      set_update_phase_def on_updates_def)

definition as_it_was :: "app_ctx \<Rightarrow> app_ctx \<Rightarrow> bool" where
  \<comment> \<open>the synth and the owner notice nothing\<close>
  "as_it_was c c' \<longleftrightarrow> cx_core c' = cx_core c \<and> cx_version c' = cx_version c \<and> cx_exited c' = cx_exited c \<and>
     cx_prefs c' = cx_prefs c \<and> cx_approvals c' = cx_approvals c"

definition work_in_flight :: "app_ctx \<Rightarrow> bool" where
  "work_in_flight c \<longleftrightarrow> sh_streams_open (cx_core c) \<noteq> 0 \<or> aq_pending (cx_approvals c) \<noteq> [] \<or> helper_busy (in_state (cx_helper c))"

definition owner_present :: "update_world \<Rightarrow> app_ctx \<Rightarrow> bool" where
  \<comment> \<open>used the computer within three minutes, and has this app in view or started it\<close>
  "owner_present w c \<longleftrightarrow> uw_idle w < 180 \<and> (up_window_was_shown (cx_updates c) \<or> \<not> up_started_hidden (cx_updates c))"

lemma busy_apply_put_back:
  assumes "up_blocked (cx_updates c) = None" and "up_downloaded (cx_updates c) = Some u"
    and "\<not> nothing_in_flight c"
  shows "apply_update w ApplyQuiet c =
     (Err (lit ''busy''), set_update_phase (UpReady (ud_version u) (ud_notes u)) c)"
proof -
  have c: "on_updates (\<lambda>x. x\<lparr>up_downloaded := Some u\<rparr>) (on_updates (\<lambda>x. x\<lparr>up_downloaded := None\<rparr>) c) = c"
    using assms(2) by (simp add: on_updates_def)
  have "\<not> nothing_in_flight (on_updates (\<lambda>x. x\<lparr>up_downloaded := None\<rparr>) c)"
    using assms(3) by (simp add: nothing_in_flight_def)
  then show ?thesis using assms by (simp add: apply_update_def Let_def c)
qed


section \<open>When an installation fails\<close>

lemma resume_pause_flags [simp]: "sh_paused (resume s) = False" "sh_paused (pause s) = True"
  by (simp_all add: resume_def pause_def bump_control_def emit_def stop_cua_def clear_task_def daemon_gone_def
      shell_stop_all_def Let_def)

text \<open>
  A failed installation is undone. When the plugin could not put the new version in
  place, the error is told, the phase says that the installation failed, the core is paused
  exactly when it was paused before, no mark to come back hidden stays, the settings are as
  they were, the version on disk is the old one, the app runs on, and the download is dropped
  so that a later check finds it anew.
\<close>

theorem failed_install_undone:
  assumes "uw_gap w = (\<lambda>k c. c)" and "uw_install w u = Err detail"
    and "up_blocked (cx_updates c) = None" and "up_downloaded (cx_updates c) = Some u"
    and "how = ApplyByOwner \<or> how = ApplyQuiet \<and> nothing_in_flight c"
    and "apply_update w how c = (r, c')"
  shows "r = Err detail \<and> phase_of c' = UpFailed (Some (ud_version u)) StepInstall detail \<and>
    sh_paused (cx_core c') = sh_paused (cx_core c) \<and> cx_prefs c' = (cx_prefs c)\<lparr>pf_resume_hidden := None\<rparr> \<and>
    cx_version c' = cx_version c \<and> cx_exited c' = cx_exited c \<and> \<not> has_download c'"
proof -
  have how: "how \<noteq> ApplyAtQuit" using assms(5) by auto
  have "nothing_in_flight (on_updates f c) = nothing_in_flight c" for f by (simp add: nothing_in_flight_def)
  then have "(r, c') = apply_installing w how u (on_updates (\<lambda>x. x\<lparr>up_downloaded := None\<rparr>) c)"
    using assms(3-6) by (auto simp: apply_update_def Let_def split: if_splits)
  then show ?thesis
    using assms(1,2) how by (simp add: apply_installing_def apply_failed_def has_download_def Let_def)
qed

lemma failed_install_undone_witness:
  "let c = on_updates (\<lambda>x. x\<lparr>up_downloaded := Some example_update\<rparr>) example_app;
       (r, c') = apply_update update_day ApplyByOwner c
   in r = Err (lit ''no space'') \<and> \<not> sh_paused (cx_core c') \<and> cx_version c' = lit ''1'' \<and> \<not> has_download c'"
proof -
  let ?c = "on_updates (\<lambda>x. x\<lparr>up_downloaded := Some example_update\<rparr>) example_app"
  obtain r c' where e: "apply_update update_day ApplyByOwner ?c = (r, c')" by (cases "apply_update update_day ApplyByOwner ?c")
  have "uw_gap update_day = (\<lambda>k c. c)" "uw_install update_day example_update = Err (lit ''no space'')"
    "up_blocked (cx_updates ?c) = None" "up_downloaded (cx_updates ?c) = Some example_update"
    "\<not> sh_paused (cx_core ?c)" "cx_version ?c = lit ''1''"
    by (simp_all add: update_day_def example_app_def new_updates_def blank_shared_def make_shared_def Let_def)
  then show ?thesis
    using failed_install_undone[of update_day example_update "lit ''no space''" ?c ApplyByOwner r c'] e by simp
qed

text \<open>
  The safety copy. On macOS, an installation that begins with a whole app (its program
  is there, its signature holds) ends with a whole app, whatever the plugin did to the place,
  as long as the copy can be put back by one of the two ways; a success means that the app
  there is whole; and nothing is touched when no copy could be made.
\<close>

theorem installed_app_is_whole:
  assumes "bundle_is_whole place = Ok ()" and "gw_rename g \<or> gw_copy_back g"
  shows "bundle_is_whole (snd (install_guarded g place)) = Ok () \<and>
    (\<not> gw_clone g \<and> \<not> gw_plain g \<longrightarrow> install_guarded g place = (fst (install_guarded g place), place) \<and>
       \<not> is_ok (fst (install_guarded g place)))"
  using assms by (auto simp: install_guarded_def Let_def is_ok_iff split: sum.splits prod.splits option.splits)

definition example_guard :: guard_world where
  "example_guard = \<lparr>gw_place = True, gw_mkdir = None, gw_clone = False, gw_plain = True,
     gw_install = (\<lambda>_. (Err (lit ''moved away''), None)), gw_rename = False, gw_copy_back = True\<rparr>"

lemma installed_app_is_whole_witness:
  "bundle_is_whole (snd (install_guarded example_guard (Some \<lparr>bu_version = lit ''1'', bu_program = True, bu_signed = True\<rparr>))) = Ok ()"
  using installed_app_is_whole[of "Some \<lparr>bu_version = lit ''1'', bu_program = True, bu_signed = True\<rparr>" example_guard]
  by (simp add: bundle_is_whole_def example_guard_def)

section \<open>Where the code falls short\<close>


lemma stays_checking:
  assumes "up_configured (cx_updates c)" and "up_downloaded (cx_updates c) = Some u" and "phase_of c = UpChecking"
    and "\<not> cx_shutdown c"
    and "uw_gap w AwFeed = (\<lambda>c. c)" and "uw_feed w = Ok (Some f)" and "ud_version f = ud_version u"
  shows "phase_of (update_beat w c) = UpChecking" and "up_downloaded (cx_updates (update_beat w c)) = Some u"
    and "up_configured (cx_updates (update_beat w c))" and "cx_version (update_beat w c) = cx_version c"
  using assms by (auto simp: update_beat_def check_feed_def check_answer_def phase_of_def set_update_phase_def
      on_updates_def Let_def)

text \<open>
  A pause of the owner's is undone by a failing installation. When the owner pauses
  while the new version is being put in place and that fails, the core is resumed because it
  was not paused when the installation began; the app remembers the pause all the same, so
  the synth works on although the owner stopped everything.
\<close>

theorem owner_pause_undone:
  assumes "up_blocked (cx_updates c) = None" and "up_downloaded (cx_updates c) = Some u"
    and "\<not> sh_paused (cx_core c)" and "uw_install w u = Err detail"
    and "uw_gap w AwPause = (\<lambda>c. c)" and "uw_gap w AwInstall = pause_by_owner"
  shows "\<not> sh_paused (cx_core (snd (apply_update w ApplyByOwner c))) \<and>
    pf_paused (cx_prefs (snd (apply_update w ApplyByOwner c)))"
  using assms by (simp add: apply_update_def apply_installing_def apply_failed_def pause_by_owner_def Let_def)

section \<open>Witnesses\<close>

definition ready_app :: app_ctx where
  "ready_app = set_update_phase (UpReady (lit ''2'') None) (on_updates (\<lambda>x. x\<lparr>up_downloaded := Some example_update\<rparr>) example_app)"

lemma ready_app_parts:
  "up_blocked (cx_updates ready_app) = None" "up_downloaded (cx_updates ready_app) = Some example_update"
  "up_configured (cx_updates ready_app)" "phase_of ready_app = UpReady (lit ''2'') None" "\<not> sh_paused (cx_core ready_app)"
  "pf_auto_update (cx_prefs ready_app)" "cx_version ready_app = lit ''1''" "cx_approvals ready_app = no_approvals"
  "sh_streams_open (cx_core ready_app) = 0" "in_state (cx_helper ready_app) = InIdle"
  "\<not> cx_shutdown ready_app"
  by (simp_all add: ready_app_def example_app_def new_updates_def blank_shared_def make_shared_def
      example_installer_def new_installer_def default_prefs_def Let_def)



definition feed_down :: update_world where
  "feed_down = update_day\<lparr>uw_feed := Err (lit ''no network'')\<rparr>"

definition night :: update_world where
  "night = update_day\<lparr>uw_now := seconds (7 * 3600), uw_idle := 600\<rparr>"


lemma owner_pause_undone_witness:
  "\<not> sh_paused (cx_core (snd (apply_update
      (update_day\<lparr>uw_gap := \<lambda>k. if k = AwInstall then pause_by_owner else (\<lambda>c. c)\<rparr>) ApplyByOwner ready_app)))"
  using owner_pause_undone[of ready_app example_update "update_day\<lparr>uw_gap := \<lambda>k. if k = AwInstall then pause_by_owner else (\<lambda>c. c)\<rparr>"]
    ready_app_parts by (simp add: update_day_def)

end
