(* ===== verification/Spec2Isabelle.thy ===== *)
theory Spec2Isabelle
  imports Grants Settings_Model Island_Settings Observe_Settings Secrets Calendar_Time
    Address_Policy Line_Frames Link_Requests Journal Pairing Computer_Apps Computer_Lease
    Core_State Core_Policy Core_Links Link_Loop Observe_Reports Files_Confinement
    Browser_Cleaning Browser_Sessions Shell_Gate App_Requests App_Gate
    Rpc_Gate Island_Messages Control_Stream Computer_Guard Mcp_Gate
    Platform_Requests Account_Sync Driver_Manifest Driver_Install Driver_Session
    Shell_Approvals App_Updates
begin

text \<open>
  SNTH Connect: the core of the desktop companion, modelled.

  The program links a computer to one or more synths. \<open>crates/connect-core\<close> holds the
  core: the owner's settings, the answers the owner gave, the secret store, the links, and
  the services a synth may use over a link (traffic, files, cookies, computer control, the
  command line, apps of the computer). \<open>crates/connect-host\<close> is the helper of the browser
  extension. \<open>app/src-tauri\<close> is the desktop shell around the core.

  Theories and the code they model (paths below \<open>src/crates/connect-core/src\<close>):

  \<^item> \<open>Prelude\<close>, \<open>Unicode_Text\<close>, \<open>Json_Value\<close>: results, instants, saturating sums, text as
    code points with its UTF-8 length, JSON values. The base of all others.
  \<^item> \<open>Grants\<close> (\<open>grant.rs\<close>): answers per synth, capability and scope. The interface
    \<open>consent_book\<close> states what a store of answers promises; \<open>grant_book\<close> discharges it for
    the code's store, and the history theorem rests on it.
  \<^item> \<open>Settings_Model\<close> (\<open>settings.rs\<close>): the settings, the presets, the stored file and its
    migrations. \<open>Island_Settings\<close> (\<open>island.rs\<close>, \<open>island/limits.rs\<close>) and
    \<open>Observe_Settings\<close> (\<open>observe.rs\<close>) are the parts of the file those modules own.
  \<^item> \<open>Secrets\<close> (\<open>secret.rs\<close>, \<open>slot.rs\<close>, \<open>core.rs\<close>): the interface \<open>secret_store\<close> with its two
    interpretations, and the move of a token of an old version.
  \<^item> \<open>Calendar_Time\<close> (\<open>apps/time.rs\<close>): civil dates, RFC 3339.
  \<^item> \<open>Address_Policy\<close> (\<open>tcp.rs\<close>): which addresses are public, and the dial.
  \<^item> \<open>Line_Frames\<close> (\<open>proto.rs\<close>, \<open>rpc.rs\<close>, \<open>connect-host/src/frame.rs\<close>): readers over chunks.
  \<^item> \<open>Link_Requests\<close> (\<open>requests.rs\<close>), \<open>Journal\<close> (\<open>journal.rs\<close>), \<open>Pairing\<close> (\<open>pairing.rs\<close>).
  \<^item> \<open>Computer_Apps\<close> (\<open>cua_apps.rs\<close>): the owner's choice of apps, the decision on a tool
    call, the directory of apps and windows, the picker.
  \<^item> \<open>Core_State\<close> (\<open>core.rs\<close>, \<open>slot.rs\<close>): the record \<open>shared\<close> for \<open>Shared\<close>. A link slot is a
    cell of \<open>sh_slots\<close>, named by its index (an \<open>Arc\<close> may outlive its place in the list of
    links); \<open>sh_links\<close> lists the cells that are links now. What the code sends (events, the
    settings watch, messages to browsers, saves) is appended to lists of the record.
  \<^item> \<open>Core_Policy\<close> (\<open>core.rs\<close>, \<open>tcp.rs\<close>): asking the owner, traffic, changes of the settings,
    pause, the name of the running task, taking answers back.
  \<^item> \<open>Computer_Lease\<close> (\<open>core.rs\<close>): one synth drives the computer; the interface
    \<open>exclusive_control\<close> and its interpretation on the lease.
  \<^item> \<open>Core_Links\<close> (\<open>core.rs\<close>, \<open>browser.rs\<close>): pairing, unpairing, start, and the step relation
    of the links with its invariant.
  \<^item> \<open>Link_Loop\<close> (\<open>link.rs\<close>): the reconnect loop of one link as a step relation: when it dials,
    asks the platform for a fresh token, waits for a repair, and ends.
  \<^item> \<open>Observe_Reports\<close> (\<open>observe.rs\<close>): descriptors of a synth, the current values, the plan of
    one link, and the synth's view of what was sent.
  \<^item> \<open>Files_Confinement\<close> (\<open>files.rs\<close>): a disk of directories, files and links, the resolving
    of a path, the check against the shared folders, reading and writing.
  \<^item> \<open>Browser_Cleaning\<close> and \<open>Browser_Sessions\<close> (\<open>browser.rs\<close>): what is kept of a message of
    the extension, the remembered browsers, the connected sessions, reading cookies through
    one, linking a browser to a synth's vault, and the owner's commands.
  \<^item> \<open>Shell_Gate\<close> (\<open>shell.rs\<close>): a command of a synth: the request, the question, the run with
    everything that may end it, the end of the output that is kept.
  \<^item> \<open>App_Requests\<close> (\<open>apps/request.rs\<close>): the checked calls of the owner's apps.
  \<^item> \<open>App_Gate\<close> (\<open>apps/mod.rs\<close>): the catalog, whether to ask, what the question shows, the gate
    every call of an app goes through, the bounds on what is told of an answer.
  \<^item> \<open>Rpc_Gate\<close> (\<open>rpc.rs\<close>): the calls of files and cookies, the writes that go on chunk by chunk,
    asking for a permission ahead of time.
  \<^item> \<open>Island_Messages\<close> (\<open>island.rs\<close>): a message of the owner to a synth, checked and sent at
    most twice, the cache of faces, the events of a synth.
  \<^item> \<open>Control_Stream\<close> (\<open>wire.rs\<close>, \<open>link.rs\<close>): what the app says of itself, the control stream as a
    machine whose events are what comes in, what the watches tell and what other tasks do
    meanwhile, and the streams of one connection.
  \<^item> \<open>Computer_Guard\<close> (\<open>cua_guard.rs\<close>, \<open>cua_look.rs\<close>, \<open>cua.rs\<close>): what a synth may never call, where
    the driver may write, the owner's look. \<open>Mcp_Gate\<close> (\<open>mcp.rs\<close>): the gate of a working stream,
    the checks of every message to the driver, the turn of a stream.
  \<^item> \<open>Driver_Manifest\<close> (\<open>cua_apps.rs\<close>), \<open>Driver_Install\<close> (\<open>cua_install.rs\<close>), \<open>Driver_Session\<close> (\<open>core.rs\<close>,
    \<open>cua.rs\<close>): the manifest of a daemon for only the chosen apps; the app's own copies of the
    driver, their download, check and switch; our daemon: its start, the back-off, when it is
    replaced, the sessions that hold it, the stop in its two steps. Other tasks act at the
    awaits under a rely condition (\<open>lock_kept\<close>), which is what the lock on the daemon gives.
  \<^item> \<open>Platform_Requests\<close> and \<open>Account_Sync\<close> (\<open>account.rs\<close>): the requests to the platform and the
    reading of its answers; the sign-in, the sync that keeps the links in step with the
    account's synths, the sign-out, a fresh token of a link, what the owner sees. What other
    tasks do at each await is the parameter \<open>pw_gap\<close>; the lock \<open>busy\<close> makes syncs one at a time.
  \<^item> \<open>Shell_Approvals\<close> and \<open>App_Updates\<close> (\<open>app/src-tauri/src/approvals.rs\<close>, \<open>updates.rs\<close>, \<open>actions.rs\<close>): the
    queue of questions between the core and the approval window; how the app finds, downloads
    and installs a new version of itself at a moment that disturbs nobody, and what is put back
    when that fails. The state \<open>app_ctx\<close> holds the core, the helper, the queue and the updates.

  Conventions. Time is a parameter: an instant is a number of nanoseconds, a wall clock a
  number of seconds. What the code gets from outside (case folding of Unicode, the JSON
  reader and printer, name resolution, the driver's answers, the owner's answers) is an
  argument; hypotheses on it are named where they are used. A failure is the left side of a
  sum. A text is a list of code points; a limit in bytes counts UTF-8.

  Recursion is structural everywhere but in \<open>trim_start_matches\<close>, \<open>digits\<close>, \<open>send_loop\<close>, the walk of
  a path and \<open>ready_loop\<close> (which ends by the 200th look, 20 s at 100 ms apart), whose termination
  is proved; there is no fuel.

  Not modelled: the windows, the tray and the commands of the desktop shell, audio and speech, the drivers of the operating system
  (presence, power, windows, AppleScript, keyring), HTTP to the platform, the byte pumps
  (their outcome is a parameter), the processes of the helper themselves, and the extension, the web
  UI and the relay, which are not Rust.
\<close>

end
